(* ===== verification/Hookfs_Prelude.thy ===== *)
theory Hookfs_Prelude
  imports Main "HOL-Library.AList" "HOL-Library.Word" "HOL-Library.Sublist"
begin

text \<open>
  Shared vocabulary of the development: the fact collections the component proofs draw
  on, the machine-integer operations of Rust that the sources use (\<open>u64\<close> as \<open>nat\<close> with
  the saturation and the overflow check written out), the \<open>std::io::Error\<close> values, the
  \<open>Vec\<close> operations on byte buffers, and the string primitives of \<open>str\<close>
  (\<open>strip_prefix\<close>, \<open>split\<close>).  A \<open>HashMap\<close> is an association list with distinct keys:
  its order stands for the unspecified iteration order, \<^const>\<open>map_of\<close> is its meaning,
  \<open>AList.update\<close> / \<open>AList.delete\<close> are \<open>insert\<close> / \<open>remove\<close>.
\<close>

named_theorems path_simps \<open>rewriting of path components and keys\<close>
named_theorems io_simps \<open>unfolding of buffer and cursor operations\<close>
named_theorems inv_intros \<open>preservation of component invariants\<close>

section \<open>Machine integers\<close>

type_synonym u64 = nat
type_synonym byte = "8 word"

definition U64_MAX :: nat where
  "U64_MAX = 2 ^ 64 - 1"

definition I64_MAX :: int where
  "I64_MAX = 2 ^ 63 - 1"

definition sat_add :: "u64 \<Rightarrow> u64 \<Rightarrow> u64" where
  "sat_add a b = min (a + b) U64_MAX"

definition checked_add :: "u64 \<Rightarrow> u64 \<Rightarrow> u64 option" where
  "checked_add a b = (if a + b \<le> U64_MAX then Some (a + b) else None)"

text \<open>The plain \<open>+\<close> of a release build, which wraps.\<close>

definition wrap_add :: "u64 \<Rightarrow> u64 \<Rightarrow> u64" where
  "wrap_add a b = (a + b) mod 2 ^ 64"

lemma wrap_add_exact: "a + b \<le> U64_MAX \<Longrightarrow> wrap_add a b = a + b"
  by (simp add: wrap_add_def U64_MAX_def)

lemma sat_add_le: "sat_add a b \<le> U64_MAX"
  by (simp add: sat_add_def)

lemma sat_add_exact: "a + b \<le> U64_MAX \<Longrightarrow> sat_add a b = a + b"
  by (simp add: sat_add_def)

lemma sat_add_gt_iff: "c \<le> U64_MAX \<Longrightarrow> c < sat_add a b \<longleftrightarrow> c < a + b \<and> c < U64_MAX"
  by (auto simp: sat_add_def)

section \<open>I/O errors\<close>

datatype io_kind =
    NotFound | PermissionDenied | AlreadyExists | InvalidInput
  | DirectoryNotEmpty | NotADirectory | IsADirectory | OtherKind

text \<open>The three representations of \<open>std::io::Error\<close>: a raw OS code, a bare kind, and a
  kind with a message.\<close>

datatype io_error = Os int | Simple io_kind | Custom io_kind string

type_synonym 'a io_result = "io_error + 'a"

fun raw_os_error :: "io_error \<Rightarrow> int option" where
  "raw_os_error (Os c) = Some c"
| "raw_os_error _ = None"

fun error_kind :: "io_error \<Rightarrow> io_kind" where
  "error_kind (Simple k) = k"
| "error_kind (Custom k _) = k"
| "error_kind (Os _) = OtherKind"

section \<open>Byte buffers\<close>

definition vec_resize :: "nat \<Rightarrow> 'a \<Rightarrow> 'a list \<Rightarrow> 'a list" where
  "vec_resize n x xs = take n xs @ replicate (n - length xs) x"

definition vec_copy_at :: "nat \<Rightarrow> 'a list \<Rightarrow> 'a list \<Rightarrow> 'a list" where
  "vec_copy_at i src dst =
     (if i + length src \<le> length dst
      then take i dst @ src @ drop (i + length src) dst else dst)"

lemma length_vec_resize [simp]: "length (vec_resize n x xs) = n"
  by (simp add: vec_resize_def)

lemma length_vec_copy_at [simp]: "length (vec_copy_at i src dst) = length dst"
  by (simp add: vec_copy_at_def)

lemma nth_vec_resize:
  "i < n \<Longrightarrow> vec_resize n x xs ! i = (if i < length xs then xs ! i else x)"
  by (auto simp: vec_resize_def nth_append)

lemma nth_vec_copy_at:
  assumes "i + length src \<le> length dst" and "j < length dst"
  shows "vec_copy_at i src dst ! j =
    (if i \<le> j \<and> j < i + length src then src ! (j - i) else dst ! j)"
  using assms by (auto simp: vec_copy_at_def nth_append)

lemma vec_resize_same [simp]: "vec_resize (length xs) x xs = xs"
  by (simp add: vec_resize_def)

lemma take_drop_vec_copy_at:
  "i + length src \<le> length dst \<Longrightarrow> take (length src) (drop i (vec_copy_at i src dst)) = src"
  by (simp add: vec_copy_at_def)

section \<open>Strings\<close>

definition SEP :: char where
  "SEP = CHR ''/''"

fun strip_prefix :: "'a list \<Rightarrow> 'a list \<Rightarrow> 'a list option" where
  "strip_prefix [] s = Some s"
| "strip_prefix (a # p) (b # s) = (if a = b then strip_prefix p s else None)"
| "strip_prefix (a # p) [] = None"

lemma strip_prefix_Some_iff [simp]: "strip_prefix p s = Some r \<longleftrightarrow> s = p @ r"
  by (induction p s rule: strip_prefix.induct) auto

lemma strip_prefix_append [simp]: "strip_prefix p (p @ r) = Some r"
  by (induction p) auto

lemma strip_prefix_same [simp]: "strip_prefix p p = Some []"
  using strip_prefix_append [of p "[]"] by simp

lemma strip_prefix_None_iff: "strip_prefix p s = None \<longleftrightarrow> \<not> prefix p s"
  by (induction p s rule: strip_prefix.induct) auto

fun split_on :: "('a \<Rightarrow> bool) \<Rightarrow> 'a list \<Rightarrow> 'a list list" where
  "split_on P [] = [[]]"
| "split_on P (c # cs) =
     (if P c then [] # split_on P cs
      else (c # hd (split_on P cs)) # tl (split_on P cs))"

lemma split_on_not_Nil [simp]: "split_on P s \<noteq> []"
  by (induction s) auto

lemma split_on_append:
  "split_on P (s @ t) =
     butlast (split_on P s) @ (last (split_on P s) @ hd (split_on P t)) # tl (split_on P t)"
proof (induction s)
  case (Cons a s)
  then show ?case by (cases "split_on P s") auto
qed simp

lemma split_on_no_sep: "(\<forall>c \<in> set s. \<not> P c) \<Longrightarrow> split_on P s = [s]"
  by (induction s) auto

lemma split_on_segments: "x \<in> set (split_on P s) \<Longrightarrow> c \<in> set x \<Longrightarrow> \<not> P c"
proof (induction s arbitrary: x)
  case (Cons a s)
  obtain y ys where eq: "split_on P s = y # ys" by (meson split_on_not_Nil neq_Nil_conv)
  show ?case
  proof (cases "P a")
    case True
    with Cons eq show ?thesis by auto
  next
    case False
    with Cons.prems eq consider "x = a # y" | "x \<in> set ys" by auto
    then show ?thesis using False Cons eq by cases auto
  qed
qed simp

lemma split_on_single: "split_on P s = [x] \<Longrightarrow> x = s"
proof (induction s arbitrary: x)
  case (Cons a s)
  then show ?case by (cases "split_on P s") (auto split: if_splits)
qed simp

text \<open>\<open>str::split_once\<close> at a character.\<close>

definition split_once :: "char \<Rightarrow> string \<Rightarrow> (string \<times> string) option" where
  "split_once c s =
     (if c \<in> set s then Some (takeWhile (\<lambda>x. x \<noteq> c) s, tl (dropWhile (\<lambda>x. x \<noteq> c) s)) else None)"

section \<open>Association lists as hash maps\<close>

lemma map_of_update [simp]: "map_of (AList.update k v m) = (map_of m)(k \<mapsto> v)"
  by (rule update_conv')

lemma map_of_delete [simp]: "map_of (AList.delete k m) = (map_of m)(k := None)"
  by (rule delete_conv')

lemma map_of_filter_keys:
  "map_of (filter (\<lambda>(k, _). P k) m) = (\<lambda>k. if P k then map_of m k else None)"
  by (induction m) (auto simp: fun_eq_iff)

lemma distinct_filter_keys:
  "distinct (map fst m) \<Longrightarrow> distinct (map fst (filter P m))"
  by (induction m) (auto simp: image_iff)

lemma fst_set_update: "fst ` set (AList.update k v m) = insert k (fst ` set m)"
  by (induction m) auto

text \<open>The total weight of the values of a map, under one insertion and one removal: the
  accounting lemmas of the file store and of its reference counts are instances.\<close>

definition wsum :: "('v \<Rightarrow> nat) \<Rightarrow> ('k \<times> 'v) list \<Rightarrow> nat" where
  "wsum w m = sum_list (map (\<lambda>(_, v). w v) m)"

lemma wsum_simps [simp]: "wsum w [] = 0" "wsum w ((k, v) # m) = w v + wsum w m"
  by (simp_all add: wsum_def)

lemma wsum_update:
  "distinct (map fst m) \<Longrightarrow>
     wsum w (AList.update k v m) + (case map_of m k of None \<Rightarrow> 0 | Some x \<Rightarrow> w x) = wsum w m + w v"
proof (induction m)
  case (Cons a m)
  then show ?case by (cases a) auto
qed simp

lemma delete_notin: "k \<notin> fst ` set m \<Longrightarrow> AList.delete k m = m"
  by (induction m) auto

lemma wsum_delete:
  "distinct (map fst m) \<Longrightarrow>
     wsum w (AList.delete k m) + (case map_of m k of None \<Rightarrow> 0 | Some x \<Rightarrow> w x) = wsum w m"
proof (induction m)
  case (Cons a m)
  then show ?case by (cases a) (auto simp: delete_notin)
qed simp

lemma wsum_zero_iff: "wsum w m = 0 \<longleftrightarrow> (\<forall>(k, v) \<in> set m. w v = 0)"
  by (induction m) auto

lemma wsum_ge: "map_of m k = Some v \<Longrightarrow> w v \<le> wsum w m"
  by (induction m) (auto split: if_splits)

lemma alist_update_same: "map_of al k = Some v \<Longrightarrow> AList.update k v al = al"
  by (induction al) auto

lemma distinct_update_keys: "distinct (map fst m) \<Longrightarrow> distinct (map fst (AList.update k v m))"
  by (rule distinct_update)

lemma distinct_delete_keys: "distinct (map fst m) \<Longrightarrow> distinct (map fst (AList.delete k m))"
  by (rule distinct_delete)

end
