(* ===== verification/Sym_Tables.thy ===== *)
theory Sym_Tables
  imports Hookfs_Prelude
begin

text \<open>
  The symbol tables of \<^verbatim>\<open>crates/hookfs/src/dispatch.rs\<close>: one enumeration per platform of the
  functions that may be hooked, their exported names, the list \<open>ALL\<close> and the discriminants
  that index the table of originals.  The contract of such a table is the locale
  \<open>sym_table\<close>, which each of the three tables satisfies.
\<close>

section \<open>The three platforms\<close>

datatype sym =
    Fopen | Fopen64 | Open | Open64 | Openat | Read | Readv | Pread | Lseek | Lseek64 | Close
  | Write | Writev | Pwrite | Ftruncate | Ftruncate64 | Truncate | Fsync | Mkdir | Remove
  | Rename | Unlink | Link | Symlink | Sendfile | Fchmod | Fchmodat | Utimensat | Xstat
  | Fxstat | Lxstat | Xstat64 | Fxstat64 | Lxstat64 | Stat | Fstat | Lstat | Fstatat | Statx
  | Statvfs | Fstatvfs | Opendir | Fdopendir | Readdir | Readdir64 | Closedir | Realpath
  | Access | Faccessat | Getcwd | Chdir | Readlink | Dlopen | Dlclose

primrec sym_name :: "sym \<Rightarrow> string" where
  "sym_name Fopen = ''fopen''"
| "sym_name Fopen64 = ''fopen64''"
| "sym_name Open = ''open''"
| "sym_name Open64 = ''open64''"
| "sym_name Openat = ''openat''"
| "sym_name Read = ''read''"
| "sym_name Readv = ''readv''"
| "sym_name Pread = ''pread''"
| "sym_name Lseek = ''lseek''"
| "sym_name Lseek64 = ''lseek64''"
| "sym_name Close = ''close''"
| "sym_name Write = ''write''"
| "sym_name Writev = ''writev''"
| "sym_name Pwrite = ''pwrite''"
| "sym_name Ftruncate = ''ftruncate''"
| "sym_name Ftruncate64 = ''ftruncate64''"
| "sym_name Truncate = ''truncate''"
| "sym_name Fsync = ''fsync''"
| "sym_name Mkdir = ''mkdir''"
| "sym_name Remove = ''remove''"
| "sym_name Rename = ''rename''"
| "sym_name Unlink = ''unlink''"
| "sym_name Link = ''link''"
| "sym_name Symlink = ''symlink''"
| "sym_name Sendfile = ''sendfile''"
| "sym_name Fchmod = ''fchmod''"
| "sym_name Fchmodat = ''fchmodat''"
| "sym_name Utimensat = ''utimensat''"
| "sym_name Xstat = ''__xstat''"
| "sym_name Fxstat = ''__fxstat''"
| "sym_name Lxstat = ''__lxstat''"
| "sym_name Xstat64 = ''__xstat64''"
| "sym_name Fxstat64 = ''__fxstat64''"
| "sym_name Lxstat64 = ''__lxstat64''"
| "sym_name Stat = ''stat''"
| "sym_name Fstat = ''fstat''"
| "sym_name Lstat = ''lstat''"
| "sym_name Fstatat = ''fstatat''"
| "sym_name Statx = ''statx''"
| "sym_name Statvfs = ''statvfs''"
| "sym_name Fstatvfs = ''fstatvfs''"
| "sym_name Opendir = ''opendir''"
| "sym_name Fdopendir = ''fdopendir''"
| "sym_name Readdir = ''readdir''"
| "sym_name Readdir64 = ''readdir64''"
| "sym_name Closedir = ''closedir''"
| "sym_name Realpath = ''realpath''"
| "sym_name Access = ''access''"
| "sym_name Faccessat = ''faccessat''"
| "sym_name Getcwd = ''getcwd''"
| "sym_name Chdir = ''chdir''"
| "sym_name Readlink = ''readlink''"
| "sym_name Dlopen = ''dlopen''"
| "sym_name Dlclose = ''dlclose''"

definition sym_ALL :: "sym list" where
  "sym_ALL =
     [Fopen, Fopen64, Open, Open64, Openat, Read, Readv, Pread, Lseek, Lseek64, Close, Write
      , Writev, Pwrite, Ftruncate, Ftruncate64, Truncate, Fsync, Mkdir, Remove, Rename, Unlink
      , Link, Symlink, Sendfile, Fchmod, Fchmodat, Utimensat, Xstat, Fxstat, Lxstat, Xstat64
      , Fxstat64, Lxstat64, Stat, Fstat, Lstat, Fstatat, Statx, Statvfs, Fstatvfs, Opendir
      , Fdopendir, Readdir, Readdir64, Closedir, Realpath, Access, Faccessat, Getcwd, Chdir
      , Readlink, Dlopen, Dlclose]"

primrec sym_index :: "sym \<Rightarrow> nat" where
  "sym_index Fopen = 0"
| "sym_index Fopen64 = 1"
| "sym_index Open = 2"
| "sym_index Open64 = 3"
| "sym_index Openat = 4"
| "sym_index Read = 5"
| "sym_index Readv = 6"
| "sym_index Pread = 7"
| "sym_index Lseek = 8"
| "sym_index Lseek64 = 9"
| "sym_index Close = 10"
| "sym_index Write = 11"
| "sym_index Writev = 12"
| "sym_index Pwrite = 13"
| "sym_index Ftruncate = 14"
| "sym_index Ftruncate64 = 15"
| "sym_index Truncate = 16"
| "sym_index Fsync = 17"
| "sym_index Mkdir = 18"
| "sym_index Remove = 19"
| "sym_index Rename = 20"
| "sym_index Unlink = 21"
| "sym_index Link = 22"
| "sym_index Symlink = 23"
| "sym_index Sendfile = 24"
| "sym_index Fchmod = 25"
| "sym_index Fchmodat = 26"
| "sym_index Utimensat = 27"
| "sym_index Xstat = 28"
| "sym_index Fxstat = 29"
| "sym_index Lxstat = 30"
| "sym_index Xstat64 = 31"
| "sym_index Fxstat64 = 32"
| "sym_index Lxstat64 = 33"
| "sym_index Stat = 34"
| "sym_index Fstat = 35"
| "sym_index Lstat = 36"
| "sym_index Fstatat = 37"
| "sym_index Statx = 38"
| "sym_index Statvfs = 39"
| "sym_index Fstatvfs = 40"
| "sym_index Opendir = 41"
| "sym_index Fdopendir = 42"
| "sym_index Readdir = 43"
| "sym_index Readdir64 = 44"
| "sym_index Closedir = 45"
| "sym_index Realpath = 46"
| "sym_index Access = 47"
| "sym_index Faccessat = 48"
| "sym_index Getcwd = 49"
| "sym_index Chdir = 50"
| "sym_index Readlink = 51"
| "sym_index Dlopen = 52"
| "sym_index Dlclose = 53"

datatype darwin_sym =
    D_Fopen | D_Open | D_Openat | D_Read | D_Readv | D_Pread | D_Lseek | D_Close | D_Write
  | D_Writev | D_Pwrite | D_Ftruncate | D_Truncate | D_Fsync | D_Mkdir | D_Remove | D_Rename
  | D_Unlink | D_Link | D_Symlink | D_Fchmod | D_Fchmodat | D_Utimensat | D_Stat | D_Fstat
  | D_Lstat | D_Fstatat | D_Statvfs | D_Fstatvfs | D_Opendir | D_Fdopendir | D_Readdir
  | D_Closedir | D_Getdirentries64 | D_Realpath | D_Access | D_Faccessat | D_Getcwd
  | D_Chdir | D_Readlink | D_Dlopen | D_Dlclose

primrec darwin_sym_name :: "darwin_sym \<Rightarrow> string" where
  "darwin_sym_name D_Fopen = ''fopen''"
| "darwin_sym_name D_Open = ''open''"
| "darwin_sym_name D_Openat = ''openat''"
| "darwin_sym_name D_Read = ''read''"
| "darwin_sym_name D_Readv = ''readv''"
| "darwin_sym_name D_Pread = ''pread''"
| "darwin_sym_name D_Lseek = ''lseek''"
| "darwin_sym_name D_Close = ''close''"
| "darwin_sym_name D_Write = ''write''"
| "darwin_sym_name D_Writev = ''writev''"
| "darwin_sym_name D_Pwrite = ''pwrite''"
| "darwin_sym_name D_Ftruncate = ''ftruncate''"
| "darwin_sym_name D_Truncate = ''truncate''"
| "darwin_sym_name D_Fsync = ''fsync''"
| "darwin_sym_name D_Mkdir = ''mkdir''"
| "darwin_sym_name D_Remove = ''remove''"
| "darwin_sym_name D_Rename = ''rename''"
| "darwin_sym_name D_Unlink = ''unlink''"
| "darwin_sym_name D_Link = ''link''"
| "darwin_sym_name D_Symlink = ''symlink''"
| "darwin_sym_name D_Fchmod = ''fchmod''"
| "darwin_sym_name D_Fchmodat = ''fchmodat''"
| "darwin_sym_name D_Utimensat = ''utimensat''"
| "darwin_sym_name D_Stat = ''stat''"
| "darwin_sym_name D_Fstat = ''fstat''"
| "darwin_sym_name D_Lstat = ''lstat''"
| "darwin_sym_name D_Fstatat = ''fstatat''"
| "darwin_sym_name D_Statvfs = ''statvfs''"
| "darwin_sym_name D_Fstatvfs = ''fstatvfs''"
| "darwin_sym_name D_Opendir = ''opendir''"
| "darwin_sym_name D_Fdopendir = ''fdopendir''"
| "darwin_sym_name D_Readdir = ''readdir''"
| "darwin_sym_name D_Closedir = ''closedir''"
| "darwin_sym_name D_Getdirentries64 = ''__getdirentries64''"
| "darwin_sym_name D_Realpath = ''realpath''"
| "darwin_sym_name D_Access = ''access''"
| "darwin_sym_name D_Faccessat = ''faccessat''"
| "darwin_sym_name D_Getcwd = ''getcwd''"
| "darwin_sym_name D_Chdir = ''chdir''"
| "darwin_sym_name D_Readlink = ''readlink''"
| "darwin_sym_name D_Dlopen = ''dlopen''"
| "darwin_sym_name D_Dlclose = ''dlclose''"

definition darwin_sym_ALL :: "darwin_sym list" where
  "darwin_sym_ALL =
     [D_Fopen, D_Open, D_Openat, D_Read, D_Readv, D_Pread, D_Lseek, D_Close, D_Write, D_Writev
      , D_Pwrite, D_Ftruncate, D_Truncate, D_Fsync, D_Mkdir, D_Remove, D_Rename, D_Unlink
      , D_Link, D_Symlink, D_Fchmod, D_Fchmodat, D_Utimensat, D_Stat, D_Fstat, D_Lstat
      , D_Fstatat, D_Statvfs, D_Fstatvfs, D_Opendir, D_Fdopendir, D_Readdir, D_Closedir
      , D_Getdirentries64, D_Realpath, D_Access, D_Faccessat, D_Getcwd, D_Chdir, D_Readlink
      , D_Dlopen, D_Dlclose]"

primrec darwin_sym_index :: "darwin_sym \<Rightarrow> nat" where
  "darwin_sym_index D_Fopen = 0"
| "darwin_sym_index D_Open = 1"
| "darwin_sym_index D_Openat = 2"
| "darwin_sym_index D_Read = 3"
| "darwin_sym_index D_Readv = 4"
| "darwin_sym_index D_Pread = 5"
| "darwin_sym_index D_Lseek = 6"
| "darwin_sym_index D_Close = 7"
| "darwin_sym_index D_Write = 8"
| "darwin_sym_index D_Writev = 9"
| "darwin_sym_index D_Pwrite = 10"
| "darwin_sym_index D_Ftruncate = 11"
| "darwin_sym_index D_Truncate = 12"
| "darwin_sym_index D_Fsync = 13"
| "darwin_sym_index D_Mkdir = 14"
| "darwin_sym_index D_Remove = 15"
| "darwin_sym_index D_Rename = 16"
| "darwin_sym_index D_Unlink = 17"
| "darwin_sym_index D_Link = 18"
| "darwin_sym_index D_Symlink = 19"
| "darwin_sym_index D_Fchmod = 20"
| "darwin_sym_index D_Fchmodat = 21"
| "darwin_sym_index D_Utimensat = 22"
| "darwin_sym_index D_Stat = 23"
| "darwin_sym_index D_Fstat = 24"
| "darwin_sym_index D_Lstat = 25"
| "darwin_sym_index D_Fstatat = 26"
| "darwin_sym_index D_Statvfs = 27"
| "darwin_sym_index D_Fstatvfs = 28"
| "darwin_sym_index D_Opendir = 29"
| "darwin_sym_index D_Fdopendir = 30"
| "darwin_sym_index D_Readdir = 31"
| "darwin_sym_index D_Closedir = 32"
| "darwin_sym_index D_Getdirentries64 = 33"
| "darwin_sym_index D_Realpath = 34"
| "darwin_sym_index D_Access = 35"
| "darwin_sym_index D_Faccessat = 36"
| "darwin_sym_index D_Getcwd = 37"
| "darwin_sym_index D_Chdir = 38"
| "darwin_sym_index D_Readlink = 39"
| "darwin_sym_index D_Dlopen = 40"
| "darwin_sym_index D_Dlclose = 41"

datatype windows_sym =
    W_CreateFileW | W_CreateFileA | W_CreateFile2 | W_ReadFile | W_ReadFileEx | W_WriteFile
  | W_WriteFileEx | W_SetFilePointer | W_SetFilePointerEx | W_GetFileSize | W_GetFileSizeEx
  | W_GetFileType | W_GetFileInformationByHandle | W_GetFileInformationByHandleEx
  | W_FlushFileBuffers | W_SetEndOfFile | W_CloseHandle | W_FindFirstFileExW
  | W_FindFirstFileW | W_FindNextFileW | W_FindClose | W_GetFileAttributesW
  | W_GetFileAttributesExW | W_GetFullPathNameW | W_GetFullPathNameA
  | W_GetCurrentDirectoryW | W_DeleteFileW | W_MoveFileExW | W_GetDiskFreeSpaceA
  | W_GetDriveTypeW | W_CreateDirectoryW | W_LoadLibraryExW | W_LoadLibraryA

primrec windows_sym_name :: "windows_sym \<Rightarrow> string" where
  "windows_sym_name W_CreateFileW = ''CreateFileW''"
| "windows_sym_name W_CreateFileA = ''CreateFileA''"
| "windows_sym_name W_CreateFile2 = ''CreateFile2''"
| "windows_sym_name W_ReadFile = ''ReadFile''"
| "windows_sym_name W_ReadFileEx = ''ReadFileEx''"
| "windows_sym_name W_WriteFile = ''WriteFile''"
| "windows_sym_name W_WriteFileEx = ''WriteFileEx''"
| "windows_sym_name W_SetFilePointer = ''SetFilePointer''"
| "windows_sym_name W_SetFilePointerEx = ''SetFilePointerEx''"
| "windows_sym_name W_GetFileSize = ''GetFileSize''"
| "windows_sym_name W_GetFileSizeEx = ''GetFileSizeEx''"
| "windows_sym_name W_GetFileType = ''GetFileType''"
| "windows_sym_name W_GetFileInformationByHandle = ''GetFileInformationByHandle''"
| "windows_sym_name W_GetFileInformationByHandleEx = ''GetFileInformationByHandleEx''"
| "windows_sym_name W_FlushFileBuffers = ''FlushFileBuffers''"
| "windows_sym_name W_SetEndOfFile = ''SetEndOfFile''"
| "windows_sym_name W_CloseHandle = ''CloseHandle''"
| "windows_sym_name W_FindFirstFileExW = ''FindFirstFileExW''"
| "windows_sym_name W_FindFirstFileW = ''FindFirstFileW''"
| "windows_sym_name W_FindNextFileW = ''FindNextFileW''"
| "windows_sym_name W_FindClose = ''FindClose''"
| "windows_sym_name W_GetFileAttributesW = ''GetFileAttributesW''"
| "windows_sym_name W_GetFileAttributesExW = ''GetFileAttributesExW''"
| "windows_sym_name W_GetFullPathNameW = ''GetFullPathNameW''"
| "windows_sym_name W_GetFullPathNameA = ''GetFullPathNameA''"
| "windows_sym_name W_GetCurrentDirectoryW = ''GetCurrentDirectoryW''"
| "windows_sym_name W_DeleteFileW = ''DeleteFileW''"
| "windows_sym_name W_MoveFileExW = ''MoveFileExW''"
| "windows_sym_name W_GetDiskFreeSpaceA = ''GetDiskFreeSpaceA''"
| "windows_sym_name W_GetDriveTypeW = ''GetDriveTypeW''"
| "windows_sym_name W_CreateDirectoryW = ''CreateDirectoryW''"
| "windows_sym_name W_LoadLibraryExW = ''LoadLibraryExW''"
| "windows_sym_name W_LoadLibraryA = ''LoadLibraryA''"

definition windows_sym_ALL :: "windows_sym list" where
  "windows_sym_ALL =
     [W_CreateFileW, W_CreateFileA, W_CreateFile2, W_ReadFile, W_ReadFileEx, W_WriteFile
      , W_WriteFileEx, W_SetFilePointer, W_SetFilePointerEx, W_GetFileSize, W_GetFileSizeEx
      , W_GetFileType, W_GetFileInformationByHandle, W_GetFileInformationByHandleEx
      , W_FlushFileBuffers, W_SetEndOfFile, W_CloseHandle, W_FindFirstFileExW, W_FindFirstFileW
      , W_FindNextFileW, W_FindClose, W_GetFileAttributesW, W_GetFileAttributesExW
      , W_GetFullPathNameW, W_GetFullPathNameA, W_GetCurrentDirectoryW, W_DeleteFileW
      , W_MoveFileExW, W_GetDiskFreeSpaceA, W_GetDriveTypeW, W_CreateDirectoryW
      , W_LoadLibraryExW, W_LoadLibraryA]"

primrec windows_sym_index :: "windows_sym \<Rightarrow> nat" where
  "windows_sym_index W_CreateFileW = 0"
| "windows_sym_index W_CreateFileA = 1"
| "windows_sym_index W_CreateFile2 = 2"
| "windows_sym_index W_ReadFile = 3"
| "windows_sym_index W_ReadFileEx = 4"
| "windows_sym_index W_WriteFile = 5"
| "windows_sym_index W_WriteFileEx = 6"
| "windows_sym_index W_SetFilePointer = 7"
| "windows_sym_index W_SetFilePointerEx = 8"
| "windows_sym_index W_GetFileSize = 9"
| "windows_sym_index W_GetFileSizeEx = 10"
| "windows_sym_index W_GetFileType = 11"
| "windows_sym_index W_GetFileInformationByHandle = 12"
| "windows_sym_index W_GetFileInformationByHandleEx = 13"
| "windows_sym_index W_FlushFileBuffers = 14"
| "windows_sym_index W_SetEndOfFile = 15"
| "windows_sym_index W_CloseHandle = 16"
| "windows_sym_index W_FindFirstFileExW = 17"
| "windows_sym_index W_FindFirstFileW = 18"
| "windows_sym_index W_FindNextFileW = 19"
| "windows_sym_index W_FindClose = 20"
| "windows_sym_index W_GetFileAttributesW = 21"
| "windows_sym_index W_GetFileAttributesExW = 22"
| "windows_sym_index W_GetFullPathNameW = 23"
| "windows_sym_index W_GetFullPathNameA = 24"
| "windows_sym_index W_GetCurrentDirectoryW = 25"
| "windows_sym_index W_DeleteFileW = 26"
| "windows_sym_index W_MoveFileExW = 27"
| "windows_sym_index W_GetDiskFreeSpaceA = 28"
| "windows_sym_index W_GetDriveTypeW = 29"
| "windows_sym_index W_CreateDirectoryW = 30"
| "windows_sym_index W_LoadLibraryExW = 31"
| "windows_sym_index W_LoadLibraryA = 32"

section \<open>Looking up a symbol\<close>

definition from_name :: "('y \<Rightarrow> string) \<Rightarrow> 'y list \<Rightarrow> string \<Rightarrow> 'y option" where
  "from_name sname all name = List.find (\<lambda>s. sname s = name) all"

definition set_original :: "('y \<Rightarrow> string) \<Rightarrow> 'y list \<Rightarrow> ('y \<Rightarrow> nat) \<Rightarrow> string \<Rightarrow> nat \<Rightarrow> nat list \<Rightarrow> nat list" where
  "set_original sname all idx name ptr originals =
     (case from_name sname all name of
        None \<Rightarrow> originals
      | Some s \<Rightarrow> if idx s < length originals then originals[idx s := ptr] else originals)"

definition original :: "('y \<Rightarrow> nat) \<Rightarrow> 'y \<Rightarrow> nat list \<Rightarrow> nat" where
  "original idx s originals = (if idx s < length originals then originals ! idx s else 0)"

section \<open>The contract of a symbol table\<close>

locale sym_table =
  fixes sname :: "'y \<Rightarrow> string"
    and all :: "'y list"
    and idx :: "'y \<Rightarrow> nat"
  assumes complete: "s \<in> set all"
    and names_distinct: "distinct (map sname all)"
    and discriminants: "map idx all = [0 ..< length all]"
begin

lemma name_inj: "sname s = sname t \<longleftrightarrow> s = t"
  using complete names_distinct by (auto simp: distinct_map inj_on_def)

lemma from_name_name: "from_name sname all (sname s) = Some s"
proof -
  obtain t where t: "List.find (\<lambda>t. sname t = sname s) all = Some t"
    using complete [of s] by (cases "List.find (\<lambda>t. sname t = sname s) all") (auto simp: find_None_iff)
  then show ?thesis by (auto simp: from_name_def find_Some_iff name_inj)
qed

lemma from_name_Some: "from_name sname all n = Some s \<longleftrightarrow> sname s = n"
  using from_name_name by (auto simp: from_name_def find_Some_iff)

lemma idx_inj: "idx s = idx t \<longleftrightarrow> s = t"
proof -
  have "distinct (map idx all)" by (simp add: discriminants)
  then show ?thesis using complete by (auto simp: distinct_map inj_on_def)
qed

lemma idx_bound: "idx s < length all"
proof -
  have "idx s \<in> set (map idx all)" using complete by auto
  then show ?thesis by (simp add: discriminants)
qed

text \<open>The cell of a symbol is written under its own name only, and every symbol has a cell.\<close>

lemma original_set:
  assumes "length originals = length all"
  shows "original idx s (set_original sname all idx n p originals) =
    (if n = sname s then p else original idx s originals)"
proof (cases "from_name sname all n")
  case None
  then have "n \<noteq> sname s" using from_name_name [of s] by auto
  then show ?thesis using None by (simp add: set_original_def)
next
  case (Some t)
  then have n: "n = sname t" by (simp add: from_name_Some)
  have "idx t < length originals" "idx s < length originals" using idx_bound assms by simp_all
  then show ?thesis
    using Some n name_inj [of t s] idx_inj [of t s] by (auto simp: set_original_def original_def)
qed

lemma set_original_length: "length (set_original sname all idx n p originals) = length originals"
  by (simp add: set_original_def split: option.splits)

end

interpretation linux_syms: sym_table sym_name sym_ALL sym_index
proof (unfold_locales, goal_cases)
  case (1 s)
  show ?case by (cases s) (simp_all add: sym_ALL_def)
next
  case 2
  show ?case by (simp add: sym_ALL_def)
next
  case 3
  show ?case by code_simp
qed

interpretation darwin_syms: sym_table darwin_sym_name darwin_sym_ALL darwin_sym_index
proof (unfold_locales, goal_cases)
  case (1 s)
  show ?case by (cases s) (simp_all add: darwin_sym_ALL_def)
next
  case 2
  show ?case by (simp add: darwin_sym_ALL_def)
next
  case 3
  show ?case by code_simp
qed

interpretation windows_syms: sym_table windows_sym_name windows_sym_ALL windows_sym_index
proof (unfold_locales, goal_cases)
  case (1 s)
  show ?case by (cases s) (simp_all add: windows_sym_ALL_def)
next
  case 2
  show ?case by (simp add: windows_sym_ALL_def)
next
  case 3
  show ?case by code_simp
qed

end
