(* ===== verification/Dispatch.thy ===== *)
theory Dispatch
  imports Sym_Tables
begin

text \<open>
  The shared machinery of \<^verbatim>\<open>crates/hookfs/src/dispatch.rs\<close>: the single active installation
  with its unique token, the rescan callback, the per-thread reentrancy marker and the
  panic firewall around a shim body.  \<open>'e\<close> is the routing engine, \<open>'c\<close> a rescan callback.
\<close>

record ('e, 'c) dispatch =
  d_active :: "('e \<times> nat) option"
  d_next_id :: nat
  d_rescan :: "'c option"
  d_originals :: "nat list"

definition dispatch_init :: "nat \<Rightarrow> ('e, 'c) dispatch" where
  "dispatch_init count =
     \<lparr>d_active = None, d_next_id = 1, d_rescan = None, d_originals = replicate count 0\<rparr>"

text \<open>\<open>AtomicU64::fetch_add\<close> wraps around.\<close>

definition try_activate :: "'e \<Rightarrow> ('e, 'c) dispatch \<Rightarrow> nat option \<times> ('e, 'c) dispatch" where
  "try_activate engine d =
     (case d_active d of
        Some _ \<Rightarrow> (None, d)
      | None \<Rightarrow>
          let i = d_next_id d
          in (Some i, d\<lparr>d_next_id := wrap_add i 1, d_active := Some (engine, i)\<rparr>))"

definition deactivate :: "nat \<Rightarrow> ('e, 'c) dispatch \<Rightarrow> ('e, 'c) dispatch" where
  "deactivate i d =
     (case d_active d of
        Some (_, j) \<Rightarrow> if j = i then d\<lparr>d_active := None\<rparr> else d
      | None \<Rightarrow> d)"

definition current_engine :: "('e, 'c) dispatch \<Rightarrow> 'e option" where
  "current_engine d = map_option fst (d_active d)"

definition set_rescan :: "'c \<Rightarrow> ('e, 'c) dispatch \<Rightarrow> ('e, 'c) dispatch" where
  "set_rescan cb d = d\<lparr>d_rescan := Some cb\<rparr>"

definition clear_rescan :: "('e, 'c) dispatch \<Rightarrow> ('e, 'c) dispatch" where
  "clear_rescan d = d\<lparr>d_rescan := None\<rparr>"

definition trigger_rescan :: "('c \<Rightarrow> 'w \<Rightarrow> 'w) \<Rightarrow> ('e, 'c) dispatch \<Rightarrow> 'w \<Rightarrow> 'w" where
  "trigger_rescan run d w = (case d_rescan d of None \<Rightarrow> w | Some cb \<Rightarrow> run cb w)"

section \<open>Reentrancy and panics\<close>

text \<open>The marker of the calling thread.  \<open>enter\<close> answers whether the body may run.\<close>

definition hook_enter :: "bool \<Rightarrow> bool \<times> bool" where
  "hook_enter in_hook = (if in_hook then (False, in_hook) else (True, True))"

definition hook_leave :: "bool \<Rightarrow> bool" where
  "hook_leave in_hook = False"

text \<open>A body that unwinds yields \<open>None\<close>; the last error of the thread is then \<open>on_panic\<close>.\<close>

definition guard_abi :: "'r \<Rightarrow> int \<Rightarrow> ('w \<Rightarrow> 'r option \<times> 'w) \<Rightarrow> (int \<Rightarrow> 'w \<Rightarrow> 'w) \<Rightarrow> 'w \<Rightarrow> 'r \<times> 'w" where
  "guard_abi fallback on_panic f set_error w =
     (case f w of
        (Some v, w') \<Rightarrow> (v, w')
      | (None, w') \<Rightarrow> (fallback, set_error on_panic w'))"

section \<open>At most one installation\<close>

text \<open>What the processes of the program can do with the slot: activate an engine, and deactivate
  with any token that was handed out before, in any order and any number of times.  \<open>issued\<close>
  collects the tokens handed out.\<close>

inductive slot_reach :: "nat list \<Rightarrow> ('e, 'c) dispatch \<Rightarrow> bool" where
  slot_init: "slot_reach [] (dispatch_init count)"
| slot_activate: "slot_reach issued d \<Longrightarrow> try_activate e d = (Some i, d') \<Longrightarrow> slot_reach (i # issued) d'"
| slot_refused: "slot_reach issued d \<Longrightarrow> try_activate e d = (None, d') \<Longrightarrow> slot_reach issued d'"
| slot_deactivate: "slot_reach issued d \<Longrightarrow> i \<in> set issued \<Longrightarrow> slot_reach issued (deactivate i d)"

inductive_cases slot_reachE: "slot_reach issued d"

lemma activate_Some:
  "try_activate e d = (Some i, d') \<Longrightarrow>
     d_active d = None \<and> i = d_next_id d \<and> d_next_id d' = wrap_add i 1 \<and> d_active d' = Some (e, i)"
  by (auto simp: try_activate_def Let_def split: option.splits)

lemma activate_None: "try_activate e d = (None, d') \<longleftrightarrow> d_active d \<noteq> None \<and> d' = d"
  by (auto simp: try_activate_def Let_def split: option.splits)

lemma deactivate_next [simp]: "d_next_id (deactivate i d) = d_next_id d"
  by (auto simp: deactivate_def split: option.splits)

lemma slot_reach_tokens:
  "slot_reach issued d \<Longrightarrow> length issued < U64_MAX \<Longrightarrow>
     issued = rev [1 ..< Suc (length issued)] \<and> d_next_id d = Suc (length issued)
     \<and> (\<forall>e i. d_active d = Some (e, i) \<longrightarrow> issued \<noteq> [] \<and> i = hd issued)"
proof (induction rule: slot_reach.induct)
  case (slot_activate issued d e i d')
  then have IH: "issued = rev [1 ..< Suc (length issued)]" "d_next_id d = Suc (length issued)" by auto
  note A = activate_Some [OF slot_activate.hyps(2)]
  have "wrap_add i 1 = Suc i" using A IH(2) slot_activate.prems by (simp add: wrap_add_def U64_MAX_def)
  then show ?case using A IH by auto
next
  case (slot_refused issued d e d')
  then show ?case by (simp add: activate_None)
next
  case (slot_deactivate issued d i)
  then show ?case by (auto simp: deactivate_def split: option.splits if_splits)
qed (simp add: dispatch_init_def)

text \<open>Tokens are never reused (over fewer than 2^64 - 1 installations), so a guard that gives its
  token back twice, or late, cannot clear the installation that replaced it: deactivating
  anything but the newest token leaves the active engine in place.\<close>

theorem stale_guard_is_harmless:
  assumes "slot_reach (i # issued) d" "length (i # issued) < U64_MAX" "j \<in> set issued"
  shows "distinct (i # issued) \<and> d_active (deactivate j d) = d_active d"
proof -
  note T = slot_reach_tokens [OF assms(1,2)]
  have d: "distinct (i # issued)" using T by (metis distinct_rev distinct_upt)
  then have "j \<noteq> i" using assms(3) by auto
  then have "\<forall>e k. d_active d = Some (e, k) \<longrightarrow> k \<noteq> j" using T by auto
  then have "d_active (deactivate j d) = d_active d" by (auto simp: deactivate_def split: option.splits)
  with d show ?thesis by blast
qed

theorem stale_guard_is_harmless_witness:
  "\<exists>d :: (nat, unit) dispatch. slot_reach [2, 1] d \<and> d_active (deactivate 1 d) = Some (20, 2)"
proof -
  let ?d0 = "dispatch_init 3 :: (nat, unit) dispatch"
  let ?d1 = "snd (try_activate 10 ?d0)" and ?d2 = "deactivate 1 (snd (try_activate 10 ?d0))"
  let ?d3 = "snd (try_activate 20 ?d2)"
  have 1: "try_activate 10 ?d0 = (Some 1, ?d1)"
    by (simp add: try_activate_def dispatch_init_def Let_def)
  have w: "wrap_add (Suc 0) (Suc 0) = 2" by (simp add: wrap_add_def)
  have 2: "try_activate 20 ?d2 = (Some 2, ?d3)"
    by (simp add: try_activate_def dispatch_init_def deactivate_def Let_def w)
  have "slot_reach [1] ?d2" using slot_deactivate [OF slot_activate [OF slot_init 1], of 1] by simp
  from slot_activate [OF this 2] have r: "slot_reach [2, 1] ?d3" by simp
  have a: "d_active ?d3 = Some (20, 2)" using activate_Some [OF 2] by simp
  show ?thesis
    using stale_guard_is_harmless [OF r, of 1] r a by (auto simp: U64_MAX_def)
qed

end
