(* ===== verification/Std_Path.thy ===== *)
theory Std_Path
  imports Hookfs_Prelude
begin

text \<open>
  The part of Rust's \<open>std::path\<close> (POSIX flavour) that the sources use: \<open>Path::parent\<close>,
  \<open>Path::file_name\<close> and \<open>Path::join\<close>, modelled on the byte string of the path the way
  \<open>Components\<close> walks it from the back.  \<open>comps\<close> (the non-empty segments between
  separators) and \<open>render\<close> (their canonical spelling) are the reference view in which
  the facts about them are stated.
\<close>

type_synonym path = string

datatype component = RootDir | CurDir | ParentDir | Normal string

definition is_sep :: "char \<Rightarrow> bool" where
  "is_sep c \<longleftrightarrow> c = SEP"

section \<open>Components from the back\<close>

definition last_seg :: "path \<Rightarrow> path" where
  "last_seg s = rev (takeWhile (\<lambda>c. \<not> is_sep c) (rev s))"

definition before_last :: "path \<Rightarrow> path" where
  "before_last s = rev (tl (dropWhile (\<lambda>c. \<not> is_sep c) (rev s)))"

fun has_root :: "path \<Rightarrow> bool" where
  "has_root [] = False"
| "has_root (c # _) = is_sep c"

fun include_cur_dir :: "path \<Rightarrow> bool" where
  "include_cur_dir [c] = (c = CHR ''.'')"
| "include_cur_dir (c # d # _) = (c = CHR ''.'' \<and> is_sep d)"
| "include_cur_dir [] = False"

definition path_front :: "path \<Rightarrow> path" where
  "path_front p = (if has_root p then [SEP] else if include_cur_dir p then ''.'' else [])"

definition path_body :: "path \<Rightarrow> path" where
  "path_body p = drop (length (path_front p)) p"

lemma length_before_last: "b \<noteq> [] \<Longrightarrow> length (before_last b) < length b"
proof -
  assume "b \<noteq> []"
  let ?d = "dropWhile (\<lambda>c. \<not> is_sep c) (rev b)"
  have "length ?d \<le> length b"
    using length_dropWhile_le [of "\<lambda>c. \<not> is_sep c" "rev b"] by simp
  moreover have "0 < length b" using \<open>b \<noteq> []\<close> by simp
  ultimately show ?thesis unfolding before_last_def by (simp only: length_rev length_tl)
qed

function trim_right :: "path \<Rightarrow> path" where
  "trim_right b =
     (if b = [] then []
      else if last_seg b = [] \<or> last_seg b = ''.'' then trim_right (before_last b)
      else b)"
  by pat_completeness auto
termination
  by (relation "measure length") (auto simp: length_before_last)

declare trim_right.simps [simp del]

definition next_back :: "path \<Rightarrow> component option" where
  "next_back p =
     (let b = trim_right (path_body p) in
      if b \<noteq> [] then Some (if last_seg b = ''..'' then ParentDir else Normal (last_seg b))
      else if has_root p then Some RootDir
      else if include_cur_dir p then Some CurDir
      else None)"

definition path_parent :: "path \<Rightarrow> path option" where
  "path_parent p =
     (case next_back p of
        Some (Normal _) \<Rightarrow> Some (path_front p @ trim_right (before_last (trim_right (path_body p))))
      | Some ParentDir \<Rightarrow> Some (path_front p @ trim_right (before_last (trim_right (path_body p))))
      | Some CurDir \<Rightarrow> Some []
      | _ \<Rightarrow> None)"

definition file_name :: "path \<Rightarrow> string option" where
  "file_name p = (case next_back p of Some (Normal n) \<Rightarrow> Some n | _ \<Rightarrow> None)"

definition path_join :: "path \<Rightarrow> path \<Rightarrow> path" where
  "path_join base p =
     (if has_root p then p
      else if base \<noteq> [] \<and> \<not> is_sep (last base) then base @ SEP # p
      else base @ p)"

section \<open>The component view\<close>

definition comps :: "path \<Rightarrow> string list" where
  "comps s = filter (\<lambda>x. x \<noteq> []) (split_on is_sep s)"

fun join_comps :: "string list \<Rightarrow> path" where
  "join_comps [] = []"
| "join_comps [x] = x"
| "join_comps (x # y # ys) = x @ SEP # join_comps (y # ys)"

definition render :: "bool \<Rightarrow> string list \<Rightarrow> path" where
  "render ab cs = (if ab then [SEP] else []) @ join_comps cs"

lemma is_sep_SEP [simp]: "is_sep SEP"
  by (simp add: is_sep_def)

lemma split_on_sep: "P c \<Longrightarrow> split_on P (s @ c # t) = split_on P s @ split_on P t"
  by (simp add: split_on_append)

lemma comps_Nil [simp]: "comps [] = []"
  by (simp add: comps_def)

lemma comps_sep [path_simps]: "comps (s @ SEP # t) = comps s @ comps t"
  by (simp add: comps_def split_on_sep del: split_on.simps)

lemma comps_Cons_sep [path_simps]: "comps (SEP # t) = comps t"
  using comps_sep [of "[]" t] by simp

lemma comps_single [path_simps]: "SEP \<notin> set x \<Longrightarrow> x \<noteq> [] \<Longrightarrow> comps x = [x]"
proof -
  assume x: "SEP \<notin> set x" "x \<noteq> []"
  then have "\<forall>c \<in> set x. \<not> is_sep c" by (auto simp: is_sep_def)
  with x show ?thesis by (simp add: comps_def split_on_no_sep)
qed

lemma comps_segments: "x \<in> set (comps s) \<Longrightarrow> x \<noteq> [] \<and> SEP \<notin> set x"
  by (auto simp: comps_def dest: split_on_segments)

definition seg_ok :: "string list \<Rightarrow> bool" where
  "seg_ok cs \<longleftrightarrow> (\<forall>x \<in> set cs. x \<noteq> [] \<and> SEP \<notin> set x)"

lemma seg_ok_comps [simp]: "seg_ok (comps s)"
  by (auto simp: seg_ok_def dest: comps_segments)

lemma seg_ok_simps [simp]:
  "seg_ok []" "seg_ok (x # xs) \<longleftrightarrow> x \<noteq> [] \<and> SEP \<notin> set x \<and> seg_ok xs"
  "seg_ok (xs @ ys) \<longleftrightarrow> seg_ok xs \<and> seg_ok ys"
  by (auto simp: seg_ok_def)

lemma seg_ok_butlast: "seg_ok cs \<Longrightarrow> seg_ok (butlast cs)"
  by (auto simp: seg_ok_def dest: in_set_butlastD)

lemma join_comps_append:
  "xs \<noteq> [] \<Longrightarrow> ys \<noteq> [] \<Longrightarrow> join_comps (xs @ ys) = join_comps xs @ SEP # join_comps ys"
proof (induction xs rule: join_comps.induct)
  case (2 x)
  then show ?case by (cases ys) auto
qed auto

lemma join_comps_eq_Nil: "seg_ok cs \<Longrightarrow> join_comps cs = [] \<longleftrightarrow> cs = []"
  by (induction cs rule: join_comps.induct) auto

lemma comps_join [path_simps]: "seg_ok cs \<Longrightarrow> comps (join_comps cs) = cs"
  by (induction cs rule: join_comps.induct) (auto simp: path_simps)

lemma comps_render [path_simps]: "seg_ok cs \<Longrightarrow> comps (render ab cs) = cs"
  by (simp add: render_def path_simps)

lemma has_root_join: "seg_ok cs \<Longrightarrow> \<not> has_root (join_comps cs)"
proof (induction cs rule: join_comps.induct)
  case (2 x)
  then show ?case by (cases x) (auto simp: is_sep_def)
next
  case (3 x y ys)
  then show ?case by (cases x) (auto simp: is_sep_def)
qed simp

lemma has_root_render [path_simps]: "seg_ok cs \<Longrightarrow> has_root (render ab cs) = ab"
  by (simp add: render_def has_root_join)

lemma render_inj:
  assumes "seg_ok cs" "seg_ok ds"
  shows "render a cs = render b ds \<longleftrightarrow> a = b \<and> cs = ds"
proof
  assume eq: "render a cs = render b ds"
  then have "has_root (render a cs) = has_root (render b ds)" "comps (render a cs) = comps (render b ds)"
    by simp_all
  then show "a = b \<and> cs = ds" using assms by (simp add: path_simps)
qed simp

section \<open>Parents, file names and joins in the component view\<close>

lemma seg_cases:
  obtains (no_sep) "SEP \<notin> set s" "last_seg s = s" "before_last s = []"
  | (sep) t u where "s = t @ SEP # u" "SEP \<notin> set u" "last_seg s = u" "before_last s = t"
proof (cases "SEP \<in> set s")
  case False
  then have "\<forall>c \<in> set (rev s). \<not> is_sep c" by (auto simp: is_sep_def)
  then have "takeWhile (\<lambda>c. \<not> is_sep c) (rev s) = rev s" "dropWhile (\<lambda>c. \<not> is_sep c) (rev s) = []"
    by (auto simp: takeWhile_eq_all_conv dropWhile_eq_Nil_conv)
  with False no_sep show ?thesis by (simp add: last_seg_def before_last_def)
next
  case True
  then obtain t u where s: "s = t @ SEP # u" "SEP \<notin> set u" by (metis split_list_last)
  then have u: "\<forall>c \<in> set (rev u). \<not> is_sep c" by (auto simp: is_sep_def)
  have "rev s = rev u @ SEP # rev t" using s by simp
  then have "takeWhile (\<lambda>c. \<not> is_sep c) (rev s) = rev u"
    "dropWhile (\<lambda>c. \<not> is_sep c) (rev s) = SEP # rev t"
    using u by (simp_all add: takeWhile_append dropWhile_append)
  with s sep show ?thesis by (simp add: last_seg_def before_last_def)
qed

lemma last_seg_no_sep [simp]: "SEP \<notin> set (last_seg s)"
  by (cases s rule: seg_cases) auto

lemma comps_before_last:
  "comps s = comps (before_last s) @ (if last_seg s = [] then [] else [last_seg s])"
  by (cases s rule: seg_cases) (auto simp: path_simps)

lemma trim_right_shape:
  "trim_right b \<noteq> [] \<Longrightarrow> last_seg (trim_right b) \<noteq> [] \<and> last_seg (trim_right b) \<noteq> ''.''"
proof (induction b rule: trim_right.induct)
  case (1 b)
  then show ?case by (auto simp: trim_right.simps [of b] split: if_splits)
qed

lemma prefix_before_last: "prefix (before_last b) b"
  by (cases b rule: seg_cases) auto

lemma prefix_trim_right: "prefix (trim_right b) b"
proof (induction b rule: trim_right.induct)
  case (1 b)
  show ?case
  proof (cases "b \<noteq> [] \<and> (last_seg b = [] \<or> last_seg b = ''.'')")
    case True
    with "1.IH" show ?thesis
      by (auto simp: trim_right.simps [of b] intro: prefix_order.trans prefix_before_last)
  qed (auto simp: trim_right.simps [of b])
qed

definition no_dot :: "path \<Rightarrow> bool" where
  "no_dot p \<longleftrightarrow> ''.'' \<notin> set (comps p)"

lemma comps_trim_right: "no_dot b \<Longrightarrow> comps (trim_right b) = comps b"
proof (induction b rule: trim_right.induct)
  case (1 b)
  have split: "comps b = comps (before_last b) @ (if last_seg b = [] then [] else [last_seg b])"
    by (rule comps_before_last)
  with "1.prems" have nd: "no_dot (before_last b)" "last_seg b \<noteq> ''.''"
    by (auto simp: no_dot_def split: if_splits)
  show ?case
  proof (cases "b \<noteq> [] \<and> last_seg b = []")
    case True
    then have "trim_right b = trim_right (before_last b)" by (subst trim_right.simps) simp
    with True "1.IH" nd split show ?thesis by simp
  next
    case False
    with nd show ?thesis by (subst trim_right.simps) auto
  qed
qed

lemma trim_right_eq_Nil: "no_dot b \<Longrightarrow> trim_right b = [] \<longleftrightarrow> comps b = []"
  using comps_trim_right [of b] comps_before_last [of "trim_right b"] trim_right_shape [of b]
  by fastforce

lemma has_root_iff: "has_root p \<longleftrightarrow> (\<exists>r. p = SEP # r)"
  by (cases p) (auto simp: is_sep_def)

lemma no_dot_not_cur_dir: "no_dot p \<Longrightarrow> \<not> include_cur_dir p"
proof (rule notI)
  assume nd: "no_dot p" and "include_cur_dir p"
  then consider "p = ''.''" | r where "p = ''.'' @ SEP # r"
    by (cases p rule: include_cur_dir.cases) (auto simp: is_sep_def)
  then have "''.'' \<in> set (comps p)"
    by cases (auto simp only: comps_sep, auto simp: path_simps SEP_def)
  with nd show False by (simp add: no_dot_def)
qed

lemma path_body_comps: "no_dot p \<Longrightarrow> comps (path_body p) = comps p"
  by (auto simp: path_body_def path_front_def has_root_iff path_simps no_dot_not_cur_dir)

lemma path_body_no_dot: "no_dot p \<Longrightarrow> no_dot (path_body p)"
  using path_body_comps by (simp add: no_dot_def)

lemma last_body:
  assumes "no_dot p" "comps p \<noteq> []"
  defines "b \<equiv> trim_right (path_body p)"
  shows "b \<noteq> []" "last_seg b = last (comps p)" "comps (before_last b) = butlast (comps p)"
    and "no_dot (before_last b)"
proof -
  have c: "comps b = comps p"
    using assms by (simp add: comps_trim_right path_body_no_dot path_body_comps)
  show b: "b \<noteq> []" using c assms(2) by auto
  then have "last_seg b \<noteq> []" using trim_right_shape by (simp add: b_def)
  with comps_before_last [of b] c
  show "last_seg b = last (comps p)" "comps (before_last b) = butlast (comps p)" by auto
  then show "no_dot (before_last b)" using assms(1) by (auto simp: no_dot_def dest: in_set_butlastD)
qed

lemma path_parent_comps:
  assumes "no_dot p" "comps p \<noteq> []"
  obtains d where "path_parent p = Some d" "comps d = butlast (comps p)" "has_root d = has_root p"
    "no_dot d"
proof -
  let ?b = "trim_right (path_body p)"
  let ?d = "path_front p @ trim_right (before_last ?b)"
  note lb = last_body [OF assms]
  have par: "path_parent p = Some ?d"
    using lb(1) by (simp add: path_parent_def next_back_def Let_def)
  have tr: "comps (trim_right (before_last ?b)) = butlast (comps p)"
    using lb by (simp add: comps_trim_right)
  have fr: "path_front p = (if has_root p then [SEP] else [])"
    using assms by (simp add: path_front_def no_dot_not_cur_dir)
  have cd: "comps ?d = butlast (comps p)" using tr fr by (simp add: path_simps)
  have hr: "has_root ?d = has_root p"
  proof (cases "has_root p")
    case False
    then have "prefix ?d p"
      using fr prefix_trim_right prefix_before_last
      by (metis append_Nil drop0 list.size(3) path_body_def prefix_order.trans)
    with False show ?thesis by (cases p; cases ?d) auto
  qed (simp add: fr)
  show thesis using that [OF par cd hr] assms(1) cd
    by (auto simp: no_dot_def dest: in_set_butlastD)
qed

lemma path_parent_no_comps: "no_dot p \<Longrightarrow> comps p = [] \<Longrightarrow> path_parent p = None"
  by (simp add: path_parent_def next_back_def Let_def no_dot_not_cur_dir trim_right_eq_Nil
      path_body_no_dot path_body_comps)

lemma file_name_comps:
  "no_dot p \<Longrightarrow> comps p \<noteq> [] \<Longrightarrow> last (comps p) \<noteq> ''..'' \<Longrightarrow> file_name p = Some (last (comps p))"
  using last_body [of p] by (simp add: file_name_def next_back_def Let_def)

lemma comps_path_join [path_simps]: "\<not> has_root b \<Longrightarrow> comps (path_join a b) = comps a @ comps b"
proof -
  assume "\<not> has_root b"
  then consider "a = []" | c where "a = c @ [SEP]" | "a \<noteq> []" "\<not> is_sep (last a)"
    by (cases a rule: rev_cases) (auto simp: is_sep_def)
  then show ?thesis
    using \<open>\<not> has_root b\<close> comps_sep [of _ "[]"] by cases (auto simp: path_join_def path_simps)
qed

lemma has_root_path_join [path_simps]:
  "\<not> has_root b \<Longrightarrow> has_root (path_join a b) = has_root a"
  by (cases a) (auto simp: path_join_def)

text \<open>A parent is a strictly shorter path, so the walk to the root ends.\<close>

lemma path_front_body: "p = path_front p @ path_body p"
proof (cases p rule: include_cur_dir.cases)
  case (2 c d r)
  then show ?thesis by (auto simp: path_front_def path_body_def is_sep_def)
qed (auto simp: path_front_def path_body_def is_sep_def)

lemma path_parent_length:
  assumes "path_parent p = Some d"
  shows "length d < length p"
proof -
  let ?b = "trim_right (path_body p)"
  have shorter: "length (path_front p @ trim_right (before_last ?b)) < length p" if "?b \<noteq> []"
  proof -
    have "length (trim_right (before_last ?b)) \<le> length (before_last ?b)"
      by (rule prefix_length_le) (rule prefix_trim_right)
    also have "\<dots> < length ?b" using that by (rule length_before_last)
    also have "\<dots> \<le> length (path_body p)" by (rule prefix_length_le) (rule prefix_trim_right)
    finally have "length (trim_right (before_last ?b)) < length (path_body p)" .
    moreover have "length p = length (path_front p) + length (path_body p)"
      using path_front_body [of p] by (metis length_append)
    ultimately show ?thesis by simp
  qed
  show ?thesis
  proof (cases "?b = []")
    case True
    then have "include_cur_dir p" "d = []"
      using assms by (auto simp: path_parent_def next_back_def Let_def split: if_splits)
    then show ?thesis by (cases p) auto
  next
    case False
    then have "d = path_front p @ trim_right (before_last ?b)"
      using assms by (auto simp: path_parent_def next_back_def Let_def split: if_splits)
    with shorter [OF False] show ?thesis by simp
  qed
qed

end
