(* ===== verification/Namespace.thy ===== *)
theory Namespace
  imports Std_Path
begin

text \<open>
  \<^verbatim>\<open>crates/hookfs/src/namespace.rs\<close>, POSIX flavour: the reserved synthetic root, the
  canonical comparison key of a path, the prefix predicate that decides membership, the
  lexical safety check, and the decoding of the C strings the shims receive.  Paths are
  valid UTF-8 byte strings, on which \<open>to_string_lossy\<close> is the identity; the lossy decoding
  itself happens in \<open>decode_cstr\<close>.  The process-random mount id is an argument.
\<close>

section \<open>Reserved root and membership\<close>

definition NUL :: char where
  "NUL = CHR 0x00"

definition RESERVED_ROOT :: string where
  "RESERVED_ROOT = ''__hookfs__''"

definition reserved_root :: "string \<Rightarrow> path" where
  "reserved_root random_mount_id = [SEP] @ RESERVED_ROOT @ [SEP] @ random_mount_id"

fun collapse :: "bool \<Rightarrow> path \<Rightarrow> path" where
  "collapse prev_sep [] = []"
| "collapse prev_sep (c # cs) =
     (if c = SEP then (if prev_sep then collapse prev_sep cs else SEP # collapse True cs)
      else c # collapse False cs)"

definition normalize_key_str :: "path \<Rightarrow> string" where
  "normalize_key_str input =
     (let out = collapse False input
      in if 1 < length out \<and> last out = SEP then butlast out else out)"

definition normalize_key :: "path \<Rightarrow> string" where
  "normalize_key path = normalize_key_str path"

definition key_has_prefix :: "string \<Rightarrow> string \<Rightarrow> bool" where
  "key_has_prefix key pre =
     (case strip_prefix pre key of
        Some rest \<Rightarrow> rest = [] \<or> hd rest = SEP
      | None \<Rightarrow> False)"

record namespace =
  ns_root :: path
  ns_predicate :: "path \<Rightarrow> bool"

definition from_root :: "path \<Rightarrow> namespace" where
  "from_root root =
     \<lparr>ns_root = root,
      ns_predicate = (\<lambda>path. key_has_prefix (normalize_key path) (normalize_key_str root))\<rparr>"

definition reserved :: "string \<Rightarrow> namespace" where
  "reserved random_mount_id = from_root (reserved_root random_mount_id)"

definition for_prefix :: "path \<Rightarrow> namespace" where
  "for_prefix pre = from_root pre"

definition with_predicate :: "string \<Rightarrow> (path \<Rightarrow> bool) \<Rightarrow> namespace" where
  "with_predicate random_mount_id predicate =
     (reserved random_mount_id)\<lparr>ns_predicate := predicate\<rparr>"

definition is_virtual :: "namespace \<Rightarrow> path \<Rightarrow> bool" where
  "is_virtual ns path = ns_predicate ns path"

definition is_lexically_safe :: "string \<Rightarrow> bool" where
  "is_lexically_safe decoded \<longleftrightarrow>
     NUL \<notin> set decoded \<and>
     \<not> list_ex (\<lambda>comp. comp = ''.'' \<or> comp = ''..'') (split_on is_sep decoded)"

section \<open>Decoding C strings\<close>

text \<open>\<open>String::from_utf8_lossy\<close>: a well-formed sequence is kept, a maximal ill-formed prefix
  becomes U+FFFD.  \<open>utf8_lead\<close> gives the length a lead byte announces and the range of its
  second byte.\<close>

definition utf8_lead :: "nat \<Rightarrow> (nat \<times> nat \<times> nat) option" where
  "utf8_lead b =
     (if b < 0x80 then Some (1, 0x80, 0xBF)
      else if 0xC2 \<le> b \<and> b \<le> 0xDF then Some (2, 0x80, 0xBF)
      else if b = 0xE0 then Some (3, 0xA0, 0xBF)
      else if b = 0xED then Some (3, 0x80, 0x9F)
      else if 0xE1 \<le> b \<and> b \<le> 0xEF then Some (3, 0x80, 0xBF)
      else if b = 0xF0 then Some (4, 0x90, 0xBF)
      else if 0xF1 \<le> b \<and> b \<le> 0xF3 then Some (4, 0x80, 0xBF)
      else if b = 0xF4 then Some (4, 0x80, 0x8F)
      else None)"

fun utf8_tail :: "nat \<Rightarrow> nat \<Rightarrow> nat \<Rightarrow> string \<Rightarrow> nat" where
  "utf8_tail n lo hi [] = 0"
| "utf8_tail n lo hi (c # cs) =
     (if 0 < n \<and> lo \<le> of_char c \<and> of_char c \<le> hi then Suc (utf8_tail (n - 1) 0x80 0xBF cs) else 0)"

definition REPLACEMENT :: string where
  "REPLACEMENT = [CHR 0xEF, CHR 0xBF, CHR 0xBD]"

function from_utf8_lossy :: "string \<Rightarrow> string" where
  "from_utf8_lossy [] = []"
| "from_utf8_lossy (c # cs) =
     (case utf8_lead (of_char c) of
        None \<Rightarrow> REPLACEMENT @ from_utf8_lossy cs
      | Some (n, lo, hi) \<Rightarrow>
          (let k = utf8_tail (n - 1) lo hi cs in
           if k = n - 1 then c # take k cs @ from_utf8_lossy (drop k cs)
           else REPLACEMENT @ from_utf8_lossy (drop k cs)))"
  by pat_completeness auto
termination
  by (relation "measure length") auto

definition MAX_CSTR :: nat where
  "MAX_CSTR = 0x8000"

fun scan_cstr :: "nat \<Rightarrow> string \<Rightarrow> string \<Rightarrow> string option" where
  "scan_cstr n [] out = None"
| "scan_cstr n (b # mem) out =
     (if n = 0 then None
      else if b = NUL then Some (from_utf8_lossy out)
      else scan_cstr (n - 1) mem (out @ [b]))"

text \<open>The pointer is \<open>None\<close> when null, otherwise the readable bytes it addresses.\<close>

definition decode_cstr :: "string option \<Rightarrow> string option" where
  "decode_cstr ptr = (case ptr of None \<Rightarrow> None | Some mem \<Rightarrow> scan_cstr MAX_CSTR mem [])"

section \<open>Keys are canonical renderings of components\<close>

lemma path_span:
  assumes "s \<noteq> []"
  obtains (sep) t where "s = SEP # t"
  | (word) u where "s = u" "SEP \<notin> set u" "u \<noteq> []"
  | (more) u t where "s = u @ SEP # t" "SEP \<notin> set u" "u \<noteq> []"
proof (cases "SEP \<in> set s")
  case True
  then obtain u t where "s = u @ SEP # t" "SEP \<notin> set u" by (metis split_list_first)
  then show ?thesis using sep more [of u t] by (cases "u = []") auto
next
  case False
  then show ?thesis using word assms by blast
qed

lemma collapse_sep_free: "SEP \<notin> set u \<Longrightarrow> u \<noteq> [] \<Longrightarrow> collapse b (u @ rest) = u @ collapse False rest"
proof (induction u arbitrary: b)
  case (Cons a u)
  then show ?case by (cases "u = []") auto
qed simp

lemma comps_eq_Nil: "comps t = [] \<Longrightarrow> set t \<subseteq> {SEP}"
proof (induction "length t" arbitrary: t rule: less_induct)
  case less
  show ?case
  proof (cases "t = []")
    case False
    then show ?thesis using less by (cases t rule: path_span) (auto simp: path_simps)
  qed simp
qed

lemma collapse_True:
  "collapse True s =
     join_comps (comps s) @ (if comps s \<noteq> [] \<and> last s = SEP then [SEP] else [])"
proof (induction "length s" arbitrary: s rule: less_induct)
  case less
  show ?case
  proof (cases "s = []")
    case False
    then show ?thesis
    proof (cases s rule: path_span)
      case (sep t)
      with less [of t] show ?thesis by (cases "t = []") (auto simp: path_simps)
    next
      case (word u)
      then have "last u \<noteq> SEP" by (metis last_in_set)
      then show ?thesis using word collapse_sep_free [of u True "[]"] by (simp add: path_simps)
    next
      case (more u t)
      then have *: "collapse True s = u @ SEP # collapse True t"
        using collapse_sep_free [of u True "SEP # t"] by simp
      have c: "comps s = u # comps t" using more by (simp add: path_simps)
      have IH: "collapse True t =
          join_comps (comps t) @ (if comps t \<noteq> [] \<and> last t = SEP then [SEP] else [])"
        using less more by simp
      show ?thesis
      proof (cases "comps t = []")
        case True
        then have "last s = SEP" using more comps_eq_Nil [of t] by (cases t rule: rev_cases) auto
        then show ?thesis using True IH c * by simp
      next
        case False
        then have "t \<noteq> []" by auto
        then have "last s = last t" using more by simp
        then show ?thesis using False IH c * by (cases "comps t") auto
      qed
    qed
  qed simp
qed

lemma collapse_False:
  "collapse False s = (if has_root s then [SEP] else []) @ collapse True s"
  by (cases s) (auto simp: is_sep_def)

lemma last_join_comps: "seg_ok cs \<Longrightarrow> cs \<noteq> [] \<Longrightarrow> last (join_comps cs) \<noteq> SEP"
proof (induction cs rule: join_comps.induct)
  case (2 x)
  then show ?case by (metis join_comps.simps(2) last_in_set seg_ok_simps(2))
next
  case (3 x y ys)
  then show ?case using join_comps_eq_Nil [of "y # ys"] by simp
qed simp

lemma normalize_key_str_render: "normalize_key_str s = render (has_root s) (comps s)"
proof -
  have ne: "comps s \<noteq> [] \<Longrightarrow> join_comps (comps s) \<noteq> []" by (simp add: join_comps_eq_Nil)
  have l: "comps s \<noteq> [] \<Longrightarrow> last (join_comps (comps s)) \<noteq> SEP" by (simp add: last_join_comps)
  show ?thesis
    using ne l
    by (cases "comps s = []")
      (auto simp: normalize_key_str_def Let_def collapse_False collapse_True render_def butlast_append)
qed

lemma normalize_key_render: "normalize_key s = render (has_root s) (comps s)"
  by (simp add: normalize_key_def normalize_key_str_render)

lemma comps_normalize [path_simps]: "comps (normalize_key s) = comps s"
  by (simp add: normalize_key_render path_simps)

lemma has_root_normalize [path_simps]: "has_root (normalize_key s) = has_root s"
  by (simp add: normalize_key_render path_simps)

lemma normalize_key_eq_iff:
  "normalize_key s = normalize_key t \<longleftrightarrow> has_root s = has_root t \<and> comps s = comps t"
  by (simp add: normalize_key_render render_inj)

lemma normalize_key_idem [simp]: "normalize_key (normalize_key s) = normalize_key s"
  by (simp add: normalize_key_eq_iff path_simps)

lemma normalize_render: "seg_ok cs \<Longrightarrow> normalize_key (render ab cs) = render ab cs"
  by (simp add: normalize_key_render path_simps)

section \<open>Prefixes of keys are prefixes of component lists\<close>

lemma key_has_prefix_iff:
  "key_has_prefix k p \<longleftrightarrow> k = p \<or> (\<exists>r. k = p @ SEP # r)"
proof (cases "strip_prefix p k")
  case None
  then have "\<not> prefix p k" by (simp add: strip_prefix_None_iff)
  then show ?thesis using None by (auto simp: key_has_prefix_def)
next
  case (Some r)
  then show ?thesis by (cases r) (auto simp: key_has_prefix_def)
qed

lemma key_has_prefix_render:
  assumes "seg_ok cs" "seg_ok ds" "ds \<noteq> []"
  shows "key_has_prefix (render a cs) (render b ds) \<longleftrightarrow> a = b \<and> prefix ds cs"
proof
  assume "key_has_prefix (render a cs) (render b ds)"
  then consider "render a cs = render b ds" | r where "render a cs = render b ds @ SEP # r"
    by (auto simp: key_has_prefix_iff)
  then show "a = b \<and> prefix ds cs"
  proof cases
    case 1
    then show ?thesis using assms render_inj by simp
  next
    case 2
    then have "comps (render a cs) = comps (render b ds) @ comps r" by (simp add: path_simps)
    moreover have "has_root (render a cs) = has_root (render b ds)"
      using 2 join_comps_eq_Nil [OF assms(2)] assms(3)
      by (cases "render b ds") (auto simp: render_def split: if_splits)
    ultimately show ?thesis using assms by (simp add: path_simps prefix_def)
  qed
next
  assume h: "a = b \<and> prefix ds cs"
  then obtain es where cs: "cs = ds @ es" by (auto simp: prefix_def)
  show "key_has_prefix (render a cs) (render b ds)"
  proof (cases "es = []")
    case True
    then show ?thesis using h cs by (simp add: key_has_prefix_iff)
  next
    case False
    then show ?thesis using h cs assms(3) join_comps_append [of ds es]
      by (auto simp: key_has_prefix_iff render_def)
  qed
qed

lemma is_virtual_from_root:
  assumes "comps root \<noteq> []"
  shows "is_virtual (from_root root) p \<longleftrightarrow> has_root p = has_root root \<and> prefix (comps root) (comps p)"
  using assms
  by (simp add: is_virtual_def from_root_def normalize_key_render normalize_key_str_render
      key_has_prefix_render)

lemma is_lexically_safe_iff:
  "is_lexically_safe s \<longleftrightarrow> NUL \<notin> set s \<and> ''.'' \<notin> set (comps s) \<and> ''..'' \<notin> set (comps s)"
  by (auto simp: is_lexically_safe_def comps_def list_ex_iff)

lemma safe_no_dot: "is_lexically_safe s \<Longrightarrow> no_dot s"
  by (simp add: is_lexically_safe_iff no_dot_def)

lemma reserved_root_comps:
  "comps (reserved_root i) = RESERVED_ROOT # comps i" "has_root (reserved_root i)"
proof -
  have "SEP \<notin> set RESERVED_ROOT" "RESERVED_ROOT \<noteq> []" by (auto simp: RESERVED_ROOT_def SEP_def)
  then show "comps (reserved_root i) = RESERVED_ROOT # comps i" "has_root (reserved_root i)"
    using comps_sep [of RESERVED_ROOT i] comps_Cons_sep [of "RESERVED_ROOT @ SEP # i"]
    by (auto simp: reserved_root_def path_simps)
qed

section \<open>Decoding\<close>

lemma from_utf8_lossy_ascii: "(\<forall>c \<in> set s. of_char c < (128 :: nat)) \<Longrightarrow> from_utf8_lossy s = s"
proof (induction s)
  case (Cons a s)
  have "utf8_tail 0 lo hi s = 0" for lo hi by (cases s) auto
  with Cons show ?case by (simp add: utf8_lead_def)
qed simp

lemma scan_cstr_spec:
  "scan_cstr n (s @ NUL # rest) out =
     (if NUL \<in> set s then scan_cstr n s out
      else if length s < n then Some (from_utf8_lossy (out @ s)) else None)"
  by (induction s arbitrary: n out) auto

section \<open>Properties\<close>

text \<open>C33. Membership in a namespace is membership in a subtree: a path belongs to the namespace of a
  root exactly if it is absolute like the root and its components begin with those of the root.
  Repeated and trailing separators do not matter, and a sibling whose name merely starts with the
  root's name is outside.\<close>

theorem membership_is_component_prefix:
  assumes "comps root \<noteq> []"
  shows "is_virtual (from_root root) p \<longleftrightarrow> has_root p = has_root root \<and> prefix (comps root) (comps p)"
  using assms by (rule is_virtual_from_root)

theorem membership_is_component_prefix_witness:
  "is_virtual (from_root ''/v'') ''//v///a'' \<and> \<not> is_virtual (from_root ''/v'') ''/v2/a''"
proof -
  have c: "comps ''/v'' = [''v'']" "comps ''//v///a'' = [''v'', ''a'']" "comps ''/v2/a'' = [''v2'', ''a'']"
    by code_simp+
  then have "comps ''/v'' \<noteq> []" by simp
  from membership_is_component_prefix [OF this] c show ?thesis by (simp add: SEP_def)
qed

end
