(* ===== verification/Vfs.thy ===== *)
theory Vfs
  imports Namespace
begin

text \<open>
  \<^verbatim>\<open>crates/hookfs/src/vfs.rs\<close>: the metadata, directory-entry, open-option and volume
  value types, the \<open>FileStream\<close> contract with its default \<open>size\<close> probe, the shared
  source with its independent cursors, and the \<open>VirtualFs\<close> provider trait as a record of
  operations on an explicit provider state.  A byte stream supplied by a caller is a
  parameter: a record of its \<open>read\<close> and \<open>seek\<close>; the laws a well-behaved stream obeys are
  the locale \<open>byte_stream\<close>, and the facts about \<open>SharedSource\<close> and \<open>SourceCursor\<close> are
  proved in it once.
\<close>

type_synonym time = int \<comment> \<open>a \<open>SystemTime\<close>, in seconds relative to the Unix epoch\<close>

section \<open>Value types\<close>

record vfs_metadata =
  md_len :: u64
  md_is_dir :: bool
  md_readonly :: bool
  md_mtime :: "time option"

definition metadata_file :: "u64 \<Rightarrow> vfs_metadata" where
  "metadata_file len = \<lparr>md_len = len, md_is_dir = False, md_readonly = True, md_mtime = None\<rparr>"

definition metadata_file_rw :: "u64 \<Rightarrow> vfs_metadata" where
  "metadata_file_rw len = \<lparr>md_len = len, md_is_dir = False, md_readonly = False, md_mtime = None\<rparr>"

definition metadata_dir :: vfs_metadata where
  "metadata_dir = \<lparr>md_len = 0, md_is_dir = True, md_readonly = True, md_mtime = None\<rparr>"

record vfs_dir_entry =
  de_name :: string
  de_metadata :: vfs_metadata

record open_options =
  oo_read :: bool
  oo_write :: bool
  oo_create :: bool
  oo_create_new :: bool
  oo_truncate :: bool
  oo_append :: bool

definition oo_default :: open_options where
  "oo_default = \<lparr>oo_read = False, oo_write = False, oo_create = False, oo_create_new = False,
     oo_truncate = False, oo_append = False\<rparr>"

definition oo_read_only :: open_options where
  "oo_read_only = oo_default\<lparr>oo_read := True\<rparr>"

definition oo_write_truncate :: open_options where
  "oo_write_truncate = oo_default\<lparr>oo_write := True, oo_create := True, oo_truncate := True\<rparr>"

definition oo_creates :: "open_options \<Rightarrow> bool" where
  "oo_creates opts \<longleftrightarrow> oo_create opts \<or> oo_create_new opts"

record volume_info =
  vi_capacity :: u64
  vi_available :: u64
  vi_block_size :: nat

definition no_space :: io_error where
  "no_space = Os 28"

definition read_only_error :: io_error where
  "read_only_error = Custom PermissionDenied ''virtual file is read-only''"

section \<open>Seekable byte streams\<close>

datatype seek_from = Start u64 | End int | Current int

text \<open>The seek arithmetic shared by \<open>SourceCursor\<close> and \<open>MemFileHandle\<close>: the target is computed
  in \<open>i128\<close>, where a \<open>u64\<close> plus an \<open>i64\<close> cannot overflow.\<close>

definition seek_target :: "u64 \<Rightarrow> u64 \<Rightarrow> seek_from \<Rightarrow> u64 io_result" where
  "seek_target sz pos sf =
     (let target = (case sf of Start off \<Rightarrow> int off
                             | End off \<Rightarrow> int sz + off
                             | Current off \<Rightarrow> int pos + off)
      in if target < 0 then Inl (Custom InvalidInput ''seek to a negative position'')
         else if int U64_MAX < target then Inl (Custom InvalidInput ''seek offset overflow'')
         else Inr (nat target))"

record 's stream_ops =
  st_read :: "nat \<Rightarrow> 's \<Rightarrow> byte list io_result \<times> 's"
  st_seek :: "seek_from \<Rightarrow> 's \<Rightarrow> u64 io_result \<times> 's"

definition stream_position :: "'s stream_ops \<Rightarrow> 's \<Rightarrow> u64 io_result \<times> 's" where
  "stream_position ops s = st_seek ops (Current 0) s"

definition stream_size :: "'s stream_ops \<Rightarrow> 's \<Rightarrow> u64 io_result \<times> 's" where
  "stream_size ops s =
     (case stream_position ops s of
        (Inl e, s1) \<Rightarrow> (Inl e, s1)
      | (Inr current, s1) \<Rightarrow>
          (case st_seek ops (End 0) s1 of
             (Inl e, s2) \<Rightarrow> (Inl e, s2)
           | (Inr end', s2) \<Rightarrow>
               if current \<noteq> end' then
                 (case st_seek ops (Start current) s2 of
                    (Inl e, s3) \<Rightarrow> (Inl e, s3)
                  | (Inr _, s3) \<Rightarrow> (Inr end', s3))
               else (Inr end', s2)))"

section \<open>A shared source and its cursors\<close>

record 's shared_source =
  ss_inner :: 's
  ss_size :: u64

definition shared_source_new :: "'s stream_ops \<Rightarrow> 's \<Rightarrow> 's shared_source io_result" where
  "shared_source_new ops stream =
     (case stream_size ops stream of
        (Inl e, _) \<Rightarrow> Inl e
      | (Inr sz, s1) \<Rightarrow>
          (case st_seek ops (Start 0) s1 of
             (Inl e, _) \<Rightarrow> Inl e
           | (Inr _, s2) \<Rightarrow> Inr \<lparr>ss_inner = s2, ss_size = sz\<rparr>))"

definition shared_read_at ::
  "'s stream_ops \<Rightarrow> u64 \<Rightarrow> nat \<Rightarrow> 's shared_source \<Rightarrow> byte list io_result \<times> 's shared_source" where
  "shared_read_at ops pos n src =
     (case st_seek ops (Start pos) (ss_inner src) of
        (Inl e, s1) \<Rightarrow> (Inl e, src\<lparr>ss_inner := s1\<rparr>)
      | (Inr _, s1) \<Rightarrow>
          (case st_read ops n s1 of (r, s2) \<Rightarrow> (r, src\<lparr>ss_inner := s2\<rparr>)))"

text \<open>A cursor is its private position; the source it shares is passed along.\<close>

definition source_cursor_new :: u64 where
  "source_cursor_new = 0"

definition source_cursor_read ::
  "'s stream_ops \<Rightarrow> nat \<Rightarrow> 's shared_source \<times> u64 \<Rightarrow> byte list io_result \<times> 's shared_source \<times> u64" where
  "source_cursor_read ops n = (\<lambda>(src, pos).
     if ss_size src \<le> pos then (Inr [], src, pos)
     else (case shared_read_at ops pos n src of
             (Inl e, src') \<Rightarrow> (Inl e, src', pos)
           | (Inr bs, src') \<Rightarrow> (Inr bs, src', sat_add pos (length bs))))"

definition source_cursor_seek ::
  "seek_from \<Rightarrow> 's shared_source \<times> u64 \<Rightarrow> u64 io_result \<times> 's shared_source \<times> u64" where
  "source_cursor_seek sf = (\<lambda>(src, pos).
     case seek_target (ss_size src) pos sf of
       Inl e \<Rightarrow> (Inl e, src, pos)
     | Inr target \<Rightarrow> (Inr target, src, target))"

definition source_cursor_ops :: "'s stream_ops \<Rightarrow> ('s shared_source \<times> u64) stream_ops" where
  "source_cursor_ops ops = \<lparr>st_read = source_cursor_read ops, st_seek = source_cursor_seek\<rparr>"

section \<open>The provider trait\<close>

text \<open>A provider is a record of state transformers; \<open>'v\<close> is its state, \<open>'h\<close> the streams it
  hands out, whose operations (the boxed \<open>FileStream\<close> / \<open>WritableFile\<close> methods) come with it.
  The answer \<open>None\<close> is ``not handled here''.\<close>

record ('v, 'h) vfs_ops =
  v_open :: "path \<Rightarrow> open_options \<Rightarrow> 'v \<Rightarrow> 'h io_result option \<times> 'v"
  v_metadata :: "path \<Rightarrow> 'v \<Rightarrow> vfs_metadata io_result option \<times> 'v"
  v_read_dir :: "path \<Rightarrow> 'v \<Rightarrow> vfs_dir_entry list io_result option \<times> 'v"
  v_exists :: "path \<Rightarrow> 'v \<Rightarrow> bool option \<times> 'v"
  v_open_write :: "path \<Rightarrow> open_options \<Rightarrow> 'v \<Rightarrow> 'h io_result option \<times> 'v"
  v_remove :: "path \<Rightarrow> 'v \<Rightarrow> unit io_result option \<times> 'v"
  v_rename :: "path \<Rightarrow> path \<Rightarrow> 'v \<Rightarrow> unit io_result option \<times> 'v"
  v_create_dir :: "path \<Rightarrow> 'v \<Rightarrow> unit io_result option \<times> 'v"
  v_set_len :: "path \<Rightarrow> u64 \<Rightarrow> 'v \<Rightarrow> unit io_result option \<times> 'v"
  v_volume_info :: "'v \<Rightarrow> volume_info option \<times> 'v"
  h_read :: "'h \<Rightarrow> nat \<Rightarrow> 'v \<Rightarrow> byte list io_result \<times> 'h \<times> 'v"
  h_seek :: "'h \<Rightarrow> seek_from \<Rightarrow> 'v \<Rightarrow> u64 io_result \<times> 'h \<times> 'v"
  h_position :: "'h \<Rightarrow> 'v \<Rightarrow> u64 io_result \<times> 'h \<times> 'v"
  h_size :: "'h \<Rightarrow> 'v \<Rightarrow> u64 io_result \<times> 'h \<times> 'v"
  h_write :: "'h \<Rightarrow> byte list \<Rightarrow> 'v \<Rightarrow> nat io_result \<times> 'h \<times> 'v"
  h_set_len :: "'h \<Rightarrow> u64 \<Rightarrow> 'v \<Rightarrow> unit io_result \<times> 'h \<times> 'v"
  h_flush :: "'h \<Rightarrow> 'v \<Rightarrow> unit io_result \<times> 'h \<times> 'v"
  h_drop :: "'h \<Rightarrow> 'v \<Rightarrow> 'v"

text \<open>The trait's default methods.\<close>

definition default_exists ::
  "(path \<Rightarrow> 'v \<Rightarrow> vfs_metadata io_result option \<times> 'v) \<Rightarrow> path \<Rightarrow> 'v \<Rightarrow> bool option \<times> 'v" where
  "default_exists metadata p v =
     (case metadata p v of (r, v') \<Rightarrow> (map_option (\<lambda>r. \<not> isl r) r, v'))"

definition default_open_write :: "path \<Rightarrow> open_options \<Rightarrow> 'v \<Rightarrow> 'h io_result option \<times> 'v" where
  "default_open_write path opts v = (None, v)"

definition default_remove :: "path \<Rightarrow> 'v \<Rightarrow> unit io_result option \<times> 'v" where
  "default_remove path v = (None, v)"

definition default_rename :: "path \<Rightarrow> path \<Rightarrow> 'v \<Rightarrow> unit io_result option \<times> 'v" where
  "default_rename from to v = (None, v)"

definition default_create_dir :: "path \<Rightarrow> 'v \<Rightarrow> unit io_result option \<times> 'v" where
  "default_create_dir path v = (None, v)"

definition default_set_len :: "path \<Rightarrow> u64 \<Rightarrow> 'v \<Rightarrow> unit io_result option \<times> 'v" where
  "default_set_len path len v = (None, v)"

definition default_volume_info :: "'v \<Rightarrow> volume_info option \<times> 'v" where
  "default_volume_info v = (None, v)"

section \<open>Seek arithmetic\<close>

lemma seek_target_Start [simp]: "p \<le> U64_MAX \<Longrightarrow> seek_target sz pos (Start p) = Inr p"
  by (simp add: seek_target_def)

lemma seek_target_Current0 [simp]: "pos \<le> U64_MAX \<Longrightarrow> seek_target sz pos (Current 0) = Inr pos"
  by (simp add: seek_target_def)

lemma seek_target_End0 [simp]: "sz \<le> U64_MAX \<Longrightarrow> seek_target sz pos (End 0) = Inr sz"
  by (simp add: seek_target_def)

lemma seek_target_bound: "seek_target sz pos sf = Inr t \<Longrightarrow> t \<le> U64_MAX"
  by (auto simp: seek_target_def Let_def split: if_splits)

lemma seek_target_error:
  "seek_target sz pos sf = Inl e \<Longrightarrow> error_kind e = InvalidInput \<and> raw_os_error e = None"
  by (auto simp: seek_target_def Let_def split: if_splits)

section \<open>The contract of a byte stream\<close>

text \<open>\<open>content\<close> is what the stream holds, \<open>at\<close> its physical position.  A read may be short, but
  returns the bytes at the position, at least one unless nothing was asked for or the end
  is reached; \<open>ok\<close> is the representation invariant of the stream.\<close>

locale byte_stream =
  fixes ops :: "'s stream_ops"
    and content :: "'s \<Rightarrow> byte list"
    and at :: "'s \<Rightarrow> u64"
    and ok :: "'s \<Rightarrow> bool"
  assumes bounded: "ok s \<Longrightarrow> length (content s) \<le> U64_MAX \<and> at s \<le> U64_MAX"
    and seek_Start: "ok s \<Longrightarrow> p \<le> U64_MAX \<Longrightarrow> st_seek ops (Start p) s = (r, s') \<Longrightarrow>
      r = Inr p \<and> at s' = p \<and> content s' = content s \<and> ok s'"
    and seek_End0: "ok s \<Longrightarrow> st_seek ops (End 0) s = (r, s') \<Longrightarrow>
      r = Inr (length (content s)) \<and> content s' = content s \<and> ok s'"
    and seek_Current0: "ok s \<Longrightarrow> st_seek ops (Current 0) s = (r, s') \<Longrightarrow>
      r = Inr (at s) \<and> at s' = at s \<and> content s' = content s \<and> ok s'"
    and read_law: "ok s \<Longrightarrow> st_read ops n s = (bs, s') \<Longrightarrow>
      \<exists>k \<le> n. bs = Inr (take k (drop (at s) (content s)))
        \<and> (0 < n \<and> at s < length (content s) \<longrightarrow> 0 < k)
        \<and> content s' = content s \<and> ok s'"
begin

lemma stream_size_correct:
  assumes "ok s"
  shows "\<exists>s'. stream_size ops s = (Inr (length (content s)), s') \<and> content s' = content s \<and> ok s'"
proof -
  obtain r1 s1 where 1: "st_seek ops (Current 0) s = (r1, s1)" by fastforce
  note c1 = seek_Current0 [OF assms 1]
  obtain r2 s2 where 2: "st_seek ops (End 0) s1 = (r2, s2)" by fastforce
  note c2 = seek_End0 [OF _ 2]
  obtain r3 s3 where 3: "st_seek ops (Start (at s)) s2 = (r3, s3)" by fastforce
  note c3 = seek_Start [OF _ _ 3]
  show ?thesis
    using assms 1 2 3 c1 c2 c3 bounded [OF assms]
    by (auto simp: stream_size_def stream_position_def)
qed

definition source_ok :: "'s shared_source \<Rightarrow> bool" where
  "source_ok src \<longleftrightarrow> ok (ss_inner src) \<and> ss_size src = length (content (ss_inner src))"

lemma shared_source_new_correct:
  assumes "ok s"
  shows "\<exists>src. shared_source_new ops s = Inr src \<and> source_ok src
    \<and> content (ss_inner src) = content s"
proof -
  obtain s1 where 1: "stream_size ops s = (Inr (length (content s)), s1)"
    and s1: "content s1 = content s" "ok s1"
    using stream_size_correct [OF assms] by blast
  obtain r2 s2 where 2: "st_seek ops (Start 0) s1 = (r2, s2)" by fastforce
  with seek_Start [OF s1(2) _ 2] s1 have "r2 = Inr 0" "content s2 = content s" "ok s2" by auto
  with 1 2 show ?thesis by (simp add: shared_source_new_def source_ok_def)
qed

text \<open>A cursor reads the bytes at its own position, whatever the physical position of the
  shared stream is.\<close>

lemma source_cursor_read_correct:
  assumes "source_ok src" "pos \<le> U64_MAX"
  shows "\<exists>k src'. k \<le> n
    \<and> source_cursor_read ops n (src, pos) =
        (Inr (take k (drop pos (content (ss_inner src)))), src',
         pos + length (take k (drop pos (content (ss_inner src)))))
    \<and> (0 < n \<and> pos < ss_size src \<longrightarrow> 0 < k)
    \<and> source_ok src' \<and> content (ss_inner src') = content (ss_inner src)"
proof (cases "ss_size src \<le> pos")
  case True
  with assms show ?thesis by (auto simp: source_cursor_read_def source_ok_def)
next
  case False
  let ?s = "ss_inner src"
  have ok: "ok ?s" and sz: "ss_size src = length (content ?s)" using assms by (auto simp: source_ok_def)
  obtain r1 s1 where 1: "st_seek ops (Start pos) ?s = (r1, s1)" by fastforce
  note c1 = seek_Start [OF ok assms(2) 1]
  obtain r2 s2 where 2: "st_read ops n s1 = (r2, s2)" by fastforce
  from c1 read_law [OF _ 2] obtain k where k: "k \<le> n"
    "r2 = Inr (take k (drop pos (content ?s)))"
    "0 < n \<and> pos < length (content ?s) \<longrightarrow> 0 < k" "content s2 = content ?s" "ok s2"
    by auto
  have len: "pos + length (take k (drop pos (content ?s))) \<le> U64_MAX"
    using bounded [OF ok] False sz by auto
  show ?thesis
    using False c1 1 2 k sz len
    by (auto simp: source_cursor_read_def shared_read_at_def source_ok_def sat_add_exact
        intro!: exI [of _ k])
qed

lemma source_cursor_stream:
  "byte_stream (source_cursor_ops ops) (\<lambda>(src, _). content (ss_inner src)) snd
     (\<lambda>(src, pos). source_ok src \<and> pos \<le> U64_MAX)"
proof (unfold_locales, goal_cases)
  case (1 s)
  then show ?case using bounded by (auto simp: source_ok_def)
next
  case (2 s p r s')
  then show ?case by (cases s) (auto simp: source_cursor_ops_def source_cursor_seek_def)
next
  case (3 s r s')
  then show ?case using bounded
    by (cases s) (auto simp: source_cursor_ops_def source_cursor_seek_def source_ok_def)
next
  case (4 s r s')
  then show ?case by (cases s) (auto simp: source_cursor_ops_def source_cursor_seek_def)
next
  case (5 s n r s')
  obtain src pos where s: "s = (src, pos)" by (cases s)
  with 5 have so: "source_ok src" "pos \<le> U64_MAX" by auto
  from source_cursor_read_correct [OF so, of n] obtain k src' where k: "k \<le> n"
    "source_cursor_read ops n (src, pos) =
        (Inr (take k (drop pos (content (ss_inner src)))), src',
         pos + length (take k (drop pos (content (ss_inner src)))))"
    "0 < n \<and> pos < ss_size src \<longrightarrow> 0 < k"
    "source_ok src'" "content (ss_inner src') = content (ss_inner src)" by blast
  have "pos + length (take k (drop pos (content (ss_inner src)))) \<le> U64_MAX"
    using so bounded [of "ss_inner src"] by (auto simp: source_ok_def)
  then show ?case
    using 5 s k so by (auto simp: source_cursor_ops_def source_ok_def intro!: exI [of _ k])
qed

end

end
