(* ===== verification/Registry.thy ===== *)
theory Registry
  imports Vfs
begin

text \<open>
  \<^verbatim>\<open>crates/hookfs/src/registry.rs\<close>: the stream behind an open carrier descriptor
  (\<open>OpenStream\<close>), the open-file record, and the registry that maps the numeric carrier to
  it.  The per-object lock makes each operation on an open file atomic, so an operation
  takes the file and the provider state and returns both updated.  The tables of open
  files, of Windows find handles and of POSIX directory pointers obey one contract, the
  locale \<open>handle_table\<close>.
\<close>

definition VIRTUAL_VOLUME_SERIAL :: nat where
  "VIRTUAL_VOLUME_SERIAL = 0x484F4B46"

section \<open>Open streams\<close>

datatype 'h open_stream = ReadStream 'h | WriteStream 'h

fun stream_of :: "'h open_stream \<Rightarrow> 'h" where
  "stream_of (ReadStream h) = h"
| "stream_of (WriteStream h) = h"

fun same_kind :: "'h open_stream \<Rightarrow> 'h \<Rightarrow> 'h open_stream" where
  "same_kind (ReadStream _) h = ReadStream h"
| "same_kind (WriteStream _) h = WriteStream h"

fun os_read ::
  "('v, 'h) vfs_ops \<Rightarrow> 'h open_stream \<Rightarrow> nat \<Rightarrow> 'v \<Rightarrow> byte list io_result \<times> 'h open_stream \<times> 'v" where
  "os_read ops (ReadStream h) n v = (case h_read ops h n v of (r, h', v') \<Rightarrow> (r, ReadStream h', v'))"
| "os_read ops (WriteStream h) n v = (case h_read ops h n v of (r, h', v') \<Rightarrow> (r, WriteStream h', v'))"

fun os_write ::
  "('v, 'h) vfs_ops \<Rightarrow> 'h open_stream \<Rightarrow> byte list \<Rightarrow> 'v \<Rightarrow> nat io_result \<times> 'h open_stream \<times> 'v" where
  "os_write ops (ReadStream h) buf v = (Inl read_only_error, ReadStream h, v)"
| "os_write ops (WriteStream h) buf v =
     (case h_write ops h buf v of (r, h', v') \<Rightarrow> (r, WriteStream h', v'))"

fun os_seek ::
  "('v, 'h) vfs_ops \<Rightarrow> 'h open_stream \<Rightarrow> seek_from \<Rightarrow> 'v \<Rightarrow> u64 io_result \<times> 'h open_stream \<times> 'v" where
  "os_seek ops (ReadStream h) p v = (case h_seek ops h p v of (r, h', v') \<Rightarrow> (r, ReadStream h', v'))"
| "os_seek ops (WriteStream h) p v = (case h_seek ops h p v of (r, h', v') \<Rightarrow> (r, WriteStream h', v'))"

fun os_position ::
  "('v, 'h) vfs_ops \<Rightarrow> 'h open_stream \<Rightarrow> 'v \<Rightarrow> u64 io_result \<times> 'h open_stream \<times> 'v" where
  "os_position ops (ReadStream h) v = (case h_position ops h v of (r, h', v') \<Rightarrow> (r, ReadStream h', v'))"
| "os_position ops (WriteStream h) v = (case h_position ops h v of (r, h', v') \<Rightarrow> (r, WriteStream h', v'))"

fun os_size ::
  "('v, 'h) vfs_ops \<Rightarrow> 'h open_stream \<Rightarrow> 'v \<Rightarrow> u64 io_result \<times> 'h open_stream \<times> 'v" where
  "os_size ops (ReadStream h) v = (case h_size ops h v of (r, h', v') \<Rightarrow> (r, ReadStream h', v'))"
| "os_size ops (WriteStream h) v = (case h_size ops h v of (r, h', v') \<Rightarrow> (r, WriteStream h', v'))"

fun os_set_len ::
  "('v, 'h) vfs_ops \<Rightarrow> 'h open_stream \<Rightarrow> u64 \<Rightarrow> 'v \<Rightarrow> unit io_result \<times> 'h open_stream \<times> 'v" where
  "os_set_len ops (ReadStream h) len v = (Inl read_only_error, ReadStream h, v)"
| "os_set_len ops (WriteStream h) len v =
     (case h_set_len ops h len v of (r, h', v') \<Rightarrow> (r, WriteStream h', v'))"

fun os_flush ::
  "('v, 'h) vfs_ops \<Rightarrow> 'h open_stream \<Rightarrow> 'v \<Rightarrow> unit io_result \<times> 'h open_stream \<times> 'v" where
  "os_flush ops (ReadStream h) v = (Inr (), ReadStream h, v)"
| "os_flush ops (WriteStream h) v = (case h_flush ops h v of (r, h', v') \<Rightarrow> (r, WriteStream h', v'))"

text \<open>Opening through the provider for reading or for writing; every shim of the open family does it.\<close>

definition open_via ::
  "('v, 'h) vfs_ops \<Rightarrow> path \<Rightarrow> open_options \<Rightarrow> 'v \<Rightarrow> 'h open_stream io_result option \<times> 'v" where
  "open_via ops path opts v =
     (if oo_write opts then
        (case v_open_write ops path opts v of (r, v') \<Rightarrow> (map_option (map_sum id WriteStream) r, v'))
      else
        (case v_open ops path opts v of (r, v') \<Rightarrow> (map_option (map_sum id ReadStream) r, v')))"

section \<open>The registry\<close>

record 'h open_file =
  of_stream :: "'h open_stream"
  of_path :: path
  of_writable :: bool

text \<open>On Windows an open file also knows whether it was opened for asynchronous I/O.\<close>

record 'h win_file = "'h open_file" +
  of_overlapped :: bool

record find_state =
  find_entries :: "vfs_dir_entry list"
  find_next :: nat

text \<open>\<open>'f\<close> is the platform's open-file record.\<close>

record 'f registry_of =
  reg_files :: "(nat \<times> 'f) list"
  reg_finds :: "(nat \<times> find_state) list"
  reg_dirs :: "nat list"

type_synonym 'h registry = "'h open_file registry_of"

definition registry_new :: "'f registry_of" where
  "registry_new = \<lparr>reg_files = [], reg_finds = [], reg_dirs = []\<rparr>"

definition insert_file :: "'f registry_of \<Rightarrow> nat \<Rightarrow> 'f \<Rightarrow> 'f registry_of" where
  "insert_file reg handle file = reg\<lparr>reg_files := AList.update handle file (reg_files reg)\<rparr>"

definition get_file :: "'f registry_of \<Rightarrow> nat \<Rightarrow> 'f option" where
  "get_file reg handle = map_of (reg_files reg) handle"

definition remove_file :: "'f registry_of \<Rightarrow> nat \<Rightarrow> 'f option \<times> 'f registry_of" where
  "remove_file reg handle =
     (map_of (reg_files reg) handle, reg\<lparr>reg_files := AList.delete handle (reg_files reg)\<rparr>)"

definition insert_find :: "'f registry_of \<Rightarrow> nat \<Rightarrow> find_state \<Rightarrow> 'f registry_of" where
  "insert_find reg handle state = reg\<lparr>reg_finds := AList.update handle state (reg_finds reg)\<rparr>"

definition get_find :: "'f registry_of \<Rightarrow> nat \<Rightarrow> find_state option" where
  "get_find reg handle = map_of (reg_finds reg) handle"

definition remove_find :: "'f registry_of \<Rightarrow> nat \<Rightarrow> find_state option \<times> 'f registry_of" where
  "remove_find reg handle =
     (map_of (reg_finds reg) handle, reg\<lparr>reg_finds := AList.delete handle (reg_finds reg)\<rparr>)"

definition insert_dir :: "'f registry_of \<Rightarrow> nat \<Rightarrow> 'f registry_of" where
  "insert_dir reg dir = reg\<lparr>reg_dirs := List.insert dir (reg_dirs reg)\<rparr>"

definition contains_dir :: "'f registry_of \<Rightarrow> nat \<Rightarrow> bool" where
  "contains_dir reg dir \<longleftrightarrow> dir \<in> set (reg_dirs reg)"

definition remove_dir :: "'f registry_of \<Rightarrow> nat \<Rightarrow> bool \<times> 'f registry_of" where
  "remove_dir reg dir = (dir \<in> set (reg_dirs reg), reg\<lparr>reg_dirs := removeAll dir (reg_dirs reg)\<rparr>)"

section \<open>The contract of a handle table\<close>

locale handle_table =
  fixes ins :: "'r \<Rightarrow> nat \<Rightarrow> 'e \<Rightarrow> 'r"
    and get :: "'r \<Rightarrow> nat \<Rightarrow> 'e option"
    and rem :: "'r \<Rightarrow> nat \<Rightarrow> 'e option \<times> 'r"
  assumes get_ins: "get (ins r h e) h' = (if h' = h then Some e else get r h')"
    and rem_result: "fst (rem r h) = get r h"
    and get_rem: "get (snd (rem r h)) h' = (if h' = h then None else get r h')"
begin

text \<open>Closing returns exactly what was opened, and a second close finds nothing.\<close>

lemma open_close: "rem (ins r h e) h = (Some e, snd (rem (ins r h e) h))"
  by (metis get_ins prod.collapse rem_result)

lemma close_once: "fst (rem (snd (rem r h)) h) = None"
  by (simp add: rem_result get_rem)

lemma close_frame: "h' \<noteq> h \<Longrightarrow> get (snd (rem (ins r h e) h)) h' = get r h'"
  by (simp add: get_rem get_ins)

lemma close_restores: "get r h = None \<Longrightarrow> get (snd (rem (ins r h e) h)) = get r"
  by (auto simp: fun_eq_iff get_rem get_ins)

end

interpretation files: handle_table insert_file get_file remove_file
  by unfold_locales (auto simp: insert_file_def get_file_def remove_file_def)

interpretation finds: handle_table insert_find get_find remove_find
  by unfold_locales (auto simp: insert_find_def get_find_def remove_find_def)

interpretation dirs: handle_table
  "\<lambda>reg d (_ :: unit). insert_dir reg d"
  "\<lambda>reg d. if contains_dir reg d then Some () else None"
  "\<lambda>reg d. (if fst (remove_dir reg d) then Some () else None, snd (remove_dir reg d))"
  by unfold_locales (auto simp: insert_dir_def contains_dir_def remove_dir_def)

text \<open>The three tables do not interfere.\<close>

lemma get_file_insert_dir [simp]: "get_file (insert_dir reg d) h = get_file reg h"
  by (simp add: get_file_def insert_dir_def)

lemma get_file_remove_dir [simp]: "get_file (snd (remove_dir reg d)) h = get_file reg h"
  by (simp add: get_file_def remove_dir_def)

lemma contains_dir_insert_file [simp]: "contains_dir (insert_file reg h f) d = contains_dir reg d"
  by (simp add: contains_dir_def insert_file_def)

lemma os_write_read_only: "os_write ops (ReadStream h) buf v = (Inl read_only_error, ReadStream h, v)"
  by simp

text \<open>What a provider promises about the length of a read.\<close>

definition reads_fit :: "('v, 'h) vfs_ops \<Rightarrow> bool" where
  "reads_fit ops \<longleftrightarrow> (\<forall>h n v bs h' v'. h_read ops h n v = (Inr bs, h', v') \<longrightarrow> length bs \<le> n)"

lemma os_read_fits: "reads_fit ops \<Longrightarrow> os_read ops s n v = (Inr bs, s', v') \<Longrightarrow> length bs \<le> n"
  by (cases s) (fastforce simp: reads_fit_def split: prod.splits)+

end
