(* ===== verification/Router.thy ===== *)
theory Router
  imports Registry
begin

text \<open>
  \<^verbatim>\<open>crates/hookfs/src/router.rs\<close>: the engine record (provider state, namespace, registry,
  tracked working directory, write permission) and \<open>classify\<close>, the per-call decision
  between the virtual tree, a fail-closed rejection and the real operating system.
\<close>

datatype route = Virtual path | Rejected | Real

record ('v, 'f) engine_of =
  eng_vfs :: 'v
  eng_namespace :: namespace
  eng_registry :: "'f registry_of"
  eng_cwd :: "string option"
  eng_allow_writes :: bool

type_synonym ('v, 'h) engine = "('v, 'h open_file) engine_of"

definition engine_new :: "'v \<Rightarrow> namespace \<Rightarrow> bool \<Rightarrow> ('v, 'f) engine_of" where
  "engine_new vfs ns allow_writes =
     \<lparr>eng_vfs = vfs, eng_namespace = ns, eng_registry = registry_new, eng_cwd = None,
      eng_allow_writes = allow_writes\<rparr>"

definition virtual_cwd :: "('v, 'f) engine_of \<Rightarrow> string option" where
  "virtual_cwd e = eng_cwd e"

definition set_virtual_cwd :: "string option \<Rightarrow> ('v, 'f) engine_of \<Rightarrow> ('v, 'f) engine_of" where
  "set_virtual_cwd cwd e = e\<lparr>eng_cwd := cwd\<rparr>"

definition is_absolute :: "string \<Rightarrow> bool" where
  "is_absolute s = has_root s"

definition classify :: "('v, 'f) engine_of \<Rightarrow> string \<Rightarrow> route" where
  "classify e decoded =
     (case (if is_absolute decoded then Some decoded
            else (case virtual_cwd e of
                    Some cwd \<Rightarrow> Some (path_join cwd decoded)
                  | None \<Rightarrow> None)) of
        None \<Rightarrow> Real
      | Some absolute \<Rightarrow>
          if \<not> is_virtual (eng_namespace e) absolute then Real
          else if is_lexically_safe absolute then Virtual absolute
          else Rejected)"

section \<open>What a routing decision guarantees\<close>

lemma classify_Virtual_iff:
  "classify e s = Virtual p \<longleftrightarrow>
     (if is_absolute s then p = s else \<exists>cwd. virtual_cwd e = Some cwd \<and> p = path_join cwd s)
     \<and> is_virtual (eng_namespace e) p \<and> is_lexically_safe p"
  by (auto simp: classify_def split: option.splits if_splits)

lemma classify_absolute:
  "is_absolute s \<Longrightarrow> classify e s =
     (if \<not> is_virtual (eng_namespace e) s then Real
      else if is_lexically_safe s then Virtual s else Rejected)"
  by (simp add: classify_def)

lemma classify_Virtual_confined:
  assumes "eng_namespace e = from_root root" "comps root \<noteq> []" "classify e s = Virtual p"
  shows "has_root p = has_root root" "prefix (comps root) (comps p)" "is_lexically_safe p"
  using assms by (auto simp: classify_Virtual_iff is_virtual_from_root)

lemma classify_relative_in_cwd:
  assumes "eng_namespace e = from_root root" "comps root \<noteq> []"
    and "virtual_cwd e = Some cwd" "is_virtual (from_root root) cwd" "\<not> is_absolute s"
  shows "classify e s = (if is_lexically_safe (path_join cwd s) then Virtual (path_join cwd s) else Rejected)"
proof -
  have "is_virtual (from_root root) (path_join cwd s)"
    using assms by (simp add: is_virtual_from_root path_simps is_absolute_def prefix_append)
  then show ?thesis using assms by (simp add: classify_def)
qed

end
