(* ===== verification/Unix_Base.thy ===== *)
theory Unix_Base
  imports Dispatch Router
begin

text \<open>
  The common core of the Linux shims, \<^verbatim>\<open>crates/hookfs/src/shims/unix.rs\<close>: the state a shim runs
  in, the scope that guards against reentrancy, the two routing patterns (by path, by descriptor),
  the error mapping and the values a virtual \<open>stat\<close> reports.

  The state of the calling thread holds the dispatch record with the active engine, the reentrancy
  marker and the machine below: memory, \<open>errno\<close> and the rest of the operating system.  Numbers and
  pointers are passed and returned as integers, 0 being the null pointer; a C string is passed by
  what it addresses (\<open>None\<close> when null), the structures that a call fills are kept by address.
  The C library is a parameter, the record \<open>libc\<close>.
\<close>

section \<open>The machine\<close>

record stat_rec =
  st_dev :: nat
  st_ino :: nat
  st_mode :: nat
  st_nlink :: nat
  st_size :: int
  st_blksize :: nat
  st_blocks :: nat
  st_mtime :: int
  st_atime :: int
  st_ctime :: int

record statx_rec =
  stx_mask :: nat
  stx_blksize :: nat
  stx_nlink :: nat
  stx_mode :: nat
  stx_ino :: nat
  stx_size :: nat
  stx_blocks :: nat
  stx_mtime :: int
  stx_atime :: int
  stx_ctime :: int

record statvfs_rec =
  f_bsize :: nat
  f_frsize :: nat
  f_blocks :: nat
  f_bfree :: nat
  f_bavail :: nat
  f_files :: nat
  f_ffree :: nat
  f_favail :: nat
  f_fsid :: nat
  f_namemax :: nat

record dirent_rec =
  d_ino :: nat
  d_off :: nat
  d_reclen :: nat
  d_type :: nat
  d_name :: string

datatype cstruct = CStat stat_rec | CStat64 stat_rec | CStatx statx_rec | CStatvfs statvfs_rec

record 'w machine =
  mc_mem :: "nat \<Rightarrow> byte"
  mc_structs :: "nat \<Rightarrow> cstruct option"
  mc_errno :: int
  mc_world :: 'w

datatype carg = CInt int | CPtr nat | CStr "string option" | CIov "(nat \<times> nat) list option"

record 'w libc =
  lc_orig :: "sym \<Rightarrow> carg list \<Rightarrow> 'w machine \<Rightarrow> int \<times> 'w machine"
  lc_fopencookie :: "nat \<Rightarrow> string option \<Rightarrow> bool \<Rightarrow> 'w machine \<Rightarrow> nat \<times> 'w machine"
  lc_malloc :: "nat \<Rightarrow> 'w machine \<Rightarrow> nat \<times> 'w machine"
  lc_hash :: "string \<Rightarrow> nat"

section \<open>The thread\<close>

record 'h cookie_state =
  ck_stream :: "'h open_stream"
  ck_writable :: bool

record vdir =
  vd_entries :: "vfs_dir_entry list"
  vd_next :: nat
  vd_dirent :: dirent_rec
  vd_dirent64 :: dirent_rec

text \<open>The boxes that the code hands out as raw pointers are kept by address; \<open>t_brk\<close> is the next
  address the allocator returns.\<close>

record ('v, 'h, 'c, 'w) thread =
  t_disp :: "(('v, 'h) engine, 'c) dispatch"
  t_in_hook :: bool
  t_mach :: "'w machine"
  t_cookies :: "(nat \<times> 'h cookie_state) list"
  t_dirs :: "(nat \<times> vdir) list"
  t_brk :: nat

type_synonym ('v, 'h, 'c, 'w) act = "('v, 'h, 'c, 'w) thread \<Rightarrow> int \<times> ('v, 'h, 'c, 'w) thread"

definition set_errno :: "int \<Rightarrow> ('v, 'h, 'c, 'w) thread \<Rightarrow> ('v, 'h, 'c, 'w) thread" where
  "set_errno code t = t\<lparr>t_mach := (t_mach t)\<lparr>mc_errno := code\<rparr>\<rparr>"

definition fail :: "int \<Rightarrow> int \<Rightarrow> ('v, 'h, 'c, 'w) act" where
  "fail code ret t = (ret, set_errno code t)"

text \<open>Calling the saved original of a symbol with the caller's arguments.\<close>

definition call_orig :: "'w libc \<Rightarrow> sym \<Rightarrow> carg list \<Rightarrow> ('v, 'h, 'c, 'w) act" where
  "call_orig lc s args t = (case lc_orig lc s args (t_mach t) of (r, m) \<Rightarrow> (r, t\<lparr>t_mach := m\<rparr>))"

definition put_engine :: "('v, 'h) engine \<Rightarrow> ('v, 'h, 'c, 'w) thread \<Rightarrow> ('v, 'h, 'c, 'w) thread" where
  "put_engine e t =
     t\<lparr>t_disp := (t_disp t)\<lparr>d_active := map_option (\<lambda>(_, i). (e, i)) (d_active (t_disp t))\<rparr>\<rparr>"

definition put_vfs :: "('v, 'h) engine \<Rightarrow> 'v \<Rightarrow> ('v, 'h, 'c, 'w) thread \<Rightarrow> ('v, 'h, 'c, 'w) thread" where
  "put_vfs e v = put_engine (e\<lparr>eng_vfs := v\<rparr>)"

text \<open>\<open>fd as usize\<close> sign-extends, \<open>n as ssize_t\<close> reinterprets, and the checked conversions clamp.\<close>

definition as_usize :: "int \<Rightarrow> nat" where
  "as_usize fd = (if fd < 0 then nat (fd + 2 ^ 64) else nat fd)"

definition as_ssize :: "nat \<Rightarrow> int" where
  "as_ssize n = (if n < 2 ^ 63 then int n else int n - 2 ^ 64)"

definition clamp_i64 :: "nat \<Rightarrow> int" where
  "clamp_i64 n = (if int n \<le> I64_MAX then int n else I64_MAX)"

section \<open>Error numbers\<close>

abbreviation ENOENT :: int where "ENOENT \<equiv> 2"
abbreviation EIO :: int where "EIO \<equiv> 5"
abbreviation ENOMEM :: int where "ENOMEM \<equiv> 12"
abbreviation EACCES :: int where "EACCES \<equiv> 13"
abbreviation EFAULT :: int where "EFAULT \<equiv> 14"
abbreviation EEXIST :: int where "EEXIST \<equiv> 17"
abbreviation ENOTDIR :: int where "ENOTDIR \<equiv> 20"
abbreviation EISDIR :: int where "EISDIR \<equiv> 21"
abbreviation EINVAL :: int where "EINVAL \<equiv> 22"
abbreviation EMFILE :: int where "EMFILE \<equiv> 24"
abbreviation EROFS :: int where "EROFS \<equiv> 30"
abbreviation ERANGE :: int where "ERANGE \<equiv> 34"
abbreviation ENAMETOOLONG :: int where "ENAMETOOLONG \<equiv> 36"
abbreviation ENOTEMPTY :: int where "ENOTEMPTY \<equiv> 39"

definition PANIC_ERRNO :: int where
  "PANIC_ERRNO = EIO"

definition io_to_errno :: "io_error \<Rightarrow> int" where
  "io_to_errno err =
     (case raw_os_error err of
        Some c \<Rightarrow> c
      | None \<Rightarrow>
          (case error_kind err of
             NotFound \<Rightarrow> ENOENT
           | PermissionDenied \<Rightarrow> EACCES
           | AlreadyExists \<Rightarrow> EEXIST
           | InvalidInput \<Rightarrow> EINVAL
           | DirectoryNotEmpty \<Rightarrow> ENOTEMPTY
           | NotADirectory \<Rightarrow> ENOTDIR
           | IsADirectory \<Rightarrow> EISDIR
           | OtherKind \<Rightarrow> EIO))"

section \<open>The shape of a shim\<close>

text \<open>A shim runs behind \<open>guard_abi\<close>.  The providers of the model return a value, so the body does.\<close>

definition shim :: "int \<Rightarrow> ('v, 'h, 'c, 'w) act \<Rightarrow> ('v, 'h, 'c, 'w) act" where
  "shim fallback body =
     guard_abi fallback PANIC_ERRNO (\<lambda>t. case body t of (r, t') \<Rightarrow> (Some r, t')) set_errno"

text \<open>\<open>HookScope::enter\<close>, or pass through when the thread is inside a hook already; the scope is left
  when the body returns, on every path.\<close>

definition hooked :: "('v, 'h, 'c, 'w) act \<Rightarrow> ('v, 'h, 'c, 'w) act \<Rightarrow> ('v, 'h, 'c, 'w) act" where
  "hooked pass body t =
     (case hook_enter (t_in_hook t) of
        (False, _) \<Rightarrow> pass t
      | (True, mark) \<Rightarrow>
          (case body (t\<lparr>t_in_hook := mark\<rparr>) of
             (r, t') \<Rightarrow> (r, t'\<lparr>t_in_hook := hook_leave (t_in_hook t')\<rparr>)))"

definition route_path :: "string \<Rightarrow> ('v, 'h, 'c, 'w) thread \<Rightarrow> (('v, 'h) engine \<times> route) option" where
  "route_path decoded t =
     (case current_engine (t_disp t) of None \<Rightarrow> None | Some e \<Rightarrow> Some (e, classify e decoded))"

definition path_routed ::
  "('v, 'h, 'c, 'w) act \<Rightarrow> string option \<Rightarrow> ('v, 'h, 'c, 'w) act \<Rightarrow>
     (('v, 'h) engine \<Rightarrow> path \<Rightarrow> ('v, 'h, 'c, 'w) act) \<Rightarrow> ('v, 'h, 'c, 'w) act" where
  "path_routed pass path reject serve = hooked pass (\<lambda>t.
     case decode_cstr path of
       None \<Rightarrow> pass t
     | Some decoded \<Rightarrow>
         (case route_path decoded t of
            None \<Rightarrow> pass t
          | Some (_, Real) \<Rightarrow> pass t
          | Some (_, Rejected) \<Rightarrow> reject t
          | Some (e, Virtual p) \<Rightarrow> serve e p t))"

definition engine_routed ::
  "('v, 'h, 'c, 'w) act \<Rightarrow> (('v, 'h) engine \<Rightarrow> ('v, 'h, 'c, 'w) act) \<Rightarrow> ('v, 'h, 'c, 'w) act" where
  "engine_routed pass serve = hooked pass (\<lambda>t.
     case current_engine (t_disp t) of None \<Rightarrow> pass t | Some e \<Rightarrow> serve e t)"

definition fd_routed ::
  "('v, 'h, 'c, 'w) act \<Rightarrow> int \<Rightarrow> (('v, 'h) engine \<Rightarrow> 'h open_file \<Rightarrow> ('v, 'h, 'c, 'w) act) \<Rightarrow>
     ('v, 'h, 'c, 'w) act" where
  "fd_routed pass fd serve = engine_routed pass (\<lambda>e t.
     case get_file (eng_registry e) (as_usize fd) of None \<Rightarrow> pass t | Some file \<Rightarrow> serve e file t)"

text \<open>Storing what a call did to the stream behind a descriptor, and to the provider.\<close>

definition put_stream ::
  "('v, 'h) engine \<Rightarrow> int \<Rightarrow> 'h open_file \<Rightarrow> 'h open_stream \<Rightarrow> 'v \<Rightarrow> ('v, 'h, 'c, 'w) thread \<Rightarrow> ('v, 'h, 'c, 'w) thread" where
  "put_stream e fd file s v =
     put_engine (e\<lparr>eng_vfs := v,
       eng_registry := insert_file (eng_registry e) (as_usize fd) (file\<lparr>of_stream := s\<rparr>)\<rparr>)"

definition load_bytes :: "nat \<Rightarrow> nat \<Rightarrow> ('v, 'h, 'c, 'w) thread \<Rightarrow> byte list" where
  "load_bytes buf n t = map (mc_mem (t_mach t)) [buf ..< buf + n]"

definition write_mem :: "nat \<Rightarrow> byte list \<Rightarrow> (nat \<Rightarrow> byte) \<Rightarrow> nat \<Rightarrow> byte" where
  "write_mem buf bs m a = (if buf \<le> a \<and> a < buf + length bs then bs ! (a - buf) else m a)"

definition store_bytes :: "nat \<Rightarrow> byte list \<Rightarrow> ('v, 'h, 'c, 'w) thread \<Rightarrow> ('v, 'h, 'c, 'w) thread" where
  "store_bytes buf bs t = t\<lparr>t_mach := (t_mach t)\<lparr>mc_mem := write_mem buf bs (mc_mem (t_mach t))\<rparr>\<rparr>"

definition store_struct :: "nat \<Rightarrow> cstruct \<Rightarrow> ('v, 'h, 'c, 'w) thread \<Rightarrow> ('v, 'h, 'c, 'w) thread" where
  "store_struct buf c t =
     (if buf = 0 then t else t\<lparr>t_mach := (t_mach t)\<lparr>mc_structs := (mc_structs (t_mach t))(buf \<mapsto> c)\<rparr>\<rparr>)"

section \<open>What a virtual stat reports\<close>

definition stable_ino :: "'w libc \<Rightarrow> path \<Rightarrow> nat" where
  "stable_ino lc path = (let h = lc_hash lc (normalize_key path) in if h = 0 then 1 else h)"

definition S_IFDIR :: nat where "S_IFDIR = 0x4000"
definition S_IFREG :: nat where "S_IFREG = 0x8000"

record stat_vals =
  sv_mode :: nat
  sv_size :: int
  sv_mtime :: int

definition stat_values :: "vfs_metadata \<Rightarrow> stat_vals" where
  "stat_values meta =
     \<lparr>sv_mode = (if md_is_dir meta then S_IFDIR + 0x16D else S_IFREG + 0x124),
      sv_size = clamp_i64 (md_len meta),
      sv_mtime = (case md_mtime meta of
                    Some t \<Rightarrow> if 0 \<le> t \<and> t \<le> I64_MAX then t else 0
                  | None \<Rightarrow> 0)\<rparr>"

definition blocks_512 :: "int \<Rightarrow> nat" where
  "blocks_512 sz = sat_add (nat sz) 511 div 512"

definition stat_struct :: "'w libc \<Rightarrow> path \<Rightarrow> vfs_metadata \<Rightarrow> stat_rec" where
  "stat_struct lc path meta =
     (let v = stat_values meta in
      \<lparr>st_dev = VIRTUAL_VOLUME_SERIAL, st_ino = stable_ino lc path, st_mode = sv_mode v, st_nlink = 1,
       st_size = sv_size v, st_blksize = 512, st_blocks = blocks_512 (sv_size v),
       st_mtime = sv_mtime v, st_atime = sv_mtime v, st_ctime = sv_mtime v\<rparr>)"

definition fill_stat :: "'w libc \<Rightarrow> nat \<Rightarrow> path \<Rightarrow> vfs_metadata \<Rightarrow> ('v, 'h, 'c, 'w) thread \<Rightarrow> ('v, 'h, 'c, 'w) thread" where
  "fill_stat lc buf path meta = store_struct buf (CStat (stat_struct lc path meta))"

definition fill_stat64 :: "'w libc \<Rightarrow> nat \<Rightarrow> path \<Rightarrow> vfs_metadata \<Rightarrow> ('v, 'h, 'c, 'w) thread \<Rightarrow> ('v, 'h, 'c, 'w) thread" where
  "fill_stat64 lc buf path meta = store_struct buf (CStat64 (stat_struct lc path meta))"

definition STATX_BASIC_STATS :: nat where "STATX_BASIC_STATS = 0x7FF"

definition fill_statx :: "'w libc \<Rightarrow> nat \<Rightarrow> path \<Rightarrow> vfs_metadata \<Rightarrow> ('v, 'h, 'c, 'w) thread \<Rightarrow> ('v, 'h, 'c, 'w) thread" where
  "fill_statx lc buf path meta =
     (let v = stat_values meta in
      store_struct buf (CStatx
        \<lparr>stx_mask = STATX_BASIC_STATS, stx_blksize = 512, stx_nlink = 1, stx_mode = sv_mode v mod 2 ^ 16,
         stx_ino = stable_ino lc path, stx_size = (if sv_size v < 0 then 0 else nat (sv_size v)),
         stx_blocks = blocks_512 (sv_size v),
         stx_mtime = sv_mtime v, stx_atime = sv_mtime v, stx_ctime = sv_mtime v\<rparr>))"

end
