(* ===== verification/Unix_Files.thy ===== *)
theory Unix_Files
  imports Unix_Base
begin

unbundle bit_operations_syntax

text \<open>
  The open family and the descriptor family of \<^verbatim>\<open>crates/hookfs/src/shims/unix.rs\<close> (with the entries of
  \<^verbatim>\<open>shims/unix/trampolines.rs\<close>): \<open>fopen\<close> through cookie streams, \<open>open\<close> through carrier descriptors,
  reading, writing, seeking, truncating and closing.
\<close>

section \<open>Cookie streams\<close>

text \<open>The operations behind a virtual \<open>FILE*\<close>.  The C library calls them whether or not an installation
  is active, so they take the provider state by itself.  The box of a closed cookie is gone; the
  C library does not call with it again.\<close>

definition seek_whence :: "int \<Rightarrow> int \<Rightarrow> seek_from option" where
  "seek_whence whence offset =
     (if whence = 0 then (if offset < 0 then None else Some (Start (nat offset)))
      else if whence = 1 then Some (Current offset)
      else if whence = 2 then Some (End offset)
      else None)"

definition cookie_read_into ::
  "('v, 'h) vfs_ops \<Rightarrow> nat \<Rightarrow> nat \<Rightarrow> nat \<Rightarrow> 'v \<Rightarrow> ('v, 'h, 'c, 'w) thread \<Rightarrow> int \<times> 'v \<times> ('v, 'h, 'c, 'w) thread" where
  "cookie_read_into ops cookie buf len v t =
     (if cookie = 0 \<or> buf = 0 \<and> len \<noteq> 0 then (- 1, v, set_errno EINVAL t)
      else
        (case map_of (t_cookies t) cookie of
           None \<Rightarrow> (- 1, v, set_errno EINVAL t)
         | Some state \<Rightarrow>
             if len = 0 then (0, v, t)
             else
               (case os_read ops (ck_stream state) len v of
                  (r, s', v') \<Rightarrow>
                    let t' = t\<lparr>t_cookies := AList.update cookie (state\<lparr>ck_stream := s'\<rparr>) (t_cookies t)\<rparr>
                    in (case r of
                          Inr bs \<Rightarrow> (clamp_i64 (length bs), v', store_bytes buf bs t')
                        | Inl err \<Rightarrow> (- 1, v', set_errno (io_to_errno err) t')))))"

definition cookie_write_from ::
  "('v, 'h) vfs_ops \<Rightarrow> nat \<Rightarrow> nat \<Rightarrow> nat \<Rightarrow> 'v \<Rightarrow> ('v, 'h, 'c, 'w) thread \<Rightarrow> int \<times> 'v \<times> ('v, 'h, 'c, 'w) thread" where
  "cookie_write_from ops cookie buf len v t =
     (if cookie = 0 \<or> buf = 0 \<and> len \<noteq> 0 then (- 1, v, set_errno EINVAL t)
      else
        (case map_of (t_cookies t) cookie of
           None \<Rightarrow> (- 1, v, set_errno EINVAL t)
         | Some state \<Rightarrow>
             if len = 0 then (0, v, t)
             else
               (case os_write ops (ck_stream state) (load_bytes buf len t) v of
                  (r, s', v') \<Rightarrow>
                    let t' = t\<lparr>t_cookies := AList.update cookie (state\<lparr>ck_stream := s'\<rparr>) (t_cookies t)\<rparr>
                    in (case r of
                          Inr n \<Rightarrow> (clamp_i64 n, v', t')
                        | Inl err \<Rightarrow> (- 1, v', set_errno (io_to_errno err) t')))))"

definition cookie_seek_to ::
  "('v, 'h) vfs_ops \<Rightarrow> nat \<Rightarrow> int \<Rightarrow> int \<Rightarrow> 'v \<Rightarrow> ('v, 'h, 'c, 'w) thread \<Rightarrow> int option \<times> 'v \<times> ('v, 'h, 'c, 'w) thread" where
  "cookie_seek_to ops cookie offset whence v t =
     (if cookie = 0 then (None, v, set_errno EINVAL t)
      else
        (case map_of (t_cookies t) cookie of
           None \<Rightarrow> (None, v, set_errno EINVAL t)
         | Some state \<Rightarrow>
             (case seek_whence whence offset of
                None \<Rightarrow> (None, v, set_errno EINVAL t)
              | Some from \<Rightarrow>
                  (case os_seek ops (ck_stream state) from v of
                     (r, s', v') \<Rightarrow>
                       let t' = t\<lparr>t_cookies := AList.update cookie (state\<lparr>ck_stream := s'\<rparr>) (t_cookies t)\<rparr>
                       in (case r of
                             Inr pos \<Rightarrow> (Some (clamp_i64 pos), v', t')
                           | Inl err \<Rightarrow> (None, v', set_errno (io_to_errno err) t'))))))"

definition cookie_close_state ::
  "('v, 'h) vfs_ops \<Rightarrow> nat \<Rightarrow> 'v \<Rightarrow> ('v, 'h, 'c, 'w) thread \<Rightarrow> 'v \<times> ('v, 'h, 'c, 'w) thread" where
  "cookie_close_state ops cookie v t =
     (case map_of (t_cookies t) cookie of
        None \<Rightarrow> (v, t)
      | Some state \<Rightarrow>
          (h_drop ops (stream_of (ck_stream state)) v, t\<lparr>t_cookies := AList.delete cookie (t_cookies t)\<rparr>))"

text \<open>The callbacks that \<open>fopencookie\<close> is given.  The seek callback reads and writes the offset through a
  pointer, \<open>None\<close> when null.\<close>

definition cookie_read ::
  "('v, 'h) vfs_ops \<Rightarrow> nat \<Rightarrow> nat \<Rightarrow> nat \<Rightarrow> 'v \<Rightarrow> ('v, 'h, 'c, 'w) thread \<Rightarrow> int \<times> 'v \<times> ('v, 'h, 'c, 'w) thread" where
  "cookie_read ops cookie buf len v t = cookie_read_into ops cookie buf len v t"

definition cookie_write ::
  "('v, 'h) vfs_ops \<Rightarrow> nat \<Rightarrow> nat \<Rightarrow> nat \<Rightarrow> 'v \<Rightarrow> ('v, 'h, 'c, 'w) thread \<Rightarrow> int \<times> 'v \<times> ('v, 'h, 'c, 'w) thread" where
  "cookie_write ops cookie buf len v t = cookie_write_from ops cookie buf len v t"

definition cookie_seek ::
  "('v, 'h) vfs_ops \<Rightarrow> nat \<Rightarrow> int option \<Rightarrow> int \<Rightarrow> 'v \<Rightarrow> ('v, 'h, 'c, 'w) thread \<Rightarrow>
     (int \<times> int option) \<times> 'v \<times> ('v, 'h, 'c, 'w) thread" where
  "cookie_seek ops cookie offset whence v t =
     (case offset of
        None \<Rightarrow> ((- 1, None), v, set_errno EINVAL t)
      | Some requested \<Rightarrow>
          (case cookie_seek_to ops cookie requested whence v t of
             (Some pos, v', t') \<Rightarrow> ((0, Some pos), v', t')
           | (None, v', t') \<Rightarrow> ((- 1, offset), v', t')))"

definition cookie_close ::
  "('v, 'h) vfs_ops \<Rightarrow> nat \<Rightarrow> 'v \<Rightarrow> ('v, 'h, 'c, 'w) thread \<Rightarrow> int \<times> 'v \<times> ('v, 'h, 'c, 'w) thread" where
  "cookie_close ops cookie v t = (case cookie_close_state ops cookie v t of (v', t') \<Rightarrow> (0, v', t'))"

section \<open>fopen\<close>

definition fopen_options :: "string \<Rightarrow> open_options option" where
  "fopen_options mode =
     (let flags = (case split_once CHR '','' mode of Some (head, _) \<Rightarrow> head | None \<Rightarrow> mode);
          plus = CHR ''+'' \<in> set flags;
          create_new = CHR ''x'' \<in> set flags
      in case flags of
           [] \<Rightarrow> None
         | c # _ \<Rightarrow>
             if c = CHR ''r'' then Some (oo_default\<lparr>oo_read := True, oo_write := plus\<rparr>)
             else if c = CHR ''w'' then
               Some (oo_default\<lparr>oo_read := plus, oo_write := True, oo_create := True,
                       oo_create_new := create_new, oo_truncate := True\<rparr>)
             else if c = CHR ''a'' then
               Some (oo_default\<lparr>oo_read := plus, oo_write := True, oo_create := True,
                       oo_create_new := create_new, oo_append := True\<rparr>)
             else None)"

definition prepare_cookie ::
  "('v, 'h) vfs_ops \<Rightarrow> ('v, 'h) engine \<Rightarrow> path \<Rightarrow> string option \<Rightarrow> ('v, 'h, 'c, 'w) thread \<Rightarrow>
     nat option \<times> ('v, 'h, 'c, 'w) thread" where
  "prepare_cookie ops e path mode t =
     (case decode_cstr mode of
        None \<Rightarrow> (None, set_errno EINVAL t)
      | Some mode_str \<Rightarrow>
          (case fopen_options mode_str of
             None \<Rightarrow> (None, set_errno EINVAL t)
           | Some opts \<Rightarrow>
               if oo_write opts \<and> \<not> eng_allow_writes e then (None, set_errno EROFS t)
               else
                 (case open_via ops path opts (eng_vfs e) of
                    (None, v) \<Rightarrow> (None, set_errno ENOENT (put_vfs e v t))
                  | (Some (Inl err), v) \<Rightarrow> (None, set_errno (io_to_errno err) (put_vfs e v t))
                  | (Some (Inr s), v) \<Rightarrow>
                      (Some (t_brk t),
                       (put_vfs e v t)\<lparr>t_cookies := AList.update (t_brk t) \<lparr>ck_stream = s, ck_writable = oo_write opts\<rparr>
                                                  (t_cookies t),
                                       t_brk := Suc (t_brk t)\<rparr>))))"

text \<open>A cookie that \<open>fopencookie\<close> did not take is dropped again, and its stream with it.\<close>

definition fopen_virtual ::
  "('v, 'h) vfs_ops \<Rightarrow> 'w libc \<Rightarrow> string option \<Rightarrow> ('v, 'h) engine \<Rightarrow> path \<Rightarrow> ('v, 'h, 'c, 'w) act" where
  "fopen_virtual ops lc mode e path t =
     (case prepare_cookie ops e path mode t of
        (None, t1) \<Rightarrow> (0, t1)
      | (Some cookie, t1) \<Rightarrow>
          (case map_of (t_cookies t1) cookie of
             None \<Rightarrow> (0, t1)
           | Some state \<Rightarrow>
               (case lc_fopencookie lc cookie mode (ck_writable state) (t_mach t1) of
                  (file, m) \<Rightarrow>
                    let t2 = t1\<lparr>t_mach := m\<rparr> in
                    if file = 0 then
                      (case current_engine (t_disp t2) of
                         None \<Rightarrow> (0, set_errno EIO t2)
                       | Some e2 \<Rightarrow>
                           (case cookie_close_state ops cookie (eng_vfs e2) t2 of
                              (v, t3) \<Rightarrow> (0, set_errno EIO (put_vfs e2 v t3))))
                    else (int file, t2))))"

definition shim_fopen :: "('v, 'h) vfs_ops \<Rightarrow> 'w libc \<Rightarrow> string option \<Rightarrow> string option \<Rightarrow> ('v, 'h, 'c, 'w) act" where
  "shim_fopen ops lc path mode = shim 0
     (path_routed (call_orig lc Fopen [CStr path, CStr mode]) path (fail ENOENT 0) (fopen_virtual ops lc mode))"

definition shim_fopen64 :: "('v, 'h) vfs_ops \<Rightarrow> 'w libc \<Rightarrow> string option \<Rightarrow> string option \<Rightarrow> ('v, 'h, 'c, 'w) act" where
  "shim_fopen64 ops lc path mode = shim 0
     (path_routed (call_orig lc Fopen64 [CStr path, CStr mode]) path (fail ENOENT 0) (fopen_virtual ops lc mode))"

section \<open>open\<close>

abbreviation O_WRONLY :: int where "O_WRONLY \<equiv> 1"
abbreviation O_RDWR :: int where "O_RDWR \<equiv> 2"
abbreviation O_CREAT :: int where "O_CREAT \<equiv> 64"
abbreviation O_EXCL :: int where "O_EXCL \<equiv> 128"
abbreviation O_TRUNC :: int where "O_TRUNC \<equiv> 512"
abbreviation O_APPEND :: int where "O_APPEND \<equiv> 1024"
abbreviation O_CLOEXEC :: int where "O_CLOEXEC \<equiv> 524288"

definition open_flags :: "int \<Rightarrow> open_options" where
  "open_flags flags =
     \<lparr>oo_read = (flags AND O_WRONLY = 0),
      oo_write = (flags AND (O_WRONLY OR O_RDWR) \<noteq> 0),
      oo_create = (flags AND O_CREAT \<noteq> 0),
      oo_create_new = (flags AND (O_CREAT OR O_EXCL) = (O_CREAT OR O_EXCL)),
      oo_truncate = (flags AND O_TRUNC \<noteq> 0),
      oo_append = (flags AND O_APPEND \<noteq> 0)\<rparr>"

definition carrier_fd :: "'w libc \<Rightarrow> ('v, 'h, 'c, 'w) thread \<Rightarrow> int option \<times> ('v, 'h, 'c, 'w) thread" where
  "carrier_fd lc t =
     (case call_orig lc Open [CStr (Some (''/dev/null'' @ [NUL])), CInt O_CLOEXEC] t of
        (fd, t') \<Rightarrow> (if 0 \<le> fd then Some fd else None, t'))"

text \<open>Without a carrier the stream is dropped.  A stale entry that the new one replaces (its carrier was
  closed behind the shims' back) is dropped too.\<close>

definition open_virtual_fd ::
  "('v, 'h) vfs_ops \<Rightarrow> 'w libc \<Rightarrow> int \<Rightarrow> ('v, 'h) engine \<Rightarrow> path \<Rightarrow> ('v, 'h, 'c, 'w) act" where
  "open_virtual_fd ops lc flags e path t =
     (let opts = open_flags flags in
      if oo_write opts \<and> \<not> eng_allow_writes e then fail EROFS (- 1) t
      else
        (case open_via ops path opts (eng_vfs e) of
           (None, v) \<Rightarrow> fail ENOENT (- 1) (put_vfs e v t)
         | (Some (Inl err), v) \<Rightarrow> fail (io_to_errno err) (- 1) (put_vfs e v t)
         | (Some (Inr s), v) \<Rightarrow>
             (case carrier_fd lc (put_vfs e v t) of
                (None, t1) \<Rightarrow> fail EMFILE (- 1) (put_vfs e (h_drop ops (stream_of s) v) t1)
              | (Some fd, t1) \<Rightarrow>
                  let v1 = (case get_file (eng_registry e) (as_usize fd) of
                              None \<Rightarrow> v
                            | Some old \<Rightarrow> h_drop ops (stream_of (of_stream old)) v)
                  in (fd, put_engine
                        (e\<lparr>eng_vfs := v1,
                           eng_registry := insert_file (eng_registry e) (as_usize fd)
                             \<lparr>of_stream = s, of_path = path, of_writable = oo_write opts\<rparr>\<rparr>) t1))))"

definition open_impl ::
  "('v, 'h) vfs_ops \<Rightarrow> 'w libc \<Rightarrow> sym \<Rightarrow> string option \<Rightarrow> int \<Rightarrow> int \<Rightarrow> ('v, 'h, 'c, 'w) act" where
  "open_impl ops lc s path flags mode = shim (- 1)
     (path_routed (call_orig lc s [CStr path, CInt flags, CInt mode]) path (fail ENOENT (- 1))
        (open_virtual_fd ops lc flags))"

definition openat_entry ::
  "('v, 'h) vfs_ops \<Rightarrow> 'w libc \<Rightarrow> int \<Rightarrow> string option \<Rightarrow> int \<Rightarrow> int \<Rightarrow> ('v, 'h, 'c, 'w) act" where
  "openat_entry ops lc dirfd path flags mode = shim (- 1)
     (path_routed (call_orig lc Openat [CInt dirfd, CStr path, CInt flags, CInt mode]) path (fail ENOENT (- 1))
        (open_virtual_fd ops lc flags))"

section \<open>Reading\<close>

definition shim_read :: "('v, 'h) vfs_ops \<Rightarrow> 'w libc \<Rightarrow> int \<Rightarrow> nat \<Rightarrow> nat \<Rightarrow> ('v, 'h, 'c, 'w) act" where
  "shim_read ops lc fd buf count = shim (- 1)
     (fd_routed (call_orig lc Read [CInt fd, CPtr buf, CInt (int count)]) fd (\<lambda>e file t.
        if count = 0 then (0, t)
        else if buf = 0 then fail EFAULT (- 1) t
        else
          (case os_read ops (of_stream file) count (eng_vfs e) of
             (Inr bs, s, v) \<Rightarrow> (as_ssize (length bs), store_bytes buf bs (put_stream e fd file s v t))
           | (Inl err, s, v) \<Rightarrow> fail (io_to_errno err) (- 1) (put_stream e fd file s v t))))"

fun readv_loop ::
  "('v, 'h) vfs_ops \<Rightarrow> (nat \<times> nat) list \<Rightarrow> int \<Rightarrow> 'h open_stream \<Rightarrow> 'v \<Rightarrow> (nat \<Rightarrow> byte) \<Rightarrow>
     (io_error + int) \<times> 'h open_stream \<times> 'v \<times> (nat \<Rightarrow> byte)" where
  "readv_loop ops [] tot s v m = (Inr tot, s, v, m)"
| "readv_loop ops ((base, len) # iov) tot s v m =
     (if len = 0 \<or> base = 0 then readv_loop ops iov tot s v m
      else
        (case os_read ops s len v of
           (Inr bs, s', v') \<Rightarrow>
             if bs = [] then (Inr tot, s', v', m)
             else
               let tot' = tot + as_ssize (length bs); m' = write_mem base bs m in
               if length bs < len then (Inr tot', s', v', m') else readv_loop ops iov tot' s' v' m'
         | (Inl err, s', v') \<Rightarrow> if tot = 0 then (Inl err, s', v', m) else (Inr tot, s', v', m)))"

definition shim_readv ::
  "('v, 'h) vfs_ops \<Rightarrow> 'w libc \<Rightarrow> int \<Rightarrow> (nat \<times> nat) list option \<Rightarrow> int \<Rightarrow> ('v, 'h, 'c, 'w) act" where
  "shim_readv ops lc fd iov iovcnt = shim (- 1)
     (fd_routed (call_orig lc Readv [CInt fd, CIov iov, CInt iovcnt]) fd (\<lambda>e file t.
        case iov of
          None \<Rightarrow> fail EINVAL (- 1) t
        | Some vecs \<Rightarrow>
            if iovcnt < 0 then fail EINVAL (- 1) t
            else
              (case readv_loop ops (take (nat iovcnt) vecs) 0 (of_stream file) (eng_vfs e) (mc_mem (t_mach t)) of
                 (r, s, v, m) \<Rightarrow>
                   let t' = (put_stream e fd file s v t)\<lparr>t_mach := (t_mach t)\<lparr>mc_mem := m\<rparr>\<rparr>
                   in (case r of Inr tot \<Rightarrow> (tot, t') | Inl err \<Rightarrow> fail (io_to_errno err) (- 1) t'))))"

text \<open>A positioned access: save the position, seek, run the access, seek back.\<close>

definition at_offset ::
  "('v, 'h) vfs_ops \<Rightarrow> ('h open_stream \<Rightarrow> 'v \<Rightarrow> 'r io_result \<times> 'h open_stream \<times> 'v) \<Rightarrow> nat \<Rightarrow>
     'h open_stream \<Rightarrow> 'v \<Rightarrow> 'r io_result \<times> 'h open_stream \<times> 'v" where
  "at_offset ops access offset s v =
     (case os_position ops s v of
        (Inl err, s1, v1) \<Rightarrow> (Inl err, s1, v1)
      | (Inr saved, s1, v1) \<Rightarrow>
          (case (case os_seek ops s1 (Start offset) v1 of
                   (Inl err, s2, v2) \<Rightarrow> (Inl err, s2, v2)
                 | (Inr _, s2, v2) \<Rightarrow> access s2 v2) of
             (r, s3, v3) \<Rightarrow> (case os_seek ops s3 (Start saved) v3 of (_, s4, v4) \<Rightarrow> (r, s4, v4))))"

definition shim_pread ::
  "('v, 'h) vfs_ops \<Rightarrow> 'w libc \<Rightarrow> int \<Rightarrow> nat \<Rightarrow> nat \<Rightarrow> int \<Rightarrow> ('v, 'h, 'c, 'w) act" where
  "shim_pread ops lc fd buf count offset = shim (- 1)
     (fd_routed (call_orig lc Pread [CInt fd, CPtr buf, CInt (int count), CInt offset]) fd (\<lambda>e file t.
        if count = 0 then (0, t)
        else if buf = 0 then fail EFAULT (- 1) t
        else if offset < 0 then fail EINVAL (- 1) t
        else
          (case at_offset ops (\<lambda>s v. os_read ops s count v) (nat offset) (of_stream file) (eng_vfs e) of
             (Inr bs, s, v) \<Rightarrow> (as_ssize (length bs), store_bytes buf bs (put_stream e fd file s v t))
           | (Inl err, s, v) \<Rightarrow> fail (io_to_errno err) (- 1) (put_stream e fd file s v t))))"

section \<open>Seeking and closing\<close>

definition lseek_common ::
  "('v, 'h) vfs_ops \<Rightarrow> 'w libc \<Rightarrow> sym \<Rightarrow> int \<Rightarrow> int \<Rightarrow> int \<Rightarrow> ('v, 'h, 'c, 'w) act" where
  "lseek_common ops lc sy fd offset whence =
     fd_routed (call_orig lc sy [CInt fd, CInt offset, CInt whence]) fd (\<lambda>e file t.
        case seek_whence whence offset of
          None \<Rightarrow> fail EINVAL (- 1) t
        | Some from \<Rightarrow>
            (case os_seek ops (of_stream file) from (eng_vfs e) of
               (Inr pos, s, v) \<Rightarrow> (clamp_i64 pos, put_stream e fd file s v t)
             | (Inl err, s, v) \<Rightarrow> fail (io_to_errno err) (- 1) (put_stream e fd file s v t)))"

definition shim_lseek :: "('v, 'h) vfs_ops \<Rightarrow> 'w libc \<Rightarrow> int \<Rightarrow> int \<Rightarrow> int \<Rightarrow> ('v, 'h, 'c, 'w) act" where
  "shim_lseek ops lc fd offset whence = shim (- 1) (lseek_common ops lc Lseek fd offset whence)"

definition shim_lseek64 :: "('v, 'h) vfs_ops \<Rightarrow> 'w libc \<Rightarrow> int \<Rightarrow> int \<Rightarrow> int \<Rightarrow> ('v, 'h, 'c, 'w) act" where
  "shim_lseek64 ops lc fd offset whence = shim (- 1) (lseek_common ops lc Lseek64 fd offset whence)"

definition shim_close :: "('v, 'h) vfs_ops \<Rightarrow> 'w libc \<Rightarrow> int \<Rightarrow> ('v, 'h, 'c, 'w) act" where
  "shim_close ops lc fd = shim (- 1)
     (engine_routed (call_orig lc Close [CInt fd]) (\<lambda>e t.
        case remove_file (eng_registry e) (as_usize fd) of
          (Some file, reg) \<Rightarrow>
            call_orig lc Close [CInt fd]
              (put_engine (e\<lparr>eng_registry := reg,
                 eng_vfs := h_drop ops (stream_of (of_stream file)) (eng_vfs e)\<rparr>) t)
        | (None, reg) \<Rightarrow> call_orig lc Close [CInt fd] t))"

section \<open>Writing\<close>

definition deny_write_fd :: "('v, 'h) engine \<Rightarrow> int \<Rightarrow> bool" where
  "deny_write_fd e fd =
     (case get_file (eng_registry e) (as_usize fd) of None \<Rightarrow> False | Some file \<Rightarrow> \<not> of_writable file)"

definition shim_write :: "('v, 'h) vfs_ops \<Rightarrow> 'w libc \<Rightarrow> int \<Rightarrow> nat \<Rightarrow> nat \<Rightarrow> ('v, 'h, 'c, 'w) act" where
  "shim_write ops lc fd buf count = shim (- 1)
     (fd_routed (call_orig lc Write [CInt fd, CPtr buf, CInt (int count)]) fd (\<lambda>e file t.
        if \<not> of_writable file then fail EROFS (- 1) t
        else if count = 0 then (0, t)
        else if buf = 0 then fail EFAULT (- 1) t
        else
          (case os_write ops (of_stream file) (load_bytes buf count t) (eng_vfs e) of
             (Inr n, s, v) \<Rightarrow> (as_ssize n, put_stream e fd file s v t)
           | (Inl err, s, v) \<Rightarrow> fail (io_to_errno err) (- 1) (put_stream e fd file s v t))))"

fun writev_loop ::
  "('v, 'h) vfs_ops \<Rightarrow> (nat \<Rightarrow> byte) \<Rightarrow> (nat \<times> nat) list \<Rightarrow> int \<Rightarrow> 'h open_stream \<Rightarrow> 'v \<Rightarrow>
     (io_error + int) \<times> 'h open_stream \<times> 'v" where
  "writev_loop ops m [] tot s v = (Inr tot, s, v)"
| "writev_loop ops m ((base, len) # iov) tot s v =
     (if len = 0 \<or> base = 0 then writev_loop ops m iov tot s v
      else
        (case os_write ops s (map m [base ..< base + len]) v of
           (Inr n, s', v') \<Rightarrow>
             if n < len then (Inr (tot + as_ssize n), s', v')
             else writev_loop ops m iov (tot + as_ssize n) s' v'
         | (Inl err, s', v') \<Rightarrow> if tot = 0 then (Inl err, s', v') else (Inr tot, s', v')))"

definition shim_writev ::
  "('v, 'h) vfs_ops \<Rightarrow> 'w libc \<Rightarrow> int \<Rightarrow> (nat \<times> nat) list option \<Rightarrow> int \<Rightarrow> ('v, 'h, 'c, 'w) act" where
  "shim_writev ops lc fd iov iovcnt = shim (- 1)
     (fd_routed (call_orig lc Writev [CInt fd, CIov iov, CInt iovcnt]) fd (\<lambda>e file t.
        if \<not> of_writable file then fail EROFS (- 1) t
        else
          (case iov of
             None \<Rightarrow> fail EINVAL (- 1) t
           | Some vecs \<Rightarrow>
               if iovcnt < 0 then fail EINVAL (- 1) t
               else
                 (case writev_loop ops (mc_mem (t_mach t)) (take (nat iovcnt) vecs) 0 (of_stream file) (eng_vfs e) of
                    (Inr tot, s, v) \<Rightarrow> (tot, put_stream e fd file s v t)
                  | (Inl err, s, v) \<Rightarrow> fail (io_to_errno err) (- 1) (put_stream e fd file s v t)))))"

definition shim_pwrite ::
  "('v, 'h) vfs_ops \<Rightarrow> 'w libc \<Rightarrow> int \<Rightarrow> nat \<Rightarrow> nat \<Rightarrow> int \<Rightarrow> ('v, 'h, 'c, 'w) act" where
  "shim_pwrite ops lc fd buf count offset = shim (- 1)
     (fd_routed (call_orig lc Pwrite [CInt fd, CPtr buf, CInt (int count), CInt offset]) fd (\<lambda>e file t.
        if \<not> of_writable file then fail EROFS (- 1) t
        else if count = 0 then (0, t)
        else if buf = 0 then fail EFAULT (- 1) t
        else if offset < 0 then fail EINVAL (- 1) t
        else
          (case at_offset ops (\<lambda>s v. os_write ops s (load_bytes buf count t) v) (nat offset) (of_stream file) (eng_vfs e) of
             (Inr n, s, v) \<Rightarrow> (as_ssize n, put_stream e fd file s v t)
           | (Inl err, s, v) \<Rightarrow> fail (io_to_errno err) (- 1) (put_stream e fd file s v t))))"

definition ftruncate_fd ::
  "('v, 'h) vfs_ops \<Rightarrow> ('v, 'h) engine \<Rightarrow> int \<Rightarrow> int \<Rightarrow> ('v, 'h, 'c, 'w) act \<Rightarrow> ('v, 'h, 'c, 'w) act" where
  "ftruncate_fd ops e fd len pass t =
     (case get_file (eng_registry e) (as_usize fd) of
        None \<Rightarrow> pass t
      | Some file \<Rightarrow>
          if \<not> of_writable file then fail EROFS (- 1) t
          else if len < 0 then fail EINVAL (- 1) t
          else
            (case os_set_len ops (of_stream file) (nat len) (eng_vfs e) of
               (Inr _, s, v) \<Rightarrow> (0, put_stream e fd file s v t)
             | (Inl err, s, v) \<Rightarrow> fail (io_to_errno err) (- 1) (put_stream e fd file s v t)))"

definition shim_ftruncate :: "('v, 'h) vfs_ops \<Rightarrow> 'w libc \<Rightarrow> int \<Rightarrow> int \<Rightarrow> ('v, 'h, 'c, 'w) act" where
  "shim_ftruncate ops lc fd len = shim (- 1)
     (let pass = call_orig lc Ftruncate [CInt fd, CInt len] in
      engine_routed pass (\<lambda>e. ftruncate_fd ops e fd len pass))"

definition shim_ftruncate64 :: "('v, 'h) vfs_ops \<Rightarrow> 'w libc \<Rightarrow> int \<Rightarrow> int \<Rightarrow> ('v, 'h, 'c, 'w) act" where
  "shim_ftruncate64 ops lc fd len = shim (- 1)
     (let pass = call_orig lc Ftruncate64 [CInt fd, CInt len] in
      engine_routed pass (\<lambda>e. ftruncate_fd ops e fd len pass))"

definition shim_fsync :: "('v, 'h) vfs_ops \<Rightarrow> 'w libc \<Rightarrow> int \<Rightarrow> ('v, 'h, 'c, 'w) act" where
  "shim_fsync ops lc fd = shim (- 1)
     (fd_routed (call_orig lc Fsync [CInt fd]) fd (\<lambda>e file t.
        case os_flush ops (of_stream file) (eng_vfs e) of
          (Inr _, s, v) \<Rightarrow> (0, put_stream e fd file s v t)
        | (Inl err, s, v) \<Rightarrow> fail (io_to_errno err) (- 1) (put_stream e fd file s v t)))"

definition shim_sendfile :: "'w libc \<Rightarrow> int \<Rightarrow> int \<Rightarrow> nat \<Rightarrow> nat \<Rightarrow> ('v, 'h, 'c, 'w) act" where
  "shim_sendfile lc out_fd in_fd offset count = shim (- 1)
     (fd_routed (call_orig lc Sendfile [CInt out_fd, CInt in_fd, CPtr offset, CInt (int count)]) in_fd
        (\<lambda>e file. fail EINVAL (- 1)))"

definition shim_fchmod :: "'w libc \<Rightarrow> int \<Rightarrow> int \<Rightarrow> ('v, 'h, 'c, 'w) act" where
  "shim_fchmod lc fd mode = shim (- 1)
     (engine_routed (call_orig lc Fchmod [CInt fd, CInt mode]) (\<lambda>e t.
        if deny_write_fd e fd then fail EROFS (- 1) t
        else call_orig lc Fchmod [CInt fd, CInt mode] t))"

end
