(* ===== verification/Unix_Paths.thy ===== *)
theory Unix_Paths
  imports Unix_Base
begin

unbundle bit_operations_syntax

text \<open>
  The path family of \<^verbatim>\<open>crates/hookfs/src/shims/unix.rs\<close>: mutations of the virtual tree, the stat and
  volume queries, directory streams, the tracked working directory and the loader entries.
\<close>

section \<open>Mutations\<close>

definition deny_mutate_path :: "string option \<Rightarrow> ('v, 'h, 'c, 'w) act \<Rightarrow> ('v, 'h, 'c, 'w) act" where
  "deny_mutate_path path pass = path_routed pass path (fail EROFS (- 1)) (\<lambda>e p. fail EROFS (- 1))"

definition mutation_result_errno :: "unit io_result \<Rightarrow> ('v, 'h, 'c, 'w) act" where
  "mutation_result_errno res t = (case res of Inr _ \<Rightarrow> (0, t) | Inl err \<Rightarrow> fail (io_to_errno err) (- 1) t)"

definition mutate_path ::
  "string option \<Rightarrow> (('v, 'h) engine \<Rightarrow> path \<Rightarrow> unit io_result option \<times> 'v) \<Rightarrow> ('v, 'h, 'c, 'w) act \<Rightarrow>
     ('v, 'h, 'c, 'w) act" where
  "mutate_path path mut pass = path_routed pass path (fail ENOENT (- 1)) (\<lambda>e p t.
     if \<not> eng_allow_writes e then fail EROFS (- 1) t
     else
       (case mut e p of
          (Some res, v) \<Rightarrow> mutation_result_errno res (put_vfs e v t)
        | (None, v) \<Rightarrow> fail ENOENT (- 1) (put_vfs e v t)))"

definition shim_truncate :: "('v, 'h) vfs_ops \<Rightarrow> 'w libc \<Rightarrow> string option \<Rightarrow> int \<Rightarrow> ('v, 'h, 'c, 'w) act" where
  "shim_truncate ops lc path len = shim (- 1)
     (mutate_path path
        (\<lambda>e p. if len < 0 then (Some (Inl (Os EINVAL)), eng_vfs e) else v_set_len ops p (nat len) (eng_vfs e))
        (call_orig lc Truncate [CStr path, CInt len]))"

definition shim_mkdir :: "('v, 'h) vfs_ops \<Rightarrow> 'w libc \<Rightarrow> string option \<Rightarrow> int \<Rightarrow> ('v, 'h, 'c, 'w) act" where
  "shim_mkdir ops lc path mode = shim (- 1)
     (mutate_path path (\<lambda>e p. v_create_dir ops p (eng_vfs e)) (call_orig lc Mkdir [CStr path, CInt mode]))"

definition shim_remove :: "('v, 'h) vfs_ops \<Rightarrow> 'w libc \<Rightarrow> string option \<Rightarrow> ('v, 'h, 'c, 'w) act" where
  "shim_remove ops lc path = shim (- 1)
     (mutate_path path (\<lambda>e p. v_remove ops p (eng_vfs e)) (call_orig lc Remove [CStr path]))"

definition shim_unlink :: "('v, 'h) vfs_ops \<Rightarrow> 'w libc \<Rightarrow> string option \<Rightarrow> ('v, 'h, 'c, 'w) act" where
  "shim_unlink ops lc path = shim (- 1)
     (mutate_path path (\<lambda>e p. v_remove ops p (eng_vfs e)) (call_orig lc Unlink [CStr path]))"

text \<open>Whether a path would be served or rejected rather than left to the operating system.\<close>

definition touches :: "string option \<Rightarrow> ('v, 'h, 'c, 'w) thread \<Rightarrow> bool" where
  "touches path t =
     (case decode_cstr path of
        None \<Rightarrow> False
      | Some decoded \<Rightarrow>
          (case route_path decoded t of
             None \<Rightarrow> False
           | Some (_, Real) \<Rightarrow> False
           | Some (_, Rejected) \<Rightarrow> True
           | Some (_, Virtual _) \<Rightarrow> True))"

definition deny_mutate_two ::
  "string option \<Rightarrow> string option \<Rightarrow> ('v, 'h, 'c, 'w) act \<Rightarrow> ('v, 'h, 'c, 'w) act" where
  "deny_mutate_two from to pass = hooked pass (\<lambda>t.
     if touches from t \<or> touches to t then fail EROFS (- 1) t else pass t)"

definition shim_rename :: "('v, 'h) vfs_ops \<Rightarrow> 'w libc \<Rightarrow> string option \<Rightarrow> string option \<Rightarrow> ('v, 'h, 'c, 'w) act" where
  "shim_rename ops lc from to = shim (- 1)
     (let pass = call_orig lc Rename [CStr from, CStr to];
          real = (\<lambda>t. if touches to t then fail EROFS (- 1) t else pass t)
      in hooked pass (\<lambda>t.
        case decode_cstr from of
          None \<Rightarrow> pass t
        | Some from_s \<Rightarrow>
            (case route_path from_s t of
               None \<Rightarrow> real t
             | Some (_, Real) \<Rightarrow> real t
             | Some (_, Rejected) \<Rightarrow> fail ENOENT (- 1) t
             | Some (e, Virtual f) \<Rightarrow>
                 if \<not> eng_allow_writes e then fail EROFS (- 1) t
                 else
                   (case decode_cstr to of
                      None \<Rightarrow> fail EINVAL (- 1) t
                    | Some to_s \<Rightarrow>
                        (case route_path to_s t of
                           Some (_, Virtual d) \<Rightarrow>
                             (case v_rename ops f d (eng_vfs e) of
                                (Some res, v) \<Rightarrow> mutation_result_errno res (put_vfs e v t)
                              | (None, v) \<Rightarrow> fail ENOENT (- 1) (put_vfs e v t))
                         | _ \<Rightarrow> fail EROFS (- 1) t)))))"

definition shim_link :: "'w libc \<Rightarrow> string option \<Rightarrow> string option \<Rightarrow> ('v, 'h, 'c, 'w) act" where
  "shim_link lc from to = shim (- 1) (deny_mutate_two from to (call_orig lc Link [CStr from, CStr to]))"

definition shim_symlink :: "'w libc \<Rightarrow> string option \<Rightarrow> string option \<Rightarrow> ('v, 'h, 'c, 'w) act" where
  "shim_symlink lc target linkpath = shim (- 1)
     (deny_mutate_two target linkpath (call_orig lc Symlink [CStr target, CStr linkpath]))"

definition shim_fchmodat :: "'w libc \<Rightarrow> int \<Rightarrow> string option \<Rightarrow> int \<Rightarrow> int \<Rightarrow> ('v, 'h, 'c, 'w) act" where
  "shim_fchmodat lc dirfd path mode flags = shim (- 1)
     (deny_mutate_path path (call_orig lc Fchmodat [CInt dirfd, CStr path, CInt mode, CInt flags]))"

definition shim_utimensat :: "'w libc \<Rightarrow> int \<Rightarrow> string option \<Rightarrow> nat \<Rightarrow> int \<Rightarrow> ('v, 'h, 'c, 'w) act" where
  "shim_utimensat lc dirfd path tms flags = shim (- 1)
     (deny_mutate_path path (call_orig lc Utimensat [CInt dirfd, CStr path, CPtr tms, CInt flags]))"

section \<open>Stat\<close>

definition virtual_meta :: "('v, 'h) vfs_ops \<Rightarrow> ('v, 'h) engine \<Rightarrow> path \<Rightarrow> vfs_metadata option \<times> 'v" where
  "virtual_meta ops e path =
     (case v_metadata ops path (eng_vfs e) of
        (Some (Inr meta), v) \<Rightarrow> (Some meta, v)
      | (_, v) \<Rightarrow> (None, v))"

definition virtual_fd_meta ::
  "('v, 'h) vfs_ops \<Rightarrow> ('v, 'h) engine \<Rightarrow> int \<Rightarrow> ('v, 'h, 'c, 'w) thread \<Rightarrow> (path \<times> u64) option \<times> ('v, 'h, 'c, 'w) thread" where
  "virtual_fd_meta ops e fd t =
     (case get_file (eng_registry e) (as_usize fd) of
        None \<Rightarrow> (None, t)
      | Some file \<Rightarrow>
          (case os_size ops (of_stream file) (eng_vfs e) of
             (r, s, v) \<Rightarrow>
               (Some (of_path file, case r of Inr n \<Rightarrow> n | Inl _ \<Rightarrow> 0), put_stream e fd file s v t)))"

definition stat_path ::
  "('v, 'h) vfs_ops \<Rightarrow> string option \<Rightarrow> ('v, 'h, 'c, 'w) act \<Rightarrow>
     (path \<Rightarrow> vfs_metadata \<Rightarrow> ('v, 'h, 'c, 'w) thread \<Rightarrow> ('v, 'h, 'c, 'w) thread) \<Rightarrow> ('v, 'h, 'c, 'w) act" where
  "stat_path ops path pass fill = path_routed pass path (fail ENOENT (- 1)) (\<lambda>e p t.
     case virtual_meta ops e p of
       (Some meta, v) \<Rightarrow> (0, fill p meta (put_vfs e v t))
     | (None, v) \<Rightarrow> fail ENOENT (- 1) (put_vfs e v t))"

definition fstat_fd ::
  "('v, 'h) vfs_ops \<Rightarrow> int \<Rightarrow> ('v, 'h, 'c, 'w) act \<Rightarrow>
     (path \<Rightarrow> vfs_metadata \<Rightarrow> ('v, 'h, 'c, 'w) thread \<Rightarrow> ('v, 'h, 'c, 'w) thread) \<Rightarrow> ('v, 'h, 'c, 'w) act" where
  "fstat_fd ops fd pass fill = engine_routed pass (\<lambda>e t.
     case virtual_fd_meta ops e fd t of
       (Some (path, len), t1) \<Rightarrow> (0, fill path (metadata_file len) t1)
     | (None, t1) \<Rightarrow> pass t1)"

definition shim_xstat :: "('v, 'h) vfs_ops \<Rightarrow> 'w libc \<Rightarrow> int \<Rightarrow> string option \<Rightarrow> nat \<Rightarrow> ('v, 'h, 'c, 'w) act" where
  "shim_xstat ops lc ver path buf = shim (- 1)
     (stat_path ops path (call_orig lc Xstat [CInt ver, CStr path, CPtr buf]) (fill_stat lc buf))"

definition shim_lxstat :: "('v, 'h) vfs_ops \<Rightarrow> 'w libc \<Rightarrow> int \<Rightarrow> string option \<Rightarrow> nat \<Rightarrow> ('v, 'h, 'c, 'w) act" where
  "shim_lxstat ops lc ver path buf = shim (- 1)
     (stat_path ops path (call_orig lc Lxstat [CInt ver, CStr path, CPtr buf]) (fill_stat lc buf))"

definition shim_xstat64 :: "('v, 'h) vfs_ops \<Rightarrow> 'w libc \<Rightarrow> int \<Rightarrow> string option \<Rightarrow> nat \<Rightarrow> ('v, 'h, 'c, 'w) act" where
  "shim_xstat64 ops lc ver path buf = shim (- 1)
     (stat_path ops path (call_orig lc Xstat64 [CInt ver, CStr path, CPtr buf]) (fill_stat64 lc buf))"

definition shim_lxstat64 :: "('v, 'h) vfs_ops \<Rightarrow> 'w libc \<Rightarrow> int \<Rightarrow> string option \<Rightarrow> nat \<Rightarrow> ('v, 'h, 'c, 'w) act" where
  "shim_lxstat64 ops lc ver path buf = shim (- 1)
     (stat_path ops path (call_orig lc Lxstat64 [CInt ver, CStr path, CPtr buf]) (fill_stat64 lc buf))"

definition shim_stat :: "('v, 'h) vfs_ops \<Rightarrow> 'w libc \<Rightarrow> string option \<Rightarrow> nat \<Rightarrow> ('v, 'h, 'c, 'w) act" where
  "shim_stat ops lc path buf = shim (- 1)
     (stat_path ops path (call_orig lc Stat [CStr path, CPtr buf]) (fill_stat lc buf))"

definition shim_lstat :: "('v, 'h) vfs_ops \<Rightarrow> 'w libc \<Rightarrow> string option \<Rightarrow> nat \<Rightarrow> ('v, 'h, 'c, 'w) act" where
  "shim_lstat ops lc path buf = shim (- 1)
     (stat_path ops path (call_orig lc Lstat [CStr path, CPtr buf]) (fill_stat lc buf))"

definition shim_fstatat :: "('v, 'h) vfs_ops \<Rightarrow> 'w libc \<Rightarrow> int \<Rightarrow> string option \<Rightarrow> nat \<Rightarrow> int \<Rightarrow> ('v, 'h, 'c, 'w) act" where
  "shim_fstatat ops lc dirfd path buf flags = shim (- 1)
     (stat_path ops path (call_orig lc Fstatat [CInt dirfd, CStr path, CPtr buf, CInt flags]) (fill_stat lc buf))"

definition shim_statx ::
  "('v, 'h) vfs_ops \<Rightarrow> 'w libc \<Rightarrow> int \<Rightarrow> string option \<Rightarrow> int \<Rightarrow> int \<Rightarrow> nat \<Rightarrow> ('v, 'h, 'c, 'w) act" where
  "shim_statx ops lc dirfd path flags msk buf = shim (- 1)
     (stat_path ops path (call_orig lc Statx [CInt dirfd, CStr path, CInt flags, CInt msk, CPtr buf]) (fill_statx lc buf))"

definition shim_fxstat :: "('v, 'h) vfs_ops \<Rightarrow> 'w libc \<Rightarrow> int \<Rightarrow> int \<Rightarrow> nat \<Rightarrow> ('v, 'h, 'c, 'w) act" where
  "shim_fxstat ops lc ver fd buf = shim (- 1)
     (fstat_fd ops fd (call_orig lc Fxstat [CInt ver, CInt fd, CPtr buf]) (fill_stat lc buf))"

definition shim_fxstat64 :: "('v, 'h) vfs_ops \<Rightarrow> 'w libc \<Rightarrow> int \<Rightarrow> int \<Rightarrow> nat \<Rightarrow> ('v, 'h, 'c, 'w) act" where
  "shim_fxstat64 ops lc ver fd buf = shim (- 1)
     (fstat_fd ops fd (call_orig lc Fxstat64 [CInt ver, CInt fd, CPtr buf]) (fill_stat64 lc buf))"

definition shim_fstat :: "('v, 'h) vfs_ops \<Rightarrow> 'w libc \<Rightarrow> int \<Rightarrow> nat \<Rightarrow> ('v, 'h, 'c, 'w) act" where
  "shim_fstat ops lc fd buf = shim (- 1)
     (fstat_fd ops fd (call_orig lc Fstat [CInt fd, CPtr buf]) (fill_stat lc buf))"

section \<open>The volume\<close>

definition fill_statvfs :: "nat \<Rightarrow> volume_info option \<Rightarrow> ('v, 'h, 'c, 'w) thread \<Rightarrow> ('v, 'h, 'c, 'w) thread" where
  "fill_statvfs buf info =
     (case (case info of
              Some v \<Rightarrow> (let bsize = max (vi_block_size v) 512 in
                         (bsize, vi_capacity v div bsize, vi_available v div bsize))
            | None \<Rightarrow> (4096, 2 ^ 32, 2 ^ 31)) of
        (bsize, blocks, free) \<Rightarrow>
          store_struct buf (CStatvfs
            \<lparr>f_bsize = bsize, f_frsize = bsize, f_blocks = blocks, f_bfree = free, f_bavail = free,
             f_files = 2 ^ 20, f_ffree = 2 ^ 19, f_favail = 2 ^ 19, f_fsid = VIRTUAL_VOLUME_SERIAL,
             f_namemax = 255\<rparr>))"

definition shim_statvfs :: "('v, 'h) vfs_ops \<Rightarrow> 'w libc \<Rightarrow> string option \<Rightarrow> nat \<Rightarrow> ('v, 'h, 'c, 'w) act" where
  "shim_statvfs ops lc path buf = shim (- 1)
     (path_routed (call_orig lc Statvfs [CStr path, CPtr buf]) path (fail ENOENT (- 1)) (\<lambda>e p t.
        case v_volume_info ops (eng_vfs e) of (info, v) \<Rightarrow> (0, fill_statvfs buf info (put_vfs e v t))))"

definition shim_fstatvfs :: "('v, 'h) vfs_ops \<Rightarrow> 'w libc \<Rightarrow> int \<Rightarrow> nat \<Rightarrow> ('v, 'h, 'c, 'w) act" where
  "shim_fstatvfs ops lc fd buf = shim (- 1)
     (fd_routed (call_orig lc Fstatvfs [CInt fd, CPtr buf]) fd (\<lambda>e file t.
        case v_volume_info ops (eng_vfs e) of (info, v) \<Rightarrow> (0, fill_statvfs buf info (put_vfs e v t))))"

section \<open>Directory streams\<close>

definition DNAME_LEN :: nat where "DNAME_LEN = 256"
definition DIRENT_SIZE :: nat where "DIRENT_SIZE = 280"

definition dirent_zero :: dirent_rec where
  "dirent_zero = \<lparr>d_ino = 0, d_off = 0, d_reclen = 0, d_type = 0, d_name = replicate DNAME_LEN NUL\<rparr>"

definition write_dname :: "string \<Rightarrow> string \<Rightarrow> string \<times> nat" where
  "write_dname dst name =
     (let n = min (length name) (length dst - 1) in
      (if n < length dst then take n name @ NUL # drop (Suc n) dst else take n name @ drop n dst, n))"

definition fill_dirent :: "'w libc \<Rightarrow> vfs_dir_entry \<Rightarrow> dirent_rec \<Rightarrow> nat \<Rightarrow> dirent_rec" where
  "fill_dirent lc entry slot index =
     slot\<lparr>d_ino := max (stable_ino lc (de_name entry)) 1,
          d_reclen := DIRENT_SIZE,
          d_type := (if md_is_dir (de_metadata entry) then 4 else 8),
          d_name := fst (write_dname (d_name slot) (de_name entry)),
          d_off := index + 1\<rparr>"

definition fill_dirent64 :: "'w libc \<Rightarrow> vfs_dir_entry \<Rightarrow> dirent_rec \<Rightarrow> nat \<Rightarrow> dirent_rec" where
  "fill_dirent64 lc entry slot index =
     slot\<lparr>d_ino := max (stable_ino lc (de_name entry)) 1,
          d_off := index + 1,
          d_reclen := DIRENT_SIZE,
          d_type := (if md_is_dir (de_metadata entry) then 4 else 8),
          d_name := fst (write_dname (d_name slot) (de_name entry))\<rparr>"

definition shim_opendir :: "('v, 'h) vfs_ops \<Rightarrow> 'w libc \<Rightarrow> string option \<Rightarrow> ('v, 'h, 'c, 'w) act" where
  "shim_opendir ops lc path = shim 0
     (path_routed (call_orig lc Opendir [CStr path]) path (fail ENOENT 0) (\<lambda>e p t.
        case v_read_dir ops p (eng_vfs e) of
          (Some (Inr entries), v) \<Rightarrow>
            (int (t_brk t),
             (put_engine (e\<lparr>eng_vfs := v, eng_registry := insert_dir (eng_registry e) (t_brk t)\<rparr>) t)
               \<lparr>t_dirs := AList.update (t_brk t)
                  \<lparr>vd_entries = entries, vd_next = 0, vd_dirent = dirent_zero, vd_dirent64 = dirent_zero\<rparr> (t_dirs t),
                t_brk := Suc (t_brk t)\<rparr>)
        | (Some (Inl err), v) \<Rightarrow> fail (io_to_errno err) 0 (put_vfs e v t)
        | (None, v) \<Rightarrow> fail ENOENT 0 (put_vfs e v t)))"

definition shim_fdopendir :: "'w libc \<Rightarrow> int \<Rightarrow> ('v, 'h, 'c, 'w) act" where
  "shim_fdopendir lc fd = shim 0
     (fd_routed (call_orig lc Fdopendir [CInt fd]) fd (\<lambda>e file. fail ENOTDIR 0))"

text \<open>\<open>readdir\<close> and \<open>readdir64\<close> advance the cursor and fill their scratch entry, whose address inside the
  box is returned; it is not null.\<close>

definition readdir_next ::
  "(vfs_dir_entry \<Rightarrow> nat \<Rightarrow> vdir \<Rightarrow> vdir) \<Rightarrow> nat \<Rightarrow> ('v, 'h, 'c, 'w) act \<Rightarrow> ('v, 'h, 'c, 'w) act" where
  "readdir_next fill dirp pass = engine_routed pass (\<lambda>e t.
     if \<not> contains_dir (eng_registry e) dirp then pass t
     else
       (case map_of (t_dirs t) dirp of
          None \<Rightarrow> (0, t)
        | Some dir \<Rightarrow>
            let idx = vd_next dir in
            if idx < length (vd_entries dir) then
              (int dirp,
               t\<lparr>t_dirs := AList.update dirp (fill (vd_entries dir ! idx) idx (dir\<lparr>vd_next := idx + 1\<rparr>)) (t_dirs t)\<rparr>)
            else (0, t)))"

definition shim_readdir :: "'w libc \<Rightarrow> nat \<Rightarrow> ('v, 'h, 'c, 'w) act" where
  "shim_readdir lc dirp = shim 0
     (readdir_next (\<lambda>entry idx dir. dir\<lparr>vd_dirent := fill_dirent lc entry (vd_dirent dir) idx\<rparr>) dirp
        (call_orig lc Readdir [CPtr dirp]))"

definition shim_readdir64 :: "'w libc \<Rightarrow> nat \<Rightarrow> ('v, 'h, 'c, 'w) act" where
  "shim_readdir64 lc dirp = shim 0
     (readdir_next (\<lambda>entry idx dir. dir\<lparr>vd_dirent64 := fill_dirent64 lc entry (vd_dirent64 dir) idx\<rparr>) dirp
        (call_orig lc Readdir64 [CPtr dirp]))"

definition shim_closedir :: "'w libc \<Rightarrow> nat \<Rightarrow> ('v, 'h, 'c, 'w) act" where
  "shim_closedir lc dirp = shim (- 1)
     (engine_routed (call_orig lc Closedir [CPtr dirp]) (\<lambda>e t.
        case remove_dir (eng_registry e) dirp of
          (True, reg) \<Rightarrow>
            (0, (put_engine (e\<lparr>eng_registry := reg\<rparr>) t)\<lparr>t_dirs := AList.delete dirp (t_dirs t)\<rparr>)
        | (False, reg) \<Rightarrow> call_orig lc Closedir [CPtr dirp] t))"

section \<open>Paths and the working directory\<close>

definition PATH_MAX :: nat where "PATH_MAX = 4096"

definition cbytes :: "string \<Rightarrow> byte list" where
  "cbytes s = map (\<lambda>c. of_char c) s"

definition write_cstr :: "nat \<Rightarrow> nat \<Rightarrow> string \<Rightarrow> ('v, 'h, 'c, 'w) thread \<Rightarrow> ('v, 'h, 'c, 'w) thread" where
  "write_cstr dst cap s = (let n = min (length s) (cap - 1) in store_bytes dst (cbytes (take n s) @ [0]))"

definition malloc_cstr :: "'w libc \<Rightarrow> nat \<Rightarrow> string \<Rightarrow> ('v, 'h, 'c, 'w) act" where
  "malloc_cstr lc cap s t =
     (case lc_malloc lc cap (t_mach t) of
        (out, m) \<Rightarrow>
          if out = 0 then fail ENOMEM 0 (t\<lparr>t_mach := m\<rparr>)
          else (int out, write_cstr out cap s (t\<lparr>t_mach := m\<rparr>)))"

definition copy_out_path :: "'w libc \<Rightarrow> string \<Rightarrow> nat \<Rightarrow> ('v, 'h, 'c, 'w) act" where
  "copy_out_path lc path resolved t =
     (let need = length path + 1 in
      if resolved = 0 then malloc_cstr lc need path t
      else if PATH_MAX < need then fail ENAMETOOLONG 0 t
      else (int resolved, write_cstr resolved PATH_MAX path t))"

definition shim_realpath :: "('v, 'h) vfs_ops \<Rightarrow> 'w libc \<Rightarrow> string option \<Rightarrow> nat \<Rightarrow> ('v, 'h, 'c, 'w) act" where
  "shim_realpath ops lc path resolved = shim 0
     (path_routed (call_orig lc Realpath [CStr path, CPtr resolved]) path (fail ENOENT 0) (\<lambda>e p t.
        case virtual_meta ops e p of
          (None, v) \<Rightarrow> fail ENOENT 0 (put_vfs e v t)
        | (Some meta, v) \<Rightarrow> copy_out_path lc p resolved (put_vfs e v t)))"

definition W_OK :: int where "W_OK = 2"

definition access_common ::
  "('v, 'h) vfs_ops \<Rightarrow> string option \<Rightarrow> int \<Rightarrow> ('v, 'h, 'c, 'w) act \<Rightarrow> ('v, 'h, 'c, 'w) act" where
  "access_common ops path mode pass = path_routed pass path (fail ENOENT (- 1)) (\<lambda>e p t.
     case v_exists ops p (eng_vfs e) of
       (r, v) \<Rightarrow>
         if r \<noteq> Some True then fail ENOENT (- 1) (put_vfs e v t)
         else if mode AND W_OK \<noteq> 0 \<and> \<not> eng_allow_writes e then fail EROFS (- 1) (put_vfs e v t)
         else (0, put_vfs e v t))"

definition shim_access :: "('v, 'h) vfs_ops \<Rightarrow> 'w libc \<Rightarrow> string option \<Rightarrow> int \<Rightarrow> ('v, 'h, 'c, 'w) act" where
  "shim_access ops lc path mode = shim (- 1)
     (access_common ops path mode (call_orig lc Access [CStr path, CInt mode]))"

definition shim_faccessat :: "('v, 'h) vfs_ops \<Rightarrow> 'w libc \<Rightarrow> int \<Rightarrow> string option \<Rightarrow> int \<Rightarrow> int \<Rightarrow> ('v, 'h, 'c, 'w) act" where
  "shim_faccessat ops lc dirfd path mode flags = shim (- 1)
     (access_common ops path mode (call_orig lc Faccessat [CInt dirfd, CStr path, CInt mode, CInt flags]))"

definition shim_getcwd :: "'w libc \<Rightarrow> nat \<Rightarrow> nat \<Rightarrow> ('v, 'h, 'c, 'w) act" where
  "shim_getcwd lc buf sz = shim 0
     (let pass = call_orig lc Getcwd [CPtr buf, CInt (int sz)] in
      engine_routed pass (\<lambda>e t.
        case virtual_cwd e of
          None \<Rightarrow> pass t
        | Some cwd \<Rightarrow>
            let need = length cwd + 1 in
            if buf = 0 then
              (let cap = if sz = 0 then need else sz in
               if cap < need then fail ERANGE 0 t else malloc_cstr lc cap cwd t)
            else if sz < need then fail ERANGE 0 t
            else (int buf, write_cstr buf sz cwd t)))"

definition shim_chdir :: "('v, 'h) vfs_ops \<Rightarrow> 'w libc \<Rightarrow> string option \<Rightarrow> ('v, 'h, 'c, 'w) act" where
  "shim_chdir ops lc path = shim (- 1)
     (let pass = call_orig lc Chdir [CStr path] in
      hooked pass (\<lambda>t.
        case decode_cstr path of
          None \<Rightarrow> pass t
        | Some decoded \<Rightarrow>
            (case route_path decoded t of
               None \<Rightarrow> pass t
             | Some (e, Virtual p) \<Rightarrow>
                 (case virtual_meta ops e p of
                    (Some meta, v) \<Rightarrow>
                      if md_is_dir meta then (0, put_engine (set_virtual_cwd (Some p) (e\<lparr>eng_vfs := v\<rparr>)) t)
                      else fail ENOENT (- 1) (put_vfs e v t)
                  | (None, v) \<Rightarrow> fail ENOENT (- 1) (put_vfs e v t))
             | Some (e, Real) \<Rightarrow> pass (put_engine (set_virtual_cwd None e) t)
             | Some (_, Rejected) \<Rightarrow> fail ENOENT (- 1) t)))"

definition shim_readlink :: "'w libc \<Rightarrow> string option \<Rightarrow> nat \<Rightarrow> nat \<Rightarrow> ('v, 'h, 'c, 'w) act" where
  "shim_readlink lc path buf bufsiz = shim (- 1)
     (path_routed (call_orig lc Readlink [CStr path, CPtr buf, CInt (int bufsiz)]) path (fail ENOENT (- 1))
        (\<lambda>e p. fail EINVAL (- 1)))"

section \<open>The loader\<close>

definition shim_dlopen ::
  "'w libc \<Rightarrow> ('c \<Rightarrow> ('v, 'h, 'c, 'w) thread \<Rightarrow> ('v, 'h, 'c, 'w) thread) \<Rightarrow> string option \<Rightarrow> int \<Rightarrow> ('v, 'h, 'c, 'w) act" where
  "shim_dlopen lc run path flags = shim 0 (\<lambda>t.
     case call_orig lc Dlopen [CStr path, CInt flags] t of
       (handle, t1) \<Rightarrow> (handle, if handle \<noteq> 0 then trigger_rescan run (t_disp t1) t1 else t1))"

definition shim_dlclose :: "'w libc \<Rightarrow> nat \<Rightarrow> ('v, 'h, 'c, 'w) act" where
  "shim_dlclose lc handle = shim (- 1) (call_orig lc Dlclose [CPtr handle])"

end
