(* ===== verification/Mem_File.thy ===== *)
theory Mem_File
  imports Vfs
begin

text \<open>
  The first half of \<^verbatim>\<open>crates/hookfs/src/providers/memory.rs\<close>: the capacity-accounted
  synthetic volume (\<open>Volume\<close>) and the growable in-memory file (\<open>MemFile\<close>).  Each
  operation runs under the file's data lock and the volume's lock, hence atomically; it
  takes the volume and the file and returns both.  \<open>umax\<close> is the platform's
  \<open>usize::MAX\<close>, \<open>now\<close> the reading of the system clock.
\<close>

definition DEFAULT_CAPACITY :: u64 where
  "DEFAULT_CAPACITY = 2 ^ 40"

section \<open>The volume\<close>

record volume =
  vol_capacity :: u64
  vol_used :: u64

definition volume_new :: "u64 \<Rightarrow> volume" where
  "volume_new capacity = \<lparr>vol_capacity = capacity, vol_used = 0\<rparr>"

definition volume_resize :: "u64 \<Rightarrow> u64 \<Rightarrow> volume \<Rightarrow> unit io_result \<times> volume" where
  "volume_resize old new vol =
     (if old \<le> new then
        (let grow = new - old in
         if vol_capacity vol < sat_add (vol_used vol) grow then (Inl no_space, vol)
         else (Inr (), vol\<lparr>vol_used := wrap_add (vol_used vol) grow\<rparr>))
      else (Inr (), vol\<lparr>vol_used := vol_used vol - (old - new)\<rparr>))"

definition volume_reserve :: "u64 \<Rightarrow> u64 \<Rightarrow> volume \<Rightarrow> u64 \<times> volume" where
  "volume_reserve old desired_new vol =
     (let want = desired_new - old;
          free = vol_capacity vol - vol_used vol;
          grant = min want free
      in (wrap_add old grant, vol\<lparr>vol_used := wrap_add (vol_used vol) grant\<rparr>))"

definition volume_release :: "u64 \<Rightarrow> volume \<Rightarrow> volume" where
  "volume_release len vol = vol\<lparr>vol_used := vol_used vol - len\<rparr>"

definition volume_info_of :: "volume \<Rightarrow> volume_info" where
  "volume_info_of vol =
     \<lparr>vi_capacity = vol_capacity vol,
      vi_available = vol_capacity vol - vol_used vol,
      vi_block_size = 4096\<rparr>"

section \<open>The file\<close>

record mem_file =
  mf_data :: "byte list"
  mf_mtime :: "time option"

definition mem_file_new :: "time \<Rightarrow> mem_file" where
  "mem_file_new now = \<lparr>mf_data = [], mf_mtime = Some now\<rparr>"

definition mem_file_len :: "mem_file \<Rightarrow> u64" where
  "mem_file_len f = length (mf_data f)"

definition mem_file_touch :: "time \<Rightarrow> mem_file \<Rightarrow> mem_file" where
  "mem_file_touch now f = f\<lparr>mf_mtime := Some now\<rparr>"

definition mem_file_snapshot :: "mem_file \<Rightarrow> byte list" where
  "mem_file_snapshot f = mf_data f"

definition mem_file_read_at :: "nat \<Rightarrow> u64 \<Rightarrow> nat \<Rightarrow> mem_file \<Rightarrow> byte list" where
  "mem_file_read_at umax pos n f =
     (if umax < pos then []
      else if length (mf_data f) < pos then []
      else take (min (length (drop pos (mf_data f))) n) (drop pos (mf_data f)))"

definition mem_file_write_at ::
  "nat \<Rightarrow> time \<Rightarrow> u64 \<Rightarrow> byte list \<Rightarrow> volume \<Rightarrow> mem_file \<Rightarrow> nat io_result \<times> volume \<times> mem_file" where
  "mem_file_write_at umax now pos buf vol f =
     (if buf = [] then (Inr 0, vol, f)
      else
        let old = length (mf_data f) in
        case checked_add pos (length buf) of
          None \<Rightarrow> (Inl (Custom InvalidInput ''write offset overflow''), vol, f)
        | Some desired_end \<Rightarrow>
            let desired_new = max desired_end old;
                (granted_new, vol1) = volume_reserve old desired_new vol;
                slots = min (granted_new - pos) umax;
                n = min slots (length buf)
            in if n = 0 then (Inl no_space, volume_release (granted_new - old) vol1, f)
               else if umax < granted_new \<or> umax < pos then
                 (Inl (Custom InvalidInput ''write offset overflow''),
                  volume_release (granted_new - old) vol1, f)
               else
                 let data1 = (if length (mf_data f) < granted_new
                              then vec_resize granted_new 0 (mf_data f) else mf_data f);
                     data2 = vec_copy_at pos (take n buf) data1
                 in (Inr n, vol1, mem_file_touch now (f\<lparr>mf_data := data2\<rparr>)))"

definition mem_file_set_len ::
  "nat \<Rightarrow> time \<Rightarrow> u64 \<Rightarrow> volume \<Rightarrow> mem_file \<Rightarrow> unit io_result \<times> volume \<times> mem_file" where
  "mem_file_set_len umax now len vol f =
     (let old = length (mf_data f) in
      case volume_resize old len vol of
        (Inl e, vol1) \<Rightarrow> (Inl e, vol1, f)
      | (Inr _, vol1) \<Rightarrow>
          if umax < len then (Inl (Custom InvalidInput ''length overflow''), vol1, f)
          else (Inr (), vol1, mem_file_touch now (f\<lparr>mf_data := vec_resize len 0 (mf_data f)\<rparr>)))"

definition mem_file_drop :: "volume \<Rightarrow> mem_file \<Rightarrow> volume" where
  "mem_file_drop vol f = volume_release (length (mf_data f)) vol"

section \<open>The reference behaviour of a write\<close>

text \<open>What a byte file holds after \<open>bs\<close> was written at \<open>pos\<close>: the old bytes outside the
  written range, zeros in the gap past the old end.\<close>

definition file_write :: "u64 \<Rightarrow> byte list \<Rightarrow> byte list \<Rightarrow> byte list" where
  "file_write pos bs xs =
     map (\<lambda>i. if pos \<le> i \<and> i < pos + length bs then bs ! (i - pos)
              else if i < length xs then xs ! i else 0)
       [0 ..< max (length xs) (pos + length bs)]"

text \<open>The volume invariant.  The capacity has to stay below \<open>u64::MAX\<close>: at that value the
  saturating check of \<open>resize\<close> can no longer see an overflow.\<close>

definition vol_ok :: "volume \<Rightarrow> bool" where
  "vol_ok vol \<longleftrightarrow> vol_used vol \<le> vol_capacity vol \<and> vol_capacity vol < U64_MAX"

definition file_in :: "volume \<Rightarrow> mem_file \<Rightarrow> bool" where
  "file_in vol f \<longleftrightarrow> length (mf_data f) \<le> vol_used vol"

lemma length_file_write [simp]: "length (file_write pos bs xs) = max (length xs) (pos + length bs)"
  by (simp add: file_write_def)

lemma volume_reserve_facts:
  assumes "vol_ok vol" "old \<le> U64_MAX" "new \<le> U64_MAX" "volume_reserve old new vol = (g, vol')"
  shows "g = old + min (new - old) (vol_capacity vol - vol_used vol)"
    and "vol_used vol' = vol_used vol + (g - old)" "vol_capacity vol' = vol_capacity vol" "vol_ok vol'"
    and "volume_release (g - old) vol' = vol"
proof -
  let ?grant = "min (new - old) (vol_capacity vol - vol_used vol)"
  have "wrap_add old ?grant = old + ?grant" using assms by (intro wrap_add_exact) auto
  moreover have "wrap_add (vol_used vol) ?grant = vol_used vol + ?grant"
    using assms by (intro wrap_add_exact) (auto simp: vol_ok_def)
  ultimately have *: "g = old + ?grant" "vol' = vol\<lparr>vol_used := vol_used vol + ?grant\<rparr>"
    using assms(4) by (auto simp: volume_reserve_def Let_def)
  then show "g = old + ?grant" "vol_used vol' = vol_used vol + (g - old)"
    "vol_capacity vol' = vol_capacity vol" "vol_ok vol'" "volume_release (g - old) vol' = vol"
    using assms(1) by (auto simp: vol_ok_def volume_release_def)
qed

lemma copy_resize_file_write:
  assumes "length xs \<le> g" "pos + length bs \<le> g" "g = max (length xs) (pos + length bs)"
  shows "vec_copy_at pos bs (if length xs < g then vec_resize g 0 xs else xs) = file_write pos bs xs"
proof (rule nth_equalityI)
  fix i assume i: "i < length (vec_copy_at pos bs (if length xs < g then vec_resize g 0 xs else xs))"
  let ?d = "if length xs < g then vec_resize g 0 xs else xs"
  have d: "length ?d = g" using assms(1) by auto
  have "vec_copy_at pos bs ?d ! i = (if pos \<le> i \<and> i < pos + length bs then bs ! (i - pos) else ?d ! i)"
    using assms i d by (intro nth_vec_copy_at) (simp_all del: if_split)
  moreover have "?d ! i = (if i < length xs then xs ! i else 0)"
    using i d by (auto simp: nth_vec_resize)
  moreover have "i < max (length xs) (pos + length bs)" using i d assms(3) by simp
  ultimately show "vec_copy_at pos bs ?d ! i = file_write pos bs xs ! i"
    by (simp add: file_write_def del: upt_Suc)
qed (use assms in auto)

text \<open>Everything \<open>write_at\<close> does on a successful write, and that a failing one changes
  nothing.\<close>

lemma write_at_error_unchanged:
  assumes "vol_ok vol" "file_in vol f"
    and "mem_file_write_at umax now pos buf vol f = (Inl e, vol', f')"
  shows "vol' = vol" "f' = f"
proof -
  have len: "length (mf_data f) \<le> U64_MAX" using assms(1,2) by (auto simp: vol_ok_def file_in_def)
  have "volume_release (g - length (mf_data f)) v1 = vol"
    if "pos + length buf \<le> U64_MAX"
      "volume_reserve (length (mf_data f)) (max (pos + length buf) (length (mf_data f))) vol = (g, v1)"
    for g v1
    using that len by (intro volume_reserve_facts(5) [OF assms(1)]) auto
  then show "vol' = vol" "f' = f"
    using assms(3)
    by (auto simp: mem_file_write_at_def checked_add_def Let_def split: if_splits prod.splits)
qed

lemma write_at_success:
  assumes "vol_ok vol" "file_in vol f" "buf \<noteq> []"
    and "mem_file_write_at umax now pos buf vol f = (Inr n, vol', f')"
  shows "0 < n" "n \<le> length buf" "pos + n \<le> U64_MAX"
    and "mf_data f' = file_write pos (take n buf) (mf_data f)" "mf_mtime f' = Some now"
    and "vol_used vol' + length (mf_data f) = vol_used vol + length (mf_data f')"
    and "vol_capacity vol' = vol_capacity vol" "vol_ok vol'"
    and "n < length buf \<longrightarrow> vol_used vol' = vol_capacity vol'"
proof -
  let ?old = "length (mf_data f)"
  from assms obtain g where
    ca: "pos + length buf \<le> U64_MAX" and
    res: "volume_reserve ?old (max (pos + length buf) ?old) vol = (g, vol')" and
    n: "n = min (min (g - pos) umax) (length buf)" "0 < n" and
    um: "g \<le> umax" "pos \<le> umax" and
    f': "f' = mem_file_touch now (f\<lparr>mf_data := vec_copy_at pos (take n buf)
           (if ?old < g then vec_resize g 0 (mf_data f) else mf_data f)\<rparr>)"
    by (auto simp: mem_file_write_at_def checked_add_def Let_def split: if_splits prod.splits)
  have "?old \<le> U64_MAX" using assms(1,2) by (auto simp: vol_ok_def file_in_def)
  then have R: "g = ?old + min (max (pos + length buf) ?old - ?old) (vol_capacity vol - vol_used vol)"
    "vol_used vol' = vol_used vol + (g - ?old)" "vol_capacity vol' = vol_capacity vol" "vol_ok vol'"
    using volume_reserve_facts [OF assms(1) _ _ res] ca by auto
  have n': "n = min (g - pos) (length buf)" using n um by auto
  have g: "?old \<le> g" "g \<le> max (pos + length buf) ?old" using R(1) by auto
  have pg: "pos < g" using n' n(2) by simp
  have gn: "g = max ?old (pos + n)"
  proof (cases "pos + length buf \<le> g")
    case True
    then have "n = length buf" using n' by simp
    with g True show ?thesis by simp
  next
    case False
    then have "pos + n = g" using n' pg by simp
    with g show ?thesis by simp
  qed
  show "0 < n" "n \<le> length buf" "pos + n \<le> U64_MAX" using n ca by auto
  have len: "length (take n buf) = n" using n' by simp
  show data: "mf_data f' = file_write pos (take n buf) (mf_data f)"
    using copy_resize_file_write [of "mf_data f" g pos "take n buf"] gn g len
    by (simp add: f' mem_file_touch_def)
  show "mf_mtime f' = Some now" by (simp add: f' mem_file_touch_def)
  show "vol_used vol' + ?old = vol_used vol + length (mf_data f')"
    using data R(2) gn len g by simp
  show "vol_capacity vol' = vol_capacity vol" "vol_ok vol'" using R by auto
  show "n < length buf \<longrightarrow> vol_used vol' = vol_capacity vol'"
  proof
    assume "n < length buf"
    then have "g < pos + length buf" using n' pg by simp
    then have "\<not> max (pos + length buf) ?old - ?old \<le> vol_capacity vol - vol_used vol"
      using R(1) g by simp
    then have "g - ?old = vol_capacity vol - vol_used vol" using R(1) by simp
    then show "vol_used vol' = vol_capacity vol'" using R assms(1) by (simp add: vol_ok_def)
  qed
qed

lemma read_at_data: "pos \<le> umax \<Longrightarrow> mem_file_read_at umax pos n f = take n (drop pos (mf_data f))"
  by (auto simp: mem_file_read_at_def min_def)

lemma nth_file_write:
  "i < max (length xs) (pos + length bs) \<Longrightarrow> file_write pos bs xs ! i =
     (if pos \<le> i \<and> i < pos + length bs then bs ! (i - pos)
      else if i < length xs then xs ! i else 0)"
  by (simp add: file_write_def del: upt_Suc)

lemma take_drop_file_write: "take (length bs) (drop pos (file_write pos bs xs)) = bs"
  by (rule nth_equalityI) (auto simp: nth_file_write)

section \<open>Truncation\<close>

lemma volume_resize_facts:
  assumes "vol_ok vol" "old \<le> vol_used vol" "volume_resize old new vol = (Inr u, vol')"
  shows "vol_used vol' + old = vol_used vol + new" "vol_capacity vol' = vol_capacity vol" "vol_ok vol'"
proof -
  have grow: "vol_used vol + (new - old) \<le> vol_capacity vol"
    if "\<not> vol_capacity vol < sat_add (vol_used vol) (new - old)"
    using that assms(1) by (auto simp: sat_add_def vol_ok_def min_def split: if_splits)
  show "vol_used vol' + old = vol_used vol + new" "vol_capacity vol' = vol_capacity vol" "vol_ok vol'"
    using assms grow wrap_add_exact [of "vol_used vol" "new - old"]
    by (auto simp: volume_resize_def Let_def vol_ok_def split: if_splits)
qed

lemma volume_resize_error:
  "volume_resize old new vol = (Inl e, vol') \<Longrightarrow> e = no_space \<and> vol' = vol"
  by (auto simp: volume_resize_def Let_def split: if_splits)

lemma set_len_success:
  assumes "vol_ok vol" "file_in vol f"
    and "mem_file_set_len umax now len vol f = (Inr u, vol', f')"
  shows "mf_data f' = vec_resize len 0 (mf_data f)" "mf_mtime f' = Some now"
    "vol_used vol' + length (mf_data f) = vol_used vol + len"
    "vol_capacity vol' = vol_capacity vol" "vol_ok vol'"
  using assms(3) volume_resize_facts [OF assms(1) assms(2) [unfolded file_in_def]]
  by (auto simp: mem_file_set_len_def Let_def mem_file_touch_def split: prod.splits sum.splits if_splits)

lemma set_len_error_unchanged:
  assumes "len \<le> umax" "mem_file_set_len umax now len vol f = (Inl e, vol', f')"
  shows "vol' = vol" "f' = f" "e = no_space"
  using assms volume_resize_error
  by (auto simp: mem_file_set_len_def Let_def split: prod.splits sum.splits if_splits)

section \<open>A handle as a byte stream\<close>

text \<open>\<open>MemFileHandle\<close> over a file it alone works on: the pair of the file and the handle's
  position.  It keeps the contract of a byte stream, so it can be mounted as a source, and
  the cursors over such a source keep it again.\<close>

definition mem_handle_read :: "nat \<Rightarrow> nat \<Rightarrow> mem_file \<times> u64 \<Rightarrow> byte list io_result \<times> mem_file \<times> u64" where
  "mem_handle_read umax n = (\<lambda>(f, pos).
     let bs = mem_file_read_at umax pos n f in (Inr bs, f, sat_add pos (length bs)))"

definition mem_handle_seek :: "seek_from \<Rightarrow> mem_file \<times> u64 \<Rightarrow> u64 io_result \<times> mem_file \<times> u64" where
  "mem_handle_seek sf = (\<lambda>(f, pos).
     case seek_target (mem_file_len f) pos sf of
       Inl e \<Rightarrow> (Inl e, f, pos)
     | Inr target \<Rightarrow> (Inr target, f, target))"

definition mem_handle_ops :: "nat \<Rightarrow> (mem_file \<times> u64) stream_ops" where
  "mem_handle_ops umax = \<lparr>st_read = mem_handle_read umax, st_seek = mem_handle_seek\<rparr>"

definition mem_handle_ok :: "mem_file \<times> u64 \<Rightarrow> bool" where
  "mem_handle_ok = (\<lambda>(f, pos). length (mf_data f) \<le> U64_MAX \<and> pos \<le> U64_MAX)"

lemma sat_add_bound: "sat_add a b \<le> U64_MAX"
  by (simp add: sat_add_def)

lemmas mem_handle_defs = mem_handle_ops_def mem_handle_read_def mem_handle_seek_def mem_handle_ok_def
  mem_file_len_def

interpretation mem_stream: byte_stream "mem_handle_ops U64_MAX" "\<lambda>s. mf_data (fst s)" snd mem_handle_ok
proof (unfold_locales, goal_cases)
  case (5 s n bs s')
  then show ?case
    by (cases s)
      (auto simp: mem_handle_defs read_at_data Let_def sat_add_bound intro!: exI [of _ n])
qed (auto simp: mem_handle_defs)

interpretation cursor_stream: byte_stream "source_cursor_ops (mem_handle_ops U64_MAX)"
  "\<lambda>(src, _). mf_data (fst (ss_inner src))" snd "\<lambda>(src, pos). mem_stream.source_ok src \<and> pos \<le> U64_MAX"
  by (rule mem_stream.source_cursor_stream)

section \<open>Properties\<close>

text \<open>C32. A write to an in-memory file refines the write to an ideal byte file.  If it succeeds it has
  accepted a non-empty prefix of the buffer, the file holds exactly what the ideal file would hold after
  writing that prefix (old bytes outside the range, zeros in a gap past the old end), and it accepts
  less than the whole buffer only when the volume is full; if it fails, neither the file nor the volume
  has changed.\<close>

theorem memory_write_refines_byte_file:
  assumes "vol_ok vol" "file_in vol f" "buf \<noteq> []"
    and "mem_file_write_at umax now pos buf vol f = (r, vol', f')"
  shows "case r of
      Inl e \<Rightarrow> vol' = vol \<and> f' = f
    | Inr n \<Rightarrow> 0 < n \<and> n \<le> length buf \<and> mf_data f' = file_write pos (take n buf) (mf_data f) \<and>
        (n < length buf \<longrightarrow> vol_used vol' = vol_capacity vol')"
  using write_at_error_unchanged [OF assms(1,2)] write_at_success [OF assms(1-3)] assms(4)
  by (auto split: sum.splits)

theorem memory_write_refines_byte_file_witness:
  "mem_file_write_at U64_MAX 5 3 [7, 8] \<lparr>vol_capacity = 4, vol_used = 1\<rparr> \<lparr>mf_data = [9], mf_mtime = None\<rparr> =
     (Inr 1, \<lparr>vol_capacity = 4, vol_used = 4\<rparr>, \<lparr>mf_data = [9, 0, 0, 7], mf_mtime = Some 5\<rparr>)
   \<and> [9, 0, 0, 7] = file_write 3 (take 1 [7, 8]) [9 :: byte]"
proof -
  have w: "mem_file_write_at U64_MAX 5 3 [7, 8] \<lparr>vol_capacity = 4, vol_used = 1\<rparr> \<lparr>mf_data = [9], mf_mtime = None\<rparr> =
     (Inr 1, \<lparr>vol_capacity = 4, vol_used = 4\<rparr>, \<lparr>mf_data = [9, 0, 0, 7], mf_mtime = Some 5\<rparr>)"
  proof -
    have u: "5 \<le> U64_MAX" "4 \<le> U64_MAX" "3 \<le> U64_MAX" "\<not> U64_MAX < 4" "\<not> U64_MAX < 3" "0 < U64_MAX" "min (Suc 0) U64_MAX = Suc 0"
      by (simp_all add: U64_MAX_def)
    have "wrap_add 1 3 = 4" by (simp add: wrap_add_def)
    then show ?thesis
      by (simp add: mem_file_write_at_def checked_add_def volume_reserve_def u Let_def vec_resize_def vec_copy_at_def
          mem_file_touch_def) (simp_all add: u numeral_2_eq_2)
  qed
  have "vol_ok \<lparr>vol_capacity = 4, vol_used = 1\<rparr>" "file_in \<lparr>vol_capacity = 4, vol_used = 1\<rparr> \<lparr>mf_data = [9], mf_mtime = None\<rparr>"
    by (simp_all add: vol_ok_def file_in_def U64_MAX_def)
  from memory_write_refines_byte_file [OF this _ w] w show ?thesis by simp
qed

end
