(* ===== verification/Memory_Fs.thy ===== *)
theory Memory_Fs
  imports Mem_File "HOL-Library.List_Lexorder" "HOL-Library.Char_ord"
begin

text \<open>
  The second half of \<^verbatim>\<open>crates/hookfs/src/providers/memory.rs\<close>: the handles over a
  \<open>MemFile\<close>, the tree of nodes keyed by normalized absolute path, and every operation of
  the \<open>MemoryFs\<close> provider.  The files live in an explicit store: \<open>fs_heap\<close> maps a file
  identity (the address of its \<open>Arc\<close>) to the file and the strong count of that \<open>Arc\<close>.
  Cloning and dropping a reference are explicit, and dropping the last one runs
  \<open>Drop for MemFile\<close>, the only place that returns a file's bytes to the volume.  Mounted
  read-only sources are kept in \<open>fs_sources\<close>; they are external and not accounted.
\<close>

section \<open>State\<close>

datatype node =
    NFile nat string "time option" \<comment> \<open>source, display name, modification time\<close>
  | NMem nat string \<comment> \<open>file identity, display name\<close>
  | NDir string

record 's memfs =
  fs_entries :: "(string \<times> node) list"
  fs_volume :: volume
  fs_heap :: "(nat \<times> mem_file \<times> nat) list"
  fs_fresh :: nat
  fs_sources :: "(nat \<times> 's shared_source) list"
  fs_now :: time

definition memfs_with_capacity :: "time \<Rightarrow> u64 \<Rightarrow> 's memfs" where
  "memfs_with_capacity now capacity =
     \<lparr>fs_entries = [], fs_volume = volume_new capacity, fs_heap = [], fs_fresh = 0,
      fs_sources = [], fs_now = now\<rparr>"

definition memfs_new :: "time \<Rightarrow> 's memfs" where
  "memfs_new now = memfs_with_capacity now DEFAULT_CAPACITY"

section \<open>References to files\<close>

definition mem_get :: "nat \<Rightarrow> 's memfs \<Rightarrow> mem_file option" where
  "mem_get i fs = map_option fst (map_of (fs_heap fs) i)"

definition mem_put :: "nat \<Rightarrow> volume \<Rightarrow> mem_file \<Rightarrow> 's memfs \<Rightarrow> 's memfs" where
  "mem_put i vol f fs =
     (case map_of (fs_heap fs) i of
        None \<Rightarrow> fs
      | Some (_, strong) \<Rightarrow>
          fs\<lparr>fs_volume := vol, fs_heap := AList.update i (f, strong) (fs_heap fs)\<rparr>)"

definition arc_new :: "'s memfs \<Rightarrow> nat \<times> 's memfs" where
  "arc_new fs =
     (fs_fresh fs,
      fs\<lparr>fs_heap := AList.update (fs_fresh fs) (mem_file_new (fs_now fs), 1) (fs_heap fs),
         fs_fresh := Suc (fs_fresh fs)\<rparr>)"

definition arc_clone :: "nat \<Rightarrow> 's memfs \<Rightarrow> 's memfs" where
  "arc_clone i fs =
     (case map_of (fs_heap fs) i of
        None \<Rightarrow> fs
      | Some (f, strong) \<Rightarrow> fs\<lparr>fs_heap := AList.update i (f, Suc strong) (fs_heap fs)\<rparr>)"

definition arc_drop :: "nat \<Rightarrow> 's memfs \<Rightarrow> 's memfs" where
  "arc_drop i fs =
     (case map_of (fs_heap fs) i of
        None \<Rightarrow> fs
      | Some (f, strong) \<Rightarrow>
          if strong \<le> 1 then
            fs\<lparr>fs_volume := mem_file_drop (fs_volume fs) f,
               fs_heap := AList.delete i (fs_heap fs)\<rparr>
          else fs\<lparr>fs_heap := AList.update i (f, strong - 1) (fs_heap fs)\<rparr>)"

fun drop_node :: "node \<Rightarrow> 's memfs \<Rightarrow> 's memfs" where
  "drop_node (NMem i _) fs = arc_drop i fs"
| "drop_node (NFile _ _ _) fs = fs"
| "drop_node (NDir _) fs = fs"

definition entry_insert :: "string \<Rightarrow> node \<Rightarrow> 's memfs \<Rightarrow> 's memfs" where
  "entry_insert k nd fs =
     (let fs1 = fs\<lparr>fs_entries := AList.update k nd (fs_entries fs)\<rparr>
      in case map_of (fs_entries fs) k of None \<Rightarrow> fs1 | Some old \<Rightarrow> drop_node old fs1)"

definition entry_remove :: "string \<Rightarrow> 's memfs \<Rightarrow> 's memfs" where
  "entry_remove k fs =
     (case map_of (fs_entries fs) k of
        None \<Rightarrow> fs
      | Some old \<Rightarrow> drop_node old (fs\<lparr>fs_entries := AList.delete k (fs_entries fs)\<rparr>))"

section \<open>Keys, names and ancestors\<close>

definition final_component :: "path \<Rightarrow> string" where
  "final_component p = (case file_name p of Some n \<Rightarrow> n | None \<Rightarrow> p)"

definition ROOT_LEN :: nat where
  "ROOT_LEN = 1"

definition parent_key :: "string \<Rightarrow> string option" where
  "parent_key key =
     (if SEP \<notin> set key then None
      else let idx = length (before_last key)
           in if idx < ROOT_LEN then Some (take (idx + 1) key) else Some (take idx key))"

function insert_dirs_from :: "path \<Rightarrow> (string \<times> node) list \<Rightarrow> (string \<times> node) list" where
  "insert_dirs_from dir m =
     (let key = normalize_key dir in
      if key = [] then m
      else
        let m' = (case map_of m key of
                    None \<Rightarrow> AList.update key (NDir (final_component dir)) m
                  | Some _ \<Rightarrow> m)
        in case path_parent dir of None \<Rightarrow> m' | Some d \<Rightarrow> insert_dirs_from d m')"
  by pat_completeness auto
termination
  by (relation "measure (\<lambda>(dir, _). length dir)") (auto simp: path_parent_length)

declare insert_dirs_from.simps [simp del]

definition insert_ancestor_dirs :: "(string \<times> node) list \<Rightarrow> path \<Rightarrow> (string \<times> node) list" where
  "insert_ancestor_dirs m path =
     (case path_parent path of None \<Rightarrow> m | Some dir \<Rightarrow> insert_dirs_from dir m)"

definition add_ancestors :: "path \<Rightarrow> 's memfs \<Rightarrow> 's memfs" where
  "add_ancestors path fs = fs\<lparr>fs_entries := insert_ancestor_dirs (fs_entries fs) path\<rparr>"

definition is_descendant :: "string \<Rightarrow> string \<Rightarrow> bool" where
  "is_descendant key k =
     (case strip_prefix key k of Some r \<Rightarrow> r \<noteq> [] \<and> hd r = SEP | None \<Rightarrow> False)"

definition in_subtree :: "string \<Rightarrow> string \<Rightarrow> bool" where
  "in_subtree key k \<longleftrightarrow> k = key \<or> is_descendant key k"

fun rename_node :: "node \<Rightarrow> string \<Rightarrow> node" where
  "rename_node (NFile s _ t) name = NFile s name t"
| "rename_node (NMem i _) name = NMem i name"
| "rename_node (NDir _) name = NDir name"

fun node_name :: "node \<Rightarrow> string" where
  "node_name (NFile _ name _) = name"
| "node_name (NMem _ name) = name"
| "node_name (NDir name) = name"

fun is_dir_node :: "node \<Rightarrow> bool" where
  "is_dir_node (NDir _) = True"
| "is_dir_node _ = False"

definition rekey :: "string \<Rightarrow> string \<Rightarrow> string \<Rightarrow> string" where
  "rekey k from to = (if k = from then to else to @ drop (length from) k)"

definition has_child :: "string \<Rightarrow> (string \<times> node) list \<Rightarrow> bool" where
  "has_child key m \<longleftrightarrow> list_ex (\<lambda>(k, _). parent_key k = Some key) m"

section \<open>Mounting\<close>

definition memfs_insert_file ::
  "path \<Rightarrow> 's shared_source \<Rightarrow> time option \<Rightarrow> 's memfs \<Rightarrow> string \<times> 's memfs" where
  "memfs_insert_file path source mtime fs =
     (let key = normalize_key path;
          name = final_component path;
          sid = fs_fresh fs;
          fs1 = fs\<lparr>fs_sources := AList.update sid source (fs_sources fs), fs_fresh := Suc sid\<rparr>;
          fs2 = entry_insert key (NFile sid name mtime) fs1
      in (key, add_ancestors path fs2))"

definition memfs_insert_writable :: "path \<Rightarrow> 's memfs \<Rightarrow> string \<times> 's memfs" where
  "memfs_insert_writable path fs =
     (let key = normalize_key path;
          name = final_component path;
          (i, fs1) = arc_new fs;
          fs2 = entry_insert key (NMem i name) fs1
      in (key, add_ancestors path fs2))"

definition memfs_snapshot :: "path \<Rightarrow> 's memfs \<Rightarrow> byte list option" where
  "memfs_snapshot path fs =
     (case map_of (fs_entries fs) (normalize_key path) of
        Some (NMem i _) \<Rightarrow> map_option mem_file_snapshot (mem_get i fs)
      | _ \<Rightarrow> None)"

text \<open>The pruning loop of \<open>remove_subtree\<close>.  It ends at a directory still in use; the root,
  which \<open>parent_key\<close> makes its own parent, always is.\<close>

lemma parent_key_length:
  assumes "parent_key k = Some d" shows "length d < length k \<or> d = k"
proof (cases k rule: seg_cases)
  case no_sep
  with assms show ?thesis by (simp add: parent_key_def)
next
  case (sep t u)
  then have "parent_key k = Some (if t = [] then [SEP] else t)"
    by (simp add: parent_key_def Let_def ROOT_LEN_def)
  then have "d = (if t = [] then [SEP] else t)" using assms by simp
  then show ?thesis using sep(1) by (cases u) auto
qed

function prune :: "string option \<Rightarrow> (string \<times> node) list \<Rightarrow> (string \<times> node) list" where
  "prune None m = m"
| "prune (Some dir) m =
     (case map_of m dir of
        Some (NDir _) \<Rightarrow>
          if has_child dir m then m
          else prune (parent_key dir) (AList.delete dir m)
      | _ \<Rightarrow> m)"
  by pat_completeness auto
termination
proof (relation "measure (\<lambda>(a, m). (case a of None \<Rightarrow> 0 | Some d \<Rightarrow> Suc (length d)))", goal_cases)
  case (2 dir m x2 nm)
  have "parent_key dir \<noteq> Some dir"
  proof
    assume "parent_key dir = Some dir"
    moreover have "(dir, NDir nm) \<in> set m" using 2 by (simp add: map_of_SomeD)
    ultimately have "has_child dir m" by (auto simp: has_child_def list_ex_iff)
    with 2 show False by simp
  qed
  then show ?case using parent_key_length by (auto split: option.splits)
qed auto

definition memfs_remove_subtree :: "string \<Rightarrow> 's memfs \<Rightarrow> 's memfs" where
  "memfs_remove_subtree key fs =
     (let fs1 = fold entry_remove (filter (in_subtree key) (map fst (fs_entries fs))) fs
      in fs1\<lparr>fs_entries := prune (parent_key key) (fs_entries fs1)\<rparr>)"

definition memfs_len :: "'s memfs \<Rightarrow> nat" where
  "memfs_len fs = length (fs_entries fs)"

definition memfs_is_empty :: "'s memfs \<Rightarrow> bool" where
  "memfs_is_empty fs \<longleftrightarrow> memfs_len fs = 0"

section \<open>Provider operations\<close>

definition source_size :: "nat \<Rightarrow> 's memfs \<Rightarrow> u64" where
  "source_size sid fs = (case map_of (fs_sources fs) sid of Some src \<Rightarrow> ss_size src | None \<Rightarrow> 0)"

definition node_metadata :: "node \<Rightarrow> 's memfs \<Rightarrow> vfs_metadata" where
  "node_metadata nd fs =
     (case nd of
        NFile sid _ mtime \<Rightarrow> (metadata_file (source_size sid fs))\<lparr>md_mtime := mtime\<rparr>
      | NMem i _ \<Rightarrow>
          (case mem_get i fs of
             Some f \<Rightarrow> (metadata_file_rw (mem_file_len f))\<lparr>md_mtime := mf_mtime f\<rparr>
           | None \<Rightarrow> metadata_file_rw 0)
      | NDir _ \<Rightarrow> metadata_dir)"

definition metadata_for :: "'s memfs \<Rightarrow> string \<Rightarrow> vfs_metadata option" where
  "metadata_for fs key = map_option (\<lambda>nd. node_metadata nd fs) (map_of (fs_entries fs) key)"

datatype handle = HSource nat u64 | HMem nat u64

definition dir_error :: io_error where
  "dir_error = Custom PermissionDenied ''path is a directory''"

definition memfs_open :: "path \<Rightarrow> open_options \<Rightarrow> 's memfs \<Rightarrow> handle io_result option \<times> 's memfs" where
  "memfs_open path opts fs =
     (case map_of (fs_entries fs) (normalize_key path) of
        None \<Rightarrow> (None, fs)
      | Some (NFile sid _ _) \<Rightarrow> (Some (Inr (HSource sid source_cursor_new)), fs)
      | Some (NMem i _) \<Rightarrow> (Some (Inr (HMem i 0)), arc_clone i fs)
      | Some (NDir _) \<Rightarrow> (Some (Inl dir_error), fs))"

definition file_set_len :: "nat \<Rightarrow> nat \<Rightarrow> u64 \<Rightarrow> 's memfs \<Rightarrow> unit io_result \<times> 's memfs" where
  "file_set_len umax i len fs =
     (case mem_get i fs of
        None \<Rightarrow> (Inl (Simple NotFound), fs)
      | Some f \<Rightarrow>
          (case mem_file_set_len umax (fs_now fs) len (fs_volume fs) f of
             (r, vol, f') \<Rightarrow> (r, mem_put i vol f' fs)))"

definition finish_open_write ::
  "nat \<Rightarrow> open_options \<Rightarrow> nat \<Rightarrow> 's memfs \<Rightarrow> handle io_result option \<times> 's memfs" where
  "finish_open_write umax opts i fs =
     (case (if oo_truncate opts then file_set_len umax i 0 fs else (Inr (), fs)) of
        (Inl e, fs1) \<Rightarrow> (Some (Inl e), arc_drop i fs1)
      | (Inr _, fs1) \<Rightarrow>
          (Some (Inr (HMem i (if oo_append opts
                              then (case mem_get i fs1 of Some f \<Rightarrow> mem_file_len f | None \<Rightarrow> 0)
                              else 0))), fs1))"

definition memfs_open_write ::
  "nat \<Rightarrow> path \<Rightarrow> open_options \<Rightarrow> 's memfs \<Rightarrow> handle io_result option \<times> 's memfs" where
  "memfs_open_write umax path opts fs =
     (let key = normalize_key path in
      case map_of (fs_entries fs) key of
        Some (NDir _) \<Rightarrow> (Some (Inl dir_error), fs)
      | Some (NFile _ _ _) \<Rightarrow> (Some (Inl read_only_error), fs)
      | Some (NMem i _) \<Rightarrow>
          if oo_create_new opts then (Some (Inl (Custom AlreadyExists ''file already exists'')), fs)
          else finish_open_write umax opts i (arc_clone i fs)
      | None \<Rightarrow>
          if \<not> oo_creates opts then (Some (Inl (Simple NotFound)), fs)
          else
            let (i, fs1) = arc_new fs;
                fs2 = entry_insert key (NMem i (final_component path)) (arc_clone i fs1)
            in finish_open_write umax opts i (add_ancestors path fs2))"

definition memfs_metadata :: "path \<Rightarrow> 's memfs \<Rightarrow> vfs_metadata io_result option \<times> 's memfs" where
  "memfs_metadata path fs = (map_option Inr (metadata_for fs (normalize_key path)), fs)"

definition memfs_read_dir :: "path \<Rightarrow> 's memfs \<Rightarrow> vfs_dir_entry list io_result option \<times> 's memfs" where
  "memfs_read_dir path fs =
     (let dir_key = normalize_key path in
      case map_of (fs_entries fs) dir_key of
        Some (NDir _) \<Rightarrow>
          (Some (Inr (sort_key de_name
             (map (\<lambda>(_, nd). \<lparr>de_name = node_name nd, de_metadata = node_metadata nd fs\<rparr>)
                (filter (\<lambda>(k, _). parent_key k = Some dir_key) (fs_entries fs))))), fs)
      | _ \<Rightarrow> (None, fs))"

definition memfs_remove :: "path \<Rightarrow> 's memfs \<Rightarrow> unit io_result option \<times> 's memfs" where
  "memfs_remove path fs =
     (let key = normalize_key path in
      case map_of (fs_entries fs) key of
        None \<Rightarrow> (Some (Inl (Simple NotFound)), fs)
      | Some (NDir _) \<Rightarrow>
          if has_child key (fs_entries fs)
          then (Some (Inl (Custom PermissionDenied ''directory not empty'')), fs)
          else (Some (Inr ()), entry_remove key fs)
      | Some _ \<Rightarrow> (Some (Inr ()), entry_remove key fs))"

definition move_entry :: "string \<Rightarrow> string \<Rightarrow> string \<Rightarrow> string \<Rightarrow> 's memfs \<Rightarrow> 's memfs" where
  "move_entry from_key to_key to_name k fs =
     (case map_of (fs_entries fs) k of
        None \<Rightarrow> fs
      | Some nd \<Rightarrow>
          entry_insert (rekey k from_key to_key)
            (if k = from_key then rename_node nd to_name else nd)
            (fs\<lparr>fs_entries := AList.delete k (fs_entries fs)\<rparr>))"

definition move_subtree :: "string \<Rightarrow> string \<Rightarrow> string \<Rightarrow> 's memfs \<Rightarrow> 's memfs" where
  "move_subtree from_key to_key to_name fs =
     fold (move_entry from_key to_key to_name)
       (filter (in_subtree from_key) (map fst (fs_entries fs))) fs"

definition memfs_rename :: "path \<Rightarrow> path \<Rightarrow> 's memfs \<Rightarrow> unit io_result option \<times> 's memfs" where
  "memfs_rename from to fs =
     (let from_key = normalize_key from; to_key = normalize_key to in
      case map_of (fs_entries fs) from_key of
        None \<Rightarrow> (Some (Inl (Simple NotFound)), fs)
      | Some from_node \<Rightarrow>
          if to_key = from_key then (Some (Inr ()), fs)
          else
            let from_is_dir = is_dir_node from_node;
                finish = (\<lambda>fs1. (Some (Inr ()),
                  add_ancestors to (move_subtree from_key to_key (final_component to) fs1)))
            in if from_is_dir \<and> is_descendant from_key to_key
               then (Some (Inl (Simple InvalidInput)), fs)
               else
                 (case map_of (fs_entries fs) to_key of
                    None \<Rightarrow> finish fs
                  | Some dest \<Rightarrow>
                      if \<not> from_is_dir \<and> is_dir_node dest then (Some (Inl (Simple IsADirectory)), fs)
                      else if from_is_dir \<and> \<not> is_dir_node dest then (Some (Inl (Simple NotADirectory)), fs)
                      else if from_is_dir \<and> has_child to_key (fs_entries fs)
                      then (Some (Inl (Simple DirectoryNotEmpty)), fs)
                      else finish (entry_remove to_key fs)))"

definition memfs_create_dir :: "path \<Rightarrow> 's memfs \<Rightarrow> unit io_result option \<times> 's memfs" where
  "memfs_create_dir path fs =
     (let key = normalize_key path in
      case map_of (fs_entries fs) key of
        Some _ \<Rightarrow> (Some (Inl (Simple AlreadyExists)), fs)
      | None \<Rightarrow>
          (Some (Inr ()), add_ancestors path (entry_insert key (NDir (final_component path)) fs)))"

definition memfs_set_len :: "nat \<Rightarrow> path \<Rightarrow> u64 \<Rightarrow> 's memfs \<Rightarrow> unit io_result option \<times> 's memfs" where
  "memfs_set_len umax path len fs =
     (case map_of (fs_entries fs) (normalize_key path) of
        Some (NMem i _) \<Rightarrow> (case file_set_len umax i len fs of (r, fs') \<Rightarrow> (Some r, fs'))
      | Some _ \<Rightarrow> (Some (Inl read_only_error), fs)
      | None \<Rightarrow> (Some (Inl (Simple NotFound)), fs))"

definition memfs_volume_info :: "'s memfs \<Rightarrow> volume_info option \<times> 's memfs" where
  "memfs_volume_info fs = (Some (volume_info_of (fs_volume fs)), fs)"

section \<open>Handle operations\<close>

text \<open>A handle keeps its file or source alive, so the lookups below always find it; the branch
  for an unknown identity is unreachable.\<close>

definition dangling :: io_error where
  "dangling = Simple OtherKind"

fun handle_size :: "handle \<Rightarrow> 's memfs \<Rightarrow> u64" where
  "handle_size (HSource sid _) fs = source_size sid fs"
| "handle_size (HMem i _) fs = (case mem_get i fs of Some f \<Rightarrow> mem_file_len f | None \<Rightarrow> 0)"

fun handle_pos :: "handle \<Rightarrow> u64" where
  "handle_pos (HSource _ pos) = pos"
| "handle_pos (HMem _ pos) = pos"

fun handle_at :: "handle \<Rightarrow> u64 \<Rightarrow> handle" where
  "handle_at (HSource sid _) pos = HSource sid pos"
| "handle_at (HMem i _) pos = HMem i pos"

fun memfs_h_read ::
  "'s stream_ops \<Rightarrow> nat \<Rightarrow> handle \<Rightarrow> nat \<Rightarrow> 's memfs \<Rightarrow> byte list io_result \<times> handle \<times> 's memfs" where
  "memfs_h_read sops umax (HSource sid pos) n fs =
     (case map_of (fs_sources fs) sid of
        None \<Rightarrow> (Inl dangling, HSource sid pos, fs)
      | Some src \<Rightarrow>
          (case source_cursor_read sops n (src, pos) of
             (r, src', pos') \<Rightarrow>
               (r, HSource sid pos', fs\<lparr>fs_sources := AList.update sid src' (fs_sources fs)\<rparr>)))"
| "memfs_h_read sops umax (HMem i pos) n fs =
     (case mem_get i fs of
        None \<Rightarrow> (Inl dangling, HMem i pos, fs)
      | Some f \<Rightarrow>
          (let bs = mem_file_read_at umax pos n f
           in (Inr bs, HMem i (sat_add pos (length bs)), fs)))"

definition memfs_h_seek ::
  "handle \<Rightarrow> seek_from \<Rightarrow> 's memfs \<Rightarrow> u64 io_result \<times> handle \<times> 's memfs" where
  "memfs_h_seek h sf fs =
     (case seek_target (handle_size h fs) (handle_pos h) sf of
        Inl e \<Rightarrow> (Inl e, h, fs)
      | Inr target \<Rightarrow> (Inr target, handle_at h target, fs))"

definition memfs_h_position :: "handle \<Rightarrow> 's memfs \<Rightarrow> u64 io_result \<times> handle \<times> 's memfs" where
  "memfs_h_position h fs = (Inr (handle_pos h), h, fs)"

definition memfs_h_size :: "handle \<Rightarrow> 's memfs \<Rightarrow> u64 io_result \<times> handle \<times> 's memfs" where
  "memfs_h_size h fs =
     (case memfs_h_position h fs of
        (Inl e, h1, fs1) \<Rightarrow> (Inl e, h1, fs1)
      | (Inr current, h1, fs1) \<Rightarrow>
          (case memfs_h_seek h1 (End 0) fs1 of
             (Inl e, h2, fs2) \<Rightarrow> (Inl e, h2, fs2)
           | (Inr end', h2, fs2) \<Rightarrow>
               if current \<noteq> end' then
                 (case memfs_h_seek h2 (Start current) fs2 of
                    (Inl e, h3, fs3) \<Rightarrow> (Inl e, h3, fs3)
                  | (Inr _, h3, fs3) \<Rightarrow> (Inr end', h3, fs3))
               else (Inr end', h2, fs2)))"

fun memfs_h_write ::
  "nat \<Rightarrow> handle \<Rightarrow> byte list \<Rightarrow> 's memfs \<Rightarrow> nat io_result \<times> handle \<times> 's memfs" where
  "memfs_h_write umax (HSource sid pos) buf fs = (Inl read_only_error, HSource sid pos, fs)"
| "memfs_h_write umax (HMem i pos) buf fs =
     (case mem_get i fs of
        None \<Rightarrow> (Inl dangling, HMem i pos, fs)
      | Some f \<Rightarrow>
          (case mem_file_write_at umax (fs_now fs) pos buf (fs_volume fs) f of
             (Inl e, vol, f') \<Rightarrow> (Inl e, HMem i pos, mem_put i vol f' fs)
           | (Inr n, vol, f') \<Rightarrow> (Inr n, HMem i (sat_add pos n), mem_put i vol f' fs)))"

fun memfs_h_set_len ::
  "nat \<Rightarrow> handle \<Rightarrow> u64 \<Rightarrow> 's memfs \<Rightarrow> unit io_result \<times> handle \<times> 's memfs" where
  "memfs_h_set_len umax (HSource sid pos) len fs = (Inl read_only_error, HSource sid pos, fs)"
| "memfs_h_set_len umax (HMem i pos) len fs =
     (case file_set_len umax i len fs of (r, fs') \<Rightarrow> (r, HMem i pos, fs'))"

definition memfs_h_flush :: "handle \<Rightarrow> 's memfs \<Rightarrow> unit io_result \<times> handle \<times> 's memfs" where
  "memfs_h_flush h fs = (Inr (), h, fs)"

fun memfs_h_drop :: "handle \<Rightarrow> 's memfs \<Rightarrow> 's memfs" where
  "memfs_h_drop (HSource _ _) fs = fs"
| "memfs_h_drop (HMem i _) fs = arc_drop i fs"

definition memory_fs_ops :: "'s stream_ops \<Rightarrow> nat \<Rightarrow> ('s memfs, handle) vfs_ops" where
  "memory_fs_ops sops umax =
     \<lparr>v_open = memfs_open,
      v_metadata = memfs_metadata,
      v_read_dir = memfs_read_dir,
      v_exists = default_exists memfs_metadata,
      v_open_write = memfs_open_write umax,
      v_remove = memfs_remove,
      v_rename = memfs_rename,
      v_create_dir = memfs_create_dir,
      v_set_len = memfs_set_len umax,
      v_volume_info = memfs_volume_info,
      h_read = memfs_h_read sops umax,
      h_seek = memfs_h_seek,
      h_position = memfs_h_position,
      h_size = memfs_h_size,
      h_write = memfs_h_write umax,
      h_set_len = memfs_h_set_len umax,
      h_flush = memfs_h_flush,
      h_drop = memfs_h_drop\<rparr>"

end
