(* ===== verification/Memory_Tree.thy ===== *)
theory Memory_Tree
  imports Memory_Fs
begin

text \<open>
  The tree of \<open>MemoryFs\<close> as a map from component lists to nodes.  Keys are the normalized
  absolute paths, \<open>akey cs\<close> the one with components \<open>cs\<close>.  The invariant \<open>tree_ok\<close> says that
  every entry sits under a directory and carries the name of its last component.  Each
  operation is characterised by what it does to the map, and keeps the invariant as long
  as no regular file is used as a directory.
\<close>

section \<open>Keys\<close>

abbreviation akey :: "string list \<Rightarrow> string" where
  "akey cs \<equiv> render True cs"

definition plain :: "path \<Rightarrow> bool" where
  "plain p \<longleftrightarrow> has_root p \<and> no_dot p \<and> ''..'' \<notin> set (comps p)"

lemma plain_safe: "has_root p \<Longrightarrow> is_lexically_safe p \<Longrightarrow> plain p"
  by (simp add: plain_def is_lexically_safe_iff no_dot_def)

lemma normalize_plain: "plain p \<Longrightarrow> normalize_key p = akey (comps p)"
  by (simp add: plain_def normalize_key_render)

lemma final_component_plain: "comps p \<noteq> [] \<Longrightarrow> plain p \<Longrightarrow> final_component p = last (comps p)"
proof -
  assume a: "comps p \<noteq> []" "plain p"
  then have "last (comps p) \<noteq> ''..''" using last_in_set by (fastforce simp: plain_def)
  then show ?thesis using a by (simp add: plain_def final_component_def file_name_comps)
qed

lemma akey_inj [simp]: "seg_ok cs \<Longrightarrow> seg_ok ds \<Longrightarrow> akey cs = akey ds \<longleftrightarrow> cs = ds"
  by (simp add: render_inj)

lemma akey_snoc:
  assumes "seg_ok (cs @ [c])"
  shows "akey (cs @ [c]) = (if cs = [] then [] else akey cs) @ SEP # c"
  using join_comps_append [of cs "[c]"] by (auto simp: render_def)

lemma before_last_sep: "SEP \<notin> set u \<Longrightarrow> before_last (t @ SEP # u) = t"
proof -
  assume "SEP \<notin> set u"
  then have "\<forall>c \<in> set (rev u). \<not> is_sep c" by (auto simp: is_sep_def)
  then show ?thesis by (simp add: before_last_def dropWhile_append)
qed

lemma parent_key_akey: "seg_ok (cs @ [c]) \<Longrightarrow> parent_key (akey (cs @ [c])) = Some (akey cs)"
proof -
  assume ok: "seg_ok (cs @ [c])"
  let ?t = "if cs = [] then [] else akey cs"
  have k: "akey (cs @ [c]) = ?t @ SEP # c" using akey_snoc [OF ok] .
  have "before_last (?t @ SEP # c) = ?t" using ok by (intro before_last_sep) simp
  then have "parent_key (?t @ SEP # c) = Some (if ?t = [] then [SEP] else ?t)"
    by (simp add: parent_key_def Let_def ROOT_LEN_def)
  then show ?thesis unfolding k by (simp add: render_def split: if_splits)
qed

lemma parent_key_root: "parent_key (akey []) = Some (akey [])"
  by code_simp

lemma parent_key_iff:
  assumes "seg_ok cs" "seg_ok ds"
  shows "parent_key (akey cs) = Some (akey ds) \<longleftrightarrow> (if cs = [] then ds = [] else butlast cs = ds)"
proof (cases cs rule: rev_cases)
  case Nil
  then show ?thesis using assms parent_key_root by auto
next
  case (snoc xs x)
  then show ?thesis using assms parent_key_akey [of xs x] by auto
qed

lemma in_subtree_has_prefix: "in_subtree key k \<longleftrightarrow> key_has_prefix k key"
  by (auto simp: in_subtree_def is_descendant_def key_has_prefix_def split: option.splits)

lemma in_subtree_akey:
  "seg_ok cs \<Longrightarrow> seg_ok ds \<Longrightarrow> ds \<noteq> [] \<Longrightarrow> in_subtree (akey ds) (akey cs) \<longleftrightarrow> prefix ds cs"
  by (simp add: in_subtree_has_prefix key_has_prefix_render)

lemma is_descendant_akey:
  assumes "seg_ok cs" "seg_ok ds" "ds \<noteq> []"
  shows "is_descendant (akey ds) (akey cs) \<longleftrightarrow> strict_prefix ds cs"
proof -
  have "\<not> is_descendant k k" for k
    by (auto simp: is_descendant_def split: option.splits)
  then show ?thesis
    using in_subtree_akey [OF assms] assms by (auto simp: in_subtree_def strict_prefix_def)
qed

lemma rekey_akey:
  assumes "seg_ok (fs @ ds)" "seg_ok ts" "fs \<noteq> []" "ts \<noteq> []"
  shows "rekey (akey (fs @ ds)) (akey fs) (akey ts) = akey (ts @ ds)"
proof (cases "ds = []")
  case False
  then have "akey (fs @ ds) = akey fs @ SEP # join_comps ds" "akey (ts @ ds) = akey ts @ SEP # join_comps ds"
    using assms join_comps_append by (simp_all add: render_def)
  then show ?thesis by (simp add: rekey_def)
qed (simp add: rekey_def)

section \<open>Maps under insertion and removal\<close>

lemma fs_entries_arc [simp]:
  "fs_entries (arc_drop i fs) = fs_entries fs" "fs_entries (arc_clone i fs) = fs_entries fs"
  by (simp_all add: arc_drop_def arc_clone_def split: option.splits prod.splits)

lemma fs_entries_drop_node [simp]: "fs_entries (drop_node nd fs) = fs_entries fs"
  by (cases nd) simp_all

lemma entries_insert [simp]: "fs_entries (entry_insert k nd fs) = AList.update k nd (fs_entries fs)"
  by (simp add: entry_insert_def Let_def split: option.splits)

lemma entries_remove [simp]: "fs_entries (entry_remove k fs) = AList.delete k (fs_entries fs)"
  by (auto simp: entry_remove_def delete_notin map_of_eq_None_iff split: option.splits)

lemma insert_dirs_keep:
  "map_of m k = Some x \<Longrightarrow> map_of (insert_dirs_from d m) k = Some x"
proof (induction d m rule: insert_dirs_from.induct)
  case (1 d m)
  then show ?case
    by (auto simp: insert_dirs_from.simps [of d m] Let_def split: option.splits)
qed

lemma insert_ancestor_dirs_keep:
  "map_of m k = Some x \<Longrightarrow> map_of (insert_ancestor_dirs m p) k = Some x"
  by (auto simp: insert_ancestor_dirs_def insert_dirs_keep split: option.splits)

lemma insert_dirs_old:
  assumes "plain d" "map_of (insert_dirs_from d m) k = Some nd"
  shows "map_of m k = Some nd \<or> (map_of m k = None \<and> (\<exists>cs nm. prefix cs (comps d) \<and> k = akey cs
    \<and> nd = NDir nm \<and> (cs \<noteq> [] \<longrightarrow> nm = last cs)))"
  using assms
proof (induction d m rule: insert_dirs_from.induct)
  case (1 d m)
  let ?k = "normalize_key d"
  let ?m' = "case map_of m ?k of None \<Rightarrow> AList.update ?k (NDir (final_component d)) m | Some _ \<Rightarrow> m"
  have k: "?k = akey (comps d)" "?k \<noteq> []" using "1.prems"(1) by (auto simp: normalize_plain render_def)
  have nm: "comps d \<noteq> [] \<Longrightarrow> final_component d = last (comps d)"
    using "1.prems"(1) by (rule final_component_plain [rotated])
  have here: "map_of m k = Some nd \<or> (map_of m k = None \<and> (\<exists>cs nm. prefix cs (comps d) \<and> k = akey cs
      \<and> nd = NDir nm \<and> (cs \<noteq> [] \<longrightarrow> nm = last cs)))" if "map_of ?m' k = Some nd"
    using that k nm by (cases "map_of m ?k") (auto split: if_splits)
  show ?case
  proof (cases "comps d = []")
    case True
    then have "path_parent d = None" using "1.prems"(1) by (simp add: plain_def path_parent_no_comps)
    then have "insert_dirs_from d m = ?m'" using k(2) by (simp add: insert_dirs_from.simps [of d m] Let_def)
    then show ?thesis using here "1.prems"(2) by simp
  next
    case False
    then obtain e where e: "path_parent d = Some e" "comps e = butlast (comps d)" "has_root e = has_root d" "no_dot e"
      using "1.prems"(1) by (auto simp: plain_def elim: path_parent_comps)
    then have pe: "plain e" using "1.prems"(1) by (auto simp: plain_def dest: in_set_butlastD)
    have eq: "insert_dirs_from d m = insert_dirs_from e ?m'"
      using k(2) e by (simp add: insert_dirs_from.simps [of d m] Let_def)
    have "map_of (insert_dirs_from e ?m') k = Some nd" using "1.prems"(2) eq by simp
    from "1.IH" [OF refl k(2) refl e(1) pe this] show ?thesis
    proof (elim disjE conjE exE)
      fix cs nm
      assume a: "map_of ?m' k = None" "prefix cs (comps e)" "k = akey cs" "nd = NDir nm"
        "cs \<noteq> [] \<longrightarrow> nm = last cs"
      then have "map_of m k = None" by (auto split: option.splits if_splits)
      moreover have "prefix cs (comps d)" using a(2) e(2) by (metis prefix_order.order_trans prefixeq_butlast)
      ultimately show ?thesis using a by blast
    qed (use here in blast)
  qed
qed

lemma insert_dirs_new:
  assumes "plain d" "prefix cs (comps d)"
  shows "map_of (insert_dirs_from d m) (akey cs) \<noteq> None"
  using assms
proof (induction d m rule: insert_dirs_from.induct)
  case (1 d m)
  let ?k = "normalize_key d"
  let ?m' = "case map_of m ?k of None \<Rightarrow> AList.update ?k (NDir (final_component d)) m | Some _ \<Rightarrow> m"
  have k: "?k = akey (comps d)" "?k \<noteq> []" using "1.prems"(1) by (auto simp: normalize_plain render_def)
  have here: "\<exists>x. map_of ?m' ?k = Some x" by (auto split: option.splits)
  show ?case
  proof (cases "path_parent d")
    case None
    then have "comps d = []" using "1.prems"(1) path_parent_comps by (metis option.distinct(1) plain_def)
    moreover have "insert_dirs_from d m = ?m'"
      using None k(2) by (simp add: insert_dirs_from.simps [of d m] Let_def)
    ultimately show ?thesis using here k(1) "1.prems"(2) by auto
  next
    case (Some e)
    then have nz: "comps d \<noteq> []" using "1.prems"(1) path_parent_no_comps by (auto simp: plain_def)
    then have e: "comps e = butlast (comps d)" "has_root e = has_root d" "no_dot e"
      using path_parent_comps [of d] Some "1.prems"(1) by (auto simp: plain_def)
    then have pe: "plain e" using "1.prems"(1) by (auto simp: plain_def dest: in_set_butlastD)
    have eq: "insert_dirs_from d m = insert_dirs_from e ?m'"
      using k(2) Some by (simp add: insert_dirs_from.simps [of d m] Let_def)
    show ?thesis
    proof (cases "cs = comps d")
      case True
      then show ?thesis using here k(1) eq insert_dirs_keep by force
    next
      case False
      then have "prefix cs (comps e)"
        using "1.prems"(2) nz e(1) by (metis append_butlast_last_id prefix_snoc)
      from "1.IH" [OF refl k(2) refl Some pe this] eq show ?thesis by simp
    qed
  qed
qed

section \<open>The tree invariant\<close>

definition dir_at :: "(string \<rightharpoonup> node) \<Rightarrow> string list \<Rightarrow> bool" where
  "dir_at m cs \<longleftrightarrow> (\<exists>nm. m (akey cs) = Some (NDir nm))"

definition tree_ok :: "(string \<rightharpoonup> node) \<Rightarrow> bool" where
  "tree_ok m \<longleftrightarrow> (\<forall>k nd. m k = Some nd \<longrightarrow> (\<exists>cs. seg_ok cs \<and> k = akey cs
     \<and> (cs \<noteq> [] \<longrightarrow> node_name nd = last cs \<and> dir_at m (butlast cs))))"

definition no_file_above :: "(string \<rightharpoonup> node) \<Rightarrow> string list \<Rightarrow> bool" where
  "no_file_above m cs \<longleftrightarrow> (\<forall>ds. strict_prefix ds cs \<longrightarrow> m (akey ds) = None \<or> dir_at m ds)"

lemma tree_okE:
  assumes "tree_ok m" "m k = Some nd"
  obtains cs where "seg_ok cs" "k = akey cs" "cs \<noteq> [] \<Longrightarrow> node_name nd = last cs" "cs \<noteq> [] \<Longrightarrow> dir_at m (butlast cs)"
  using assms unfolding tree_ok_def by meson

lemma tree_ok_empty: "tree_ok (map_of [])"
  by (simp add: tree_ok_def)

lemma seg_ok_prefix: "prefix ds cs \<Longrightarrow> seg_ok cs \<Longrightarrow> seg_ok ds"
  by (auto simp: seg_ok_def prefix_def)

lemma butlast_strict: "cs \<noteq> [] \<Longrightarrow> strict_prefix (butlast cs) cs"
  by (metis append_butlast_last_id not_Cons_self2 prefixeq_butlast self_append_conv strict_prefix_def)

lemma ancestors_old:
  assumes "plain p" "comps p \<noteq> []" "map_of (insert_ancestor_dirs m p) k = Some nd"
  shows "map_of m k = Some nd \<or> (map_of m k = None \<and> (\<exists>cs nm. strict_prefix cs (comps p) \<and> k = akey cs
    \<and> nd = NDir nm \<and> (cs \<noteq> [] \<longrightarrow> nm = last cs)))"
proof -
  obtain e where e: "path_parent p = Some e" "comps e = butlast (comps p)" "has_root e = has_root p" "no_dot e"
    using assms(1,2) by (auto simp: plain_def elim: path_parent_comps)
  then have pe: "plain e" using assms(1) by (auto simp: plain_def dest: in_set_butlastD)
  have "prefix cs (comps e) \<Longrightarrow> strict_prefix cs (comps p)" for cs
    using butlast_strict [OF assms(2)] e(2) by (metis prefix_order.le_less_trans)
  then show ?thesis
    using insert_dirs_old [OF pe, of m k nd] assms(3) e(1) by (auto simp: insert_ancestor_dirs_def)
qed

lemma ancestors_dirs:
  assumes "plain p" "comps p \<noteq> []" "no_file_above (map_of m) (comps p)" "strict_prefix ds (comps p)"
  shows "dir_at (map_of (insert_ancestor_dirs m p)) ds"
proof -
  obtain e where e: "path_parent p = Some e" "comps e = butlast (comps p)" "has_root e = has_root p" "no_dot e"
    using assms(1,2) by (auto simp: plain_def elim: path_parent_comps)
  then have pe: "plain e" using assms(1) by (auto simp: plain_def dest: in_set_butlastD)
  have ds: "prefix ds (comps e)"
    using assms(2,4) e(2) by (metis append_butlast_last_id prefix_snoc strict_prefix_def)
  then obtain x where x: "map_of (insert_ancestor_dirs m p) (akey ds) = Some x"
    using insert_dirs_new [OF pe ds] e(1) by (auto simp: insert_ancestor_dirs_def)
  have "map_of m (akey ds) = None \<or> dir_at (map_of m) ds"
    using assms(3,4) by (simp add: no_file_above_def)
  with ancestors_old [OF assms(1,2) x] x show ?thesis by (auto simp: dir_at_def)
qed

lemma no_file_above_update:
  assumes "plain p" "no_file_above m (comps p)"
  shows "no_file_above (m(normalize_key p := x)) (comps p)"
proof -
  have "akey ds \<noteq> normalize_key p" if "strict_prefix ds (comps p)" for ds
    using that seg_ok_prefix [of ds "comps p"] by (auto simp: normalize_plain [OF assms(1)] strict_prefix_def)
  then show ?thesis using assms(2) by (simp add: no_file_above_def dir_at_def)
qed

lemma tree_ok_insert:
  assumes "tree_ok (map_of m)" "plain p" "comps p \<noteq> []" "no_file_above (map_of m) (comps p)"
    and "dir_at (map_of m) (comps p) \<Longrightarrow> is_dir_node nd" "node_name nd = last (comps p)"
  shows "tree_ok (map_of (insert_ancestor_dirs (AList.update (normalize_key p) nd m) p))"
    (is "tree_ok ?M'")
  unfolding tree_ok_def
proof (intro allI impI)
  fix k nd'
  assume k: "?M' k = Some nd'"
  let ?M = "map_of (AList.update (normalize_key p) nd m)"
  have key: "normalize_key p = akey (comps p)" using assms(2) by (rule normalize_plain)
  have nf: "no_file_above ?M (comps p)"
    using no_file_above_update [OF assms(2,4)] by (simp only: map_of_update)
  have anc: "dir_at ?M' ds" if "strict_prefix ds (comps p)" for ds
    by (rule ancestors_dirs [OF assms(2,3) nf that])
  from ancestors_old [OF assms(2,3) k]
  consider (self) "k = akey (comps p)" "nd' = nd" | (old) "k \<noteq> akey (comps p)" "map_of m k = Some nd'"
    | (new) cs nm where "strict_prefix cs (comps p)" "k = akey cs" "nd' = NDir nm" "cs \<noteq> [] \<longrightarrow> nm = last cs"
    using key by (auto split: if_splits)
  then show "\<exists>cs. seg_ok cs \<and> k = akey cs \<and> (cs \<noteq> [] \<longrightarrow> node_name nd' = last cs \<and> dir_at ?M' (butlast cs))"
  proof cases
    case self
    then show ?thesis using assms(3,6) anc [OF butlast_strict [OF assms(3)]] seg_ok_comps by blast
  next
    case new
    have "strict_prefix (butlast cs) (comps p)" if "cs \<noteq> []"
      using butlast_strict [OF that] new(1) by (rule prefix_order.less_trans)
    moreover have "seg_ok cs" using seg_ok_prefix [of cs "comps p"] new(1) by (simp add: strict_prefix_def)
    ultimately show ?thesis using new anc by auto
  next
    case old
    from tree_okE [OF assms(1) old(2)] obtain cs where cs: "seg_ok cs" "k = akey cs"
      "cs \<noteq> [] \<Longrightarrow> node_name nd' = last cs" "cs \<noteq> [] \<Longrightarrow> dir_at (map_of m) (butlast cs)" by blast
    have "dir_at ?M' (butlast cs)" if nz: "cs \<noteq> []"
    proof -
      have "dir_at ?M (butlast cs)"
        using cs(4) [OF nz] assms(5) cs(1) key
        by (cases nd; cases "butlast cs = comps p") (auto simp: dir_at_def seg_ok_butlast)
      then show ?thesis using insert_ancestor_dirs_keep by (fastforce simp: dir_at_def)
    qed
    then show ?thesis using cs by blast
  qed
qed

lemma tree_ok_delete:
  assumes "tree_ok m" "\<And>k nd. m k = Some nd \<Longrightarrow> parent_key k = Some d \<Longrightarrow> k \<noteq> d \<Longrightarrow> dir_at m cs \<Longrightarrow> False"
    and "d = akey cs" "seg_ok cs"
  shows "tree_ok (m(d := None))"
  unfolding tree_ok_def
proof (intro allI impI)
  fix k nd
  assume k: "(m(d := None)) k = Some nd"
  then have mk: "m k = Some nd" "k \<noteq> d" by (auto split: if_splits)
  from tree_okE [OF assms(1) mk(1)] obtain es where es: "seg_ok es" "k = akey es"
    "es \<noteq> [] \<Longrightarrow> node_name nd = last es" "es \<noteq> [] \<Longrightarrow> dir_at m (butlast es)" by blast
  have "dir_at (m(d := None)) (butlast es)" if nz: "es \<noteq> []"
  proof (cases "butlast es = cs")
    case True
    then have "parent_key k = Some d"
      using es(1,2) nz assms(3,4) by (simp add: parent_key_iff)
    with assms(2) [OF mk(1)] mk(2) es(4) [OF nz] True show ?thesis by blast
  next
    case False
    then show ?thesis using es(4) [OF nz] es(1) assms(3,4) by (auto simp: dir_at_def seg_ok_butlast)
  qed
  with es show "\<exists>cs. seg_ok cs \<and> k = akey cs \<and> (cs \<noteq> [] \<longrightarrow> node_name nd = last cs \<and> dir_at (m(d := None)) (butlast cs))"
    by blast
qed

lemma not_has_child:
  "\<not> has_child d m \<Longrightarrow> map_of m k = Some nd \<Longrightarrow> parent_key k \<noteq> Some d"
  by (auto simp: has_child_def list_ex_iff dest: map_of_SomeD)

lemma tree_ok_prune: "tree_ok (map_of m) \<Longrightarrow> tree_ok (map_of (prune a m))"
proof (induction a m rule: prune.induct)
  case (2 dir m)
  show ?case
  proof (cases "\<exists>nm. map_of m dir = Some (NDir nm) \<and> \<not> has_child dir m")
    case True
    then obtain nm where nm: "map_of m dir = Some (NDir nm)" "\<not> has_child dir m" by blast
    from tree_okE [OF "2.prems" nm(1)] obtain cs where cs: "seg_ok cs" "dir = akey cs" by blast
    have "tree_ok (map_of (AList.delete dir m))"
      unfolding map_of_delete
      using not_has_child [OF nm(2)] cs by (intro tree_ok_delete [OF "2.prems"]) auto
    from "2.IH" [OF nm(1) refl nm(2) this] nm show ?thesis by simp
  next
    case False
    then show ?thesis using "2.prems" by (auto split: option.splits node.splits)
  qed
qed simp


section \<open>Every operation keeps the tree\<close>

abbreviation tree :: "'s memfs \<Rightarrow> string \<rightharpoonup> node" where
  "tree fs \<equiv> map_of (fs_entries fs)"

definition mountable :: "'s memfs \<Rightarrow> path \<Rightarrow> bool" where
  "mountable fs p \<longleftrightarrow> plain p \<and> comps p \<noteq> [] \<and> no_file_above (tree fs) (comps p)"

lemma fs_entries_add_ancestors [simp]:
  "fs_entries (add_ancestors p fs) = insert_ancestor_dirs (fs_entries fs) p"
  by (simp add: add_ancestors_def)

lemma insert_file_tree:
  assumes "tree_ok (tree fs)" "mountable fs p" "\<not> dir_at (tree fs) (comps p)"
  shows "tree_ok (tree (snd (memfs_insert_file p src t fs)))"
  using assms
  by (auto simp: memfs_insert_file_def Let_def mountable_def final_component_plain intro!: tree_ok_insert)

lemma insert_writable_tree:
  assumes "tree_ok (tree fs)" "mountable fs p" "\<not> dir_at (tree fs) (comps p)"
  shows "tree_ok (tree (snd (memfs_insert_writable p fs)))"
  using assms
  by (auto simp: memfs_insert_writable_def Let_def mountable_def final_component_plain arc_new_def
      intro!: tree_ok_insert)

lemma create_dir_tree:
  assumes "tree_ok (tree fs)" "mountable fs p" "memfs_create_dir p fs = (r, fs')"
  shows "tree_ok (tree fs')"
  using assms
  by (auto simp: memfs_create_dir_def Let_def mountable_def final_component_plain
      intro!: tree_ok_insert split: option.splits)

lemma entries_file_set_len: "file_set_len umax i len fs = (r, fs') \<Longrightarrow> fs_entries fs' = fs_entries fs"
  by (auto simp: file_set_len_def mem_put_def split: option.splits prod.splits)

lemma entries_finish_open_write:
  "finish_open_write umax opts i fs = (r, fs') \<Longrightarrow> fs_entries fs' = fs_entries fs"
  by (auto simp: finish_open_write_def entries_file_set_len split: if_splits prod.splits sum.splits)

lemma open_write_tree:
  assumes "tree_ok (tree fs)" "mountable fs p" "memfs_open_write umax p opts fs = (r, fs')"
  shows "tree_ok (tree fs')"
proof (cases "tree fs (normalize_key p) = None \<and> oo_creates opts")
  case True
  have "tree_ok (map_of (insert_ancestor_dirs
      (AList.update (normalize_key p) (NMem (fs_fresh fs) (final_component p)) (fs_entries fs)) p))"
    using assms(1,2) True
    by (intro tree_ok_insert) (auto simp: mountable_def final_component_plain dir_at_def normalize_plain)
  moreover have "fs_entries fs' = insert_ancestor_dirs
      (AList.update (normalize_key p) (NMem (fs_fresh fs) (final_component p)) (fs_entries fs)) p"
    using assms(3) True
    by (auto simp: memfs_open_write_def Let_def arc_new_def dest!: entries_finish_open_write)
  ultimately show ?thesis by simp
next
  case False
  then have "fs_entries fs' = fs_entries fs"
    using assms(3) by (auto simp: memfs_open_write_def Let_def split: option.splits node.splits if_splits
        dest!: entries_finish_open_write)
  with assms(1) show ?thesis by simp
qed

lemma remove_tree:
  assumes "tree_ok (tree fs)" "memfs_remove p fs = (r, fs')"
  shows "tree_ok (tree fs')"
proof (cases "fs_entries fs' = fs_entries fs")
  case False
  let ?k = "normalize_key p"
  obtain nd where nd: "tree fs ?k = Some nd" "is_dir_node nd \<Longrightarrow> \<not> has_child ?k (fs_entries fs)"
    and fs': "fs_entries fs' = AList.delete ?k (fs_entries fs)"
    using assms(2) False by (auto simp: memfs_remove_def Let_def split: option.splits node.splits if_splits)
  from tree_okE [OF assms(1) nd(1)] obtain cs where cs: "seg_ok cs" "?k = akey cs" by blast
  have "is_dir_node nd" if "dir_at (tree fs) cs" using that nd(1) cs(2) by (auto simp: dir_at_def)
  with nd(2) not_has_child have "tree_ok ((tree fs)(?k := None))"
    by (intro tree_ok_delete [OF assms(1) _ cs(2,1)]) blast
  then show ?thesis using fs' by (simp only: map_of_delete)
qed (use assms in simp)

lemma map_of_fold_remove:
  "tree (fold entry_remove ks fs) k = (if k \<in> set ks then None else tree fs k)"
  by (induction ks arbitrary: fs) auto

lemma remove_subtree_map:
  "tree (fold entry_remove (filter (in_subtree key) (map fst (fs_entries fs))) fs) =
     (\<lambda>k. if in_subtree key k then None else tree fs k)"
proof
  fix k
  have "in_subtree key k \<Longrightarrow> k \<notin> fst ` set (fs_entries fs) \<Longrightarrow> tree fs k = None"
    by (simp add: map_of_eq_None_iff)
  then show "tree (fold entry_remove (filter (in_subtree key) (map fst (fs_entries fs))) fs) k =
      (if in_subtree key k then None else tree fs k)"
    by (auto simp: map_of_fold_remove)
qed

lemma remove_subtree_tree:
  assumes "tree_ok (tree fs)" "seg_ok cs" "cs \<noteq> []"
  shows "tree_ok (tree (memfs_remove_subtree (akey cs) fs))"
proof -
  let ?fs1 = "fold entry_remove (filter (in_subtree (akey cs)) (map fst (fs_entries fs))) fs"
  have "tree_ok (tree ?fs1)"
    unfolding remove_subtree_map tree_ok_def
  proof (intro allI impI)
    fix k nd
    assume "(if in_subtree (akey cs) k then None else tree fs k) = Some nd"
    then have k: "\<not> in_subtree (akey cs) k" "tree fs k = Some nd" by (auto split: if_splits)
    from tree_okE [OF assms(1) k(2)] obtain es where es: "seg_ok es" "k = akey es"
      "es \<noteq> [] \<Longrightarrow> node_name nd = last es" "es \<noteq> [] \<Longrightarrow> dir_at (tree fs) (butlast es)" by blast
    have "\<not> in_subtree (akey cs) (akey (butlast es))"
      using k(1) es(1,2) assms(2,3) prefixeq_butlast [of es] prefix_order.order_trans
      by (auto simp: in_subtree_akey seg_ok_butlast)
    with es show "\<exists>es. seg_ok es \<and> k = akey es \<and> (es \<noteq> [] \<longrightarrow> node_name nd = last es \<and>
        dir_at (\<lambda>k. if in_subtree (akey cs) k then None else tree fs k) (butlast es))"
      by (auto simp: dir_at_def)
  qed
  then show ?thesis by (simp add: memfs_remove_subtree_def Let_def tree_ok_prune)
qed

section \<open>Directory listings\<close>

lemma dom_entries: "k \<in> fst ` set m \<longleftrightarrow> map_of m k \<noteq> None"
  by (simp add: map_of_eq_None_iff)

lemma children_of:
  assumes "tree_ok (map_of m)" "seg_ok cs" "cs \<noteq> []"
  shows "map_of m k = Some nd \<and> parent_key k = Some (akey cs) \<longleftrightarrow>
    (\<exists>c. seg_ok [c] \<and> k = akey (cs @ [c]) \<and> map_of m k = Some nd \<and> node_name nd = c)"
proof
  assume k: "map_of m k = Some nd \<and> parent_key k = Some (akey cs)"
  then obtain es where es: "seg_ok es" "k = akey es" "es \<noteq> [] \<Longrightarrow> node_name nd = last es"
    using tree_okE [OF assms(1), of k nd] by metis
  with k assms have "es \<noteq> []" "butlast es = cs" by (auto simp: parent_key_iff split: if_splits)
  then have "es = cs @ [last es]" by auto
  then show "\<exists>c. seg_ok [c] \<and> k = akey (cs @ [c]) \<and> map_of m k = Some nd \<and> node_name nd = c"
    using es k \<open>es \<noteq> []\<close> by (metis seg_ok_simps(3))
next
  assume "\<exists>c. seg_ok [c] \<and> k = akey (cs @ [c]) \<and> map_of m k = Some nd \<and> node_name nd = c"
  then show "map_of m k = Some nd \<and> parent_key k = Some (akey cs)"
    using assms(2) by (auto simp: parent_key_akey)
qed

lemma node_name_at:
  assumes "tree_ok m" "m (akey (cs @ [c])) = Some nd" "seg_ok (cs @ [c])"
  shows "node_name nd = c"
proof -
  from tree_okE [OF assms(1,2)] obtain es where "seg_ok es" "akey (cs @ [c]) = akey es"
    "es \<noteq> [] \<Longrightarrow> node_name nd = last es" by metis
  then show ?thesis using assms(3) by auto
qed

lemma distinct_child_names:
  assumes "tree_ok (map_of m)" "distinct (map fst m)" "seg_ok cs" "cs \<noteq> []"
  shows "distinct (map (\<lambda>(_, nd). node_name nd) (filter (\<lambda>(k, _). parent_key k = Some (akey cs)) m))"
proof -
  let ?l = "filter (\<lambda>(k, _). parent_key k = Some (akey cs)) m"
  have "distinct ?l" using assms(2) by (simp add: distinct_map)
  moreover have "inj_on (\<lambda>(_, nd). node_name nd) (set ?l)"
  proof (rule inj_onI, clarify)
    fix k nd k' nd'
    assume a: "(k, nd) \<in> set ?l" "(k', nd') \<in> set ?l" "node_name nd = node_name nd'"
    then have "map_of m k = Some nd \<and> parent_key k = Some (akey cs)"
      "map_of m k' = Some nd' \<and> parent_key k' = Some (akey cs)"
      using assms(2) by auto
    then show "k = k' \<and> nd = nd'" using a(3) unfolding children_of [OF assms(1,3,4)] by auto
  qed
  ultimately show ?thesis by (simp add: distinct_map)
qed

text \<open>Listing a directory below the root returns one entry per child and nothing else, each
  with the child's name and metadata, sorted by name and without duplicates, and changes
  nothing.\<close>

theorem read_dir_lists_children:
  assumes "tree_ok (tree fs)" "distinct (map fst (fs_entries fs))" "plain p" "comps p \<noteq> []"
    and "dir_at (tree fs) (comps p)"
  shows "\<exists>es. memfs_read_dir p fs = (Some (Inr es), fs)
    \<and> sorted (map de_name es) \<and> distinct (map de_name es)
    \<and> set es = {\<lparr>de_name = c, de_metadata = node_metadata nd fs\<rparr> | c nd.
         seg_ok [c] \<and> tree fs (akey (comps p @ [c])) = Some nd}"
proof -
  let ?mk = "\<lambda>(_ :: string, nd). \<lparr>de_name = node_name nd, de_metadata = node_metadata nd fs\<rparr>"
  let ?l = "filter (\<lambda>(k, _). parent_key k = Some (akey (comps p))) (fs_entries fs)"
  let ?es = "sort_key de_name (map ?mk ?l)"
  have r: "memfs_read_dir p fs = (Some (Inr ?es), fs)"
    using assms(5) by (auto simp: memfs_read_dir_def normalize_plain [OF assms(3)] dir_at_def Let_def)
  have "map de_name (map ?mk ?l) = map (\<lambda>(_, nd). node_name nd) ?l" by (simp add: split_def)
  then have "distinct (map de_name (map ?mk ?l))"
    using distinct_child_names [OF assms(1,2) seg_ok_comps assms(4)] by (simp only:)
  then have d: "distinct (map de_name ?es)" by (simp only: distinct_map set_sort distinct_sort)
  have mem: "(k, nd) \<in> set ?l \<longleftrightarrow>
      (\<exists>c. seg_ok [c] \<and> k = akey (comps p @ [c]) \<and> tree fs k = Some nd \<and> node_name nd = c)" for k nd
    using children_of [OF assms(1) seg_ok_comps assms(4), of k nd] assms(2) by auto
  have "set ?es = ?mk ` set ?l" by simp
  also have "\<dots> = {\<lparr>de_name = c, de_metadata = node_metadata nd fs\<rparr> | c nd.
      seg_ok [c] \<and> tree fs (akey (comps p @ [c])) = Some nd}" (is "?L = ?R")
  proof
    show "?L \<subseteq> ?R"
    proof (rule image_subsetI, clarify)
      fix k nd
      assume "(k, nd) \<in> set ?l"
      then show "\<exists>c nd'. \<lparr>de_name = node_name nd, de_metadata = node_metadata nd fs\<rparr> =
          \<lparr>de_name = c, de_metadata = node_metadata nd' fs\<rparr> \<and> seg_ok [c] \<and> tree fs (akey (comps p @ [c])) = Some nd'"
        unfolding mem by auto
    qed
    show "?R \<subseteq> ?L"
    proof clarify
      fix c nd
      assume c: "seg_ok [c]" "tree fs (akey (comps p @ [c])) = Some nd"
      then have nm: "node_name nd = c" using node_name_at [OF assms(1) c(2)] by simp
      then have "(akey (comps p @ [c]), nd) \<in> set ?l" unfolding mem using c by blast
      then show "\<lparr>de_name = c, de_metadata = node_metadata nd fs\<rparr> \<in> ?L"
        by (rule rev_image_eqI) (simp add: nm)
    qed
  qed
  finally show ?thesis using r d by (intro exI [of _ ?es]) simp
qed

text \<open>A small tree: the directory \<^verbatim>\<open>/d/x\<close> created on an empty volume.\<close>

definition demo_tree :: "(mem_file \<times> u64) memfs" where
  "demo_tree = snd (memfs_create_dir ''/d/x'' (memfs_with_capacity 0 10))"

lemma demo_tree_entries:
  "fs_entries demo_tree = [(''/d/x'', NDir ''x''), (''/d'', NDir ''d''), (''/'', NDir ''/'')]"
  by code_simp

lemma demo_plain: "plain ''/d/x''" "plain ''/d''" "plain ''/e''" "comps ''/d/x'' = [''d'', ''x'']"
  "comps ''/d'' = [''d'']" "comps ''/e'' = [''e'']" "akey [''d''] = ''/d''" "akey [''d'', ''x''] = ''/d/x''"
  "akey [] = ''/''" "akey [''e''] = ''/e''"
  unfolding plain_def no_dot_def by code_simp+

lemma demo_tree_ok: "tree_ok (tree demo_tree)" "distinct (map fst (fs_entries demo_tree))"
  "dir_at (tree demo_tree) [''d'']"
proof -
  let ?fs = "memfs_with_capacity 0 10 :: (mem_file \<times> u64) memfs"
  have e: "tree ?fs = Map.empty" by (simp add: memfs_with_capacity_def)
  have "tree_ok (tree ?fs)" "mountable ?fs ''/d/x''"
    unfolding e mountable_def using demo_plain by (auto simp: tree_ok_def no_file_above_def)
  from create_dir_tree [OF this] show "tree_ok (tree demo_tree)"
    unfolding demo_tree_def by (metis prod.collapse)
  show "distinct (map fst (fs_entries demo_tree))" "dir_at (tree demo_tree) [''d'']"
    by (simp_all add: demo_tree_entries dir_at_def demo_plain)
qed

theorem read_dir_lists_children_witness:
  "\<exists>es. memfs_read_dir ''/d'' demo_tree = (Some (Inr es), demo_tree)
     \<and> \<lparr>de_name = ''x'', de_metadata = metadata_dir\<rparr> \<in> set es"
proof -
  have "SEP \<notin> set ''x''" by code_simp
  then have "tree demo_tree (akey ([''d''] @ [''x''])) = Some (NDir ''x'')" "seg_ok [''x'']"
    by (simp_all add: demo_tree_entries demo_plain)
  moreover have "node_metadata (NDir ''x'') demo_tree = metadata_dir" by (simp add: node_metadata_def)
  ultimately show ?thesis
    using read_dir_lists_children [of demo_tree "''/d''"] demo_tree_ok demo_plain by force
qed

end
