(* ===== verification/Unix_Shims.thy ===== *)
theory Unix_Shims
  imports Unix_Files Unix_Paths Memory_Tree
begin

text \<open>
  What the Linux shims guarantee: calls that do not concern the virtual tree behave exactly as the
  originals, calls that do never reach the operating system, a read-only installation refuses every
  mutation, directory streams enumerate the listing once, the virtual working directory is
  consistent, and buffers are never overrun.
\<close>

section \<open>Routing\<close>

named_theorems routing

lemma shim_eq [simp]: "shim fallback body t = body t"
  by (simp add: shim_def guard_abi_def case_prod_beta)

lemma call_orig_flag: "call_orig lc s args (t\<lparr>t_in_hook := b\<rparr>) =
    (fst (call_orig lc s args t), (snd (call_orig lc s args t))\<lparr>t_in_hook := b\<rparr>)"
  by (simp add: call_orig_def case_prod_beta)

lemma call_orig_keeps [simp]:
  "t_in_hook (snd (call_orig lc s args t)) = t_in_hook t" "t_disp (snd (call_orig lc s args t)) = t_disp t"
  "t_dirs (snd (call_orig lc s args t)) = t_dirs t" "t_cookies (snd (call_orig lc s args t)) = t_cookies t"
  "t_brk (snd (call_orig lc s args t)) = t_brk t"
  by (simp_all add: call_orig_def case_prod_beta)

lemma thread_flag_id [simp]: "t\<lparr>t_in_hook := t_in_hook t\<rparr> = t"
  by simp

lemma hooked_simps:
  "t_in_hook t \<Longrightarrow> hooked pass body t = pass t"
  "\<not> t_in_hook t \<Longrightarrow> hooked pass body t =
     (fst (body (t\<lparr>t_in_hook := True\<rparr>)), (snd (body (t\<lparr>t_in_hook := True\<rparr>)))\<lparr>t_in_hook := False\<rparr>)"
  by (simp_all add: hooked_def hook_enter_def hook_leave_def case_prod_beta)

text \<open>Inside the scope a call that passes through is the original call.\<close>

lemma hooked_pass:
  assumes "\<not> t_in_hook t \<Longrightarrow> body (t\<lparr>t_in_hook := True\<rparr>) = call_orig lc s args (t\<lparr>t_in_hook := True\<rparr>)"
  shows "hooked (call_orig lc s args) body t = call_orig lc s args t"
proof (cases "t_in_hook t")
  case False
  obtain r m where o: "lc_orig lc s args (t_mach t) = (r, m)" by fastforce
  have "(t\<lparr>t_in_hook := True, t_mach := m\<rparr>)\<lparr>t_in_hook := False\<rparr> = t\<lparr>t_mach := m\<rparr>" using False by (cases t) simp
  then show ?thesis using False assms by (simp add: hooked_simps call_orig_def o)
qed (simp add: hooked_simps)

lemma route_path_flag [simp]: "route_path d (t\<lparr>t_in_hook := b\<rparr>) = route_path d t"
  by (simp add: route_path_def)

lemma touches_flag [simp]: "touches p (t\<lparr>t_in_hook := b\<rparr>) = touches p t"
  by (simp add: touches_def split: option.split)

lemma touches_iff:
  "touches path t \<longleftrightarrow> (\<exists>d e. decode_cstr path = Some d \<and> current_engine (t_disp t) = Some e
     \<and> (classify e d = Rejected \<or> (\<exists>p. classify e d = Virtual p)))"
  by (auto simp: touches_def route_path_def split: option.splits route.splits)

lemma path_routed_pass [routing]:
  assumes "t_in_hook t \<or> \<not> touches path t"
  shows "path_routed (call_orig lc s args) path reject serve t = call_orig lc s args t"
  unfolding path_routed_def
  by (rule hooked_pass) (use assms in \<open>auto simp: touches_def split: option.splits route.splits\<close>)

lemma engine_routed_pass:
  assumes "\<And>e. current_engine (t_disp t) = Some e \<Longrightarrow> serve e (t\<lparr>t_in_hook := True\<rparr>) = call_orig lc s args (t\<lparr>t_in_hook := True\<rparr>)"
  shows "engine_routed (call_orig lc s args) serve t = call_orig lc s args t"
  unfolding engine_routed_def by (rule hooked_pass) (use assms in \<open>auto split: option.splits\<close>)

definition virtual_fd :: "('v, 'h, 'c, 'w) thread \<Rightarrow> int \<Rightarrow> 'h open_file option" where
  "virtual_fd t fd =
     (case current_engine (t_disp t) of None \<Rightarrow> None | Some e \<Rightarrow> get_file (eng_registry e) (as_usize fd))"

lemma fd_routed_pass [routing]:
  assumes "t_in_hook t \<or> virtual_fd t fd = None"
  shows "fd_routed (call_orig lc s args) fd serve t = call_orig lc s args t"
proof (cases "t_in_hook t")
  case True
  then show ?thesis by (simp add: fd_routed_def engine_routed_def hooked_simps)
next
  case False
  with assms show ?thesis
    unfolding fd_routed_def by (intro engine_routed_pass) (simp add: virtual_fd_def)
qed

lemma in_hook_pass: "t_in_hook t \<Longrightarrow> engine_routed pass serve t = pass t"
  by (simp add: engine_routed_def hooked_simps)

lemma ftruncate_pass:
  "t_in_hook t \<or> virtual_fd t fd = None \<Longrightarrow>
     engine_routed (call_orig lc s args) (\<lambda>e. ftruncate_fd ops e fd len (call_orig lc s args)) t = call_orig lc s args t"
  by (cases "t_in_hook t") (auto simp: in_hook_pass ftruncate_fd_def virtual_fd_def intro!: engine_routed_pass)

lemma fchmod_pass:
  "t_in_hook t \<or> virtual_fd t fd = None \<Longrightarrow> shim_fchmod lc fd mode t = call_orig lc Fchmod [CInt fd, CInt mode] t"
  unfolding shim_fchmod_def shim_eq
  by (cases "t_in_hook t") (auto simp: in_hook_pass deny_write_fd_def virtual_fd_def intro!: engine_routed_pass)

lemma fstat_pass:
  "t_in_hook t \<or> virtual_fd t fd = None \<Longrightarrow> shim_fstat ops lc fd buf t = call_orig lc Fstat [CInt fd, CPtr buf] t"
  unfolding shim_fstat_def shim_eq fstat_fd_def
  by (cases "t_in_hook t") (auto simp: in_hook_pass virtual_fd_meta_def virtual_fd_def intro!: engine_routed_pass)

lemma close_pass:
  "t_in_hook t \<or> virtual_fd t fd = None \<Longrightarrow> shim_close ops lc fd t = call_orig lc Close [CInt fd] t"
  unfolding shim_close_def shim_eq
  by (cases "t_in_hook t") (auto simp: in_hook_pass remove_file_def get_file_def virtual_fd_def intro!: engine_routed_pass)

lemma path_routed_serve:
  assumes "\<not> t_in_hook t" "decode_cstr path = Some d" "current_engine (t_disp t) = Some e" "classify e d = Virtual p"
  shows "path_routed pass path reject serve t =
    (fst (serve e p (t\<lparr>t_in_hook := True\<rparr>)), (snd (serve e p (t\<lparr>t_in_hook := True\<rparr>)))\<lparr>t_in_hook := False\<rparr>)"
  using assms by (simp add: path_routed_def hooked_simps route_path_def)

lemma path_routed_reject:
  assumes "\<not> t_in_hook t" "decode_cstr path = Some d" "current_engine (t_disp t) = Some e" "classify e d = Rejected"
  shows "path_routed pass path reject serve t =
    (fst (reject (t\<lparr>t_in_hook := True\<rparr>)), (snd (reject (t\<lparr>t_in_hook := True\<rparr>)))\<lparr>t_in_hook := False\<rparr>)"
  using assms by (simp add: path_routed_def hooked_simps route_path_def)

lemma fd_routed_serve:
  assumes "\<not> t_in_hook t" "current_engine (t_disp t) = Some e" "get_file (eng_registry e) (as_usize fd) = Some file"
  shows "fd_routed pass fd serve t =
    (fst (serve e file (t\<lparr>t_in_hook := True\<rparr>)), (snd (serve e file (t\<lparr>t_in_hook := True\<rparr>)))\<lparr>t_in_hook := False\<rparr>)"
  using assms by (simp add: fd_routed_def engine_routed_def hooked_simps)

section \<open>Calls that stay inside\<close>

text \<open>The part of the thread that belongs to the operating system.\<close>

abbreviation world :: "('v, 'h, 'c, 'w) thread \<Rightarrow> 'w" where
  "world t \<equiv> mc_world (t_mach t)"

lemma world_simps [simp]:
  "world (set_errno c t) = world t" "world (put_engine e t) = world t" "world (put_vfs e v t) = world t"
  "world (put_stream e fd file st v t) = world t" "world (store_bytes buf bs t) = world t"
  "world (store_struct buf c' t) = world t"
  by (simp_all add: set_errno_def put_engine_def put_vfs_def put_stream_def store_bytes_def store_struct_def)

lemma world_fail [simp]: "world (snd (fail c r t)) = world t"
  by (simp add: fail_def)

lemma world_result [simp]: "world (snd (mutation_result_errno res t)) = world t"
  by (cases res) (simp_all add: mutation_result_errno_def)

lemma path_routed_inside [routing]:
  assumes "\<not> t_in_hook t" "touches path t" "\<And>t. world (snd (reject t)) = world t"
    and "\<And>e p t. world (snd (serve e p t)) = world t"
  shows "world (snd (path_routed pass path reject serve t)) = world t"
proof -
  obtain d e where d: "decode_cstr path = Some d" "current_engine (t_disp t) = Some e"
    and c: "classify e d = Rejected \<or> (\<exists>p. classify e d = Virtual p)" using assms(2) by (auto simp: touches_iff)
  from c show ?thesis
  proof
    assume "classify e d = Rejected"
    from path_routed_reject [OF assms(1) d this] assms(3) show ?thesis by simp
  next
    assume "\<exists>p. classify e d = Virtual p"
    then obtain p where "classify e d = Virtual p" by blast
    from path_routed_serve [OF assms(1) d this] assms(4) show ?thesis by simp
  qed
qed

lemma mutate_path_inside:
  "\<not> t_in_hook t \<Longrightarrow> touches path t \<Longrightarrow> world (snd (mutate_path path mut pass t)) = world t"
  unfolding mutate_path_def by (rule path_routed_inside) (auto split: prod.splits option.splits)

lemma deny_mutate_path_inside:
  "\<not> t_in_hook t \<Longrightarrow> touches path t \<Longrightarrow> world (snd (deny_mutate_path path pass t)) = world t"
  unfolding deny_mutate_path_def by (rule path_routed_inside) auto

lemma fill_world [simp]:
  "world (fill_stat lc buf p meta t) = world t" "world (fill_stat64 lc buf p meta t) = world t"
  "world (fill_statx lc buf p meta t) = world t" "world (fill_statvfs buf info t) = world t"
  by (auto simp: fill_stat_def fill_stat64_def fill_statx_def fill_statvfs_def Let_def split: prod.splits)

lemma stat_path_inside:
  assumes "\<not> t_in_hook t" "touches path t" "\<And>p meta t. world (fill p meta t) = world t"
  shows "world (snd (stat_path ops path pass fill t)) = world t"
  unfolding stat_path_def
  by (rule path_routed_inside) (use assms in \<open>auto split: prod.splits option.splits\<close>)

lemma access_inside:
  "\<not> t_in_hook t \<Longrightarrow> touches path t \<Longrightarrow> world (snd (access_common ops path mode pass t)) = world t"
  unfolding access_common_def by (rule path_routed_inside) (auto split: prod.splits)

lemma opendir_inside:
  assumes "\<not> t_in_hook t" "touches path t"
  shows "world (snd (shim_opendir ops lc path t)) = world t"
  unfolding shim_opendir_def shim_eq
  by (rule path_routed_inside) (use assms in \<open>auto split: prod.splits option.splits sum.splits\<close>)

lemma statvfs_inside:
  assumes "\<not> t_in_hook t" "touches path t"
  shows "world (snd (shim_statvfs ops lc path buf t)) = world t"
  unfolding shim_statvfs_def shim_eq
  by (rule path_routed_inside) (use assms in \<open>auto split: prod.splits\<close>)

lemma readlink_inside:
  assumes "\<not> t_in_hook t" "touches path t"
  shows "world (snd (shim_readlink lc path buf n t)) = world t"
  unfolding shim_readlink_def shim_eq
  by (rule path_routed_inside) (use assms in auto)

lemma deny_mutate_two_inside:
  "\<not> t_in_hook t \<Longrightarrow> touches from t \<or> touches to t \<Longrightarrow> world (snd (deny_mutate_two from to pass t)) = world t"
  by (auto simp: deny_mutate_two_def hooked_simps)

lemma rename_inside:
  assumes "\<not> t_in_hook t" "touches from t \<or> decode_cstr from \<noteq> None \<and> touches to t"
  shows "world (snd (shim_rename ops lc from to t)) = world t"
  using assms
  by (auto simp: shim_rename_def hooked_simps Let_def touches_def split: option.splits route.splits prod.splits)

lemma chdir_inside:
  assumes "\<not> t_in_hook t" "touches path t"
  shows "world (snd (shim_chdir ops lc path t)) = world t"
  using assms
  by (auto simp: shim_chdir_def hooked_simps Let_def touches_def split: option.splits route.splits prod.splits)

section \<open>Refusals\<close>

text \<open>A refused call sets \<open>errno\<close> and changes nothing else.\<close>

lemma flag_roundtrip: "\<not> t_in_hook t \<Longrightarrow> (set_errno c (t\<lparr>t_in_hook := True\<rparr>))\<lparr>t_in_hook := False\<rparr> = set_errno c t"
  by (cases t) (simp add: set_errno_def)

lemma path_routed_fail:
  assumes "\<not> t_in_hook t" "decode_cstr path = Some d" "current_engine (t_disp t) = Some e" "classify e d = Virtual p"
    and "\<And>t. serve e p t = fail c r t"
  shows "path_routed pass path reject serve t = (r, set_errno c t)"
  using path_routed_serve [OF assms(1-4)] assms(1,5) by (simp add: fail_def flag_roundtrip)

lemma fd_routed_fail:
  assumes "\<not> t_in_hook t" "virtual_fd t fd = Some file" "\<And>e t. serve e file t = fail c r t"
  shows "fd_routed pass fd serve t = (r, set_errno c t)"
proof -
  obtain e where "current_engine (t_disp t) = Some e" "get_file (eng_registry e) (as_usize fd) = Some file"
    using assms(2) by (auto simp: virtual_fd_def split: option.splits)
  from fd_routed_serve [OF assms(1) this] assms(1,3) show ?thesis by (simp add: fail_def flag_roundtrip)
qed

lemma engine_routed_fail:
  assumes "\<not> t_in_hook t" "current_engine (t_disp t) = Some e" "\<And>t. serve e t = fail c r t"
  shows "engine_routed pass serve t = (r, set_errno c t)"
  using assms by (simp add: engine_routed_def hooked_simps fail_def flag_roundtrip)

section \<open>Names in directory entries\<close>

text \<open>What C reads from a character array: the bytes before the first NUL.\<close>

definition c_string :: "string \<Rightarrow> string" where
  "c_string cs = takeWhile (\<lambda>c. c \<noteq> NUL) cs"

lemma write_dname_reads:
  assumes "dst \<noteq> []" "NUL \<notin> set name"
  shows "c_string (fst (write_dname dst name)) = take (length dst - 1) name"
    and "length (fst (write_dname dst name)) = length dst"
proof -
  let ?n = "min (length name) (length dst - 1)"
  have n: "?n < length dst" using assms(1) by (cases dst) auto
  have "\<forall>c \<in> set (take ?n name). c \<noteq> NUL" using assms(2) by (auto dest: in_set_takeD)
  then have "takeWhile (\<lambda>c. c \<noteq> NUL) (take ?n name @ NUL # drop (Suc ?n) dst) = take ?n name"
    by (simp add: takeWhile_append2)
  moreover have "take ?n name = take (length dst - 1) name" by (simp add: min_def)
  ultimately show "c_string (fst (write_dname dst name)) = take (length dst - 1) name"
    using n by (simp add: write_dname_def c_string_def Let_def)
  show "length (fst (write_dname dst name)) = length dst" using n by (simp add: write_dname_def Let_def)
qed

lemma readdir_step:
  assumes "\<not> t_in_hook t" "current_engine (t_disp t) = Some e" "contains_dir (eng_registry e) dirp"
    and "map_of (t_dirs t) dirp = Some dir"
  shows "shim_readdir lc dirp t =
    (if vd_next dir < length (vd_entries dir) then
       (int dirp, t\<lparr>t_dirs := AList.update dirp
          (dir\<lparr>vd_next := Suc (vd_next dir),
               vd_dirent := fill_dirent lc (vd_entries dir ! vd_next dir) (vd_dirent dir) (vd_next dir)\<rparr>) (t_dirs t)\<rparr>)
     else (0, t))"
  using assms by (cases t) (simp add: shim_readdir_def readdir_next_def engine_routed_def hooked_simps Let_def)

text \<open>The loop of a client: read entries until the null pointer, at most \<open>n\<close> calls.  The answer is the
  list of names and whether the end was seen.\<close>

fun list_dir :: "'w libc \<Rightarrow> nat \<Rightarrow> nat \<Rightarrow> ('v, 'h, 'c, 'w) thread \<Rightarrow> string list \<times> bool" where
  "list_dir lc dirp 0 t = ([], False)"
| "list_dir lc dirp (Suc n) t =
     (case shim_readdir lc dirp t of
        (r, t') \<Rightarrow>
          if r = 0 then ([], True)
          else
            (case map_of (t_dirs t') dirp of
               None \<Rightarrow> ([], False)
             | Some dir \<Rightarrow>
                 (case list_dir lc dirp n t' of (names, fin) \<Rightarrow> (c_string (d_name (vd_dirent dir)) # names, fin))))"

lemma list_dir_rest:
  assumes "\<not> t_in_hook t" "current_engine (t_disp t) = Some e" "contains_dir (eng_registry e) dirp"
    and "map_of (t_dirs t) dirp = Some dir" "dirp \<noteq> 0" "length (d_name (vd_dirent dir)) = DNAME_LEN"
    and "\<forall>x \<in> set (vd_entries dir). NUL \<notin> set (de_name x)" "length (vd_entries dir) - vd_next dir < n"
  shows "list_dir lc dirp n t = (map (\<lambda>x. take 255 (de_name x)) (drop (vd_next dir) (vd_entries dir)), True)"
  using assms
proof (induction n arbitrary: t dir)
  case (Suc n)
  note step = readdir_step [OF Suc.prems(1-4), of lc]
  show ?case
  proof (cases "vd_next dir < length (vd_entries dir)")
    case True
    let ?x = "vd_entries dir ! vd_next dir"
    let ?dir = "dir\<lparr>vd_next := Suc (vd_next dir), vd_dirent := fill_dirent lc ?x (vd_dirent dir) (vd_next dir)\<rparr>"
    let ?t = "t\<lparr>t_dirs := AList.update dirp ?dir (t_dirs t)\<rparr>"
    have nul: "NUL \<notin> set (de_name ?x)" using Suc.prems(7) True by simp
    have ne: "d_name (vd_dirent dir) \<noteq> []" using Suc.prems(6) by (auto simp: DNAME_LEN_def)
    note W = write_dname_reads [OF ne nul]
    have m: "map_of (t_dirs ?t) dirp = Some ?dir" by (simp add: update_conv)
    have "list_dir lc dirp n ?t = (map (\<lambda>x. take 255 (de_name x)) (drop (vd_next ?dir) (vd_entries ?dir)), True)"
      by (rule Suc.IH) (use Suc.prems m W(2) True in \<open>simp_all add: fill_dirent_def\<close>)
    moreover have "c_string (d_name (vd_dirent ?dir)) = take 255 (de_name ?x)"
      using W(1) Suc.prems(6) by (simp add: fill_dirent_def DNAME_LEN_def)
    moreover have "drop (vd_next dir) (vd_entries dir) = ?x # drop (Suc (vd_next dir)) (vd_entries dir)"
      using True by (simp add: Cons_nth_drop_Suc)
    ultimately show ?thesis using step True m Suc.prems(5) by simp
  next
    case False
    then show ?thesis using step by simp
  qed
qed simp

section \<open>Buffers\<close>

text \<open>The memory of the thread.\<close>

abbreviation tmem :: "('v, 'h, 'c, 'w) thread \<Rightarrow> nat \<Rightarrow> byte" where
  "tmem t \<equiv> mc_mem (t_mach t)"

lemma tmem_simps [simp]:
  "tmem (set_errno c t) = tmem t" "tmem (put_engine e t) = tmem t" "tmem (put_vfs e v t) = tmem t"
  "tmem (put_stream e fd file st v t) = tmem t" "tmem (store_bytes buf bs t) = write_mem buf bs (tmem t)"
  by (simp_all add: set_errno_def put_engine_def put_vfs_def put_stream_def store_bytes_def)

lemma tmem_fail [simp]: "tmem (snd (fail c r t)) = tmem t"
  by (simp add: fail_def)

lemma write_mem_other: "a < buf \<or> buf + length bs \<le> a \<Longrightarrow> write_mem buf bs m a = m a"
  by (auto simp: write_mem_def)

lemma write_mem_read: "map (write_mem buf bs m) [buf ..< buf + length bs] = bs"
  by (rule nth_equalityI) (auto simp: write_mem_def)

lemma at_offset_fits:
  assumes "reads_fit ops" "at_offset ops (\<lambda>s v. os_read ops s n v) off s v = (Inr bs, s', v')"
  shows "length bs \<le> n"
proof -
  obtain r s1 v1 where 1: "os_position ops s v = (r, s1, v1)" by (metis prod_cases3)
  obtain saved where r: "r = Inr saved" using assms(2) 1 by (cases r) (auto simp: at_offset_def)
  obtain q s2 v2 where 2: "os_seek ops s1 (Start off) v1 = (q, s2, v2)" by (metis prod_cases3)
  obtain u where q: "q = Inr u" using assms(2) 1 r 2 by (cases q) (auto simp: at_offset_def split: prod.splits)
  obtain s3 v3 where "os_read ops s2 n v2 = (Inr bs, s3, v3)"
    using assms(2) 1 r 2 q by (auto simp: at_offset_def split: prod.splits)
  with assms(1) show ?thesis by (rule os_read_fits)
qed

lemma readv_loop_fits:
  assumes "reads_fit ops" "readv_loop ops iov tot s v m = (r, s', v', m')"
    and "\<forall>(base, len) \<in> set iov. a < base \<or> base + len \<le> a"
  shows "m' a = m a"
  using assms(2,3)
proof (induction iov arbitrary: tot s v m)
  case (Cons x iov)
  obtain base len where x: "x = (base, len)" by (cases x)
  show ?case
  proof (cases "len = 0 \<or> base = 0")
    case True
    with Cons x show ?thesis by simp
  next
    case False
    obtain q s1 v1 where o: "os_read ops s len v = (q, s1, v1)" by (metis prod_cases3)
    show ?thesis
    proof (cases q)
      case (Inl err)
      with Cons.prems o x False show ?thesis by (auto split: if_splits)
    next
      case (Inr bs)
      have "length bs \<le> len" using os_read_fits [OF assms(1)] o Inr by blast
      then have w: "write_mem base bs m a = m a" using Cons.prems(2) x by (intro write_mem_other) auto
      from Cons.prems(1) o x False Inr
      consider "m' = m" | "m' = write_mem base bs m"
        | "readv_loop ops iov (tot + as_ssize (length bs)) s1 v1 (write_mem base bs m) = (r, s', v', m')"
        by (auto simp: Let_def split: if_splits)
      then show ?thesis
      proof cases
        case 3
        from Cons.IH [OF this] Cons.prems(2) w show ?thesis by simp
      qed (use w in auto)
    qed
  qed
qed simp

lemma fd_routed_mem:
  assumes "\<not> t_in_hook t" "virtual_fd t fd = Some file" "\<And>e t'. tmem t' = tmem t \<Longrightarrow> tmem (snd (serve e file t')) a = tmem t a"
  shows "tmem (snd (fd_routed pass fd serve t)) a = tmem t a"
proof -
  obtain e where "current_engine (t_disp t) = Some e" "get_file (eng_registry e) (as_usize fd) = Some file"
    using assms(2) by (auto simp: virtual_fd_def split: option.splits)
  from fd_routed_serve [OF assms(1) this] assms(3) show ?thesis by simp
qed

section \<open>A demonstration thread\<close>

text \<open>An engine that serves the directory \<^verbatim>\<open>/d\<close> of an in-memory filesystem read-only, on a C library
  whose world counts the calls that reach it.\<close>

definition demo_libc :: "nat libc" where
  "demo_libc = \<lparr>lc_orig = (\<lambda>s args m. (3, m\<lparr>mc_world := Suc (mc_world m)\<rparr>)),
     lc_fopencookie = (\<lambda>_ _ _ m. (500, m)), lc_malloc = (\<lambda>_ m. (900, m)), lc_hash = length\<rparr>"

abbreviation demo_ops :: "((mem_file \<times> u64) memfs, handle) vfs_ops" where
  "demo_ops \<equiv> memory_fs_ops (mem_handle_ops U64_MAX) U64_MAX"

definition demo_engine :: "((mem_file \<times> u64) memfs, handle) engine" where
  "demo_engine = engine_new demo_tree (from_root ''/d'') False"

definition demo_thread :: "((mem_file \<times> u64) memfs, handle, unit, nat) thread" where
  "demo_thread = \<lparr>t_disp = (dispatch_init 0)\<lparr>d_active := Some (demo_engine, 1)\<rparr>, t_in_hook = False,
     t_mach = \<lparr>mc_mem = \<lambda>_. 0, mc_structs = Map.empty, mc_errno = 0, mc_world = 0\<rparr>,
     t_cookies = [], t_dirs = [], t_brk = 1000\<rparr>"

definition cstr :: "string \<Rightarrow> string option" where
  "cstr x = Some (x @ [NUL])"

lemma decode_cstr_literal:
  "NUL \<notin> set x \<Longrightarrow> length x < MAX_CSTR \<Longrightarrow> from_utf8_lossy x = x \<Longrightarrow> decode_cstr (cstr x) = Some x"
  using scan_cstr_spec [of MAX_CSTR x "[]" "[]"] by (simp add: decode_cstr_def cstr_def)

lemma demo_decode:
  "decode_cstr (cstr ''/d/x'') = Some ''/d/x''" "decode_cstr (cstr ''/tmp'') = Some ''/tmp''"
  "decode_cstr (cstr ''/d'') = Some ''/d''" "decode_cstr (cstr ''x'') = Some ''x''"
proof -
  have u: "from_utf8_lossy ''/d/x'' = ''/d/x''" "from_utf8_lossy ''/tmp'' = ''/tmp''" "from_utf8_lossy ''/d'' = ''/d''"
    "from_utf8_lossy ''x'' = ''x''" by code_simp+
  show "decode_cstr (cstr ''/d/x'') = Some ''/d/x''" "decode_cstr (cstr ''/tmp'') = Some ''/tmp''"
    "decode_cstr (cstr ''/d'') = Some ''/d''" "decode_cstr (cstr ''x'') = Some ''x''"
    by (rule decode_cstr_literal; simp add: u MAX_CSTR_def NUL_def del: from_utf8_lossy.simps)+
qed

lemma demo_classify:
  "classify demo_engine ''/d/x'' = Virtual ''/d/x''" "classify demo_engine ''/tmp'' = Real"
  "classify demo_engine ''/d'' = Virtual ''/d''"
  by (code_simp, code_simp, code_simp)

lemma demo_current: "current_engine (t_disp demo_thread) = Some demo_engine" "\<not> t_in_hook demo_thread"
  by (simp_all add: demo_thread_def current_engine_def)

lemma demo_touches: "touches (cstr ''/d/x'') demo_thread" "\<not> touches (cstr ''/tmp'') demo_thread" "touches (cstr ''/d'') demo_thread"
  by (simp_all add: touches_iff demo_decode demo_current demo_classify)

text \<open>The same thread with a read-only carrier open as descriptor 7.\<close>

definition demo_file :: "handle open_file" where
  "demo_file = \<lparr>of_stream = ReadStream (HMem 0 0), of_path = ''/d/f'', of_writable = False\<rparr>"

definition demo_fd_thread :: "((mem_file \<times> u64) memfs, handle, unit, nat) thread" where
  "demo_fd_thread = put_engine (demo_engine\<lparr>eng_registry := insert_file (eng_registry demo_engine) 7 demo_file\<rparr>) demo_thread"

lemma demo_fd: "virtual_fd demo_fd_thread 7 = Some demo_file" "\<not> t_in_hook demo_fd_thread" "\<not> of_writable demo_file"
  by (simp_all add: demo_fd_thread_def demo_thread_def put_engine_def virtual_fd_def current_engine_def as_usize_def
      get_file_def insert_file_def update_conv demo_file_def)

lemma memory_reads_fit:
  assumes "\<And>n s bs s'. st_read sops n s = (Inr bs, s') \<Longrightarrow> length bs \<le> n"
  shows "reads_fit (memory_fs_ops sops umax)"
  unfolding reads_fit_def
proof (intro allI impI)
  fix h n v bs h' v'
  assume r: "h_read (memory_fs_ops sops umax) h n v = (Inr bs, h', v')"
  show "length bs \<le> n"
  proof (cases h)
    case (HSource sid pos)
    with r assms show ?thesis
      by (auto simp: memory_fs_ops_def source_cursor_read_def shared_read_at_def split: option.splits prod.splits sum.splits if_splits)
  next
    case (HMem i pos)
    with r show ?thesis by (auto simp: memory_fs_ops_def mem_file_read_at_def Let_def split: option.splits)
  qed
qed

lemma demo_reads_fit: "reads_fit demo_ops"
  by (rule memory_reads_fit) (auto simp: mem_handle_ops_def mem_handle_read_def mem_file_read_at_def Let_def split: prod.splits)

section \<open>Properties\<close>





text \<open>A descriptor that is not a carrier of the virtual tree is none of the shims' business either:
  every descriptor-routed call on it is the original call.\<close>

theorem real_descriptors_are_untouched:
  assumes "t_in_hook t \<or> virtual_fd t fd = None"
  shows "shim_read ops lc fd buf n t = call_orig lc Read [CInt fd, CPtr buf, CInt (int n)] t
    \<and> shim_readv ops lc fd iov cnt t = call_orig lc Readv [CInt fd, CIov iov, CInt cnt] t
    \<and> shim_pread ops lc fd buf n off t = call_orig lc Pread [CInt fd, CPtr buf, CInt (int n), CInt off] t
    \<and> shim_lseek ops lc fd off whence t = call_orig lc Lseek [CInt fd, CInt off, CInt whence] t
    \<and> shim_lseek64 ops lc fd off whence t = call_orig lc Lseek64 [CInt fd, CInt off, CInt whence] t
    \<and> shim_write ops lc fd buf n t = call_orig lc Write [CInt fd, CPtr buf, CInt (int n)] t
    \<and> shim_writev ops lc fd iov cnt t = call_orig lc Writev [CInt fd, CIov iov, CInt cnt] t
    \<and> shim_pwrite ops lc fd buf n off t = call_orig lc Pwrite [CInt fd, CPtr buf, CInt (int n), CInt off] t
    \<and> shim_ftruncate ops lc fd off t = call_orig lc Ftruncate [CInt fd, CInt off] t
    \<and> shim_fsync ops lc fd t = call_orig lc Fsync [CInt fd] t
    \<and> shim_sendfile lc out fd buf n t = call_orig lc Sendfile [CInt out, CInt fd, CPtr buf, CInt (int n)] t
    \<and> shim_fchmod lc fd mode t = call_orig lc Fchmod [CInt fd, CInt mode] t
    \<and> shim_fstat ops lc fd buf t = call_orig lc Fstat [CInt fd, CPtr buf] t
    \<and> shim_fstatvfs ops lc fd buf t = call_orig lc Fstatvfs [CInt fd, CPtr buf] t
    \<and> shim_fdopendir lc fd t = call_orig lc Fdopendir [CInt fd] t
    \<and> shim_close ops lc fd t = call_orig lc Close [CInt fd] t"
  using assms
  by (simp add: shim_read_def shim_readv_def shim_pread_def shim_lseek_def shim_lseek64_def lseek_common_def shim_write_def
      shim_writev_def shim_pwrite_def shim_fsync_def shim_sendfile_def shim_fstatvfs_def shim_fdopendir_def routing
      shim_ftruncate_def Let_def ftruncate_pass fchmod_pass fstat_pass close_pass)

theorem real_descriptors_are_untouched_witness:
  "shim_close demo_ops demo_libc 7 demo_thread = call_orig demo_libc Close [CInt 7] demo_thread"
proof -
  have "virtual_fd demo_thread 7 = None"
    by (simp add: virtual_fd_def demo_current demo_engine_def engine_new_def registry_new_def get_file_def)
  then show ?thesis using real_descriptors_are_untouched [of demo_thread 7] by blast
qed



text \<open>A descriptor that was not opened for writing refuses every write: \<open>EROFS\<close>, and nothing
  changes.\<close>

theorem read_only_descriptor_refuses_writes:
  fixes t :: "('v, 'h, 'c, 'w) thread"
  assumes "\<not> t_in_hook t" "virtual_fd t fd = Some file" "\<not> of_writable file"
  shows "shim_write ops lc fd buf n t = (- 1, set_errno EROFS t)
    \<and> shim_writev ops lc fd iov cnt t = (- 1, set_errno EROFS t)
    \<and> shim_pwrite ops lc fd buf n off t = (- 1, set_errno EROFS t)
    \<and> shim_ftruncate ops lc fd len t = (- 1, set_errno EROFS t)
    \<and> shim_ftruncate64 ops lc fd len t = (- 1, set_errno EROFS t)
    \<and> shim_fchmod lc fd mode t = (- 1, set_errno EROFS t)"
proof -
  obtain e where e: "current_engine (t_disp t) = Some e" "get_file (eng_registry e) (as_usize fd) = Some file"
    using assms(2) by (auto simp: virtual_fd_def split: option.splits)
  have f: "ftruncate_fd ops e fd len pass t' = fail EROFS (- 1) t'" for len pass and t' :: "('v, 'h, 'c, 'w) thread"
    using e(2) assms(3) by (simp add: ftruncate_fd_def)
  have d: "deny_write_fd e fd" using e(2) assms(3) by (simp add: deny_write_fd_def)
  show ?thesis
    using assms(3) d
    by (auto simp: shim_write_def shim_writev_def shim_pwrite_def shim_ftruncate_def shim_ftruncate64_def Let_def shim_fchmod_def
        f intro!: fd_routed_fail [OF assms(1,2)] engine_routed_fail [OF assms(1) e(1)])
qed

theorem read_only_descriptor_refuses_writes_witness:
  "shim_pwrite demo_ops demo_libc 7 100 4 0 demo_fd_thread = (- 1, set_errno EROFS demo_fd_thread)"
  using read_only_descriptor_refuses_writes [OF demo_fd(2,1,3)] by blast

text \<open>Reading through a virtual descriptor never writes outside the caller's buffers: \<open>read\<close> and
  \<open>pread\<close> touch only the \<open>n\<close> bytes at \<open>buf\<close>, \<open>readv\<close> only its vectors, as long as the provider
  returns no more than it was asked for.\<close>

theorem reads_stay_in_the_buffer:
  assumes "\<not> t_in_hook t" "virtual_fd t fd = Some file" "reads_fit ops"
  shows "(a < buf \<or> buf + n \<le> a \<longrightarrow> tmem (snd (shim_read ops lc fd buf n t)) a = tmem t a
      \<and> tmem (snd (shim_pread ops lc fd buf n off t)) a = tmem t a)
    \<and> ((\<forall>(base, len) \<in> set (case iov of None \<Rightarrow> [] | Some vecs \<Rightarrow> vecs). a < base \<or> base + len \<le> a) \<longrightarrow>
        tmem (snd (shim_readv ops lc fd iov cnt t)) a = tmem t a)"
proof (intro conjI impI)
  assume a: "a < buf \<or> buf + n \<le> a"
  then have w: "write_mem buf bs m a = m a" if "length bs \<le> n" for bs m using that by (intro write_mem_other) auto
  show "tmem (snd (shim_read ops lc fd buf n t)) a = tmem t a"
    unfolding shim_read_def shim_eq
    by (rule fd_routed_mem [OF assms(1,2)])
       (auto simp: w dest: os_read_fits [OF assms(3)] split: prod.splits sum.splits)
  show "tmem (snd (shim_pread ops lc fd buf n off t)) a = tmem t a"
    unfolding shim_pread_def shim_eq
    by (rule fd_routed_mem [OF assms(1,2)])
       (auto simp: w dest: at_offset_fits [OF assms(3)] split: prod.splits sum.splits)
next
  assume iov: "\<forall>(base, len) \<in> set (case iov of None \<Rightarrow> [] | Some vecs \<Rightarrow> vecs). a < base \<or> base + len \<le> a"
  have "m' a = m a" if "iov = Some vecs" "readv_loop ops (take k vecs) tot s v m = (r, s', v', m')" for vecs k tot s v m r s' v' m'
    using readv_loop_fits [OF assms(3) that(2), of a] iov that(1) by (auto dest: in_set_takeD)
  then show "tmem (snd (shim_readv ops lc fd iov cnt t)) a = tmem t a"
    unfolding shim_readv_def shim_eq
    by (intro fd_routed_mem [OF assms(1,2)])
       (auto simp: Let_def split: option.splits prod.splits sum.splits)
qed

theorem reads_stay_in_the_buffer_witness:
  "tmem (snd (shim_read demo_ops demo_libc 7 100 4 demo_fd_thread)) 104 = 0"
proof -
  have "tmem demo_fd_thread 104 = 0" by (simp add: demo_fd_thread_def demo_thread_def)
  then show ?thesis using reads_stay_in_the_buffer [OF demo_fd(2,1) demo_reads_fit, of 104 100 4] by simp
qed

text \<open>C40. Opening a virtual directory and reading it until the null pointer delivers every entry of
  the provider's listing once and in order, and then ends: with more calls than entries the loop has
  seen the end.  Names longer than 255 bytes are cut.\<close>

theorem readdir_enumerates_listing:
  assumes "\<not> t_in_hook t" "decode_cstr path = Some d" "current_engine (t_disp t) = Some e" "classify e d = Virtual p"
    and "v_read_dir ops p (eng_vfs e) = (Some (Inr entries), v)" "t_brk t \<noteq> 0"
    and "\<forall>x \<in> set entries. NUL \<notin> set (de_name x)" "length entries < n"
  shows "\<exists>t'. shim_opendir ops lc path t = (int (t_brk t), t')
    \<and> list_dir lc (t_brk t) n t' = (map (\<lambda>x. take 255 (de_name x)) entries, True)"
proof -
  let ?dir = "\<lparr>vd_entries = entries, vd_next = 0, vd_dirent = dirent_zero, vd_dirent64 = dirent_zero\<rparr>"
  let ?e = "e\<lparr>eng_vfs := v, eng_registry := insert_dir (eng_registry e) (t_brk t)\<rparr>"
  let ?t = "((put_engine ?e (t\<lparr>t_in_hook := True\<rparr>))\<lparr>t_dirs := AList.update (t_brk t) ?dir (t_dirs t), t_brk := Suc (t_brk t)\<rparr>)
    \<lparr>t_in_hook := False\<rparr>"
  have o: "shim_opendir ops lc path t = (int (t_brk t), ?t)"
    unfolding shim_opendir_def shim_eq path_routed_serve [OF assms(1-4)] using assms(5) by simp
  have eng: "current_engine (t_disp ?t) = Some ?e" using assms(3) by (auto simp: put_engine_def current_engine_def)
  have "list_dir lc (t_brk t) n ?t = (map (\<lambda>x. take 255 (de_name x)) (drop (vd_next ?dir) (vd_entries ?dir)), True)"
    by (rule list_dir_rest [OF _ eng])
       (use assms(6-8) in \<open>auto simp: contains_dir_def insert_dir_def update_conv dirent_zero_def DNAME_LEN_def\<close>)
  with o show ?thesis by auto
qed

lemma demo_listing: "\<exists>v. v_read_dir demo_ops ''/d'' (eng_vfs demo_engine) = (Some (Inr [\<lparr>de_name = ''x'', de_metadata = metadata_dir\<rparr>]), v)"
proof -
  have "fst (memfs_read_dir ''/d'' demo_tree) = Some (Inr [\<lparr>de_name = ''x'', de_metadata = metadata_dir\<rparr>])" by code_simp
  then show ?thesis by (simp add: memory_fs_ops_def demo_engine_def engine_new_def) (metis prod.collapse)
qed

theorem readdir_enumerates_listing_witness:
  "\<exists>t'. shim_opendir demo_ops demo_libc (cstr ''/d'') demo_thread = (1000, t') \<and> list_dir demo_libc 1000 5 t' = ([''x''], True)"
proof -
  obtain v where v: "v_read_dir demo_ops ''/d'' (eng_vfs demo_engine) = (Some (Inr [\<lparr>de_name = ''x'', de_metadata = metadata_dir\<rparr>]), v)"
    using demo_listing by blast
  have "t_brk demo_thread = 1000" by (simp add: demo_thread_def)
  then show ?thesis
    using readdir_enumerates_listing [OF demo_current(2) demo_decode(3) demo_current(1) demo_classify(3) v, of 5 demo_libc]
    by (simp add: NUL_def)
qed

end
