(* ===== verification/Memory_Accounting.thy ===== *)
theory Memory_Accounting
  imports Memory_Fs
begin

text \<open>
  Capacity accounting of \<open>MemoryFs\<close>.  The invariant \<open>fs_ok ext fs\<close> says that the strong
  count of every file is the number of tree nodes that hold it plus the number \<open>ext i\<close> of
  handles (and locals) that do, that a stored file has a positive count, and that the
  bytes charged to the volume are exactly those of the stored files and fit the capacity.
  Every operation keeps it, with \<open>ext\<close> moving by the handles it hands out or takes back.
\<close>

section \<open>The invariant\<close>

definition file_bytes :: "mem_file \<times> nat \<Rightarrow> nat" where
  "file_bytes c = length (mf_data (fst c))"

fun refers :: "nat \<Rightarrow> node \<Rightarrow> nat" where
  "refers i (NMem j _) = (if j = i then 1 else 0)"
| "refers i (NFile _ _ _) = 0"
| "refers i (NDir _) = 0"

fun handle_refs :: "nat \<Rightarrow> handle \<Rightarrow> nat" where
  "handle_refs i (HMem j _) = (if j = i then 1 else 0)"
| "handle_refs i (HSource _ _) = 0"

definition strong :: "nat \<Rightarrow> 's memfs \<Rightarrow> nat" where
  "strong i fs = (case map_of (fs_heap fs) i of None \<Rightarrow> 0 | Some (_, c) \<Rightarrow> c)"

definition fs_ok :: "(nat \<Rightarrow> nat) \<Rightarrow> 's memfs \<Rightarrow> bool" where
  "fs_ok ext fs \<longleftrightarrow>
     distinct (map fst (fs_entries fs)) \<and>
     distinct (map fst (fs_heap fs)) \<and>
     (\<forall>i \<in> fst ` set (fs_heap fs). i < fs_fresh fs) \<and>
     vol_ok (fs_volume fs) \<and>
     vol_used (fs_volume fs) = wsum file_bytes (fs_heap fs) \<and>
     (\<forall>i f c. map_of (fs_heap fs) i = Some (f, c) \<longrightarrow> 0 < c) \<and>
     (\<forall>i. strong i fs = wsum (refers i) (fs_entries fs) + ext i)"

lemma fs_okD:
  assumes "fs_ok ext fs"
  shows "distinct (map fst (fs_entries fs))" "distinct (map fst (fs_heap fs))"
    "\<And>i. i \<in> fst ` set (fs_heap fs) \<Longrightarrow> i < fs_fresh fs"
    "vol_ok (fs_volume fs)" "vol_used (fs_volume fs) = wsum file_bytes (fs_heap fs)"
    "\<And>i f c. map_of (fs_heap fs) i = Some (f, c) \<Longrightarrow> 0 < c"
    "\<And>i. strong i fs = wsum (refers i) (fs_entries fs) + ext i"
  using assms unfolding fs_ok_def by blast+

lemma fs_ok_init: "capacity < U64_MAX \<Longrightarrow> fs_ok (\<lambda>_. 0) (memfs_with_capacity now capacity)"
  by (simp add: fs_ok_def memfs_with_capacity_def volume_new_def vol_ok_def strong_def)

lemma fs_ok_heap_upd:
  assumes "fs_ok ext fs" "map_of (fs_heap fs) i = Some (f, c)" "0 < c'"
    and "vol_ok vol" "vol_used vol + length (mf_data f) = vol_used (fs_volume fs) + length (mf_data f')"
    and "c' + ext i = c + ext' i" "\<And>j. j \<noteq> i \<Longrightarrow> ext' j = ext j"
  shows "fs_ok ext' (fs\<lparr>fs_volume := vol, fs_heap := AList.update i (f', c') (fs_heap fs)\<rparr>)"
proof -
  note D = fs_okD [OF assms(1)]
  have i: "i < fs_fresh fs" using D(3) assms(2) by (metis fst_conv image_eqI map_of_SomeD)
  have "wsum file_bytes (AList.update i (f', c') (fs_heap fs)) + length (mf_data f) =
      wsum file_bytes (fs_heap fs) + length (mf_data f')"
    using wsum_update [OF D(2), of file_bytes i "(f', c')"] assms(2) by (simp add: file_bytes_def)
  then have bytes: "vol_used vol = wsum file_bytes (AList.update i (f', c') (fs_heap fs))"
    using assms(5) D(5) by simp
  have "wsum (refers i) (fs_entries fs) + ext i = c" using D(7) [of i] assms(2) by (simp add: strong_def)
  then have cnt: "c' = wsum (refers i) (fs_entries fs) + ext' i" using assms(6) by simp
  have str: "strong j (fs\<lparr>fs_volume := vol, fs_heap := AList.update i (f', c') (fs_heap fs)\<rparr>) =
      wsum (refers j) (fs_entries fs) + ext' j" for j
    using D(7) [of j] assms(7) [of j] cnt by (cases "j = i") (auto simp: strong_def)
  show ?thesis
    using D assms(3,4) bytes str i
    by (auto simp: fs_ok_def distinct_update_keys fst_set_update split: if_splits)
qed

lemma fs_ok_heap_del:
  assumes "fs_ok ext fs" "map_of (fs_heap fs) i = Some (f, c)"
    and "ext i = c + ext' i" "\<And>j. j \<noteq> i \<Longrightarrow> ext' j = ext j"
  shows "fs_ok ext' (fs\<lparr>fs_volume := mem_file_drop (fs_volume fs) f,
     fs_heap := AList.delete i (fs_heap fs)\<rparr>)"
proof -
  note D = fs_okD [OF assms(1)]
  have w: "wsum file_bytes (AList.delete i (fs_heap fs)) + length (mf_data f) = wsum file_bytes (fs_heap fs)"
    using wsum_delete [OF D(2), of file_bytes i] assms(2) by (simp add: file_bytes_def)
  have "c = wsum (refers i) (fs_entries fs) + ext i" using D(7) [of i] assms(2) by (simp add: strong_def)
  then have z: "wsum (refers i) (fs_entries fs) = 0" "ext' i = 0" using assms(3) by auto
  have str: "strong j (fs\<lparr>fs_volume := mem_file_drop (fs_volume fs) f,
      fs_heap := AList.delete i (fs_heap fs)\<rparr>) = wsum (refers j) (fs_entries fs) + ext' j" for j
    using D(7) [of j] assms(4) [of j] z by (cases "j = i") (auto simp: strong_def)
  have keys: "fst ` set (AList.delete i (fs_heap fs)) \<subseteq> fst ` set (fs_heap fs)"
    using delete_keys [of i "fs_heap fs"] by (metis Diff_subset list.set_map set_removeAll)
  have fresh: "\<forall>j \<in> fst ` set (AList.delete i (fs_heap fs)). j < fs_fresh fs" using keys D(3) by blast
  show ?thesis
    using D(1,2,4,5,6) w str fresh
    by (simp add: fs_ok_def distinct_delete_keys mem_file_drop_def volume_release_def vol_ok_def) linarith
qed

lemma fs_ok_entries:
  assumes "fs_ok ext fs" "distinct (map fst m)"
    and "\<And>i. wsum (refers i) m + ext' i = wsum (refers i) (fs_entries fs) + ext i"
  shows "fs_ok ext' (fs\<lparr>fs_entries := m\<rparr>)"
  using assms(2) fs_okD [OF assms(1)] assms(3) by (simp add: fs_ok_def strong_def)

section \<open>References and entries\<close>

lemma arc_drop_ok [inv_intros]:
  assumes "fs_ok ext' fs" "ext' i = Suc (ext i)" "\<And>j. j \<noteq> i \<Longrightarrow> ext' j = ext j"
  shows "fs_ok ext (arc_drop i fs)"
proof (cases "map_of (fs_heap fs) i")
  case None
  then show ?thesis using fs_okD(7) [OF assms(1), of i] assms(2) by (simp add: strong_def)
next
  case (Some fc)
  obtain f c where fc: "fc = (f, c)" by (cases fc)
  have "0 < c" using fs_okD(6) [OF assms(1)] Some fc by blast
  have c: "c = wsum (refers i) (fs_entries fs) + ext' i"
    using fs_okD(7) [OF assms(1), of i] Some fc by (simp add: strong_def)
  show ?thesis
  proof (cases "c \<le> 1")
    case True
    with c assms(2) have "ext' i = c + ext i" by simp
    with assms(3) have "fs_ok ext (fs\<lparr>fs_volume := mem_file_drop (fs_volume fs) f,
        fs_heap := AList.delete i (fs_heap fs)\<rparr>)"
      by (intro fs_ok_heap_del [OF assms(1) Some [unfolded fc]]) auto
    with True Some fc show ?thesis by (simp add: arc_drop_def)
  next
    case False
    then have "fs_ok ext (fs\<lparr>fs_volume := fs_volume fs, fs_heap := AList.update i (f, c - 1) (fs_heap fs)\<rparr>)"
      using Some fc assms fs_okD(4) [OF assms(1)] by (intro fs_ok_heap_upd [OF assms(1)]) auto
    with False Some fc show ?thesis by (simp add: arc_drop_def)
  qed
qed

lemma arc_clone_ok [inv_intros]:
  assumes "fs_ok ext fs" "0 < strong i fs"
  shows "fs_ok (ext(i := Suc (ext i))) (arc_clone i fs)"
proof -
  obtain f c where fc: "map_of (fs_heap fs) i = Some (f, c)"
    using assms(2) by (auto simp: strong_def split: option.splits)
  have "fs_ok (ext(i := Suc (ext i)))
      (fs\<lparr>fs_volume := fs_volume fs, fs_heap := AList.update i (f, Suc c) (fs_heap fs)\<rparr>)"
    using fc fs_okD(4) [OF assms(1)] by (intro fs_ok_heap_upd [OF assms(1)]) auto
  with fc show ?thesis by (simp add: arc_clone_def)
qed

lemma arc_new_ok:
  assumes "fs_ok ext fs" "arc_new fs = (i, fs')"
  shows "fs_ok (ext(i := Suc (ext i))) fs'" "map_of (fs_heap fs') i = Some (mem_file_new (fs_now fs), 1)"
    "fs_entries fs' = fs_entries fs"
proof -
  note D = fs_okD [OF assms(1)]
  have i: "i = fs_fresh fs" and fs': "fs' = fs\<lparr>fs_heap := AList.update i (mem_file_new (fs_now fs), 1) (fs_heap fs),
      fs_fresh := Suc (fs_fresh fs)\<rparr>"
    using assms(2) by (auto simp: arc_new_def)
  have none: "map_of (fs_heap fs) i = None"
    using D(3) [of i] i by (metis less_irrefl map_of_eq_None_iff)
  have w: "wsum file_bytes (AList.update i (mem_file_new (fs_now fs), 1) (fs_heap fs)) = wsum file_bytes (fs_heap fs)"
    using wsum_update [OF D(2), of file_bytes i "(mem_file_new (fs_now fs), 1)"] none
    by (simp add: file_bytes_def mem_file_new_def)
  have str: "strong j fs' = wsum (refers j) (fs_entries fs) + (ext(i := Suc (ext i))) j" for j
    using D(7) [of j] none fs' by (auto simp: strong_def)
  show "fs_ok (ext(i := Suc (ext i))) fs'"
    using D w str fs' i
    by (auto simp: fs_ok_def distinct_update_keys fst_set_update less_Suc_eq split: if_splits)
  show "map_of (fs_heap fs') i = Some (mem_file_new (fs_now fs), 1)" "fs_entries fs' = fs_entries fs"
    using fs' by simp_all
qed

lemma drop_node_ok [inv_intros]:
  "fs_ok (\<lambda>i. ext i + refers i nd) fs \<Longrightarrow> fs_ok ext (drop_node nd fs)"
  by (cases nd) (auto intro: arc_drop_ok)

lemma entry_insert_ok [inv_intros]:
  assumes "fs_ok (\<lambda>i. ext i + refers i nd) fs"
  shows "fs_ok ext (entry_insert k nd fs)"
proof -
  note d = fs_okD(1) [OF assms]
  let ?fs1 = "fs\<lparr>fs_entries := AList.update k nd (fs_entries fs)\<rparr>"
  have "fs_ok (\<lambda>i. ext i + (case map_of (fs_entries fs) k of None \<Rightarrow> 0 | Some x \<Rightarrow> refers i x)) ?fs1"
  proof (rule fs_ok_entries [OF assms distinct_update_keys [OF d]])
    fix i
    show "wsum (refers i) (AList.update k nd (fs_entries fs)) +
        (ext i + (case map_of (fs_entries fs) k of None \<Rightarrow> 0 | Some x \<Rightarrow> refers i x)) =
        wsum (refers i) (fs_entries fs) + (ext i + refers i nd)"
      using wsum_update [OF d, of "refers i" k nd] by simp
  qed
  then show ?thesis
    by (cases "map_of (fs_entries fs) k") (auto simp: entry_insert_def Let_def intro: drop_node_ok)
qed

lemma entries_delete_ok:
  assumes "fs_ok ext fs" "map_of (fs_entries fs) k = Some nd"
  shows "fs_ok (\<lambda>i. ext i + refers i nd) (fs\<lparr>fs_entries := AList.delete k (fs_entries fs)\<rparr>)"
proof (rule fs_ok_entries [OF assms(1) distinct_delete_keys [OF fs_okD(1) [OF assms(1)]]])
  fix i
  show "wsum (refers i) (AList.delete k (fs_entries fs)) + (ext i + refers i nd) =
      wsum (refers i) (fs_entries fs) + ext i"
    using wsum_delete [OF fs_okD(1) [OF assms(1)], of "refers i" k] assms(2) by simp
qed

lemma entry_remove_ok [inv_intros]: "fs_ok ext fs \<Longrightarrow> fs_ok ext (entry_remove k fs)"
  by (auto simp: entry_remove_def split: option.splits intro: drop_node_ok entries_delete_ok)

lemma fold_ok [inv_intros]:
  "(\<And>k fs. fs_ok ext fs \<Longrightarrow> fs_ok ext (g k fs)) \<Longrightarrow> fs_ok ext fs \<Longrightarrow> fs_ok ext (fold g ks fs)"
  by (induction ks arbitrary: fs) auto

lemma refers_rename_node [simp]: "refers i (rename_node nd name) = refers i nd"
  by (cases nd) auto

lemma move_entry_ok [inv_intros]: "fs_ok ext fs \<Longrightarrow> fs_ok ext (move_entry a b nm k fs)"
  by (auto simp: move_entry_def split: option.splits intro!: entry_insert_ok dest: entries_delete_ok)

lemma move_subtree_ok [inv_intros]: "fs_ok ext fs \<Longrightarrow> fs_ok ext (move_subtree a b nm fs)"
  by (simp add: move_subtree_def inv_intros)

section \<open>Directories carry no bytes\<close>

lemma insert_dirs_from_facts:
  "distinct (map fst m) \<Longrightarrow>
     distinct (map fst (insert_dirs_from dir m)) \<and>
     wsum (refers i) (insert_dirs_from dir m) = wsum (refers i) m"
proof (induction dir m rule: insert_dirs_from.induct)
  case (1 dir m)
  let ?k = "normalize_key dir"
  let ?m' = "case map_of m ?k of None \<Rightarrow> AList.update ?k (NDir (final_component dir)) m | Some _ \<Rightarrow> m"
  have m': "distinct (map fst ?m') \<and> wsum (refers i) ?m' = wsum (refers i) m"
    using "1.prems" wsum_update [OF "1.prems", of "refers i" ?k "NDir (final_component dir)"]
    by (auto simp: distinct_update_keys split: option.splits)
  show ?case
  proof (cases "?k = [] \<or> path_parent dir = None")
    case True
    then show ?thesis using m' "1.prems" by (auto simp: insert_dirs_from.simps [of dir m] Let_def)
  next
    case False
    then obtain d where d: "path_parent dir = Some d" "?k \<noteq> []" by auto
    from "1.IH" [OF refl d(2) refl d(1)] m' d show ?thesis
      by (simp add: insert_dirs_from.simps [of dir m] Let_def)
  qed
qed

lemma add_ancestors_ok [inv_intros]: "fs_ok ext fs \<Longrightarrow> fs_ok ext (add_ancestors path fs)"
  using insert_dirs_from_facts [OF fs_okD(1)]
  by (auto simp: add_ancestors_def insert_ancestor_dirs_def split: option.splits
      intro!: fs_ok_entries [of ext fs])

lemma prune_facts:
  "distinct (map fst m) \<Longrightarrow>
     distinct (map fst (prune a m)) \<and> wsum (refers i) (prune a m) = wsum (refers i) m"
proof (induction a m rule: prune.induct)
  case (2 dir m)
  show ?case
  proof (cases "\<exists>nm. map_of m dir = Some (NDir nm) \<and> \<not> has_child dir m")
    case True
    then obtain nm where nm: "map_of m dir = Some (NDir nm)" "\<not> has_child dir m" by blast
    have "wsum (refers i) (AList.delete dir m) = wsum (refers i) m"
      using wsum_delete [OF "2.prems", of "refers i" dir] nm by simp
    with 2 nm show ?thesis by (simp add: distinct_delete_keys)
  next
    case False
    with "2.prems" show ?thesis by (auto split: option.splits node.splits)
  qed
qed simp

lemma remove_subtree_ok [inv_intros]:
  assumes "fs_ok ext fs" shows "fs_ok ext (memfs_remove_subtree key fs)"
proof -
  have "fs_ok ext (fold entry_remove (filter (in_subtree key) (map fst (fs_entries fs))) fs)"
    (is "fs_ok ext ?fs1")
    using assms by (intro fold_ok entry_remove_ok)
  then show ?thesis
    using prune_facts [OF fs_okD(1)] by (auto simp: memfs_remove_subtree_def Let_def intro!: fs_ok_entries [of ext ?fs1])
qed

section \<open>File contents\<close>

lemma file_in_ok: "fs_ok ext fs \<Longrightarrow> mem_get i fs = Some f \<Longrightarrow> file_in (fs_volume fs) f"
  using fs_okD(5) [of ext fs]
  by (auto simp: mem_get_def file_in_def file_bytes_def dest: wsum_ge [where w = file_bytes])

lemma mem_put_ok:
  assumes "fs_ok ext fs" "mem_get i fs = Some f" "vol_ok vol"
    and "vol_used vol + length (mf_data f) = vol_used (fs_volume fs) + length (mf_data f')"
  shows "fs_ok ext (mem_put i vol f' fs)"
proof -
  obtain c where c: "map_of (fs_heap fs) i = Some (f, c)" using assms(2) by (auto simp: mem_get_def)
  with fs_okD(6) [OF assms(1)] have "0 < c" by blast
  then show ?thesis
    using fs_ok_heap_upd [OF assms(1) c _ assms(3,4), of c ext] c by (simp add: mem_put_def)
qed

lemma mem_put_other [simp]:
  "fs_entries (mem_put i vol f fs) = fs_entries fs" "fs_now (mem_put i vol f fs) = fs_now fs"
  "fs_sources (mem_put i vol f fs) = fs_sources fs"
  by (auto simp: mem_put_def split: option.splits)

lemma strong_mem_put [simp]: "strong j (mem_put i vol f fs) = strong j fs"
  by (auto simp: mem_put_def strong_def split: option.splits)

lemma file_set_len_ok:
  assumes "fs_ok ext fs" "len \<le> umax" "file_set_len umax i len fs = (r, fs')"
  shows "fs_ok ext fs'"
proof (cases "mem_get i fs")
  case None
  with assms show ?thesis by (simp add: file_set_len_def)
next
  case (Some f)
  obtain r' vol f' where s: "mem_file_set_len umax (fs_now fs) len (fs_volume fs) f = (r', vol, f')"
    by (metis prod_cases3)
  have fs': "fs' = mem_put i vol f' fs" using assms(3) Some s by (simp add: file_set_len_def)
  note vo = fs_okD(4) [OF assms(1)] and fi = file_in_ok [OF assms(1) Some]
  show ?thesis
  proof (cases r')
    case (Inl e)
    then show ?thesis
      using set_len_error_unchanged [OF assms(2) s [unfolded Inl]] fs' vo
      by (auto intro!: mem_put_ok [OF assms(1) Some])
  next
    case (Inr u)
    then show ?thesis
      using set_len_success [OF vo fi s [unfolded Inr]] fs' by (auto intro!: mem_put_ok [OF assms(1) Some])
  qed
qed

lemma h_write_ok:
  assumes "fs_ok ext fs" "memfs_h_write umax h buf fs = (r, h', fs')"
  shows "fs_ok ext fs'" "handle_refs i h' = handle_refs i h"
proof -
  have "fs_ok ext fs' \<and> handle_refs i h' = handle_refs i h"
  proof (cases h)
    case (HSource sid pos)
    with assms show ?thesis by auto
  next
    case (HMem j pos)
    show ?thesis
    proof (cases "mem_get j fs")
      case None
      with assms HMem show ?thesis by auto
    next
      case (Some f)
      obtain r' vol f' where w: "mem_file_write_at umax (fs_now fs) pos buf (fs_volume fs) f = (r', vol, f')"
        by (metis prod_cases3)
      note vo = fs_okD(4) [OF assms(1)] and fi = file_in_ok [OF assms(1) Some]
      have "vol_ok vol \<and> vol_used vol + length (mf_data f) = vol_used (fs_volume fs) + length (mf_data f')"
      proof (cases "buf = []")
        case True
        with w vo show ?thesis by (simp add: mem_file_write_at_def)
      next
        case False
        show ?thesis
        proof (cases r')
          case (Inl e)
          then show ?thesis using write_at_error_unchanged [OF vo fi w [unfolded Inl]] vo by simp
        next
          case (Inr n)
          note W = write_at_success [OF vo fi False w [unfolded Inr]]
          from W show ?thesis by simp
        qed
      qed
      then have "fs_ok ext (mem_put j vol f' fs)" by (intro mem_put_ok [OF assms(1) Some]) auto
      then show ?thesis using assms(2) HMem Some w by (auto split: sum.splits)
    qed
  qed
  then show "fs_ok ext fs'" "handle_refs i h' = handle_refs i h" by auto
qed

section \<open>Every provider operation keeps the accounts\<close>

definition opened :: "nat \<Rightarrow> handle io_result option \<Rightarrow> nat" where
  "opened i r = (case r of Some (Inr h) \<Rightarrow> handle_refs i h | _ \<Rightarrow> 0)"

lemma opened_simps [simp]:
  "opened i None = 0" "opened i (Some (Inl e)) = 0" "opened i (Some (Inr h)) = handle_refs i h"
  by (simp_all add: opened_def)

lemma fs_ok_cong: "fs_ok ext fs \<Longrightarrow> (\<And>i. ext i = ext' i) \<Longrightarrow> fs_ok ext' fs"
  by (simp add: fs_ok_def)

lemma strong_entry:
  assumes "fs_ok ext fs" "map_of (fs_entries fs) k = Some (NMem i nm)"
  shows "0 < strong i fs"
  using wsum_ge [OF assms(2), of "refers i"] fs_okD(7) [OF assms(1), of i] by simp

lemma open_ok:
  assumes "fs_ok ext fs" "memfs_open path opts fs = (r, fs')"
  shows "fs_ok (\<lambda>i. ext i + opened i r) fs'"
proof (cases "map_of (fs_entries fs) (normalize_key path)")
  case None
  with assms show ?thesis by (simp add: memfs_open_def)
next
  case (Some nd)
  show ?thesis
  proof (cases nd)
    case (NMem i nm)
    from arc_clone_ok [OF assms(1) strong_entry [OF assms(1) Some [unfolded NMem]]]
    have "fs_ok (\<lambda>j. ext j + handle_refs j (HMem i 0)) (arc_clone i fs)"
      by (rule fs_ok_cong) auto
    then show ?thesis using assms Some NMem by (auto simp: memfs_open_def)
  qed (use assms Some in \<open>auto simp: memfs_open_def elim: fs_ok_cong\<close>)
qed

lemma finish_open_write_ok:
  assumes "fs_ok (ext(i := Suc (ext i))) fs" "finish_open_write umax opts i fs = (r, fs')"
  shows "fs_ok (\<lambda>j. ext j + opened j r) fs'"
proof -
  obtain r1 fs1 where 1: "(if oo_truncate opts then file_set_len umax i 0 fs else (Inr (), fs)) = (r1, fs1)"
    by fastforce
  have ok1: "fs_ok (ext(i := Suc (ext i))) fs1"
    using 1 assms(1) file_set_len_ok [OF assms(1), of 0 umax i] by (auto split: if_splits)
  show ?thesis
  proof (cases r1)
    case (Inl e)
    with 1 assms(2) have "r = Some (Inl e)" "fs' = arc_drop i fs1" by (auto simp: finish_open_write_def)
    then show ?thesis using ok1 by (auto intro: arc_drop_ok)
  next
    case (Inr u)
    with 1 assms(2) obtain p where "r = Some (Inr (HMem i p))" "fs' = fs1"
      by (auto simp: finish_open_write_def)
    then show ?thesis using ok1 by (auto elim: fs_ok_cong)
  qed
qed

lemma open_write_ok:
  assumes "fs_ok ext fs" "memfs_open_write umax path opts fs = (r, fs')"
  shows "fs_ok (\<lambda>i. ext i + opened i r) fs'"
proof (cases "map_of (fs_entries fs) (normalize_key path)")
  case None
  obtain i fs1 where n: "arc_new fs = (i, fs1)" by fastforce
  note N = arc_new_ok [OF assms(1) n]
  let ?e1 = "ext(i := Suc (ext i))"
  have s: "0 < strong i fs1" using N(2) by (simp add: strong_def)
  from arc_clone_ok [OF N(1) s] have "fs_ok (\<lambda>j. ?e1 j + refers j (NMem i (final_component path))) (arc_clone i fs1)"
    by (rule fs_ok_cong) auto
  then have "fs_ok ?e1 (add_ancestors path
      (entry_insert (normalize_key path) (NMem i (final_component path)) (arc_clone i fs1)))"
    by (intro add_ancestors_ok entry_insert_ok)
  from finish_open_write_ok [OF this] show ?thesis
    using assms None n by (auto simp: memfs_open_write_def Let_def split: if_splits)
next
  case (Some nd)
  show ?thesis
  proof (cases nd)
    case (NMem i nm)
    from arc_clone_ok [OF assms(1) strong_entry [OF assms(1) Some [unfolded NMem]]]
    show ?thesis
      using assms Some NMem finish_open_write_ok
      by (auto simp: memfs_open_write_def Let_def split: if_splits)
  qed (use assms Some in \<open>auto simp: memfs_open_write_def\<close>)
qed

lemma remove_ok: "fs_ok ext fs \<Longrightarrow> memfs_remove path fs = (r, fs') \<Longrightarrow> fs_ok ext fs'"
  by (auto simp: memfs_remove_def Let_def split: option.splits node.splits if_splits intro: entry_remove_ok)

lemma rename_ok: "fs_ok ext fs \<Longrightarrow> memfs_rename a b fs = (r, fs') \<Longrightarrow> fs_ok ext fs'"
  by (auto simp: memfs_rename_def Let_def split: option.splits if_splits
      intro: add_ancestors_ok move_subtree_ok entry_remove_ok)

lemma create_dir_ok: "fs_ok ext fs \<Longrightarrow> memfs_create_dir path fs = (r, fs') \<Longrightarrow> fs_ok ext fs'"
  by (auto simp: memfs_create_dir_def Let_def split: option.splits intro!: add_ancestors_ok entry_insert_ok)

lemma set_len_ok:
  "fs_ok ext fs \<Longrightarrow> len \<le> umax \<Longrightarrow> memfs_set_len umax path len fs = (r, fs') \<Longrightarrow> fs_ok ext fs'"
  by (auto simp: memfs_set_len_def split: option.splits node.splits prod.splits dest: file_set_len_ok)

lemma insert_file_ok:
  assumes "fs_ok ext fs" shows "fs_ok ext (snd (memfs_insert_file path src t fs))"
proof -
  have "fs_ok ext (fs\<lparr>fs_sources := S, fs_fresh := Suc (fs_fresh fs)\<rparr>)" for S
    using assms by (auto simp: fs_ok_def strong_def less_Suc_eq)
  then show ?thesis by (simp add: memfs_insert_file_def Let_def add_ancestors_ok entry_insert_ok)
qed

lemma insert_writable_ok:
  assumes "fs_ok ext fs" shows "fs_ok ext (snd (memfs_insert_writable path fs))"
proof -
  obtain i fs1 where n: "arc_new fs = (i, fs1)" by fastforce
  have "fs_ok (\<lambda>j. ext j + refers j (NMem i nm)) fs1" for nm
    by (rule fs_ok_cong [OF arc_new_ok(1) [OF assms n]]) auto
  with n show ?thesis by (simp add: memfs_insert_writable_def Let_def add_ancestors_ok entry_insert_ok)
qed

lemma h_read_ok:
  assumes "fs_ok ext fs" "memfs_h_read sops umax h n fs = (r, h', fs')"
  shows "fs_ok ext fs'" "handle_refs i h' = handle_refs i h"
proof -
  have "fs_ok ext (fs\<lparr>fs_sources := S\<rparr>)" for S using assms(1) by (simp add: fs_ok_def strong_def)
  then show "fs_ok ext fs'" "handle_refs i h' = handle_refs i h"
    using assms by (cases h; auto simp: Let_def split: option.splits prod.splits)+
qed

lemma h_seek_same: "memfs_h_seek h sf fs = (r, h', fs') \<Longrightarrow> fs' = fs \<and> handle_refs i h' = handle_refs i h"
  by (cases h) (auto simp: memfs_h_seek_def split: sum.splits)

lemma h_set_len_ok:
  "fs_ok ext fs \<Longrightarrow> len \<le> umax \<Longrightarrow> memfs_h_set_len umax h len fs = (r, h', fs') \<Longrightarrow>
     fs_ok ext fs' \<and> handle_refs i h' = handle_refs i h"
  by (cases h) (auto split: prod.splits dest: file_set_len_ok)

lemma h_drop_ok: "fs_ok (\<lambda>i. ext i + handle_refs i h) fs \<Longrightarrow> fs_ok ext (memfs_h_drop h fs)"
  by (cases h) (auto intro: arc_drop_ok)

end
