(* ===== verification/Memory_Machine.thy ===== *)
theory Memory_Machine
  imports Memory_Accounting
begin

text \<open>
  The life of a \<open>MemoryFs\<close> as a state machine: a client mounts files, opens handles, works on
  them and on paths, and drops handles, in any order.  A state is the provider together
  with the handles the client holds.  The reachable states satisfy the accounting
  invariant, so the bytes charged to the volume are those of the files that a tree node or
  an open handle still holds, for a 64-bit target (\<open>usize::MAX = u64::MAX\<close>).
\<close>

section \<open>The capacity never moves\<close>

definition cap :: "'s memfs \<Rightarrow> u64" where
  "cap fs = vol_capacity (fs_volume fs)"

lemma cap_arc_clone [simp]: "cap (arc_clone i fs) = cap fs"
  by (simp add: cap_def arc_clone_def split: option.splits prod.splits)

lemma cap_arc_new: "arc_new fs = (i, fs') \<Longrightarrow> cap fs' = cap fs"
  by (auto simp: cap_def arc_new_def)

lemma cap_arc_drop [simp]: "cap (arc_drop i fs) = cap fs"
  by (simp add: cap_def arc_drop_def mem_file_drop_def volume_release_def split: option.splits prod.splits)

lemma cap_drop_node [simp]: "cap (drop_node nd fs) = cap fs"
  by (cases nd) simp_all

lemma cap_entries [simp]: "cap (fs\<lparr>fs_entries := m\<rparr>) = cap fs"
  "cap (fs\<lparr>fs_sources := S\<rparr>) = cap fs" "cap (fs\<lparr>fs_now := t\<rparr>) = cap fs"
  "cap (fs\<lparr>fs_sources := S, fs_fresh := n\<rparr>) = cap fs"
  by (simp_all add: cap_def)

lemma cap_entry_insert [simp]: "cap (entry_insert k nd fs) = cap fs"
  by (simp add: entry_insert_def Let_def split: option.splits)

lemma cap_entry_remove [simp]: "cap (entry_remove k fs) = cap fs"
  by (simp add: entry_remove_def split: option.splits)

lemma cap_add_ancestors [simp]: "cap (add_ancestors p fs) = cap fs"
  by (simp add: add_ancestors_def)

lemma cap_move_entry [simp]: "cap (move_entry a b n k fs) = cap fs"
  by (simp add: move_entry_def split: option.splits)

lemma cap_fold: "(\<And>x fs. cap (g x fs) = cap fs) \<Longrightarrow> cap (fold g xs fs) = cap fs"
  by (induction xs arbitrary: fs) simp_all

lemma cap_move_subtree [simp]: "cap (move_subtree a b n fs) = cap fs"
  by (simp add: move_subtree_def cap_fold)

lemma cap_remove_subtree [simp]: "cap (memfs_remove_subtree k fs) = cap fs"
  by (simp add: memfs_remove_subtree_def Let_def cap_fold)

lemma cap_mem_put: "vol_capacity vol = cap fs \<Longrightarrow> cap (mem_put i vol f fs) = cap fs"
  by (simp add: cap_def mem_put_def split: option.splits prod.splits)

lemma volume_resize_cap: "volume_resize a b vol = (r, vol') \<Longrightarrow> vol_capacity vol' = vol_capacity vol"
  by (auto simp: volume_resize_def Let_def split: if_splits)

lemma cap_file_set_len:
  assumes "file_set_len umax i len fs = (r, fs')"
  shows "cap fs' = cap fs"
proof -
  have "vol_capacity vol' = vol_capacity vol" if "mem_file_set_len umax now len vol f = (r', vol', f')"
    for now vol f r' vol' f'
    using that by (auto simp: mem_file_set_len_def Let_def dest: volume_resize_cap
        split: prod.splits sum.splits if_splits)
  with assms show ?thesis
    by (auto simp: file_set_len_def cap_def [symmetric] intro!: cap_mem_put
        split: option.splits prod.splits)
qed

lemma cap_finish_open_write: "finish_open_write umax opts i fs = (r, fs') \<Longrightarrow> cap fs' = cap fs"
  by (auto simp: finish_open_write_def split: if_splits prod.splits sum.splits dest: cap_file_set_len)

lemma volume_reserve_cap: "volume_reserve a b vol = (g, vol') \<Longrightarrow> vol_capacity vol' = vol_capacity vol"
  by (auto simp: volume_reserve_def Let_def split: if_splits)

lemma volume_release_cap [simp]: "vol_capacity (volume_release n vol) = vol_capacity vol"
  by (simp add: volume_release_def)

lemma cap_write_at:
  assumes "mem_file_write_at umax now pos buf vol f = (r, vol', f')"
  shows "vol_capacity vol' = vol_capacity vol"
proof -
  obtain g v1 where res: "volume_reserve (length (mf_data f))
      (max (pos + length buf) (length (mf_data f))) vol = (g, v1)" by fastforce
  from assms res volume_reserve_cap [OF res] show ?thesis
    by (auto simp: mem_file_write_at_def checked_add_def Let_def split: if_splits)
qed

lemma cap_h_write:
  assumes "memfs_h_write umax h buf fs = (r, h', fs')" shows "cap fs' = cap fs"
proof (cases h)
  case (HMem i pos)
  show ?thesis
  proof (cases "mem_get i fs")
    case (Some f)
    obtain r1 vol f' where w: "mem_file_write_at umax (fs_now fs) pos buf (fs_volume fs) f = (r1, vol, f')"
      by (metis prod_cases3)
    have "vol_capacity vol = cap fs" using cap_write_at [OF w] by (simp add: cap_def)
    with assms HMem Some w show ?thesis by (cases r1) (auto simp: cap_mem_put)
  qed (use assms HMem in simp)
qed (use assms in simp)

section \<open>Requests\<close>

type_synonym 's mem_state = "'s memfs \<times> handle list"

fun new_handle :: "handle io_result option \<Rightarrow> handle list" where
  "new_handle (Some (Inr h)) = [h]"
| "new_handle _ = []"

inductive mem_step :: "'s stream_ops \<Rightarrow> 's mem_state \<Rightarrow> 's mem_state \<Rightarrow> bool"
  for sops :: "'s stream_ops" where
  step_tick: "mem_step sops (fs, hs) (fs\<lparr>fs_now := t\<rparr>, hs)"
| step_insert_file: "mem_step sops (fs, hs) (snd (memfs_insert_file p src t fs), hs)"
| step_insert_writable: "mem_step sops (fs, hs) (snd (memfs_insert_writable p fs), hs)"
| step_remove_subtree: "mem_step sops (fs, hs) (memfs_remove_subtree k fs, hs)"
| step_open: "memfs_open p opts fs = (r, fs') \<Longrightarrow> mem_step sops (fs, hs) (fs', new_handle r @ hs)"
| step_open_write: "memfs_open_write U64_MAX p opts fs = (r, fs') \<Longrightarrow>
    mem_step sops (fs, hs) (fs', new_handle r @ hs)"
| step_remove: "memfs_remove p fs = (r, fs') \<Longrightarrow> mem_step sops (fs, hs) (fs', hs)"
| step_rename: "memfs_rename p q fs = (r, fs') \<Longrightarrow> mem_step sops (fs, hs) (fs', hs)"
| step_create_dir: "memfs_create_dir p fs = (r, fs') \<Longrightarrow> mem_step sops (fs, hs) (fs', hs)"
| step_set_len: "memfs_set_len U64_MAX p len fs = (r, fs') \<Longrightarrow> len \<le> U64_MAX \<Longrightarrow>
    mem_step sops (fs, hs) (fs', hs)"
| step_h_read: "memfs_h_read sops U64_MAX h n fs = (r, h', fs') \<Longrightarrow>
    mem_step sops (fs, as @ h # bs) (fs', as @ h' # bs)"
| step_h_seek: "memfs_h_seek h sf fs = (r, h', fs') \<Longrightarrow>
    mem_step sops (fs, as @ h # bs) (fs', as @ h' # bs)"
| step_h_write: "memfs_h_write U64_MAX h buf fs = (r, h', fs') \<Longrightarrow>
    mem_step sops (fs, as @ h # bs) (fs', as @ h' # bs)"
| step_h_set_len: "memfs_h_set_len U64_MAX h len fs = (r, h', fs') \<Longrightarrow> len \<le> U64_MAX \<Longrightarrow>
    mem_step sops (fs, as @ h # bs) (fs', as @ h' # bs)"
| step_h_drop: "mem_step sops (fs, as @ h # bs) (memfs_h_drop h fs, as @ bs)"

inductive mem_reach :: "'s stream_ops \<Rightarrow> u64 \<Rightarrow> 's mem_state \<Rightarrow> bool"
  for sops :: "'s stream_ops" and capacity :: u64 where
  reach_init: "mem_reach sops capacity (memfs_with_capacity now capacity, [])"
| reach_step: "mem_reach sops capacity st \<Longrightarrow> mem_step sops st st' \<Longrightarrow> mem_reach sops capacity st'"

definition held :: "handle list \<Rightarrow> nat \<Rightarrow> nat" where
  "held hs i = sum_list (map (handle_refs i) hs)"

lemma held_simps [simp]:
  "held [] i = 0" "held (h # hs) i = handle_refs i h + held hs i" "held (as @ bs) i = held as i + held bs i"
  by (simp_all add: held_def)

lemma held_new_handle [simp]: "held (new_handle r) i = opened i r"
  by (cases r rule: new_handle.cases) simp_all

lemma cap_step: "mem_step sops st st' \<Longrightarrow> cap (fst st') = cap (fst st)"
proof (induction rule: mem_step.induct)
  case (step_insert_file fs hs p src t)
  show ?case by (simp add: memfs_insert_file_def Let_def)
next
  case (step_insert_writable fs hs p)
  then show ?case
    by (auto simp: memfs_insert_writable_def Let_def dest: cap_arc_new split: prod.splits)
next
  case (step_open p opts fs r fs' hs)
  then show ?case by (auto simp: memfs_open_def split: option.splits node.splits)
next
  case (step_open_write p opts fs r fs' hs)
  then show ?case
    by (auto simp: memfs_open_write_def Let_def dest!: cap_finish_open_write cap_arc_new
        split: option.splits node.splits if_splits prod.splits)
next
  case (step_remove p fs r fs' hs)
  then show ?case by (auto simp: memfs_remove_def Let_def split: option.splits node.splits if_splits)
next
  case (step_rename p q fs r fs' hs)
  then show ?case by (auto simp: memfs_rename_def Let_def split: option.splits if_splits)
next
  case (step_create_dir p fs r fs' hs)
  then show ?case by (auto simp: memfs_create_dir_def Let_def split: option.splits)
next
  case (step_set_len p len fs r fs' hs)
  then show ?case
    by (auto simp: memfs_set_len_def split: option.splits node.splits prod.splits dest: cap_file_set_len)
next
  case (step_h_read h n fs r h' fs' as bs)
  then show ?case by (cases h) (auto simp: Let_def split: option.splits prod.splits)
next
  case (step_h_seek h sf fs r h' fs' as bs)
  then show ?case by (auto dest: h_seek_same)
next
  case (step_h_write h buf fs r h' fs' as bs)
  then show ?case by (simp add: cap_h_write)
next
  case (step_h_set_len h len fs r h' fs' as bs)
  then show ?case by (cases h) (auto split: prod.splits dest: cap_file_set_len)
next
  case (step_h_drop fs as h bs)
  show ?case by (cases h) simp_all
qed simp_all

lemma fs_ok_replace:
  "fs_ok (held (as @ h # bs)) fs \<Longrightarrow> (\<And>i. handle_refs i h' = handle_refs i h) \<Longrightarrow>
     fs_ok (held (as @ h' # bs)) fs"
  by (erule fs_ok_cong) simp

lemma step_ok: "mem_step sops st st' \<Longrightarrow> fs_ok (held (snd st)) (fst st) \<Longrightarrow> fs_ok (held (snd st')) (fst st')"
proof (induction rule: mem_step.induct)
  case (step_tick fs hs t)
  then show ?case by (simp add: fs_ok_def strong_def)
next
  case (step_open p opts fs r fs' hs)
  then have "fs_ok (\<lambda>i. held hs i + opened i r) fs'" by (simp add: open_ok)
  then have "fs_ok (held (new_handle r @ hs)) fs'" by (rule fs_ok_cong) simp
  then show ?case by (simp only: fst_conv snd_conv)
next
  case (step_open_write p opts fs r fs' hs)
  then have "fs_ok (\<lambda>i. held hs i + opened i r) fs'" by (simp add: open_write_ok)
  then have "fs_ok (held (new_handle r @ hs)) fs'" by (rule fs_ok_cong) simp
  then show ?case by (simp only: fst_conv snd_conv)
next
  case (step_h_read h n fs r h' fs' as bs)
  then have ok: "fs_ok (held (as @ h # bs)) fs" by (simp only: fst_conv snd_conv)
  have "fs_ok (held (as @ h' # bs)) fs'"
    by (rule fs_ok_replace [OF h_read_ok [OF ok step_h_read(1)]])
  then show ?case by (simp only: fst_conv snd_conv)
next
  case (step_h_seek h sf fs r h' fs' as bs)
  then have ok: "fs_ok (held (as @ h # bs)) fs" by (simp only: fst_conv snd_conv)
  have "fs_ok (held (as @ h' # bs)) fs'"
    using fs_ok_replace [OF ok] h_seek_same [OF step_h_seek(1)] by blast
  then show ?case by (simp only: fst_conv snd_conv)
next
  case (step_h_write h buf fs r h' fs' as bs)
  then have ok: "fs_ok (held (as @ h # bs)) fs" by (simp only: fst_conv snd_conv)
  have "fs_ok (held (as @ h' # bs)) fs'"
    by (rule fs_ok_replace [OF h_write_ok [OF ok step_h_write(1)]])
  then show ?case by (simp only: fst_conv snd_conv)
next
  case (step_h_set_len h len fs r h' fs' as bs)
  then have ok: "fs_ok (held (as @ h # bs)) fs" by (simp only: fst_conv snd_conv)
  have "fs_ok (held (as @ h' # bs)) fs'"
    using fs_ok_replace h_set_len_ok [OF ok step_h_set_len(2,1)] by blast
  then show ?case by (simp only: fst_conv snd_conv)
next
  case (step_h_drop fs as h bs)
  then have "fs_ok (held (as @ h # bs)) fs" by (simp only: fst_conv snd_conv)
  then have "fs_ok (\<lambda>i. held (as @ bs) i + handle_refs i h) fs" by (rule fs_ok_cong) simp
  then have "fs_ok (held (as @ bs)) (memfs_h_drop h fs)" by (rule h_drop_ok)
  then show ?case by (simp only: fst_conv snd_conv)
qed (auto simp: insert_file_ok insert_writable_ok remove_subtree_ok
      intro: remove_ok rename_ok create_dir_ok set_len_ok)

lemma reach_ok:
  "mem_reach sops capacity st \<Longrightarrow> capacity < U64_MAX \<Longrightarrow> fs_ok (held (snd st)) (fst st) \<and> cap (fst st) = capacity"
proof (induction rule: mem_reach.induct)
  case (reach_init now)
  have "held [] = (\<lambda>_. 0)" by auto
  then show ?case using reach_init fs_ok_init [of capacity now]
    by (simp add: cap_def memfs_with_capacity_def volume_new_def)
next
  case (reach_step st st')
  then show ?case using step_ok cap_step by metis
qed


section \<open>What the volume is charged for\<close>

definition file_len :: "'s memfs \<Rightarrow> nat \<Rightarrow> nat" where
  "file_len fs i = (case mem_get i fs of Some f \<Rightarrow> length (mf_data f) | None \<Rightarrow> 0)"

definition live_files :: "'s memfs \<Rightarrow> handle list \<Rightarrow> nat set" where
  "live_files fs hs = {i. \<exists>k nm. (k, NMem i nm) \<in> set (fs_entries fs)} \<union> {i. \<exists>pos. HMem i pos \<in> set hs}"

lemma refers_pos: "0 < refers i nd \<longleftrightarrow> (\<exists>nm. nd = NMem i nm)"
  by (cases nd) auto

lemma handle_refs_pos: "0 < handle_refs i h \<longleftrightarrow> (\<exists>pos. h = HMem i pos)"
  by (cases h) auto

lemma wsum_pos: "0 < wsum w m \<longleftrightarrow> (\<exists>(k, v) \<in> set m. 0 < w v)"
  by (induction m) (auto simp: wsum_def)

lemma held_pos: "0 < held hs i \<longleftrightarrow> (\<exists>pos. HMem i pos \<in> set hs)"
  by (induction hs) (auto simp: handle_refs_pos)

lemma heap_dom_live:
  assumes "fs_ok (held hs) fs" shows "fst ` set (fs_heap fs) = live_files fs hs"
proof -
  have "i \<in> fst ` set (fs_heap fs) \<longleftrightarrow> 0 < strong i fs" for i
    using fs_okD(6) [OF assms]
    by (auto simp: strong_def map_of_eq_None_iff rev_image_eqI dest: map_of_SomeD split: option.splits)
  then show ?thesis
    unfolding fs_okD(7) [OF assms] live_files_def add_gr_0 wsum_pos held_pos refers_pos by fast
qed

lemma wsum_heap:
  "distinct (map fst m) \<Longrightarrow> wsum w m = (\<Sum>i \<in> fst ` set m. w (the (map_of m i)))"
proof (induction m)
  case (Cons kv m)
  then show ?case by (cases kv) (auto simp: wsum_def rev_image_eqI intro!: sum.cong)
qed (simp add: wsum_def)

lemma used_live:
  assumes "fs_ok (held hs) fs"
  shows "vol_used (fs_volume fs) = (\<Sum>i \<in> live_files fs hs. file_len fs i)"
proof -
  have "file_bytes (the (map_of (fs_heap fs) i)) = file_len fs i" if "i \<in> fst ` set (fs_heap fs)" for i
  proof -
    have "map_of (fs_heap fs) i \<noteq> None" using that by (simp add: map_of_eq_None_iff)
    then show ?thesis by (auto simp: file_bytes_def file_len_def mem_get_def)
  qed
  then show ?thesis
    using fs_okD(5) [OF assms] wsum_heap [OF fs_okD(2) [OF assms]]
    by (simp add: heap_dom_live [OF assms])
qed

text \<open>Dropping a reference that is not the last one leaves every file and the volume alone;
  dropping the last one returns exactly the file's bytes.\<close>

lemma arc_drop_shared:
  assumes "1 < strong i fs"
  shows "mem_get j (arc_drop i fs) = mem_get j fs" "fs_volume (arc_drop i fs) = fs_volume fs"
  using assms by (auto simp: arc_drop_def strong_def mem_get_def split: option.splits)

lemma arc_drop_last:
  assumes "fs_ok ext fs" "strong i fs = 1"
  shows "vol_used (fs_volume (arc_drop i fs)) + file_len fs i = vol_used (fs_volume fs)"
    "mem_get i (arc_drop i fs) = None"
proof -
  obtain f where f: "map_of (fs_heap fs) i = Some (f, 1)"
    using assms(2) by (auto simp: strong_def split: option.splits)
  then have "length (mf_data f) \<le> vol_used (fs_volume fs)"
    using file_in_ok [OF assms(1), of i f] by (simp add: mem_get_def file_in_def)
  with f show "vol_used (fs_volume (arc_drop i fs)) + file_len fs i = vol_used (fs_volume fs)"
    "mem_get i (arc_drop i fs) = None"
    by (auto simp: arc_drop_def file_len_def mem_get_def mem_file_drop_def volume_release_def)
qed

section \<open>A run\<close>

text \<open>Create and open \<^verbatim>\<open>/a\<close> on a volume of ten bytes, write three bytes, unlink it while it
  is open.\<close>

definition demo_open :: "handle io_result option \<times> (mem_file \<times> u64) memfs" where
  "demo_open = memfs_open_write U64_MAX ''/a'' oo_write_truncate (memfs_with_capacity 0 10)"

definition demo_written :: "nat io_result \<times> handle \<times> (mem_file \<times> u64) memfs" where
  "demo_written = memfs_h_write U64_MAX (HMem 0 0) [1, 2, 3] (snd demo_open)"

definition demo_unlinked :: "unit io_result option \<times> (mem_file \<times> u64) memfs" where
  "demo_unlinked = memfs_remove ''/a'' (snd (snd demo_written))"

lemma demo_paths:
  "normalize_key ''/a'' = ''/a''" "final_component ''/a'' = ''a''" "path_parent ''/a'' = Some ''/''"
  "normalize_key ''/'' = ''/''" "final_component ''/'' = ''/''" "path_parent ''/'' = None"
  by code_simp+

lemma insert_dirs_from_root: "insert_dirs_from ''/'' m =
   (case map_of m ''/'' of None \<Rightarrow> AList.update ''/'' (NDir ''/'') m | Some _ \<Rightarrow> m)"
  by (subst insert_dirs_from.simps) (simp add: demo_paths Let_def split: option.splits)

lemma demo_bytes: "vec_resize 3 0 [] = [0, 0, 0 :: byte]" "vec_copy_at 0 [1, 2, 3] [0, 0, 0 :: byte] = [1, 2, 3]"
  by (simp_all add: vec_resize_def vec_copy_at_def numeral_3_eq_3)

lemma demo_open_eq: "demo_open = (Some (Inr (HMem 0 0)),
  \<lparr>fs_entries = [(''/a'', NMem 0 ''a''), (''/'', NDir ''/'')],
   fs_volume = \<lparr>vol_capacity = 10, vol_used = 0\<rparr>,
   fs_heap = [(0, \<lparr>mf_data = [], mf_mtime = Some 0\<rparr>, 2)], fs_fresh = 1, fs_sources = [], fs_now = 0\<rparr>)"
  by (simp add: demo_open_def memfs_open_write_def Let_def demo_paths memfs_with_capacity_def
      volume_new_def arc_new_def arc_clone_def oo_write_truncate_def oo_default_def oo_creates_def
      entry_insert_def add_ancestors_def insert_ancestor_dirs_def insert_dirs_from_root
      mem_file_new_def finish_open_write_def file_set_len_def mem_get_def mem_file_set_len_def
      volume_resize_def sat_add_def wrap_add_def mem_put_def mem_file_touch_def vec_resize_def
      numeral_2_eq_2)

lemma demo_written_eq: "demo_written = (Inr 3, HMem 0 3,
  \<lparr>fs_entries = [(''/a'', NMem 0 ''a''), (''/'', NDir ''/'')],
   fs_volume = \<lparr>vol_capacity = 10, vol_used = 3\<rparr>,
   fs_heap = [(0, \<lparr>mf_data = [1, 2, 3], mf_mtime = Some 0\<rparr>, 2)],
   fs_fresh = 1, fs_sources = [], fs_now = 0\<rparr>)"
  by (simp add: demo_written_def demo_open_eq mem_get_def mem_file_write_at_def checked_add_def
      U64_MAX_def Let_def volume_reserve_def wrap_add_def demo_bytes mem_file_touch_def sat_add_def
      mem_put_def)

lemma demo_unlinked_eq: "demo_unlinked = (Some (Inr ()),
  \<lparr>fs_entries = [(''/'', NDir ''/'')], fs_volume = \<lparr>vol_capacity = 10, vol_used = 3\<rparr>,
   fs_heap = [(0, \<lparr>mf_data = [1, 2, 3], mf_mtime = Some 0\<rparr>, 1)],
   fs_fresh = 1, fs_sources = [], fs_now = 0\<rparr>)"
  by (simp add: demo_unlinked_def demo_written_eq memfs_remove_def demo_paths Let_def entry_remove_def
      arc_drop_def)

lemma demo_written_reach: "mem_reach (mem_handle_ops U64_MAX) 10 (snd (snd demo_written), [HMem 0 3])"
proof -
  have "memfs_open_write U64_MAX ''/a'' oo_write_truncate (memfs_with_capacity 0 10) =
      (Some (Inr (HMem 0 0)), snd demo_open)"
    using demo_open_eq by (simp add: demo_open_def)
  from reach_step [OF reach_init step_open_write [OF this]]
  have 1: "mem_reach (mem_handle_ops U64_MAX) 10 (snd demo_open, [] @ HMem 0 0 # [])" by simp
  have "memfs_h_write U64_MAX (HMem 0 0) [1, 2, 3] (snd demo_open) = (Inr 3, HMem 0 3, snd (snd demo_written))"
    using demo_written_eq by (simp add: demo_written_def)
  from reach_step [OF 1 step_h_write [OF this]] show ?thesis by simp
qed

lemma demo_unlinked_reach: "mem_reach (mem_handle_ops U64_MAX) 10 (snd demo_unlinked, [HMem 0 3])"
proof -
  have "memfs_remove ''/a'' (snd (snd demo_written)) = (Some (Inr ()), snd demo_unlinked)"
    using demo_unlinked_eq by (simp add: demo_unlinked_def)
  from reach_step [OF demo_written_reach step_remove [OF this]] show ?thesis .
qed

section \<open>Properties\<close>

text \<open>C1. In every state a client can reach, the volume is charged exactly the bytes of the
  files that a tree node or an open handle still holds, and never more than its capacity:
  unlinked files stay charged while they are open, and nothing is charged for the others.\<close>

theorem memory_volume_accounting:
  assumes "capacity < U64_MAX" "mem_reach sops capacity (fs, hs)"
  shows "vol_used (fs_volume fs) = (\<Sum>i \<in> live_files fs hs. file_len fs i)
    \<and> vol_used (fs_volume fs) \<le> capacity"
proof -
  have ok: "fs_ok (held hs) fs" "cap fs = capacity" using reach_ok [OF assms(2,1)] by auto
  then show ?thesis using used_live fs_okD(4) [OF ok(1)] by (auto simp: vol_ok_def cap_def)
qed

theorem memory_volume_accounting_witness:
  "mem_reach (mem_handle_ops U64_MAX) 10 (snd demo_unlinked, [HMem 0 3])
   \<and> (\<Sum>i \<in> live_files (snd demo_unlinked) [HMem 0 3]. file_len (snd demo_unlinked) i) = 3"
  using memory_volume_accounting [OF _ demo_unlinked_reach] demo_unlinked_reach
  by (simp add: U64_MAX_def demo_unlinked_eq)

text \<open>Unlinking a file that some handle has open succeeds and removes the name, and leaves the
  file itself, its contents and the volume's accounts untouched.\<close>

theorem unlink_keeps_open_file:
  assumes "capacity < U64_MAX" "mem_reach sops capacity (fs, hs)"
    and "map_of (fs_entries fs) (normalize_key p) = Some (NMem i nm)" "HMem i pos \<in> set hs"
    and "memfs_remove p fs = (r, fs')"
  shows "r = Some (Inr ()) \<and> map_of (fs_entries fs') (normalize_key p) = None
    \<and> mem_get i fs' = mem_get i fs \<and> fs_volume fs' = fs_volume fs"
proof -
  let ?k = "normalize_key p" and ?del = "\<lambda>m. AList.delete (normalize_key p) m"
  have ok: "fs_ok (held hs) fs" using reach_ok [OF assms(2,1)] by simp
  have "0 < held hs i" using assms(4) held_pos by blast
  moreover have "0 < wsum (refers i) (fs_entries fs)"
    using wsum_ge [OF assms(3), of "refers i"] by simp
  ultimately have s: "1 < strong i (fs\<lparr>fs_entries := ?del (fs_entries fs)\<rparr>)"
    using fs_okD(7) [OF ok, of i] by (simp add: strong_def)
  have "r = Some (Inr ())" "fs' = arc_drop i (fs\<lparr>fs_entries := ?del (fs_entries fs)\<rparr>)"
    using assms(3,5) by (auto simp: memfs_remove_def entry_remove_def)
  moreover have "fs_entries (arc_drop i g) = fs_entries g" for g :: "'a memfs"
    by (simp add: arc_drop_def split: option.splits prod.splits)
  ultimately show ?thesis using arc_drop_shared [OF s] by (simp add: mem_get_def delete_conv)
qed

theorem unlink_keeps_open_file_witness:
  "memfs_remove ''/a'' (snd (snd demo_written)) = (Some (Inr ()), snd demo_unlinked)
   \<and> mem_get 0 (snd demo_unlinked) = mem_get 0 (snd (snd demo_written))"
  using unlink_keeps_open_file [OF _ demo_written_reach, of "''/a''" 0 "''a''" 3 "Some (Inr ())" "snd demo_unlinked"]
    demo_unlinked_eq
  by (simp add: U64_MAX_def demo_written_eq demo_unlinked_def demo_paths)

text \<open>Dropping the last reference to an unlinked file returns exactly its bytes to the volume
  and frees the file.\<close>

theorem last_close_releases:
  assumes "capacity < U64_MAX" "mem_reach sops capacity (fs, as @ HMem i pos # bs)"
    and "i \<notin> live_files fs (as @ bs)" "held (as @ bs) i = 0"
  shows "vol_used (fs_volume (memfs_h_drop (HMem i pos) fs)) + file_len fs i = vol_used (fs_volume fs)
    \<and> mem_get i (memfs_h_drop (HMem i pos) fs) = None"
proof -
  have ok: "fs_ok (held (as @ HMem i pos # bs)) fs" using reach_ok [OF assms(2,1)] by simp
  have "wsum (refers i) (fs_entries fs) = 0"
    using assms(3) wsum_pos [of "refers i" "fs_entries fs"] by (fastforce simp: live_files_def refers_pos)
  then have "strong i fs = 1" using fs_okD(7) [OF ok, of i] assms(4) by simp
  from arc_drop_last [OF ok this] show ?thesis by simp
qed

theorem last_close_releases_witness:
  "vol_used (fs_volume (memfs_h_drop (HMem 0 3) (snd demo_unlinked))) = 0"
  using last_close_releases [of 10 "mem_handle_ops U64_MAX" "snd demo_unlinked" "[]" 0 3 "[]"] demo_unlinked_reach
  by (simp add: U64_MAX_def demo_unlinked_eq live_files_def file_len_def mem_get_def)

end
