(* ===== verification/Unix_Memory.thy ===== *)
theory Unix_Memory
  imports Unix_Shims Memory_Machine
begin

text \<open>
  The shims over the in-memory filesystem: positioned reads and writes, the life of a descriptor,
  the working directory, and two calls that treat virtual descriptors in an unexpected way.
\<close>

section \<open>Engines in place\<close>

lemma put_engine_same: "current_engine (t_disp t) = Some e \<Longrightarrow> put_engine e t = t"
proof -
  assume "current_engine (t_disp t) = Some e"
  then obtain i where i: "d_active (t_disp t) = Some (e, i)" by (auto simp: current_engine_def)
  have "(t_disp t)\<lparr>d_active := Some (e, i)\<rparr> = t_disp t" using i by (cases "t_disp t") simp
  then show ?thesis using i by (simp add: put_engine_def)
qed

lemma current_put [simp]:
  "current_engine (t_disp t) = Some e' \<Longrightarrow> current_engine (t_disp (put_engine e t)) = Some e"
  by (auto simp: current_engine_def put_engine_def)

lemma put_engine_flag: "(put_engine e (t\<lparr>t_in_hook := b\<rparr>)) = (put_engine e t)\<lparr>t_in_hook := b\<rparr>"
  by (simp add: put_engine_def)

lemma insert_same: "get_file reg h = Some f \<Longrightarrow> insert_file reg h f = reg"
  by (simp add: insert_file_def get_file_def alist_update_same)

text \<open>A stream that comes back unchanged leaves the registry as it was.\<close>

lemma put_stream_back:
  assumes "get_file (eng_registry e) (as_usize fd) = Some file"
  shows "put_stream e fd file (of_stream file) v t = put_vfs e v t"
proof -
  have "file\<lparr>of_stream := of_stream file\<rparr> = file" by simp
  then show ?thesis using insert_same [OF assms] by (simp add: put_stream_def put_vfs_def)
qed

section \<open>Positioned access to a memory file\<close>

abbreviation mops :: "'s stream_ops \<Rightarrow> ('s memfs, handle) vfs_ops" where
  "mops sops \<equiv> memory_fs_ops sops U64_MAX"

lemma mem_stream_ops:
  assumes "stream_of s = HMem i pos" "mem_get i fs = Some f" "pos \<le> U64_MAX"
  shows "os_position (mops sops) s fs = (Inr pos, s, fs)"
    and "off \<le> U64_MAX \<Longrightarrow> os_seek (mops sops) s (Start off) fs = (Inr off, same_kind s (HMem i off), fs)"
    and "os_read (mops sops) s n fs =
      (Inr (take n (drop pos (mf_data f))), same_kind s (HMem i (sat_add pos (length (take n (drop pos (mf_data f)))))), fs)"
  using assms
  by (cases s; simp add: memory_fs_ops_def memfs_h_position_def memfs_h_seek_def read_at_data Let_def)+

lemma same_kind_simps [simp]: "stream_of (same_kind s h) = h" "same_kind (same_kind s h) h' = same_kind s h'"
  by (cases s; simp)+

lemma same_kind_id: "stream_of s = h \<Longrightarrow> same_kind s h = s"
  by (cases s) auto

lemma pread_at_offset:
  assumes "stream_of s = HMem i pos" "mem_get i fs = Some f" "pos \<le> U64_MAX" "off \<le> U64_MAX"
  shows "at_offset (mops sops) (\<lambda>s v. os_read (mops sops) s n v) off s fs =
    (Inr (take n (drop off (mf_data f))), s, fs)"
proof -
  let ?s2 = "same_kind s (HMem i off)"
  let ?k = "sat_add off (length (take n (drop off (mf_data f))))"
  let ?s3 = "same_kind s (HMem i ?k)"
  note S = mem_stream_ops [OF assms(1-3), where sops = sops]
  have 2: "os_read (mops sops) ?s2 n fs = (Inr (take n (drop off (mf_data f))), ?s3, fs)"
    using mem_stream_ops(3) [of ?s2 i off fs f, OF _ assms(2,4)] by simp
  have 3: "os_seek (mops sops) ?s3 (Start pos) fs = (Inr pos, s, fs)"
    using mem_stream_ops(2) [OF _ assms(2) sat_add_bound assms(3), of ?s3 off _ sops] same_kind_id [OF assms(1)] by simp
  show ?thesis by (simp add: at_offset_def S(1) S(2) [OF assms(4)] 2 3 del: length_take length_drop)
qed

lemma os_write_mem:
  assumes "stream_of s = HMem i pos" "s = WriteStream h"
  shows "os_write (mops sops) s buf fs =
    (case memfs_h_write U64_MAX (HMem i pos) buf fs of (r, h', fs') \<Rightarrow> (r, WriteStream h', fs'))"
  using assms by (simp add: memory_fs_ops_def)

lemma mem_get_put: "mem_get i fs = Some f0 \<Longrightarrow> mem_get i (mem_put i vol f fs) = Some f"
  by (auto simp: mem_get_def mem_put_def update_conv)

lemma pwrite_at_offset:
  assumes "of_s = WriteStream (HMem i pos)" "mem_get i fs = Some f" "pos \<le> U64_MAX" "off \<le> U64_MAX"
    and "mem_file_write_at U64_MAX (fs_now fs) off buf (fs_volume fs) f = (Inr k, vol, f')"
  shows "at_offset (mops sops) (\<lambda>s v. os_write (mops sops) s buf v) off of_s fs =
    (Inr k, of_s, mem_put i vol f' fs)"
proof -
  let ?fs = "mem_put i vol f' fs"
  have s: "stream_of of_s = HMem i pos" using assms(1) by simp
  note S = mem_stream_ops [OF s assms(2,3), where sops = sops]
  have 2: "os_write (mops sops) (WriteStream (HMem i off)) buf fs = (Inr k, WriteStream (HMem i (sat_add off k)), ?fs)"
    using assms(2,5) by (simp add: memory_fs_ops_def)
  have 3: "os_seek (mops sops) (WriteStream (HMem i (sat_add off k))) (Start pos) ?fs = (Inr pos, of_s, ?fs)"
    using mem_stream_ops(2) [OF _ mem_get_put [OF assms(2), of vol f'] sat_add_bound assms(3), of "WriteStream (HMem i (sat_add off k))" off k sops]
      assms(1) by simp
  show ?thesis using S(1) S(2) [OF assms(4)] 2 3 assms(1) by (simp add: at_offset_def)
qed

section \<open>Positioned calls\<close>

lemma flag_cycle: "\<not> t_in_hook t \<Longrightarrow> (store_bytes buf bs (t\<lparr>t_in_hook := True\<rparr>))\<lparr>t_in_hook := False\<rparr> = store_bytes buf bs t"
  by (cases t) (simp add: store_bytes_def)

lemma as_ssize_small: "n < 2 ^ 63 \<Longrightarrow> as_ssize n = int n"
  by (simp add: as_ssize_def)

lemma pread_memory:
  assumes "\<not> t_in_hook t" "current_engine (t_disp t) = Some e" "get_file (eng_registry e) (as_usize fd) = Some file"
    and "stream_of (of_stream file) = HMem i pos" "mem_get i (eng_vfs e) = Some f" "pos \<le> U64_MAX"
    and "buf \<noteq> 0" "0 < n" "n < 2 ^ 63" "0 \<le> off" "nat off \<le> U64_MAX"
  shows "shim_pread (mops sops) lc fd buf n off t =
    (int (length (take n (drop (nat off) (mf_data f)))), store_bytes buf (take n (drop (nat off) (mf_data f))) t)"
proof -
  let ?bs = "take n (drop (nat off) (mf_data f))"
  have len: "length ?bs < 2 ^ 63" using assms(9) by (simp add: min_def)
  have same: "put_vfs e (eng_vfs e) (t\<lparr>t_in_hook := True\<rparr>) = t\<lparr>t_in_hook := True\<rparr>"
    using put_engine_same [of "t\<lparr>t_in_hook := True\<rparr>" e] assms(2) by (simp add: put_vfs_def)
  show ?thesis
    unfolding shim_pread_def shim_eq fd_routed_serve [OF assms(1-3)]
    using assms(7,8,10) flag_cycle [OF assms(1), of buf ?bs]
    by (simp add: pread_at_offset [OF assms(4,5,6,11)] put_stream_back [OF assms(3)] same as_ssize_small [OF len] del: length_take length_drop)
qed

lemma pwrite_memory:
  assumes "\<not> t_in_hook t" "current_engine (t_disp t) = Some e" "get_file (eng_registry e) (as_usize fd) = Some file"
    and "of_stream file = WriteStream (HMem i pos)" "of_writable file" "mem_get i (eng_vfs e) = Some f" "pos \<le> U64_MAX"
    and "buf \<noteq> 0" "0 < n" "0 \<le> off" "nat off \<le> U64_MAX" "k < 2 ^ 63"
    and "mem_file_write_at U64_MAX (fs_now (eng_vfs e)) (nat off) (load_bytes buf n t) (fs_volume (eng_vfs e)) f = (Inr k, vol, f')"
  shows "shim_pwrite (mops sops) lc fd buf n off t = (int k, put_vfs e (mem_put i vol f' (eng_vfs e)) t)"
proof -
  have l: "load_bytes buf n (t\<lparr>t_in_hook := True\<rparr>) = load_bytes buf n t" by (simp add: load_bytes_def)
  have fl: "(put_vfs e v (t\<lparr>t_in_hook := True\<rparr>))\<lparr>t_in_hook := False\<rparr> = put_vfs e v t" for v
    using assms(1) by (cases t) (simp add: put_vfs_def put_engine_def)
  note W = pwrite_at_offset [OF assms(4,6,7,11,13), of sops, unfolded assms(4)]
  note B = put_stream_back [OF assms(3), unfolded assms(4)]
  show ?thesis
    unfolding shim_pwrite_def shim_eq fd_routed_serve [OF assms(1-3)]
    using assms(5,8,9,10) by (simp add: l assms(4) W B fl as_ssize_small [OF assms(12)])
qed

lemma pwrite_error:
  assumes "\<not> t_in_hook t" "current_engine (t_disp t) = Some e" "get_file (eng_registry e) (as_usize fd) = Some file"
    and "of_stream file = WriteStream (HMem i pos)" "of_writable file" "mem_get i (eng_vfs e) = Some f" "pos \<le> U64_MAX"
    and "buf \<noteq> 0" "0 < n" "0 \<le> off" "nat off \<le> U64_MAX"
    and "mem_file_write_at U64_MAX (fs_now (eng_vfs e)) (nat off) (load_bytes buf n t) (fs_volume (eng_vfs e)) f = (Inl err, vol, f')"
  shows "fst (shim_pwrite (mops sops) lc fd buf n off t) = - 1"
proof -
  have l: "load_bytes buf n (t\<lparr>t_in_hook := True\<rparr>) = load_bytes buf n t" by (simp add: load_bytes_def)
  have s: "stream_of (WriteStream (HMem i pos)) = HMem i pos" by simp
  note S = mem_stream_ops [OF s assms(6,7), where sops = sops]
  have "os_write (mops sops) (WriteStream (HMem i (nat off))) (load_bytes buf n t) (eng_vfs e) =
      (Inl err, WriteStream (HMem i (nat off)), mem_put i vol f' (eng_vfs e))"
    using assms(6,12) by (simp add: memory_fs_ops_def)
  then have "fst (at_offset (mops sops) (\<lambda>s v. os_write (mops sops) s (load_bytes buf n t) v) (nat off) (of_stream file) (eng_vfs e))
      = Inl err"
    using S(1) S(2) [OF assms(11)] assms(4) by (simp add: at_offset_def case_prod_beta)
  then show ?thesis
    unfolding shim_pwrite_def shim_eq fd_routed_serve [OF assms(1-3)]
    using assms(5,8,9,10) by (auto simp: l fail_def split: prod.splits sum.splits)
qed

section \<open>Opening and closing\<close>

lemma update_twice_same: "map_of al k = Some v \<Longrightarrow> AList.update k v (AList.update k w al) = al"
  by (induction al) auto

lemma delete_update_absent: "map_of al k = None \<Longrightarrow> AList.delete k (AList.update k v al) = al"
  by (induction al) (auto split: if_splits)

lemma arc_clone_drop:
  assumes "map_of (fs_heap fs) i = Some (f, c)" "0 < c"
  shows "arc_drop i (arc_clone i fs) = fs"
  using assms by (simp add: arc_drop_def arc_clone_def update_conv update_twice_same alist_update_same)

lemma registry_open_close: "get_file reg h = None \<Longrightarrow> remove_file (insert_file reg h f) h = (Some f, reg)"
  by (simp add: remove_file_def insert_file_def get_file_def update_conv delete_update_absent)

lemma open_read_memory:
  assumes "\<not> t_in_hook t" "decode_cstr path = Some d" "current_engine (t_disp t) = Some e" "classify e d = Virtual p"
    and "map_of (fs_entries (eng_vfs e)) (normalize_key p) = Some (NMem i name)"
    and "\<not> oo_write (open_flags flags)" "\<And>m. fst (lc_orig lc Open [CStr (Some (''/dev/null'' @ [NUL])), CInt O_CLOEXEC] m) = fd"
    and "0 \<le> fd" "get_file (eng_registry e) (as_usize fd) = None"
  shows "\<exists>m. open_impl (mops sops) lc s path flags mode t =
    (fd, (put_engine (e\<lparr>eng_vfs := arc_clone i (eng_vfs e), eng_registry := insert_file (eng_registry e) (as_usize fd)
       \<lparr>of_stream = ReadStream (HMem i 0), of_path = p, of_writable = False\<rparr>\<rparr>) t)\<lparr>t_mach := m\<rparr>)"
proof -
  have v: "open_via (mops sops) p (open_flags flags) (eng_vfs e) = (Some (Inr (ReadStream (HMem i 0))), arc_clone i (eng_vfs e))"
    using assms(5,6) by (simp add: open_via_def memory_fs_ops_def memfs_open_def)
  let ?t = "put_vfs e (arc_clone i (eng_vfs e)) (t\<lparr>t_in_hook := True\<rparr>)"
  obtain m where m: "lc_orig lc Open [CStr (Some (''/dev/null'' @ [NUL])), CInt O_CLOEXEC] (t_mach ?t) = (fd, m)"
    using assms(7) [of "t_mach ?t"] by (metis prod.collapse)
  have c: "carrier_fd lc ?t = (Some fd, ?t\<lparr>t_mach := m\<rparr>)" using m assms(8) by (simp add: carrier_fd_def call_orig_def)
  have "open_impl (mops sops) lc s path flags mode t =
    (fd, (put_engine (e\<lparr>eng_vfs := arc_clone i (eng_vfs e), eng_registry := insert_file (eng_registry e) (as_usize fd)
       \<lparr>of_stream = ReadStream (HMem i 0), of_path = p, of_writable = False\<rparr>\<rparr>) (?t\<lparr>t_mach := m\<rparr>))\<lparr>t_in_hook := False\<rparr>)"
    unfolding open_impl_def shim_eq path_routed_serve [OF assms(1-4)]
    using assms(6,9) v c by (simp add: open_virtual_fd_def Let_def)
  moreover have "(put_engine x (?t\<lparr>t_mach := m\<rparr>))\<lparr>t_in_hook := False\<rparr> = (put_engine x t)\<lparr>t_mach := m\<rparr>" for x
    using assms(1,3) by (cases t) (auto simp: put_engine_def put_vfs_def current_engine_def)
  ultimately show ?thesis by auto
qed

section \<open>A demonstration run\<close>

text \<open>The file \<^verbatim>\<open>/a\<close> of the machine's demonstration, open for writing as descriptor 7.\<close>

definition rw_file :: "handle open_file" where
  "rw_file = \<lparr>of_stream = WriteStream (HMem 0 3), of_path = ''/a'', of_writable = True\<rparr>"

definition rw_engine :: "((mem_file \<times> u64) memfs, handle) engine" where
  "rw_engine = (engine_new (snd (snd demo_written)) (from_root ''/a'') True)
     \<lparr>eng_registry := insert_file registry_new 7 rw_file\<rparr>"

definition rw_thread :: "((mem_file \<times> u64) memfs, handle, unit, nat) thread" where
  "rw_thread = put_engine rw_engine demo_thread"

lemma rw_simps:
  "\<not> t_in_hook rw_thread" "current_engine (t_disp rw_thread) = Some rw_engine"
  "get_file (eng_registry rw_engine) (as_usize 7) = Some rw_file" "virtual_fd rw_thread 7 = Some rw_file"
  "mem_get 0 (eng_vfs rw_engine) = Some \<lparr>mf_data = [1, 2, 3], mf_mtime = Some 0\<rparr>"
  "vol_ok (fs_volume (eng_vfs rw_engine))" "file_in (fs_volume (eng_vfs rw_engine)) \<lparr>mf_data = [1, 2, 3], mf_mtime = Some 0\<rparr>"
  "get_file (eng_registry rw_engine) (as_usize 3) = None"
  by (simp_all add: rw_thread_def demo_thread_def put_engine_def current_engine_def rw_engine_def engine_new_def as_usize_def
      get_file_def insert_file_def registry_new_def virtual_fd_def mem_get_def demo_written_eq vol_ok_def file_in_def U64_MAX_def)

section \<open>Properties\<close>

text \<open>C23. Positioned writes and reads agree and do not disturb the descriptor: after \<open>pwrite\<close> reports
  \<open>k\<close> bytes, \<open>pread\<close> of \<open>k\<close> bytes at the same offset returns exactly the first \<open>k\<close> bytes of the
  caller's buffer, and the descriptor still has the position it had.\<close>

theorem pwrite_then_pread:
  assumes "\<not> t_in_hook t" "current_engine (t_disp t) = Some e" "get_file (eng_registry e) (as_usize fd) = Some file"
    and "of_stream file = WriteStream (HMem i pos)" "of_writable file" "pos \<le> U64_MAX" "mem_get i (eng_vfs e) = Some f"
    and "vol_ok (fs_volume (eng_vfs e))" "file_in (fs_volume (eng_vfs e)) f"
    and "src \<noteq> 0" "dst \<noteq> 0" "0 < n" "n < 2 ^ 63" "0 \<le> off" "off < 2 ^ 63"
    and "shim_pwrite (memory_fs_ops sops U64_MAX) lc fd src n off t = (int k, t1)"
  shows "0 < k \<and> k \<le> n \<and> virtual_fd t1 fd = Some file
    \<and> shim_pread (memory_fs_ops sops U64_MAX) lc fd dst k off t1 = (int k, store_bytes dst (take k (load_bytes src n t)) t1)"
proof -
  have off: "nat off \<le> U64_MAX" using assms(14,15) by (simp add: U64_MAX_def)
  let ?buf = "load_bytes src n t"
  have buf: "?buf \<noteq> []" "length ?buf = n" using assms(12) by (auto simp: load_bytes_def)
  obtain r vol f' where w: "mem_file_write_at U64_MAX (fs_now (eng_vfs e)) (nat off) ?buf (fs_volume (eng_vfs e)) f = (r, vol, f')"
    by (metis prod_cases3)
  obtain k' where r: "r = Inr k'"
  proof (cases r)
    case (Inl err)
    from pwrite_error [OF assms(1-5,7,6,10,12,14) off w [unfolded Inl], of sops lc] assms(16) show ?thesis by simp
  qed (use that in blast)
  note W = write_at_success [OF assms(8,9) buf(1) w [unfolded r]]
  have small: "k' < 2 ^ 63" using W(2) buf(2) assms(13) by simp
  note P = pwrite_memory [OF assms(1-5,7,6,10,12,14) off small w [unfolded r], where lc = lc and sops = sops]
  have k: "k' = k" and t1: "t1 = put_vfs e (mem_put i vol f' (eng_vfs e)) t" using P assms(16) by auto
  let ?e1 = "e\<lparr>eng_vfs := mem_put i vol f' (eng_vfs e)\<rparr>"
  have e1: "\<not> t_in_hook t1" "current_engine (t_disp t1) = Some ?e1" using assms(1,2) by (simp_all add: t1 put_vfs_def put_engine_def current_engine_def) auto
  have f1: "get_file (eng_registry ?e1) (as_usize fd) = Some file" "mem_get i (eng_vfs ?e1) = Some f'"
    using assms(3) mem_get_put [OF assms(7)] by auto
  have s: "stream_of (of_stream file) = HMem i pos" using assms(4) by simp
  have k0: "0 < k" "k < 2 ^ 63" using W(1) small k by simp_all
  have l: "length (take k ?buf) = k" using W(2) k by simp
  then have "take k (drop (nat off) (mf_data f')) = take k ?buf"
    using W(4) k take_drop_file_write [of "take k ?buf" "nat off" "mf_data f"] by simp
  moreover have "virtual_fd t1 fd = Some file" using e1 f1 by (simp add: virtual_fd_def)
  ultimately show ?thesis
    using pread_memory [OF e1 f1(1) s f1(2) assms(6) assms(11) k0 assms(14) off, of sops lc] k0(1) W(2) k buf(2) l by simp
qed

theorem pwrite_then_pread_witness:
  "\<exists>t1. shim_pwrite demo_ops demo_libc 7 100 2 1 rw_thread = (2, t1)
     \<and> shim_pread demo_ops demo_libc 7 200 2 1 t1 = (2, store_bytes 200 [0, 0] t1) \<and> virtual_fd t1 7 = Some rw_file"
proof -
  let ?f = "\<lparr>mf_data = [1, 2, 3 :: byte], mf_mtime = Some 0\<rparr>" and ?v = "eng_vfs rw_engine"
  have load: "load_bytes 100 2 rw_thread = [0, 0]"
    by (simp add: load_bytes_def rw_thread_def demo_thread_def put_engine_def upt_rec)
  obtain vol f' where "mem_file_write_at U64_MAX (fs_now ?v) (nat 1) [0, 0] (fs_volume ?v) ?f = (Inr 2, vol, f')"
    by (simp add: mem_file_write_at_def checked_add_def U64_MAX_def Let_def volume_reserve_def wrap_add_def rw_engine_def
        engine_new_def demo_written_eq)
  then have w: "mem_file_write_at U64_MAX (fs_now ?v) (nat 1) (load_bytes 100 2 rw_thread) (fs_volume ?v) ?f = (Inr 2, vol, f')"
    by (simp add: load)
  have rw: "of_stream rw_file = WriteStream (HMem 0 3)" "of_writable rw_file" "(3 :: nat) \<le> U64_MAX"
    by (simp_all add: rw_file_def U64_MAX_def)
  have "shim_pwrite demo_ops demo_libc 7 100 2 1 rw_thread = (int 2, put_vfs rw_engine (mem_put 0 vol f' ?v) rw_thread)"
    by (rule pwrite_memory [OF rw_simps(1-3) rw(1,2) rw_simps(5) rw(3) _ _ _ _ _ w]) (simp_all add: U64_MAX_def)
  from pwrite_then_pread [OF rw_simps(1-3) rw rw_simps(5-7) _ _ _ _ _ _ this, of 200] this show ?thesis by (simp add: load)
qed

text \<open>Opening a memory file for reading and closing the descriptor again leaves the installation as it
  was: the registry and the provider with its reference counts are restored exactly, whatever the
  carrier descriptor was.\<close>

theorem open_close_leaves_no_trace:
  assumes "\<not> t_in_hook t" "decode_cstr path = Some d" "current_engine (t_disp t) = Some e" "classify e d = Virtual p"
    and "map_of (fs_entries (eng_vfs e)) (normalize_key p) = Some (NMem i name)"
    and "map_of (fs_heap (eng_vfs e)) i = Some (f, c)" "0 < c" "\<not> oo_write (open_flags flags)"
    and "\<forall>m. fst (lc_orig lc Open [CStr (Some (''/dev/null'' @ [NUL])), CInt O_CLOEXEC] m) = fd" "0 \<le> fd"
    and "get_file (eng_registry e) (as_usize fd) = None"
  shows "\<exists>t1. open_impl (memory_fs_ops sops U64_MAX) lc s path flags mode t = (fd, t1)
    \<and> virtual_fd t1 fd = Some \<lparr>of_stream = ReadStream (HMem i 0), of_path = p, of_writable = False\<rparr>
    \<and> t_disp (snd (shim_close (memory_fs_ops sops U64_MAX) lc fd t1)) = t_disp t"
proof -
  let ?file = "\<lparr>of_stream = ReadStream (HMem i 0), of_path = p, of_writable = False\<rparr>"
  let ?e1 = "e\<lparr>eng_vfs := arc_clone i (eng_vfs e), eng_registry := insert_file (eng_registry e) (as_usize fd) ?file\<rparr>"
  obtain m where o: "open_impl (mops sops) lc s path flags mode t = (fd, (put_engine ?e1 t)\<lparr>t_mach := m\<rparr>)"
    using open_read_memory [OF assms(1-5,8) _ assms(10,11)] assms(9) by blast
  let ?t1 = "(put_engine ?e1 t)\<lparr>t_mach := m\<rparr>"
  have t1: "\<not> t_in_hook ?t1" "current_engine (t_disp ?t1) = Some ?e1"
    using assms(1,3) by (auto simp: put_engine_def current_engine_def)
  have v: "virtual_fd ?t1 fd = Some ?file"
    using t1(2) by (simp add: virtual_fd_def get_file_def insert_file_def update_conv)
  have rem: "remove_file (eng_registry ?e1) (as_usize fd) = (Some ?file, eng_registry e)"
    using registry_open_close [OF assms(11)] by simp
  have drop: "h_drop (mops sops) (HMem i 0) (arc_clone i (eng_vfs e)) = eng_vfs e"
    using arc_clone_drop [OF assms(6,7)] by (simp add: memory_fs_ops_def)
  have undo: "?e1\<lparr>eng_registry := eng_registry e, eng_vfs := eng_vfs e\<rparr> = e" by simp
  have "t_disp (snd (shim_close (mops sops) lc fd ?t1)) = t_disp (put_engine e ?t1)"
    using t1 rem drop undo by (simp add: shim_close_def engine_routed_def hooked_simps put_engine_flag)
  also have "\<dots> = t_disp t"
    using assms(3) by (cases "t_disp t") (auto simp: put_engine_def current_engine_def)
  finally show ?thesis using o v by blast
qed

lemma rw_paths: "decode_cstr (cstr ''/a'') = Some ''/a''" "classify rw_engine ''/a'' = Virtual ''/a''"
proof -
  have "from_utf8_lossy ''/a'' = ''/a''" by code_simp
  then show "decode_cstr (cstr ''/a'') = Some ''/a''"
    by (intro decode_cstr_literal) (simp_all add: MAX_CSTR_def NUL_def del: from_utf8_lossy.simps)
  have "is_virtual (from_root ''/a'') ''/a''" "is_lexically_safe ''/a''" "is_absolute ''/a''" by code_simp+
  then show "classify rw_engine ''/a'' = Virtual ''/a''" by (simp add: classify_absolute rw_engine_def engine_new_def)
qed

theorem open_close_leaves_no_trace_witness:
  "\<exists>t1. open_impl demo_ops demo_libc Open (cstr ''/a'') 0 0 rw_thread = (3, t1)
     \<and> t_disp (snd (shim_close demo_ops demo_libc 3 t1)) = t_disp rw_thread"
proof -
  have "map_of (fs_entries (eng_vfs rw_engine)) (normalize_key ''/a'') = Some (NMem 0 ''a'')"
    "map_of (fs_heap (eng_vfs rw_engine)) 0 = Some (\<lparr>mf_data = [1, 2, 3], mf_mtime = Some 0\<rparr>, 2)" "\<not> oo_write (open_flags 0)"
    by (simp_all add: rw_engine_def engine_new_def demo_written_eq demo_paths open_flags_def)
  note H = this
  have orig: "\<forall>m. fst (lc_orig demo_libc Open [CStr (Some (''/dev/null'' @ [NUL])), CInt O_CLOEXEC] m) = 3"
    by (simp add: demo_libc_def)
  have pos: "(0 :: nat) < 2" "(0 :: int) \<le> 3" by simp_all
  from open_close_leaves_no_trace [OF rw_simps(1) rw_paths(1) rw_simps(2) rw_paths(2) H(1,2) pos(1) H(3) orig pos(2) rw_simps(8)]
  show ?thesis by blast
qed

text \<open>Changing into a virtual directory is visible to \<open>getcwd\<close> and to later relative paths: \<open>getcwd\<close>
  writes exactly the NUL-terminated path into the caller's buffer and nothing beyond it, and a
  relative name is then resolved below that directory.\<close>

theorem chdir_then_getcwd:
  assumes "\<not> t_in_hook t" "decode_cstr path = Some d" "current_engine (t_disp t) = Some e" "classify e d = Virtual p"
    and "v_metadata ops p (eng_vfs e) = (Some (Inr meta), v)" "md_is_dir meta" "buf \<noteq> 0" "length p < sz"
  shows "\<exists>t1. shim_chdir ops lc path t = (0, t1)
    \<and> shim_getcwd lc buf sz t1 = (int buf, store_bytes buf (cbytes p @ [0]) t1)
    \<and> (\<exists>e1. current_engine (t_disp t1) = Some e1 \<and> virtual_cwd e1 = Some p
        \<and> (\<forall>rel. \<not> is_absolute rel \<longrightarrow> is_absolute (path_join p rel) \<longrightarrow> classify e1 rel = classify e (path_join p rel)))"
proof -
  let ?e1 = "set_virtual_cwd (Some p) (e\<lparr>eng_vfs := v\<rparr>)"
  let ?t1 = "put_engine ?e1 t"
  have c: "shim_chdir ops lc path t = (0, ?t1)"
    using assms(1-6)
    by (cases t) (simp add: shim_chdir_def hooked_simps Let_def route_path_def virtual_meta_def put_engine_def)
  have t1: "\<not> t_in_hook ?t1" "current_engine (t_disp ?t1) = Some ?e1" using assms(1,3)
    by (auto simp: put_engine_def current_engine_def)
  have cwd: "virtual_cwd ?e1 = Some p" by (simp add: virtual_cwd_def set_virtual_cwd_def)
  have "write_cstr buf sz p (?t1\<lparr>t_in_hook := True\<rparr>) = store_bytes buf (cbytes p @ [0]) (?t1\<lparr>t_in_hook := True\<rparr>)"
    using assms(8) by (simp add: write_cstr_def Let_def)
  then have "shim_getcwd lc buf sz ?t1 = (int buf, store_bytes buf (cbytes p @ [0]) ?t1)"
    using t1 cwd assms(7,8) flag_cycle [OF t1(1), of buf "cbytes p @ [0]"]
    by (simp add: shim_getcwd_def engine_routed_def hooked_simps Let_def)
  moreover have "classify ?e1 rel = classify e (path_join p rel)" if "\<not> is_absolute rel" "is_absolute (path_join p rel)" for rel
    using that cwd by (auto simp: classify_def set_virtual_cwd_def)
  ultimately show ?thesis using c t1 cwd by blast
qed

theorem chdir_then_getcwd_witness:
  "\<exists>t1. shim_chdir demo_ops demo_libc (cstr ''/d'') demo_thread = (0, t1)
     \<and> shim_getcwd demo_libc 64 9 t1 = (64, store_bytes 64 (cbytes ''/d'' @ [0]) t1)"
proof -
  have "fst (v_metadata demo_ops ''/d'' (eng_vfs demo_engine)) = Some (Inr metadata_dir)"
    unfolding memory_fs_ops_def by (simp add: demo_engine_def engine_new_def) code_simp
  then obtain v where "v_metadata demo_ops ''/d'' (eng_vfs demo_engine) = (Some (Inr metadata_dir), v)" by (metis prod.collapse)
  from chdir_then_getcwd [OF demo_current(2) demo_decode(3) demo_current(1) demo_classify(3) this, of 64 9 demo_libc]
  show ?thesis by (auto simp: metadata_dir_def)
qed

text \<open>\<open>fchmod\<close> on a virtual descriptor that is open for writing is not refused: the call reaches the
  carrier, the real descriptor of the null device behind it.\<close>

theorem fchmod_reaches_the_carrier:
  assumes "virtual_fd t fd = Some file" "of_writable file"
  shows "shim_fchmod lc fd mode t = call_orig lc Fchmod [CInt fd, CInt mode] t"
proof (cases "t_in_hook t")
  case True
  then show ?thesis unfolding shim_fchmod_def shim_eq by (rule in_hook_pass)
next
  case False
  show ?thesis
    unfolding shim_fchmod_def shim_eq
    by (rule engine_routed_pass) (use assms in \<open>auto simp: virtual_fd_def deny_write_fd_def\<close>)
qed

theorem fchmod_reaches_the_carrier_witness:
  "world (snd (shim_fchmod demo_libc 7 0 rw_thread)) = 1"
proof -
  have "of_writable rw_file" by (simp add: rw_file_def)
  from fchmod_reaches_the_carrier [OF rw_simps(4) this, of demo_libc 0] show ?thesis
    by (simp add: call_orig_def demo_libc_def rw_thread_def demo_thread_def)
qed

text \<open>\<open>openat\<close> on a path that the engine claims ignores the directory descriptor, also for a
  relative path: it is resolved against the virtual working directory.\<close>

theorem openat_ignores_dirfd:
  assumes "\<not> t_in_hook t" "touches path t"
  shows "openat_entry ops lc dirfd path flags mode t = open_impl ops lc Open path flags mode t"
  using assms
  by (auto simp: openat_entry_def open_impl_def path_routed_def hooked_simps touches_def split: option.splits route.splits)

theorem openat_ignores_dirfd_witness:
  "touches (cstr ''x'') (put_engine (set_virtual_cwd (Some ''/d'') demo_engine) demo_thread)
   \<and> openat_entry demo_ops demo_libc 42 (cstr ''x'') 0 0 (put_engine (set_virtual_cwd (Some ''/d'') demo_engine) demo_thread)
     = open_impl demo_ops demo_libc Open (cstr ''x'') 0 0 (put_engine (set_virtual_cwd (Some ''/d'') demo_engine) demo_thread)"
proof -
  let ?t = "put_engine (set_virtual_cwd (Some ''/d'') demo_engine) demo_thread"
  have "classify (set_virtual_cwd (Some ''/d'') demo_engine) ''x'' = Virtual ''/d/x''" by code_simp
  then have "touches (cstr ''x'') ?t" using demo_current by (simp add: touches_iff demo_decode)
  moreover have "\<not> t_in_hook ?t" by (simp add: demo_thread_def put_engine_def)
  ultimately show ?thesis using openat_ignores_dirfd [of ?t "cstr ''x''"] by blast
qed

end
