(* ===== verification/Hookfs_Error.thy ===== *)
theory Hookfs_Error
  imports Hookfs_Prelude
begin

text \<open>
  The value types of the import-rebinding engine (\<^verbatim>\<open>crates/plthook/src/types.rs\<close>,
  \<^verbatim>\<open>import.rs\<close>) and the typed errors of both crates (\<^verbatim>\<open>crates/plthook/src/error.rs\<close>,
  \<^verbatim>\<open>crates/hookfs/src/error.rs\<close>).  Addresses and page protections are natural numbers.
\<close>

datatype symbol = SymName string | SymOrdinal nat

fun symbol_matches :: "symbol \<Rightarrow> symbol \<Rightarrow> bool" where
  "symbol_matches (SymName a) (SymName b) = (a = b)"
| "symbol_matches (SymOrdinal a) (SymOrdinal b) = (a = b)"
| "symbol_matches _ _ = False"

fun decimal :: "nat \<Rightarrow> string" where
  "decimal n = (if n < 10 then [char_of (48 + n)] else decimal (n div 10) @ [char_of (48 + n mod 10)])"

declare decimal.simps [simp del]

fun describe :: "symbol \<Rightarrow> string" where
  "describe (SymName name) = name"
| "describe (SymOrdinal n) = ''#'' @ decimal n"

datatype import_kind = Standard | DelayLoad

record raw_import =
  ri_library :: string
  ri_symbol :: "symbol option"
  ri_version :: "string option"
  ri_slot :: nat
  ri_kind :: import_kind
  ri_authenticated :: bool

datatype plt_error =
    ModuleNotFound string int
  | ImageSizeUnknown nat int
  | Malformed string
  | UnsupportedImage string
  | SymbolNotFound string string
  | OriginalUnresolved string string string
  | AuthenticatedSlot string string
  | Protect nat int
  | RestoreConflict nat nat nat

datatype hookfs_error =
    Engine plt_error
  | NoTargetModule string
  | AlreadyInstalled
  | InvalidMountName string string
  | StreamSize string io_error
  | UnsupportedPlatform

lemma symbol_matches_eq: "symbol_matches a b \<longleftrightarrow> a = b"
  by (cases a; cases b) auto

text \<open>\<open>eq_ignore_ascii_case\<close>.\<close>

definition ascii_lower :: "char \<Rightarrow> char" where
  "ascii_lower c = (let n = of_char c :: nat in if 65 \<le> n \<and> n \<le> 90 then char_of (n + 32) else c)"

definition eq_ignore_ascii_case :: "string \<Rightarrow> string \<Rightarrow> bool" where
  "eq_ignore_ascii_case a b \<longleftrightarrow> map ascii_lower a = map ascii_lower b"

lemma eq_ignore_ascii_case_equiv:
  "eq_ignore_ascii_case a a" "eq_ignore_ascii_case a b \<Longrightarrow> eq_ignore_ascii_case b a"
  "eq_ignore_ascii_case a b \<Longrightarrow> eq_ignore_ascii_case b c \<Longrightarrow> eq_ignore_ascii_case a c"
  by (auto simp: eq_ignore_ascii_case_def)

end
