(* ===== verification/Plt_Slot.thy ===== *)
theory Plt_Slot
  imports Hookfs_Error
begin

text \<open>
  \<^verbatim>\<open>crates/plthook/src/slot.rs\<close>: the transaction that rebinds import slots.  A process is
  its pointer cells (\<open>mem\<close>) and the state of the operating system (\<open>os\<close>); the
  per-platform module \<open>sys\<close> is a record of operations on the latter.  Everything here
  runs under the process-wide install lock, so an operation is one state transformer.
\<close>

section \<open>The platform layer\<close>

record 'o sys_ops =
  page_size :: nat
  make_writable :: "nat \<Rightarrow> 'o \<Rightarrow> (plt_error + nat) \<times> 'o"
  restore_protection :: "nat \<Rightarrow> nat \<Rightarrow> 'o \<Rightarrow> (plt_error + unit) \<times> 'o"
  module_still_loaded :: "nat \<Rightarrow> 'o \<Rightarrow> bool"
  slot_belongs_to_module :: "nat \<Rightarrow> nat \<Rightarrow> 'o \<Rightarrow> bool"
  resolve_original :: "import_kind \<Rightarrow> string \<Rightarrow> symbol \<Rightarrow> nat \<Rightarrow> 'o \<Rightarrow> nat option \<times> 'o"

record 'o process =
  mem :: "nat \<Rightarrow> nat"
  os :: 'o

definition slot_swap :: "nat \<Rightarrow> nat \<Rightarrow> 'o process \<Rightarrow> nat \<times> 'o process" where
  "slot_swap slot new p = (mem p slot, p\<lparr>mem := (mem p)(slot := new)\<rparr>)"

definition slot_compare_exchange :: "nat \<Rightarrow> nat \<Rightarrow> nat \<Rightarrow> 'o process \<Rightarrow> (nat + nat) \<times> 'o process" where
  "slot_compare_exchange slot expected new p =
     (if mem p slot = expected then (Inr (mem p slot), p\<lparr>mem := (mem p)(slot := new)\<rparr>)
      else (Inl (mem p slot), p))"

definition slot_load :: "nat \<Rightarrow> 'o process \<Rightarrow> nat" where
  "slot_load slot p = mem p slot"

section \<open>Page protection\<close>

definition PTR_SIZE :: nat where
  "PTR_SIZE = 8"

text \<open>Masking with \<open>!(page_size - 1)\<close> rounds down to a page, the page size being a power of two.\<close>

definition page_of :: "nat \<Rightarrow> nat \<Rightarrow> nat" where
  "page_of ps a = a - a mod ps"

text \<open>The pages from \<open>page\<close> to \<open>lst\<close>, both page aligned and \<open>page \<le> lst\<close>, so that the
  saturating step of the code is exact; a page size of zero or a start past \<open>lst\<close> cannot
  occur and ends the walk.\<close>

function span_pages :: "nat \<Rightarrow> nat \<Rightarrow> nat \<Rightarrow> nat list" where
  "span_pages ps page lst =
     (if page = lst \<or> lst < page \<or> ps = 0 then [page]
      else page # span_pages ps (page + ps) lst)"
  by pat_completeness auto
termination
  by (relation "measure (\<lambda>(ps, page, lst). lst - page)") auto

declare span_pages.simps [simp del]

definition push_new :: "nat \<Rightarrow> nat list \<Rightarrow> nat list" where
  "push_new page pages = (if page \<in> set pages then pages else pages @ [page])"

definition slot_pages :: "nat \<Rightarrow> nat list \<Rightarrow> nat list" where
  "slot_pages ps slots =
     fold (\<lambda>slot pages. fold push_new
             (span_pages ps (page_of ps slot) (page_of ps (sat_add slot (PTR_SIZE - 1)))) pages)
       slots []"

text \<open>Undo the pages already changed; errors are ignored.\<close>

fun undo_pages :: "'o sys_ops \<Rightarrow> (nat \<times> nat) list \<Rightarrow> 'o \<Rightarrow> 'o" where
  "undo_pages sys [] st = st"
| "undo_pages sys ((page, old) # rest) st = undo_pages sys rest (snd (restore_protection sys page old st))"

fun protect_pages ::
  "'o sys_ops \<Rightarrow> nat list \<Rightarrow> (nat \<times> nat) list \<Rightarrow> 'o \<Rightarrow> (plt_error + (nat \<times> nat) list) \<times> 'o" where
  "protect_pages sys [] dn st = (Inr dn, st)"
| "protect_pages sys (page # rest) dn st =
     (case make_writable sys page st of
        (Inr old, st') \<Rightarrow> protect_pages sys rest (dn @ [(page, old)]) st'
      | (Inl err, st') \<Rightarrow> (Inl err, undo_pages sys (rev dn) st'))"

definition protector_make_writable ::
  "'o sys_ops \<Rightarrow> nat list \<Rightarrow> 'o \<Rightarrow> (plt_error + (nat \<times> nat) list) \<times> 'o" where
  "protector_make_writable sys slots = protect_pages sys (slot_pages (page_size sys) slots) []"

fun restore_pages ::
  "'o sys_ops \<Rightarrow> (nat \<times> nat) list \<Rightarrow> plt_error option \<Rightarrow> 'o \<Rightarrow> plt_error option \<times> 'o" where
  "restore_pages sys [] first_err st = (first_err, st)"
| "restore_pages sys ((page, old) # rest) first_err st =
     (case restore_protection sys page old st of
        (Inr _, st') \<Rightarrow> restore_pages sys rest first_err st'
      | (Inl err, st') \<Rightarrow>
          restore_pages sys rest (case first_err of None \<Rightarrow> Some err | Some e \<Rightarrow> Some e) st')"

definition result_of :: "plt_error option \<Rightarrow> plt_error + unit" where
  "result_of e = (case e of None \<Rightarrow> Inr () | Some err \<Rightarrow> Inl err)"

definition protector_restore :: "'o sys_ops \<Rightarrow> (nat \<times> nat) list \<Rightarrow> 'o \<Rightarrow> (plt_error + unit) \<times> 'o" where
  "protector_restore sys pages st =
     (case restore_pages sys (rev pages) None st of (e, st') \<Rightarrow> (result_of e, st'))"

section \<open>The transaction\<close>

fun swap_all :: "(nat \<times> nat) list \<Rightarrow> 'o process \<Rightarrow> nat list \<times> 'o process" where
  "swap_all [] p = ([], p)"
| "swap_all ((slot, new) # rest) p =
     (case slot_swap slot new p of
        (prior, p1) \<Rightarrow> (case swap_all rest p1 of (priors, p2) \<Rightarrow> (prior # priors, p2)))"

definition apply_patches :: "'o sys_ops \<Rightarrow> (nat \<times> nat) list \<Rightarrow> 'o process \<Rightarrow> (plt_error + nat list) \<times> 'o process" where
  "apply_patches sys patches p =
     (let slots = map fst patches in
      case protector_make_writable sys slots (os p) of
        (Inl err, st) \<Rightarrow> (Inl err, p\<lparr>os := st\<rparr>)
      | (Inr protector, st) \<Rightarrow>
          (case swap_all patches (p\<lparr>os := st\<rparr>) of
             (priors, p1) \<Rightarrow>
               (case protector_restore sys protector (os p1) of
                  (Inr _, st1) \<Rightarrow> (Inr priors, p1\<lparr>os := st1\<rparr>)
                | (Inl err, st1) \<Rightarrow>
                    (case protector_make_writable sys slots st1 of
                       (Inl _, st2) \<Rightarrow> (Inl err, p1\<lparr>os := st2\<rparr>)
                     | (Inr reprotect, st2) \<Rightarrow>
                         (case swap_all (zip slots priors) (p1\<lparr>os := st2\<rparr>) of
                            (_, p2) \<Rightarrow> (Inl err, p2\<lparr>os := snd (protector_restore sys reprotect (os p2))\<rparr>))))))"

section \<open>Slots, replacements and guards\<close>

record import_slot =
  is_module_base :: nat
  is_library :: string
  is_symbol :: "symbol option"
  is_version :: "string option"
  is_address :: nat
  is_kind :: import_kind
  is_authenticated :: bool

definition import_slot_from_raw :: "nat \<Rightarrow> raw_import \<Rightarrow> import_slot" where
  "import_slot_from_raw module_base raw =
     \<lparr>is_module_base = module_base, is_library = ri_library raw, is_symbol = ri_symbol raw,
      is_version = ri_version raw, is_address = ri_slot raw, is_kind = ri_kind raw,
      is_authenticated = ri_authenticated raw\<rparr>"

record replacement =
  rp_library :: "string option"
  rp_symbol :: symbol
  rp_replacement :: nat
  rp_required :: bool

definition by_name :: "string \<Rightarrow> string \<Rightarrow> nat \<Rightarrow> replacement" where
  "by_name library symb repl =
     \<lparr>rp_library = Some library, rp_symbol = SymName symb, rp_replacement = repl, rp_required = True\<rparr>"

definition by_symbol :: "string \<Rightarrow> nat \<Rightarrow> replacement" where
  "by_symbol symb repl =
     \<lparr>rp_library = None, rp_symbol = SymName symb, rp_replacement = repl, rp_required = True\<rparr>"

definition optional :: "replacement \<Rightarrow> replacement" where
  "optional r = r\<lparr>rp_required := False\<rparr>"

definition library_matches :: "string option \<Rightarrow> string \<Rightarrow> bool" where
  "library_matches flt actual =
     (case flt of None \<Rightarrow> True | Some wanted \<Rightarrow> eq_ignore_ascii_case wanted actual)"

definition match_replacement :: "import_slot \<Rightarrow> replacement \<Rightarrow> symbol option" where
  "match_replacement slot r =
     (case is_symbol slot of
        None \<Rightarrow> None
      | Some symb \<Rightarrow>
          if \<not> library_matches (rp_library r) (is_library slot) then None
          else if symbol_matches symb (rp_symbol r) then Some symb else None)"

record installed_hook =
  ih_library :: string
  ih_symbol :: symbol
  ih_slot :: nat
  ih_original :: nat
  ih_prior_value :: nat
  ih_replacement :: nat

record hook_guard =
  hg_module_base :: nat
  hg_hooks :: "installed_hook list"
  hg_active :: bool

definition guard_original :: "symbol \<Rightarrow> hook_guard \<Rightarrow> nat option" where
  "guard_original symb g = map_option ih_original (List.find (\<lambda>h. symbol_matches (ih_symbol h) symb) (hg_hooks g))"

record pending_hook =
  ph_library :: string
  ph_symbol :: symbol
  ph_slot :: nat
  ph_original :: nat
  ph_replacement :: nat

section \<open>Installing\<close>

text \<open>The inner loop over the slots of one replacement, then the outer loop.  Resolving an original may
  change the state of the operating system: on Windows it loads the library of a delay import.\<close>

fun collect_slots ::
  "'o sys_ops \<Rightarrow> string \<Rightarrow> replacement \<Rightarrow> import_slot list \<Rightarrow> bool \<Rightarrow> pending_hook list \<Rightarrow> 'o process \<Rightarrow>
     (plt_error + bool \<times> pending_hook list) \<times> 'o process" where
  "collect_slots sys mname r [] matched pending p = (Inr (matched, pending), p)"
| "collect_slots sys mname r (slot # slots) matched pending p =
     (case match_replacement slot r of
        None \<Rightarrow> collect_slots sys mname r slots matched pending p
      | Some symb \<Rightarrow>
          if is_authenticated slot then (Inl (AuthenticatedSlot mname (describe symb)), p)
          else if list_ex (\<lambda>h. ph_slot h = is_address slot) pending
          then collect_slots sys mname r slots True pending p
          else
            (case resolve_original sys (is_kind slot) (is_library slot) symb
                    (slot_load (is_address slot) p) (os p) of
               (Some original, st) \<Rightarrow>
                 collect_slots sys mname r slots True
                   (pending @ [\<lparr>ph_library = is_library slot, ph_symbol = symb, ph_slot = is_address slot,
                                ph_original = original, ph_replacement = rp_replacement r\<rparr>]) (p\<lparr>os := st\<rparr>)
             | (None, st) \<Rightarrow>
                 if rp_required r then (Inl (OriginalUnresolved mname (is_library slot) (describe symb)), p\<lparr>os := st\<rparr>)
                 else collect_slots sys mname r slots True pending (p\<lparr>os := st\<rparr>)))"

fun collect_hooks ::
  "'o sys_ops \<Rightarrow> string \<Rightarrow> import_slot list \<Rightarrow> replacement list \<Rightarrow> pending_hook list \<Rightarrow> 'o process \<Rightarrow>
     (plt_error + pending_hook list) \<times> 'o process" where
  "collect_hooks sys mname imports [] pending p = (Inr pending, p)"
| "collect_hooks sys mname imports (r # rs) pending p =
     (case collect_slots sys mname r imports False pending p of
        (Inl err, p') \<Rightarrow> (Inl err, p')
      | (Inr (matched, pending'), p') \<Rightarrow>
          if \<not> matched \<and> rp_required r then (Inl (SymbolNotFound mname (describe (rp_symbol r))), p')
          else collect_hooks sys mname imports rs pending' p')"

text \<open>\<open>imports\<close> is the result of \<open>Module::imports\<close>, the platform's parser.\<close>

definition plt_install ::
  "'o sys_ops \<Rightarrow> string \<Rightarrow> nat \<Rightarrow> plt_error + import_slot list \<Rightarrow> replacement list \<Rightarrow> 'o process \<Rightarrow>
     (plt_error + hook_guard) \<times> 'o process" where
  "plt_install sys mname base imports replacements p =
     (case imports of
        Inl err \<Rightarrow> (Inl err, p)
      | Inr slots \<Rightarrow>
          (case collect_hooks sys mname slots replacements [] p of
             (Inl err, p0) \<Rightarrow> (Inl err, p0)
           | (Inr pending, p0) \<Rightarrow>
               if pending = [] then
                 (Inr \<lparr>hg_module_base = base, hg_hooks = [], hg_active = True\<rparr>, p0)
               else
                 (case apply_patches sys (map (\<lambda>h. (ph_slot h, ph_replacement h)) pending) p0 of
                    (Inl err, p') \<Rightarrow> (Inl err, p')
                  | (Inr priors, p') \<Rightarrow>
                      (Inr \<lparr>hg_module_base = base,
                            hg_hooks = map (\<lambda>(h, prior).
                              \<lparr>ih_library = ph_library h, ih_symbol = ph_symbol h, ih_slot = ph_slot h,
                               ih_original = ph_original h, ih_prior_value = prior,
                               ih_replacement = ph_replacement h\<rparr>) (zip pending priors),
                            hg_active = True\<rparr>, p'))))"

section \<open>Restoring\<close>

fun restore_hooks ::
  "'o sys_ops \<Rightarrow> nat \<Rightarrow> installed_hook list \<Rightarrow> plt_error option \<Rightarrow> 'o process \<Rightarrow> plt_error option \<times> 'o process" where
  "restore_hooks sys base [] first_err p = (first_err, p)"
| "restore_hooks sys base (h # hs) first_err p =
     (if \<not> slot_belongs_to_module sys (ih_slot h) base (os p)
      then restore_hooks sys base hs first_err p
      else
        (case slot_compare_exchange (ih_slot h) (ih_replacement h) (ih_prior_value h) p of
           (Inr _, p') \<Rightarrow> restore_hooks sys base hs first_err p'
         | (Inl found, p') \<Rightarrow>
             if found = ih_prior_value h then restore_hooks sys base hs first_err p'
             else restore_hooks sys base hs
                    (case first_err of
                       None \<Rightarrow> Some (RestoreConflict (ih_slot h) (ih_replacement h) found)
                     | Some e \<Rightarrow> Some e) p'))"

definition guard_restore ::
  "'o sys_ops \<Rightarrow> hook_guard \<Rightarrow> 'o process \<Rightarrow> (plt_error + unit) \<times> hook_guard \<times> 'o process" where
  "guard_restore sys g p =
     (if \<not> hg_active g then (Inr (), g, p)
      else
        let g' = g\<lparr>hg_active := False\<rparr> in
        if hg_hooks g = [] then (Inr (), g', p)
        else if \<not> module_still_loaded sys (hg_module_base g) (os p) then (Inr (), g', p)
        else
          (case protector_make_writable sys (map ih_slot (hg_hooks g)) (os p) of
             (Inl err, st) \<Rightarrow> (Inl err, g', p\<lparr>os := st\<rparr>)
           | (Inr protector, st) \<Rightarrow>
               (case restore_hooks sys (hg_module_base g) (hg_hooks g) None (p\<lparr>os := st\<rparr>) of
                  (first_err, p1) \<Rightarrow>
                    (case protector_restore sys protector (os p1) of
                       (Inr _, st1) \<Rightarrow> (result_of first_err, g', p1\<lparr>os := st1\<rparr>)
                     | (Inl err, st1) \<Rightarrow>
                         (result_of (case first_err of None \<Rightarrow> Some err | Some e \<Rightarrow> Some e), g',
                          p1\<lparr>os := st1\<rparr>)))))"

definition guard_uninstall :: "'o sys_ops \<Rightarrow> hook_guard \<Rightarrow> 'o process \<Rightarrow> (plt_error + unit) \<times> 'o process" where
  "guard_uninstall sys g p =
     (case guard_restore sys g p of
        (r, g', p') \<Rightarrow> (r, snd (snd (guard_restore sys g' p'))))"

section \<open>Swapping slots\<close>

definition overwrite :: "('k \<times> 'v) list \<Rightarrow> ('k \<Rightarrow> 'v) \<Rightarrow> 'k \<Rightarrow> 'v" where
  "overwrite xs f = (\<lambda>a. case map_of xs a of Some v \<Rightarrow> v | None \<Rightarrow> f a)"

lemma overwrite_Nil [simp]: "overwrite [] f = f"
  by (simp add: overwrite_def)

lemma overwrite_Cons:
  "k \<notin> fst ` set xs \<Longrightarrow> overwrite ((k, v) # xs) f = overwrite xs (f(k := v))"
proof
  fix a
  assume "k \<notin> fst ` set xs"
  then have "map_of xs k = None" by (simp add: map_of_eq_None_iff)
  then show "overwrite ((k, v) # xs) f a = overwrite xs (f(k := v)) a"
    by (auto simp: overwrite_def split: option.splits)
qed

lemma overwrite_map [simp]: "overwrite (map (\<lambda>a. (a, g a)) xs) f a = (if a \<in> set xs then g a else f a)"
  by (simp add: overwrite_def map_of_map_restrict restrict_map_def)

lemma overwrite_other: "a \<notin> fst ` set xs \<Longrightarrow> overwrite xs f a = f a"
  by (auto simp: overwrite_def split: option.splits dest: map_of_SomeD simp: rev_image_eqI)

lemma swap_all_os: "swap_all patches p = (priors, p') \<Longrightarrow> os p' = os p \<and> length priors = length patches"
  by (induction patches p arbitrary: priors p' rule: swap_all.induct)
    (auto simp: slot_swap_def split: prod.splits)

lemma swap_all_mem:
  "swap_all patches p = (priors, p') \<Longrightarrow> distinct (map fst patches) \<Longrightarrow>
     priors = map (mem p) (map fst patches)
     \<and> mem p' = overwrite patches (mem p)"
proof (induction patches p arbitrary: priors p' rule: swap_all.induct)
  case (2 slot new rest p)
  let ?p1 = "p\<lparr>mem := (mem p)(slot := new)\<rparr>"
  obtain ps where s: "swap_all rest ?p1 = (ps, p')" "priors = mem p slot # ps"
    using "2.prems"(1) by (auto simp: slot_swap_def split: prod.splits)
  have "slot_swap slot new p = (mem p slot, ?p1)" by (simp add: slot_swap_def)
  have "distinct (map fst rest)" using "2.prems"(2) by simp
  from "2.IH" [OF \<open>slot_swap slot new p = _\<close> [symmetric] s(1) this]
  have IH: "ps = map (mem ?p1) (map fst rest)" "mem p' = overwrite rest (mem ?p1)" by blast+
  have "map (mem ?p1) (map fst rest) = map (mem p) (map fst rest)" using "2.prems"(2) by auto
  then have "priors = map (mem p) (map fst ((slot, new) # rest))" using IH(1) s(2) by simp
  moreover have "mem p' = overwrite ((slot, new) # rest) (mem p)"
    using IH(2) "2.prems"(2) overwrite_Cons [of slot rest new "mem p"] by simp
  ultimately show ?case by blast
qed auto

text \<open>Swapping the previous values back in undoes the swaps.\<close>

lemma swap_all_undo:
  assumes "distinct (map fst patches)" "swap_all patches p = (priors, p1)"
    and "swap_all (zip (map fst patches) priors) (p1\<lparr>os := st\<rparr>) = (x, p2)"
  shows "mem p2 = mem p"
proof -
  note S = swap_all_mem [OF assms(2,1)]
  have l: "length priors = length patches" using swap_all_os [OF assms(2)] by simp
  have z: "zip (map fst patches) priors = map (\<lambda>a. (a, mem p a)) (map fst patches)"
    using S by (auto intro!: nth_equalityI)
  have "distinct (map fst (zip (map fst patches) priors))" using assms(1) l by simp
  from swap_all_mem [OF assms(3) this]
  have m2: "mem p2 = overwrite (zip (map fst patches) priors) (mem p1)" by simp
  show ?thesis
  proof
    fix a
    have "mem p2 a = (if a \<in> fst ` set patches then mem p a else mem p1 a)"
      unfolding m2 z overwrite_map by simp
    then show "mem p2 a = mem p a" using S overwrite_other [of a patches] by simp
  qed
qed

lemma map_of_rev_eq: "distinct (map fst xs) \<Longrightarrow> map_of (rev xs) = map_of xs"
proof (induction xs)
  case (Cons x xs)
  obtain k v where x: "x = (k, v)" by (cases x)
  have "map_of xs k = None" using Cons.prems x by (simp add: map_of_eq_None_iff)
  then show ?case using Cons x by (auto simp: map_add_def fun_eq_iff split: option.splits)
qed simp

lemma distinct_push_new: "distinct pages \<Longrightarrow> distinct (fold push_new xs pages)"
  by (induction xs arbitrary: pages) (auto simp: push_new_def)

lemma distinct_slot_pages: "distinct (slot_pages ps slots)"
proof -
  have "distinct (fold (\<lambda>slot pages. fold push_new (f slot) pages) slots pages)" if "distinct pages"
    for f :: "nat \<Rightarrow> nat list" and pages
    using that by (induction slots arbitrary: pages) (auto simp: distinct_push_new)
  then show ?thesis by (simp add: slot_pages_def)
qed

lemma page_of_aligned: "page_of ps a mod ps = 0"
  by (simp add: page_of_def)

lemma span_pages_aligned: "page mod ps = 0 \<Longrightarrow> q \<in> set (span_pages ps page lst) \<Longrightarrow> q mod ps = 0"
proof (induction ps page lst rule: span_pages.induct)
  case (1 ps page lst)
  then show ?case by (auto simp: span_pages.simps [of ps page lst] split: if_splits)
qed

lemma set_push_new: "set (fold push_new xs pages) = set pages \<union> set xs"
  by (induction xs arbitrary: pages) (auto simp: push_new_def)

lemma slot_pages_aligned: "q \<in> set (slot_pages ps slots) \<Longrightarrow> q mod ps = 0"
proof -
  have "set (fold (\<lambda>slot pages. fold push_new (f slot) pages) slots pages) = set pages \<union> (\<Union>x \<in> set slots. set (f x))"
    for f :: "nat \<Rightarrow> nat list" and pages
    by (induction slots arbitrary: pages) (auto simp: set_push_new)
  moreover assume "q \<in> set (slot_pages ps slots)"
  ultimately obtain x where "q \<in> set (span_pages ps (page_of ps x) (page_of ps (sat_add x (PTR_SIZE - 1))))"
    unfolding slot_pages_def by auto
  then show ?thesis by (rule span_pages_aligned [OF page_of_aligned])
qed

section \<open>What the page-protection calls promise\<close>

text \<open>\<open>prot\<close> reads the protection of a page, \<open>writable\<close> is what making it writable turns a
  protection into, \<open>valid\<close> holds of the protections a page may be reported to have.  A failed call changes
  nothing.\<close>

locale page_protection =
  fixes sys :: "'o sys_ops"
    and prot :: "'o \<Rightarrow> nat \<Rightarrow> nat"
    and writable :: "nat \<Rightarrow> nat"
    and valid :: "nat \<Rightarrow> bool"
  assumes make_ok: "page mod page_size sys = 0 \<Longrightarrow> make_writable sys page st = (Inr old, st') \<Longrightarrow>
      old = prot st page \<and> valid old \<and> prot st' = (prot st)(page := writable old)"
    and make_err: "page mod page_size sys = 0 \<Longrightarrow> make_writable sys page st = (Inl err, st') \<Longrightarrow> prot st' = prot st"
    and restore_ok: "page mod page_size sys = 0 \<Longrightarrow> valid v \<Longrightarrow> restore_protection sys page v st = (Inr u, st') \<Longrightarrow>
      prot st' = (prot st)(page := v)"
    and restore_err: "page mod page_size sys = 0 \<Longrightarrow> restore_protection sys page v st = (Inl err, st') \<Longrightarrow>
      prot st' = prot st"
begin

abbreviation aligned :: "nat list \<Rightarrow> bool" where
  "aligned pages \<equiv> \<forall>q \<in> set pages. q mod page_size sys = 0"

lemma protect_pages_ok:
  "protect_pages sys pages dn st = (Inr dn', st') \<Longrightarrow> distinct pages \<Longrightarrow> aligned pages \<Longrightarrow>
     dn' = dn @ map (\<lambda>q. (q, prot st q)) pages \<and> (\<forall>q \<in> set pages. valid (prot st q))
     \<and> prot st' = (\<lambda>q. if q \<in> set pages then writable (prot st q) else prot st q)"
proof (induction pages arbitrary: dn st)
  case (Cons q pages)
  then obtain old st1 where 1: "make_writable sys q st = (Inr old, st1)"
    "protect_pages sys pages (dn @ [(q, old)]) st1 = (Inr dn', st')"
    by (auto split: prod.splits sum.splits)
  have m: "old = prot st q \<and> valid old \<and> prot st1 = (prot st)(q := writable old)" using make_ok [OF _ 1(1)] Cons.prems(3) by auto
  have IH: "dn' = (dn @ [(q, old)]) @ map (\<lambda>q. (q, prot st1 q)) pages" "\<forall>q \<in> set pages. valid (prot st1 q)"
    "prot st' = (\<lambda>r. if r \<in> set pages then writable (prot st1 r) else prot st1 r)"
    using Cons.IH [OF 1(2)] Cons.prems(2,3) by auto
  have "map (\<lambda>q. (q, prot st1 q)) pages = map (\<lambda>q. (q, prot st q)) pages" using m Cons.prems(2) by auto
  then show ?case using IH m Cons.prems(2) by (auto simp: fun_eq_iff)
qed simp

lemma restore_pages_ok:
  "restore_pages sys pages e st = (None, st') \<Longrightarrow> distinct (map fst pages) \<Longrightarrow> aligned (map fst pages) \<Longrightarrow>
     \<forall>v \<in> snd ` set pages. valid v \<Longrightarrow> e = None \<and> prot st' = overwrite pages (prot st)"
proof (induction pages arbitrary: e st)
  case (Cons x pages)
  obtain q v where x: "x = (q, v)" by (cases x)
  obtain r st1 where r: "restore_protection sys q v st = (r, st1)" by fastforce
  show ?case
  proof (cases r)
    case (Inl err)
    with Cons.prems(1) r x
    have "restore_pages sys pages (case e of None \<Rightarrow> Some err | Some e \<Rightarrow> Some e) st1 = (None, st')" by simp
    from Cons.IH [OF this] Cons.prems(2-4) show ?thesis by (auto split: option.splits)
  next
    case (Inr u)
    with Cons.prems(1) r x have "restore_pages sys pages e st1 = (None, st')" by simp
    from Cons.IH [OF this] Cons.prems(2-4) restore_ok [OF _ _ r [unfolded Inr]] x show ?thesis
      by (simp add: overwrite_Cons fun_upd_def)
  qed
qed simp

text \<open>Protections are restored exactly: capture, then restore, is the identity.\<close>

lemma protect_restore_identity:
  assumes "distinct pages" "protect_pages sys pages [] st = (Inr dn, st1)" "prot st2 = prot st1"
    and "protector_restore sys dn st2 = (Inr u, st3)" "aligned pages"
  shows "prot st3 = prot st"
proof -
  note P = protect_pages_ok [OF assms(2,1,5)]
  have dn: "dn = map (\<lambda>q. (q, prot st q)) pages" using P by simp
  have "map fst dn = pages" by (simp add: dn comp_def)
  then have d: "distinct (map fst (rev dn))" using assms(1) by (simp add: rev_map [symmetric])
  have "restore_pages sys (rev dn) None st2 = (None, st3)"
    using assms(4) by (auto simp: protector_restore_def result_of_def split: prod.splits option.splits)
  moreover have "aligned (map fst (rev dn))" "\<forall>v \<in> snd ` set (rev dn). valid v" using assms(5) P by (auto simp: dn)
  ultimately have R: "prot st3 = overwrite (rev dn) (prot st2)" using restore_pages_ok [OF _ d] by blast
  have e: "rev dn = map (\<lambda>q. (q, prot st q)) (rev pages)" by (simp add: dn rev_map)
  show ?thesis
  proof
    fix q
    have "prot st3 q = (if q \<in> set pages then prot st q else prot st1 q)"
      using R assms(3) unfolding e by (simp del: overwrite_map add: overwrite_map [of "prot st"])
    then show "prot st3 q = prot st q" using P by simp
  qed
qed

lemma apply_success:
  assumes "distinct (map fst patches)" "apply_patches sys patches p = (Inr priors, p')"
  shows "priors = map (mem p) (map fst patches)"
    "mem p' = overwrite patches (mem p)"
    "prot (os p') = prot (os p)"
proof -
  obtain dn st p1 st1 where 1: "protector_make_writable sys (map fst patches) (os p) = (Inr dn, st)"
    "swap_all patches (p\<lparr>os := st\<rparr>) = (priors, p1)" "protector_restore sys dn (os p1) = (Inr (), st1)"
    "p' = p1\<lparr>os := st1\<rparr>"
    using assms(2) by (auto simp: apply_patches_def Let_def split: prod.splits sum.splits)
  have "os p1 = st" using swap_all_os [OF 1(2)] by simp
  then show "prot (os p') = prot (os p)"
    using protect_restore_identity [OF distinct_slot_pages 1(1) [unfolded protector_make_writable_def] _ 1(3)] 1(4)
      slot_pages_aligned
    by simp
  show "priors = map (mem p) (map fst patches)"
    "mem p' = overwrite patches (mem p)"
    using swap_all_mem [OF 1(2) assms(1)] 1(4) by auto
qed

end

text \<open>Mapped pages stay mapped under these calls, and restoring a captured protection on a mapped
  page succeeds.  Then the transaction is atomic.\<close>

locale stable_pages = page_protection sys prot writable valid
  for sys :: "'o sys_ops" and prot :: "'o \<Rightarrow> nat \<Rightarrow> nat" and writable :: "nat \<Rightarrow> nat"
    and backed :: "'o \<Rightarrow> nat set" and valid :: "nat \<Rightarrow> bool" +
  assumes make_backed: "page mod page_size sys = 0 \<Longrightarrow> make_writable sys page st = (r, st') \<Longrightarrow>
      backed st' = backed st \<and> (\<forall>old. r = Inr old \<longrightarrow> page \<in> backed st)"
    and restore_backed: "page mod page_size sys = 0 \<Longrightarrow> restore_protection sys page v st = (q, st') \<Longrightarrow>
      backed st' = backed st"
    and restore_total: "page mod page_size sys = 0 \<Longrightarrow> page \<in> backed st \<Longrightarrow> valid v \<Longrightarrow>
      \<exists>st'. restore_protection sys page v st = (Inr (), st')"
begin

definition captured :: "nat set \<Rightarrow> (nat \<times> nat) list \<Rightarrow> bool" where
  "captured B dn \<longleftrightarrow> (\<forall>(q, v) \<in> set dn. q mod page_size sys = 0 \<and> q \<in> B \<and> valid v)"

lemma captured_simps [simp]:
  "captured B []" "captured B (dn @ dn') \<longleftrightarrow> captured B dn \<and> captured B dn'" "captured B (rev dn) = captured B dn"
  "captured B ((q, v) # dn) \<longleftrightarrow> q mod page_size sys = 0 \<and> q \<in> B \<and> valid v \<and> captured B dn"
  by (auto simp: captured_def)

lemma undo_pages_prot:
  assumes "captured (backed st) pages" "distinct (map fst pages)"
  shows "prot (undo_pages sys pages st) = overwrite pages (prot st)"
  using assms
proof (induction pages arbitrary: st)
  case (Cons x pages)
  obtain q v where x: "x = (q, v)" by (cases x)
  have q: "q mod page_size sys = 0" "q \<in> backed st" "valid v" using Cons.prems(1) x by auto
  obtain st1 where 1: "restore_protection sys q v st = (Inr (), st1)" using restore_total [OF q] by blast
  have "captured (backed st1) pages" using Cons.prems(1) restore_backed [OF q(1) 1] x by auto
  with Cons.IH [of st1] Cons.prems(2) restore_ok [OF q(1,3) 1] 1 x show ?case
    by (simp add: overwrite_Cons fun_upd_def)
qed simp

lemma restore_pages_total: "captured (backed st) pages \<Longrightarrow> fst (restore_pages sys pages None st) = None"
proof (induction pages arbitrary: st)
  case (Cons x pages)
  obtain q v where x: "x = (q, v)" by (cases x)
  have q: "q mod page_size sys = 0" "q \<in> backed st" "valid v" using Cons.prems x by auto
  obtain st1 where 1: "restore_protection sys q v st = (Inr (), st1)" using restore_total [OF q] by blast
  have "captured (backed st1) pages" using Cons.prems restore_backed [OF q(1) 1] x by auto
  then show ?case using Cons.IH 1 x by simp
qed simp

lemma protect_pages_captured:
  "protect_pages sys pages dn st = (Inr dn', st') \<Longrightarrow> aligned pages \<Longrightarrow> captured (backed st) dn \<Longrightarrow>
     captured (backed st) dn' \<and> backed st' = backed st"
proof (induction pages arbitrary: dn st)
  case (Cons q pages)
  then obtain old st1 where 1: "make_writable sys q st = (Inr old, st1)"
    "protect_pages sys pages (dn @ [(q, old)]) st1 = (Inr dn', st')"
    by (auto split: prod.splits sum.splits)
  have m: "backed st1 = backed st" "q \<in> backed st" "valid old" "q mod page_size sys = 0"
    using make_backed [OF _ 1(1)] make_ok [OF _ 1(1)] Cons.prems(2) by auto
  then have "captured (backed st1) (dn @ [(q, old)])" using Cons.prems(3) by auto
  from Cons.IH [OF 1(2) _ this] Cons.prems(2) m(1) show ?case by auto
qed auto

lemma protect_pages_err:
  assumes "protect_pages sys pages dn st = (Inl err, st')" "distinct (map fst dn @ pages)"
    "aligned pages" "captured (backed st) dn"
  shows "prot st' = overwrite dn (prot st)"
  using assms
proof (induction pages arbitrary: dn st)
  case (Cons q pages)
  have al: "q mod page_size sys = 0" using Cons.prems(3) by simp
  obtain r st1 where r: "make_writable sys q st = (r, st1)" by fastforce
  note mb = make_backed [OF al r]
  show ?case
  proof (cases r)
    case (Inl e)
    have d: "distinct (map fst (rev dn))" using Cons.prems(2) by (simp add: rev_map [symmetric])
    have "overwrite (rev dn) f = overwrite dn f" for f :: "nat \<Rightarrow> nat"
      using Cons.prems(2) by (simp add: overwrite_def map_of_rev_eq)
    moreover have "captured (backed st1) (rev dn)" using Cons.prems(4) mb by auto
    ultimately show ?thesis
      using Cons.prems(1) r Inl make_err [OF al r [unfolded Inl]] undo_pages_prot [of st1 "rev dn", OF _ d] by simp
  next
    case (Inr old)
    note m = make_ok [OF al r [unfolded Inr]]
    have "protect_pages sys pages (dn @ [(q, old)]) st1 = (Inl err, st')" using Cons.prems(1) r Inr by simp
    moreover have "captured (backed st1) (dn @ [(q, old)])" using Cons.prems(4) mb Inr al m by auto
    ultimately have "prot st' = overwrite (dn @ [(q, old)]) (prot st1)" using Cons.IH Cons.prems(2,3) by simp
    also have "\<dots> = overwrite dn (prot st)"
      using m by (auto simp: overwrite_def fun_eq_iff map_add_def split: option.splits)
    finally show ?thesis .
  qed
qed simp

lemma apply_error:
  assumes "apply_patches sys patches p = (Inl err, p')"
  shows "mem p' = mem p" "prot (os p') = prot (os p)"
proof -
  have al: "aligned (slot_pages (page_size sys) (map fst patches))" using slot_pages_aligned by blast
  obtain st where 1: "protector_make_writable sys (map fst patches) (os p) = (Inl err, st)" "p' = p\<lparr>os := st\<rparr>"
  proof (cases "protector_make_writable sys (map fst patches) (os p)")
    case (Pair r st)
    show ?thesis
    proof (cases r)
      case (Inl e)
      then show ?thesis using assms Pair that by (auto simp: apply_patches_def Let_def)
    next
      case (Inr dn)
      obtain priors p1 where s: "swap_all patches (p\<lparr>os := st\<rparr>) = (priors, p1)" by fastforce
      then have os1: "os p1 = st" using swap_all_os by fastforce
      have "captured (backed st) dn"
        using protect_pages_captured [OF Pair [unfolded Inr protector_make_writable_def] al] by auto
      then have "captured (backed (os p1)) (rev dn)" using os1 by auto
      then have "fst (protector_restore sys dn (os p1)) = Inr ()"
        using restore_pages_total [of "os p1" "rev dn"]
        by (auto simp: protector_restore_def result_of_def split: prod.splits)
      then show ?thesis
        using assms Pair Inr s by (auto simp: apply_patches_def Let_def split: prod.splits)
    qed
  qed
  show "mem p' = mem p" using 1(2) by simp
  show "prot (os p') = prot (os p)"
    using protect_pages_err [OF 1(1) [unfolded protector_make_writable_def]] al 1(2) distinct_slot_pages by simp
qed

end

section \<open>Collecting the hooks\<close>

text \<open>What \<open>collect_hooks\<close> may put on the list: unauthenticated slots that some replacement
  matches, with a resolved original.\<close>

definition hook_from :: "'o sys_ops \<Rightarrow> (nat \<Rightarrow> nat) \<Rightarrow> import_slot list \<Rightarrow> replacement \<Rightarrow> pending_hook \<Rightarrow> bool" where
  "hook_from sys m slots r h \<longleftrightarrow> (\<exists>slot \<in> set slots. match_replacement slot r = Some (ph_symbol h)
     \<and> \<not> is_authenticated slot \<and> ph_slot h = is_address slot \<and> ph_replacement h = rp_replacement r
     \<and> (\<exists>st st'. resolve_original sys (is_kind slot) (is_library slot) (ph_symbol h) (m (is_address slot)) st
         = (Some (ph_original h), st')))"

lemma collect_slots_mem: "collect_slots sys mname r slots matched pending p = (q, p') \<Longrightarrow> mem p' = mem p"
proof (induction slots arbitrary: matched pending p)
  case (Cons slot slots)
  have "mem (p\<lparr>os := st\<rparr>) = mem p" for st by simp
  then show ?case using Cons.prems Cons.IH by (force split: option.splits if_splits prod.splits)
qed simp

lemma collect_hooks_mem: "collect_hooks sys mname slots rs pending p = (q, p') \<Longrightarrow> mem p' = mem p"
  by (induction rs arbitrary: pending p) (auto split: sum.splits prod.splits if_splits dest: collect_slots_mem)

lemma collect_slots_ok:
  "collect_slots sys mname r slots matched pending p = (Inr (matched', pending'), p') \<Longrightarrow>
     distinct (map ph_slot pending) \<Longrightarrow>
     distinct (map ph_slot pending') \<and> (\<forall>h \<in> set pending'. h \<in> set pending \<or> hook_from sys (mem p) slots r h)"
proof (induction slots arbitrary: matched pending p)
  case (Cons slot slots)
  have mono: "hook_from sys m slots r h \<Longrightarrow> hook_from sys m (slot # slots) r h" for h m
    by (auto simp: hook_from_def)
  show ?case
  proof (cases "match_replacement slot r")
    case None
    then show ?thesis using Cons mono by fastforce
  next
    case (Some symb)
    with Cons.prems(1) have na: "\<not> is_authenticated slot" by (auto split: if_splits)
    show ?thesis
    proof (cases "list_ex (\<lambda>h. ph_slot h = is_address slot) pending")
      case True
      then have "collect_slots sys mname r slots True pending p = (Inr (matched', pending'), p')"
        using Cons.prems(1) Some na by simp
      from Cons.IH [OF this Cons.prems(2)] mono show ?thesis by blast
    next
      case False
      obtain res st where res: "resolve_original sys (is_kind slot) (is_library slot) symb
          (slot_load (is_address slot) p) (os p) = (res, st)" by fastforce
      show ?thesis
      proof (cases res)
        case None
        then have "collect_slots sys mname r slots True pending (p\<lparr>os := st\<rparr>) = (Inr (matched', pending'), p')"
          using Cons.prems(1) Some na False res by (auto split: if_splits)
        from Cons.IH [OF this Cons.prems(2)] mono show ?thesis by fastforce
      next
        case o: (Some original)
        let ?h = "\<lparr>ph_library = is_library slot, ph_symbol = symb, ph_slot = is_address slot,
          ph_original = original, ph_replacement = rp_replacement r\<rparr>"
        have "distinct (map ph_slot (pending @ [?h]))" using False Cons.prems(2) by (auto simp: list_ex_iff)
        moreover have "collect_slots sys mname r slots True (pending @ [?h]) (p\<lparr>os := st\<rparr>) = (Inr (matched', pending'), p')"
          using Cons.prems(1) Some na False res o by simp
        ultimately have IH: "distinct (map ph_slot pending')"
          "\<forall>h \<in> set pending'. h \<in> set (pending @ [?h]) \<or> hook_from sys (mem p) slots r h" using Cons.IH by fastforce+
        have "hook_from sys (mem p) (slot # slots) r ?h"
          using Some na res o by (auto simp: hook_from_def slot_load_def)
        then show ?thesis using IH mono by fastforce
      qed
    qed
  qed
qed auto

lemma collect_hooks_ok:
  "collect_hooks sys mname slots rs pending p = (Inr pending', p') \<Longrightarrow> distinct (map ph_slot pending) \<Longrightarrow>
     distinct (map ph_slot pending')
     \<and> (\<forall>h \<in> set pending'. h \<in> set pending \<or> (\<exists>r \<in> set rs. hook_from sys (mem p) slots r h))"
proof (induction rs arbitrary: pending p)
  case (Cons r rs)
  then obtain m pend1 p1 where 1: "collect_slots sys mname r slots False pending p = (Inr (m, pend1), p1)"
    "collect_hooks sys mname slots rs pend1 p1 = (Inr pending', p')"
    by (auto split: sum.splits prod.splits if_splits)
  note C = collect_slots_ok [OF 1(1) Cons.prems(2)]
  from Cons.IH [OF 1(2)] C collect_slots_mem [OF 1(1)] show ?case by fastforce
qed auto

section \<open>Installing and restoring\<close>

lemma apply_success_mem:
  assumes "distinct (map fst patches)" "apply_patches sys patches p = (Inr priors, p')"
  shows "priors = map (mem p) (map fst patches)" "mem p' = overwrite patches (mem p)"
proof -
  obtain st p1 st1 where 1: "swap_all patches (p\<lparr>os := st\<rparr>) = (priors, p1)" "p' = p1\<lparr>os := st1\<rparr>"
    using assms(2) by (auto simp: apply_patches_def Let_def split: prod.splits sum.splits)
  show "priors = map (mem p) (map fst patches)" "mem p' = overwrite patches (mem p)"
    using swap_all_mem [OF 1(1) assms(1)] 1(2) by auto
qed

lemma install_success:
  assumes "plt_install sys mname base (Inr slots) rs p = (Inr g, p')"
  shows "hg_active g" "hg_module_base g = base" "distinct (map ih_slot (hg_hooks g))"
    and "\<And>h. h \<in> set (hg_hooks g) \<Longrightarrow> ih_prior_value h = mem p (ih_slot h) \<and> mem p' (ih_slot h) = ih_replacement h"
    and "\<And>a. a \<notin> ih_slot ` set (hg_hooks g) \<Longrightarrow> mem p' a = mem p a"
    and "\<And>h. h \<in> set (hg_hooks g) \<Longrightarrow> \<exists>slot \<in> set slots. \<exists>r \<in> set rs. match_replacement slot r = Some (ih_symbol h)
      \<and> \<not> is_authenticated slot \<and> ih_slot h = is_address slot \<and> ih_replacement h = rp_replacement r"
proof -
  obtain pending p0 where c: "collect_hooks sys mname slots rs [] p = (Inr pending, p0)"
    using assms by (auto simp: plt_install_def split: sum.splits prod.splits)
  note C = collect_hooks_ok [OF c, simplified] and p0 = collect_hooks_mem [OF c]
  let ?patches = "map (\<lambda>h. (ph_slot h, ph_replacement h)) pending"
  let ?mk = "\<lambda>h. \<lparr>ih_library = ph_library h, ih_symbol = ph_symbol h, ih_slot = ph_slot h,
      ih_original = ph_original h, ih_prior_value = mem p (ph_slot h), ih_replacement = ph_replacement h\<rparr>"
  have d: "distinct (map fst ?patches)" using C by (simp add: comp_def)
  have g: "hg_active g \<and> hg_module_base g = base \<and> hg_hooks g = map ?mk pending \<and> mem p' = overwrite ?patches (mem p)"
  proof (cases "pending = []")
    case True
    then show ?thesis using assms c p0 by (auto simp: plt_install_def)
  next
    case False
    then obtain priors where a: "apply_patches sys ?patches p0 = (Inr priors, p')"
      using assms c by (auto simp: plt_install_def split: prod.splits sum.splits)
    note A = apply_success_mem [OF d a, unfolded p0]
    have "zip pending priors = map (\<lambda>h. (h, mem p (ph_slot h))) pending"
      using A(1) by (simp add: zip_map2 zip_same_conv_map comp_def)
    then show ?thesis using assms c False a A(2) by (auto simp: plt_install_def)
  qed
  then show "hg_active g" "hg_module_base g = base" "distinct (map ih_slot (hg_hooks g))"
    using C by (auto simp: comp_def)
  show "ih_prior_value h = mem p (ih_slot h) \<and> mem p' (ih_slot h) = ih_replacement h" if hin: "h \<in> set (hg_hooks g)" for h
  proof -
    obtain x where x: "x \<in> set pending" "h = ?mk x" using hin g by auto
    then have "(ph_slot x, ph_replacement x) \<in> set ?patches" by auto
    then have "map_of ?patches (ph_slot x) = Some (ph_replacement x)" using d by simp
    then show ?thesis using g x by (simp add: overwrite_def)
  qed
  show "mem p' a = mem p a" if "a \<notin> ih_slot ` set (hg_hooks g)" for a
    using that g by (auto simp: overwrite_other image_image)
  show "\<exists>slot \<in> set slots. \<exists>r \<in> set rs. match_replacement slot r = Some (ih_symbol h)
      \<and> \<not> is_authenticated slot \<and> ih_slot h = is_address slot \<and> ih_replacement h = rp_replacement r"
    if "h \<in> set (hg_hooks g)" for h
    using that g C by (fastforce simp: hook_from_def)
qed

lemma restore_hooks_mem:
  "restore_hooks sys base hs e p = (e', p') \<Longrightarrow> distinct (map ih_slot hs) \<Longrightarrow>
     os p' = os p
     \<and> (\<forall>h \<in> set hs. mem p' (ih_slot h) =
          (if slot_belongs_to_module sys (ih_slot h) base (os p) \<and> mem p (ih_slot h) = ih_replacement h
           then ih_prior_value h else mem p (ih_slot h)))
     \<and> (\<forall>a. a \<notin> ih_slot ` set hs \<longrightarrow> mem p' a = mem p a)
     \<and> (e' = None \<longleftrightarrow> e = None \<and> (\<forall>h \<in> set hs. slot_belongs_to_module sys (ih_slot h) base (os p) \<longrightarrow>
          mem p (ih_slot h) = ih_replacement h \<or> mem p (ih_slot h) = ih_prior_value h))"
proof (induction hs arbitrary: e p)
  case (Cons h hs)
  let ?b = "slot_belongs_to_module sys (ih_slot h) base (os p)"
  let ?hit = "?b \<and> mem p (ih_slot h) = ih_replacement h"
  let ?p1 = "if ?hit then p\<lparr>mem := (mem p)(ih_slot h := ih_prior_value h)\<rparr> else p"
  let ?e1 = "if ?b \<and> mem p (ih_slot h) \<noteq> ih_replacement h \<and> mem p (ih_slot h) \<noteq> ih_prior_value h
    then (case e of None \<Rightarrow> Some (RestoreConflict (ih_slot h) (ih_replacement h) (mem p (ih_slot h))) | Some x \<Rightarrow> Some x)
    else e"
  have "restore_hooks sys base hs ?e1 ?p1 = (e', p')"
    using Cons.prems(1) by (auto simp: slot_compare_exchange_def split: if_splits)
  note IH = Cons.IH [OF this]
  have nin: "ih_slot h \<notin> ih_slot ` set hs" using Cons.prems(2) by simp
  then have "\<forall>x \<in> set hs. ih_slot x \<noteq> ih_slot h" by (auto simp: image_iff)
  then show ?case using IH Cons.prems(2) nin by (auto split: option.splits)
qed auto

lemma guard_restore_mem:
  assumes "hg_active g" "distinct (map ih_slot (hg_hooks g))" "guard_restore sys g p = (r, g', p')"
    and "module_still_loaded sys (hg_module_base g) (os p)"
    and "protector_make_writable sys (map ih_slot (hg_hooks g)) (os p) = (Inr dn, st)"
    and "\<And>h. h \<in> set (hg_hooks g) \<Longrightarrow> slot_belongs_to_module sys (ih_slot h) (hg_module_base g) st"
  shows "\<And>h. h \<in> set (hg_hooks g) \<Longrightarrow> mem p' (ih_slot h) =
      (if mem p (ih_slot h) = ih_replacement h then ih_prior_value h else mem p (ih_slot h))"
    and "\<And>a. a \<notin> ih_slot ` set (hg_hooks g) \<Longrightarrow> mem p' a = mem p a" "\<not> hg_active g'"
proof -
  have na: "\<not> hg_active g'" using assms(1,3) by (auto simp: guard_restore_def Let_def split: prod.splits sum.splits if_splits)
  have "(\<forall>h \<in> set (hg_hooks g). mem p' (ih_slot h) =
      (if mem p (ih_slot h) = ih_replacement h then ih_prior_value h else mem p (ih_slot h)))
    \<and> (\<forall>a. a \<notin> ih_slot ` set (hg_hooks g) \<longrightarrow> mem p' a = mem p a)"
  proof (cases "hg_hooks g = []")
    case True
    then show ?thesis using assms(1,3) by (auto simp: guard_restore_def Let_def)
  next
    case False
    obtain e p1 where h: "restore_hooks sys (hg_module_base g) (hg_hooks g) None (p\<lparr>os := st\<rparr>) = (e, p1)" by fastforce
    have "mem p' = mem p1"
      using assms(1,3,4,5) False h by (auto simp: guard_restore_def Let_def split: prod.splits sum.splits)
    then show ?thesis using restore_hooks_mem [OF h assms(2)] assms(6) by simp
  qed
  then show "\<And>h. h \<in> set (hg_hooks g) \<Longrightarrow> mem p' (ih_slot h) =
      (if mem p (ih_slot h) = ih_replacement h then ih_prior_value h else mem p (ih_slot h))"
    "\<And>a. a \<notin> ih_slot ` set (hg_hooks g) \<Longrightarrow> mem p' a = mem p a" "\<not> hg_active g'"
    using na by auto
qed

end
