(* ===== verification/Mount.thy ===== *)
theory Mount
  imports Hookfs_Error Router Memory_Tree Memory_Accounting
begin

text \<open>
  \<^verbatim>\<open>crates/hookfs/src/mount.rs\<close>: the convenience layer that mounts streams under the
  reserved synthetic directory.  The provider lives in the \<open>Hookfs\<close> record (in the code,
  behind an \<open>Arc\<close>), so mounting and dropping a guard return it updated.  The random mount
  id is an argument; the laws on it (\<open>id_ok\<close>) are what \<open>random_mount_id\<close> formats.
\<close>

record 's hookfs =
  hk_fs :: "'s memfs"
  hk_root :: path

definition hookfs_new :: "time \<Rightarrow> string \<Rightarrow> 's hookfs" where
  "hookfs_new now mount_id = \<lparr>hk_fs = memfs_new now, hk_root = reserved_root mount_id\<rparr>"

definition hookfs_with_capacity :: "time \<Rightarrow> string \<Rightarrow> u64 \<Rightarrow> 's hookfs" where
  "hookfs_with_capacity now mount_id capacity =
     \<lparr>hk_fs = memfs_with_capacity now capacity, hk_root = reserved_root mount_id\<rparr>"

definition virtual_dir :: "'s hookfs \<Rightarrow> path" where
  "virtual_dir h = hk_root h"

definition path_for :: "'s hookfs \<Rightarrow> string \<Rightarrow> path" where
  "path_for h logical_name = path_join (hk_root h) logical_name"

definition validate_logical :: "string \<Rightarrow> string + unit" where
  "validate_logical name =
     (if name = [] then Inl ''empty name''
      else if NUL \<in> set name then Inl ''embedded NUL''
      else if is_absolute name \<or> hd name = CHR 0x5C \<or> hd name = CHR ''/''
      then Inl ''must be a relative name''
      else if \<not> is_lexically_safe name then Inl ''`..` escape or stream/device marker''
      else Inr ())"

text \<open>A mount guard is the key it removes.\<close>

type_synonym mount_guard = string

definition mount ::
  "'s stream_ops \<Rightarrow> string \<Rightarrow> 's \<Rightarrow> 's hookfs \<Rightarrow> (hookfs_error + mount_guard) \<times> 's hookfs" where
  "mount sops logical_name stream h =
     (case validate_logical logical_name of
        Inl reason \<Rightarrow> (Inl (InvalidMountName logical_name reason), h)
      | Inr _ \<Rightarrow>
          let abs = path_join (hk_root h) logical_name in
          (case shared_source_new sops stream of
             Inl e \<Rightarrow> (Inl (StreamSize logical_name e), h)
           | Inr source \<Rightarrow>
               (case memfs_insert_file abs source None (hk_fs h) of
                  (key, fs') \<Rightarrow> (Inr key, h\<lparr>hk_fs := fs'\<rparr>))))"

definition boxed_stream_ops :: "'s stream_ops \<Rightarrow> 's stream_ops" where
  "boxed_stream_ops inner =
     \<lparr>st_read = (\<lambda>n s. st_read inner n s), st_seek = (\<lambda>sf s. st_seek inner sf s)\<rparr>"

definition mount_boxed ::
  "'s stream_ops \<Rightarrow> string \<Rightarrow> 's \<Rightarrow> 's hookfs \<Rightarrow> (hookfs_error + mount_guard) \<times> 's hookfs" where
  "mount_boxed sops logical_name stream h = mount (boxed_stream_ops sops) logical_name stream h"

definition mount_writable :: "string \<Rightarrow> 's hookfs \<Rightarrow> (hookfs_error + mount_guard) \<times> 's hookfs" where
  "mount_writable logical_name h =
     (case validate_logical logical_name of
        Inl reason \<Rightarrow> (Inl (InvalidMountName logical_name reason), h)
      | Inr _ \<Rightarrow>
          (case memfs_insert_writable (path_join (hk_root h) logical_name) (hk_fs h) of
             (key, fs') \<Rightarrow> (Inr key, h\<lparr>hk_fs := fs'\<rparr>)))"

definition read_virtual :: "string \<Rightarrow> 's hookfs \<Rightarrow> byte list option" where
  "read_virtual logical_name h = memfs_snapshot (path_join (hk_root h) logical_name) (hk_fs h)"

definition read_virtual_path :: "path \<Rightarrow> 's hookfs \<Rightarrow> byte list option" where
  "read_virtual_path path h = memfs_snapshot path (hk_fs h)"

definition mount_guard_drop :: "mount_guard \<Rightarrow> 's hookfs \<Rightarrow> 's hookfs" where
  "mount_guard_drop key h = h\<lparr>hk_fs := memfs_remove_subtree key (hk_fs h)\<rparr>"

record 's mounted_path =
  mp_hookfs :: "'s hookfs"
  mp_primary :: path
  mp_guards :: "mount_guard list"

definition with_read_seek ::
  "'s stream_ops \<Rightarrow> string \<Rightarrow> 's \<Rightarrow> 's mounted_path \<Rightarrow> hookfs_error + 's mounted_path" where
  "with_read_seek sops logical_name stream m =
     (case mount sops logical_name stream (mp_hookfs m) of
        (Inl e, _) \<Rightarrow> Inl e
      | (Inr g, h) \<Rightarrow> Inr (m\<lparr>mp_hookfs := h, mp_guards := mp_guards m @ [g]\<rparr>))"

definition mount_read_seek ::
  "'s stream_ops \<Rightarrow> time \<Rightarrow> string \<Rightarrow> string \<Rightarrow> 's \<Rightarrow> hookfs_error + 's mounted_path" where
  "mount_read_seek sops now mount_id logical_name stream =
     (let h = hookfs_new now mount_id; primary = path_for h logical_name in
      case mount sops logical_name stream h of
        (Inl e, _) \<Rightarrow> Inl e
      | (Inr guard, h') \<Rightarrow> Inr \<lparr>mp_hookfs = h', mp_primary = primary, mp_guards = [guard]\<rparr>)"

text \<open>Fields drop in declaration order: the \<open>Hookfs\<close> handle first (another \<open>Arc\<close> keeps the
  provider alive), then each guard.\<close>

definition mounted_path_drop :: "'s mounted_path \<Rightarrow> 's hookfs" where
  "mounted_path_drop m = fold mount_guard_drop (mp_guards m) (mp_hookfs m)"

section \<open>Names\<close>

definition id_ok :: "string \<Rightarrow> bool" where
  "id_ok i \<longleftrightarrow> i \<noteq> [] \<and> list_all (\<lambda>c. c \<in> set ''0123456789abcdef'') i"

lemma hex_digits: "\<forall>c \<in> set ''0123456789abcdef''. c \<noteq> SEP \<and> c \<noteq> NUL \<and> c \<noteq> CHR ''.''"
  by code_simp

lemma id_ok_chars: "id_ok i \<Longrightarrow> c \<in> set i \<Longrightarrow> c \<noteq> SEP \<and> c \<noteq> NUL \<and> c \<noteq> CHR ''.''"
  unfolding id_ok_def list_all_iff using hex_digits by blast

lemma root_comps: "id_ok i \<Longrightarrow> comps (reserved_root i) = [RESERVED_ROOT, i]"
proof -
  assume i: "id_ok i"
  then have "SEP \<notin> set i" "i \<noteq> []" using id_ok_chars by (blast, simp add: id_ok_def)
  then show ?thesis by (simp add: reserved_root_comps comps_single)
qed

lemma valid_name:
  assumes "validate_logical name = Inr ()"
  shows "\<not> has_root name" "is_lexically_safe name" "comps name \<noteq> []"
proof -
  show n: "\<not> has_root name" "is_lexically_safe name"
    using assms by (auto simp: validate_logical_def is_absolute_def split: if_splits)
  have "name \<noteq> []" using assms by (auto simp: validate_logical_def)
  then show "comps name \<noteq> []" using n(1) comps_eq_Nil [of name] by (cases name) (auto simp: is_sep_def)
qed

lemma set_path_join: "set (path_join a b) \<subseteq> insert SEP (set a \<union> set b)"
  by (auto simp: path_join_def)

lemma root_safe: "id_ok i \<Longrightarrow> is_lexically_safe (reserved_root i)"
proof -
  assume i: "id_ok i"
  have "NUL \<notin> set (reserved_root i)"
    using id_ok_chars [OF i] by (auto simp: reserved_root_def RESERVED_ROOT_def SEP_def NUL_def)
  moreover have "i \<noteq> ''.''" "i \<noteq> ''..''" using id_ok_chars [OF i] by auto
  ultimately show ?thesis by (auto simp: is_lexically_safe_iff root_comps [OF i] RESERVED_ROOT_def)
qed

lemma mount_path:
  assumes "id_ok i" "hk_root h = reserved_root i" "validate_logical name = Inr ()"
  shows "comps (path_for h name) = [RESERVED_ROOT, i] @ comps name" "has_root (path_for h name)"
    "is_lexically_safe (path_for h name)" "plain (path_for h name)"
proof -
  note v = valid_name [OF assms(3)]
  show c: "comps (path_for h name) = [RESERVED_ROOT, i] @ comps name" "has_root (path_for h name)"
    using v assms(2) root_comps [OF assms(1)] reserved_root_comps(2)
    by (simp_all add: path_for_def path_simps)
  have "NUL \<notin> set (path_for h name)"
    using set_path_join [of "reserved_root i" name] v(2) root_safe [OF assms(1)] assms(2)
    by (auto simp: path_for_def is_lexically_safe_iff SEP_def NUL_def)
  then show s: "is_lexically_safe (path_for h name)"
    using v(2) root_safe [OF assms(1)] c(1) root_comps [OF assms(1)] by (auto simp: is_lexically_safe_iff)
  show "plain (path_for h name)" using plain_safe c(2) s by blast
qed

section \<open>Mounting\<close>

lemma insert_file_lookup:
  assumes "memfs_insert_file p src t fs = (key, fs')"
  shows "key = normalize_key p" "tree fs' key = Some (NFile (fs_fresh fs) (final_component p) t)"
    "map_of (fs_sources fs') (fs_fresh fs) = Some src"
proof -
  show k: "key = normalize_key p" using assms by (simp add: memfs_insert_file_def Let_def)
  show "tree fs' key = Some (NFile (fs_fresh fs) (final_component p) t)"
    unfolding k using assms by (auto simp: memfs_insert_file_def Let_def insert_ancestor_dirs_keep)
  have "fs_sources (drop_node nd g) = fs_sources g" for nd and g :: "'a memfs"
    by (cases nd) (auto simp: arc_drop_def split: option.splits prod.splits)
  then show "map_of (fs_sources fs') (fs_fresh fs) = Some src"
    using assms by (auto simp: memfs_insert_file_def Let_def add_ancestors_def entry_insert_def split: option.splits)
qed

text \<open>Pruning takes away directories only.\<close>

lemma prune_files: "map_of (prune a m) k = map_of m k \<or> (\<exists>nm. map_of m k = Some (NDir nm) \<and> map_of (prune a m) k = None)"
proof (induction a m rule: prune.induct)
  case (2 dir m)
  then show ?case by (auto split: option.splits node.splits if_splits)
qed simp

lemma remove_subtree_gone: "in_subtree key k \<Longrightarrow> tree (memfs_remove_subtree key fs) k = None"
  using prune_files [of "parent_key key" "fs_entries (fold entry_remove
      (filter (in_subtree key) (map fst (fs_entries fs))) fs)" k] remove_subtree_map [of key fs]
  by (auto simp: memfs_remove_subtree_def Let_def)

lemma remove_subtree_other:
  assumes "\<not> in_subtree key k" "tree fs k = Some nd" "\<not> is_dir_node nd"
  shows "tree (memfs_remove_subtree key fs) k = Some nd"
proof -
  let ?fs1 = "fold entry_remove (filter (in_subtree key) (map fst (fs_entries fs))) fs"
  have "tree ?fs1 k = Some nd" using assms remove_subtree_map [of key fs] by simp
  then show ?thesis
    using prune_files [of "parent_key key" "fs_entries ?fs1" k] assms(3)
    by (auto simp: memfs_remove_subtree_def Let_def)
qed

section \<open>Properties\<close>

text \<open>A name that passes validation is a path inside the reserved directory: every engine whose
  namespace is that directory routes it to the virtual tree, whatever its working directory.\<close>

theorem valid_mount_is_routed:
  assumes "validate_logical name = Inr ()" "id_ok i" "hk_root h = reserved_root i"
    and "eng_namespace e = from_root (hk_root h)"
  shows "classify e (path_for h name) = Virtual (path_for h name)"
proof -
  note p = mount_path [OF assms(2,3,1)]
  have "is_virtual (eng_namespace e) (path_for h name)"
    using p(1,2) assms(3,4) root_comps [OF assms(2)] reserved_root_comps(2) by (simp add: is_virtual_from_root)
  then show ?thesis using p(2,3) by (simp add: classify_absolute is_absolute_def)
qed

theorem valid_mount_is_routed_witness:
  "classify (engine_new () (from_root (reserved_root ''0a'')) False :: (unit, unit) engine)
     (path_for (hookfs_new 0 ''0a'' :: unit hookfs) ''clip/a.braw'') =
   Virtual (path_for (hookfs_new 0 ''0a'' :: unit hookfs) ''clip/a.braw'')"
proof -
  have "validate_logical ''clip/a.braw'' = Inr ()" "id_ok ''0a''" by code_simp+
  then show ?thesis
    using valid_mount_is_routed [of "''clip/a.braw''" "''0a''" "hookfs_new 0 ''0a'' :: unit hookfs"
        "engine_new () (from_root (reserved_root ''0a'')) False :: (unit, unit) engine"]
    by (simp add: hookfs_new_def engine_new_def)
qed





end
