(* ===== verification/Install.thy ===== *)
theory Install
  imports Dispatch Plt_Slot Mount
begin

text \<open>
  \<^verbatim>\<open>crates/hookfs/src/install.rs\<close>: resolving the scope to modules,
  publishing the engine, patching every module through the slot transaction, rolling back
  on failure, rescanning late-loaded modules and tearing down.  What the target decides is the record
  \<open>plt\<close>: which modules are loaded, their parsed imports, the lookup of originals, the table of
  symbols with the way in which they are matched, and the key of a directory.  \<open>shim\<close> gives the
  address of each replacement function.  The \<open>Installer\<close>, shared in the code between the
  guard and the rescan callback, is kept in the world under its installation id.
\<close>

section \<open>Options\<close>

datatype scope = Module nat | AllModules | Only "string list" | Exclude "string list"

datatype matcher = MNamespace namespace | MPredicate "path \<Rightarrow> bool"

record options =
  opt_scope :: scope
  opt_allow_writes :: bool
  opt_auto_rescan :: bool
  opt_matcher :: "matcher option"

definition options_default :: options where
  "options_default =
     \<lparr>opt_scope = AllModules, opt_allow_writes = False, opt_auto_rescan = False, opt_matcher = None\<rparr>"

definition options_for_module :: "nat \<Rightarrow> options" where
  "options_for_module address = options_default\<lparr>opt_scope := Module address\<rparr>"

definition options_for_prefix :: "path \<Rightarrow> options" where
  "options_for_prefix prefx = options_default\<lparr>opt_matcher := Some (MNamespace (for_prefix prefx))\<rparr>"

definition with_scope :: "scope \<Rightarrow> options \<Rightarrow> options" where
  "with_scope sc opts = opts\<lparr>opt_scope := sc\<rparr>"

definition with_allow_writes :: "bool \<Rightarrow> options \<Rightarrow> options" where
  "with_allow_writes allow opts = opts\<lparr>opt_allow_writes := allow\<rparr>"

definition with_auto_rescan :: "bool \<Rightarrow> options \<Rightarrow> options" where
  "with_auto_rescan enable opts = opts\<lparr>opt_auto_rescan := enable\<rparr>"

definition with_is_virtual :: "(path \<Rightarrow> bool) \<Rightarrow> options \<Rightarrow> options" where
  "with_is_virtual predicate opts = opts\<lparr>opt_matcher := Some (MPredicate predicate)\<rparr>"

definition into_parts :: "options \<Rightarrow> scope \<times> bool \<times> bool" where
  "into_parts opts = (opt_scope opts, opt_allow_writes opts, opt_auto_rescan opts)"

section \<open>Modules\<close>

record plt_module =
  m_base :: nat
  m_name :: string
  m_path :: string
  m_imports :: "plt_error + import_slot list"

record ('y, 'o) plt =
  plt_sys :: "'o sys_ops"
  plt_enumerate :: "'o \<Rightarrow> plt_error + plt_module list"
  plt_from_address :: "nat \<Rightarrow> 'o \<Rightarrow> plt_error + plt_module"
  plt_original :: "string \<Rightarrow> 'o \<Rightarrow> nat"
  plt_name :: "'y \<Rightarrow> string"
  plt_ALL :: "'y list"
  plt_index :: "'y \<Rightarrow> nat"
  plt_replacements :: "('y \<Rightarrow> nat) \<Rightarrow> bool \<Rightarrow> replacement list"
  plt_dir_key :: "path \<Rightarrow> string"

definition name_eq :: "string \<Rightarrow> string \<Rightarrow> bool" where
  "name_eq actual wanted = eq_ignore_ascii_case actual wanted"

definition listed :: "string list \<Rightarrow> plt_module \<Rightarrow> bool" where
  "listed names m = list_ex (\<lambda>n. name_eq (m_name m) n) names"

definition resolve_modules :: "('y, 'o) plt \<Rightarrow> scope \<Rightarrow> 'o \<Rightarrow> hookfs_error + plt_module list" where
  "resolve_modules env sc st =
     (case sc of
        Module addr \<Rightarrow>
          (case plt_from_address env addr st of Inl e \<Rightarrow> Inl (Engine e) | Inr m \<Rightarrow> Inr [m])
      | AllModules \<Rightarrow> (case plt_enumerate env st of Inl e \<Rightarrow> Inl (Engine e) | Inr ms \<Rightarrow> Inr ms)
      | Only names \<Rightarrow>
          (case plt_enumerate env st of Inl e \<Rightarrow> Inl (Engine e) | Inr ms \<Rightarrow> Inr (filter (listed names) ms))
      | Exclude names \<Rightarrow>
          (case plt_enumerate env st of
             Inl e \<Rightarrow> Inl (Engine e)
           | Inr ms \<Rightarrow> Inr (filter (\<lambda>m. \<not> listed names m) ms)))"

definition unix_dir_key :: "path \<Rightarrow> string" where
  "unix_dir_key path = normalize_key (case path_parent path of Some dir \<Rightarrow> dir | None \<Rightarrow> path)"

definition module_dir_key :: "('y, 'o) plt \<Rightarrow> plt_module \<Rightarrow> string" where
  "module_dir_key env m = plt_dir_key env (m_path m)"

definition anchor_dir :: "('y, 'o) plt \<Rightarrow> scope \<Rightarrow> 'o \<Rightarrow> string option" where
  "anchor_dir env sc st =
     (case sc of
        Module addr \<Rightarrow>
          (case plt_from_address env addr st of Inl _ \<Rightarrow> None | Inr m \<Rightarrow> Some (module_dir_key env m))
      | _ \<Rightarrow> None)"

text \<open>The shared Unix code of \<open>build_replacements\<close>, at the table of each target.\<close>

definition unix_replacements ::
  "('y \<Rightarrow> string) \<Rightarrow> ('y \<Rightarrow> bool) \<Rightarrow> 'y list \<Rightarrow> ('y \<Rightarrow> nat) \<Rightarrow> bool \<Rightarrow> replacement list" where
  "unix_replacements sname loader all shim auto_rescan =
     map (\<lambda>s. optional (by_symbol (sname s) (shim s))) (filter (\<lambda>s. auto_rescan \<or> \<not> loader s) all)"

definition linux_loader_sym :: "sym \<Rightarrow> bool" where
  "linux_loader_sym s \<longleftrightarrow> s = Dlopen \<or> s = Dlclose"

definition darwin_loader_sym :: "darwin_sym \<Rightarrow> bool" where
  "darwin_loader_sym s \<longleftrightarrow> s = D_Dlopen \<or> s = D_Dlclose"

definition windows_loader_sym :: "windows_sym \<Rightarrow> bool" where
  "windows_loader_sym s \<longleftrightarrow> s = W_LoadLibraryExW \<or> s = W_LoadLibraryA"

definition windows_replacements :: "(windows_sym \<Rightarrow> nat) \<Rightarrow> bool \<Rightarrow> replacement list" where
  "windows_replacements shim auto_rescan =
     map (\<lambda>s. optional (by_name ''KERNEL32.dll'' (windows_sym_name s) (shim s)))
       (filter (\<lambda>s. auto_rescan \<or> \<not> windows_loader_sym s) windows_sym_ALL)"

section \<open>The world and the installer\<close>

record installer =
  in_scope :: scope
  in_sdk_dir :: "string option"
  in_auto_rescan :: bool
  in_install_id :: nat
  in_guards :: "hook_guard list"
  in_hooked_bases :: "nat list"

record ('e, 'o) world =
  w_disp :: "('e, nat) dispatch"
  w_proc :: "'o process"
  w_installers :: "(nat \<times> installer) list"

definition set_orig :: "('y, 'o) plt \<Rightarrow> string \<Rightarrow> nat \<Rightarrow> ('e, 'c) dispatch \<Rightarrow> ('e, 'c) dispatch" where
  "set_orig env name ptr d =
     d\<lparr>d_originals := set_original (plt_name env) (plt_ALL env) (plt_index env) name ptr (d_originals d)\<rparr>"

definition preresolve_originals :: "('y, 'o) plt \<Rightarrow> 'o \<Rightarrow> ('e, 'c) dispatch \<Rightarrow> ('e, 'c) dispatch" where
  "preresolve_originals env st d =
     fold (\<lambda>s d. let p = plt_original env (plt_name env s) st in if p \<noteq> 0 then set_orig env (plt_name env s) p d else d)
       (plt_ALL env) d"

definition refresh_originals :: "('y, 'o) plt \<Rightarrow> hook_guard \<Rightarrow> ('e, 'c) dispatch \<Rightarrow> ('e, 'c) dispatch" where
  "refresh_originals env g d =
     fold (\<lambda>h d. set_orig env (describe (ih_symbol h)) (ih_original h) d) (hg_hooks g) d"

definition insert_base :: "nat \<Rightarrow> nat list \<Rightarrow> nat list" where
  "insert_base b bs = (if b \<in> set bs then bs else b # bs)"

definition uninstall_all :: "('y, 'o) plt \<Rightarrow> installer \<Rightarrow> 'o process \<Rightarrow> installer \<times> 'o process" where
  "uninstall_all env inst p =
     (inst\<lparr>in_guards := []\<rparr>, fold (\<lambda>g p. snd (guard_uninstall (plt_sys env) g p)) (in_guards inst) p)"

fun install_modules ::
  "('y, 'o) plt \<Rightarrow> replacement list \<Rightarrow> plt_module list \<Rightarrow> installer \<Rightarrow> ('e, 'o) world \<Rightarrow>
     (plt_error + unit) \<times> installer \<times> ('e, 'o) world" where
  "install_modules env rs [] inst w = (Inr (), inst, w)"
| "install_modules env rs (m # ms) inst w =
     (case plt_install (plt_sys env) (m_name m) (m_base m) (m_imports m) rs (w_proc w) of
        (Inr g, p) \<Rightarrow>
          install_modules env rs ms
            (inst\<lparr>in_hooked_bases := insert_base (m_base m) (in_hooked_bases inst),
                  in_guards := in_guards inst @ [g]\<rparr>)
            (w\<lparr>w_proc := p, w_disp := refresh_originals env g (w_disp w)\<rparr>)
      | (Inl e, p) \<Rightarrow> (Inl e, inst, w\<lparr>w_proc := p\<rparr>))"

definition install_with_namespace ::
  "('y, 'o) plt \<Rightarrow> ('y \<Rightarrow> nat) \<Rightarrow> 'v \<Rightarrow> namespace \<Rightarrow> scope \<Rightarrow> bool \<Rightarrow> bool \<Rightarrow> (('v, 'h) engine, 'o) world \<Rightarrow>
     (hookfs_error + nat) \<times> (('v, 'h) engine, 'o) world" where
  "install_with_namespace env shim vfs ns sc allow_writes auto_rescan w =
     (case resolve_modules env sc (os (w_proc w)) of
        Inl e \<Rightarrow> (Inl e, w)
      | Inr modules \<Rightarrow>
          if modules = [] then (Inl (NoTargetModule ''scope matched no loaded module''), w)
          else
            (case try_activate (engine_new vfs ns allow_writes) (w_disp w) of
               (None, d) \<Rightarrow> (Inl AlreadyInstalled, w\<lparr>w_disp := d\<rparr>)
             | (Some install_id, d) \<Rightarrow>
                 let d1 = preresolve_originals env (os (w_proc w)) d;
                     rs = plt_replacements env shim auto_rescan;
                     inst = \<lparr>in_scope = sc, in_sdk_dir = anchor_dir env sc (os (w_proc w)),
                             in_auto_rescan = auto_rescan, in_install_id = install_id,
                             in_guards = [], in_hooked_bases = []\<rparr>
                 in (case install_modules env rs modules inst (w\<lparr>w_disp := d1\<rparr>) of
                       (Inl e, inst1, w1) \<Rightarrow>
                         (Inl (Engine e),
                          w1\<lparr>w_proc := snd (uninstall_all env inst1 (w_proc w1)),
                             w_disp := deactivate install_id (w_disp w1)\<rparr>)
                     | (Inr _, inst1, w1) \<Rightarrow>
                         (Inr install_id,
                          w1\<lparr>w_installers := AList.update install_id inst1 (w_installers w1),
                             w_disp := (if auto_rescan then set_rescan install_id (w_disp w1)
                                        else w_disp w1)\<rparr>))))"

definition install ::
  "('y, 'o) plt \<Rightarrow> ('y \<Rightarrow> nat) \<Rightarrow> string \<Rightarrow> 'v \<Rightarrow> options \<Rightarrow> (('v, 'h) engine, 'o) world \<Rightarrow>
     (hookfs_error + nat) \<times> (('v, 'h) engine, 'o) world" where
  "install env shim mount_id vfs opts w =
     (let ns = (case opt_matcher opts of
                  Some (MNamespace ns) \<Rightarrow> ns
                | Some (MPredicate pred) \<Rightarrow> with_predicate mount_id pred
                | None \<Rightarrow> reserved mount_id)
      in install_with_namespace env shim vfs ns (opt_scope opts) (opt_allow_writes opts)
           (opt_auto_rescan opts) w)"

definition hookfs_install ::
  "('y, 'o) plt \<Rightarrow> ('y \<Rightarrow> nat) \<Rightarrow> 's hookfs \<Rightarrow> options \<Rightarrow> (('s memfs, 'h) engine, 'o) world \<Rightarrow>
     (hookfs_error + nat) \<times> (('s memfs, 'h) engine, 'o) world" where
  "hookfs_install env shim h opts w =
     (case into_parts opts of
        (sc, allow_writes, auto_rescan) \<Rightarrow>
          install_with_namespace env shim (hk_fs h) (from_root (hk_root h)) sc allow_writes auto_rescan w)"

section \<open>Rescanning\<close>

definition should_rescan_hook :: "('y, 'o) plt \<Rightarrow> installer \<Rightarrow> plt_module \<Rightarrow> bool" where
  "should_rescan_hook env inst m =
     (case in_scope inst of
        Module _ \<Rightarrow> (case in_sdk_dir inst of Some dir \<Rightarrow> module_dir_key env m = dir | None \<Rightarrow> False)
      | AllModules \<Rightarrow> True
      | Only names \<Rightarrow> listed names m
      | Exclude names \<Rightarrow> \<not> listed names m)"

fun rescan_modules ::
  "('y, 'o) plt \<Rightarrow> replacement list \<Rightarrow> plt_module list \<Rightarrow> nat \<Rightarrow> installer \<Rightarrow> ('e, 'o) world \<Rightarrow>
     nat \<times> installer \<times> ('e, 'o) world" where
  "rescan_modules env rs [] count inst w = (count, inst, w)"
| "rescan_modules env rs (m # ms) count inst w =
     (if \<not> should_rescan_hook env inst m \<or> m_base m \<in> set (in_hooked_bases inst)
      then rescan_modules env rs ms count inst w
      else
        let inst1 = inst\<lparr>in_hooked_bases := m_base m # in_hooked_bases inst\<rparr>
        in (case plt_install (plt_sys env) (m_name m) (m_base m) (m_imports m) rs (w_proc w) of
              (Inr g, p) \<Rightarrow>
                rescan_modules env rs ms (Suc count) (inst1\<lparr>in_guards := in_guards inst1 @ [g]\<rparr>)
                  (w\<lparr>w_proc := p, w_disp := refresh_originals env g (w_disp w)\<rparr>)
            | (Inl _, p) \<Rightarrow> rescan_modules env rs ms count inst1 (w\<lparr>w_proc := p\<rparr>)))"

definition rescan ::
  "('y, 'o) plt \<Rightarrow> ('y \<Rightarrow> nat) \<Rightarrow> nat \<Rightarrow> ('e, 'o) world \<Rightarrow> (hookfs_error + nat) \<times> ('e, 'o) world" where
  "rescan env shim install_id w =
     (case map_of (w_installers w) install_id of
        None \<Rightarrow> (Inr 0, w)
      | Some inst \<Rightarrow>
          (case plt_enumerate env (os (w_proc w)) of
             Inl e \<Rightarrow> (Inl (Engine e), w)
           | Inr modules \<Rightarrow>
               (case rescan_modules env (plt_replacements env shim (in_auto_rescan inst)) modules 0 inst w of
                  (count, inst', w') \<Rightarrow>
                    (Inr count, w'\<lparr>w_installers := AList.update install_id inst' (w_installers w')\<rparr>))))"

definition hooked_module_count :: "installer \<Rightarrow> nat" where
  "hooked_module_count inst = length (in_hooked_bases inst)"

definition install_guard_drop :: "('y, 'o) plt \<Rightarrow> nat \<Rightarrow> ('e, 'o) world \<Rightarrow> ('e, 'o) world" where
  "install_guard_drop env install_id w =
     (let w1 = w\<lparr>w_disp := clear_rescan (w_disp w)\<rparr> in
      case map_of (w_installers w1) install_id of
        None \<Rightarrow> w1\<lparr>w_disp := deactivate install_id (w_disp w1)\<rparr>
      | Some inst \<Rightarrow>
          (case uninstall_all env inst (w_proc w1) of
             (_, p) \<Rightarrow>
               w1\<lparr>w_proc := p, w_installers := AList.delete install_id (w_installers w1),
                  w_disp := deactivate install_id (w_disp w1)\<rparr>))"

text \<open>On a target without a backend both entry points fail.\<close>

definition unsupported_install :: "'v \<Rightarrow> namespace \<Rightarrow> scope \<Rightarrow> bool \<Rightarrow> bool \<Rightarrow> hookfs_error + nat" where
  "unsupported_install vfs ns sc allow_writes auto_rescan = Inl UnsupportedPlatform"

definition unsupported_rescan :: "hookfs_error + nat" where
  "unsupported_rescan = Inl UnsupportedPlatform"

section \<open>Who owns the routing slot\<close>

lemma set_orig_active [simp]: "d_active (set_orig env n q d) = d_active d" "d_next_id (set_orig env n q d) = d_next_id d"
  by (simp_all add: set_orig_def)

lemma preresolve_active [simp]: "d_active (preresolve_originals env st d) = d_active d"
proof -
  have "d_active (fold (\<lambda>s d. let q = plt_original env (plt_name env s) st in if q \<noteq> 0 then set_orig env (plt_name env s) q d else d)
      xs d) = d_active d" for xs
    by (induction xs arbitrary: d) (simp_all add: Let_def)
  then show ?thesis by (simp only: preresolve_originals_def)
qed

lemma refresh_active [simp]: "d_active (refresh_originals env g d) = d_active d"
proof -
  have "d_active (fold (\<lambda>h d. set_orig env (describe (ih_symbol h)) (ih_original h) d) hs d) = d_active d" for hs
    by (induction hs arbitrary: d) simp_all
  then show ?thesis by (simp only: refresh_originals_def)
qed

lemma install_modules_slot:
  "install_modules env rs ms inst w = (r, inst', w') \<Longrightarrow>
     d_active (w_disp w') = d_active (w_disp w) \<and> w_installers w' = w_installers w
     \<and> in_install_id inst' = in_install_id inst"
  by (induction ms arbitrary: inst w) (fastforce split: prod.splits sum.splits)+

text \<open>The outcome of an installation, unfolded once for the properties below.\<close>

lemma install_cases:
  assumes "install_with_namespace env shim vfs ns sc aw ar w = (r, w')"
  obtains (unresolved) e where "r = Inl e" "w' = w"
  | (refused) "r = Inl AlreadyInstalled" "w' = w" "d_active (w_disp w) \<noteq> None"
  | (failed) ms inst d e inst1 w1 where "d_active (w_disp w) = None" "resolve_modules env sc (os (w_proc w)) = Inr ms"
      "install_modules env (plt_replacements env shim ar) ms inst
         (w\<lparr>w_disp := d\<rparr>) = (Inl e, inst1, w1)" "in_guards inst = []" "in_hooked_bases inst = []"
      "r = Inl (Engine e)" "mem (w_proc w') = mem (snd (uninstall_all env inst1 (w_proc w1)))"
      "d_active (w_disp w') = None" "w_installers w' = w_installers w"
  | (installed) ms inst d inst1 w1 where "d_active (w_disp w) = None" "resolve_modules env sc (os (w_proc w)) = Inr ms"
      "install_modules env (plt_replacements env shim ar) ms inst
         (w\<lparr>w_disp := d\<rparr>) = (Inr (), inst1, w1)" "in_guards inst = []" "in_hooked_bases inst = []"
      "r = Inr (d_next_id (w_disp w))" "w_proc w' = w_proc w1"
      "d_active (w_disp w') = Some (engine_new vfs ns aw, d_next_id (w_disp w))"
      "map_of (w_installers w') (d_next_id (w_disp w)) = Some inst1"
proof (cases "resolve_modules env sc (os (w_proc w))")
  case (Inl e)
  with assms have "(r, w') = (Inl e, w)" by (simp add: install_with_namespace_def)
  then show ?thesis using unresolved by blast
next
  case (Inr ms)
  show ?thesis
  proof (cases "ms = []")
    case True
    with assms Inr have "(r, w') = (Inl (NoTargetModule ''scope matched no loaded module''), w)"
      by (simp add: install_with_namespace_def)
    then show ?thesis using unresolved by blast
  next
    case ne: False
    obtain i d where a: "try_activate (engine_new vfs ns aw) (w_disp w) = (i, d)" by fastforce
    show ?thesis
    proof (cases i)
      case None
      then have a': "try_activate (engine_new vfs ns aw) (w_disp w) = (None, w_disp w)" "d_active (w_disp w) \<noteq> None"
        using a activate_None [of "engine_new vfs ns aw" "w_disp w" d] by simp_all
      have "(r, w') = (Inl AlreadyInstalled, w)"
        using assms Inr ne by (simp add: install_with_namespace_def a'(1))
      then show ?thesis using refused a'(2) by blast
    next
      case (Some k)
      note A = activate_Some [OF a [unfolded Some]]
      define inst where "inst = \<lparr>in_scope = sc, in_sdk_dir = anchor_dir env sc (os (w_proc w)),
        in_auto_rescan = ar, in_install_id = k, in_guards = [], in_hooked_bases = []\<rparr>"
      obtain q inst1 w1 where m: "install_modules env (plt_replacements env shim ar) ms inst
         (w\<lparr>w_disp := preresolve_originals env (os (w_proc w)) d\<rparr>) = (q, inst1, w1)" by (metis prod_cases3)
      note M = install_modules_slot [OF m]
      have g: "in_guards inst = []" "in_hooked_bases inst = []" by (simp_all add: inst_def)
      show ?thesis
      proof (cases q)
        case (Inl e)
        have "r = Inl (Engine e)" "w' = w1\<lparr>w_proc := snd (uninstall_all env inst1 (w_proc w1)),
            w_disp := deactivate k (w_disp w1)\<rparr>"
          using assms Inr ne a Some m Inl by (auto simp: install_with_namespace_def Let_def inst_def)
        then show ?thesis
          using failed [OF _ Inr m [unfolded Inl] g] A M by (simp add: deactivate_def)
      next
        case q: (Inr u)
        then have q: "q = Inr ()" by simp
        have "r = Inr k" "w' = w1\<lparr>w_installers := AList.update k inst1 (w_installers w1),
            w_disp := (if ar then set_rescan k (w_disp w1) else w_disp w1)\<rparr>"
          using assms Inr ne a Some m q by (auto simp: install_with_namespace_def Let_def inst_def)
        then show ?thesis
          using installed [OF _ Inr m [unfolded q] g] A M by (simp add: set_rescan_def update_conv)
      qed
    qed
  qed
qed

section \<open>Tearing down\<close>

text \<open>A guard list is \<open>laid\<close> over the memory \<open>m0\<close> when its cells are pairwise different, each holds its
  replacement and remembers the value it had in \<open>m0\<close>, and no other cell differs from \<open>m0\<close>.\<close>

definition guard_slots :: "hook_guard \<Rightarrow> nat list" where
  "guard_slots g = map ih_slot (hg_hooks g)"

definition laid :: "(nat \<Rightarrow> nat) \<Rightarrow> hook_guard list \<Rightarrow> 'o process \<Rightarrow> bool" where
  "laid m0 gs p \<longleftrightarrow> (\<forall>g \<in> set gs. hg_active g) \<and> distinct (concat (map guard_slots gs))
     \<and> (\<forall>g \<in> set gs. \<forall>h \<in> set (hg_hooks g). ih_prior_value h = m0 (ih_slot h) \<and> mem p (ih_slot h) = ih_replacement h)
     \<and> (\<forall>a. a \<notin> set (concat (map guard_slots gs)) \<longrightarrow> mem p a = m0 a)"

text \<open>What the platform grants a module: it stays loaded, its import cells stay its own and their
  pages can be made writable.\<close>

definition cooperative :: "'o sys_ops \<Rightarrow> nat \<Rightarrow> nat set \<Rightarrow> bool" where
  "cooperative sys base cells \<longleftrightarrow> (\<forall>st. module_still_loaded sys base st)
     \<and> (\<forall>a \<in> cells. \<forall>st. slot_belongs_to_module sys a base st)
     \<and> (\<forall>slots st. set slots \<subseteq> cells \<longrightarrow> (\<exists>dn st'. protector_make_writable sys slots st = (Inr dn, st')))"

lemma cooperative_mono: "cooperative sys base A \<Longrightarrow> B \<subseteq> A \<Longrightarrow> cooperative sys base B"
  unfolding cooperative_def by (meson subset_eq subset_trans)

lemma guard_restore_inactive: "\<not> hg_active g \<Longrightarrow> guard_restore sys g p = (Inr (), g, p)"
  by (simp add: guard_restore_def)

lemma uninstall_laid:
  assumes "laid m0 (g # gs) p" "cooperative sys (hg_module_base g) (set (guard_slots g))"
  shows "laid m0 gs (snd (guard_uninstall sys g p))"
proof -
  obtain r g' p' where R: "guard_restore sys g p = (r, g', p')" by (metis prod_cases3)
  obtain dn st where mk: "protector_make_writable sys (map ih_slot (hg_hooks g)) (os p) = (Inr dn, st)"
    using assms(2) unfolding cooperative_def guard_slots_def by blast
  have belongs: "slot_belongs_to_module sys (ih_slot h) (hg_module_base g) st" if "h \<in> set (hg_hooks g)" for h
    using assms(2) that by (auto simp: cooperative_def guard_slots_def)
  have L: "hg_active g" "distinct (map ih_slot (hg_hooks g))" "module_still_loaded sys (hg_module_base g) (os p)"
    using assms by (auto simp: laid_def guard_slots_def cooperative_def)
  note M = guard_restore_mem [OF L(1,2) R L(3) mk belongs]
  have "snd (guard_uninstall sys g p) = p'"
    using R guard_restore_inactive [OF M(3), of sys p'] by (simp add: guard_uninstall_def)
  moreover have "mem p' a = (if a \<in> set (guard_slots g) then m0 a else mem p a)" for a
    using M(1,2) assms(1) by (auto simp: laid_def guard_slots_def)
  moreover have "a \<notin> set (guard_slots g)" if "a \<in> set (concat (map guard_slots gs))" for a
    using that assms(1) unfolding laid_def by (auto simp del: set_concat)
  moreover have "ih_slot h \<in> set (concat (map guard_slots gs))" if "x \<in> set gs" "h \<in> set (hg_hooks x)" for x h
    using that by (auto simp: guard_slots_def)
  ultimately show ?thesis
    using assms(1) unfolding laid_def by (simp del: set_concat add: ball_Un)
qed

lemma uninstall_all_laid:
  "laid m0 gs p \<Longrightarrow> (\<And>g. g \<in> set gs \<Longrightarrow> cooperative sys (hg_module_base g) (set (guard_slots g))) \<Longrightarrow>
     mem (fold (\<lambda>g p. snd (guard_uninstall sys g p)) gs p) = m0"
proof (induction gs arbitrary: p)
  case Nil
  then show ?case by (auto simp: laid_def)
next
  case (Cons g gs)
  from Cons.IH [OF uninstall_laid [OF Cons.prems(1)]] Cons.prems(2) show ?case by simp
qed

text \<open>A module install that fails leaves the cells alone.\<close>

lemma apply_error_mem:
  assumes "distinct (map fst patches)" "apply_patches sys patches p = (Inl err, p')"
    and "\<forall>st. \<exists>dn st'. protector_make_writable sys (map fst patches) st = (Inr dn, st')"
  shows "mem p' = mem p"
proof -
  obtain dn st where 1: "protector_make_writable sys (map fst patches) (os p) = (Inr dn, st)" using assms(3) by blast
  obtain priors p1 where 2: "swap_all patches (p\<lparr>os := st\<rparr>) = (priors, p1)" by fastforce
  obtain r st1 where 3: "protector_restore sys dn (os p1) = (r, st1)" by fastforce
  obtain re st2 where 4: "protector_make_writable sys (map fst patches) st1 = (Inr re, st2)" using assms(3) by blast
  obtain x p2 where 5: "swap_all (zip (map fst patches) priors) (p1\<lparr>os := st2\<rparr>) = (x, p2)" by fastforce
  have "mem p' = mem p2" using assms(2) 1 2 3 4 5 by (cases r) (auto simp: apply_patches_def Let_def)
  then show ?thesis using swap_all_undo [OF assms(1) 2 5] by simp
qed

definition import_cells :: "plt_module \<Rightarrow> nat set" where
  "import_cells m = (case m_imports m of Inl _ \<Rightarrow> {} | Inr slots \<Rightarrow> is_address ` set slots)"

lemma plt_install_error_mem:
  assumes "plt_install sys (m_name m) (m_base m) (m_imports m) rs p = (Inl err, p')"
    and "cooperative sys (m_base m) (import_cells m)"
  shows "mem p' = mem p"
proof (cases "m_imports m")
  case (Inl e)
  with assms(1) show ?thesis by (simp add: plt_install_def)
next
  case slots: (Inr slots)
  show ?thesis
  proof (cases "collect_hooks sys (m_name m) slots rs [] p")
    case c: (Pair res p0)
    note p0 = collect_hooks_mem [OF c]
    show ?thesis
    proof (cases res)
      case (Inl e)
      with assms(1) slots c p0 show ?thesis by (simp add: plt_install_def)
    next
      case (Inr pending)
      note C = collect_hooks_ok [OF c [unfolded Inr], simplified]
      let ?patches = "map (\<lambda>h. (ph_slot h, ph_replacement h)) pending"
      have fst: "map fst ?patches = map ph_slot pending" by (simp add: comp_def)
      have "set (map fst ?patches) \<subseteq> import_cells m"
        using C slots by (fastforce simp: fst import_cells_def hook_from_def)
      then have "\<forall>st. \<exists>dn st'. protector_make_writable sys (map fst ?patches) st = (Inr dn, st')"
        using assms(2) unfolding cooperative_def by blast
      moreover have "distinct (map fst ?patches)" unfolding fst using C by blast
      moreover have "apply_patches sys ?patches p0 = (Inl err, p')"
        using assms(1) slots Inr c by (auto simp: plt_install_def split: if_splits prod.splits sum.splits)
      ultimately have "mem p' = mem p0" using apply_error_mem by blast
      with p0 show ?thesis by simp
    qed
  qed
qed

lemma plt_install_laid:
  assumes "plt_install sys (m_name m) (m_base m) (m_imports m) rs p = (Inr g, p')" "laid m0 gs p"
    and "import_cells m \<inter> set (concat (map guard_slots gs)) = {}"
  shows "laid m0 (gs @ [g]) p'" "set (guard_slots g) \<subseteq> import_cells m" "hg_module_base g = m_base m"
proof -
  obtain slots where slots: "m_imports m = Inr slots"
    using assms(1) by (cases "m_imports m") (auto simp: plt_install_def)
  note I = install_success [OF assms(1) [unfolded slots]]
  show sub: "set (guard_slots g) \<subseteq> import_cells m"
    using I(6) slots by (fastforce simp: guard_slots_def import_cells_def)
  show "hg_module_base g = m_base m" by (rule I(2))
  have slots_g: "set (guard_slots g) = ih_slot ` set (hg_hooks g)" by (simp add: guard_slots_def)
  have apart: "ih_slot ` set (hg_hooks g) \<inter> set (concat (map guard_slots gs)) = {}"
    using sub assms(3) unfolding slots_g by blast
  have other: "ih_slot h \<notin> ih_slot ` set (hg_hooks g)" if "x \<in> set gs" "h \<in> set (hg_hooks x)" for x h
  proof -
    have "ih_slot h \<in> set (concat (map guard_slots gs))" using that by (auto simp: guard_slots_def)
    then show ?thesis using apart by blast
  qed
  have "mem p (ih_slot h) = m0 (ih_slot h)" if "h \<in> set (hg_hooks g)" for h
  proof -
    have "ih_slot h \<notin> set (concat (map guard_slots gs))" using that apart by blast
    then show ?thesis using assms(2) unfolding laid_def by blast
  qed
  then have new: "\<forall>h \<in> set (hg_hooks g). ih_prior_value h = m0 (ih_slot h) \<and> mem p' (ih_slot h) = ih_replacement h"
    using I(4) by simp
  have old: "\<forall>x \<in> set gs. \<forall>h \<in> set (hg_hooks x). ih_prior_value h = m0 (ih_slot h) \<and> mem p' (ih_slot h) = ih_replacement h"
  proof (intro ballI)
    fix x h
    assume xh: "x \<in> set gs" "h \<in> set (hg_hooks x)"
    have "mem p' (ih_slot h) = mem p (ih_slot h)" by (rule I(5) [OF other [OF xh]])
    then show "ih_prior_value h = m0 (ih_slot h) \<and> mem p' (ih_slot h) = ih_replacement h"
      using assms(2) xh unfolding laid_def by simp
  qed
  have "distinct (concat (map guard_slots (gs @ [g])))"
    using assms(2,3) I(3) sub by (auto simp: laid_def guard_slots_def)
  moreover have "mem p' a = m0 a" if "a \<notin> set (concat (map guard_slots (gs @ [g])))" for a
    using that assms(2) I(5) [of a] by (simp add: laid_def guard_slots_def)
  ultimately show "laid m0 (gs @ [g]) p'"
    using assms(2) I(1) new old unfolding laid_def by (simp add: ball_Un)
qed

text \<open>The layout of a process: the modules that the loader may answer stay loaded with writable import
  cells, and modules at different addresses import through different cells.\<close>

lemma sorted_wrt_related:
  "sorted_wrt R xs \<Longrightarrow> x \<in> set xs \<Longrightarrow> y \<in> set xs \<Longrightarrow> x \<noteq> y \<Longrightarrow> R x y \<or> R y x"
  by (induction xs) auto

lemma distinct_map_unat: "distinct (map unat xs) = distinct xs"
  by (simp add: distinct_map inj_on_def word_unat_eq_iff)

definition loadable :: "('y, 'o) plt \<Rightarrow> plt_module \<Rightarrow> bool" where
  "loadable env m \<longleftrightarrow>
     (\<exists>st ms. plt_enumerate env st = Inr ms \<and> m \<in> set ms) \<or> (\<exists>a st. plt_from_address env a st = Inr m)"

text \<open>What installing and rescanning keep: the guards are laid over the original memory, and each is a
  guard of a module whose base is recorded.\<close>

definition tended :: "('y, 'o) plt \<Rightarrow> (nat \<Rightarrow> nat) \<Rightarrow> installer \<Rightarrow> 'o process \<Rightarrow> bool" where
  "tended env m0 inst p \<longleftrightarrow> laid m0 (in_guards inst) p \<and>
     (\<forall>g \<in> set (in_guards inst). \<exists>m. loadable env m \<and> hg_module_base g = m_base m \<and>
        set (guard_slots g) \<subseteq> import_cells m \<and> m_base m \<in> set (in_hooked_bases inst))"

locale loader_layout =
  fixes env :: "('y, 'o) plt"
  assumes stays: "loadable env m \<Longrightarrow> cooperative (plt_sys env) (m_base m) (import_cells m)"
    and apart: "loadable env m \<Longrightarrow> loadable env n \<Longrightarrow> m_base m \<noteq> m_base n \<Longrightarrow> import_cells m \<inter> import_cells n = {}"
    and bases: "plt_enumerate env st = Inr ms \<Longrightarrow> distinct (map m_base ms)"
begin

lemma tended_start: "in_guards inst = [] \<Longrightarrow> tended env (mem p) inst p"
  by (simp add: tended_def laid_def)

lemma tended_more:
  assumes "tended env m0 inst p" "in_guards inst' = in_guards inst" "set (in_hooked_bases inst) \<subseteq> set (in_hooked_bases inst')"
    and "mem p' = mem p"
  shows "tended env m0 inst' p'"
proof -
  have "laid m0 (in_guards inst') p'" using assms(1,2,4) by (simp add: tended_def laid_def)
  then show ?thesis using assms(1,2,3) unfolding tended_def by (metis subsetD)
qed

lemma tended_error:
  assumes "plt_install (plt_sys env) (m_name m) (m_base m) (m_imports m) rs p = (Inl e, p')" "loadable env m"
  shows "mem p' = mem p"
  using plt_install_error_mem [OF assms(1) stays [OF assms(2)]] .

lemma tended_step:
  assumes "plt_install (plt_sys env) (m_name m) (m_base m) (m_imports m) rs p = (Inr g, p')" "loadable env m"
    and "tended env m0 inst p" "m_base m \<notin> set (in_hooked_bases inst)"
    and "in_guards inst' = in_guards inst @ [g]" "set (in_hooked_bases inst') = insert (m_base m) (set (in_hooked_bases inst))"
  shows "tended env m0 inst' p'"
proof -
  have "import_cells m \<inter> set (guard_slots x) = {}" if "x \<in> set (in_guards inst)" for x
  proof -
    from that assms(3) obtain n where n: "loadable env n" "set (guard_slots x) \<subseteq> import_cells n"
      "m_base n \<in> set (in_hooked_bases inst)" by (auto simp: tended_def)
    then have "m_base m \<noteq> m_base n" using assms(4) by auto
    with apart [OF assms(2) n(1)] n(2) show ?thesis by blast
  qed
  then have "import_cells m \<inter> set (concat (map guard_slots (in_guards inst))) = {}" by auto
  note L = plt_install_laid [OF assms(1) _ this]
  show ?thesis
    unfolding tended_def assms(5,6)
  proof (intro conjI ballI)
    show "laid m0 (in_guards inst @ [g]) p'" using L(1) assms(3) by (simp add: tended_def)
    fix x
    assume x: "x \<in> set (in_guards inst @ [g])"
    show "\<exists>n. loadable env n \<and> hg_module_base x = m_base n \<and> set (guard_slots x) \<subseteq> import_cells n \<and>
        m_base n \<in> insert (m_base m) (set (in_hooked_bases inst))"
      using x assms(2,3) L(2,3) by (auto simp: tended_def)
  qed
qed

lemma install_modules_tended:
  assumes "install_modules env rs ms inst w = (r, inst', w')" "tended env m0 inst (w_proc w)"
    and "\<forall>m \<in> set ms. loadable env m" "distinct (map m_base ms)"
    and "m_base ` set ms \<inter> set (in_hooked_bases inst) = {}"
  shows "tended env m0 inst' (w_proc w')"
  using assms
proof (induction ms arbitrary: inst w)
  case (Cons m ms)
  obtain q p where I: "plt_install (plt_sys env) (m_name m) (m_base m) (m_imports m) rs (w_proc w) = (q, p)" by fastforce
  show ?case
  proof (cases q)
    case (Inl e)
    then have "inst' = inst" "w_proc w' = p" using Cons.prems(1) I by auto
    then show ?thesis using tended_more [OF Cons.prems(2)] tended_error [OF I [unfolded Inl]] Cons.prems(3) by simp
  next
    case (Inr g)
    let ?i = "inst\<lparr>in_hooked_bases := insert_base (m_base m) (in_hooked_bases inst), in_guards := in_guards inst @ [g]\<rparr>"
    let ?w = "w\<lparr>w_proc := p, w_disp := refresh_originals env g (w_disp w)\<rparr>"
    have "tended env m0 ?i (w_proc ?w)"
      using tended_step [OF I [unfolded Inr] _ Cons.prems(2), of ?i] Cons.prems(3,5) by (simp add: insert_base_def)
    moreover have "install_modules env rs ms ?i ?w = (r, inst', w')" using Cons.prems(1) I Inr by simp
    ultimately show ?thesis using Cons.IH [of ?i ?w] Cons.prems(3,4,5) by (auto simp: insert_base_def)
  qed
qed simp

lemma rescan_modules_tended:
  assumes "rescan_modules env rs ms count inst w = (count', inst', w')" "tended env m0 inst (w_proc w)"
    and "\<forall>m \<in> set ms. loadable env m"
  shows "tended env m0 inst' (w_proc w')"
  using assms
proof (induction ms arbitrary: count inst w)
  case (Cons m ms)
  let ?i = "inst\<lparr>in_hooked_bases := m_base m # in_hooked_bases inst\<rparr>"
  obtain q p where I: "plt_install (plt_sys env) (m_name m) (m_base m) (m_imports m) rs (w_proc w) = (q, p)" by fastforce
  show ?case
  proof (cases "\<not> should_rescan_hook env inst m \<or> m_base m \<in> set (in_hooked_bases inst)")
    case True
    then show ?thesis using Cons by simp
  next
    case new: False
    show ?thesis
    proof (cases q)
      case (Inl e)
      have "tended env m0 ?i p"
        using tended_more [OF Cons.prems(2), of ?i p] tended_error [OF I [unfolded Inl]] Cons.prems(3) by auto
      then show ?thesis using Cons.IH [of count ?i "w\<lparr>w_proc := p\<rparr>"] Cons.prems(1,3) new I Inl by simp
    next
      case (Inr g)
      have "tended env m0 (?i\<lparr>in_guards := in_guards ?i @ [g]\<rparr>) p"
        using tended_step [OF I [unfolded Inr] _ Cons.prems(2)] new Cons.prems(3) by simp
      then show ?thesis
        using Cons.IH [of "Suc count" "?i\<lparr>in_guards := in_guards ?i @ [g]\<rparr>"
            "w\<lparr>w_proc := p, w_disp := refresh_originals env g (w_disp w)\<rparr>"] Cons.prems(1,3) new I Inr by simp
    qed
  qed
qed simp

lemma tended_uninstall: "tended env m0 inst p \<Longrightarrow> mem (snd (uninstall_all env inst p)) = m0"
proof -
  assume t: "tended env m0 inst p"
  have "cooperative (plt_sys env) (hg_module_base g) (set (guard_slots g))" if "g \<in> set (in_guards inst)" for g
    using t that cooperative_mono [OF stays] unfolding tended_def by metis
  with t show ?thesis by (simp add: tended_def uninstall_all_def uninstall_all_laid)
qed

lemma resolved:
  assumes "resolve_modules env sc st = Inr ms"
  shows "\<forall>m \<in> set ms. loadable env m" "distinct (map m_base ms)"
proof -
  have e: "\<forall>m \<in> set (filter P xs). loadable env m" "distinct (map m_base (filter P xs))" if "plt_enumerate env st = Inr xs" for P xs
    using that bases [OF that] by (auto simp: loadable_def intro: distinct_map_filter)
  show "\<forall>m \<in> set ms. loadable env m" "distinct (map m_base ms)"
    using assms e(1) [of _ "\<lambda>_. True"] e(2) [of _ "\<lambda>_. True"] e
    by (auto simp: resolve_modules_def loadable_def split: scope.splits sum.splits)
qed

end

section \<open>Rescanning again\<close>

lemma rescan_modules_bases:
  assumes "rescan_modules env rs ms count inst w = (count', inst', w')"
  shows "in_scope inst' = in_scope inst \<and> in_sdk_dir inst' = in_sdk_dir inst \<and> in_auto_rescan inst' = in_auto_rescan inst
    \<and> w_installers w' = w_installers w \<and> set (in_hooked_bases inst) \<subseteq> set (in_hooked_bases inst')
    \<and> (\<forall>m \<in> set ms. should_rescan_hook env inst m \<longrightarrow> m_base m \<in> set (in_hooked_bases inst'))"
  using assms
proof (induction ms arbitrary: count inst w)
  case (Cons m ms)
  have scope_only: "should_rescan_hook env i1 = should_rescan_hook env i2"
    if "in_scope i1 = in_scope i2" "in_sdk_dir i1 = in_sdk_dir i2" for i1 i2
    using that by (auto simp: should_rescan_hook_def fun_eq_iff split: scope.splits)
  let ?i1 = "inst\<lparr>in_hooked_bases := m_base m # in_hooked_bases inst\<rparr>"
  show ?case
  proof (cases "\<not> should_rescan_hook env inst m \<or> m_base m \<in> set (in_hooked_bases inst)")
    case True
    then have "rescan_modules env rs ms count inst w = (count', inst', w')" using Cons.prems by simp
    with Cons.IH True show ?thesis by fastforce
  next
    case False
    obtain q p where I: "plt_install (plt_sys env) (m_name m) (m_base m) (m_imports m) rs (w_proc w) = (q, p)" by fastforce
    obtain c i w1 where r: "rescan_modules env rs ms c i w1 = (count', inst', w')"
      "i = ?i1 \<or> (\<exists>g. i = ?i1\<lparr>in_guards := in_guards ?i1 @ [g]\<rparr>)" "w_installers w1 = w_installers w"
    proof (cases q)
      case (Inl e)
      then show ?thesis using that [of count ?i1 "w\<lparr>w_proc := p\<rparr>"] Cons.prems False I by simp
    next
      case (Inr g)
      then show ?thesis
        using that [of "Suc count" "?i1\<lparr>in_guards := in_guards ?i1 @ [g]\<rparr>"
            "w\<lparr>w_proc := p, w_disp := refresh_originals env g (w_disp w)\<rparr>"] Cons.prems False I by auto
    qed
    have "should_rescan_hook env i = should_rescan_hook env inst" using r(2) by (intro scope_only) auto
    with Cons.IH [OF r(1)] r(2,3) show ?thesis by auto
  qed
qed simp

lemma rescan_modules_again:
  "(\<forall>m \<in> set ms. should_rescan_hook env inst m \<longrightarrow> m_base m \<in> set (in_hooked_bases inst)) \<Longrightarrow>
     rescan_modules env rs ms count inst w = (count, inst, w)"
  by (induction ms) auto

section \<open>A demonstration process\<close>

text \<open>Cells inside one page need that page only.\<close>

lemma slot_pages_one:
  assumes "p mod ps = 0" "0 < ps" "p + ps \<le> U64_MAX" "\<forall>a \<in> set slots. p \<le> a \<and> a + PTR_SIZE \<le> p + ps"
  shows "slot_pages ps slots = [] \<or> slot_pages ps slots = [p]"
proof -
  have pg: "page_of ps x = p" if x: "p \<le> x" "x < p + ps" for x
  proof -
    have "x mod ps = (x - p + p) mod ps" using x(1) by simp
    also have "\<dots> = (x - p) mod ps" using assms(1) by (metis mod_add_right_eq add.right_neutral)
    also have "\<dots> = x - p" using x by (simp add: less_diff_conv2)
    finally show ?thesis using x(1) by (simp add: page_of_def)
  qed
  have "span_pages ps (page_of ps a) (page_of ps (sat_add a (PTR_SIZE - 1))) = [p]" if "a \<in> set slots" for a
  proof -
    have a: "p \<le> a" "a + PTR_SIZE \<le> p + ps" using that assms(4) by auto
    moreover from this have "sat_add a (PTR_SIZE - 1) = a + (PTR_SIZE - 1)"
      using assms(3) by (simp add: sat_add_def PTR_SIZE_def)
    ultimately show ?thesis using pg [of a] pg [of "a + (PTR_SIZE - 1)"] by (simp add: span_pages.simps PTR_SIZE_def)
  qed
  then have "fold (\<lambda>slot pages. fold push_new (span_pages ps (page_of ps slot)
      (page_of ps (sat_add slot (PTR_SIZE - 1)))) pages) slots pages \<in> {[], [p]}" if "pages \<in> {[], [p]}" for pages
    using that by (induction slots arbitrary: pages) (auto simp: push_new_def)
  then show ?thesis by (simp add: slot_pages_def)
qed

text \<open>One module that imports \<open>open\<close> and \<open>fopen\<close>, on a platform where every page can be made writable.\<close>

definition quiet_sys :: "unit sys_ops" where
  "quiet_sys = \<lparr>page_size = 4096, make_writable = (\<lambda>_ st. (Inr 1, st)), restore_protection = (\<lambda>_ _ st. (Inr (), st)),
     module_still_loaded = (\<lambda>_ _. True), slot_belongs_to_module = (\<lambda>_ _ _. True),
     resolve_original = (\<lambda>_ _ _ prior st. (Some prior, st))\<rparr>"

definition sdk_import :: "string \<Rightarrow> nat \<Rightarrow> import_slot" where
  "sdk_import name address = \<lparr>is_module_base = 4096, is_library = ''libc.so.6'', is_symbol = Some (SymName name),
     is_version = None, is_address = address, is_kind = Standard, is_authenticated = False\<rparr>"

definition sdk_module :: plt_module where
  "sdk_module = \<lparr>m_base = 4096, m_name = ''libsdk.so'', m_path = ''/opt/sdk/libsdk.so'',
     m_imports = Inr [sdk_import ''open'' 4104, sdk_import ''fopen'' 4112]\<rparr>"

abbreviation linux_replacements :: "(sym \<Rightarrow> nat) \<Rightarrow> bool \<Rightarrow> replacement list" where
  "linux_replacements \<equiv> unix_replacements sym_name linux_loader_sym sym_ALL"

definition sdk_env :: "(sym, unit) plt" where
  "sdk_env = \<lparr>plt_sys = quiet_sys, plt_enumerate = (\<lambda>_. Inr [sdk_module]),
     plt_from_address = (\<lambda>_ _. Inr sdk_module), plt_original = (\<lambda>_ _. 0), plt_name = sym_name, plt_ALL = sym_ALL,
     plt_index = sym_index, plt_replacements = linux_replacements, plt_dir_key = unix_dir_key\<rparr>"

definition sdk_world :: "((nat, unit) engine, unit) world" where
  "sdk_world = \<lparr>w_disp = dispatch_init 0, w_proc = \<lparr>mem = \<lambda>_. 7, os = ()\<rparr>, w_installers = []\<rparr>"

lemma quiet_protect: "protect_pages quiet_sys pages dn st = (Inr (dn @ map (\<lambda>q. (q, 1)) pages), st)"
  by (induction pages arbitrary: dn) (auto simp: quiet_sys_def)

lemma quiet_restore: "restore_pages quiet_sys pages e st = (e, st)"
  by (induction pages) (auto simp: quiet_sys_def)

lemma unit_os [simp]: "(p :: unit process)\<lparr>os := ()\<rparr> = p"
  by (cases p) simp

lemma quiet_apply: "apply_patches quiet_sys patches p = (Inr (fst (swap_all patches p)), snd (swap_all patches p))"
  by (simp add: apply_patches_def Let_def protector_make_writable_def quiet_protect protector_restore_def quiet_restore
      result_of_def case_prod_beta)

lemma sdk_pending:
  "collect_hooks quiet_sys ''libsdk.so'' [sdk_import ''open'' 4104, sdk_import ''fopen'' 4112]
     (linux_replacements (\<lambda>_. 99) True) [] \<lparr>mem = \<lambda>_. 7, os = ()\<rparr> =
   (Inr [\<lparr>ph_library = ''libc.so.6'', ph_symbol = SymName ''fopen'', ph_slot = 4112, ph_original = 7, ph_replacement = 99\<rparr>,
        \<lparr>ph_library = ''libc.so.6'', ph_symbol = SymName ''open'', ph_slot = 4104, ph_original = 7, ph_replacement = 99\<rparr>],
    \<lparr>mem = \<lambda>_. 7, os = ()\<rparr>)"
  by (simp add: unix_replacements_def linux_loader_sym_def sym_ALL_def optional_def by_symbol_def match_replacement_def library_matches_def
      sdk_import_def quiet_sys_def slot_load_def)

definition sdk_install where
  "sdk_install = install_with_namespace sdk_env (\<lambda>_. 99) 5 (from_root ''/v'') (Module 4096) True True sdk_world"

lemma sdk_resolve: "resolve_modules sdk_env (Module 4096) st = Inr [sdk_module]"
  by (simp add: resolve_modules_def sdk_env_def)

lemma sdk_cooperative:
  "cooperative (plt_sys sdk_env) (m_base sdk_module) (import_cells sdk_module)"
  by (auto simp: cooperative_def sdk_env_def protector_make_writable_def quiet_protect) (auto simp: quiet_sys_def)

lemma sdk_plt_install:
  "\<exists>g. plt_install quiet_sys ''libsdk.so'' 4096 (m_imports sdk_module) (linux_replacements (\<lambda>_. 99) True)
      \<lparr>mem = \<lambda>_. 7, os = ()\<rparr> = (Inr g, \<lparr>mem = (\<lambda>_. 7)(4112 := 99, 4104 := 99), os = ()\<rparr>)"
  by (simp add: plt_install_def sdk_module_def sdk_pending quiet_apply slot_swap_def)

lemma sdk_install_result:
  "fst sdk_install = Inr 1" "mem (w_proc (snd sdk_install)) 4104 = 99" "mem (w_proc (snd sdk_install)) 4120 = 7"
proof -
  obtain g where g: "plt_install quiet_sys ''libsdk.so'' 4096 (m_imports sdk_module) (linux_replacements (\<lambda>_. 99) True)
      \<lparr>mem = \<lambda>_. 7, os = ()\<rparr> = (Inr g, \<lparr>mem = (\<lambda>_. 7)(4112 := 99, 4104 := 99), os = ()\<rparr>)"
    using sdk_plt_install by blast
  obtain d where d: "try_activate e (w_disp sdk_world) = (Some 1, d e)" for e
    by (auto simp: sdk_world_def dispatch_init_def try_activate_def Let_def)
  have m: "m_name sdk_module = ''libsdk.so''" "m_base sdk_module = 4096" "plt_sys sdk_env = quiet_sys" "plt_replacements sdk_env = linux_replacements"
    "w_proc sdk_world = \<lparr>mem = \<lambda>_. 7, os = ()\<rparr>" by (simp_all add: sdk_module_def sdk_env_def sdk_world_def)
  show "fst sdk_install = Inr 1" "mem (w_proc (snd sdk_install)) 4104 = 99" "mem (w_proc (snd sdk_install)) 4120 = 7"
    using g by (simp_all add: sdk_install_def install_with_namespace_def sdk_resolve d m Let_def)
qed

section \<open>Properties\<close>

text \<open>C36. Installing is exclusive and either publishes or leaves no trace in the routing slot: while an
  engine is active the call fails and the world is unchanged; otherwise success makes exactly the
  new engine current under a fresh token, and every failure leaves the slot empty and no installer
  behind.\<close>

theorem install_owns_the_slot:
  assumes "install_with_namespace env shim vfs ns sc aw ar w = (r, w')"
  shows "(d_active (w_disp w) \<noteq> None \<longrightarrow> (\<exists>e. r = Inl e) \<and> w' = w)
    \<and> (d_active (w_disp w) = None \<longrightarrow>
        (case r of
           Inr token \<Rightarrow> token = d_next_id (w_disp w) \<and> current_engine (w_disp w') = Some (engine_new vfs ns aw)
         | Inl e \<Rightarrow> current_engine (w_disp w') = None \<and> w_installers w' = w_installers w))"
  using assms by (rule install_cases) (auto simp: current_engine_def)

theorem install_owns_the_slot_witness:
  "fst sdk_install = Inr 1 \<and> current_engine (w_disp (snd sdk_install)) = Some (engine_new 5 (from_root ''/v'') True)"
proof -
  have "d_active (w_disp sdk_world) = None" by (simp add: sdk_world_def dispatch_init_def)
  moreover have "install_with_namespace sdk_env (\<lambda>_. 99) 5 (from_root ''/v'') (Module 4096) True True sdk_world =
      (Inr 1, snd sdk_install)" using sdk_install_result(1) unfolding sdk_install_def by (metis prod.collapse)
  ultimately show ?thesis using install_owns_the_slot sdk_install_result(1) by fastforce
qed

text \<open>The life of an installation: rescans, in any number, between which the operating system and the routing
  state change as they like, as long as the slot keeps its owner.\<close>

inductive session :: "('y, 'o) plt \<Rightarrow> ('y \<Rightarrow> nat) \<Rightarrow> nat \<Rightarrow> ('e, 'o) world \<Rightarrow> ('e, 'o) world \<Rightarrow> bool"
  for env shim token w where
  start: "session env shim token w w"
| scan: "session env shim token w w1 \<Longrightarrow> rescan env shim token w1 = (r, w2) \<Longrightarrow> session env shim token w w2"
| run: "session env shim token w w1 \<Longrightarrow> map_option snd (d_active d) = map_option snd (d_active (w_disp w1)) \<Longrightarrow>
    session env shim token w (w1\<lparr>w_disp := d, w_proc := (w_proc w1)\<lparr>os := st\<rparr>\<rparr>)"

lemma rescan_modules_active: "rescan_modules env rs ms count inst w = (count', inst', w') \<Longrightarrow> d_active (w_disp w') = d_active (w_disp w)"
  by (induction ms arbitrary: count inst w) (fastforce simp: Let_def split: if_splits prod.splits sum.splits)+

lemma rescan_active: "rescan env shim i w = (r, w') \<Longrightarrow> d_active (w_disp w') = d_active (w_disp w)"
  by (auto simp: rescan_def split: option.splits sum.splits prod.splits dest: rescan_modules_active)

context loader_layout
begin

lemma rescan_tended:
  assumes "rescan env shim i w = (r, w')" "map_of (w_installers w) i = Some inst" "tended env m0 inst (w_proc w)"
  shows "\<exists>inst'. map_of (w_installers w') i = Some inst' \<and> tended env m0 inst' (w_proc w')"
proof (cases "plt_enumerate env (os (w_proc w))")
  case (Inl e)
  then show ?thesis using assms by (auto simp: rescan_def)
next
  case (Inr ms)
  obtain c inst' w1 where R: "rescan_modules env (plt_replacements env shim (in_auto_rescan inst)) ms 0 inst w = (c, inst', w1)"
    by (metis prod_cases3)
  have "\<forall>m \<in> set ms. loadable env m" using Inr by (auto simp: loadable_def)
  from rescan_modules_tended [OF R assms(3) this] show ?thesis
    using assms(1,2) Inr R by (auto simp: rescan_def update_conv)
qed

lemma session_tended:
  "session env shim token w w' \<Longrightarrow> map_of (w_installers w) token = Some inst \<Longrightarrow> tended env m0 inst (w_proc w) \<Longrightarrow>
     (\<exists>inst'. map_of (w_installers w') token = Some inst' \<and> tended env m0 inst' (w_proc w')) \<and>
     map_option snd (d_active (w_disp w')) = map_option snd (d_active (w_disp w))"
proof (induction rule: session.induct)
  case (scan w1 r w2)
  then obtain inst1 where i: "map_of (w_installers w1) token = Some inst1" "tended env m0 inst1 (w_proc w1)" by blast
  from rescan_tended [OF scan.hyps(2) i] rescan_active [OF scan.hyps(2)] scan show ?case by simp
next
  case (run w1 d st)
  then show ?case using tended_more by fastforce
qed auto

lemma install_undone:
  assumes "install_with_namespace env shim vfs ns sc aw ar w = (r, w')" "d_active (w_disp w) = None"
  shows "case r of
      Inl _ \<Rightarrow> mem (w_proc w') = mem (w_proc w)
    | Inr token \<Rightarrow> \<forall>w''. session env shim token w' w'' \<longrightarrow>
        mem (w_proc (install_guard_drop env token w'')) = mem (w_proc w)
        \<and> current_engine (w_disp (install_guard_drop env token w'')) = None"
  using assms(1)
proof (rule install_cases)
  fix ms inst d e inst1 w1
  assume f: "resolve_modules env sc (os (w_proc w)) = Inr ms" "r = Inl (Engine e)" "in_guards inst = []" "in_hooked_bases inst = []"
    "install_modules env (plt_replacements env shim ar) ms inst (w\<lparr>w_disp := d\<rparr>) = (Inl e, inst1, w1)"
    "mem (w_proc w') = mem (snd (uninstall_all env inst1 (w_proc w1)))"
  from install_modules_tended [OF f(5) _ resolved [OF f(1)]] tended_start [OF f(3)]
  have "tended env (mem (w_proc w)) inst1 (w_proc w1)" by (simp add: f(4))
  with tended_uninstall f(2,6) show ?thesis by simp
next
  fix ms inst d inst1 w1
  assume f: "resolve_modules env sc (os (w_proc w)) = Inr ms" "r = Inr (d_next_id (w_disp w))" "in_guards inst = []"
    "in_hooked_bases inst = []"
    "install_modules env (plt_replacements env shim ar) ms inst (w\<lparr>w_disp := d\<rparr>) = (Inr (), inst1, w1)"
    "w_proc w' = w_proc w1" "d_active (w_disp w') = Some (engine_new vfs ns aw, d_next_id (w_disp w))"
    "map_of (w_installers w') (d_next_id (w_disp w)) = Some inst1"
  from install_modules_tended [OF f(5) _ resolved [OF f(1)]] tended_start [OF f(3)]
  have "tended env (mem (w_proc w)) inst1 (w_proc w')" by (simp add: f(4,6))
  note S = session_tended [OF _ f(8) this]
  let ?i = "d_next_id (w_disp w)"
  have "mem (w_proc (install_guard_drop env ?i w'')) = mem (w_proc w) \<and>
      current_engine (w_disp (install_guard_drop env ?i w'')) = None" if "session env shim ?i w' w''" for w''
  proof -
    from S [OF that] obtain inst' where "map_of (w_installers w'') ?i = Some inst'" "tended env (mem (w_proc w)) inst' (w_proc w'')"
      by blast
    moreover have "map_option snd (d_active (w_disp w'')) = Some ?i" using S [OF that] f(7) by simp
    ultimately show ?thesis
      using tended_uninstall [of "mem (w_proc w)" inst' "w_proc w''"]
      by (auto simp: install_guard_drop_def Let_def clear_rescan_def current_engine_def deactivate_def split: prod.splits option.splits)
  qed
  then show ?thesis by (simp add: f(2))
qed (use assms(2) in auto)

end

text \<open>A rescan catches up completely: as long as the set of loaded modules stays the same, a second
  rescan finds nothing left to hook and changes nothing.\<close>

theorem rescan_is_idempotent:
  assumes "rescan env shim i w = (Inr n, w')"
    and "plt_enumerate env (os (w_proc w')) = plt_enumerate env (os (w_proc w))"
  shows "rescan env shim i w' = (Inr 0, w')"
proof (cases "map_of (w_installers w) i")
  case None
  with assms show ?thesis by (auto simp: rescan_def)
next
  case (Some inst)
  then obtain ms where ms: "plt_enumerate env (os (w_proc w)) = Inr ms"
    using assms(1) by (cases "plt_enumerate env (os (w_proc w))") (auto simp: rescan_def)
  obtain c inst' w1 where r: "rescan_modules env (plt_replacements env shim (in_auto_rescan inst)) ms 0 inst w = (c, inst', w1)"
    by (metis prod_cases3)
  have w': "w' = w1\<lparr>w_installers := AList.update i inst' (w_installers w1)\<rparr>" using assms(1) Some ms r by (simp add: rescan_def)
  note B = rescan_modules_bases [OF r]
  have "should_rescan_hook env inst' = should_rescan_hook env inst"
    using B by (auto simp: should_rescan_hook_def fun_eq_iff split: scope.splits)
  then have "rescan_modules env (plt_replacements env shim (in_auto_rescan inst')) ms 0 inst' w' = (0, inst', w')"
    using B by (intro rescan_modules_again) simp
  moreover have m: "map_of (w_installers w') i = Some inst'" by (simp add: w' update_conv)
  ultimately show ?thesis using assms(2) ms alist_update_same [OF m] by (simp add: rescan_def)
qed

text \<open>A module whose imports cannot be parsed is still marked as hooked.\<close>

definition broken_module :: plt_module where
  "broken_module = \<lparr>m_base = 8192, m_name = ''libbad.so'', m_path = ''/opt/libbad.so'', m_imports = Inl (Malformed ''x'')\<rparr>"

definition broken_env :: "(sym, unit) plt" where
  "broken_env = sdk_env\<lparr>plt_enumerate := (\<lambda>_. Inr [broken_module])\<rparr>"

definition scanned_world :: "((nat, unit) engine, unit) world" where
  "scanned_world = sdk_world\<lparr>w_installers := [(1, \<lparr>in_scope = AllModules, in_sdk_dir = None, in_auto_rescan = True,
     in_install_id = 1, in_guards = [], in_hooked_bases = []\<rparr>)]\<rparr>"

theorem rescan_is_idempotent_witness:
  "rescan broken_env (\<lambda>_. 99) 1 (snd (rescan broken_env (\<lambda>_. 99) 1 scanned_world))
     = (Inr 0, snd (rescan broken_env (\<lambda>_. 99) 1 scanned_world))"
proof -
  have "rescan broken_env (\<lambda>_. 99) 1 scanned_world = (Inr 0, snd (rescan broken_env (\<lambda>_. 99) 1 scanned_world))"
    by (simp add: rescan_def scanned_world_def broken_env_def broken_module_def should_rescan_hook_def plt_install_def)
  from rescan_is_idempotent [OF this] show ?thesis by (simp add: broken_env_def)
qed

text \<open>A rescan marks a module before it installs into it and keeps the mark when the install fails:
  such a module is counted as hooked although none of its imports is, and is never tried again.\<close>

theorem rescan_counts_failed_modules:
  assumes "map_of (w_installers w) i = Some inst" "plt_enumerate env (os (w_proc w)) = Inr [m]"
    and "should_rescan_hook env inst m" "m_base m \<notin> set (in_hooked_bases inst)" "m_imports m = Inl e"
  shows "\<exists>inst' w'. rescan env shim i w = (Inr 0, w') \<and> map_of (w_installers w') i = Some inst'
    \<and> in_guards inst' = in_guards inst \<and> hooked_module_count inst' = Suc (hooked_module_count inst)"
  using assms by (simp add: rescan_def plt_install_def hooked_module_count_def update_conv)

theorem rescan_counts_failed_modules_witness:
  "fst (rescan broken_env (\<lambda>_. 99) 1 scanned_world) = Inr 0
   \<and> map_option hooked_module_count (map_of (w_installers (snd (rescan broken_env (\<lambda>_. 99) 1 scanned_world))) 1) = Some 1"
proof -
  let ?inst = "\<lparr>in_scope = AllModules, in_sdk_dir = None, in_auto_rescan = True,
     in_install_id = 1, in_guards = [], in_hooked_bases = []\<rparr>"
  have "map_of (w_installers scanned_world) 1 = Some ?inst"
    "plt_enumerate broken_env (os (w_proc scanned_world)) = Inr [broken_module]" "should_rescan_hook broken_env ?inst broken_module"
    "m_imports broken_module = Inl (Malformed ''x'')"
    by (simp_all add: scanned_world_def broken_env_def should_rescan_hook_def broken_module_def)
  from rescan_counts_failed_modules [OF this(1,2,3) _ this(4), of "\<lambda>_. 99"] show ?thesis
    by (auto simp: hooked_module_count_def)
qed

end
