(* ===== verification/Elf_Parser.thy ===== *)
theory Elf_Parser
  imports Hookfs_Error Namespace
begin

unbundle bit_operations_syntax

text \<open>
  \<^verbatim>\<open>crates/plthook/src/elf.rs\<close> and the ELF part of \<^verbatim>\<open>crates/plthook/src/arch/mod.rs\<close>: decoding the
  dynamic-linking metadata of an ELF64 image into import slots.  The parser sees the image only
  through a view, the record \<open>elf_view\<close> (the trait \<open>ElfView\<close>).  Header fields, cursors and counts are
  words of the width they have in the file, and sums of cursors wrap as they do in a release build.
  A read takes the length of the buffer and yields the bytes it fills it with, or the error.
\<close>

section \<open>Results\<close>

type_synonym 'a plt_result = "plt_error + 'a"

definition and_then :: "'a plt_result \<Rightarrow> ('a \<Rightarrow> 'b plt_result) \<Rightarrow> 'b plt_result" where
  "and_then r f = (case r of Inl e \<Rightarrow> Inl e | Inr x \<Rightarrow> f x)"

definition ok_or :: "plt_error \<Rightarrow> 'a option \<Rightarrow> 'a plt_result" where
  "ok_or e x = (case x of None \<Rightarrow> Inl e | Some y \<Rightarrow> Inr y)"

definition guard_or :: "plt_error \<Rightarrow> bool \<Rightarrow> unit plt_result" where
  "guard_or e b = (if b then Inr () else Inl e)"

fun try_fold :: "('x \<Rightarrow> 's \<Rightarrow> 's plt_result) \<Rightarrow> 'x list \<Rightarrow> 's \<Rightarrow> 's plt_result" where
  "try_fold f [] s = Inr s"
| "try_fold f (x # xs) s = and_then (f x s) (try_fold f xs)"

lemma and_then_simps [simp]: "and_then (Inl e) f = Inl e" "and_then (Inr x) f = f x"
  by (simp_all add: and_then_def)

lemma and_then_Inr [simp]: "and_then r f = Inr y \<longleftrightarrow> (\<exists>x. r = Inr x \<and> f x = Inr y)"
  by (cases r) auto

lemma ok_or_simps [simp]: "ok_or e None = Inl e" "ok_or e (Some x) = Inr x"
  "ok_or e y = Inr x \<longleftrightarrow> y = Some x"
  by (auto simp: ok_or_def split: option.splits)

lemma guard_or_simps [simp]: "guard_or e True = Inr ()" "guard_or e False = Inl e"
  "guard_or e b = Inr u \<longleftrightarrow> b"
  by (simp_all add: guard_or_def)

lemma try_fold_snoc: "try_fold f (xs @ [x]) s = and_then (try_fold f xs s) (f x)"
  by (induction xs arbitrary: s) (auto simp: and_then_def split: sum.splits)

lemma try_fold_invariant:
  assumes "\<And>x s s'. x \<in> set xs \<Longrightarrow> I s \<Longrightarrow> f x s = Inr s' \<Longrightarrow> I s'"
    and "try_fold f xs s = Inr s'" and "I s"
  shows "I s'"
  using assms
proof (induction xs arbitrary: s)
  case (Cons x xs)
  from Cons.prems(2) obtain s1 where s1: "f x s = Inr s1" "try_fold f xs s1 = Inr s'" by auto
  have "I s1" using Cons.prems(1) [of x s s1] Cons.prems(3) s1(1) by simp
  with Cons.IH [of s1] Cons.prems(1) s1(2) show ?case by auto
qed simp

lemma try_fold_cong [fundef_cong]:
  assumes "xs = ys" "s = t" "\<And>x s. x \<in> set ys \<Longrightarrow> f x s = g x s"
  shows "try_fold f xs s = try_fold g ys t"
  using assms(3) unfolding assms(1,2)
proof (induction ys arbitrary: t)
  case (Cons y ys)
  then have "\<And>s. f y s = g y s" "\<And>s. try_fold f ys s = try_fold g ys s" by simp_all
  then show ?case by (simp add: and_then_def split: sum.splits)
qed simp

section \<open>Relocation kinds\<close>

record reloc_kinds =
  jump_slot :: "32 word"
  glob_dat :: "32 word"

definition EM_X86_64 :: "16 word" where "EM_X86_64 = 62"
definition EM_AARCH64 :: "16 word" where "EM_AARCH64 = 183"

definition elf_reloc_kinds :: "16 word \<Rightarrow> reloc_kinds option" where
  "elf_reloc_kinds e_machine =
     (if e_machine = EM_X86_64 then Some \<lparr>jump_slot = 7, glob_dat = 6\<rparr>
      else if e_machine = EM_AARCH64 then Some \<lparr>jump_slot = 1026, glob_dat = 1025\<rparr>
      else None)"

section \<open>Constants\<close>

definition ELFCLASS64 :: byte where "ELFCLASS64 = 2"
definition ELFDATA2LSB :: byte where "ELFDATA2LSB = 1"
definition EI_CLASS :: nat where "EI_CLASS = 4"
definition EI_DATA :: nat where "EI_DATA = 5"
definition ET_EXEC :: "16 word" where "ET_EXEC = 2"
definition ET_DYN :: "16 word" where "ET_DYN = 3"
definition PT_LOAD :: "32 word" where "PT_LOAD = 1"
definition PT_DYNAMIC :: "32 word" where "PT_DYNAMIC = 2"
definition PHDR_SIZE :: nat where "PHDR_SIZE = 56"
definition DYN_SIZE :: "64 word" where "DYN_SIZE = 16"
definition SYM_SIZE :: "64 word" where "SYM_SIZE = 24"
definition RELA_SIZE :: "64 word" where "RELA_SIZE = 24"

definition DT_NULL :: int where "DT_NULL = 0"
definition DT_PLTRELSZ :: int where "DT_PLTRELSZ = 2"
definition DT_STRTAB :: int where "DT_STRTAB = 5"
definition DT_SYMTAB :: int where "DT_SYMTAB = 6"
definition DT_RELA :: int where "DT_RELA = 7"
definition DT_RELASZ :: int where "DT_RELASZ = 8"
definition DT_RELAENT :: int where "DT_RELAENT = 9"
definition DT_STRSZ :: int where "DT_STRSZ = 10"
definition DT_SYMENT :: int where "DT_SYMENT = 11"
definition DT_PLTREL :: int where "DT_PLTREL = 20"
definition DT_JMPREL :: int where "DT_JMPREL = 23"
definition DT_VERSYM :: int where "DT_VERSYM = 0x6ffffff0"
definition DT_VERNEED :: int where "DT_VERNEED = 0x6ffffffe"
definition DT_VERNEEDNUM :: int where "DT_VERNEEDNUM = 0x6fffffff"
definition DT_PLTREL_IS_RELA :: "64 word" where "DT_PLTREL_IS_RELA = 7"

definition VERSYM_VERSION_MASK :: "16 word" where "VERSYM_VERSION_MASK = 0x7fff"
definition VER_NDX_GLOBAL :: "16 word" where "VER_NDX_GLOBAL = 1"

definition MAX_DYN :: nat where "MAX_DYN = 4096"
definition MAX_RELOCS :: "64 word" where "MAX_RELOCS = 0x1000000"
definition MAX_VERNEED :: nat where "MAX_VERNEED = 4096"
definition MAX_VERNAUX :: nat where "MAX_VERNAUX = 4096"
definition MAX_NAME_LEN :: nat where "MAX_NAME_LEN = 8192"

lemmas dt_defs = DT_NULL_def DT_PLTRELSZ_def DT_STRTAB_def DT_SYMTAB_def DT_RELA_def DT_RELASZ_def
  DT_RELAENT_def DT_STRSZ_def DT_SYMENT_def DT_PLTREL_def DT_JMPREL_def DT_VERSYM_def DT_VERNEED_def
  DT_VERNEEDNUM_def

section \<open>Views\<close>

record segment =
  sg_vaddr :: "64 word"
  sg_memsz :: "64 word"
  sg_offset :: "64 word"
  sg_filesz :: "64 word"

record elf_view =
  ev_machine :: "16 word"
  ev_dynamic_cursor :: "64 word"
  ev_dynptr_cursor :: "64 word \<Rightarrow> 64 word plt_result"
  ev_vaddr_cursor :: "64 word \<Rightarrow> 64 word plt_result"
  ev_read :: "64 word \<Rightarrow> 64 word \<Rightarrow> byte list plt_result"
  ev_slot_address :: "64 word \<Rightarrow> 64 word plt_result"

text \<open>\<open>from_le_bytes\<close>, at any width.\<close>

fun le_nat :: "byte list \<Rightarrow> nat" where
  "le_nat [] = 0"
| "le_nat (b # bs) = unat b + 256 * le_nat bs"

definition from_le_bytes :: "byte list \<Rightarrow> 'a::len word" where
  "from_le_bytes bs = of_nat (le_nat bs)"

definition read_u16 :: "elf_view \<Rightarrow> 64 word \<Rightarrow> 16 word plt_result" where
  "read_u16 view cursor = and_then (ev_read view cursor 2) (\<lambda>b. Inr (from_le_bytes b))"

definition read_u32 :: "elf_view \<Rightarrow> 64 word \<Rightarrow> 32 word plt_result" where
  "read_u32 view cursor = and_then (ev_read view cursor 4) (\<lambda>b. Inr (from_le_bytes b))"

definition read_u64 :: "elf_view \<Rightarrow> 64 word \<Rightarrow> 64 word plt_result" where
  "read_u64 view cursor = and_then (ev_read view cursor 8) (\<lambda>b. Inr (from_le_bytes b))"

definition read_i64 :: "elf_view \<Rightarrow> 64 word \<Rightarrow> int plt_result" where
  "read_i64 view cursor = and_then (ev_read view cursor 8) (\<lambda>b. Inr (sint (from_le_bytes b :: 64 word)))"

text \<open>The loop of \<open>read_str\<close>: at most \<open>n\<close> more bytes, from \<open>cursor\<close> on.\<close>

fun read_str_loop :: "elf_view \<Rightarrow> nat \<Rightarrow> 64 word \<Rightarrow> string \<Rightarrow> string plt_result" where
  "read_str_loop view 0 cursor bytes = Inl (Malformed ''unterminated string-table entry'')"
| "read_str_loop view (Suc n) cursor bytes =
     and_then (ev_read view cursor 1) (\<lambda>b.
       if hd b = 0 then Inr (from_utf8_lossy bytes)
       else read_str_loop view n (cursor + 1) (bytes @ [char_of (unat (hd b))]))"

definition read_str :: "elf_view \<Rightarrow> 64 word \<Rightarrow> 64 word \<Rightarrow> 32 word \<Rightarrow> string plt_result" where
  "read_str view strtab strsz off32 =
     (let off = ucast off32 :: 64 word in
      if strsz \<le> off then Inl (Malformed ''string-table offset past DT_STRSZ'')
      else read_str_loop view (min (unat (strsz - off)) (MAX_NAME_LEN + 1)) (strtab + off) [])"

section \<open>Headers\<close>

text \<open>\<open>bytes.get(off..off + n)\<close>.\<close>

definition get_range :: "nat \<Rightarrow> nat \<Rightarrow> 'a list \<Rightarrow> 'a list option" where
  "get_range off n bytes = (if off + n \<le> length bytes then Some (take n (drop off bytes)) else None)"

definition slice_le16 :: "byte list \<Rightarrow> nat \<Rightarrow> 16 word plt_result" where
  "slice_le16 bytes off =
     and_then (ok_or (Malformed ''read past slice bounds'') (get_range off 2 bytes)) (\<lambda>b. Inr (from_le_bytes b))"

definition slice_le32 :: "byte list \<Rightarrow> nat \<Rightarrow> 32 word plt_result" where
  "slice_le32 bytes off =
     and_then (ok_or (Malformed ''read past slice bounds'') (get_range off 4 bytes)) (\<lambda>b. Inr (from_le_bytes b))"

definition slice_le64 :: "byte list \<Rightarrow> nat \<Rightarrow> 64 word plt_result" where
  "slice_le64 bytes off =
     and_then (ok_or (Malformed ''read past slice bounds'') (get_range off 8 bytes)) (\<lambda>b. Inr (from_le_bytes b))"

definition validate_ehdr :: "byte list \<Rightarrow> 16 word plt_result" where
  "validate_ehdr ehdr =
     and_then (ok_or (Malformed ''truncated ELF header'') (get_range 0 20 ehdr)) (\<lambda>head.
     if take 4 head \<noteq> [0x7f, 0x45, 0x4c, 0x46] then Inl (Malformed ''missing ELF magic'')
     else if head ! EI_CLASS \<noteq> ELFCLASS64 then Inl (UnsupportedImage ''not an ELF64 image'')
     else if head ! EI_DATA \<noteq> ELFDATA2LSB then Inl (UnsupportedImage ''not a little-endian ELF image'')
     else
       and_then (slice_le16 ehdr 16) (\<lambda>e_type.
       and_then (slice_le16 ehdr 18) (\<lambda>e_machine.
       if e_type \<noteq> ET_EXEC \<and> e_type \<noteq> ET_DYN
       then Inl (Malformed ''ELF e_type is neither ET_EXEC nor ET_DYN'')
       else if elf_reloc_kinds e_machine = None
       then Inl (UnsupportedImage ''ELF machine is not EM_X86_64 or EM_AARCH64'')
       else Inr e_machine)))"

record program_headers =
  ph_loads :: "segment list"
  ph_dynamic_vaddr :: "64 word option"
  ph_ehdr_vaddr :: "64 word"

definition parse_phdr :: "byte list \<Rightarrow> nat \<Rightarrow> program_headers \<Rightarrow> program_headers plt_result" where
  "parse_phdr phdrs i ph =
     and_then (guard_or (Malformed ''phdr offset overflow'') (i * PHDR_SIZE \<le> U64_MAX)) (\<lambda>_.
     and_then (ok_or (Malformed ''program-header table truncated'') (get_range (i * PHDR_SIZE) PHDR_SIZE phdrs)) (\<lambda>entry.
     and_then (slice_le32 entry 0) (\<lambda>p_type.
     and_then (slice_le64 entry 8) (\<lambda>p_offset.
     and_then (slice_le64 entry 16) (\<lambda>p_vaddr.
     and_then (slice_le64 entry 32) (\<lambda>p_filesz.
     and_then (slice_le64 entry 40) (\<lambda>p_memsz.
       Inr (if p_type = PT_LOAD then
              ph\<lparr>ph_loads := ph_loads ph @
                   [\<lparr>sg_vaddr = p_vaddr, sg_memsz = p_memsz, sg_offset = p_offset, sg_filesz = p_filesz\<rparr>],
                 ph_ehdr_vaddr := (if p_offset = 0 then p_vaddr else ph_ehdr_vaddr ph)\<rparr>
            else if p_type = PT_DYNAMIC then ph\<lparr>ph_dynamic_vaddr := Some p_vaddr\<rparr>
            else ph))))))))"

definition parse_program_headers :: "byte list \<Rightarrow> nat \<Rightarrow> program_headers plt_result" where
  "parse_program_headers phdrs phnum =
     and_then (try_fold (parse_phdr phdrs) [0 ..< phnum]
        \<lparr>ph_loads = [], ph_dynamic_vaddr = None, ph_ehdr_vaddr = 0\<rparr>) (\<lambda>ph.
     if ph_loads ph = [] then Inl (Malformed ''no PT_LOAD segments'') else Inr ph)"

section \<open>The dynamic table\<close>

record dynamic_info =
  dy_symtab :: "64 word option"
  dy_syment :: "64 word option"
  dy_strtab :: "64 word option"
  dy_strsz :: "64 word option"
  dy_jmprel :: "64 word option"
  dy_pltrelsz :: "64 word option"
  dy_pltrel :: "64 word option"
  dy_rela :: "64 word option"
  dy_relasz :: "64 word option"
  dy_relaent :: "64 word option"
  dy_versym :: "64 word option"
  dy_verneed :: "64 word option"
  dy_verneednum :: "64 word option"

definition no_dynamic_info :: dynamic_info where
  "no_dynamic_info =
     \<lparr>dy_symtab = None, dy_syment = None, dy_strtab = None, dy_strsz = None, dy_jmprel = None,
      dy_pltrelsz = None, dy_pltrel = None, dy_rela = None, dy_relasz = None, dy_relaent = None,
      dy_versym = None, dy_verneed = None, dy_verneednum = None\<rparr>"

definition set_tag :: "int \<Rightarrow> 64 word \<Rightarrow> dynamic_info \<Rightarrow> dynamic_info" where
  "set_tag tag v info =
     (if tag = DT_SYMTAB then info\<lparr>dy_symtab := Some v\<rparr>
      else if tag = DT_SYMENT then info\<lparr>dy_syment := Some v\<rparr>
      else if tag = DT_STRTAB then info\<lparr>dy_strtab := Some v\<rparr>
      else if tag = DT_STRSZ then info\<lparr>dy_strsz := Some v\<rparr>
      else if tag = DT_JMPREL then info\<lparr>dy_jmprel := Some v\<rparr>
      else if tag = DT_PLTRELSZ then info\<lparr>dy_pltrelsz := Some v\<rparr>
      else if tag = DT_PLTREL then info\<lparr>dy_pltrel := Some v\<rparr>
      else if tag = DT_RELA then info\<lparr>dy_rela := Some v\<rparr>
      else if tag = DT_RELASZ then info\<lparr>dy_relasz := Some v\<rparr>
      else if tag = DT_RELAENT then info\<lparr>dy_relaent := Some v\<rparr>
      else if tag = DT_VERSYM then info\<lparr>dy_versym := Some v\<rparr>
      else if tag = DT_VERNEED then info\<lparr>dy_verneed := Some v\<rparr>
      else if tag = DT_VERNEEDNUM then info\<lparr>dy_verneednum := Some v\<rparr>
      else info)"

text \<open>\<open>n\<close> entries are left of the \<open>MAX_DYN\<close> that are looked at, the next one at \<open>cursor\<close>.\<close>

fun read_dynamic_loop :: "elf_view \<Rightarrow> nat \<Rightarrow> 64 word \<Rightarrow> dynamic_info \<Rightarrow> dynamic_info plt_result" where
  "read_dynamic_loop view 0 cursor info = Inl (Malformed ''dynamic array is not DT_NULL-terminated'')"
| "read_dynamic_loop view (Suc n) cursor info =
     and_then (read_i64 view cursor) (\<lambda>tag.
       if tag = DT_NULL then Inr info
       else
         and_then (read_u64 view (cursor + 8)) (\<lambda>v.
           read_dynamic_loop view n (cursor + DYN_SIZE) (set_tag tag v info)))"

definition read_dynamic :: "elf_view \<Rightarrow> dynamic_info plt_result" where
  "read_dynamic view = read_dynamic_loop view MAX_DYN (ev_dynamic_cursor view) no_dynamic_info"

section \<open>Symbol versions\<close>

type_synonym version_map = "(16 word \<times> string \<times> string) list"

fun read_vernaux ::
  "elf_view \<Rightarrow> 64 word \<Rightarrow> 64 word \<Rightarrow> string \<Rightarrow> nat \<Rightarrow> 64 word \<Rightarrow> version_map \<Rightarrow> version_map plt_result" where
  "read_vernaux view strtab strsz soname 0 aux_cursor m = Inr m"
| "read_vernaux view strtab strsz soname (Suc n) aux_cursor m =
     and_then (read_u16 view (aux_cursor + 6)) (\<lambda>vna_other.
     and_then (read_u32 view (aux_cursor + 8)) (\<lambda>vna_name.
     and_then (read_u32 view (aux_cursor + 12)) (\<lambda>vna_next.
     and_then (read_str view strtab strsz vna_name) (\<lambda>version.
       let m' = AList.update (vna_other AND VERSYM_VERSION_MASK) (version, soname) m in
       if vna_next = 0 then Inr m'
       else read_vernaux view strtab strsz soname n (aux_cursor + ucast vna_next) m'))))"

fun read_verneed ::
  "elf_view \<Rightarrow> 64 word \<Rightarrow> 64 word \<Rightarrow> nat \<Rightarrow> 64 word \<Rightarrow> version_map \<Rightarrow> version_map plt_result" where
  "read_verneed view strtab strsz 0 need_cursor m = Inr m"
| "read_verneed view strtab strsz (Suc n) need_cursor m =
     and_then (read_u16 view (need_cursor + 2)) (\<lambda>vn_cnt.
     and_then (read_u32 view (need_cursor + 4)) (\<lambda>vn_file.
     and_then (read_u32 view (need_cursor + 8)) (\<lambda>vn_aux.
     and_then (read_u32 view (need_cursor + 12)) (\<lambda>vn_next.
     and_then (read_str view strtab strsz vn_file) (\<lambda>soname.
     and_then (read_vernaux view strtab strsz soname (min (unat vn_cnt) MAX_VERNAUX)
                 (need_cursor + ucast vn_aux) m) (\<lambda>m'.
       if vn_next = 0 then Inr m'
       else read_verneed view strtab strsz n (need_cursor + ucast vn_next) m'))))))"

definition build_version_map :: "elf_view \<Rightarrow> dynamic_info \<Rightarrow> 64 word \<Rightarrow> 64 word \<Rightarrow> version_map plt_result" where
  "build_version_map view dynamic strtab strsz =
     (case dy_verneed dynamic of
        None \<Rightarrow> Inr []
      | Some verneed_ptr \<Rightarrow>
          let cnt = (case dy_verneednum dynamic of None \<Rightarrow> MAX_VERNEED | Some n \<Rightarrow> min (unat n) MAX_VERNEED) in
          and_then (ev_vaddr_cursor view verneed_ptr) (\<lambda>need_cursor.
            read_verneed view strtab strsz cnt need_cursor []))"

definition version_of ::
  "elf_view \<Rightarrow> version_map \<Rightarrow> 64 word option \<Rightarrow> 32 word \<Rightarrow> (string option \<times> string) plt_result" where
  "version_of view versions versym_cursor sym_index =
     (case versym_cursor of
        None \<Rightarrow> Inr (None, [])
      | Some cursor \<Rightarrow>
          and_then (read_u16 view (cursor + ucast sym_index * 2)) (\<lambda>raw.
            let index = raw AND VERSYM_VERSION_MASK in
            if index \<le> VER_NDX_GLOBAL then Inr (None, [])
            else
              (case map_of versions index of
                 Some (version, soname) \<Rightarrow> Inr (Some version, soname)
               | None \<Rightarrow> Inr (None, []))))"

section \<open>Relocations\<close>

text \<open>The tables an import is looked up in.\<close>

record symbol_tables =
  tb_versym :: "64 word option"
  tb_symtab :: "64 word"
  tb_strtab :: "64 word"
  tb_strsz :: "64 word"
  tb_versions :: version_map

text \<open>The body of the loop over one \<open>Elf64_Rela\<close> table, at the entry with index \<open>i\<close>.\<close>

definition rela_entry ::
  "elf_view \<Rightarrow> symbol_tables \<Rightarrow> 64 word \<Rightarrow> 64 word \<Rightarrow> 32 word \<Rightarrow> nat \<Rightarrow> raw_import list \<Rightarrow> raw_import list plt_result" where
  "rela_entry view tb table entsize want_type i out =
     (let entry = table + of_nat i * entsize in
      and_then (read_u64 view entry) (\<lambda>r_offset.
      and_then (read_u64 view (entry + 8)) (\<lambda>r_info.
      if (ucast (r_info AND 0xffffffff) :: 32 word) \<noteq> want_type then Inr out
      else
        let sym_index = ucast (drop_bit 32 r_info) :: 32 word in
        and_then (read_u32 view (tb_symtab tb + ucast sym_index * SYM_SIZE)) (\<lambda>st_name.
        if st_name = 0 then Inr out
        else
          and_then (read_str view (tb_strtab tb) (tb_strsz tb) st_name) (\<lambda>name.
          and_then (version_of view (tb_versions tb) (tb_versym tb) sym_index) (\<lambda>(version, library).
          and_then (ev_slot_address view r_offset) (\<lambda>slot.
            Inr (out @ [\<lparr>ri_library = library, ri_symbol = Some (SymName name), ri_version = version,
                         ri_slot = unat slot, ri_kind = Standard, ri_authenticated = False\<rparr>]))))))))"

definition walk_rela ::
  "elf_view \<Rightarrow> symbol_tables \<Rightarrow> 64 word \<Rightarrow> 64 word \<Rightarrow> 64 word \<Rightarrow> 32 word \<Rightarrow> raw_import list \<Rightarrow>
     raw_import list plt_result" where
  "walk_rela view tb table table_size entsize want_type out =
     (if entsize = 0 then Inl (Malformed ''zero relocation entry size'')
      else
        let cnt = table_size div entsize in
        if MAX_RELOCS < cnt then Inl (Malformed ''relocation table exceeds sanity cap'')
        else try_fold (rela_entry view tb table entsize want_type) [0 ..< unat cnt] out)"

text \<open>\<open>parse_imports\<close> in its four steps: the tables that imports are looked up in, the walk over
  \<^verbatim>\<open>.rela.plt\<close>, the walk over \<^verbatim>\<open>.rela.dyn\<close>, and their sequence.\<close>

definition import_tables :: "elf_view \<Rightarrow> dynamic_info \<Rightarrow> symbol_tables plt_result" where
  "import_tables view dynamic =
     and_then (guard_or (Malformed ''DT_SYMENT != sizeof(Elf64_Sym)'')
        (dy_syment dynamic = None \<or> dy_syment dynamic = Some SYM_SIZE)) (\<lambda>_.
     and_then (ok_or (Malformed ''missing DT_SYMTAB'') (dy_symtab dynamic)) (\<lambda>symtab_ptr.
     and_then (ok_or (Malformed ''missing DT_STRTAB'') (dy_strtab dynamic)) (\<lambda>strtab_ptr.
     and_then (ok_or (Malformed ''missing DT_STRSZ'') (dy_strsz dynamic)) (\<lambda>strsz.
     and_then (ev_dynptr_cursor view symtab_ptr) (\<lambda>symtab.
     and_then (ev_dynptr_cursor view strtab_ptr) (\<lambda>strtab.
     and_then (build_version_map view dynamic strtab strsz) (\<lambda>versions.
     and_then (case dy_versym dynamic of
                 None \<Rightarrow> Inr None
               | Some ptr \<Rightarrow> and_then (ev_dynptr_cursor view ptr) (\<lambda>c. Inr (Some c))) (\<lambda>versym_cursor.
       Inr \<lparr>tb_versym = versym_cursor, tb_symtab = symtab, tb_strtab = strtab, tb_strsz = strsz,
            tb_versions = versions\<rparr>))))))))"

definition walk_jmprel ::
  "elf_view \<Rightarrow> dynamic_info \<Rightarrow> symbol_tables \<Rightarrow> 32 word \<Rightarrow> raw_import list plt_result" where
  "walk_jmprel view dynamic tb want_type =
     (case (dy_jmprel dynamic, dy_pltrelsz dynamic) of
        (Some jmprel, Some pltrelsz) \<Rightarrow>
          if dy_pltrel dynamic = Some DT_PLTREL_IS_RELA then
            and_then (ev_dynptr_cursor view jmprel) (\<lambda>table.
              walk_rela view tb table pltrelsz RELA_SIZE want_type [])
          else Inr []
      | _ \<Rightarrow> Inr [])"

definition walk_reladyn ::
  "elf_view \<Rightarrow> dynamic_info \<Rightarrow> symbol_tables \<Rightarrow> 32 word \<Rightarrow> raw_import list \<Rightarrow> raw_import list plt_result" where
  "walk_reladyn view dynamic tb want_type out =
     (case dy_rela dynamic of
        None \<Rightarrow> Inr out
      | Some rela \<Rightarrow>
          and_then (ok_or (Malformed ''DT_RELA without DT_RELASZ'') (dy_relasz dynamic)) (\<lambda>relasz.
          let relaent = (case dy_relaent dynamic of None \<Rightarrow> RELA_SIZE | Some n \<Rightarrow> n) in
          and_then (ev_dynptr_cursor view rela) (\<lambda>table.
            walk_rela view tb table relasz relaent want_type out)))"

definition parse_imports :: "elf_view \<Rightarrow> raw_import list plt_result" where
  "parse_imports view =
     and_then
       (ok_or (UnsupportedImage ''ELF machine is not EM_X86_64 or EM_AARCH64'') (elf_reloc_kinds (ev_machine view))) (\<lambda>kinds.
     and_then (read_dynamic view) (\<lambda>dynamic.
     and_then (import_tables view dynamic) (\<lambda>tb.
     and_then (walk_jmprel view dynamic tb (jump_slot kinds)) (\<lambda>out.
       walk_reladyn view dynamic tb (glob_dat kinds) out))))"

section \<open>What the parser promises over any view\<close>

text \<open>An import the walk may report: a named, ordinary slot at an address that the view accepts.\<close>

definition reported :: "(64 word \<Rightarrow> bool) \<Rightarrow> raw_import \<Rightarrow> bool" where
  "reported slot_ok raw \<longleftrightarrow>
     (\<exists>a. slot_ok a \<and> ri_slot raw = unat a) \<and> (\<exists>name. ri_symbol raw = Some (SymName name)) \<and>
     ri_kind raw = Standard \<and> \<not> ri_authenticated raw"

locale bounded_view =
  fixes view :: elf_view
    and slot_ok :: "64 word \<Rightarrow> bool"
  assumes slot_address_ok: "ev_slot_address view r = Inr a \<Longrightarrow> slot_ok a"
begin

lemma rela_entry_reported:
  assumes "rela_entry view tb table entsize want i out = Inr out'"
  shows "\<exists>extra. out' = out @ extra \<and> length extra \<le> 1 \<and> list_all (reported slot_ok) extra"
  using assms
  by (auto simp: rela_entry_def Let_def reported_def split: if_splits prod.splits dest!: slot_address_ok)

lemma walk_rela_reported:
  assumes "walk_rela view tb table sz entsize want out = Inr out'" and "list_all (reported slot_ok) out"
  shows "list_all (reported slot_ok) out' \<and> length out' \<le> length out + unat MAX_RELOCS"
proof -
  let ?n = "unat (sz div entsize)"
  from assms(1) have n: "?n \<le> unat MAX_RELOCS"
    and fold: "try_fold (rela_entry view tb table entsize want) [0 ..< ?n] out = Inr out'"
    by (auto simp: walk_rela_def Let_def word_le_nat_alt word_less_nat_alt split: if_splits)
  have "list_all (reported slot_ok) out' \<and> length out' \<le> length out + k"
    if "try_fold (rela_entry view tb table entsize want) [0 ..< k] out = Inr out'" for k out'
    using that
  proof (induction k arbitrary: out')
    case 0
    then show ?case using assms(2) by simp
  next
    case (Suc k)
    then obtain mid where "try_fold (rela_entry view tb table entsize want) [0 ..< k] out = Inr mid"
      and step: "rela_entry view tb table entsize want k mid = Inr out'"
      by (auto simp: try_fold_snoc)
    with Suc.IH have "list_all (reported slot_ok) mid" "length mid \<le> length out + k" by auto
    with rela_entry_reported [OF step] show ?case by auto
  qed
  from this [OF fold] n show ?thesis by auto
qed

lemma parse_imports_reported:
  assumes "parse_imports view = Inr raws"
  shows "list_all (reported slot_ok) raws \<and> length raws \<le> 2 * unat MAX_RELOCS"
proof -
  from assms obtain kinds :: reloc_kinds and dynamic tb out
    where 1: "walk_jmprel view dynamic tb (jump_slot kinds) = Inr out"
      and 2: "walk_reladyn view dynamic tb (glob_dat kinds) out = Inr raws"
    by (auto simp: parse_imports_def)
  have "list_all (reported slot_ok) out \<and> length out \<le> unat MAX_RELOCS"
    using 1 by (auto simp: walk_jmprel_def split: option.splits if_splits dest!: walk_rela_reported)
  moreover have "raws = out \<or> (\<exists>t sz es w. walk_rela view tb t sz es w out = Inr raws)"
    using 2 by (auto simp: walk_reladyn_def Let_def split: option.splits)
  ultimately show ?thesis using walk_rela_reported [of tb _ _ _ _ out raws] by fastforce
qed

end

end
