(* ===== verification/Elf_Encoding.thy ===== *)
theory Elf_Encoding
  imports Elf_Parser
begin

text \<open>
  The ELF64 file format as an encoder, the reference against which the parser is proved: integers are
  laid out little-endian, a program header is the structure \<open>Elf64_Phdr\<close>, and parsing an encoded
  table yields the loadable segments, the dynamic table and the place of the ELF header.
\<close>

section \<open>Little-endian integers\<close>

fun to_le :: "nat \<Rightarrow> nat \<Rightarrow> byte list" where
  "to_le 0 x = []"
| "to_le (Suc n) x = of_nat x # to_le n (x div 256)"

definition le_bytes :: "'a::len word \<Rightarrow> byte list" where
  "le_bytes w = to_le (LENGTH('a) div 8) (unat w)"

lemma length_to_le [simp]: "length (to_le n x) = n"
  by (induction n arbitrary: x) auto

lemma length_le_bytes [simp]: "length (le_bytes (w :: 'a::len word)) = LENGTH('a) div 8"
  by (simp add: le_bytes_def)

lemma le_nat_to_le: "le_nat (to_le n x) = x mod 256 ^ n"
proof (induction n arbitrary: x)
  case (Suc n)
  have "unat (of_nat x :: byte) = x mod 256" by (simp add: unat_of_nat)
  with Suc show ?case by (simp add: mod_mult2_eq add.commute)
qed simp

lemma from_le_bytes_le_bytes:
  "8 dvd LENGTH('a) \<Longrightarrow> from_le_bytes (le_bytes w) = (w :: 'a::len word)"
proof -
  assume "8 dvd LENGTH('a)"
  then obtain k where k: "LENGTH('a) = 8 * k" by (elim dvdE)
  then have "(256 :: nat) ^ (LENGTH('a) div 8) = 2 ^ LENGTH('a)"
    by (simp add: power_mult)
  moreover have "unat w < 2 ^ LENGTH('a)" by (rule unsigned_less)
  ultimately show ?thesis
    by (simp add: from_le_bytes_def le_bytes_def le_nat_to_le)
qed

lemmas le_roundtrip [simp] =
  from_le_bytes_le_bytes [where 'a = 16, simplified] from_le_bytes_le_bytes [where 'a = 32, simplified]
  from_le_bytes_le_bytes [where 'a = 64, simplified]

section \<open>Slices\<close>

lemma get_range_prefix [simp]: "length xs = n \<Longrightarrow> get_range 0 n (xs @ ys) = Some xs"
  by (simp add: get_range_def)

lemma get_range_skip: "length xs \<le> off \<Longrightarrow> get_range off n (xs @ ys) = get_range (off - length xs) n ys"
  by (auto simp: get_range_def)

lemma get_range_all [simp]: "length xs = n \<Longrightarrow> get_range 0 n xs = Some xs"
  by (simp add: get_range_def)

section \<open>Program headers\<close>

record elf64_phdr =
  p_type :: "32 word"
  p_flags :: "32 word"
  p_offset :: "64 word"
  p_vaddr :: "64 word"
  p_paddr :: "64 word"
  p_filesz :: "64 word"
  p_memsz :: "64 word"
  p_align :: "64 word"

definition phdr_bytes :: "elf64_phdr \<Rightarrow> byte list" where
  "phdr_bytes p =
     le_bytes (p_type p) @ le_bytes (p_flags p) @ le_bytes (p_offset p) @ le_bytes (p_vaddr p) @
     le_bytes (p_paddr p) @ le_bytes (p_filesz p) @ le_bytes (p_memsz p) @ le_bytes (p_align p)"

definition is_load :: "elf64_phdr \<Rightarrow> bool" where
  "is_load p \<longleftrightarrow> p_type p = PT_LOAD"

definition segment_of :: "elf64_phdr \<Rightarrow> segment" where
  "segment_of p = \<lparr>sg_vaddr = p_vaddr p, sg_memsz = p_memsz p, sg_offset = p_offset p, sg_filesz = p_filesz p\<rparr>"

text \<open>What a table of program headers says: the segments in order, the last dynamic table, and the
  last loadable segment that starts at file offset 0.\<close>

definition headers_of :: "elf64_phdr list \<Rightarrow> program_headers" where
  "headers_of ps =
     (let dyns = filter (\<lambda>p. p_type p = PT_DYNAMIC) ps;
          firsts = filter (\<lambda>p. is_load p \<and> p_offset p = 0) ps
      in \<lparr>ph_loads = map segment_of (filter is_load ps),
          ph_dynamic_vaddr = (if dyns = [] then None else Some (p_vaddr (last dyns))),
          ph_ehdr_vaddr = (if firsts = [] then 0 else p_vaddr (last firsts))\<rparr>)"

lemma length_phdr_bytes [simp]: "length (phdr_bytes p) = PHDR_SIZE"
  by (simp add: phdr_bytes_def PHDR_SIZE_def)

lemma length_phdr_table [simp]: "length (concat (map phdr_bytes ps)) = length ps * PHDR_SIZE"
  by (induction ps) auto

lemma slice_phdr_bytes [simp]:
  "slice_le32 (phdr_bytes p) 0 = Inr (p_type p)"
  "slice_le64 (phdr_bytes p) 8 = Inr (p_offset p)"
  "slice_le64 (phdr_bytes p) 16 = Inr (p_vaddr p)"
  "slice_le64 (phdr_bytes p) 32 = Inr (p_filesz p)"
  "slice_le64 (phdr_bytes p) 40 = Inr (p_memsz p)"
  by (simp_all add: slice_le32_def slice_le64_def phdr_bytes_def get_range_skip)

lemma get_range_phdr:
  "i < length ps \<Longrightarrow>
   get_range (i * PHDR_SIZE) PHDR_SIZE (concat (map phdr_bytes ps) @ rest) = Some (phdr_bytes (ps ! i))"
proof (induction ps arbitrary: i)
  case (Cons p ps)
  then show ?case by (cases i) (simp_all add: get_range_skip)
qed simp

lemma headers_of_snoc:
  "headers_of (ps @ [p]) =
     (let ph = headers_of ps in
      if p_type p = PT_LOAD then
        ph\<lparr>ph_loads := ph_loads ph @ [segment_of p],
           ph_ehdr_vaddr := (if p_offset p = 0 then p_vaddr p else ph_ehdr_vaddr ph)\<rparr>
      else if p_type p = PT_DYNAMIC then ph\<lparr>ph_dynamic_vaddr := Some (p_vaddr p)\<rparr>
      else ph)"
  by (simp add: headers_of_def is_load_def Let_def PT_LOAD_def PT_DYNAMIC_def)

lemma try_fold_parse_phdr:
  assumes "length ps \<le> 65535" "n \<le> length ps"
  shows "try_fold (parse_phdr (concat (map phdr_bytes ps) @ rest)) [0 ..< n]
           \<lparr>ph_loads = [], ph_dynamic_vaddr = None, ph_ehdr_vaddr = 0\<rparr> = Inr (headers_of (take n ps))"
  using assms(2)
proof (induction n)
  case 0
  then show ?case by (simp add: headers_of_def)
next
  case (Suc n)
  have le: "n * PHDR_SIZE \<le> U64_MAX"
    using assms(1) Suc.prems by (simp add: PHDR_SIZE_def U64_MAX_def)
  have "parse_phdr (concat (map phdr_bytes ps) @ rest) n (headers_of (take n ps)) =
      Inr (headers_of (take n ps @ [ps ! n]))"
    using Suc.prems le
    by (simp add: parse_phdr_def get_range_phdr headers_of_snoc Let_def segment_of_def)
  with Suc show ?case by (simp add: try_fold_snoc take_Suc_conv_app_nth)
qed

lemma parse_program_headers_table:
  assumes "length ps \<le> 65535"
  shows "parse_program_headers (concat (map phdr_bytes ps) @ rest) (length ps) =
    (if filter is_load ps = [] then Inl (Malformed ''no PT_LOAD segments'') else Inr (headers_of ps))"
  using try_fold_parse_phdr [OF assms order.refl, of rest]
  by (simp add: parse_program_headers_def) (simp add: headers_of_def Let_def)

section \<open>Properties\<close>

text \<open>Parsing inverts the file format: the table of program headers in the layout of \<open>Elf64_Phdr\<close>,
  followed by any bytes, parses to the loadable segments in order, the last dynamic table and the
  segment that holds the ELF header; a table without a loadable segment is rejected.\<close>

theorem program_headers_roundtrip:
  assumes "length ps \<le> 65535"
  shows "parse_program_headers (concat (map phdr_bytes ps) @ rest) (length ps) =
    (if filter is_load ps = [] then Inl (Malformed ''no PT_LOAD segments'')
     else Inr \<lparr>ph_loads = map segment_of (filter is_load ps),
       ph_dynamic_vaddr = (let dyns = filter (\<lambda>p. p_type p = PT_DYNAMIC) ps
                           in if dyns = [] then None else Some (p_vaddr (last dyns))),
       ph_ehdr_vaddr = (let firsts = filter (\<lambda>p. is_load p \<and> p_offset p = 0) ps
                        in if firsts = [] then 0 else p_vaddr (last firsts))\<rparr>)"
  using parse_program_headers_table [OF assms, of rest] by (simp add: headers_of_def Let_def)

theorem program_headers_roundtrip_witness:
  "parse_program_headers
     (phdr_bytes \<lparr>p_type = 1, p_flags = 5, p_offset = 0, p_vaddr = 0x400000, p_paddr = 0, p_filesz = 16,
        p_memsz = 32, p_align = 4096\<rparr>) 1 =
   Inr \<lparr>ph_loads = [\<lparr>sg_vaddr = 0x400000, sg_memsz = 32, sg_offset = 0, sg_filesz = 16\<rparr>],
        ph_dynamic_vaddr = None, ph_ehdr_vaddr = 0x400000\<rparr>"
  using program_headers_roundtrip [of "[\<lparr>p_type = 1, p_flags = 5, p_offset = 0, p_vaddr = 0x400000, p_paddr = 0,
      p_filesz = 16, p_memsz = 32, p_align = 4096\<rparr>]" "[]"]
  by (simp add: is_load_def PT_LOAD_def PT_DYNAMIC_def segment_of_def)

end
