(* ===== verification/Dlpi.thy ===== *)
theory Dlpi
  imports Elf_Encoding
begin

text \<open>
  \<^verbatim>\<open>crates/plthook/src/dlpi.rs\<close>: the objects that \<open>dl_iterate_phdr\<close> visits.  The loader hands a
  \<open>dl_phdr_info\<close> to the callback, which copies it into an \<open>Object\<close>; a visitor stops the walk at
  the first object for which it yields a value.
\<close>

text \<open>\<open>dlpi_name\<close> is the C string without its terminator, \<open>dlpi_phdr\<close> the bytes from the table's
  address on; \<open>None\<close> is the null pointer.\<close>

record dl_phdr_info =
  dlpi_addr :: "64 word"
  dlpi_name :: "string option"
  dlpi_phdr :: "(nat \<Rightarrow> byte) option"
  dlpi_phnum :: "16 word"

record dl_object =
  ob_base :: nat
  ob_name :: string
  ob_phdrs :: "byte list"
  ob_phnum :: nat

definition object_of :: "dl_phdr_info \<Rightarrow> dl_object" where
  "object_of info =
     (let phnum = unat (dlpi_phnum info); bytes = phnum * PHDR_SIZE in
      \<lparr>ob_base = unat (dlpi_addr info),
       ob_name = (case dlpi_name info of None \<Rightarrow> [] | Some name \<Rightarrow> from_utf8_lossy name),
       ob_phdrs = (case dlpi_phdr info of None \<Rightarrow> replicate bytes 0 | Some p \<Rightarrow> map p [0 ..< bytes]),
       ob_phnum = phnum\<rparr>)"

definition object_program_headers :: "dl_object \<Rightarrow> program_headers plt_result" where
  "object_program_headers obj = parse_program_headers (ob_phdrs obj) (ob_phnum obj)"

definition contains_address :: "dl_object \<Rightarrow> nat \<Rightarrow> bool" where
  "contains_address obj address =
     (case object_program_headers obj of
        Inl _ \<Rightarrow> False
      | Inr ph \<Rightarrow>
          list_ex (\<lambda>seg.
            let start = wrap_add (ob_base obj) (unat (sg_vaddr seg));
                end' = wrap_add start (unat (sg_memsz seg))
            in start \<le> address \<and> address < end') (ph_loads ph))"

fun for_each :: "(dl_object \<Rightarrow> 'a option) \<Rightarrow> dl_phdr_info list \<Rightarrow> 'a option" where
  "for_each visit [] = None"
| "for_each visit (info # infos) =
     (case visit (object_of info) of Some r \<Rightarrow> Some r | None \<Rightarrow> for_each visit infos)"

definition find_base :: "nat \<Rightarrow> dl_phdr_info list \<Rightarrow> dl_object option" where
  "find_base base = for_each (\<lambda>obj. if ob_base obj = base then Some obj else None)"

lemma for_each_Some: "for_each visit infos = Some r \<Longrightarrow> \<exists>info \<in> set infos. visit (object_of info) = Some r"
  by (induction infos) (auto split: option.splits)

lemma for_each_None: "for_each visit infos = None \<longleftrightarrow> (\<forall>info \<in> set infos. visit (object_of info) = None)"
  by (induction infos) (auto split: option.splits)

lemma find_base_Some: "find_base base infos = Some obj \<Longrightarrow> ob_base obj = base \<and> obj \<in> object_of ` set infos"
  by (auto simp: find_base_def dest!: for_each_Some split: if_splits)

lemma object_of_wf [simp]:
  "length (ob_phdrs (object_of info)) = ob_phnum (object_of info) * PHDR_SIZE"
  "ob_base (object_of info) < 2 ^ 64" "ob_phnum (object_of info) \<le> 65535"
proof -
  show "length (ob_phdrs (object_of info)) = ob_phnum (object_of info) * PHDR_SIZE"
    by (simp add: object_of_def Let_def split: option.splits)
  show "ob_base (object_of info) < 2 ^ 64"
    using unsigned_less [where 'a = nat, of "dlpi_addr info"] by (simp add: object_of_def Let_def)
  show "ob_phnum (object_of info) \<le> 65535"
    using unsigned_less [where 'a = nat, of "dlpi_phnum info"] by (simp add: object_of_def Let_def)
qed

text \<open>The information the loader gives for an object with the program headers \<open>ps\<close>.\<close>

definition phdr_info :: "64 word \<Rightarrow> string \<Rightarrow> elf64_phdr list \<Rightarrow> dl_phdr_info" where
  "phdr_info base name ps =
     \<lparr>dlpi_addr = base, dlpi_name = Some name,
      dlpi_phdr = Some (\<lambda>i. let bs = concat (map phdr_bytes ps) in if i < length bs then bs ! i else 0),
      dlpi_phnum = of_nat (length ps)\<rparr>"

lemma object_of_phdr_info:
  assumes "length ps \<le> 65535"
  shows "ob_phdrs (object_of (phdr_info base name ps)) = concat (map phdr_bytes ps)"
    "ob_phnum (object_of (phdr_info base name ps)) = length ps"
    "ob_base (object_of (phdr_info base name ps)) = unat base"
    "ob_name (object_of (phdr_info base name ps)) = from_utf8_lossy name"
proof -
  have n: "unat (of_nat (length ps) :: 16 word) = length ps"
    using assms by (simp add: unat_of_nat)
  show "ob_phdrs (object_of (phdr_info base name ps)) = concat (map phdr_bytes ps)"
    by (rule nth_equalityI) (simp_all add: object_of_def phdr_info_def n Let_def)
  show "ob_phnum (object_of (phdr_info base name ps)) = length ps"
    "ob_base (object_of (phdr_info base name ps)) = unat base"
    "ob_name (object_of (phdr_info base name ps)) = from_utf8_lossy name"
    by (simp_all add: object_of_def phdr_info_def n Let_def)
qed

lemma object_program_headers_phdr_info:
  assumes "length ps \<le> 65535"
  shows "object_program_headers (object_of (phdr_info base name ps)) =
    (if filter is_load ps = [] then Inl (Malformed ''no PT_LOAD segments'') else Inr (headers_of ps))"
  using parse_program_headers_table [OF assms, of "[]"] assms
  by (simp add: object_program_headers_def object_of_phdr_info)

end
