(* ===== verification/Sys_Unix.thy ===== *)
theory Sys_Unix
  imports Plt_Slot Dlpi
begin

text \<open>
  \<^verbatim>\<open>crates/plthook/src/sys_unix.rs\<close>: the Linux platform layer under the slot transaction.
  The kernel and the dynamic loader are a record of operations: the text of
  \<^verbatim>\<open>/proc/self/maps\<close>, \<open>mprotect\<close>, \<open>errno\<close>, \<open>sysconf\<close>, \<open>dlsym\<close>, and the objects that
  \<open>dl_iterate_phdr\<close> visits.
\<close>

record 'o kernel =
  k_maps :: "'o \<Rightarrow> string option"
  k_mprotect :: "nat \<Rightarrow> nat \<Rightarrow> nat \<Rightarrow> 'o \<Rightarrow> bool \<times> 'o"
  k_errno :: "'o \<Rightarrow> int"
  k_sysconf_pagesize :: int
  k_objects :: "'o \<Rightarrow> dl_phdr_info list"
  k_dlsym :: "string \<Rightarrow> nat"

definition PROT_READ :: nat where "PROT_READ = 1"
definition PROT_WRITE :: nat where "PROT_WRITE = 2"
definition PROT_EXEC :: nat where "PROT_EXEC = 4"

section \<open>Reading the memory map\<close>

definition strip_cr :: "string \<Rightarrow> string" where
  "strip_cr l = (if l \<noteq> [] \<and> last l = CHR 0x0D then butlast l else l)"

text \<open>\<open>str::lines\<close>; a final empty line, which the code never sees, has no space and is skipped
  anyway.\<close>

definition lines :: "string \<Rightarrow> string list" where
  "lines s = map strip_cr (split_on (\<lambda>c. c = CHR 0x0A) s)"

definition hex_digit :: "char \<Rightarrow> nat option" where
  "hex_digit c = (let n = of_char c :: nat in
     if 48 \<le> n \<and> n \<le> 57 then Some (n - 48)
     else if 97 \<le> n \<and> n \<le> 102 then Some (n - 87)
     else if 65 \<le> n \<and> n \<le> 70 then Some (n - 55)
     else None)"

fun hex_value :: "nat \<Rightarrow> string \<Rightarrow> nat option" where
  "hex_value acc [] = Some acc"
| "hex_value acc (c # s) =
     (case hex_digit c of
        None \<Rightarrow> None
      | Some d \<Rightarrow> if U64_MAX < acc * 16 + d then None else hex_value (acc * 16 + d) s)"

definition from_hex :: "string \<Rightarrow> nat option" where
  "from_hex s =
     (case s of
        [] \<Rightarrow> None
      | c # r \<Rightarrow> if c = CHR ''+'' then (if r = [] then None else hex_value 0 r) else hex_value 0 s)"

definition perms_of :: "string \<Rightarrow> nat" where
  "perms_of rest =
     (if 0 < length rest \<and> rest ! 0 = CHR ''r'' then PROT_READ else 0) +
     (if 1 < length rest \<and> rest ! 1 = CHR ''w'' then PROT_WRITE else 0) +
     (if 2 < length rest \<and> rest ! 2 = CHR ''x'' then PROT_EXEC else 0)"

definition line_prot :: "nat \<Rightarrow> string \<Rightarrow> nat option" where
  "line_prot address line =
     (case split_once (CHR '' '') line of
        None \<Rightarrow> None
      | Some (rng, rest) \<Rightarrow>
          (case split_once (CHR ''-'') rng of
             None \<Rightarrow> None
           | Some (a, b) \<Rightarrow>
               (case (from_hex a, from_hex b) of
                  (Some start, Some end') \<Rightarrow>
                    if start \<le> address \<and> address < end' then Some (perms_of rest) else None
                | _ \<Rightarrow> None)))"

fun first_prot :: "nat \<Rightarrow> string list \<Rightarrow> nat" where
  "first_prot address [] = 0"
| "first_prot address (l # ls) = (case line_prot address l of Some pr \<Rightarrow> pr | None \<Rightarrow> first_prot address ls)"

definition query_protection :: "'o kernel \<Rightarrow> nat \<Rightarrow> 'o \<Rightarrow> nat" where
  "query_protection k address st =
     (case k_maps k st of None \<Rightarrow> 0 | Some maps \<Rightarrow> first_prot address (lines maps))"

section \<open>The operations\<close>

definition unix_page_size :: "'o kernel \<Rightarrow> nat" where
  "unix_page_size k = (if k_sysconf_pagesize k \<le> 0 then 0x1000 else nat (k_sysconf_pagesize k))"

definition add_prot :: "nat \<Rightarrow> nat \<Rightarrow> nat" where
  "add_prot pr b = (if pr div b mod 2 = 1 then pr else pr + b)"

definition has_prot :: "nat \<Rightarrow> nat \<Rightarrow> bool" where
  "has_prot pr b \<longleftrightarrow> pr div b mod 2 = 1"

definition unix_make_writable :: "'o kernel \<Rightarrow> nat \<Rightarrow> 'o \<Rightarrow> (plt_error + nat) \<times> 'o" where
  "unix_make_writable k page st =
     (let pr = query_protection k page st in
      if pr = 0 then (Inl (Protect page (k_errno k st)), st)
      else if \<not> has_prot pr PROT_WRITE then
        (case k_mprotect k page (unix_page_size k) (add_prot (add_prot pr PROT_WRITE) PROT_READ) st of
           (ok, st') \<Rightarrow> if \<not> ok then (Inl (Protect page (k_errno k st')), st') else (Inr pr, st'))
      else (Inr pr, st))"

definition unix_restore_protection :: "'o kernel \<Rightarrow> nat \<Rightarrow> nat \<Rightarrow> 'o \<Rightarrow> (plt_error + unit) \<times> 'o" where
  "unix_restore_protection k page protection st =
     (case k_mprotect k page (unix_page_size k) protection st of
        (ok, st') \<Rightarrow> if \<not> ok then (Inl (Protect page (k_errno k st')), st') else (Inr (), st'))"

definition unix_module_still_loaded :: "'o kernel \<Rightarrow> nat \<Rightarrow> 'o \<Rightarrow> bool" where
  "unix_module_still_loaded k base st \<longleftrightarrow> find_base base (k_objects k st) \<noteq> None"

definition unix_slot_belongs :: "'o kernel \<Rightarrow> nat \<Rightarrow> nat \<Rightarrow> 'o \<Rightarrow> bool" where
  "unix_slot_belongs k address module_base st =
     (case find_base module_base (k_objects k st) of None \<Rightarrow> False | Some obj \<Rightarrow> contains_address obj address)"

fun unix_resolve_original :: "'o kernel \<Rightarrow> import_kind \<Rightarrow> string \<Rightarrow> symbol \<Rightarrow> nat \<Rightarrow> 'o \<Rightarrow> nat option \<times> 'o" where
  "unix_resolve_original k kind library (SymName name) slot_value st =
     (let ptr = k_dlsym k name in (if ptr = 0 then None else Some ptr, st))"
| "unix_resolve_original k kind library (SymOrdinal _) slot_value st = (None, st)"

definition unix_sys :: "'o kernel \<Rightarrow> 'o sys_ops" where
  "unix_sys k =
     \<lparr>page_size = unix_page_size k,
      make_writable = unix_make_writable k,
      restore_protection = unix_restore_protection k,
      module_still_loaded = unix_module_still_loaded k,
      slot_belongs_to_module = unix_slot_belongs k,
      resolve_original = unix_resolve_original k\<rparr>"

section \<open>What the kernel promises\<close>

text \<open>\<open>prot\<close> is the protection of a mapped page, 0 for an unmapped or inaccessible one.  The
  memory map shows it, and \<open>mprotect\<close> over one page sets it or fails without effect.\<close>

locale linux_kernel =
  fixes k :: "'o kernel"
    and prot :: "'o \<Rightarrow> nat \<Rightarrow> nat"
  assumes maps_show: "page mod unix_page_size k = 0 \<Longrightarrow> query_protection k page st = prot st page"
    and mprotect_ok: "page mod unix_page_size k = 0 \<Longrightarrow>
      k_mprotect k page (unix_page_size k) v st = (True, st') \<Longrightarrow> prot st' = (prot st)(page := v)"
    and mprotect_err: "k_mprotect k page n v st = (False, st') \<Longrightarrow> prot st' = prot st"

definition writable_prot :: "nat \<Rightarrow> nat" where
  "writable_prot pr = (if has_prot pr PROT_WRITE then pr else add_prot (add_prot pr PROT_WRITE) PROT_READ)"

sublocale linux_kernel \<subseteq> unix_pages: page_protection "unix_sys k" prot writable_prot "\<lambda>_. True"
proof (unfold_locales, goal_cases)
  case (1 page st old st')
  have pg: "page mod unix_page_size k = 0" using 1(1) by (simp add: unix_sys_def)
  note show_pg = maps_show [OF pg]
  show ?case
  proof (cases "has_prot (prot st page) PROT_WRITE")
    case True
    with 1 show ?thesis
      by (auto simp: unix_sys_def unix_make_writable_def show_pg Let_def writable_prot_def split: if_splits)
  next
    case False
    with 1 have "k_mprotect k page (unix_page_size k) (writable_prot (prot st page)) st = (True, st')"
      "old = prot st page"
      by (auto simp: unix_sys_def unix_make_writable_def show_pg Let_def writable_prot_def split: if_splits prod.splits)
    then show ?thesis using mprotect_ok [OF pg] by simp
  qed
next
  case (2 page st err st')
  then show ?case
    by (auto simp: unix_sys_def unix_make_writable_def Let_def dest: mprotect_err split: if_splits prod.splits)
next
  case (3 page v st u st')
  then show ?case
    by (auto simp: unix_sys_def unix_restore_protection_def intro: mprotect_ok split: if_splits prod.splits)
next
  case (4 page v st err st')
  then show ?case
    by (auto simp: unix_sys_def unix_restore_protection_def dest: mprotect_err split: if_splits prod.splits)
qed


section \<open>A kernel that keeps the promise\<close>

text \<open>The state is the list of mapped pages with their protections, the newest first; its memory
  map is printed in the format of \<^verbatim>\<open>proc(5)\<close>.\<close>

definition hex_char :: "nat \<Rightarrow> char" where
  "hex_char d = char_of (if d < 10 then 48 + d else 87 + d)"

fun to_hex :: "nat \<Rightarrow> string" where
  "to_hex n = (if n < 16 then [hex_char n] else to_hex (n div 16) @ [hex_char (n mod 16)])"

declare to_hex.simps [simp del]

definition print_perms :: "nat \<Rightarrow> string" where
  "print_perms pr =
     [if has_prot pr PROT_READ then CHR ''r'' else CHR ''-'',
      if has_prot pr PROT_WRITE then CHR ''w'' else CHR ''-'',
      if has_prot pr PROT_EXEC then CHR ''x'' else CHR ''-''] @ ''p 00000000 00:00 0''"

definition print_page :: "nat \<times> nat \<Rightarrow> string" where
  "print_page = (\<lambda>(page, pr). to_hex page @ ''-'' @ to_hex (page + 4096) @ '' '' @ print_perms pr)"

definition mapped :: "(nat \<times> nat) list \<Rightarrow> (nat \<times> nat) list" where
  "mapped st = filter (\<lambda>(page, pr). page mod 4096 = 0 \<and> page + 4096 \<le> U64_MAX \<and> pr \<le> 7) st"

definition pt_prot :: "(nat \<times> nat) list \<Rightarrow> nat \<Rightarrow> nat" where
  "pt_prot st page = (case map_of (mapped st) page of Some pr \<Rightarrow> pr | None \<Rightarrow> 0)"

definition page_table_kernel :: "dl_phdr_info list \<Rightarrow> (string \<Rightarrow> nat) \<Rightarrow> (nat \<times> nat) list kernel" where
  "page_table_kernel objs dlsym =
     \<lparr>k_maps = (\<lambda>st. Some (concat (map (\<lambda>pg. print_page pg @ [CHR 0x0A]) (mapped st)))),
      k_mprotect = (\<lambda>page n pr st.
        if n = 4096 \<and> page \<in> fst ` set (mapped st) \<and> pr \<le> 7 then (True, (page, pr) # st) else (False, st)),
      k_errno = (\<lambda>_. 12),
      k_sysconf_pagesize = 4096,
      k_objects = (\<lambda>_. objs),
      k_dlsym = dlsym\<rparr>"

lemma digit_of [simp]: "d < 16 \<Longrightarrow> hex_digit (hex_char d) = Some d"
  by (auto simp: hex_char_def hex_digit_def Let_def of_char_of)

lemma hex_value_append: "hex_value acc (s @ t) = Option.bind (hex_value acc s) (\<lambda>a. hex_value a t)"
  by (induction s arbitrary: acc) (auto split: option.splits)

lemma hex_value_to_hex: "n \<le> U64_MAX \<Longrightarrow> hex_value 0 (to_hex n) = Some n"
proof (induction n rule: to_hex.induct)
  case (1 n)
  show ?case
  proof (cases "n < 16")
    case True
    then show ?thesis using "1.prems" by (simp add: to_hex.simps [of n])
  next
    case False
    have "hex_value 0 (to_hex (n div 16)) = Some (n div 16)" using 1 False by simp
    then show ?thesis using False "1.prems" by (simp add: to_hex.simps [of n] hex_value_append)
  qed
qed

lemma to_hex_chars: "c \<in> set (to_hex n) \<Longrightarrow> hex_digit c \<noteq> None"
proof (induction n rule: to_hex.induct)
  case (1 n)
  then show ?case by (auto simp: to_hex.simps [of n] split: if_splits)
qed

lemma to_hex_ne: "to_hex n \<noteq> []"
  by (simp add: to_hex.simps [of n])

lemma not_hex: "hex_digit (CHR ''-'') = None" "hex_digit (CHR '' '') = None" "hex_digit (CHR 0x0A) = None"
  "hex_digit (CHR ''+'') = None" "hex_digit (CHR 0x0D) = None"
  by code_simp+

lemma from_hex_to_hex: "n \<le> U64_MAX \<Longrightarrow> from_hex (to_hex n) = Some n"
proof -
  assume n: "n \<le> U64_MAX"
  obtain c r where cr: "to_hex n = c # r" using to_hex_ne [of n] by (cases "to_hex n") auto
  then have "c \<noteq> CHR ''+''" using to_hex_chars [of c n] not_hex by auto
  then show ?thesis using hex_value_to_hex [OF n] cr by (simp add: from_hex_def)
qed

lemma split_once_append: "c \<notin> set s \<Longrightarrow> split_once c (s @ c # t) = Some (s, t)"
  by (induction s) (auto simp: split_once_def)

lemma perms_print: "pr \<le> 7 \<Longrightarrow> perms_of (print_perms pr) = pr"
proof -
  assume "pr \<le> 7"
  then have "pr = 0 \<or> pr = 1 \<or> pr = 2 \<or> pr = 3 \<or> pr = 4 \<or> pr = 5 \<or> pr = 6 \<or> pr = 7" by presburger
  then show ?thesis
    by (elim disjE) (simp_all add: perms_of_def print_perms_def has_prot_def PROT_READ_def PROT_WRITE_def PROT_EXEC_def)
qed

lemma line_prot_print:
  assumes "page + 4096 \<le> U64_MAX" "pr \<le> 7"
  shows "line_prot a (print_page (page, pr)) = (if page \<le> a \<and> a < page + 4096 then Some pr else None)"
proof -
  let ?r = "to_hex page @ CHR ''-'' # to_hex (page + 4096)"
  have "CHR '' '' \<notin> set ?r" "CHR ''-'' \<notin> set (to_hex page)" using to_hex_chars not_hex by fastforce+
  then have "split_once (CHR '' '') (?r @ CHR '' '' # print_perms pr) = Some (?r, print_perms pr)"
    "split_once (CHR ''-'') ?r = Some (to_hex page, to_hex (page + 4096))"
    by (blast intro: split_once_append)+
  moreover have "print_page (page, pr) = ?r @ CHR '' '' # print_perms pr" by (simp add: print_page_def)
  ultimately show ?thesis using assms by (simp add: line_prot_def from_hex_to_hex perms_print)
qed

lemma print_page_chars: "c \<in> set (print_page pg) \<Longrightarrow> c \<noteq> CHR 0x0A \<and> c \<noteq> CHR 0x0D"
proof -
  assume c: "c \<in> set (print_page pg)"
  obtain page pr where pg: "pg = (page, pr)" by (cases pg)
  have "x \<noteq> CHR 0x0A \<and> x \<noteq> CHR 0x0D" if "x \<in> set (print_perms pr)" for x
    using that by (auto simp: print_perms_def split: if_splits)
  moreover have "x \<noteq> CHR 0x0A \<and> x \<noteq> CHR 0x0D" if "x \<in> set (to_hex n)" for x n
    using to_hex_chars [OF that] not_hex by auto
  ultimately show ?thesis using c by (auto simp: pg print_page_def)
qed

lemma lines_print:
  "lines (concat (map (\<lambda>pg. print_page pg @ [CHR 0x0A]) pgs)) = map print_page pgs @ [[]]"
proof (induction pgs)
  case Nil
  show ?case by (simp add: lines_def strip_cr_def)
next
  case (Cons pg pgs)
  have "split_on (\<lambda>c. c = CHR 0x0A) (print_page pg) = [print_page pg]"
    using print_page_chars [of _ pg] by (intro split_on_no_sep) auto
  moreover have "strip_cr (print_page pg) = print_page pg"
    unfolding strip_cr_def using print_page_chars last_in_set by metis
  ultimately show ?case
    using Cons by (simp add: lines_def split_on_append)
qed

lemma same_page:
  assumes "q mod 4096 = 0" "a mod 4096 = 0" shows "q \<le> a \<and> a < q + 4096 \<longleftrightarrow> q = (a :: nat)"
proof -
  from assms obtain x y where "q = 4096 * x" "a = 4096 * y" by (metis mod_0_imp_dvd dvdE)
  then show ?thesis by auto
qed

lemma query_page_table:
  assumes "page mod 4096 = 0"
  shows "query_protection (page_table_kernel objs dlsym) page st = pt_prot st page"
proof -
  have "first_prot page (map print_page pgs @ [[]]) = (case map_of pgs page of Some pr \<Rightarrow> pr | None \<Rightarrow> 0)"
    if "\<forall>(q, pr) \<in> set pgs. q mod 4096 = 0 \<and> q + 4096 \<le> U64_MAX \<and> pr \<le> 7" for pgs
    using that
  proof (induction pgs)
    case Nil
    show ?case by (simp add: line_prot_def split_once_def)
  next
    case (Cons pg pgs)
    obtain q pr where pg: "pg = (q, pr)" by (cases pg)
    have q: "q mod 4096 = 0" "q + 4096 \<le> U64_MAX" "pr \<le> 7" using Cons.prems pg by auto
    have "q \<le> page \<and> page < q + 4096 \<longleftrightarrow> q = page" by (rule same_page [OF q(1) assms])
    then show ?case using Cons pg line_prot_print [OF q(2,3), of page] by auto
  qed
  then show ?thesis by (simp add: query_protection_def page_table_kernel_def lines_print pt_prot_def mapped_def)
qed

interpretation page_table: linux_kernel "page_table_kernel objs dlsym" pt_prot
proof (unfold_locales, goal_cases)
  case (1 page st)
  then show ?case by (intro query_page_table) (simp add: page_table_kernel_def unix_page_size_def)
next
  case (2 page v st st')
  then have "st' = (page, v) # st" "page \<in> fst ` set (mapped st)" "v \<le> 7"
    by (auto simp: page_table_kernel_def split: if_splits)
  moreover from this(2) have "page mod 4096 = 0 \<and> page + 4096 \<le> U64_MAX" by (auto simp: mapped_def)
  ultimately show ?case by (auto simp: pt_prot_def mapped_def fun_eq_iff)
next
  case (3 page n v st st')
  then show ?case by (auto simp: page_table_kernel_def split: if_splits)
qed

lemma unix_page_size_table [simp]: "unix_page_size (page_table_kernel objs dlsym) = 4096"
  by (simp add: page_table_kernel_def unix_page_size_def)

lemma pt_prot_mapped: "pt_prot st page \<noteq> 0 \<Longrightarrow> page \<in> fst ` set (mapped st)" "pt_prot st page \<le> 7"
proof -
  have "page \<in> fst ` set (mapped st) \<and> pr \<le> 7" if "map_of (mapped st) page = Some pr" for pr
    using map_of_SomeD [OF that] image_eqI [of page fst "(page, pr)" "set (mapped st)"]
    by (auto simp: mapped_def)
  then show "pt_prot st page \<noteq> 0 \<Longrightarrow> page \<in> fst ` set (mapped st)" "pt_prot st page \<le> 7"
    by (auto simp: pt_prot_def split: option.splits)
qed

lemma mprotect_mapped:
  assumes "k_mprotect (page_table_kernel objs dlsym) page n v st = (ok, st')"
  shows "fst ` set (mapped st') = fst ` set (mapped st)"
proof (cases ok)
  case True
  with assms have st': "st' = (page, v) # st" "page \<in> fst ` set (mapped st)"
    by (auto simp: page_table_kernel_def split: if_splits)
  have "set (mapped st') \<subseteq> insert (page, v) (set (mapped st))" "set (mapped st) \<subseteq> set (mapped st')"
    unfolding st'(1) mapped_def by auto
  from this [THEN image_mono, of fst] show ?thesis
    using st'(2) by (metis image_insert fst_conv insert_absorb subset_antisym)
next
  case False
  with assms show ?thesis by (auto simp: page_table_kernel_def split: if_splits)
qed

interpretation stable_table: stable_pages "unix_sys (page_table_kernel objs dlsym)" pt_prot writable_prot
  "\<lambda>st. fst ` set (mapped st)" "\<lambda>v. v \<le> 7"
proof (intro stable_pages.intro page_protection.intro stable_pages_axioms.intro, goal_cases)
  case (1 page st old st')
  then show ?case using page_table.unix_pages.make_ok [OF 1] pt_prot_mapped(2) [of st page] by auto
next
  case (2 page st err st')
  then show ?case by (rule page_table.unix_pages.make_err)
next
  case (3 page v st u st')
  from 3(1,3) show ?case by (rule page_table.unix_pages.restore_ok [OF _ TrueI])
next
  case (4 page v st err st')
  then show ?case by (rule page_table.unix_pages.restore_err)
next
  case (5 page st r st')
  then have "page mod 4096 = 0" by (simp add: unix_sys_def)
  then have q: "query_protection (page_table_kernel objs dlsym) page st = pt_prot st page" by (rule query_page_table)
  from 5 have "st' = st \<or> (\<exists>n v ok. k_mprotect (page_table_kernel objs dlsym) page n v st = (ok, st'))"
    by (auto simp: unix_sys_def unix_make_writable_def Let_def split: if_splits prod.splits)
  then have "fst ` set (mapped st') = fst ` set (mapped st)" using mprotect_mapped by blast
  moreover have "r = Inr old \<Longrightarrow> old = pt_prot st page \<and> old \<noteq> 0" for old
    using 5(2) by (auto simp: unix_sys_def unix_make_writable_def Let_def q split: if_splits prod.splits)
  ultimately show ?case using pt_prot_mapped [of st page] by blast
next
  case (6 page v st r st')
  then have "\<exists>n ok. k_mprotect (page_table_kernel objs dlsym) page n v st = (ok, st')"
    by (auto simp: unix_sys_def unix_restore_protection_def split: prod.splits if_splits)
  then show ?case using mprotect_mapped by blast
next
  case (7 page st v)
  then show ?case by (auto simp: unix_sys_def unix_restore_protection_def page_table_kernel_def unix_page_size_def)
qed

section \<open>Properties\<close>

text \<open>A process with one page mapped without write access at 4096, whose first cell holds 7, and a loaded object that
  imports \<^verbatim>\<open>open\<close> through that cell.\<close>

definition demo_phdr :: elf64_phdr where
  "demo_phdr = \<lparr>p_type = 1, p_flags = 5, p_offset = 0, p_vaddr = 0, p_paddr = 0, p_filesz = 4096,
     p_memsz = 4096, p_align = 4096\<rparr>"

definition demo_kernel :: "(nat \<times> nat) list kernel" where
  "demo_kernel = page_table_kernel [phdr_info 4096 [] [demo_phdr]] (\<lambda>_. 7)"

definition demo_process :: "(nat \<times> nat) list process" where
  "demo_process = \<lparr>mem = \<lambda>_. 7, os = [(4096, 5)]\<rparr>"

definition demo_slot :: import_slot where
  "demo_slot = \<lparr>is_module_base = 4096, is_library = ''libc.so.6'', is_symbol = Some (SymName ''open''),
     is_version = None, is_address = 4096, is_kind = Standard, is_authenticated = False\<rparr>"

lemma demo_query: "query_protection demo_kernel 4096 st = pt_prot st 4096"
  "query_protection demo_kernel 8192 st = pt_prot st 8192"
  by (simp_all add: demo_kernel_def query_page_table)

lemma demo_mprotect:
  "k_mprotect demo_kernel page 4096 pr st =
     (if page \<in> fst ` set (mapped st) \<and> pr \<le> 7 then (True, (page, pr) # st) else (False, st))"
  "unix_page_size demo_kernel = 4096" "page_size (unix_sys demo_kernel) = 4096" "k_errno demo_kernel st = 12"
  by (simp_all add: demo_kernel_def page_table_kernel_def unix_sys_def unix_page_size_def)

lemma demo_mapped: "mapped [(4096, 5)] = [(4096, 5)]" "mapped [(4096, 7), (4096, 5)] = [(4096, 7), (4096, 5)]"
  by (simp_all add: mapped_def U64_MAX_def)

lemma demo_slot_pages: "slot_pages 4096 [4096] = [4096]" "slot_pages 4096 [4096, 8192] = [4096, 8192]"
  by (simp_all add: slot_pages_def page_of_def span_pages.simps push_new_def PTR_SIZE_def sat_add_def U64_MAX_def)

lemma demo_protect:
  "make_writable (unix_sys demo_kernel) 4096 [(4096, 5)] = (Inr 5, [(4096, 7), (4096, 5)])"
  "make_writable (unix_sys demo_kernel) 8192 [(4096, 7), (4096, 5)] = (Inl (Protect 8192 12), [(4096, 7), (4096, 5)])"
  "restore_protection (unix_sys demo_kernel) 4096 5 [(4096, 7), (4096, 5)] = (Inr (), [(4096, 5), (4096, 7), (4096, 5)])"
proof -
  have "pt_prot [(4096, 5)] 4096 = 5" "pt_prot [(4096, 7), (4096, 5)] 8192 = 0"
    by (simp_all add: pt_prot_def demo_mapped)
  then have q: "query_protection demo_kernel 4096 [(4096, 5)] = 5"
    "query_protection demo_kernel 8192 [(4096, 7), (4096, 5)] = 0" by (simp_all add: demo_query)
  have w: "\<not> has_prot 5 PROT_WRITE" "add_prot (add_prot 5 PROT_WRITE) PROT_READ = 7"
    by (simp_all add: has_prot_def add_prot_def PROT_WRITE_def PROT_READ_def)
  show "make_writable (unix_sys demo_kernel) 4096 [(4096, 5)] = (Inr 5, [(4096, 7), (4096, 5)])"
    using q(1) w by (simp add: unix_sys_def unix_make_writable_def Let_def demo_mprotect demo_mapped)
  show "make_writable (unix_sys demo_kernel) 8192 [(4096, 7), (4096, 5)] =
      (Inl (Protect 8192 12), [(4096, 7), (4096, 5)])"
    using q(2) by (simp add: unix_sys_def unix_make_writable_def Let_def demo_mprotect)
  show "restore_protection (unix_sys demo_kernel) 4096 5 [(4096, 7), (4096, 5)] =
      (Inr (), [(4096, 5), (4096, 7), (4096, 5)])"
    by (simp add: unix_sys_def unix_restore_protection_def demo_mprotect demo_mapped)
qed

lemma demo_apply:
  "apply_patches (unix_sys demo_kernel) [(4096, 99)] demo_process =
     (Inr [7], \<lparr>mem = (\<lambda>_. 7)(4096 := 99), os = [(4096, 5), (4096, 7), (4096, 5)]\<rparr>)"
  using demo_protect
  by (simp add: apply_patches_def Let_def demo_process_def protector_make_writable_def demo_mprotect
      demo_slot_pages slot_swap_def protector_restore_def result_of_def)

context linux_kernel
begin

lemmas linux_apply_success = unix_pages.apply_success

end

lemma demo_linux_kernel: "linux_kernel demo_kernel pt_prot"
  unfolding demo_kernel_def by (rule page_table.linux_kernel_axioms)

text \<open>On every Linux kernel whose memory map shows the protections that \<open>mprotect\<close> sets, an
  install that succeeds writes each replacement into its cell, returns the values the cells held
  before, and leaves the protection of every page as it was, although pages were made writable in
  between.\<close>

theorem apply_keeps_protections:
  assumes "linux_kernel k prot" "distinct (map fst patches)"
    and "apply_patches (unix_sys k) patches p = (Inr priors, p')"
  shows "prot (os p') = prot (os p) \<and> priors = map (mem p) (map fst patches)
    \<and> mem p' = overwrite patches (mem p)"
  using linux_kernel.linux_apply_success [OF assms] by blast

theorem apply_keeps_protections_witness:
  "pt_prot (os (snd (apply_patches (unix_sys demo_kernel) [(4096, 99)] demo_process))) = pt_prot (os demo_process)"
  using apply_keeps_protections [OF demo_linux_kernel, of "[(4096, 99)]", OF _ demo_apply] demo_apply by simp


lemma demo_stable:
  "stable_pages (unix_sys demo_kernel) pt_prot writable_prot (\<lambda>st. fst ` set (mapped st)) (\<lambda>v. v \<le> 7)"
  unfolding demo_kernel_def by (rule stable_table.stable_pages_axioms)

lemma demo_apply_fails:
  "fst (apply_patches (unix_sys demo_kernel) [(4096, 99), (8192, 99)] demo_process) = Inl (Protect 8192 12)"
  using demo_protect
  by (simp add: apply_patches_def Let_def demo_process_def protector_make_writable_def demo_mprotect
      demo_slot_pages)


text \<open>C22. Uninstalling a guard puts back exactly the pointers it replaced: a hooked cell that still
  holds the replacement gets the value it had before the install, a cell that someone else
  has rewritten since is left alone, and no other cell changes; the guard is then inert.\<close>

theorem uninstall_restores_own_slots:
  assumes "plt_install sys mname base (Inr slots) rs p = (Inr g, p1)"
    and "guard_restore sys g p2 = (r, g', p3)" "module_still_loaded sys base (os p2)"
    and "protector_make_writable sys (map ih_slot (hg_hooks g)) (os p2) = (Inr dn, st)"
    and "\<forall>h \<in> set (hg_hooks g). slot_belongs_to_module sys (ih_slot h) base st"
  shows "(\<forall>a. mem p3 a = (if a \<in> ih_slot ` set (hg_hooks g) \<and> mem p2 a = mem p1 a then mem p a else mem p2 a))
    \<and> \<not> hg_active g'"
proof -
  note I = install_success [OF assms(1)]
  have "slot_belongs_to_module sys (ih_slot h) (hg_module_base g) st" if "h \<in> set (hg_hooks g)" for h
    using that assms(5) I(2) by simp
  note R = guard_restore_mem [OF I(1,3) assms(2) _ assms(4) this]
  have "mem p3 a = (if a \<in> ih_slot ` set (hg_hooks g) \<and> mem p2 a = mem p1 a then mem p a else mem p2 a)" for a
    using R(1,2) I(2,4) assms(3) by (cases "a \<in> ih_slot ` set (hg_hooks g)") auto
  then show ?thesis using R(3) I(2) assms(3) by simp
qed


definition demo_guard :: hook_guard where
  "demo_guard = \<lparr>hg_module_base = 4096, hg_hooks = [\<lparr>ih_library = ''libc.so.6'', ih_symbol = SymName ''open'',
     ih_slot = 4096, ih_original = 7, ih_prior_value = 7, ih_replacement = 99\<rparr>], hg_active = True\<rparr>"

definition demo_hooked :: "(nat \<times> nat) list process" where
  "demo_hooked = \<lparr>mem = (\<lambda>_. 7)(4096 := 99), os = [(4096, 5), (4096, 7), (4096, 5)]\<rparr>"

lemma demo_install:
  "plt_install (unix_sys demo_kernel) ''m'' 4096 (Inr [demo_slot]) [by_symbol ''open'' 99] demo_process =
     (Inr demo_guard, demo_hooked)"
proof -
  have "match_replacement demo_slot (by_symbol ''open'' 99) = Some (SymName ''open'')"
    by (simp add: match_replacement_def demo_slot_def by_symbol_def library_matches_def)
  moreover have "resolve_original (unix_sys demo_kernel) k l (SymName x) v st = (Some 7, st)" for k l x v st
    by (simp add: unix_sys_def demo_kernel_def page_table_kernel_def)
  ultimately show ?thesis
    by (simp add: plt_install_def demo_apply demo_slot_def by_symbol_def demo_guard_def demo_hooked_def)
qed

lemma demo_restore_state:
  "protector_make_writable (unix_sys demo_kernel) [4096] (os demo_hooked) =
     (Inr [(4096, 5)], (4096, 7) # os demo_hooked)"
  "module_still_loaded (unix_sys demo_kernel) 4096 st" "slot_belongs_to_module (unix_sys demo_kernel) 4096 4096 st"
proof -
  have m: "mapped [(4096, 5), (4096, 7), (4096, 5)] = [(4096, 5), (4096, 7), (4096, 5)]"
    by (simp add: mapped_def U64_MAX_def)
  then have "query_protection demo_kernel 4096 [(4096, 5), (4096, 7), (4096, 5)] = 5"
    by (simp add: demo_query pt_prot_def)
  moreover have w: "\<not> has_prot 5 PROT_WRITE" "add_prot (add_prot 5 PROT_WRITE) PROT_READ = 7"
    by (simp_all add: has_prot_def add_prot_def PROT_WRITE_def PROT_READ_def)
  ultimately have "make_writable (unix_sys demo_kernel) 4096 (os demo_hooked) = (Inr 5, (4096, 7) # os demo_hooked)"
    by (simp add: unix_sys_def unix_make_writable_def Let_def demo_mprotect m demo_hooked_def)
  then show "protector_make_writable (unix_sys demo_kernel) [4096] (os demo_hooked) =
      (Inr [(4096, 5)], (4096, 7) # os demo_hooked)"
    by (simp add: protector_make_writable_def demo_mprotect demo_slot_pages)
  show "module_still_loaded (unix_sys demo_kernel) 4096 st" "slot_belongs_to_module (unix_sys demo_kernel) 4096 4096 st"
    by (simp_all add: unix_sys_def unix_module_still_loaded_def unix_slot_belongs_def find_base_def
        demo_kernel_def page_table_kernel_def contains_address_def wrap_add_def object_of_phdr_info
        object_program_headers_phdr_info headers_of_def segment_of_def is_load_def PT_LOAD_def demo_phdr_def)
qed

theorem uninstall_restores_own_slots_witness:
  "mem demo_hooked 4096 = 99
   \<and> mem (snd (snd (guard_restore (unix_sys demo_kernel) demo_guard demo_hooked))) 4096 = mem demo_process 4096"
proof -
  let ?R = "guard_restore (unix_sys demo_kernel) demo_guard demo_hooked"
  have g: "guard_restore (unix_sys demo_kernel) demo_guard demo_hooked = (fst ?R, fst (snd ?R), snd (snd ?R))" by simp
  have h: "hg_hooks demo_guard = [\<lparr>ih_library = ''libc.so.6'', ih_symbol = SymName ''open'',
     ih_slot = 4096, ih_original = 7, ih_prior_value = 7, ih_replacement = 99\<rparr>]" by (simp add: demo_guard_def)
  have m: "protector_make_writable (unix_sys demo_kernel) (map ih_slot (hg_hooks demo_guard)) (os demo_hooked) =
      (Inr [(4096, 5)], (4096, 7) # os demo_hooked)" using demo_restore_state(1) by (simp add: h)
  have b: "\<forall>x \<in> set (hg_hooks demo_guard). slot_belongs_to_module (unix_sys demo_kernel) (ih_slot x) 4096
      ((4096, 7) # os demo_hooked)" using demo_restore_state(3) by (simp add: h)
  from uninstall_restores_own_slots [OF demo_install g demo_restore_state(2) m b] show ?thesis
    by (simp add: h demo_hooked_def)
qed

end
