(* ===== verification/Elf_Module.thy ===== *)
theory Elf_Module
  imports Sys_Unix
begin

text \<open>
  \<^verbatim>\<open>crates/plthook/src/module_elf.rs\<close>: a loaded ELF object, validated when it is acquired, and the
  view of its image in the memory of the running process.  \<open>memory\<close> gives the byte at an address;
  the dynamic loader is a record of operations.  What the parser may rely on is the locale
  \<open>bounded_view\<close>, which the live view satisfies.
\<close>

section \<open>Checked arithmetic on addresses\<close>

definition word_checked_sub :: "64 word \<Rightarrow> 64 word \<Rightarrow> 64 word option" where
  "word_checked_sub a b = (if b \<le> a then Some (a - b) else None)"

definition word_checked_add :: "64 word \<Rightarrow> 64 word \<Rightarrow> 64 word option" where
  "word_checked_add a b = (if a \<le> a + b then Some (a + b) else None)"

definition word_sat_add :: "64 word \<Rightarrow> 64 word \<Rightarrow> 64 word" where
  "word_sat_add a b = (if a \<le> a + b then a + b else - 1)"

lemma word_checked_add_Some: "word_checked_add a b = Some c \<longleftrightarrow> unat a + unat b = unat c"
proof -
  have "a \<le> a + b \<longleftrightarrow> unat a + unat b < 2 ^ 64" using no_olen_add_nat [of a b] by simp
  moreover have "unat (a + b) = unat a + unat b" if "unat a + unat b < 2 ^ 64"
    using that by (simp add: unat_word_ariths)
  moreover have "unat c < 2 ^ 64" using unsigned_less [where 'a = nat, of c] by simp
  ultimately show ?thesis
    unfolding word_checked_add_def by (auto simp: word_unat_eq_iff)
qed

lemma unat_word_sat_add: "unat (word_sat_add a b) = min (unat a + unat b) U64_MAX"
proof (cases "a \<le> a + b")
  case True
  then have "unat a + unat b < 2 ^ 64" using no_olen_add_nat [of a b] by simp
  then show ?thesis using True by (simp add: word_sat_add_def unat_word_ariths U64_MAX_def)
next
  case False
  then have "2 ^ 64 \<le> unat a + unat b" using no_olen_add_nat [of a b] by simp
  then show ?thesis using False by (simp add: word_sat_add_def unsigned_minus_1_eq_mask mask_eq_exp_minus_1 U64_MAX_def)
qed

lemma word_checked_sub_Some: "word_checked_sub a b = Some c \<longleftrightarrow> unat a = unat b + unat c"
proof -
  have "a = b + c" if "unat a = unat b + unat c"
  proof -
    have "unat (b + c) = unat a"
      using that unsigned_less [where 'a = nat, of a] by (simp add: unat_word_ariths)
    then show ?thesis by (simp add: word_unat_eq_iff)
  qed
  then show ?thesis
    by (auto simp: word_checked_sub_def word_le_nat_alt unat_sub_if_size)
qed

section \<open>Modules\<close>

record elf_module =
  em_base :: "64 word"
  em_loads :: "segment list"
  em_machine :: "16 word"
  em_dynamic_addr :: "64 word"
  em_span :: "64 word \<times> 64 word"
  em_path :: string

definition vaddr_in_load :: "segment list \<Rightarrow> 64 word \<Rightarrow> 64 word \<Rightarrow> bool" where
  "vaddr_in_load loads vaddr len =
     list_ex (\<lambda>seg.
       let end' = word_sat_add (sg_vaddr seg) (sg_memsz seg) in
       sg_vaddr seg \<le> vaddr \<and>
       (case word_checked_add vaddr len of None \<Rightarrow> False | Some hi \<Rightarrow> hi \<le> end')) loads"

definition read_live ::
  "(64 word \<Rightarrow> byte) \<Rightarrow> 64 word \<Rightarrow> segment list \<Rightarrow> 64 word \<Rightarrow> 64 word \<Rightarrow> byte list plt_result" where
  "read_live memory base loads cursor len =
     and_then (ok_or (Malformed ''address below load base'') (word_checked_sub cursor base)) (\<lambda>vaddr.
     if \<not> vaddr_in_load loads vaddr len then Inl (Malformed ''read outside loadable segments'')
     else Inr (map (\<lambda>i. memory (cursor + of_nat i)) [0 ..< unat len]))"

definition live_dynptr_cursor :: "elf_module \<Rightarrow> 64 word \<Rightarrow> 64 word plt_result" where
  "live_dynptr_cursor m d_ptr =
     and_then (ok_or (Malformed ''dynamic pointer below load base'') (word_checked_sub d_ptr (em_base m))) (\<lambda>vaddr.
     if \<not> vaddr_in_load (em_loads m) vaddr 1 then Inl (Malformed ''dynamic pointer outside loadable segments'')
     else Inr d_ptr)"

definition live_vaddr_cursor :: "elf_module \<Rightarrow> 64 word \<Rightarrow> 64 word plt_result" where
  "live_vaddr_cursor m vaddr =
     (if \<not> vaddr_in_load (em_loads m) vaddr 1 then Inl (Malformed ''version-table vaddr outside loadable segments'')
      else ok_or (Malformed ''version-table address overflow'') (word_checked_add (em_base m) vaddr))"

definition live_slot_address :: "elf_module \<Rightarrow> 64 word \<Rightarrow> 64 word plt_result" where
  "live_slot_address m r_offset =
     and_then (ok_or (Malformed ''slot address overflow'') (word_checked_add (em_base m) r_offset)) (\<lambda>addr.
     if \<not> vaddr_in_load (em_loads m) r_offset (of_nat PTR_SIZE)
     then Inl (Malformed ''relocation offset outside loadable segments'')
     else if addr mod 8 \<noteq> 0 then Inl (Malformed ''relocation slot is not pointer-aligned'')
     else Inr addr)"

definition live_view :: "(64 word \<Rightarrow> byte) \<Rightarrow> elf_module \<Rightarrow> elf_view" where
  "live_view memory m =
     \<lparr>ev_machine = em_machine m, ev_dynamic_cursor = em_dynamic_addr m,
      ev_dynptr_cursor = live_dynptr_cursor m, ev_vaddr_cursor = live_vaddr_cursor m,
      ev_read = read_live memory (em_base m) (em_loads m), ev_slot_address = live_slot_address m\<rparr>"

definition span_of :: "64 word \<Rightarrow> segment list \<Rightarrow> 64 word \<times> 64 word" where
  "span_of base loads =
     (case fold (\<lambda>seg (lo, hi).
              let start = base + sg_vaddr seg; end' = start + sg_memsz seg in (min lo start, max hi end'))
            loads (- 1, 0) of
        (lo, hi) \<Rightarrow> if lo = - 1 then (base, base) else (lo, hi))"

definition from_raw :: "(64 word \<Rightarrow> byte) \<Rightarrow> dl_object \<Rightarrow> elf_module plt_result" where
  "from_raw memory obj =
     and_then (parse_program_headers (ob_phdrs obj) (ob_phnum obj)) (\<lambda>ph.
     and_then (ok_or (Malformed ''object has no PT_DYNAMIC'') (ph_dynamic_vaddr ph)) (\<lambda>dyn_vaddr.
     let bias = of_nat (ob_base obj) in
     and_then (ok_or (Malformed ''ELF header address overflow'') (word_checked_add bias (ph_ehdr_vaddr ph))) (\<lambda>ehdr_addr.
     and_then (read_live memory bias (ph_loads ph) ehdr_addr 64) (\<lambda>ehdr.
     and_then (validate_ehdr ehdr) (\<lambda>machine.
     and_then (ok_or (Malformed ''dynamic table address overflow'') (word_checked_add bias dyn_vaddr)) (\<lambda>dynamic_addr.
       Inr \<lparr>em_base = bias, em_loads = ph_loads ph, em_machine = machine, em_dynamic_addr = dynamic_addr,
            em_span = span_of bias (ph_loads ph), em_path = ob_name obj\<rparr>))))))"

section \<open>Acquisition\<close>

text \<open>\<open>ld_dlinfo\<close> is the load bias in the object's link map, \<open>None\<close> where \<open>dlinfo\<close> fails.\<close>

record 'l loader =
  ld_infos :: "'l \<Rightarrow> dl_phdr_info list"
  ld_dlinfo :: "nat \<Rightarrow> 'l \<Rightarrow> 64 word option"
  ld_dlopen :: "string \<Rightarrow> 'l \<Rightarrow> nat \<times> 'l"
  ld_dlclose :: "nat \<Rightarrow> 'l \<Rightarrow> 'l"

definition from_base :: "'l loader \<Rightarrow> (64 word \<Rightarrow> byte) \<Rightarrow> nat \<Rightarrow> 'l \<Rightarrow> elf_module plt_result" where
  "from_base ld memory base l =
     and_then (ok_or (ModuleNotFound ''base'' 0) (find_base base (ld_infos ld l))) (from_raw memory)"

definition from_handle :: "'l loader \<Rightarrow> (64 word \<Rightarrow> byte) \<Rightarrow> nat \<Rightarrow> 'l \<Rightarrow> elf_module plt_result" where
  "from_handle ld memory handle l =
     (if handle = 0 then Inl (ModuleNotFound ''null handle'' 0)
      else
        and_then (ok_or (ModuleNotFound ''dlinfo handle'' 0) (ld_dlinfo ld handle l)) (\<lambda>base.
          from_base ld memory (unat base) l))"

definition from_address :: "'l loader \<Rightarrow> (64 word \<Rightarrow> byte) \<Rightarrow> nat \<Rightarrow> 'l \<Rightarrow> elf_module plt_result" where
  "from_address ld memory address l =
     and_then
       (ok_or (ModuleNotFound ''address'' 0)
         (for_each (\<lambda>obj. if contains_address obj address then Some obj else None) (ld_infos ld l)))
       (from_raw memory)"

definition module_from_name :: "'l loader \<Rightarrow> (64 word \<Rightarrow> byte) \<Rightarrow> string \<Rightarrow> 'l \<Rightarrow> elf_module plt_result \<times> 'l" where
  "module_from_name ld memory name l =
     (case ld_dlopen ld (takeWhile (\<lambda>c. c \<noteq> NUL) name) l of
        (handle, l') \<Rightarrow>
          if handle = 0 then (Inl (ModuleNotFound ''name'' 0), l')
          else (from_handle ld memory handle l', ld_dlclose ld handle l'))"

fun collect_modules :: "(64 word \<Rightarrow> byte) \<Rightarrow> dl_phdr_info list \<Rightarrow> elf_module list" where
  "collect_modules memory [] = []"
| "collect_modules memory (info # infos) =
     (case from_raw memory (object_of info) of
        Inr m \<Rightarrow> m # collect_modules memory infos
      | Inl _ \<Rightarrow> collect_modules memory infos)"

definition enumerate_modules :: "'l loader \<Rightarrow> (64 word \<Rightarrow> byte) \<Rightarrow> 'l \<Rightarrow> elf_module list plt_result" where
  "enumerate_modules ld memory l = Inr (collect_modules memory (ld_infos ld l))"

definition elf_module_name :: "elf_module \<Rightarrow> string" where
  "elf_module_name m = rev (takeWhile (\<lambda>c. c \<noteq> CHR ''/'') (rev (em_path m)))"

definition module_size :: "elf_module \<Rightarrow> nat" where
  "module_size m = unat (snd (em_span m)) - unat (fst (em_span m))"

definition module_imports :: "(64 word \<Rightarrow> byte) \<Rightarrow> elf_module \<Rightarrow> import_slot list plt_result" where
  "module_imports memory m =
     and_then (parse_imports (live_view memory m)) (\<lambda>raws.
       Inr (map (import_slot_from_raw (unat (em_base m))) raws))"

section \<open>Bounds of the live view\<close>

lemma vaddr_in_load_iff:
  "vaddr_in_load loads vaddr len \<longleftrightarrow>
     (\<exists>seg \<in> set loads. unat (sg_vaddr seg) \<le> unat vaddr \<and>
        unat vaddr + unat len \<le> unat (sg_vaddr seg) + unat (sg_memsz seg) \<and>
        unat vaddr + unat len \<le> U64_MAX)"
proof -
  have "(case word_checked_add vaddr len of None \<Rightarrow> False | Some hi \<Rightarrow> hi \<le> end') \<longleftrightarrow>
      unat vaddr + unat len \<le> unat end' \<and> unat vaddr + unat len \<le> U64_MAX" for end'
  proof (cases "word_checked_add vaddr len")
    case None
    then have "2 ^ 64 \<le> unat vaddr + unat len"
      using no_olen_add_nat [of vaddr len] by (simp add: word_checked_add_def split: if_splits)
    with None show ?thesis by (simp add: U64_MAX_def)
  next
    case (Some hi)
    then have "unat vaddr + unat len = unat hi" by (simp only: word_checked_add_Some)
    with Some show ?thesis
      using unsigned_less [where 'a = nat, of hi] by (auto simp: word_le_nat_alt U64_MAX_def)
  qed
  then show ?thesis
    by (auto simp: vaddr_in_load_def list_ex_iff Let_def word_le_nat_alt unat_word_sat_add)
qed

text \<open>The bytes of the image, and the cells that may be patched.\<close>

definition loaded :: "elf_module \<Rightarrow> 64 word \<Rightarrow> bool" where
  "loaded m a \<longleftrightarrow> vaddr_in_load (em_loads m) (a - em_base m) 1"

definition patchable :: "64 word \<Rightarrow> segment list \<Rightarrow> nat \<Rightarrow> bool" where
  "patchable base loads a \<longleftrightarrow>
     a mod PTR_SIZE = 0 \<and>
     (\<exists>seg \<in> set loads. unat base + unat (sg_vaddr seg) \<le> a \<and>
        a + PTR_SIZE \<le> unat base + unat (sg_vaddr seg) + unat (sg_memsz seg))"

interpretation live: bounded_view "live_view memory m" "\<lambda>a. patchable (em_base m) (em_loads m) (unat a)"
proof
  fix r a
  assume "ev_slot_address (live_view memory m) r = Inr a"
  then have a: "unat a = unat (em_base m) + unat r" and al: "a mod 8 = 0"
    and ld: "vaddr_in_load (em_loads m) r (of_nat PTR_SIZE)"
    by (auto simp: live_view_def live_slot_address_def word_checked_add_Some split: if_splits)
  have "unat (a mod 8) = unat a mod 8" by (simp add: unat_mod)
  with al have "unat a mod PTR_SIZE = 0" by (simp add: PTR_SIZE_def)
  with a ld show "patchable (em_base m) (em_loads m) (unat a)"
    by (auto simp: patchable_def vaddr_in_load_iff PTR_SIZE_def intro!: bexI)
qed

lemma read_live_cong:
  assumes "\<And>a. vaddr_in_load loads (a - base) 1 \<Longrightarrow> memory a = memory' a"
  shows "read_live memory base loads c n = read_live memory' base loads c n"
proof (cases "word_checked_sub c base")
  case (Some v)
  then have v: "v = c - base" by (auto simp: word_checked_sub_def split: if_splits)
  have "memory (c + of_nat i) = memory' (c + of_nat i)"
    if ld: "vaddr_in_load loads v n" and i: "i < unat n" for i
  proof -
    from ld obtain seg where seg: "seg \<in> set loads" "unat (sg_vaddr seg) \<le> unat v"
      "unat v + unat n \<le> unat (sg_vaddr seg) + unat (sg_memsz seg)" "unat v + unat n \<le> U64_MAX"
      by (auto simp: vaddr_in_load_iff)
    have "unat (of_nat i :: 64 word) = i"
      using i unsigned_less [where 'a = nat, of n] by (simp add: unat_of_nat)
    then have u: "unat (v + of_nat i) = unat v + i"
      using seg(4) i by (simp add: U64_MAX_def unat_word_ariths)
    have "vaddr_in_load loads (v + of_nat i) 1"
      unfolding vaddr_in_load_iff u using seg i by (intro bexI [of _ seg]) auto
    then show ?thesis by (intro assms) (simp add: v algebra_simps)
  qed
  then show ?thesis using Some by (auto simp: read_live_def)
qed (simp add: read_live_def)

end
