(* ===== verification/Elf_Image.thy ===== *)
theory Elf_Image
  imports Elf_Module
begin

unbundle bit_operations_syntax

text \<open>
  Functional correctness of the ELF parser against the file format.  \<open>holds view c bs\<close> says that the
  image has the bytes \<open>bs\<close> at the cursor \<open>c\<close>; for each table of the format an encoder gives the bytes,
  and the parser is proved to return what was encoded.
\<close>

section \<open>Bytes of an image\<close>

definition holds :: "elf_view \<Rightarrow> 64 word \<Rightarrow> byte list \<Rightarrow> bool" where
  "holds view c bs \<longleftrightarrow>
     (\<forall>i n. i + unat n \<le> length bs \<longrightarrow> ev_read view (c + of_nat i) n = Inr (take (unat n) (drop i bs)))"

lemma holdsD: "holds view c bs \<Longrightarrow> i + unat n \<le> length bs \<Longrightarrow>
    ev_read view (c + of_nat i) n = Inr (take (unat n) (drop i bs))"
  by (simp add: holds_def)

lemma holds_append:
  assumes "holds view c (xs @ ys)"
  shows "holds view c xs" "holds view (c + of_nat (length xs)) ys"
proof -
  show "holds view c xs" unfolding holds_def
  proof (intro allI impI)
    fix i n assume "i + unat (n :: 64 word) \<le> length xs"
    then show "ev_read view (c + of_nat i) n = Inr (take (unat n) (drop i xs))"
      using holdsD [OF assms, of i n] by simp
  qed
  show "holds view (c + of_nat (length xs)) ys" unfolding holds_def
  proof (intro allI impI)
    fix i n assume "i + unat (n :: 64 word) \<le> length ys"
    then show "ev_read view (c + of_nat (length xs) + of_nat i) n = Inr (take (unat n) (drop i ys))"
      using holdsD [OF assms, of "length xs + i" n] by (simp add: add.assoc)
  qed
qed

lemma read_int_holds:
  "holds view c (le_bytes (w16 :: 16 word) @ ys) \<Longrightarrow> read_u16 view c = Inr w16"
  "holds view c (le_bytes (w32 :: 32 word) @ ys) \<Longrightarrow> read_u32 view c = Inr w32"
  "holds view c (le_bytes (w64 :: 64 word) @ ys) \<Longrightarrow> read_u64 view c = Inr w64"
  "holds view c (le_bytes (w64 :: 64 word) @ ys) \<Longrightarrow> read_i64 view c = Inr (sint w64)"
  by (drule holdsD [where i = 0 and n = 2] holdsD [where i = 0 and n = 4] holdsD [where i = 0 and n = 8],
      simp, simp add: read_u16_def read_u32_def read_u64_def read_i64_def)+

lemma read_int_at:
  assumes "holds view c bs"
  shows "drop i bs = le_bytes (w16 :: 16 word) @ zs \<Longrightarrow> read_u16 view (c + of_nat i) = Inr w16"
    "drop i bs = le_bytes (w32 :: 32 word) @ zs \<Longrightarrow> read_u32 view (c + of_nat i) = Inr w32"
    "drop i bs = le_bytes (w64 :: 64 word) @ zs \<Longrightarrow> read_u64 view (c + of_nat i) = Inr w64"
    "drop i bs = le_bytes (w64 :: 64 word) @ zs \<Longrightarrow> read_i64 view (c + of_nat i) = Inr (sint w64)"
proof -
  have "holds view (c + of_nat i) (drop i bs)" if "drop i bs \<noteq> []"
    using holds_append(2) [of view c "take i bs" "drop i bs"] assms that by simp
  moreover have "le_bytes (w16 :: 16 word) \<noteq> []" "le_bytes (w32 :: 32 word) \<noteq> []" "le_bytes (w64 :: 64 word) \<noteq> []"
    for w16 w32 w64 by (simp_all flip: length_greater_0_conv)
  ultimately have "holds view (c + of_nat i) (drop i bs)"
    if "drop i bs = le_bytes (w16 :: 16 word) @ zs \<or> drop i bs = le_bytes (w32 :: 32 word) @ zs
        \<or> drop i bs = le_bytes (w64 :: 64 word) @ zs" using that by fastforce
  then show "drop i bs = le_bytes (w16 :: 16 word) @ zs \<Longrightarrow> read_u16 view (c + of_nat i) = Inr w16"
    "drop i bs = le_bytes (w32 :: 32 word) @ zs \<Longrightarrow> read_u32 view (c + of_nat i) = Inr w32"
    "drop i bs = le_bytes (w64 :: 64 word) @ zs \<Longrightarrow> read_u64 view (c + of_nat i) = Inr w64"
    "drop i bs = le_bytes (w64 :: 64 word) @ zs \<Longrightarrow> read_i64 view (c + of_nat i) = Inr (sint w64)"
    by (auto intro: read_int_holds)
qed

section \<open>The dynamic table\<close>

definition dyn_bytes :: "64 word \<times> 64 word \<Rightarrow> byte list" where
  "dyn_bytes e = le_bytes (fst e) @ le_bytes (snd e)"

definition dynamic_of :: "(64 word \<times> 64 word) list \<Rightarrow> dynamic_info" where
  "dynamic_of es = fold (\<lambda>(t, v). set_tag (sint t) v) es no_dynamic_info"

lemma read_dynamic_loop_table:
  assumes "holds view c (concat (map dyn_bytes es) @ le_bytes (0 :: 64 word))"
    and "\<forall>e \<in> set es. fst e \<noteq> 0" and "length es < n"
  shows "read_dynamic_loop view n c info = Inr (fold (\<lambda>(t, v). set_tag (sint t) v) es info)"
  using assms
proof (induction es arbitrary: n c info)
  case Nil
  then obtain k where "n = Suc k" by (cases n) auto
  moreover have "read_i64 view c = Inr 0"
    using read_int_holds(4) [of view c 0 "[]"] Nil.prems(1) by simp
  ultimately show ?case by (simp add: DT_NULL_def)
next
  case (Cons e es)
  then obtain k where n: "n = Suc k" by (cases n) auto
  let ?rest = "concat (map dyn_bytes es) @ le_bytes (0 :: 64 word)"
  have h: "holds view c (le_bytes (fst e) @ le_bytes (snd e) @ ?rest)"
    using Cons.prems(1) by (simp add: dyn_bytes_def [of e])
  have "holds view (c + 8) (le_bytes (snd e) @ ?rest)"
    using holds_append(2) [OF h] by simp
  moreover have "holds view (c + 16) ?rest"
    using holds_append(2) [of view c "le_bytes (fst e) @ le_bytes (snd e)" ?rest] h by simp
  moreover have "sint (fst e) \<noteq> 0" using Cons.prems(2) signed_word_eqI [of "fst e" 0] by auto
  ultimately show ?case
    using Cons read_int_holds(4) [OF h] n
    by (simp add: read_int_holds(3) DT_NULL_def DYN_SIZE_def case_prod_beta)
qed

lemma read_dynamic_table:
  assumes "holds view (ev_dynamic_cursor view) (concat (map dyn_bytes es) @ le_bytes (0 :: 64 word))"
    and "\<forall>e \<in> set es. fst e \<noteq> 0" and "length es < MAX_DYN"
  shows "read_dynamic view = Inr (dynamic_of es)"
  unfolding read_dynamic_def dynamic_of_def by (rule read_dynamic_loop_table [OF assms])

section \<open>The string table\<close>

definition chars_of :: "byte list \<Rightarrow> string" where
  "chars_of bs = map (\<lambda>b. char_of (unat b)) bs"

text \<open>The C string at an offset of the table, \<open>None\<close> where the offset is outside or no terminator
  follows.\<close>

definition str_at :: "byte list \<Rightarrow> nat \<Rightarrow> byte list option" where
  "str_at tab off =
     (if off < length tab \<and> 0 \<in> set (drop off tab) then Some (takeWhile (\<lambda>b. b \<noteq> 0) (drop off tab)) else None)"

lemma read_str_loop_holds:
  assumes "holds view c bs" and "n \<le> length bs"
  shows "read_str_loop view n c acc =
    (if 0 \<in> set (take n bs) then Inr (from_utf8_lossy (acc @ chars_of (takeWhile (\<lambda>b. b \<noteq> 0) bs)))
     else Inl (Malformed ''unterminated string-table entry''))"
  using assms
proof (induction n arbitrary: c bs acc)
  case (Suc n)
  then obtain b bs' where bs: "bs = b # bs'" by (cases bs) auto
  have r: "ev_read view c 1 = Inr [b]" using holdsD [OF Suc.prems(1), of 0 1] bs by simp
  have "holds view (c + 1) bs'" using holds_append(2) [of view c "[b]" bs'] Suc.prems(1) bs by simp
  with Suc.IH [of "c + 1" bs' "acc @ [char_of (unat b)]"] Suc.prems(2) bs
  show ?case by (auto simp: r chars_of_def)
qed simp

lemma takeWhile_in_take:
  "x \<in> set (take n xs) \<longleftrightarrow> x \<in> set xs \<and> length (takeWhile (\<lambda>y. y \<noteq> x) xs) < n"
proof (induction xs arbitrary: n)
  case (Cons a xs)
  then show ?case by (cases n) auto
qed simp

lemma unat_ucast_32 [simp]: "unat (ucast (w :: 32 word) :: 64 word) = unat w"
  using unsigned_less [where 'a = nat, of w] by (simp add: unsigned_ucast_eq take_bit_nat_eq_self)

text \<open>Reading a name returns exactly the string of the table, if it has at most \<open>MAX_NAME_LEN\<close>
  bytes.\<close>

lemma read_str_table:
  assumes "holds view strtab tab" and "unat strsz = length tab"
  shows "read_str view strtab strsz off =
    (if length tab \<le> unat off then Inl (Malformed ''string-table offset past DT_STRSZ'')
     else
       (case str_at tab (unat off) of
          Some s \<Rightarrow> if length s \<le> MAX_NAME_LEN then Inr (from_utf8_lossy (chars_of s))
                    else Inl (Malformed ''unterminated string-table entry'')
        | None \<Rightarrow> Inl (Malformed ''unterminated string-table entry'')))"
proof (cases "length tab \<le> unat off")
  case True
  then show ?thesis using assms(2) by (simp add: read_str_def Let_def word_le_nat_alt)
next
  case False
  have u: "unat (ucast off :: 64 word) = unat off" by simp
  let ?bs = "drop (unat off) tab"
  have lt: "\<not> strsz \<le> (ucast off :: 64 word)" using False assms(2) u by (simp add: word_le_nat_alt)
  then have sub: "unat (strsz - ucast off) = length ?bs"
    using assms(2) u by (simp add: word_le_nat_alt unat_sub)
  have "holds view (strtab + of_nat (unat off)) ?bs"
    using holds_append(2) [of view strtab "take (unat off) tab" ?bs] assms(1) False by simp
  then have h: "holds view (strtab + ucast off) ?bs" by simp
  have tw: "0 \<in> set ?bs \<Longrightarrow> length (takeWhile (\<lambda>b. b \<noteq> 0) ?bs) < length tab - unat off"
    using takeWhile_in_take [of 0 "length ?bs" ?bs] by simp
  from read_str_loop_holds [OF h, of "min (length ?bs) (MAX_NAME_LEN + 1)" "[]"]
  show ?thesis using False lt sub tw
    by (auto simp: read_str_def Let_def str_at_def takeWhile_in_take min_def split: if_splits)
qed

section \<open>Symbols, versions and relocations\<close>

record elf64_rela =
  r_offset :: "64 word"
  r_type :: "32 word"
  r_sym :: "32 word"
  r_addend :: "64 word"

definition r_info :: "elf64_rela \<Rightarrow> 64 word" where
  "r_info r = push_bit 32 (ucast (r_sym r)) OR ucast (r_type r)"

definition rela_bytes :: "elf64_rela \<Rightarrow> byte list" where
  "rela_bytes r = le_bytes (r_offset r) @ le_bytes (r_info r) @ le_bytes (r_addend r)"

text \<open>A symbol is its \<open>st_name\<close> and the other 20 bytes.\<close>

definition sym_bytes :: "32 word \<times> byte list \<Rightarrow> byte list" where
  "sym_bytes s = le_bytes (fst s) @ snd s"

record elf_tables =
  et_syms :: "(32 word \<times> byte list) list"
  et_strs :: "byte list"
  et_versym :: "16 word list option"

text \<open>The image has these tables where \<open>tb\<close> says.\<close>

definition tables_at :: "elf_view \<Rightarrow> symbol_tables \<Rightarrow> elf_tables \<Rightarrow> bool" where
  "tables_at view tb et \<longleftrightarrow>
     holds view (tb_symtab tb) (concat (map sym_bytes (et_syms et))) \<and>
     list_all (\<lambda>s. length (snd s) = 20) (et_syms et) \<and>
     holds view (tb_strtab tb) (et_strs et) \<and> unat (tb_strsz tb) = length (et_strs et) \<and>
     (case et_versym et of
        None \<Rightarrow> tb_versym tb = None
      | Some vs \<Rightarrow> length vs = length (et_syms et) \<and>
          (\<exists>c. tb_versym tb = Some c \<and> holds view c (concat (map le_bytes vs))))"

definition elf_sym_name :: "elf_tables \<Rightarrow> 32 word \<Rightarrow> byte list option" where
  "elf_sym_name et i = str_at (et_strs et) (unat (fst (et_syms et ! unat i)))"

definition sym_version :: "elf_tables \<Rightarrow> version_map \<Rightarrow> 32 word \<Rightarrow> string option \<times> string" where
  "sym_version et versions i =
     (case et_versym et of
        None \<Rightarrow> (None, [])
      | Some vs \<Rightarrow>
          (let index = vs ! unat i AND VERSYM_VERSION_MASK in
           if index \<le> VER_NDX_GLOBAL then (None, [])
           else (case map_of versions index of Some (v, lib) \<Rightarrow> (Some v, lib) | None \<Rightarrow> (None, []))))"

text \<open>A relocation of the wanted type against a named symbol is an import; its slot is where the view
  places it.\<close>

definition is_import :: "elf_tables \<Rightarrow> 32 word \<Rightarrow> elf64_rela \<Rightarrow> bool" where
  "is_import et want r \<longleftrightarrow> r_type r = want \<and> fst (et_syms et ! unat (r_sym r)) \<noteq> 0"

definition import_of :: "elf_tables \<Rightarrow> version_map \<Rightarrow> (64 word \<Rightarrow> 64 word) \<Rightarrow> elf64_rela \<Rightarrow> raw_import" where
  "import_of et versions slot r =
     \<lparr>ri_library = snd (sym_version et versions (r_sym r)),
      ri_symbol = Some (SymName (from_utf8_lossy (chars_of (the (elf_sym_name et (r_sym r)))))),
      ri_version = fst (sym_version et versions (r_sym r)),
      ri_slot = unat (slot (r_offset r)), ri_kind = Standard, ri_authenticated = False\<rparr>"

definition rela_ok :: "elf_view \<Rightarrow> elf_tables \<Rightarrow> 32 word \<Rightarrow> (64 word \<Rightarrow> 64 word) \<Rightarrow> elf64_rela \<Rightarrow> bool" where
  "rela_ok view et want slot r \<longleftrightarrow>
     (r_type r = want \<longrightarrow> unat (r_sym r) < length (et_syms et)) \<and>
     (is_import et want r \<longrightarrow>
        (\<exists>s. elf_sym_name et (r_sym r) = Some s \<and> length s \<le> MAX_NAME_LEN) \<and>
        ev_slot_address view (r_offset r) = Inr (slot (r_offset r)))"

lemma r_info_fields [simp]:
  "(ucast (r_info r AND 0xffffffff) :: 32 word) = r_type r"
  "(ucast (drop_bit 32 (r_info r)) :: 32 word) = r_sym r"
proof -
  have low: "(0xffffffff :: 64 word) = Bit_Operations.mask 32" by (simp add: mask_eq_exp_minus_1)
  show "(ucast (r_info r AND 0xffffffff) :: 32 word) = r_type r"
    unfolding low by (intro bit_word_eqI) (auto simp: r_info_def bit_simps)
  show "(ucast (drop_bit 32 (r_info r)) :: 32 word) = r_sym r"
    by (intro bit_word_eqI) (auto simp: r_info_def bit_simps dest: bit_imp_le_length)
qed

text \<open>Entry \<open>i\<close> of a table with records of equal size.\<close>

lemma drop_concat_records:
  assumes "\<forall>x \<in> set xs. length (f x) = n" and "i < length xs"
  shows "drop (i * n) (concat (map f xs)) = f (xs ! i) @ concat (map f (drop (Suc i) xs))"
  using assms
proof (induction xs arbitrary: i)
  case (Cons x xs)
  then show ?case by (cases i) auto
qed simp

lemma read_symbol:
  assumes "tables_at view tb et" and "unat i < length (et_syms et)"
  shows "read_u32 view (tb_symtab tb + ucast i * SYM_SIZE) = Inr (fst (et_syms et ! unat i))"
proof -
  have "\<forall>s \<in> set (et_syms et). length (sym_bytes s) = 24"
    using assms(1) by (auto simp: tables_at_def list_all_iff sym_bytes_def)
  from drop_concat_records [OF this assms(2)]
  have "drop (unat i * 24) (concat (map sym_bytes (et_syms et))) =
      le_bytes (fst (et_syms et ! unat i)) @ snd (et_syms et ! unat i) @
        concat (map sym_bytes (drop (Suc (unat i)) (et_syms et)))" by (simp add: sym_bytes_def [of "et_syms et ! unat i"])
  moreover have "holds view (tb_symtab tb) (concat (map sym_bytes (et_syms et)))"
    using assms(1) by (simp add: tables_at_def)
  ultimately show ?thesis
    using read_int_at(2) [of view "tb_symtab tb" "concat (map sym_bytes (et_syms et))" "unat i * 24"]
    by (simp add: SYM_SIZE_def)
qed

lemma version_of_table:
  assumes "tables_at view tb et" and "unat i < length (et_syms et)"
  shows "version_of view versions (tb_versym tb) i = Inr (sym_version et versions i)"
proof (cases "et_versym et")
  case None
  then show ?thesis using assms(1) by (simp add: tables_at_def version_of_def sym_version_def)
next
  case (Some vs)
  then obtain c where c: "tb_versym tb = Some c" "holds view c (concat (map le_bytes vs))"
    and i: "unat i < length vs" using assms by (auto simp: tables_at_def)
  have "drop (unat i * 2) (concat (map le_bytes vs)) = le_bytes (vs ! unat i) @ concat (map le_bytes (drop (Suc (unat i)) vs))"
    using drop_concat_records [of vs le_bytes 2 "unat i"] i by simp
  then have "read_u16 view (c + ucast i * 2) = Inr (vs ! unat i)"
    using read_int_at(1) [OF c(2), of "unat i * 2"] by simp
  then show ?thesis
    using Some c(1) by (auto simp: version_of_def sym_version_def Let_def split: option.splits)
qed

lemma rela_entry_table:
  assumes "tables_at view tb et" and h: "holds view table (concat (map rela_bytes rs))"
    and i: "i < length rs" and ok: "rela_ok view et want slot (rs ! i)"
  shows "rela_entry view tb table RELA_SIZE want i out =
    Inr (if is_import et want (rs ! i) then out @ [import_of et (tb_versions tb) slot (rs ! i)] else out)"
proof -
  let ?r = "rs ! i" and ?all = "concat (map rela_bytes rs)" and ?rest = "concat (map rela_bytes (drop (Suc i) rs))"
  have d: "drop (i * 24) ?all = le_bytes (r_offset ?r) @ le_bytes (r_info ?r) @ le_bytes (r_addend ?r) @ ?rest"
    using drop_concat_records [of rs rela_bytes 24 i] i by (simp add: rela_bytes_def [of ?r]) (simp add: rela_bytes_def)
  have "drop (i * 24 + 8) ?all = drop 8 (drop (i * 24) ?all)" by (simp add: add.commute)
  with d have d8: "drop (i * 24 + 8) ?all = le_bytes (r_info ?r) @ le_bytes (r_addend ?r) @ ?rest" by simp
  have reads: "read_u64 view (table + of_nat i * RELA_SIZE) = Inr (r_offset ?r)"
    "read_u64 view (table + of_nat i * RELA_SIZE + 8) = Inr (r_info ?r)"
    using read_int_at(3) [OF h d] read_int_at(3) [OF h d8] by (simp_all add: RELA_SIZE_def algebra_simps)
  show ?thesis
  proof (cases "is_import et want ?r")
    case False
    then show ?thesis
      using ok reads read_symbol [OF assms(1), of "r_sym ?r"]
      by (auto simp: rela_entry_def Let_def is_import_def rela_ok_def)
  next
    case True
    then have t: "r_type ?r = want" "fst (et_syms et ! unat (r_sym ?r)) \<noteq> 0" by (simp_all add: is_import_def)
    from ok True obtain nm where ix: "unat (r_sym ?r) < length (et_syms et)"
      and nm: "elf_sym_name et (r_sym ?r) = Some nm" "length nm \<le> MAX_NAME_LEN"
      and sl: "ev_slot_address view (r_offset ?r) = Inr (slot (r_offset ?r))"
      by (auto simp: rela_ok_def t)
    have "read_str view (tb_strtab tb) (tb_strsz tb) (fst (et_syms et ! unat (r_sym ?r))) =
        Inr (from_utf8_lossy (chars_of nm))"
      using read_str_table [of view "tb_strtab tb" "et_strs et" "tb_strsz tb" "fst (et_syms et ! unat (r_sym ?r))"]
        assms(1) nm by (auto simp: tables_at_def elf_sym_name_def str_at_def split: if_splits)
    with True reads read_symbol [OF assms(1) ix] version_of_table [OF assms(1) ix] sl t nm
    show ?thesis by (simp add: rela_entry_def Let_def import_of_def case_prod_beta)
  qed
qed

lemma walk_rela_table:
  assumes "tables_at view tb et" and "holds view table (concat (map rela_bytes rs))"
    and "\<forall>r \<in> set rs. rela_ok view et want slot r"
    and "unat sz = 24 * length rs" and "length rs \<le> 0x1000000"
  shows "walk_rela view tb table sz RELA_SIZE want out =
    Inr (out @ map (import_of et (tb_versions tb) slot) (filter (is_import et want) rs))"
proof -
  have "try_fold (rela_entry view tb table RELA_SIZE want) [0 ..< k] out =
      Inr (out @ map (import_of et (tb_versions tb) slot) (filter (is_import et want) (take k rs)))"
    if "k \<le> length rs" for k
    using that
  proof (induction k)
    case (Suc k)
    then show ?case
      using rela_entry_table [OF assms(1,2), of k want slot] assms(3)
      by (simp add: try_fold_snoc take_Suc_conv_app_nth)
  qed simp
  moreover have "unat (sz div RELA_SIZE) = length rs" using assms(4) by (simp add: RELA_SIZE_def unat_div)
  ultimately show ?thesis
    using assms(5) by (simp add: walk_rela_def Let_def word_less_nat_alt MAX_RELOCS_def RELA_SIZE_def)
qed

section \<open>The version tables\<close>

text \<open>A chain of \<open>Elf64_Vernaux\<close> records, each with its version index and the offset of its name; each
  record gives the distance to the next, and the last one 0.  The chain of \<open>Elf64_Verneed\<close> records
  is built the same way over the library's name and its own chain.\<close>

definition vernaux_bytes :: "32 word \<Rightarrow> 16 word \<Rightarrow> 16 word \<Rightarrow> 32 word \<Rightarrow> 32 word \<Rightarrow> byte list" where
  "vernaux_bytes hash flags other name next =
     le_bytes hash @ le_bytes flags @ le_bytes other @ le_bytes name @ le_bytes next"

definition verneed_bytes :: "16 word \<Rightarrow> 16 word \<Rightarrow> 32 word \<Rightarrow> 32 word \<Rightarrow> 32 word \<Rightarrow> byte list" where
  "verneed_bytes version cnt file aux next =
     le_bytes version @ le_bytes cnt @ le_bytes file @ le_bytes aux @ le_bytes next"

fun vernaux_at :: "elf_view \<Rightarrow> 64 word \<Rightarrow> (16 word \<times> 32 word) list \<Rightarrow> bool" where
  "vernaux_at view c [] = True"
| "vernaux_at view c (a # as) \<longleftrightarrow>
     (\<exists>hash flags next. holds view c (vernaux_bytes hash flags (fst a) (snd a) next) \<and>
        (next = 0 \<longleftrightarrow> as = []) \<and> vernaux_at view (c + ucast next) as)"

fun verneed_at :: "elf_view \<Rightarrow> 64 word \<Rightarrow> (32 word \<times> (16 word \<times> 32 word) list) list \<Rightarrow> bool" where
  "verneed_at view c [] = True"
| "verneed_at view c (nd # nds) \<longleftrightarrow>
     (\<exists>version aux next.
        holds view c (verneed_bytes version (of_nat (length (snd nd))) (fst nd) aux next) \<and>
        length (snd nd) \<le> MAX_VERNAUX \<and> vernaux_at view (c + ucast aux) (snd nd) \<and>
        (next = 0 \<longleftrightarrow> nds = []) \<and> verneed_at view (c + ucast next) nds)"

definition name_at :: "byte list \<Rightarrow> 32 word \<Rightarrow> string" where
  "name_at tab off = from_utf8_lossy (chars_of (the (str_at tab (unat off))))"

definition name_ok :: "byte list \<Rightarrow> 32 word \<Rightarrow> bool" where
  "name_ok tab off \<longleftrightarrow> (\<exists>s. str_at tab (unat off) = Some s \<and> length s \<le> MAX_NAME_LEN)"

definition add_versions :: "byte list \<Rightarrow> 32 word \<times> (16 word \<times> 32 word) list \<Rightarrow> version_map \<Rightarrow> version_map" where
  "add_versions tab nd =
     fold (\<lambda>a. AList.update (fst a AND VERSYM_VERSION_MASK) (name_at tab (snd a), name_at tab (fst nd))) (snd nd)"

lemma read_str_name:
  assumes "holds view strtab tab" "unat strsz = length tab" "name_ok tab off"
  shows "read_str view strtab strsz off = Inr (name_at tab off)"
  using read_str_table [OF assms(1,2), of off] assms(3)
  by (auto simp: name_ok_def name_at_def str_at_def split: if_splits)

lemma vernaux_reads:
  assumes "holds view c (vernaux_bytes hash flags other name next)"
  shows "read_u16 view (c + 6) = Inr other" "read_u32 view (c + 8) = Inr name" "read_u32 view (c + 12) = Inr next"
  using read_int_at(1) [OF assms, of 6 other] read_int_at(2) [OF assms, of 8 name] read_int_at(2) [OF assms, of 12 "next"]
  by (simp_all add: vernaux_bytes_def)

lemma verneed_reads:
  assumes "holds view c (verneed_bytes version cnt file aux next)"
  shows "read_u16 view (c + 2) = Inr cnt" "read_u32 view (c + 4) = Inr file" "read_u32 view (c + 8) = Inr aux"
    "read_u32 view (c + 12) = Inr next"
  using read_int_at(1) [OF assms, of 2 cnt] read_int_at(2) [OF assms, of 4 "file"] read_int_at(2) [OF assms, of 8 aux]
    read_int_at(2) [OF assms, of 12 "next"]
  by (simp_all add: verneed_bytes_def)

lemma read_vernaux_table:
  assumes "holds view strtab tab" "unat strsz = length tab"
    and "vernaux_at view c as" "\<forall>a \<in> set as. name_ok tab (snd a)"
  shows "read_vernaux view strtab strsz soname (length as) c m =
    Inr (fold (\<lambda>a. AList.update (fst a AND VERSYM_VERSION_MASK) (name_at tab (snd a), soname)) as m)"
  using assms(3,4)
proof (induction as arbitrary: c m)
  case (Cons a as)
  then obtain hash flags nxt where h: "holds view c (vernaux_bytes hash flags (fst a) (snd a) nxt)"
    and nxt: "nxt = 0 \<longleftrightarrow> as = []" "vernaux_at view (c + ucast nxt) as" by auto
  have "read_str view strtab strsz (snd a) = Inr (name_at tab (snd a))"
    using read_str_name [OF assms(1,2)] Cons.prems(2) by simp
  with vernaux_reads [OF h] nxt Cons show ?case by (simp add: Let_def)
qed simp

lemma read_verneed_table:
  assumes "holds view strtab tab" "unat strsz = length tab"
    and "verneed_at view c nds" "\<forall>nd \<in> set nds. name_ok tab (fst nd) \<and> (\<forall>a \<in> set (snd nd). name_ok tab (snd a))"
    and "nds \<noteq> []" "length nds \<le> n"
  shows "read_verneed view strtab strsz n c m = Inr (fold (add_versions tab) nds m)"
  using assms(3-6)
proof (induction nds arbitrary: c m n)
  case (Cons nd nds)
  then obtain version aux nxt k where
    h: "holds view c (verneed_bytes version (of_nat (length (snd nd))) (fst nd) aux nxt)"
    and ax: "length (snd nd) \<le> MAX_VERNAUX" "vernaux_at view (c + ucast aux) (snd nd)"
    and nxt: "nxt = 0 \<longleftrightarrow> nds = []" "verneed_at view (c + ucast nxt) nds" and n: "n = Suc k"
    by (cases n) auto
  have "read_str view strtab strsz (fst nd) = Inr (name_at tab (fst nd))"
    using read_str_name [OF assms(1,2)] Cons.prems(2) by simp
  moreover have "min (unat (of_nat (length (snd nd)) :: 16 word)) MAX_VERNAUX = length (snd nd)"
    using ax(1) by (simp add: MAX_VERNAUX_def unat_of_nat)
  moreover have "read_vernaux view strtab strsz (name_at tab (fst nd)) (length (snd nd)) (c + ucast aux) m =
      Inr (add_versions tab nd m)"
    using read_vernaux_table [OF assms(1,2) ax(2)] Cons.prems(2) by (simp add: add_versions_def)
  moreover have "nxt \<noteq> 0 \<Longrightarrow> read_verneed view strtab strsz k (c + ucast nxt) (add_versions tab nd m) =
      Inr (fold (add_versions tab) nds (add_versions tab nd m))"
    using Cons nxt n by simp
  ultimately show ?case using verneed_reads [OF h] nxt(1) by (cases "nxt = 0") (simp_all add: n)
qed simp

text \<open>A table of relocations that a pair of dynamic entries locates; absent when \<open>ptr\<close> is.\<close>

definition rela_table_at ::
  "elf_view \<Rightarrow> elf_tables \<Rightarrow> 32 word \<Rightarrow> (64 word \<Rightarrow> 64 word) \<Rightarrow> 64 word option \<Rightarrow> 64 word option \<Rightarrow> elf64_rela list \<Rightarrow> bool" where
  "rela_table_at view et want slot ptr sz rs \<longleftrightarrow>
     (case ptr of
        None \<Rightarrow> rs = []
      | Some p \<Rightarrow>
          (\<exists>c n. ev_dynptr_cursor view p = Inr c \<and> sz = Some n \<and> unat n = 24 * length rs \<and>
             holds view c (concat (map rela_bytes rs))) \<and>
          length rs \<le> 0x1000000 \<and> (\<forall>r \<in> set rs. rela_ok view et want slot r))"

text \<open>The dynamic entries locate the symbol, string and version tables.\<close>

definition layout_ok ::
  "elf_view \<Rightarrow> dynamic_info \<Rightarrow> elf_tables \<Rightarrow> (32 word \<times> (16 word \<times> 32 word) list) list \<Rightarrow> symbol_tables \<Rightarrow> bool" where
  "layout_ok view dyn et needs tb \<longleftrightarrow>
     (dy_syment dyn = None \<or> dy_syment dyn = Some SYM_SIZE) \<and>
     (\<exists>p. dy_symtab dyn = Some p \<and> ev_dynptr_cursor view p = Inr (tb_symtab tb)) \<and>
     (\<exists>p. dy_strtab dyn = Some p \<and> ev_dynptr_cursor view p = Inr (tb_strtab tb)) \<and>
     dy_strsz dyn = Some (tb_strsz tb) \<and>
     (case dy_versym dyn of
        None \<Rightarrow> tb_versym tb = None
      | Some p \<Rightarrow> (\<exists>c. ev_dynptr_cursor view p = Inr c \<and> tb_versym tb = Some c)) \<and>
     (case dy_verneed dyn of
        None \<Rightarrow> needs = []
      | Some p \<Rightarrow>
          needs \<noteq> [] \<and> length needs \<le> MAX_VERNEED \<and>
          (case dy_verneednum dyn of None \<Rightarrow> True | Some n \<Rightarrow> length needs \<le> unat n) \<and>
          (\<exists>c. ev_vaddr_cursor view p = Inr c \<and> verneed_at view c needs) \<and>
          (\<forall>nd \<in> set needs. name_ok (et_strs et) (fst nd) \<and> (\<forall>a \<in> set (snd nd). name_ok (et_strs et) (snd a)))) \<and>
     tb_versions tb = fold (add_versions (et_strs et)) needs []"

lemma import_tables_layout:
  assumes "layout_ok view dyn et needs tb" and "tables_at view tb et"
  shows "import_tables view dyn = Inr tb"
proof -
  have strs: "holds view (tb_strtab tb) (et_strs et)" "unat (tb_strsz tb) = length (et_strs et)"
    using assms(2) by (auto simp: tables_at_def)
  have "build_version_map view dyn (tb_strtab tb) (tb_strsz tb) = Inr (tb_versions tb)"
    using assms(1) by (auto simp: layout_ok_def build_version_map_def split: option.splits
        intro!: read_verneed_table [OF strs])
  moreover have "(case dy_versym dyn of None \<Rightarrow> Inr None
      | Some ptr \<Rightarrow> and_then (ev_dynptr_cursor view ptr) (\<lambda>c. Inr (Some c))) = Inr (tb_versym tb)"
    using assms(1) by (auto simp: layout_ok_def split: option.splits)
  ultimately show ?thesis
    using assms(1) by (auto simp: import_tables_def layout_ok_def)
qed

lemma parse_imports_table:
  assumes kinds: "elf_reloc_kinds (ev_machine view) = Some kinds"
    and "holds view (ev_dynamic_cursor view) (concat (map dyn_bytes es) @ le_bytes (0 :: 64 word))"
    and "\<forall>e \<in> set es. fst e \<noteq> 0" "length es < MAX_DYN"
    and tb: "import_tables view (dynamic_of es) = Inr tb" and et: "tables_at view tb et"
    and pltrel: "dy_jmprel (dynamic_of es) \<noteq> None \<longrightarrow> dy_pltrel (dynamic_of es) = Some DT_PLTREL_IS_RELA"
    and relaent: "dy_relaent (dynamic_of es) = None \<or> dy_relaent (dynamic_of es) = Some RELA_SIZE"
    and plt: "rela_table_at view et (jump_slot kinds) slot (dy_jmprel (dynamic_of es)) (dy_pltrelsz (dynamic_of es)) plts"
    and got: "rela_table_at view et (glob_dat kinds) slot (dy_rela (dynamic_of es)) (dy_relasz (dynamic_of es)) gots"
  shows "parse_imports view =
    Inr (map (import_of et (tb_versions tb) slot)
           (filter (is_import et (jump_slot kinds)) plts @ filter (is_import et (glob_dat kinds)) gots))"
proof -
  have "walk_jmprel view (dynamic_of es) tb (jump_slot kinds) =
      Inr (map (import_of et (tb_versions tb) slot) (filter (is_import et (jump_slot kinds)) plts))"
    using plt pltrel walk_rela_table [OF et, of _ plts _ slot _ "[]"]
    by (auto simp: walk_jmprel_def rela_table_at_def split: option.splits)
  moreover have "walk_reladyn view (dynamic_of es) tb (glob_dat kinds) out =
      Inr (out @ map (import_of et (tb_versions tb) slot) (filter (is_import et (glob_dat kinds)) gots))" for out
    using got relaent walk_rela_table [OF et, of _ gots _ slot _ out]
    by (auto simp: walk_reladyn_def rela_table_at_def split: option.splits)
  ultimately show ?thesis
    using kinds tb read_dynamic_table [OF assms(2-4)] by (simp add: parse_imports_def)
qed

section \<open>Images in memory\<close>

lemma live_view_sel [simp]:
  "ev_machine (live_view memory m) = em_machine m"
  "ev_dynamic_cursor (live_view memory m) = em_dynamic_addr m"
  "ev_dynptr_cursor (live_view memory m) = live_dynptr_cursor m"
  "ev_vaddr_cursor (live_view memory m) = live_vaddr_cursor m"
  "ev_read (live_view memory m) = read_live memory (em_base m) (em_loads m)"
  "ev_slot_address (live_view memory m) = live_slot_address m"
  by (simp_all add: live_view_def)

lemma live_holds:
  assumes "em_base m \<le> c" and "vaddr_in_load (em_loads m) (c - em_base m) (of_nat (length bs))"
    and fits: "unat c + length bs < 2 ^ 64" and mem: "\<And>i. i < length bs \<Longrightarrow> memory (c + of_nat i) = bs ! i"
  shows "holds (live_view memory m) c bs"
  unfolding holds_def
proof (intro allI impI)
  fix i and n :: "64 word"
  assume le: "i + unat n \<le> length bs"
  have ui: "unat (c + of_nat i) = unat c + i" using fits le by (simp add: unat_word_ariths unat_of_nat)
  have ud: "unat (c - em_base m) = unat c - unat (em_base m)" and "unat (em_base m) \<le> unat c"
    using assms(1) by (simp_all add: unat_sub word_le_nat_alt)
  then have v: "word_checked_sub (c + of_nat i) (em_base m) = Some (c + of_nat i - em_base m)"
    and uv: "unat (c + of_nat i - em_base m) = unat (c - em_base m) + i"
    using ui by (simp_all add: word_checked_sub_def word_le_nat_alt unat_sub)
  have "unat (of_nat (length bs) :: 64 word) = length bs" using fits by (simp add: unat_of_nat)
  with assms(2) obtain seg where "seg \<in> set (em_loads m)" "unat (sg_vaddr seg) \<le> unat (c - em_base m)"
    "unat (c - em_base m) + length bs \<le> unat (sg_vaddr seg) + unat (sg_memsz seg)"
    "unat (c - em_base m) + length bs \<le> U64_MAX" by (auto simp: vaddr_in_load_iff)
  then have "vaddr_in_load (em_loads m) (c + of_nat i - em_base m) n"
    unfolding vaddr_in_load_iff uv using le by (intro bexI [of _ seg]) auto
  then have "ev_read (live_view memory m) (c + of_nat i) n =
      Inr (map (\<lambda>j. memory (c + of_nat (i + j))) [0 ..< unat n])"
    by (simp add: read_live_def v add.assoc)
  also have "map (\<lambda>j. memory (c + of_nat (i + j))) [0 ..< unat n] = take (unat n) (drop i bs)"
    using le by (intro nth_equalityI) (simp_all add: mem del: of_nat_add)
  finally show "ev_read (live_view memory m) (c + of_nat i) n = Inr (take (unat n) (drop i bs))" .
qed

lemma holds_middle: "holds view c (xs @ ys @ zs) \<Longrightarrow> c' = c + of_nat (length xs) \<Longrightarrow> holds view c' ys"
  using holds_append by blast

section \<open>A small shared object\<close>

text \<open>An object at address 4096 that imports \<^verbatim>\<open>open\<close> through one jump slot.\<close>

definition sample_ehdr :: "byte list" where
  "sample_ehdr = [0x7f, 0x45, 0x4c, 0x46, 2, 1, 1, 0] @ replicate 8 0 @ [3, 0, 62, 0] @ replicate 44 0"

definition sample_dyn :: "(64 word \<times> 64 word) list" where
  "sample_dyn = [(5, 4336), (6, 4288), (10, 6), (11, 24), (20, 7), (23, 4344), (2, 24)]"

definition sample_rela :: elf64_rela where
  "sample_rela = \<lparr>r_offset = 272, r_type = 7, r_sym = 1, r_addend = 0\<rparr>"

definition sample_tables :: elf_tables where
  "sample_tables = \<lparr>et_syms = [(0, replicate 20 0), (1, replicate 20 0)], et_strs = [0, 0x6f, 0x70, 0x65, 0x6e, 0],
     et_versym = None\<rparr>"

definition sample_image :: "byte list" where
  "sample_image =
     sample_ehdr @ (concat (map dyn_bytes sample_dyn) @ le_bytes (0 :: 64 word)) @ replicate 8 0 @
     concat (map sym_bytes (et_syms sample_tables)) @ et_strs sample_tables @ replicate 2 0 @
     rela_bytes sample_rela @ replicate 8 0"

definition sample_memory :: "64 word \<Rightarrow> byte" where
  "sample_memory a = (let i = unat (a - 4096) in if i < length sample_image then sample_image ! i else 0)"

definition sample_phdrs :: "elf64_phdr list" where
  "sample_phdrs =
     [\<lparr>p_type = 1, p_flags = 7, p_offset = 0, p_vaddr = 0, p_paddr = 0, p_filesz = 280, p_memsz = 280, p_align = 4096\<rparr>,
      \<lparr>p_type = 2, p_flags = 6, p_offset = 64, p_vaddr = 64, p_paddr = 64, p_filesz = 120, p_memsz = 120, p_align = 8\<rparr>]"

definition sample_module :: elf_module where
  "sample_module =
     \<lparr>em_base = 4096, em_loads = [\<lparr>sg_vaddr = 0, sg_memsz = 280, sg_offset = 0, sg_filesz = 280\<rparr>],
      em_machine = 62, em_dynamic_addr = 4160, em_span = (4096, 4376), em_path = ''/a.so''\<rparr>"

definition sample_slot :: import_slot where
  "sample_slot = \<lparr>is_module_base = 4096, is_library = [], is_symbol = Some (SymName ''open''), is_version = None,
     is_address = 4368, is_kind = Standard, is_authenticated = False\<rparr>"

lemma length_sample_parts [simp]:
  "length sample_ehdr = 64" "length (concat (map dyn_bytes sample_dyn)) = 112"
  "length (concat (map sym_bytes (et_syms sample_tables))) = 48" "length (et_strs sample_tables) = 6"
  "length (rela_bytes sample_rela) = 24"
  by (simp_all add: sample_ehdr_def sample_dyn_def dyn_bytes_def sample_tables_def sym_bytes_def rela_bytes_def)

lemma length_sample_image [simp]: "length sample_image = 280"
  by (simp add: sample_image_def)

abbreviation "sample_view \<equiv> live_view sample_memory sample_module"

lemma sample_holds: "holds sample_view 4096 sample_image"
proof (rule live_holds)
  show "vaddr_in_load (em_loads sample_module) (4096 - em_base sample_module) (of_nat (length sample_image))"
    by (simp add: vaddr_in_load_iff sample_module_def U64_MAX_def)
  show "sample_memory (4096 + of_nat i) = sample_image ! i" if "i < length sample_image" for i
    using that by (simp add: sample_memory_def unat_of_nat)
qed (simp_all add: sample_module_def)

lemma sample_parts:
  "holds sample_view 4160 (concat (map dyn_bytes sample_dyn) @ le_bytes (0 :: 64 word))"
  "holds sample_view 4288 (concat (map sym_bytes (et_syms sample_tables)))"
  "holds sample_view 4336 (et_strs sample_tables)"
  "holds sample_view 4344 (rela_bytes sample_rela)"
proof -
  let ?d = "concat (map dyn_bytes sample_dyn) @ le_bytes (0 :: 64 word)"
  let ?s = "concat (map sym_bytes (et_syms sample_tables))"
  note h = sample_holds [unfolded sample_image_def]
  show "holds sample_view 4160 ?d" by (rule holds_middle [OF h]) simp
  show "holds sample_view 4288 ?s"
    by (rule holds_middle [of sample_view 4096 "sample_ehdr @ ?d @ replicate 8 0"]) (use h in simp_all)
  show "holds sample_view 4336 (et_strs sample_tables)"
    by (rule holds_middle [of sample_view 4096 "sample_ehdr @ ?d @ replicate 8 0 @ ?s"]) (use h in simp_all)
  show "holds sample_view 4344 (rela_bytes sample_rela)"
    by (rule holds_middle [of sample_view 4096 "sample_ehdr @ ?d @ replicate 8 0 @ ?s @ et_strs sample_tables @ replicate 2 0"])
      (use h in simp_all)
qed

section \<open>Properties\<close>


definition sample_tb :: symbol_tables where
  "sample_tb = \<lparr>tb_versym = None, tb_symtab = 4288, tb_strtab = 4336, tb_strsz = 6, tb_versions = []\<rparr>"

lemma sample_dynamic: "dynamic_of sample_dyn =
    no_dynamic_info\<lparr>dy_strtab := Some 4336, dy_symtab := Some 4288, dy_strsz := Some 6, dy_syment := Some 24,
      dy_pltrel := Some 7, dy_jmprel := Some 4344, dy_pltrelsz := Some 24\<rparr>"
  by (simp add: dynamic_of_def sample_dyn_def set_tag_def dt_defs no_dynamic_info_def)

lemma sample_cursors:
  "live_dynptr_cursor sample_module 4288 = Inr 4288" "live_dynptr_cursor sample_module 4336 = Inr 4336"
  "live_dynptr_cursor sample_module 4344 = Inr 4344" "live_slot_address sample_module 272 = Inr 4368"
  by (simp_all add: live_dynptr_cursor_def live_slot_address_def sample_module_def word_checked_sub_def
      word_checked_add_def vaddr_in_load_iff U64_MAX_def PTR_SIZE_def)

lemma sample_layout: "layout_ok sample_view (dynamic_of sample_dyn) sample_tables [] sample_tb"
  by (simp add: layout_ok_def sample_dynamic no_dynamic_info_def SYM_SIZE_def sample_tb_def sample_cursors)

lemma sample_tables_at: "tables_at sample_view sample_tb sample_tables"
  using sample_parts(2,3) by (simp add: tables_at_def sample_tb_def sample_tables_def)

lemma sample_name: "elf_sym_name sample_tables 1 = Some [0x6f, 0x70, 0x65, 0x6e]"
  by (simp add: elf_sym_name_def str_at_def sample_tables_def)

lemma sample_plt:
  "rela_table_at sample_view sample_tables 7 (\<lambda>r. 4096 + r) (Some 4344) (Some 24) [sample_rela]"
  using sample_parts(4) sample_name sample_cursors
  by (simp add: rela_table_at_def rela_ok_def is_import_def sample_rela_def MAX_NAME_LEN_def)
     (simp add: sample_tables_def)

lemma sample_reads:
  "elf_reloc_kinds (ev_machine sample_view) = Some \<lparr>jump_slot = 7, glob_dat = 6\<rparr>"
  "holds sample_view (ev_dynamic_cursor sample_view) (concat (map dyn_bytes sample_dyn) @ le_bytes (0 :: 64 word))"
  "\<forall>e \<in> set sample_dyn. fst e \<noteq> 0" "length sample_dyn < MAX_DYN"
  using sample_parts(1)
  by (simp_all add: elf_reloc_kinds_def EM_X86_64_def sample_module_def sample_dyn_def MAX_DYN_def)

lemma sample_rela_tables:
  "dy_jmprel (dynamic_of sample_dyn) \<noteq> None \<longrightarrow> dy_pltrel (dynamic_of sample_dyn) = Some DT_PLTREL_IS_RELA"
  "dy_relaent (dynamic_of sample_dyn) = None \<or> dy_relaent (dynamic_of sample_dyn) = Some RELA_SIZE"
  "rela_table_at sample_view sample_tables (jump_slot \<lparr>jump_slot = 7, glob_dat = 6\<rparr>) (\<lambda>r. 4096 + r)
     (dy_jmprel (dynamic_of sample_dyn)) (dy_pltrelsz (dynamic_of sample_dyn)) [sample_rela]"
  "rela_table_at sample_view sample_tables (glob_dat \<lparr>jump_slot = 7, glob_dat = 6\<rparr>) (\<lambda>r. 4096 + r)
     (dy_rela (dynamic_of sample_dyn)) (dy_relasz (dynamic_of sample_dyn)) []"
  using sample_plt by (simp_all add: sample_dynamic no_dynamic_info_def DT_PLTREL_IS_RELA_def rela_table_at_def [of _ _ 6])

definition sample_raw :: raw_import where
  "sample_raw = \<lparr>ri_library = [], ri_symbol = Some (SymName ''open''), ri_version = None, ri_slot = 4368,
     ri_kind = Standard, ri_authenticated = False\<rparr>"

lemma sample_import:
  "map (import_of sample_tables [] (\<lambda>r. 4096 + r))
     (filter (is_import sample_tables (jump_slot \<lparr>jump_slot = 7, glob_dat = 6\<rparr>)) [sample_rela] @
      filter (is_import sample_tables (glob_dat \<lparr>jump_slot = 7, glob_dat = 6\<rparr>)) []) = [sample_raw]"
proof -
  have nm: "from_utf8_lossy (chars_of [0x6f, 0x70, 0x65, 0x6e]) = ''open''"
    by (subst from_utf8_lossy_ascii) (simp_all add: chars_of_def char_of_def bit_Suc_0_iff)
  have i: "is_import sample_tables 7 sample_rela" by (simp add: is_import_def sample_rela_def sample_tables_def)
  show ?thesis
    using i sample_name nm by (simp add: import_of_def sym_version_def sample_rela_def sample_raw_def) (simp add: sample_tables_def)
qed

lemma sample_imports: "module_imports sample_memory sample_module = Inr [sample_slot]"
proof -
  have "parse_imports sample_view = Inr [sample_raw]"
    using parse_imports_table [OF sample_reads import_tables_layout [OF sample_layout sample_tables_at]
        sample_tables_at sample_rela_tables] sample_import by (simp add: sample_tb_def)
  then show ?thesis
    by (simp add: module_imports_def import_slot_from_raw_def sample_raw_def sample_slot_def)
       (simp add: sample_module_def)
qed


lemma module_imports_patchable:
  assumes "module_imports memory m = Inr slots"
  shows "length slots \<le> 2 * unat MAX_RELOCS"
    and "list_all (\<lambda>s. is_module_base s = unat (em_base m) \<and> patchable (em_base m) (em_loads m) (is_address s) \<and>
      (\<exists>name. is_symbol s = Some (SymName name)) \<and> \<not> is_authenticated s) slots"
proof -
  from assms obtain raws where raws: "parse_imports (live_view memory m) = Inr raws"
    and slots: "slots = map (import_slot_from_raw (unat (em_base m))) raws" by (auto simp: module_imports_def)
  from live.parse_imports_reported [OF raws] show "length slots \<le> 2 * unat MAX_RELOCS"
    "list_all (\<lambda>s. is_module_base s = unat (em_base m) \<and> patchable (em_base m) (em_loads m) (is_address s) \<and>
      (\<exists>name. is_symbol s = Some (SymName name)) \<and> \<not> is_authenticated s) slots"
    by (auto simp: slots list_all_iff reported_def import_slot_from_raw_def)
qed

text \<open>C8. Every import slot that a module reports may safely be patched: it is a pointer-aligned cell
  that lies completely inside a loadable segment of the module, it belongs to a named symbol, and it is
  not an authenticated pointer.  No image makes the parser report more than \<open>2 * MAX_RELOCS\<close>
  slots.\<close>

theorem elf_slots_are_patchable:
  assumes "module_imports memory m = Inr slots"
  shows "length slots \<le> 2 * unat MAX_RELOCS \<and>
    list_all (\<lambda>s. is_module_base s = unat (em_base m) \<and> is_address s mod PTR_SIZE = 0 \<and>
      (\<exists>seg \<in> set (em_loads m). unat (em_base m) + unat (sg_vaddr seg) \<le> is_address s \<and>
         is_address s + PTR_SIZE \<le> unat (em_base m) + unat (sg_vaddr seg) + unat (sg_memsz seg)) \<and>
      (\<exists>name. is_symbol s = Some (SymName name)) \<and> \<not> is_authenticated s) slots"
  using module_imports_patchable [OF assms] by (auto simp: list_all_iff patchable_def)

theorem elf_slots_are_patchable_witness:
  "module_imports sample_memory sample_module = Inr [sample_slot] \<and> is_address sample_slot mod PTR_SIZE = 0"
  using elf_slots_are_patchable [OF sample_imports] sample_imports by simp

text \<open>C9. Enumerating the imports of a module, and acquiring the module, depend on the bytes of its
  loadable segments only: two memories that agree on them give the same result.  The parser never
  looks at a byte outside the image, whatever the tables say.\<close>

theorem elf_parser_reads_only_the_image:
  assumes "\<And>a. loaded m a \<Longrightarrow> memory a = memory' a"
  shows "module_imports memory m = module_imports memory' m"
proof -
  have "read_live memory (em_base m) (em_loads m) = read_live memory' (em_base m) (em_loads m)"
    using assms by (intro ext read_live_cong) (simp add: loaded_def)
  then have "live_view memory m = live_view memory' m" by (simp add: live_view_def)
  then show ?thesis by (simp add: module_imports_def)
qed

theorem elf_parser_reads_only_the_image_witness:
  "module_imports (\<lambda>a. if loaded sample_module a then sample_memory a else 0xff) sample_module =
     module_imports sample_memory sample_module \<and> \<not> loaded sample_module 0"
  using elf_parser_reads_only_the_image
    [of sample_module "\<lambda>a. if loaded sample_module a then sample_memory a else 0xff" sample_memory]
  by (simp add: loaded_def vaddr_in_load_iff sample_module_def)

text \<open>What acquisition checks: there is a loadable segment, the machine is x86-64 or AArch64, and the
  image has, inside its segments, a 64-bit little-endian ELF header for that machine.\<close>

definition elf_valid :: "(64 word \<Rightarrow> byte) \<Rightarrow> elf_module \<Rightarrow> bool" where
  "elf_valid memory m \<longleftrightarrow>
     em_loads m \<noteq> [] \<and> (em_machine m = EM_X86_64 \<or> em_machine m = EM_AARCH64) \<and>
     (\<exists>e. vaddr_in_load (em_loads m) (e - em_base m) 64 \<and>
        map (\<lambda>i. memory (e + of_nat i)) [0 ..< 6] = [0x7f, 0x45, 0x4c, 0x46, ELFCLASS64, ELFDATA2LSB] \<and>
        from_le_bytes [memory (e + 18), memory (e + 19)] = em_machine m)"

lemma validate_ehdr_Inr:
  assumes "validate_ehdr ehdr = Inr mach"
  shows "take 6 ehdr = [0x7f, 0x45, 0x4c, 0x46, ELFCLASS64, ELFDATA2LSB]" "20 \<le> length ehdr"
    "from_le_bytes [ehdr ! 18, ehdr ! 19] = mach" "mach = EM_X86_64 \<or> mach = EM_AARCH64"
proof -
  from assms have len: "20 \<le> length ehdr" and four: "take 4 ehdr = [0x7f, 0x45, 0x4c, 0x46]"
    and cls: "ehdr ! 4 = ELFCLASS64" "ehdr ! 5 = ELFDATA2LSB"
    and mach: "from_le_bytes (take 2 (drop 18 ehdr)) = mach" and kinds: "elf_reloc_kinds mach \<noteq> None"
    by (auto simp: validate_ehdr_def get_range_def slice_le16_def EI_CLASS_def EI_DATA_def split: if_splits)
  have "take 6 ehdr = take 4 ehdr @ [ehdr ! 4, ehdr ! 5]"
    using len by (simp add: numeral_eq_Suc take_Suc_conv_app_nth)
  with four cls show "take 6 ehdr = [0x7f, 0x45, 0x4c, 0x46, ELFCLASS64, ELFDATA2LSB]" by simp
  show "20 \<le> length ehdr" by (fact len)
  have "drop 18 ehdr = ehdr ! 18 # ehdr ! 19 # drop 20 ehdr"
    using len Cons_nth_drop_Suc [of 18 ehdr] Cons_nth_drop_Suc [of 19 ehdr] by simp
  with mach show "from_le_bytes [ehdr ! 18, ehdr ! 19] = mach" by simp
  show "mach = EM_X86_64 \<or> mach = EM_AARCH64"
    using kinds by (auto simp: elf_reloc_kinds_def split: if_splits)
qed

lemma from_raw_Inr:
  assumes "from_raw memory obj = Inr m"
  shows "elf_valid memory m" "em_base m = of_nat (ob_base obj)"
    "\<exists>ph. object_program_headers obj = Inr ph \<and> em_loads m = ph_loads ph"
proof -
  from assms obtain ph e ehdr where ph: "parse_program_headers (ob_phdrs obj) (ob_phnum obj) = Inr ph"
    and rd: "read_live memory (of_nat (ob_base obj)) (ph_loads ph) e 64 = Inr ehdr"
    and v: "validate_ehdr ehdr = Inr (em_machine m)"
    and m: "em_base m = of_nat (ob_base obj)" "em_loads m = ph_loads ph"
    by (auto simp: from_raw_def Let_def)
  show "em_base m = of_nat (ob_base obj)" by (fact m)
  show "\<exists>ph. object_program_headers obj = Inr ph \<and> em_loads m = ph_loads ph"
    using ph m by (simp add: object_program_headers_def)
  have ne: "em_loads m \<noteq> []" using ph m by (auto simp: parse_program_headers_def split: if_splits)
  from rd have ld: "vaddr_in_load (em_loads m) (e - em_base m) 64"
    and ehdr: "ehdr = map (\<lambda>i. memory (e + of_nat i)) [0 ..< 64]"
    by (auto simp: read_live_def m word_checked_sub_def split: if_splits)
  have "map (\<lambda>i. memory (e + of_nat i)) [0 ..< 6] = take 6 ehdr"
    unfolding ehdr by (simp add: take_map)
  with validate_ehdr_Inr [OF v] ld ne show "elf_valid memory m"
    unfolding elf_valid_def by (auto simp: ehdr intro!: exI [of _ e])
qed

lemma collect_modules_from_raw:
  "m \<in> set (collect_modules memory infos) \<Longrightarrow> \<exists>info \<in> set infos. from_raw memory (object_of info) = Inr m"
  by (induction infos) (auto split: sum.splits)

lemma collect_modules_all:
  "info \<in> set infos \<Longrightarrow> from_raw memory (object_of info) = Inr m \<Longrightarrow> m \<in> set (collect_modules memory infos)"
  by (induction infos) (auto split: sum.splits)

text \<open>C39. Whichever way a module is acquired, by load address, by an address inside it, by handle, by
  name or by enumeration, it has been validated: an object that is not a 64-bit little-endian ELF image
  of a supported machine, or has no loadable segment, is never returned.\<close>

theorem acquired_modules_are_valid:
  assumes "from_base ld memory base l = Inr m \<or> from_address ld memory address l = Inr m \<or>
    from_handle ld memory handle l = Inr m \<or> fst (module_from_name ld memory name l) = Inr m \<or>
    (\<exists>ms. enumerate_modules ld memory l = Inr ms \<and> m \<in> set ms)"
  shows "elf_valid memory m"
proof -
  have "\<exists>obj. from_raw memory obj = Inr m" if "from_base ld memory b l' = Inr m" for b l'
    using that by (auto simp: from_base_def)
  then have "\<exists>obj. from_raw memory obj = Inr m" if "from_handle ld memory h l' = Inr m" for h l'
    using that by (auto simp: from_handle_def split: if_splits)
  then have "\<exists>obj. from_raw memory obj = Inr m"
    using assms collect_modules_from_raw [of m memory "ld_infos ld l"]
    by (auto simp: from_base_def from_address_def module_from_name_def enumerate_modules_def split: prod.splits if_splits)
  then show ?thesis using from_raw_Inr(1) by blast
qed

definition sample_info :: dl_phdr_info where
  "sample_info = phdr_info 4096 ''/a.so'' sample_phdrs"

definition sample_loader :: "unit loader" where
  "sample_loader = \<lparr>ld_infos = (\<lambda>_. [sample_info]), ld_dlinfo = (\<lambda>_ _. None), ld_dlopen = (\<lambda>_ l. (0, l)),
     ld_dlclose = (\<lambda>_ l. l)\<rparr>"

lemma sample_program_headers:
  "parse_program_headers (ob_phdrs (object_of sample_info)) (ob_phnum (object_of sample_info)) =
     Inr \<lparr>ph_loads = em_loads sample_module, ph_dynamic_vaddr = Some 64, ph_ehdr_vaddr = 0\<rparr>"
proof -
  have "length sample_phdrs \<le> 65535" by (simp add: sample_phdrs_def)
  from object_program_headers_phdr_info [OF this] show ?thesis
    by (simp add: object_program_headers_def sample_info_def)
       (simp add: sample_phdrs_def headers_of_def is_load_def PT_LOAD_def PT_DYNAMIC_def segment_of_def sample_module_def)
qed

lemma sample_object: "ob_base (object_of sample_info) = 4096" "ob_name (object_of sample_info) = ''/a.so''"
proof -
  have "length sample_phdrs \<le> 65535" by (simp add: sample_phdrs_def)
  moreover have "from_utf8_lossy ''/a.so'' = ''/a.so''" by code_simp
  ultimately show "ob_base (object_of sample_info) = 4096" "ob_name (object_of sample_info) = ''/a.so''"
    by (simp_all add: sample_info_def object_of_phdr_info del: from_utf8_lossy.simps)
qed

lemma sample_ehdr_read: "read_live sample_memory 4096 (em_loads sample_module) 4096 64 = Inr sample_ehdr"
  using holdsD [OF holds_append(1) [OF sample_holds [unfolded sample_image_def]], of 0 64]
  by (simp add: sample_module_def)

lemma sample_validate: "validate_ehdr sample_ehdr = Inr 62"
  by (simp add: validate_ehdr_def sample_ehdr_def get_range_def slice_le16_def from_le_bytes_def ET_EXEC_def ET_DYN_def
      EI_CLASS_def EI_DATA_def ELFCLASS64_def ELFDATA2LSB_def elf_reloc_kinds_def EM_X86_64_def)

lemma sample_from_raw: "from_raw sample_memory (object_of sample_info) = Inr sample_module"
  using sample_program_headers sample_ehdr_read sample_validate sample_object
  by (simp add: from_raw_def Let_def word_checked_add_def)
     (simp add: sample_module_def span_of_def)

theorem acquired_modules_are_valid_witness:
  "enumerate_modules sample_loader sample_memory () = Inr [sample_module] \<and> elf_valid sample_memory sample_module"
proof -
  have e: "enumerate_modules sample_loader sample_memory () = Inr [sample_module]"
    by (simp add: enumerate_modules_def sample_loader_def sample_from_raw)
  with acquired_modules_are_valid [of sample_loader sample_memory 0 "()" sample_module 0 0 "[]"] show ?thesis by simp
qed

lemma patchable_contained:
  assumes "from_raw memory obj = Inr m" and "ob_base obj < 2 ^ 64" and "patchable (em_base m) (em_loads m) a"
    and "\<And>seg. seg \<in> set (em_loads m) \<Longrightarrow> 0 < sg_memsz seg \<Longrightarrow>
      unat (em_base m) + unat (sg_vaddr seg) + unat (sg_memsz seg) < 2 ^ 64"
  shows "unat (em_base m) = ob_base obj" "contains_address obj a"
proof -
  from from_raw_Inr [OF assms(1)] obtain ph where b: "em_base m = of_nat (ob_base obj)"
    and ph: "object_program_headers obj = Inr ph" "em_loads m = ph_loads ph" by blast
  show ub: "unat (em_base m) = ob_base obj" using b assms(2) by (simp add: unat_of_nat)
  from assms(3) obtain seg where seg: "seg \<in> set (em_loads m)" "ob_base obj + unat (sg_vaddr seg) \<le> a"
    "a + PTR_SIZE \<le> ob_base obj + unat (sg_vaddr seg) + unat (sg_memsz seg)" by (auto simp: patchable_def ub)
  then have "0 < unat (sg_memsz seg)" by (simp add: PTR_SIZE_def)
  with assms(4) [OF seg(1)] have "ob_base obj + unat (sg_vaddr seg) + unat (sg_memsz seg) < 2 ^ 64"
    by (simp add: ub word_less_nat_alt)
  with seg show "contains_address obj a"
    by (auto simp: contains_address_def ph list_ex_iff Let_def wrap_add_def PTR_SIZE_def intro!: bexI [of _ seg])
qed

text \<open>The slots that the parser reports are slots that a later restore recognizes: as long as the
  object is still loaded, every reported address lies in a segment of the module it was reported for,
  so uninstalling does not skip it.  The segments must not wrap around the end of the address
  space.\<close>

theorem reported_slots_belong_to_their_module:
  assumes "find_base base (k_objects k st) = Some obj" and "from_raw memory obj = Inr m"
    and "module_imports memory' m = Inr slots" and "base < 2 ^ 64"
    and "\<forall>seg \<in> set (em_loads m). unat (em_base m) + unat (sg_vaddr seg) + unat (sg_memsz seg) < 2 ^ 64"
  shows "list_all (\<lambda>s. is_module_base s = base \<and> slot_belongs_to_module (unix_sys k) (is_address s) base st) slots"
proof -
  have ob: "ob_base obj = base" using find_base_Some [OF assms(1)] by simp
  have "unat (em_base m) = base \<and> contains_address obj a" if "patchable (em_base m) (em_loads m) a" for a
    using patchable_contained [OF assms(2) _ that] assms(4,5) ob by simp
  then show ?thesis
    using module_imports_patchable(2) [OF assms(3)] assms(1)
    by (auto simp: list_all_iff unix_sys_def unix_slot_belongs_def)
qed

theorem reported_slots_belong_to_their_module_witness:
  "slot_belongs_to_module (unix_sys (page_table_kernel [sample_info] (\<lambda>_. 7))) (is_address sample_slot) 4096 []"
proof -
  have "find_base 4096 (k_objects (page_table_kernel [sample_info] (\<lambda>_. 7)) []) = Some (object_of sample_info)"
    by (simp add: page_table_kernel_def find_base_def sample_object)
  from reported_slots_belong_to_their_module [OF this sample_from_raw sample_imports]
  show ?thesis by (simp add: sample_module_def)
qed

end
