(* ===== verification/Linux_Install.thy ===== *)
theory Linux_Install
  imports Install Elf_Image
begin

text \<open>
  The installer on Linux: the loader's view of \<^verbatim>\<open>install.rs\<close> instantiated with the ELF modules of
  \<^verbatim>\<open>module_elf.rs\<close>, the platform layer of \<^verbatim>\<open>sys_unix.rs\<close> and the Linux table of symbols.  What the installer needs from the
  platform (the locale \<open>loader_layout\<close>) follows from the layout of the loaded
  objects.  \<open>memory\<close> is the text and data of the images that the parser reads.
\<close>

definition elf_plt_module :: "(64 word \<Rightarrow> byte) \<Rightarrow> elf_module \<Rightarrow> plt_module" where
  "elf_plt_module memory m =
     \<lparr>m_base = unat (em_base m), m_name = elf_module_name m, m_path = em_path m,
      m_imports = module_imports memory m\<rparr>"

definition linux_plt :: "'o kernel \<Rightarrow> 'o loader \<Rightarrow> (64 word \<Rightarrow> byte) \<Rightarrow> (sym, 'o) plt" where
  "linux_plt k ld memory =
     \<lparr>plt_sys = unix_sys k,
      plt_enumerate = (\<lambda>st. and_then (enumerate_modules ld memory st) (\<lambda>ms. Inr (map (elf_plt_module memory) ms))),
      plt_from_address = (\<lambda>a st. and_then (from_address ld memory a st) (\<lambda>m. Inr (elf_plt_module memory m))),
      plt_original = (\<lambda>name _. k_dlsym k name),
      plt_name = sym_name, plt_ALL = sym_ALL, plt_index = sym_index,
      plt_replacements = unix_replacements sym_name linux_loader_sym sym_ALL, plt_dir_key = unix_dir_key\<rparr>"

section \<open>Loaded objects\<close>

text \<open>The addresses of a module's segments.\<close>

definition footprint :: "elf_module \<Rightarrow> nat set" where
  "footprint m =
     (\<Union>seg \<in> set (em_loads m).
        {unat (em_base m) + unat (sg_vaddr seg) ..< unat (em_base m) + unat (sg_vaddr seg) + unat (sg_memsz seg)})"

text \<open>A layout as the loader makes it: the objects stay the same, have different load addresses and
  disjoint segments that do not wrap around, and pages with import cells can be made writable.\<close>

definition settled :: "'o kernel \<Rightarrow> 'o loader \<Rightarrow> (64 word \<Rightarrow> byte) \<Rightarrow> dl_phdr_info list \<Rightarrow> bool" where
  "settled k ld memory infos \<longleftrightarrow>
     (\<forall>st. k_objects k st = infos \<and> ld_infos ld st = infos) \<and> distinct (map dlpi_addr infos) \<and>
     (\<forall>m \<in> set (collect_modules memory infos). footprint m \<subseteq> {..< 2 ^ 64 - 1}) \<and>
     sorted_wrt (\<lambda>m n. footprint m \<inter> footprint n = {}) (collect_modules memory infos) \<and>
     (\<forall>slots st. set slots \<subseteq> (\<Union>m \<in> set (collect_modules memory infos). footprint m) \<longrightarrow>
        (\<exists>dn st'. protector_make_writable (unix_sys k) slots st = (Inr dn, st')))"

lemma find_base_distinct:
  "distinct (map dlpi_addr infos) \<Longrightarrow> info \<in> set infos \<Longrightarrow>
     find_base (unat (dlpi_addr info)) infos = Some (object_of info)"
proof (induction infos)
  case (Cons i infos)
  have "ob_base (object_of j) = unat (dlpi_addr j)" for j by (simp add: object_of_def Let_def)
  with Cons show ?case by (cases "i = info") (auto simp: find_base_def word_unat_eq_iff)
qed simp

lemma settled_module:
  assumes "settled k ld memory infos" and "m \<in> set (collect_modules memory infos)"
  shows "cooperative (unix_sys k) (unat (em_base m)) (import_cells (elf_plt_module memory m))"
    and "import_cells (elf_plt_module memory m) \<subseteq> footprint m"
proof -
  from collect_modules_from_raw [OF assms(2)] obtain info where info: "info \<in> set infos"
    "from_raw memory (object_of info) = Inr m" by blast
  have b: "unat (em_base m) = unat (dlpi_addr info)"
    using from_raw_Inr(2) [OF info(2)] by (simp add: object_of_def Let_def)
  have fb: "find_base (unat (em_base m)) (k_objects k st) = Some (object_of info)" for st
    using find_base_distinct info(1) assms(1) by (simp add: settled_def b)
  have cells: "a mod PTR_SIZE = 0 \<and> patchable (em_base m) (em_loads m) a"
    if "a \<in> import_cells (elf_plt_module memory m)" for a
    using that module_imports_patchable(2) [of memory m]
    by (auto simp: import_cells_def elf_plt_module_def list_all_iff patchable_def split: sum.splits)
  have nowrap: "unat (em_base m) + unat (sg_vaddr seg) + unat (sg_memsz seg) < 2 ^ 64"
    if "seg \<in> set (em_loads m)" "0 < sg_memsz seg" for seg
  proof -
    let ?last = "unat (em_base m) + unat (sg_vaddr seg) + (unat (sg_memsz seg) - 1)"
    have "0 < unat (sg_memsz seg)" using that(2) by (simp add: word_less_nat_alt)
    moreover from this have "?last \<in> footprint m" using that(1) by (auto simp: footprint_def intro!: bexI [of _ seg])
    then have "?last < 2 ^ 64 - 1" using assms by (auto simp: settled_def)
    ultimately show ?thesis by simp
  qed
  show sub: "import_cells (elf_plt_module memory m) \<subseteq> footprint m"
    using cells by (fastforce simp: patchable_def footprint_def PTR_SIZE_def)
  have "slot_belongs_to_module (unix_sys k) a (unat (em_base m)) st"
    if "a \<in> import_cells (elf_plt_module memory m)" for a st
    using patchable_contained(2) [OF info(2) object_of_wf(2) _ nowrap] cells [OF that] fb
    by (simp add: unix_sys_def unix_slot_belongs_def)
  moreover have "\<exists>dn st'. protector_make_writable (unix_sys k) slots st = (Inr dn, st')"
    if "set slots \<subseteq> import_cells (elf_plt_module memory m)" for slots st
    using that sub assms unfolding settled_def by (meson UN_upper order_trans)
  ultimately show "cooperative (unix_sys k) (unat (em_base m)) (import_cells (elf_plt_module memory m))"
    using fb by (simp add: cooperative_def unix_sys_def unix_module_still_loaded_def)
qed

lemma collected_bases:
  "distinct (map dlpi_addr infos) \<Longrightarrow> distinct (map em_base (collect_modules memory infos))"
proof (induction infos)
  case (Cons i infos)
  have b: "em_base m = dlpi_addr j" if "from_raw memory (object_of j) = Inr m" for j m
    using from_raw_Inr(2) [OF that] by (simp add: object_of_def Let_def)
  have "em_base m \<in> dlpi_addr ` set infos" if "m \<in> set (collect_modules memory infos)" for m
    using collect_modules_from_raw [OF that] b by auto
  with Cons b [of i] show ?case by (auto split: sum.splits)
qed simp

lemma linux_loadable:
  assumes "settled k ld memory infos" "loadable (linux_plt k ld memory) m"
  shows "\<exists>em \<in> set (collect_modules memory infos). m = elf_plt_module memory em"
proof -
  have "em \<in> set (collect_modules memory infos)" if "from_address ld memory a st = Inr em" for a st em
  proof -
    from that obtain info where "info \<in> set (ld_infos ld st)" "from_raw memory (object_of info) = Inr em"
      by (auto simp: from_address_def dest!: for_each_Some split: if_splits)
    then show ?thesis using assms(1) collect_modules_all by (auto simp: settled_def)
  qed
  then show ?thesis
    using assms by (auto simp: loadable_def linux_plt_def enumerate_modules_def settled_def)
qed

locale linux_settled =
  fixes k :: "'o kernel" and ld :: "'o loader" and memory :: "64 word \<Rightarrow> byte" and infos :: "dl_phdr_info list"
  assumes is_settled: "settled k ld memory infos"

sublocale linux_settled \<subseteq> linux_layout: loader_layout "linux_plt k ld memory"
proof
  fix m
  assume "loadable (linux_plt k ld memory) m"
  then obtain em where "em \<in> set (collect_modules memory infos)" "m = elf_plt_module memory em"
    using linux_loadable [OF is_settled] by blast
  moreover have "plt_sys (linux_plt k ld memory) = unix_sys k" "m_base (elf_plt_module memory em) = unat (em_base em)"
    by (simp_all add: linux_plt_def elf_plt_module_def)
  ultimately show "cooperative (plt_sys (linux_plt k ld memory)) (m_base m) (import_cells m)"
    using settled_module(1) [OF is_settled] by simp
next
  fix m n
  assume l: "loadable (linux_plt k ld memory) m" "loadable (linux_plt k ld memory) n" "m_base m \<noteq> m_base n"
  then obtain em en where e: "em \<in> set (collect_modules memory infos)" "m = elf_plt_module memory em"
    "en \<in> set (collect_modules memory infos)" "n = elf_plt_module memory en"
    using linux_loadable [OF is_settled] by meson
  have "footprint em \<inter> footprint en = {}"
    using sorted_wrt_related [of "\<lambda>m n. footprint m \<inter> footprint n = {}" "collect_modules memory infos" em en]
      is_settled e l(3) by (auto simp: settled_def)
  then show "import_cells m \<inter> import_cells n = {}"
    using settled_module(2) [OF is_settled] e by blast
next
  fix st ms
  assume "plt_enumerate (linux_plt k ld memory) st = Inr ms"
  then have "ms = map (elf_plt_module memory) (collect_modules memory infos)"
    using is_settled by (auto simp: linux_plt_def enumerate_modules_def settled_def)
  moreover have "distinct (map em_base (collect_modules memory infos))"
    using is_settled collected_bases by (simp add: settled_def)
  moreover have "map m_base (map (elf_plt_module memory) xs) = map unat (map em_base xs)" for xs
    by (simp add: elf_plt_module_def)
  ultimately show "distinct (map m_base ms)" by (simp only: distinct_map_unat)
qed

context linux_settled
begin

lemmas linux_undone = linux_layout.install_undone

end

section \<open>Properties\<close>

text \<open>C4. On Linux an installation is undone completely, whatever the scope: with the objects loaded at
  disjoint addresses that do not wrap around and their pages patchable, a failed installation leaves
  every import cell as it was, and after a successful one any number of rescans may hook further
  modules: dropping the guard puts every cell back and frees the routing slot.  The imports are those
  that the ELF parser finds in the images.\<close>

theorem linux_teardown_restores_imports:
  assumes "install_with_namespace (linux_plt k ld memory) shim vfs ns sc aw ar w = (r, w')"
    and "d_active (w_disp w) = None" and "settled k ld memory infos"
  shows "case r of
      Inl _ \<Rightarrow> mem (w_proc w') = mem (w_proc w)
    | Inr token \<Rightarrow> \<forall>w''. session (linux_plt k ld memory) shim token w' w'' \<longrightarrow>
        mem (w_proc (install_guard_drop (linux_plt k ld memory) token w'')) = mem (w_proc w)
        \<and> current_engine (w_disp (install_guard_drop (linux_plt k ld memory) token w'')) = None"
proof -
  from assms(3) have "linux_settled k ld memory infos" by (rule linux_settled.intro)
  then show ?thesis using assms(1,2) by (rule linux_settled.linux_undone)
qed

text \<open>The small shared object of \<open>Elf_Image\<close>, loaded in one writable page.\<close>

definition sample_kernel :: "unit kernel" where
  "sample_kernel = \<lparr>k_maps = (\<lambda>_. Some (print_page (4096, 7))), k_mprotect = (\<lambda>_ _ _ st. (True, st)),
     k_errno = (\<lambda>_. 0), k_sysconf_pagesize = 4096, k_objects = (\<lambda>_. [sample_info]), k_dlsym = (\<lambda>_. 7)\<rparr>"

lemma sample_footprint: "footprint sample_module = {4096 ..< 4376}"
  by (simp add: footprint_def sample_module_def)

lemma sample_make_writable: "make_writable (unix_sys sample_kernel) 4096 st = (Inr 7, st)"
proof -
  have "lines (print_page (4096, 7)) = [print_page (4096, 7)]"
    using print_page_chars [of _ "(4096, 7)"] last_in_set [of "print_page (4096, 7)"]
    by (auto simp: lines_def split_on_no_sep strip_cr_def)
  then have "query_protection sample_kernel 4096 st = 7"
    by (simp add: query_protection_def sample_kernel_def line_prot_print U64_MAX_def)
  then show ?thesis
    by (simp add: unix_sys_def unix_make_writable_def has_prot_def PROT_WRITE_def)
qed

lemma sample_settled: "settled sample_kernel sample_loader sample_memory [sample_info]"
proof -
  have "\<exists>dn st'. protector_make_writable (unix_sys sample_kernel) slots st = (Inr dn, st')"
    if "set slots \<subseteq> {4096 ..< 4376}" for slots st
  proof -
    have "page_size (unix_sys sample_kernel) = 4096" by (simp add: unix_sys_def unix_page_size_def sample_kernel_def)
    moreover have "\<forall>a \<in> set slots. 4096 \<le> a \<and> a + PTR_SIZE \<le> 4096 + 4096" using that by (auto simp: PTR_SIZE_def)
    ultimately show ?thesis using slot_pages_one [of 4096 4096 slots] sample_make_writable
      by (auto simp: protector_make_writable_def U64_MAX_def)
  qed
  then show ?thesis
    by (simp add: settled_def sample_from_raw sample_footprint) (auto simp: sample_kernel_def sample_loader_def)
qed

definition sample_install where
  "sample_install = install_with_namespace (linux_plt sample_kernel sample_loader sample_memory) (\<lambda>_. 99) 5
     (from_root ''/v'') AllModules True True sdk_world"

lemma sample_pending:
  "collect_hooks (unix_sys sample_kernel) nm [sample_slot] (linux_replacements (\<lambda>_. 99) True) [] p =
   (Inr [\<lparr>ph_library = [], ph_symbol = SymName ''open'', ph_slot = 4368, ph_original = 7, ph_replacement = 99\<rparr>], p)"
proof -
  have "resolve_original (unix_sys sample_kernel) kd lib (SymName x) v st = (Some 7, st)" for kd lib x v st
    by (simp add: unix_sys_def sample_kernel_def)
  then show ?thesis
    by (simp add: unix_replacements_def linux_loader_sym_def sym_ALL_def optional_def by_symbol_def match_replacement_def library_matches_def
        sample_slot_def slot_load_def)
qed

lemma sample_apply:
  "apply_patches (unix_sys sample_kernel) [(4368, 99)] p = (Inr [mem p 4368], p\<lparr>mem := (mem p)(4368 := 99)\<rparr>)"
proof -
  have "slot_pages 4096 [4368] = [4096]"
    by (simp add: slot_pages_def page_of_def span_pages.simps push_new_def PTR_SIZE_def sat_add_def U64_MAX_def)
  moreover have "page_size (unix_sys sample_kernel) = 4096"
    by (simp add: unix_sys_def unix_page_size_def sample_kernel_def)
  moreover have "restore_protection (unix_sys sample_kernel) page v st = (Inr (), st)" for page v st
    by (simp add: unix_sys_def unix_restore_protection_def sample_kernel_def)
  ultimately show ?thesis
    by (simp add: apply_patches_def Let_def protector_make_writable_def sample_make_writable protector_restore_def
        result_of_def slot_swap_def)
qed

lemma sample_install_result: "fst sample_install = Inr 1" "mem (w_proc (snd sample_install)) 4368 = 99"
proof -
  have r: "resolve_modules (linux_plt sample_kernel sample_loader sample_memory) AllModules st =
      Inr [elf_plt_module sample_memory sample_module]" for st
    by (simp add: resolve_modules_def linux_plt_def enumerate_modules_def sample_loader_def sample_from_raw)
  obtain d where d: "try_activate e (w_disp sdk_world) = (Some 1, d e)" for e
    by (auto simp: sdk_world_def dispatch_init_def try_activate_def Let_def)
  have m: "m_imports (elf_plt_module sample_memory sample_module) = Inr [sample_slot]"
    "plt_sys (linux_plt sample_kernel sample_loader sample_memory) = unix_sys sample_kernel"
    "plt_replacements (linux_plt sample_kernel sample_loader sample_memory) = linux_replacements"
    by (simp_all add: elf_plt_module_def sample_imports linux_plt_def)
  show "fst sample_install = Inr 1" "mem (w_proc (snd sample_install)) 4368 = 99"
    by (simp_all add: sample_install_def install_with_namespace_def r d m Let_def plt_install_def sample_pending sample_apply)
qed

definition sample_rescan where
  "sample_rescan = rescan (linux_plt sample_kernel sample_loader sample_memory) (\<lambda>_. 99) 1 (snd sample_install)"

theorem linux_teardown_restores_imports_witness:
  "mem (w_proc (snd sample_install)) 4368 = 99 \<and>
   mem (w_proc (install_guard_drop (linux_plt sample_kernel sample_loader sample_memory) 1 (snd sample_rescan))) =
     mem (w_proc sdk_world)"
proof -
  have i: "install_with_namespace (linux_plt sample_kernel sample_loader sample_memory) (\<lambda>_. 99) 5 (from_root ''/v'')
      AllModules True True sdk_world = (Inr 1, snd sample_install)"
    using sample_install_result(1) unfolding sample_install_def by (metis prod.collapse)
  have a: "d_active (w_disp sdk_world) = None" by (simp add: sdk_world_def dispatch_init_def)
  have "session (linux_plt sample_kernel sample_loader sample_memory) (\<lambda>_. 99) 1 (snd sample_install) (snd sample_rescan)"
    unfolding sample_rescan_def by (rule session.scan [OF session.start prod.collapse [symmetric]])
  with linux_teardown_restores_imports [OF i a sample_settled] sample_install_result(2) show ?thesis by simp
qed

interpretation sample_linux: linux_settled sample_kernel sample_loader sample_memory "[sample_info]"
  by (rule linux_settled.intro) (rule sample_settled)

end
