(* ===== verification/Memory_Rename.thy ===== *)
theory Memory_Rename
  imports Memory_Tree
begin

text \<open>
  What a successful \<open>MemoryFs::rename\<close> does to the tree: the whole subtree moves from the
  old prefix to the new one, node by node, the moved root takes the new name, nothing else
  changes except that missing ancestors of the destination appear.
\<close>

section \<open>Subtrees of a well-formed tree\<close>

lemma tree_ok_above:
  assumes "tree_ok m" "seg_ok (cs @ ds)" "ds \<noteq> []" "m (akey (cs @ ds)) \<noteq> None"
  shows "dir_at m cs \<and> m (akey (cs @ [hd ds])) \<noteq> None"
  using assms(2-4)
proof (induction ds rule: rev_induct)
  case (snoc x xs)
  obtain nd where nd: "m (akey (cs @ xs @ [x])) = Some nd" using snoc.prems(3) by auto
  from tree_okE [OF assms(1) nd] obtain es where es: "seg_ok es" "akey (cs @ xs @ [x]) = akey es"
    "es \<noteq> [] \<Longrightarrow> dir_at m (butlast es)" by metis
  then have "es = cs @ xs @ [x]" using snoc.prems(1) by simp
  then have d: "dir_at m (cs @ xs)" using es(3) by (simp add: butlast_append)
  show ?case
  proof (cases "xs = []")
    case True
    then show ?thesis using d nd by simp
  next
    case False
    then show ?thesis using snoc.IH snoc.prems(1) d by (auto simp: dir_at_def)
  qed
qed simp

lemma tree_ok_key:
  assumes "tree_ok m" "m k \<noteq> None" obtains cs where "seg_ok cs" "k = akey cs"
proof -
  obtain nd where "m k = Some nd" using assms(2) by auto
  from tree_okE [OF assms(1) this] that show ?thesis by metis
qed

lemma has_child_dir:
  assumes "seg_ok (cs @ [c])" "map_of m (akey (cs @ [c])) \<noteq> None"
  shows "has_child (akey cs) m"
proof -
  obtain nd where "(akey (cs @ [c]), nd) \<in> set m" using assms(2) map_of_SomeD by fast
  then show ?thesis using parent_key_akey [OF assms(1)] by (auto simp: has_child_def list_ex_iff)
qed

section \<open>Moving the nodes\<close>

definition moved :: "string \<Rightarrow> string \<Rightarrow> string \<Rightarrow> node \<Rightarrow> node" where
  "moved from_key to_name k nd = (if k = from_key then rename_node nd to_name else nd)"

lemma tree_move_entry:
  "tree (move_entry a b nm k fs) =
     (case tree fs k of None \<Rightarrow> tree fs
      | Some nd \<Rightarrow> (tree fs)(k := None, rekey k a b \<mapsto> moved a nm k nd))"
  by (auto simp: move_entry_def moved_def split: option.splits)

lemma fold_move:
  assumes "distinct ks" "inj_on (\<lambda>k. rekey k a b) (set ks)" "(\<lambda>k. rekey k a b) ` set ks \<inter> set ks = {}"
    and "\<And>k. k \<in> set ks \<Longrightarrow> tree fs k \<noteq> None"
  shows "(\<forall>k \<in> set ks. tree (fold (move_entry a b nm) ks fs) (rekey k a b) = map_option (moved a nm k) (tree fs k))
    \<and> (\<forall>k'. k' \<notin> (\<lambda>k. rekey k a b) ` set ks \<longrightarrow>
         tree (fold (move_entry a b nm) ks fs) k' = (if k' \<in> set ks then None else tree fs k'))"
  using assms
proof (induction ks arbitrary: fs)
  case (Cons k ks)
  let ?fs1 = "move_entry a b nm k fs"
  obtain nd where nd: "tree fs k = Some nd" using Cons.prems(4) [of k] by auto
  have t: "tree ?fs1 = (tree fs)(k := None, rekey k a b \<mapsto> moved a nm k nd)"
    by (simp add: tree_move_entry nd)
  have same: "tree ?fs1 j = tree fs j" if "j \<in> set ks" for j
    using that Cons.prems(1,3) unfolding t by auto
  have IH: "(\<forall>j \<in> set ks. tree (fold (move_entry a b nm) ks ?fs1) (rekey j a b) = map_option (moved a nm j) (tree ?fs1 j))
    \<and> (\<forall>k'. k' \<notin> (\<lambda>k. rekey k a b) ` set ks \<longrightarrow>
         tree (fold (move_entry a b nm) ks ?fs1) k' = (if k' \<in> set ks then None else tree ?fs1 k'))"
    using Cons.prems same by (intro Cons.IH) auto
  have rk: "rekey k a b \<notin> (\<lambda>k. rekey k a b) ` set ks" "rekey k a b \<notin> set (k # ks)"
    using Cons.prems(1,2,3) by auto
  then have here: "tree (fold (move_entry a b nm) ks ?fs1) (rekey k a b) = Some (moved a nm k nd)"
    using IH t by auto
  have other: "tree (fold (move_entry a b nm) ks ?fs1) k' = (if k' \<in> set (k # ks) then None else tree fs k')"
    if "k' \<notin> (\<lambda>k. rekey k a b) ` set (k # ks)" for k'
    using IH t that Cons.prems(1) by auto
  show ?case using IH here other same nd by auto
qed simp

lemma move_subtree_map:
  assumes ok: "tree_ok (tree fs)" and d: "distinct (map fst (fs_entries fs))"
    and f: "seg_ok cf" "cf \<noteq> []" and t: "seg_ok ct" "ct \<noteq> []" and sep: "\<not> prefix cf ct" "\<not> prefix ct cf"
    and clear: "\<forall>ds. seg_ok ds \<longrightarrow> tree fs (akey (ct @ ds)) = None"
    and fs'_def: "fs' = move_subtree (akey cf) (akey ct) nm fs"
  shows "\<And>ds. seg_ok ds \<Longrightarrow> tree fs' (akey (ct @ ds)) =
      map_option (\<lambda>nd. if ds = [] then rename_node nd nm else nd) (tree fs (akey (cf @ ds)))"
    and "\<And>ds. seg_ok ds \<Longrightarrow> tree fs' (akey (cf @ ds)) = None"
    and "\<And>cs. seg_ok cs \<Longrightarrow> \<not> prefix cf cs \<Longrightarrow> \<not> prefix ct cs \<Longrightarrow> tree fs' (akey cs) = tree fs (akey cs)"
    and "\<And>k. tree fs' k \<noteq> None \<Longrightarrow> \<exists>cs. seg_ok cs \<and> k = akey cs"
proof -
  define ks where "ks = filter (in_subtree (akey cf)) (map fst (fs_entries fs))"
  let ?g = "\<lambda>k. rekey k (akey cf) (akey ct)"
  have mem: "k \<in> set ks \<longleftrightarrow> (\<exists>ds. seg_ok ds \<and> k = akey (cf @ ds) \<and> tree fs k \<noteq> None)" for k
  proof -
    have dom: "k \<in> fst ` set (fs_entries fs) \<longleftrightarrow> tree fs k \<noteq> None" by (simp add: map_of_eq_None_iff)
    show ?thesis
    proof (cases "tree fs k = None")
      case False
      with ok obtain cs where cs: "seg_ok cs" "k = akey cs" by (rule tree_ok_key)
      have "in_subtree (akey cf) k \<longleftrightarrow> prefix cf cs" using in_subtree_akey [OF cs(1) f] cs(2) by simp
      also have "\<dots> \<longleftrightarrow> (\<exists>ds. seg_ok ds \<and> k = akey (cf @ ds))"
        using cs f(1) by (auto simp: prefix_def)
      finally show ?thesis using dom False by (auto simp: ks_def)
    qed (use dom in \<open>auto simp: ks_def\<close>)
  qed
  have g: "?g (akey (cf @ ds)) = akey (ct @ ds)" if "seg_ok ds" for ds
    using that f t by (intro rekey_akey) auto
  have img: "?g ` set ks = {akey (ct @ ds) | ds. seg_ok ds \<and> tree fs (akey (cf @ ds)) \<noteq> None}"
    using mem g by (auto simp: image_iff) metis+
  have dis: "akey (ct @ ds) \<noteq> akey (cf @ es)" if "seg_ok ds" "seg_ok es" for ds es
    using that f(1) t(1) sep prefix_same_cases by (auto simp: prefix_def append_eq_append_conv2)
  have inj: "inj_on ?g (set ks)"
  proof (rule inj_onI)
    fix x y
    assume xy: "x \<in> set ks" "y \<in> set ks" "?g x = ?g y"
    then obtain ds es where "seg_ok ds" "x = akey (cf @ ds)" "seg_ok es" "y = akey (cf @ es)"
      unfolding mem by blast
    then show "x = y" using xy(3) g t(1) by simp
  qed
  have none: "?g ` set ks \<inter> set ks = {}"
  proof (rule equals0I)
    fix x
    assume "x \<in> ?g ` set ks \<inter> set ks"
    then obtain ds es where "x = akey (ct @ ds)" "seg_ok ds" "x = akey (cf @ es)" "seg_ok es"
      unfolding img Int_iff mem by blast
    then show False using dis by metis
  qed
  have "distinct ks" using d by (simp add: ks_def)
  note F = fold_move [OF this inj none, of fs nm]
  have F1: "\<forall>k \<in> set ks. tree fs' (?g k) = map_option (moved (akey cf) nm k) (tree fs k)"
    and F2: "\<forall>k'. k' \<notin> ?g ` set ks \<longrightarrow> tree fs' k' = (if k' \<in> set ks then None else tree fs k')"
    using F mem unfolding fs'_def move_subtree_def ks_def [symmetric] by blast+
  show A: "tree fs' (akey (ct @ ds)) =
      map_option (\<lambda>nd. if ds = [] then rename_node nd nm else nd) (tree fs (akey (cf @ ds)))" if ds: "seg_ok ds" for ds
  proof (cases "tree fs (akey (cf @ ds))")
    case (Some nd)
    have "akey (cf @ ds) \<in> set ks" using Some ds mem by blast
    with F1 g [OF ds] have "tree fs' (akey (ct @ ds)) = map_option (moved (akey cf) nm (akey (cf @ ds))) (Some nd)"
      using Some by metis
    then show ?thesis using Some ds f(1) by (simp add: moved_def)
  next
    case None
    have "akey (ct @ ds) \<notin> ?g ` set ks" using None ds t(1) by (auto simp: img)
    then show ?thesis using F2 clear ds None by simp
  qed
  show "tree fs' (akey (cf @ ds)) = None" if ds: "seg_ok ds" for ds
  proof -
    have "akey (cf @ ds) \<notin> ?g ` set ks"
    proof
      assume "akey (cf @ ds) \<in> ?g ` set ks"
      then obtain es where "seg_ok es" "akey (ct @ es) = akey (cf @ ds)" unfolding img by auto
      with dis [OF this(1) ds] show False by simp
    qed
    moreover have "akey (cf @ ds) \<in> set ks \<or> tree fs (akey (cf @ ds)) = None" using mem ds by blast
    ultimately show ?thesis using F2 by auto
  qed
  show B: "tree fs' (akey cs) = tree fs (akey cs)" if "seg_ok cs" "\<not> prefix cf cs" "\<not> prefix ct cs" for cs
  proof -
    have "akey cs \<notin> ?g ` set ks" using that t(1) by (auto simp: img)
    moreover have "akey cs \<notin> set ks" using that f(1) by (auto simp: mem)
    ultimately show ?thesis using F2 by auto
  qed
  show "\<exists>cs. seg_ok cs \<and> k = akey cs" if k: "tree fs' k \<noteq> None" for k
  proof (cases "k \<in> ?g ` set ks")
    case True
    then obtain ds where "k = akey (ct @ ds)" "seg_ok ds" unfolding img by blast
    then show ?thesis using t(1) by (intro exI [of _ "ct @ ds"]) simp
  next
    case False
    then have "tree fs k \<noteq> None" using F2 k by (auto split: if_splits)
    with ok show ?thesis by (rule tree_ok_key) blast
  qed
qed


section \<open>Rename\<close>

lemma rename_success:
  assumes ok: "tree_ok (tree fs)" and f: "plain from" "comps from \<noteq> []" and t: "mountable fs to"
    and ne: "comps to \<noteq> comps from"
    and r: "memfs_rename from to fs = (Some (Inr ()), fs')"
  shows "\<not> prefix (comps from) (comps to)" "\<not> prefix (comps to) (comps from)"
    and "\<And>ds. seg_ok ds \<Longrightarrow> ds \<noteq> [] \<Longrightarrow> tree fs (akey (comps to @ ds)) = None"
    and "fs_entries fs' = insert_ancestor_dirs (fs_entries (move_subtree (akey (comps from)) (akey (comps to))
       (final_component to) (entry_remove (akey (comps to)) fs))) to"
proof -
  have k: "normalize_key from = akey (comps from)" "normalize_key to = akey (comps to)"
    using f t by (auto simp: mountable_def normalize_plain)
  have t': "plain to" "comps to \<noteq> []" "no_file_above (tree fs) (comps to)" using t by (auto simp: mountable_def)
  obtain nd where nd: "tree fs (akey (comps from)) = Some nd"
    using r k by (auto simp: memfs_rename_def Let_def split: option.splits)
  have fin: "(is_dir_node nd \<longrightarrow> \<not> is_descendant (akey (comps from)) (akey (comps to))) \<and>
    (\<forall>dest. tree fs (akey (comps to)) = Some dest \<longrightarrow> is_dir_node nd = is_dir_node dest \<and>
       (is_dir_node nd \<longrightarrow> \<not> has_child (akey (comps to)) (fs_entries fs)))"
    using r nd ne unfolding memfs_rename_def k by (auto simp: Let_def split: option.splits if_splits)
  have "entry_remove (akey (comps to)) fs = fs" if "tree fs (akey (comps to)) = None"
    using that by (simp add: entry_remove_def)
  then show "fs_entries fs' = insert_ancestor_dirs (fs_entries (move_subtree (akey (comps from)) (akey (comps to))
       (final_component to) (entry_remove (akey (comps to)) fs))) to"
    using r nd ne unfolding memfs_rename_def k by (auto simp: Let_def split: option.splits if_splits)
  show clear: "tree fs (akey (comps to @ ds)) = None" if ds: "seg_ok ds" "ds \<noteq> []" for ds
  proof (rule ccontr)
    assume "tree fs (akey (comps to @ ds)) \<noteq> None"
    with ok ds have a: "dir_at (tree fs) (comps to)" "tree fs (akey (comps to @ [hd ds])) \<noteq> None"
      using tree_ok_above [OF ok _ ds(2)] by auto
    then have "has_child (akey (comps to)) (fs_entries fs)"
      using ds by (cases ds) (auto intro!: has_child_dir)
    with a(1) fin show False by (auto simp: dir_at_def)
  qed
  show "\<not> prefix (comps to) (comps from)"
  proof
    assume "prefix (comps to) (comps from)"
    then obtain ds where ds: "comps from = comps to @ ds" by (auto simp: prefix_def)
    then have "ds \<noteq> []" "seg_ok ds" using ne seg_ok_comps [of "from"] by auto
    with clear [of ds] ds nd show False by simp
  qed
  show "\<not> prefix (comps from) (comps to)"
  proof
    assume "prefix (comps from) (comps to)"
    then have sp: "strict_prefix (comps from) (comps to)" using ne by (auto simp: strict_prefix_def)
    then have "is_dir_node nd" using t'(3) nd by (fastforce simp: no_file_above_def dir_at_def)
    then show False using fin sp is_descendant_akey [OF seg_ok_comps seg_ok_comps f(2)] by blast
  qed
qed

lemma entry_remove_tree [simp]: "tree (entry_remove k fs) = (tree fs)(k := None)"
  by simp


text \<open>The effect of a successful rename on the map, with all the side conditions in one place.\<close>

lemma rename_map:
  assumes ok: "tree_ok (tree fs)" "distinct (map fst (fs_entries fs))"
    and f: "plain from" "comps from \<noteq> []" and t: "mountable fs to" and ne: "comps to \<noteq> comps from"
    and r: "memfs_rename from to fs = (Some (Inr ()), fs')"
  shows "\<And>ds. seg_ok ds \<Longrightarrow> tree fs' (akey (comps to @ ds)) = map_option
      (\<lambda>nd. if ds = [] then rename_node nd (last (comps to)) else nd) (tree fs (akey (comps from @ ds)))"
    and "\<And>ds. seg_ok ds \<Longrightarrow> tree fs' (akey (comps from @ ds)) = None"
    and "\<And>cs nd. seg_ok cs \<Longrightarrow> \<not> prefix (comps from) cs \<Longrightarrow> \<not> prefix (comps to) cs \<Longrightarrow>
      tree fs (akey cs) = Some nd \<Longrightarrow> tree fs' (akey cs) = Some nd"
    and "\<And>k nd. tree fs' k = Some nd \<Longrightarrow> \<exists>cs. seg_ok cs \<and> k = akey cs \<and> (prefix (comps to) cs
      \<or> tree fs k = Some nd \<and> \<not> prefix (comps from) cs
      \<or> strict_prefix cs (comps to) \<and> (\<exists>nm. nd = NDir nm \<and> (cs \<noteq> [] \<longrightarrow> nm = last cs)))"
    and "\<And>cs. strict_prefix cs (comps to) \<Longrightarrow> dir_at (tree fs') cs"
proof -
  have t': "plain to" "comps to \<noteq> []" "no_file_above (tree fs) (comps to)" using t by (auto simp: mountable_def)
  note R = rename_success [OF ok(1) f t ne r]
  let ?g = "entry_remove (akey (comps to)) fs"
  let ?h = "move_subtree (akey (comps from)) (akey (comps to)) (final_component to) ?g"
  have nm: "final_component to = last (comps to)" using t' by (simp add: final_component_plain)
  have g: "tree ?g = (tree fs)(akey (comps to) := None)" by simp
  have gok: "tree_ok (tree ?g)" unfolding g
  proof (rule tree_ok_delete [OF ok(1) _ refl seg_ok_comps])
    fix k nd
    assume k: "tree fs k = Some nd" "parent_key k = Some (akey (comps to))" "k \<noteq> akey (comps to)"
    from ok(1) k(1) obtain cs where cs: "seg_ok cs" "k = akey cs" by (auto elim: tree_ok_key)
    with k(2,3) have "cs = comps to @ [last cs]" "seg_ok [last cs]"
      by (auto simp: parent_key_iff split: if_splits) (metis append_butlast_last_id seg_ok_simps(2,3))+
    with R(3) [of "[last cs]"] k(1) cs(2) show False by simp
  qed
  have gd: "distinct (map fst (fs_entries ?g))" using ok(2) by (simp add: distinct_delete_keys)
  have clear: "\<forall>ds. seg_ok ds \<longrightarrow> tree ?g (akey (comps to @ ds)) = None" using R(3) by auto
  note M = move_subtree_map [OF gok gd seg_ok_comps f(2) seg_ok_comps t'(2) R(1,2) clear refl [of ?h]]
  have gf: "tree ?g (akey (comps from @ ds)) = tree fs (akey (comps from @ ds))" if "seg_ok ds" for ds
  proof -
    have "comps from @ ds \<noteq> comps to" using R(1) prefixI by metis
    then show ?thesis using that by simp
  qed
  have old: "tree fs' k = Some nd \<Longrightarrow> tree ?h k = Some nd \<or> (tree ?h k = None \<and>
      (\<exists>cs nm. strict_prefix cs (comps to) \<and> k = akey cs \<and> nd = NDir nm \<and> (cs \<noteq> [] \<longrightarrow> nm = last cs)))" for k nd
    using ancestors_old [OF t'(1,2)] R(4) by simp
  have keep: "tree ?h k = Some nd \<Longrightarrow> tree fs' k = Some nd" for k nd
    using insert_ancestor_dirs_keep R(4) by simp
  show "tree fs' (akey (comps to @ ds)) = map_option
      (\<lambda>nd. if ds = [] then rename_node nd (last (comps to)) else nd) (tree fs (akey (comps from @ ds)))"
    if ds: "seg_ok ds" for ds
  proof -
    have "tree fs' (akey (comps to @ ds)) = tree ?h (akey (comps to @ ds))"
    proof (cases "tree ?h (akey (comps to @ ds))")
      case None
      then show ?thesis
        using old [of "akey (comps to @ ds)"] ds seg_ok_prefix [of _ "comps to"]
        by (cases "tree fs' (akey (comps to @ ds))") (auto simp: strict_prefix_def)
    qed (simp add: keep)
    also note M(1) [OF ds]
    finally show ?thesis unfolding gf [OF ds] nm .
  qed
  show "tree fs' (akey (comps from @ ds)) = None" if ds: "seg_ok ds" for ds
  proof (cases "tree fs' (akey (comps from @ ds))")
    case (Some nd)
    with old M(2) [OF ds] obtain cs where cs: "strict_prefix cs (comps to)" "akey (comps from @ ds) = akey cs" by force
    then have "cs = comps from @ ds" using ds seg_ok_prefix [of cs "comps to"] by (simp add: strict_prefix_def)
    then have "prefix (comps from) (comps to)" using cs(1) by (metis append_prefixD strict_prefix_def)
    then show ?thesis using R(1) by simp
  qed
  show "tree fs' (akey cs) = Some nd" if "seg_ok cs" "\<not> prefix (comps from) cs" "\<not> prefix (comps to) cs"
    "tree fs (akey cs) = Some nd" for cs nd
  proof -
    have "tree ?h (akey cs) = tree ?g (akey cs)" by (rule M(3) [OF that(1-3)])
    moreover have "cs \<noteq> comps to" using that(3) by auto
    ultimately show ?thesis using that keep by simp
  qed
  show "dir_at (tree fs') cs" if sp: "strict_prefix cs (comps to)" for cs
    unfolding R(4)
  proof (rule ancestors_dirs [OF t'(1,2) _ sp])
    show "no_file_above (tree ?h) (comps to)"
      unfolding no_file_above_def
    proof (intro allI impI)
      fix ds
      assume sp: "strict_prefix ds (comps to)"
      then have so: "seg_ok ds" and np: "\<not> prefix (comps to) ds" "\<not> prefix (comps from) ds"
        using seg_ok_prefix [of ds "comps to"] R(1) prefix_order.less_le_not_le prefix_order.order_trans
        by (auto simp: strict_prefix_def)
      have "tree ?h (akey ds) = tree ?g (akey ds)" by (rule M(3) [OF so np(2,1)])
      moreover have "ds \<noteq> comps to" using np(1) by auto
      moreover have "tree fs (akey ds) = None \<or> dir_at (tree fs) ds" using t'(3) sp by (simp add: no_file_above_def)
      ultimately show "tree ?h (akey ds) = None \<or> dir_at (tree ?h) ds" using so by (auto simp: dir_at_def)
    qed
  qed
  show "\<exists>cs. seg_ok cs \<and> k = akey cs \<and> (prefix (comps to) cs
      \<or> tree fs k = Some nd \<and> \<not> prefix (comps from) cs
      \<or> strict_prefix cs (comps to) \<and> (\<exists>nm. nd = NDir nm \<and> (cs \<noteq> [] \<longrightarrow> nm = last cs)))"
    if k: "tree fs' k = Some nd" for k nd
    using old [OF k]
  proof (elim disjE conjE exE)
    assume h: "tree ?h k = Some nd"
    then obtain cs where cs: "seg_ok cs" "k = akey cs" using M(4) by blast
    show ?thesis
    proof (cases "prefix (comps to) cs \<or> prefix (comps from) cs")
      case True
      then show ?thesis using cs h M(2) by (auto simp: prefix_def)
    next
      case False
      then have "tree ?g (akey cs) = Some nd" using h M(3) [OF cs(1)] cs(2) by simp
      then show ?thesis using False cs by (auto split: if_splits)
    qed
  next
    fix cs nm
    assume "strict_prefix cs (comps to)" "k = akey cs" "nd = NDir nm" "cs \<noteq> [] \<longrightarrow> nm = last cs"
    then show ?thesis using seg_ok_prefix [of cs "comps to"] by (auto simp: strict_prefix_def)
  qed
qed


lemma rename_tree:
  assumes ok: "tree_ok (tree fs)" "distinct (map fst (fs_entries fs))"
    and f: "plain from" "comps from \<noteq> []" and t: "mountable fs to" and ne: "comps to \<noteq> comps from"
    and r: "memfs_rename from to fs = (Some (Inr ()), fs')"
  shows "tree_ok (tree fs')"
  unfolding tree_ok_def
proof (intro allI impI)
  fix k nd
  assume k: "tree fs' k = Some nd"
  note M = rename_map [OF assms] and R = rename_success [OF ok(1) f t ne r]
  have tne: "comps to \<noteq> []" using t by (simp add: mountable_def)
  from M(4) [OF k] obtain cs where cs: "seg_ok cs" "k = akey cs" and c: "prefix (comps to) cs
      \<or> tree fs k = Some nd \<and> \<not> prefix (comps from) cs
      \<or> strict_prefix cs (comps to) \<and> (\<exists>nm. nd = NDir nm \<and> (cs \<noteq> [] \<longrightarrow> nm = last cs))" by blast
  have "node_name nd = last cs \<and> dir_at (tree fs') (butlast cs)" if nz: "cs \<noteq> []"
  proof (cases "prefix (comps to) cs")
    case True
    then obtain ds where ds: "cs = comps to @ ds" by (auto simp: prefix_def)
    then have so: "seg_ok ds" using cs(1) by simp
    obtain nd0 where nd0: "tree fs (akey (comps from @ ds)) = Some nd0"
      and nd: "nd = (if ds = [] then rename_node nd0 (last (comps to)) else nd0)"
      using M(1) [OF so] k cs(2) ds by auto
    have nn: "node_name (rename_node x y) = y" for x y by (cases x) auto
    show ?thesis
    proof (cases "ds = []")
      case True
      then show ?thesis using ds nd nn M(5) [OF butlast_strict [OF tne]] by simp
    next
      case False
      from tree_okE [OF ok(1) nd0] obtain es where es: "seg_ok es" "akey (comps from @ ds) = akey es"
        "es \<noteq> [] \<Longrightarrow> node_name nd0 = last es" "es \<noteq> [] \<Longrightarrow> dir_at (tree fs) (butlast es)" by metis
      then have e: "es = comps from @ ds" using so by simp
      then obtain nm where "tree fs (akey (comps from @ butlast ds)) = Some (NDir nm)"
        using es(4) False by (auto simp: dir_at_def butlast_append)
      with M(1) [OF seg_ok_butlast [OF so]] have "dir_at (tree fs') (comps to @ butlast ds)"
        unfolding dir_at_def by (cases "butlast ds = []") simp_all
      then show ?thesis using ds nd False es(3) e by (simp add: butlast_append)
    qed
  next
    case np: False
    with c consider (new) nm where "strict_prefix cs (comps to)" "nd = NDir nm" "nm = last cs"
      | (old) "tree fs k = Some nd" "\<not> prefix (comps from) cs" using nz by blast
    then show ?thesis
    proof cases
      case new
      then show ?thesis using M(5) butlast_strict [OF nz] by (auto intro: prefix_order.less_trans)
    next
      case old
      from tree_okE [OF ok(1) old(1)] obtain es where es: "seg_ok es" "k = akey es"
        "es \<noteq> [] \<Longrightarrow> node_name nd = last es" "es \<noteq> [] \<Longrightarrow> dir_at (tree fs) (butlast es)" by metis
      then have e: "es = cs" using cs by simp
      have "\<not> prefix (comps from) (butlast cs)" "\<not> prefix (comps to) (butlast cs)"
        using old(2) np prefixeq_butlast [of cs] prefix_order.order_trans by blast+
      then show ?thesis using es e nz M(3) [OF seg_ok_butlast [OF cs(1)]] by (auto simp: dir_at_def)
    qed
  qed
  with cs show "\<exists>cs. seg_ok cs \<and> k = akey cs \<and>
      (cs \<noteq> [] \<longrightarrow> node_name nd = last cs \<and> dir_at (tree fs') (butlast cs))" by blast
qed

lemma rename_error_unchanged: "memfs_rename a b fs = (r, fs') \<Longrightarrow> r \<noteq> Some (Inr ()) \<Longrightarrow> fs' = fs"
  by (auto simp: memfs_rename_def Let_def split: option.splits if_splits)

lemma rename_same: "normalize_key b = normalize_key a \<Longrightarrow> snd (memfs_rename a b fs) = fs"
  by (simp add: memfs_rename_def Let_def split: option.splits)

section \<open>Properties\<close>

text \<open>C3. A successful rename of a path to a different one moves the whole subtree: every node
  under the old path reappears at the same place under the new one (the moved root under
  its new name), nothing stays under the old path, every other node is untouched, and the
  ancestors of the new path are directories.\<close>

theorem rename_moves_subtree:
  assumes "tree_ok (tree fs)" "distinct (map fst (fs_entries fs))"
    and "plain from" "comps from \<noteq> []" "mountable fs to" "comps to \<noteq> comps from"
    and "memfs_rename from to fs = (Some (Inr ()), fs')"
  shows "(\<forall>ds. seg_ok ds \<longrightarrow> tree fs' (akey (comps to @ ds)) = map_option
        (\<lambda>nd. if ds = [] then rename_node nd (last (comps to)) else nd) (tree fs (akey (comps from @ ds))))
    \<and> (\<forall>ds. seg_ok ds \<longrightarrow> tree fs' (akey (comps from @ ds)) = None)
    \<and> (\<forall>cs nd. seg_ok cs \<longrightarrow> \<not> prefix (comps from) cs \<longrightarrow> \<not> prefix (comps to) cs \<longrightarrow>
        tree fs (akey cs) = Some nd \<longrightarrow> tree fs' (akey cs) = Some nd)
    \<and> (\<forall>cs. strict_prefix cs (comps to) \<longrightarrow> dir_at (tree fs') cs)"
  using rename_map(1-3,5) [OF assms] by blast

lemma demo_rename: "fst (memfs_rename ''/d'' ''/e'' demo_tree) = Some (Inr ())" "mountable demo_tree ''/e''"
proof -
  show "fst (memfs_rename ''/d'' ''/e'' demo_tree) = Some (Inr ())" by code_simp
  have "ds = []" if "strict_prefix ds [''e'']" for ds using that by (cases ds) auto
  then show "mountable demo_tree ''/e''"
    by (auto simp: mountable_def demo_plain no_file_above_def dir_at_def demo_tree_entries)
qed

theorem rename_moves_subtree_witness:
  "tree (snd (memfs_rename ''/d'' ''/e'' demo_tree)) (akey [''e'', ''x'']) = Some (NDir ''x'')
   \<and> tree (snd (memfs_rename ''/d'' ''/e'' demo_tree)) (akey [''d'']) = None"
proof -
  have r: "memfs_rename ''/d'' ''/e'' demo_tree = (Some (Inr ()), snd (memfs_rename ''/d'' ''/e'' demo_tree))"
    using demo_rename(1) by (metis prod.collapse)
  have x: "seg_ok [''x'']" by (simp add: SEP_def)
  have t: "tree demo_tree (akey [''d'', ''x'']) = Some (NDir ''x'')" by (simp add: demo_tree_entries demo_plain)
  note P = rename_moves_subtree [OF demo_tree_ok(1,2) demo_plain(2) _ demo_rename(2) _ r]
  have "comps ''/d'' \<noteq> []" "comps ''/e'' \<noteq> comps ''/d''" by (simp_all add: demo_plain)
  from P [OF this] x t show ?thesis unfolding demo_plain(5,6) by force
qed



end
