(* ===== verification/Overlay.thy ===== *)
theory Overlay
  imports Memory_Tree
begin

text \<open>
  \<^verbatim>\<open>crates/hookfs/src/providers/overlay.rs\<close>: a stack of providers, every call answered by the
  first layer that does not decline it.  The overlay's state is the list of its layers'
  states; a handle carries the index of the layer that opened it, which is what dynamic
  dispatch on the boxed stream does.  The locale \<open>query_provider\<close> is the contract the shims
  rely on for the read-only calls of a provider; \<open>MemoryFs\<close> keeps it, and an overlay of
  providers that keep it keeps it.
\<close>

section \<open>The overlay\<close>

fun find_map ::
  "(('v, 'h) vfs_ops \<Rightarrow> 'v \<Rightarrow> 'r option \<times> 'v) \<Rightarrow> nat \<Rightarrow> ('v, 'h) vfs_ops list \<Rightarrow> 'v list \<Rightarrow>
     (nat \<times> 'r) option \<times> 'v list" where
  "find_map f i (layer # layers) (v # vs) =
     (case f layer v of
        (Some r, v') \<Rightarrow> (Some (i, r), v' # vs)
      | (None, v') \<Rightarrow> (case find_map f (Suc i) layers vs of (r, vs') \<Rightarrow> (r, v' # vs')))"
| "find_map f i _ vs = (None, vs)"

definition find_value ::
  "(('v, 'h) vfs_ops \<Rightarrow> 'v \<Rightarrow> 'r option \<times> 'v) \<Rightarrow> ('v, 'h) vfs_ops list \<Rightarrow> 'v list \<Rightarrow> 'r option \<times> 'v list" where
  "find_value f layers vs = apfst (map_option snd) (find_map f 0 layers vs)"

definition find_handle ::
  "(('v, 'h) vfs_ops \<Rightarrow> 'v \<Rightarrow> 'h io_result option \<times> 'v) \<Rightarrow> ('v, 'h) vfs_ops list \<Rightarrow> 'v list \<Rightarrow>
     (nat \<times> 'h) io_result option \<times> 'v list" where
  "find_handle f layers vs = apfst (map_option (\<lambda>(i, r). map_sum id (Pair i) r)) (find_map f 0 layers vs)"

definition on_layer ::
  "('v, 'h) vfs_ops list \<Rightarrow> nat \<times> 'h \<Rightarrow> (('v, 'h) vfs_ops \<Rightarrow> 'h \<Rightarrow> 'v \<Rightarrow> 'r io_result \<times> 'h \<times> 'v) \<Rightarrow>
     'v list \<Rightarrow> 'r io_result \<times> (nat \<times> 'h) \<times> 'v list" where
  "on_layer layers ih f vs =
     (let i = fst ih in
      if i < length layers \<and> i < length vs then
        (case f (layers ! i) (snd ih) (vs ! i) of (r, h', v') \<Rightarrow> (r, (i, h'), vs[i := v']))
      else (Inl dangling, ih, vs))"

definition overlay_open where
  "overlay_open layers path opts = find_handle (\<lambda>l. v_open l path opts) layers"

definition overlay_metadata where
  "overlay_metadata layers path = find_value (\<lambda>l. v_metadata l path) layers"

definition overlay_read_dir where
  "overlay_read_dir layers path = find_value (\<lambda>l. v_read_dir l path) layers"

definition overlay_exists where
  "overlay_exists layers path = find_value (\<lambda>l. v_exists l path) layers"

definition overlay_open_write where
  "overlay_open_write layers path opts = find_handle (\<lambda>l. v_open_write l path opts) layers"

definition overlay_remove where
  "overlay_remove layers path = find_value (\<lambda>l. v_remove l path) layers"

definition overlay_rename where
  "overlay_rename layers from to = find_value (\<lambda>l. v_rename l from to) layers"

definition overlay_create_dir where
  "overlay_create_dir layers path = find_value (\<lambda>l. v_create_dir l path) layers"

definition overlay_set_len where
  "overlay_set_len layers path len = find_value (\<lambda>l. v_set_len l path len) layers"

definition overlay_volume_info where
  "overlay_volume_info layers = find_value v_volume_info layers"

definition overlay_ops :: "('v, 'h) vfs_ops list \<Rightarrow> ('v list, nat \<times> 'h) vfs_ops" where
  "overlay_ops layers =
     \<lparr>v_open = overlay_open layers,
      v_metadata = overlay_metadata layers,
      v_read_dir = overlay_read_dir layers,
      v_exists = overlay_exists layers,
      v_open_write = overlay_open_write layers,
      v_remove = overlay_remove layers,
      v_rename = overlay_rename layers,
      v_create_dir = overlay_create_dir layers,
      v_set_len = overlay_set_len layers,
      v_volume_info = overlay_volume_info layers,
      h_read = (\<lambda>ih n. on_layer layers ih (\<lambda>l h. h_read l h n)),
      h_seek = (\<lambda>ih sf. on_layer layers ih (\<lambda>l h. h_seek l h sf)),
      h_position = (\<lambda>ih. on_layer layers ih h_position),
      h_size = (\<lambda>ih. on_layer layers ih h_size),
      h_write = (\<lambda>ih buf. on_layer layers ih (\<lambda>l h. h_write l h buf)),
      h_set_len = (\<lambda>ih len. on_layer layers ih (\<lambda>l h. h_set_len l h len)),
      h_flush = (\<lambda>ih. on_layer layers ih h_flush),
      h_drop = (\<lambda>ih vs. if fst ih < length layers \<and> fst ih < length vs
                then vs[fst ih := h_drop (layers ! fst ih) (snd ih) (vs ! fst ih)] else vs)\<rparr>"

lemmas overlay_defs = overlay_ops_def overlay_open_def overlay_metadata_def overlay_read_dir_def
  overlay_exists_def overlay_open_write_def overlay_remove_def overlay_rename_def
  overlay_create_dir_def overlay_set_len_def overlay_volume_info_def

section \<open>First match wins\<close>

lemma find_map_length: "length (snd (find_map f i layers vs)) = length vs"
  by (induction f i layers vs rule: find_map.induct) (auto split: prod.splits option.splits)

text \<open>The answer is that of the first layer that does not decline; the layers behind it are not
  consulted.\<close>

lemma find_map_Some:
  assumes "find_map f i layers vs = (Some (j, r), vs')"
  shows "i \<le> j \<and> j - i < length layers \<and> j - i < length vs
    \<and> f (layers ! (j - i)) (vs ! (j - i)) = (Some r, vs' ! (j - i))
    \<and> (\<forall>k < j - i. f (layers ! k) (vs ! k) = (None, vs' ! k))
    \<and> drop (Suc (j - i)) vs' = drop (Suc (j - i)) vs"
  using assms
proof (induction f i layers vs arbitrary: vs' rule: find_map.induct)
  case (1 f i layer layers v vs)
  show ?case
  proof (cases "f layer v")
    case (Pair r0 v')
    show ?thesis
    proof (cases r0)
      case (Some a)
      then show ?thesis using 1 Pair by auto
    next
      case None
      with 1 Pair obtain vs1 where vs1: "find_map f (Suc i) layers vs = (Some (j, r), vs1)" "vs' = v' # vs1"
        by (auto split: prod.splits)
      note IH = "1.IH" [OF Pair [symmetric] None vs1(1)]
      then have "j - i = Suc (j - Suc i)" "i \<le> j" by auto
      with IH Pair None vs1(2) show ?thesis by (auto simp: less_Suc_eq_0_disj)
    qed
  qed
qed simp_all

lemma find_map_None:
  assumes "find_map f i layers vs = (None, vs')" "length layers = length vs"
  shows "\<forall>k < length layers. f (layers ! k) (vs ! k) = (None, vs' ! k)"
  using assms
proof (induction f i layers vs arbitrary: vs' rule: find_map.induct)
  case (1 f i layer layers v vs)
  then show ?case by (fastforce split: prod.splits option.splits simp: less_Suc_eq_0_disj)
qed auto

lemma find_map_shift:
  "map_option snd (fst (find_map f i layers vs)) = map_option snd (fst (find_map f j layers vs))"
proof (induction f i layers vs arbitrary: j rule: find_map.induct)
  case (1 f i layer layers v vs)
  show ?case
  proof (cases "f layer v")
    case (Pair r v')
    then show ?thesis
      using "1.IH" [OF Pair [symmetric], of "Suc j"] by (cases r) (auto split: prod.splits simp: split_def)
  qed
qed simp_all

section \<open>The contract of the read-only calls\<close>

locale query_provider =
  fixes ops :: "('v, 'h) vfs_ops"
  assumes metadata_pure: "snd (v_metadata ops p v) = v"
    and read_dir_pure: "snd (v_read_dir ops p v) = v"
    and exists_pure: "snd (v_exists ops p v) = v"
    and volume_pure: "snd (v_volume_info ops v) = v"
    and exists_metadata: "fst (v_exists ops p v) = map_option (\<lambda>r. \<not> isl r) (fst (v_metadata ops p v))"
begin

lemma exists_eq: "v_exists ops p v = (map_option (\<lambda>r. \<not> isl r) (fst (v_metadata ops p v)), v)"
  using exists_pure exists_metadata by (metis prod.collapse)

lemma metadata_eq: "v_metadata ops p v = (fst (v_metadata ops p v), v)"
  using metadata_pure by (metis prod.collapse)

end

interpretation mem_queries: query_provider "memory_fs_ops sops umax"
  by unfold_locales
    (auto simp: memory_fs_ops_def memfs_metadata_def memfs_read_dir_def default_exists_def
      memfs_volume_info_def Let_def split: option.splits node.splits)

lemma find_map_pure:
  "(\<And>l v. l \<in> set layers \<Longrightarrow> snd (f l v) = v) \<Longrightarrow> snd (find_map f i layers vs) = vs"
proof (induction f i layers vs rule: find_map.induct)
  case (1 f i layer layers v vs)
  have "snd (f layer v) = v" using 1 by simp
  then show ?case using 1 by (cases "f layer v") (auto split: option.splits prod.splits)
qed simp_all

lemma find_value_pure:
  "(\<And>l v. l \<in> set layers \<Longrightarrow> snd (f l v) = v) \<Longrightarrow> snd (find_value f layers vs) = vs"
  by (simp add: find_value_def find_map_pure)

lemma find_map_related:
  assumes "\<And>l v. l \<in> set layers \<Longrightarrow> fst (g l v) = map_option h (fst (f l v))"
    and "\<And>l v. l \<in> set layers \<Longrightarrow> snd (f l v) = v" "\<And>l v. l \<in> set layers \<Longrightarrow> snd (g l v) = v"
  shows "fst (find_map g i layers vs) = map_option (apsnd h) (fst (find_map f i layers vs))"
  using assms
proof (induction f i layers vs rule: find_map.induct)
  case (1 f i layer layers v vs)
  have "fst (g layer v) = map_option h (fst (f layer v))" using 1 by simp
  then show ?case using 1 by (cases "f layer v"; cases "g layer v") (auto split: option.splits prod.splits)
qed simp_all

lemma overlay_query_provider:
  assumes "\<And>l. l \<in> set layers \<Longrightarrow> query_provider l"
  shows "query_provider (overlay_ops layers)"
proof (unfold_locales, goal_cases)
  case (5 p vs)
  have "fst (find_map (\<lambda>l. v_exists l p) 0 layers vs) =
      map_option (apsnd (\<lambda>r. \<not> isl r)) (fst (find_map (\<lambda>l. v_metadata l p) 0 layers vs))"
    using assms by (intro find_map_related) (auto dest: query_provider.exists_metadata
        query_provider.exists_pure query_provider.metadata_pure)
  then show ?case by (simp add: overlay_defs find_value_def option.map_comp comp_def)
qed (use assms in \<open>auto simp: overlay_defs intro!: find_value_pure
      dest: query_provider.metadata_pure query_provider.read_dir_pure query_provider.exists_pure
        query_provider.volume_pure\<close>)

interpretation overlay_queries: query_provider "overlay_ops (replicate n (memory_fs_ops sops umax))"
  by (rule overlay_query_provider) (auto intro: mem_queries.query_provider_axioms)

section \<open>Properties\<close>

text \<open>An overlay answers an open with the first layer that does not decline it: every layer in
  front of it declined, the layers behind it were not consulted, and the handle belongs to
  that layer.\<close>

theorem overlay_open_first_match:
  assumes "overlay_open layers path opts vs = (Some (Inr (j, h)), vs')"
  shows "j < length layers \<and> j < length vs
    \<and> v_open (layers ! j) path opts (vs ! j) = (Some (Inr h), vs' ! j)
    \<and> (\<forall>k < j. v_open (layers ! k) path opts (vs ! k) = (None, vs' ! k))
    \<and> drop (Suc j) vs' = drop (Suc j) vs"
proof -
  obtain a w where f: "find_map (\<lambda>l. v_open l path opts) 0 layers vs = (a, w)" by fastforce
  with assms obtain i r where a: "a = Some (i, r)" by (auto simp: overlay_open_def find_handle_def)
  then have "w = vs'" "map_sum id (Pair i) r = Inr (j, h)"
    using assms f by (simp_all add: overlay_open_def find_handle_def)
  then have r: "i = j" "r = Inr h" "w = vs'" by (cases r; simp)+
  show ?thesis using find_map_Some [OF f [unfolded a]] r by simp
qed

definition two_layers :: "(mem_file \<times> u64) memfs list" where
  "two_layers = [memfs_new 0, snd (memfs_insert_writable ''/a'' (memfs_new 0))]"

lemma two_layers_entry:
  "map_of (fs_entries (two_layers ! 1)) (normalize_key ''/a'') = Some (NMem 0 ''a'')"
proof -
  have "normalize_key ''/a'' = ''/a''" "final_component ''/a'' = ''a''" by code_simp+
  then show ?thesis
    by (simp add: two_layers_def memfs_new_def memfs_with_capacity_def memfs_insert_writable_def
        arc_new_def insert_ancestor_dirs_keep Let_def)
qed

lemma two_layers_open:
  "fst (overlay_open (replicate 2 (memory_fs_ops (mem_handle_ops U64_MAX) U64_MAX)) ''/a'' oo_read_only two_layers)
     = Some (Inr (1, HMem 0 0))"
  using two_layers_entry
  by (simp add: two_layers_def overlay_open_def find_handle_def numeral_2_eq_2 memory_fs_ops_def
      memfs_open_def memfs_new_def memfs_with_capacity_def)

theorem overlay_open_first_match_witness:
  "\<exists>h vs'. overlay_open (replicate 2 (memory_fs_ops (mem_handle_ops U64_MAX) U64_MAX)) ''/a'' oo_read_only
      two_layers = (Some (Inr (1, h)), vs')
    \<and> v_open (memory_fs_ops (mem_handle_ops U64_MAX) U64_MAX) ''/a'' oo_read_only (two_layers ! 1) =
        (Some (Inr h), vs' ! 1)"
proof -
  obtain vs' where o: "overlay_open (replicate 2 (memory_fs_ops (mem_handle_ops U64_MAX) U64_MAX)) ''/a''
      oo_read_only two_layers = (Some (Inr (1, HMem 0 0)), vs')"
    using two_layers_open by (metis prod.collapse)
  from overlay_open_first_match [OF o] o show ?thesis by (auto simp: numeral_2_eq_2)
qed

text \<open>A path that an upper \<open>MemoryFs\<close> layer does not know: lookups fall through to the layers
  below, but unlinking, renaming or truncating it is answered by the upper layer itself, with
  a not-found error, so the file a lookup finds below cannot be changed through the overlay.\<close>

theorem overlay_memory_layer_hides_mutations:
  assumes "map_of (fs_entries fs) (normalize_key path) = None"
  shows "fst (overlay_metadata (memory_fs_ops sops umax # layers) path (fs # vs)) =
      fst (overlay_metadata layers path vs)
    \<and> overlay_remove (memory_fs_ops sops umax # layers) path (fs # vs) =
      (Some (Inl (Simple NotFound)), fs # vs)
    \<and> overlay_rename (memory_fs_ops sops umax # layers) path to (fs # vs) =
      (Some (Inl (Simple NotFound)), fs # vs)
    \<and> overlay_set_len (memory_fs_ops sops umax # layers) path len (fs # vs) =
      (Some (Inl (Simple NotFound)), fs # vs)"
proof -
  let ?m = "\<lambda>i. find_map (\<lambda>l. v_metadata l path) i layers vs"
  have "map_option snd (fst (?m (Suc 0))) = map_option snd (fst (?m 0))" by (rule find_map_shift)
  then have "fst (overlay_metadata (memory_fs_ops sops umax # layers) path (fs # vs)) =
      fst (overlay_metadata layers path vs)"
    using assms by (simp add: overlay_metadata_def find_value_def memory_fs_ops_def memfs_metadata_def
        metadata_for_def split_def)
  then show ?thesis
    using assms
    by (simp add: overlay_remove_def overlay_rename_def overlay_set_len_def find_value_def
        memory_fs_ops_def memfs_remove_def memfs_rename_def memfs_set_len_def Let_def)
qed

theorem overlay_memory_layer_hides_mutations_witness:
  "fst (overlay_metadata (replicate 2 (memory_fs_ops (mem_handle_ops U64_MAX) U64_MAX)) ''/a'' two_layers) \<noteq> None
   \<and> fst (overlay_remove (replicate 2 (memory_fs_ops (mem_handle_ops U64_MAX) U64_MAX)) ''/a'' two_layers) =
       Some (Inl (Simple NotFound))"
proof -
  let ?ops = "memory_fs_ops (mem_handle_ops U64_MAX) U64_MAX"
  have "map_of (fs_entries (memfs_new 0)) (normalize_key ''/a'') = None"
    by (simp add: memfs_new_def memfs_with_capacity_def)
  note H = overlay_memory_layer_hides_mutations [OF this, where sops = "mem_handle_ops U64_MAX" and umax = U64_MAX and layers = "[?ops]"]
  have "fst (overlay_metadata [?ops] ''/a'' [snd (memfs_insert_writable ''/a'' (memfs_new 0))]) \<noteq> None"
    using two_layers_entry
    by (simp add: overlay_metadata_def find_value_def memory_fs_ops_def memfs_metadata_def
        metadata_for_def two_layers_def)
  with H show ?thesis by (simp add: two_layers_def numeral_2_eq_2)
qed

end
