(* ===== verification/Pe_Parser.thy ===== *)
theory Pe_Parser
  imports Elf_Parser
begin

unbundle bit_operations_syntax

text \<open>
  \<^verbatim>\<open>crates/plthook/src/pe.rs\<close>: the import tables of a loaded PE image.  An image is the range
  \<open>[base, base + size)\<close> of the process's memory, a relative virtual address is an offset into it, and
  \<open>memory\<close> gives the byte at an address.  Offsets are \<open>usize\<close>; every sum the parser forms without a
  check has summands below \<open>2 ^ 63\<close>, so it is exact on natural numbers.
\<close>

section \<open>Constants\<close>

definition IMAGE_ORDINAL_FLAG64 :: "64 word" where "IMAGE_ORDINAL_FLAG64 = 0x8000000000000000"
definition MAGIC_PE32_PLUS :: nat where "MAGIC_PE32_PLUS = 0x020B"
definition MAGIC_PE32 :: nat where "MAGIC_PE32 = 0x010B"
definition DIRECTORY_ENTRY_IMPORT :: nat where "DIRECTORY_ENTRY_IMPORT = 1"
definition DIRECTORY_ENTRY_DELAY_IMPORT :: nat where "DIRECTORY_ENTRY_DELAY_IMPORT = 13"
definition IMPORT_DESCRIPTOR_SIZE :: nat where "IMPORT_DESCRIPTOR_SIZE = 20"
definition DELAY_DESCRIPTOR_SIZE :: nat where "DELAY_DESCRIPTOR_SIZE = 32"
definition THUNK_SIZE :: nat where "THUNK_SIZE = 8"
definition MAX_DESCRIPTORS :: nat where "MAX_DESCRIPTORS = 8192"
definition MAX_THUNKS :: nat where "MAX_THUNKS = 1048576"

definition IMAGE_FILE_MACHINE_AMD64 :: nat where "IMAGE_FILE_MACHINE_AMD64 = 0x8664"
definition IMAGE_FILE_MACHINE_ARM64 :: nat where "IMAGE_FILE_MACHINE_ARM64 = 0xAA64"

section \<open>The mapped image\<close>

text \<open>\<open>mi_host\<close> is the machine the engine is compiled for.\<close>

record mapped_image =
  mi_base :: nat
  mi_size :: nat
  mi_memory :: "nat \<Rightarrow> byte"
  mi_host :: nat

definition pe_read :: "mapped_image \<Rightarrow> nat \<Rightarrow> nat \<Rightarrow> byte list plt_result" where
  "pe_read img n offset =
     and_then (ok_or (Malformed ''offset arithmetic overflow'') (checked_add offset n)) (\<lambda>end'.
     if mi_size img < end' then Inl (Malformed ''read past end of mapped image'')
     else
       and_then (ok_or (Malformed ''address arithmetic overflow'') (checked_add (mi_base img) offset)) (\<lambda>addr.
         Inr (map (\<lambda>i. mi_memory img (addr + i)) [0 ..< n])))"

definition pe_u16 :: "mapped_image \<Rightarrow> nat \<Rightarrow> nat plt_result" where
  "pe_u16 img offset = and_then (pe_read img 2 offset) (\<lambda>b. Inr (le_nat b))"

definition u32_as_usize :: "mapped_image \<Rightarrow> nat \<Rightarrow> nat plt_result" where
  "u32_as_usize img offset = and_then (pe_read img 4 offset) (\<lambda>b. Inr (le_nat b))"

definition pe_thunk :: "mapped_image \<Rightarrow> nat \<Rightarrow> 64 word plt_result" where
  "pe_thunk img offset = and_then (pe_read img 8 offset) (\<lambda>b. Inr (from_le_bytes b))"

text \<open>At most \<open>n\<close> more bytes may be collected; the code reports the string after the one too many.\<close>

fun pe_cstr_loop :: "mapped_image \<Rightarrow> nat \<Rightarrow> nat \<Rightarrow> string \<Rightarrow> string plt_result" where
  "pe_cstr_loop img 0 cursor bytes = Inl (Malformed ''unterminated import name string'')"
| "pe_cstr_loop img (Suc n) cursor bytes =
     and_then (pe_read img 1 cursor) (\<lambda>b.
       if hd b = 0 then Inr (from_utf8_lossy bytes)
       else pe_cstr_loop img n (cursor + 1) (bytes @ [char_of (unat (hd b))]))"

definition pe_cstr :: "mapped_image \<Rightarrow> nat \<Rightarrow> string plt_result" where
  "pe_cstr img offset = pe_cstr_loop img (MAX_NAME_LEN + 1) offset []"

definition pe_slot_address :: "mapped_image \<Rightarrow> nat \<Rightarrow> nat plt_result" where
  "pe_slot_address img rva =
     and_then (ok_or (Malformed ''slot arithmetic overflow'') (checked_add rva THUNK_SIZE)) (\<lambda>end'.
     if mi_size img < end' then Inl (Malformed ''import slot past end of mapped image'')
     else if rva mod 8 \<noteq> 0 then Inl (Malformed ''import slot is not pointer-aligned'')
     else ok_or (Malformed ''slot address overflow'') (checked_add (mi_base img) rva))"

definition field_rva :: "mapped_image \<Rightarrow> nat \<Rightarrow> bool \<Rightarrow> nat plt_result" where
  "field_rva img field uses_rva =
     (if uses_rva then Inr field
      else if field < mi_base img then Inl (Malformed ''delay-import absolute VA below module base'')
      else if mi_size img \<le> field - mi_base img
      then Inl (Malformed ''delay-import absolute VA outside mapped image'')
      else Inr (field - mi_base img))"

section \<open>Headers\<close>

record directories =
  dir_import :: "nat option"
  dir_delay :: "nat option"

definition pe_directory :: "mapped_image \<Rightarrow> nat \<Rightarrow> nat \<Rightarrow> nat \<Rightarrow> nat option plt_result" where
  "pe_directory img number_of_rva_and_sizes data_dir_base index =
     (if number_of_rva_and_sizes \<le> index then Inr None
      else
        and_then (u32_as_usize img (data_dir_base + index * 8)) (\<lambda>rva.
          Inr (if rva \<noteq> 0 then Some rva else None)))"

definition parse_headers :: "mapped_image \<Rightarrow> directories plt_result" where
  "parse_headers img =
     and_then (pe_u16 img 0) (\<lambda>mz.
     if mz \<noteq> 0x5A4D then Inl (Malformed ''missing 'MZ' DOS signature'')
     else
     and_then (u32_as_usize img 0x3C) (\<lambda>e_lfanew.
     and_then (pe_read img 4 e_lfanew) (\<lambda>sig.
     if sig \<noteq> [0x50, 0x45, 0, 0] then Inl (Malformed (''missing 'PE'' @ [CHR 0x5C, CHR ''0'', CHR 0x5C, CHR ''0'', CHR 0x27] @ '' NT signature''))
     else
     and_then (ok_or (Malformed ''NT header offset overflow'') (checked_add e_lfanew 4)) (\<lambda>file_header.
     and_then (pe_u16 img file_header) (\<lambda>machine.
     and_then (pe_u16 img (file_header + 16)) (\<lambda>size_of_optional.
     and_then (ok_or (Malformed ''optional header offset overflow'') (checked_add file_header 20)) (\<lambda>optional.
     if size_of_optional < 112 then Inl (Malformed ''optional header too small'')
     else
     and_then (pe_u16 img optional) (\<lambda>magic.
     if magic = MAGIC_PE32
     then Inl (UnsupportedImage ''PE32 (32-bit) image; only PE32+ is supported at runtime'')
     else if magic \<noteq> MAGIC_PE32_PLUS then Inl (Malformed ''unrecognized optional-header magic'')
     else if machine \<noteq> mi_host img then Inl (UnsupportedImage ''image machine does not match host process'')
     else
     and_then (u32_as_usize img (optional + 108)) (\<lambda>number_of_rva_and_sizes.
     and_then (pe_directory img number_of_rva_and_sizes (optional + 112) DIRECTORY_ENTRY_IMPORT) (\<lambda>imp.
     and_then (pe_directory img number_of_rva_and_sizes (optional + 112) DIRECTORY_ENTRY_DELAY_IMPORT) (\<lambda>del.
       Inr \<lparr>dir_import = imp, dir_delay = del\<rparr>)))))))))))"

definition pe_validate :: "mapped_image \<Rightarrow> unit plt_result" where
  "pe_validate img = and_then (parse_headers img) (\<lambda>_. Inr ())"

section \<open>Winsock ordinals\<close>

definition winsock2_ordinals :: "(nat \<times> string) list" where
  "winsock2_ordinals =
     [(1, ''accept''), (2, ''bind''), (3, ''closesocket''), (4, ''connect''), (5, ''getpeername''),
      (6, ''getsockname''), (7, ''getsockopt''), (8, ''htonl''), (9, ''htons''), (10, ''inet_addr''),
      (11, ''inet_ntoa''), (12, ''ioctlsocket''), (13, ''listen''), (14, ''ntohl''), (15, ''ntohs''),
      (16, ''recv''), (17, ''recvfrom''), (18, ''select''), (19, ''send''), (20, ''sendto''),
      (21, ''setsockopt''), (22, ''shutdown''), (23, ''socket''), (24, ''MigrateWinsockConfiguration''),
      (51, ''gethostbyaddr''), (52, ''gethostbyname''), (53, ''getprotobyname''), (54, ''getprotobynumber''),
      (55, ''getservbyname''), (56, ''getservbyport''), (57, ''gethostname''), (101, ''WSAAsyncSelect''),
      (102, ''WSAAsyncGetHostByAddr''), (103, ''WSAAsyncGetHostByName''), (104, ''WSAAsyncGetProtoByNumber''),
      (105, ''WSAAsyncGetProtoByName''), (106, ''WSAAsyncGetServByPort''), (107, ''WSAAsyncGetServByName''),
      (108, ''WSACancelAsyncRequest''), (109, ''WSASetBlockingHook''), (110, ''WSAUnhookBlockingHook''),
      (111, ''WSAGetLastError''), (112, ''WSASetLastError''), (113, ''WSACancelBlockingCall''),
      (114, ''WSAIsBlocking''), (115, ''WSAStartup''), (116, ''WSACleanup''), (151, ''__WSAFDIsSet''),
      (500, ''WEP''), (1000, ''WSApSetPostRoutine''), (1001, ''WsControl''), (1002, ''closesockinfo''),
      (1003, ''Arecv''), (1004, ''Asend''), (1005, ''WSHEnumProtocols''), (1100, ''inet_network''),
      (1101, ''getnetbyname''), (1102, ''rcmd''), (1103, ''rexec''), (1104, ''rresvport''), (1105, ''sethostname''),
      (1106, ''dn_expand''), (1107, ''WSARecvEx''), (1108, ''s_perror''), (1109, ''GetAddressByNameA''),
      (1110, ''GetAddressByNameW''), (1111, ''EnumProtocolsA''), (1112, ''EnumProtocolsW''), (1113, ''GetTypeByNameA''),
      (1114, ''GetTypeByNameW''), (1115, ''GetNameByTypeA''), (1116, ''GetNameByTypeW''), (1117, ''SetServiceA''),
      (1118, ''SetServiceW''), (1119, ''GetServiceA''), (1120, ''GetServiceW''), (1130, ''NPLoadNameSpaces''),
      (1131, ''NSPStartup''), (1140, ''TransmitFile''), (1141, ''AcceptEx''), (1142, ''GetAcceptExSockaddrs'')]"

definition winsock2_ordinal2name :: "nat \<Rightarrow> string option" where
  "winsock2_ordinal2name ordinal = map_of winsock2_ordinals ordinal"

section \<open>Thunks\<close>

definition pe_import :: "string \<Rightarrow> symbol option \<Rightarrow> import_kind \<Rightarrow> nat \<Rightarrow> raw_import" where
  "pe_import library symb kind slot =
     \<lparr>ri_library = library, ri_symbol = symb, ri_version = None, ri_slot = slot, ri_kind = kind,
      ri_authenticated = False\<rparr>"

text \<open>The walk over an address table without names, with \<open>n\<close> entries left of \<open>MAX_THUNKS\<close>.\<close>

fun collect_unnamed ::
  "mapped_image \<Rightarrow> string \<Rightarrow> import_kind \<Rightarrow> nat \<Rightarrow> nat \<Rightarrow> raw_import list \<Rightarrow> raw_import list plt_result" where
  "collect_unnamed img library kind 0 entry_rva out = Inl (Malformed ''import address table is not NUL-terminated'')"
| "collect_unnamed img library kind (Suc n) entry_rva out =
     and_then (pe_thunk img entry_rva) (\<lambda>v.
       if v = 0 then Inr out
       else
         and_then (pe_slot_address img entry_rva) (\<lambda>slot.
           collect_unnamed img library kind n (entry_rva + THUNK_SIZE) (out @ [pe_import library None kind slot])))"

definition thunk_symbol :: "mapped_image \<Rightarrow> bool \<Rightarrow> 64 word \<Rightarrow> symbol plt_result" where
  "thunk_symbol img is_winsock2 name_entry =
     (if name_entry AND IMAGE_ORDINAL_FLAG64 \<noteq> 0 then
        let ordinal = unat (name_entry AND 0xFFFF) in
        Inr (case winsock2_ordinal2name ordinal of
               Some name \<Rightarrow> if is_winsock2 then SymName name else SymOrdinal ordinal
             | None \<Rightarrow> SymOrdinal ordinal)
      else
        and_then (pe_cstr img (unat (name_entry AND NOT IMAGE_ORDINAL_FLAG64) + 2)) (\<lambda>name. Inr (SymName name)))"

fun collect_named ::
  "mapped_image \<Rightarrow> string \<Rightarrow> import_kind \<Rightarrow> nat \<Rightarrow> nat \<Rightarrow> nat \<Rightarrow> raw_import list \<Rightarrow> raw_import list plt_result" where
  "collect_named img library kind 0 name_rva slot_rva out = Inl (Malformed ''import name table is not NUL-terminated'')"
| "collect_named img library kind (Suc n) name_rva slot_rva out =
     and_then (pe_thunk img name_rva) (\<lambda>name_entry.
       if name_entry = 0 then Inr out
       else
         and_then (thunk_symbol img (eq_ignore_ascii_case library ''ws2_32.dll'') name_entry) (\<lambda>symb.
         and_then (pe_slot_address img slot_rva) (\<lambda>slot.
           collect_named img library kind n (name_rva + THUNK_SIZE) (slot_rva + THUNK_SIZE)
             (out @ [pe_import library (Some symb) kind slot]))))"

definition collect_thunks ::
  "mapped_image \<Rightarrow> nat \<Rightarrow> nat \<Rightarrow> string \<Rightarrow> import_kind \<Rightarrow> raw_import list \<Rightarrow> raw_import list plt_result" where
  "collect_thunks img names_rva slots_rva library kind out =
     (if names_rva = 0 then collect_unnamed img library kind MAX_THUNKS slots_rva out
      else collect_named img library kind MAX_THUNKS names_rva slots_rva out)"

section \<open>Descriptors\<close>

fun parse_standard_loop :: "mapped_image \<Rightarrow> nat \<Rightarrow> nat \<Rightarrow> raw_import list \<Rightarrow> raw_import list plt_result" where
  "parse_standard_loop img 0 desc out = Inl (Malformed ''import descriptor table is not NUL-terminated'')"
| "parse_standard_loop img (Suc n) desc out =
     and_then (u32_as_usize img desc) (\<lambda>original_first_thunk.
     and_then (u32_as_usize img (desc + 12)) (\<lambda>name_rva.
     and_then (u32_as_usize img (desc + 16)) (\<lambda>first_thunk.
     if name_rva = 0 then Inr out
     else if first_thunk = 0 then parse_standard_loop img n (desc + IMPORT_DESCRIPTOR_SIZE) out
     else
       and_then (pe_cstr img name_rva) (\<lambda>library.
       and_then (collect_thunks img original_first_thunk first_thunk library Standard out) (\<lambda>out'.
         parse_standard_loop img n (desc + IMPORT_DESCRIPTOR_SIZE) out')))))"

definition parse_standard :: "mapped_image \<Rightarrow> nat \<Rightarrow> raw_import list \<Rightarrow> raw_import list plt_result" where
  "parse_standard img dir_rva out = parse_standard_loop img MAX_DESCRIPTORS dir_rva out"

fun parse_delay_loop :: "mapped_image \<Rightarrow> nat \<Rightarrow> nat \<Rightarrow> raw_import list \<Rightarrow> raw_import list plt_result" where
  "parse_delay_loop img 0 desc out = Inl (Malformed ''delay-import descriptor table is not NUL-terminated'')"
| "parse_delay_loop img (Suc n) desc out =
     and_then (u32_as_usize img desc) (\<lambda>attributes.
     and_then (u32_as_usize img (desc + 4)) (\<lambda>dll_name_rva.
     and_then (u32_as_usize img (desc + 12)) (\<lambda>slots_field.
     and_then (u32_as_usize img (desc + 16)) (\<lambda>names_field.
     if dll_name_rva = 0 then Inr out
     else
       let uses_rva = attributes mod 2 \<noteq> 0 in
       and_then (pe_cstr img dll_name_rva) (\<lambda>library.
       if library = [] \<or> slots_field = 0 then parse_delay_loop img n (desc + DELAY_DESCRIPTOR_SIZE) out
       else
         and_then (if names_field = 0 then Inr 0 else field_rva img names_field uses_rva) (\<lambda>names_rva.
         and_then (field_rva img slots_field uses_rva) (\<lambda>slots_rva.
         and_then (collect_thunks img names_rva slots_rva library DelayLoad out) (\<lambda>out'.
           parse_delay_loop img n (desc + DELAY_DESCRIPTOR_SIZE) out'))))))))"

definition parse_delay :: "mapped_image \<Rightarrow> nat \<Rightarrow> raw_import list \<Rightarrow> raw_import list plt_result" where
  "parse_delay img dir_rva out = parse_delay_loop img MAX_DESCRIPTORS dir_rva out"

text \<open>A defect in the delay table drops the delay imports only.\<close>

definition pe_parse_imports :: "mapped_image \<Rightarrow> raw_import list plt_result" where
  "pe_parse_imports img =
     and_then (parse_headers img) (\<lambda>dirs.
     and_then (case dir_import dirs of None \<Rightarrow> Inr [] | Some rva \<Rightarrow> parse_standard img rva []) (\<lambda>out.
     Inr (case dir_delay dirs of
            None \<Rightarrow> out
          | Some rva \<Rightarrow> (case parse_delay img rva [] of Inr delay \<Rightarrow> out @ delay | Inl _ \<Rightarrow> out))))"

end
