(* ===== verification/Pe_Image.thy ===== *)
theory Pe_Image
  imports Pe_Parser Elf_Encoding Plt_Slot
begin

unbundle bit_operations_syntax

text \<open>
  What the PE parser guarantees: it looks at bytes of the mapped image only, the slots it reports may be
  patched, and on an image laid out by the PE format it reports exactly the imports of the tables.
\<close>

section \<open>The parser sees an image through its reads\<close>

locale same_image =
  fixes img img' :: mapped_image
  assumes reads: "pe_read img n off = pe_read img' n off"
    and frame: "mi_base img = mi_base img'" "mi_size img = mi_size img'" "mi_host img = mi_host img'"
begin

lemma scalars: "pe_u16 img = pe_u16 img'" "u32_as_usize img = u32_as_usize img'" "pe_thunk img = pe_thunk img'"
  "pe_slot_address img = pe_slot_address img'" "field_rva img = field_rva img'"
  by (auto simp: fun_eq_iff pe_u16_def u32_as_usize_def pe_thunk_def pe_slot_address_def field_rva_def reads frame cong: if_cong)

lemma cstr: "pe_cstr img = pe_cstr img'"
proof -
  have "pe_cstr_loop img n = pe_cstr_loop img' n" for n
    by (induction n) (simp_all add: fun_eq_iff reads cong: if_cong)
  then show ?thesis by (simp only: fun_eq_iff pe_cstr_def simp_thms)
qed

lemma thunks: "collect_thunks img = collect_thunks img'"
proof -
  have "collect_unnamed img lib kd n rva out = collect_unnamed img' lib kd n rva out" for lib kd n rva out
    by (induction n arbitrary: rva out) (simp_all add: scalars cong: if_cong)
  moreover have "collect_named img lib kd n rva slots out = collect_named img' lib kd n rva slots out"
    for lib kd n rva slots out
    by (induction n arbitrary: rva slots out) (simp_all add: scalars thunk_symbol_def cstr cong: if_cong)
  ultimately show ?thesis by (simp add: fun_eq_iff collect_thunks_def)
qed

lemma headers: "parse_headers img = parse_headers img'"
  by (simp add: parse_headers_def pe_directory_def scalars reads frame cong: if_cong)

lemma parse: "pe_parse_imports img = pe_parse_imports img'"
proof -
  have st: "parse_standard_loop img n = parse_standard_loop img' n" for n
  proof (induction n)
    case (Suc n)
    show ?case by (rule ext)+ (simp add: scalars cstr thunks Suc.IH cong: if_cong)
  qed (simp add: fun_eq_iff)
  have dl: "parse_delay_loop img n = parse_delay_loop img' n" for n
  proof (induction n)
    case (Suc n)
    show ?case by (rule ext)+ (simp add: scalars cstr thunks Let_def Suc.IH cong: if_cong)
  qed (simp add: fun_eq_iff)
  show ?thesis unfolding pe_parse_imports_def headers parse_standard_def parse_delay_def st dl ..
qed

end

text \<open>The image with every byte outside its range cleared.\<close>

definition inside_only :: "mapped_image \<Rightarrow> mapped_image" where
  "inside_only img = img\<lparr>mi_memory := (\<lambda>a. if mi_base img \<le> a \<and> a < mi_base img + mi_size img then mi_memory img a else 0)\<rparr>"

interpretation inside: same_image img "inside_only img"
proof
  show "pe_read img n off = pe_read (inside_only img) n off" for n off
    by (auto simp: pe_read_def inside_only_def checked_add_def and_then_def ok_or_def)
qed (simp_all add: inside_only_def)

section \<open>Slots\<close>

definition pe_patchable :: "mapped_image \<Rightarrow> raw_import \<Rightarrow> bool" where
  "pe_patchable img raw \<longleftrightarrow>
     mi_base img \<le> ri_slot raw \<and> ri_slot raw + THUNK_SIZE \<le> mi_base img + mi_size img \<and>
     (ri_slot raw - mi_base img) mod 8 = 0 \<and> \<not> ri_authenticated raw"

lemma pe_slot_address_ok:
  "pe_slot_address img rva = Inr a \<Longrightarrow> \<forall>lib symb kd. pe_patchable img (pe_import lib symb kd a)"
  by (auto simp: pe_slot_address_def pe_patchable_def pe_import_def checked_add_def THUNK_SIZE_def split: if_splits)

lemma collect_thunks_patchable:
  assumes "collect_thunks img names slots lib kd out = Inr out'" and "list_all (pe_patchable img) out"
  shows "list_all (pe_patchable img) out'"
proof -
  have "collect_unnamed img lib kd n rva out = Inr out' \<Longrightarrow> list_all (pe_patchable img) out \<Longrightarrow>
      list_all (pe_patchable img) out'" for n rva out
    by (induction n arbitrary: rva out) (auto split: if_splits dest!: pe_slot_address_ok)
  moreover have "collect_named img lib kd n rva srva out = Inr out' \<Longrightarrow> list_all (pe_patchable img) out \<Longrightarrow>
      list_all (pe_patchable img) out'" for n rva srva out
    by (induction n arbitrary: rva srva out) (auto split: if_splits dest!: pe_slot_address_ok)
  ultimately show ?thesis using assms by (auto simp: collect_thunks_def split: if_splits)
qed

text \<open>Every slot the parser reports lies inside the image, with all of its eight bytes, at a
  pointer-aligned offset, and is never authenticated.\<close>

lemma pe_parse_imports_patchable:
  assumes "pe_parse_imports img = Inr raws"
  shows "list_all (pe_patchable img) raws"
proof -
  have st: "parse_standard_loop img n d out = Inr out' \<Longrightarrow> list_all (pe_patchable img) out \<Longrightarrow>
      list_all (pe_patchable img) out'" for n d out out'
    by (induction n arbitrary: d out) (auto split: if_splits dest: collect_thunks_patchable)
  have dl: "parse_delay_loop img n d out = Inr out' \<Longrightarrow> list_all (pe_patchable img) out \<Longrightarrow>
      list_all (pe_patchable img) out'" for n d out out'
    by (induction n arbitrary: d out) (auto simp: Let_def split: if_splits dest: collect_thunks_patchable)
  show ?thesis using assms st dl
    by (auto simp: pe_parse_imports_def parse_standard_def parse_delay_def split: option.splits sum.splits)
qed

section \<open>Bytes of an image\<close>

definition pe_fits :: "mapped_image \<Rightarrow> bool" where
  "pe_fits img \<longleftrightarrow> mi_base img + mi_size img \<le> U64_MAX"

definition pe_holds :: "mapped_image \<Rightarrow> nat \<Rightarrow> byte list \<Rightarrow> bool" where
  "pe_holds img rva bs \<longleftrightarrow>
     rva + length bs \<le> mi_size img \<and> (\<forall>i < length bs. mi_memory img (mi_base img + rva + i) = bs ! i)"

lemma pe_holds_append:
  "pe_holds img rva (xs @ ys) \<longleftrightarrow> pe_holds img rva xs \<and> pe_holds img (rva + length xs) ys"
proof
  assume h: "pe_holds img rva (xs @ ys)"
  have "mi_memory img (mi_base img + (rva + length xs) + i) = ys ! i" if "i < length ys" for i
    using h that unfolding pe_holds_def
    by (auto dest!: spec [of _ "length xs + i"] simp: nth_append algebra_simps)
  moreover have "mi_memory img (mi_base img + rva + i) = xs ! i" if "i < length xs" for i
    using h that unfolding pe_holds_def by (auto dest!: spec [of _ i] simp: nth_append)
  ultimately show "pe_holds img rva xs \<and> pe_holds img (rva + length xs) ys"
    using h by (auto simp: pe_holds_def)
next
  assume h: "pe_holds img rva xs \<and> pe_holds img (rva + length xs) ys"
  have "mi_memory img (mi_base img + rva + i) = (xs @ ys) ! i" if "i < length (xs @ ys)" for i
  proof (cases "i < length xs")
    case True
    then show ?thesis using h by (simp add: pe_holds_def nth_append)
  next
    case False
    then have "i - length xs < length ys" using that by simp
    moreover have "mi_base img + (rva + length xs) + (i - length xs) = mi_base img + rva + i" using False by simp
    ultimately show ?thesis using h False unfolding pe_holds_def by (metis nth_append)
  qed
  then show "pe_holds img rva (xs @ ys)" using h by (simp add: pe_holds_def)
qed

lemma pe_read_holds:
  assumes "pe_fits img" and "pe_holds img rva bs"
  shows "pe_read img (length bs) rva = Inr bs"
proof -
  have "rva + length bs \<le> U64_MAX" "mi_base img + rva \<le> U64_MAX" "rva + length bs \<le> mi_size img"
    using assms by (auto simp: pe_fits_def pe_holds_def)
  moreover have "map (\<lambda>i. mi_memory img (mi_base img + rva + i)) [0 ..< length bs] = bs"
    using assms(2) by (intro nth_equalityI) (simp_all add: pe_holds_def)
  ultimately show ?thesis by (simp add: pe_read_def checked_add_def not_less)
qed

lemma pe_scalar_holds:
  assumes "pe_fits img"
  shows "pe_holds img rva (le_bytes (w16 :: 16 word)) \<Longrightarrow> pe_u16 img rva = Inr (unat w16)"
    "pe_holds img rva (le_bytes (w32 :: 32 word)) \<Longrightarrow> u32_as_usize img rva = Inr (unat w32)"
    "pe_holds img rva (le_bytes (w64 :: 64 word)) \<Longrightarrow> pe_thunk img rva = Inr w64"
proof -
  have "le_nat (le_bytes w16) = unat w16" "le_nat (le_bytes w32) = unat w32"
    using unsigned_less [where 'a = nat, of w16] unsigned_less [where 'a = nat, of w32]
    by (simp_all add: le_bytes_def le_nat_to_le)
  then show "pe_holds img rva (le_bytes w16) \<Longrightarrow> pe_u16 img rva = Inr (unat w16)"
    "pe_holds img rva (le_bytes w32) \<Longrightarrow> u32_as_usize img rva = Inr (unat w32)"
    "pe_holds img rva (le_bytes (w64 :: 64 word)) \<Longrightarrow> pe_thunk img rva = Inr w64"
    using pe_read_holds [OF assms, of rva "le_bytes w16"] pe_read_holds [OF assms, of rva "le_bytes w32"]
      pe_read_holds [OF assms, of rva "le_bytes w64"]
    by (simp_all add: pe_u16_def u32_as_usize_def pe_thunk_def)
qed

definition pe_chars :: "byte list \<Rightarrow> string" where
  "pe_chars bs = map (\<lambda>b. char_of (unat b)) bs"

lemma pe_cstr_holds:
  assumes "pe_fits img" and "pe_holds img rva (bs @ [0])" and "0 \<notin> set bs" and "length bs \<le> MAX_NAME_LEN"
  shows "pe_cstr img rva = Inr (from_utf8_lossy (pe_chars bs))"
proof -
  have "pe_cstr_loop img n rva acc = Inr (from_utf8_lossy (acc @ pe_chars bs))"
    if "pe_holds img rva (bs @ [0])" "0 \<notin> set bs" "length bs < n" for n rva acc bs
    using that
  proof (induction bs arbitrary: n rva acc)
    case Nil
    then obtain k where "n = Suc k" by (cases n) auto
    then show ?case using pe_read_holds [OF assms(1), of rva "[0]"] Nil by (simp add: pe_chars_def)
  next
    case (Cons b bs)
    then obtain k where n: "n = Suc k" by (cases n) auto
    have h: "pe_holds img rva [b]" "pe_holds img (rva + 1) (bs @ [0])"
      using Cons.prems(1) pe_holds_append [of img rva "[b]" "bs @ [0]"] by simp_all
    from Cons.IH [OF h(2), of k] Cons.prems n pe_read_holds [OF assms(1) h(1)] show ?case
      by (simp add: pe_chars_def)
  qed
  from this [OF assms(2,3), of "MAX_NAME_LEN + 1" "[]"] assms(4) show ?thesis
    by (simp only: pe_cstr_def append_Nil)
qed

section \<open>Import tables\<close>

text \<open>An entry of a name table: an ordinal, or the place of a hint and name.\<close>

datatype pe_entry = ByOrdinal "16 word" | ByName "32 word" "byte list"

fun entry_word :: "pe_entry \<Rightarrow> 64 word" where
  "entry_word (ByOrdinal n) = IMAGE_ORDINAL_FLAG64 OR ucast n"
| "entry_word (ByName rva _) = ucast rva"

fun entry_ok :: "mapped_image \<Rightarrow> pe_entry \<Rightarrow> bool" where
  "entry_ok img (ByOrdinal n) = True"
| "entry_ok img (ByName rva bs) \<longleftrightarrow>
     rva \<noteq> 0 \<and> pe_holds img (unat rva + 2) (bs @ [0]) \<and> 0 \<notin> set bs \<and> length bs \<le> MAX_NAME_LEN"

fun entry_symbol :: "string \<Rightarrow> pe_entry \<Rightarrow> symbol" where
  "entry_symbol library (ByOrdinal n) =
     (case winsock2_ordinal2name (unat n) of
        Some name \<Rightarrow> if eq_ignore_ascii_case library ''ws2_32.dll'' then SymName name else SymOrdinal (unat n)
      | None \<Rightarrow> SymOrdinal (unat n))"
| "entry_symbol library (ByName _ bs) = SymName (from_utf8_lossy (pe_chars bs))"

fun entry_imports :: "mapped_image \<Rightarrow> string \<Rightarrow> import_kind \<Rightarrow> nat \<Rightarrow> pe_entry list \<Rightarrow> raw_import list" where
  "entry_imports img library kind slot_rva [] = []"
| "entry_imports img library kind slot_rva (e # es) =
     pe_import library (Some (entry_symbol library e)) kind (mi_base img + slot_rva) #
     entry_imports img library kind (slot_rva + THUNK_SIZE) es"

lemma unat_ucast_16_64 [simp]: "unat (ucast (w :: 16 word) :: 64 word) = unat w"
  using unsigned_less [where 'a = nat, of w] by (simp add: unsigned_ucast_eq take_bit_nat_eq_self)

lemma unat_ucast_32_64 [simp]: "unat (ucast (w :: 32 word) :: 64 word) = unat w"
  using unsigned_less [where 'a = nat, of w] by (simp add: unsigned_ucast_eq take_bit_nat_eq_self)

lemma ordinal_fields:
  "(IMAGE_ORDINAL_FLAG64 OR ucast (n :: 16 word)) AND 0xFFFF = (ucast n :: 64 word)"
  "(IMAGE_ORDINAL_FLAG64 OR ucast (n :: 16 word)) AND IMAGE_ORDINAL_FLAG64 \<noteq> 0"
  "(ucast (r :: 32 word) :: 64 word) AND IMAGE_ORDINAL_FLAG64 = 0"
  "(ucast (r :: 32 word) :: 64 word) AND NOT IMAGE_ORDINAL_FLAG64 = ucast r"
proof -
  have m: "(0xFFFF :: 64 word) = Bit_Operations.mask 16" by (simp add: mask_eq_exp_minus_1)
  have p: "IMAGE_ORDINAL_FLAG64 = push_bit 63 (1 :: 64 word)" by (simp add: IMAGE_ORDINAL_FLAG64_def push_bit_eq_mult)
  have f: "bit IMAGE_ORDINAL_FLAG64 i \<longleftrightarrow> i = 63" for i
    unfolding p bit_push_bit_iff bit_1_iff by auto
  show "(IMAGE_ORDINAL_FLAG64 OR ucast n) AND 0xFFFF = (ucast n :: 64 word)"
    unfolding m by (intro bit_word_eqI) (auto simp: bit_simps f dest: bit_imp_le_length)
  have "bit ((IMAGE_ORDINAL_FLAG64 OR ucast n) AND IMAGE_ORDINAL_FLAG64 :: 64 word) 63"
    by (simp add: bit_simps f)
  then show "(IMAGE_ORDINAL_FLAG64 OR ucast n) AND IMAGE_ORDINAL_FLAG64 \<noteq> 0" by auto
  show "(ucast r :: 64 word) AND IMAGE_ORDINAL_FLAG64 = 0"
    by (intro bit_word_eqI) (auto simp: bit_simps f dest: bit_imp_le_length)
  show "(ucast r :: 64 word) AND NOT IMAGE_ORDINAL_FLAG64 = ucast r"
    by (intro bit_word_eqI) (auto simp: bit_simps f dest: bit_imp_le_length)
qed

lemma thunk_symbol_entry:
  assumes "pe_fits img" and "entry_ok img e"
  shows "thunk_symbol img (eq_ignore_ascii_case library ''ws2_32.dll'') (entry_word e) = Inr (entry_symbol library e)"
    and "entry_word e \<noteq> 0"
proof -
  show "thunk_symbol img (eq_ignore_ascii_case library ''ws2_32.dll'') (entry_word e) = Inr (entry_symbol library e)"
  proof (cases e)
    case (ByOrdinal n)
    show ?thesis unfolding ByOrdinal thunk_symbol_def entry_word.simps if_P [OF ordinal_fields(2)] ordinal_fields(1)
      by (simp add: Let_def)
  next
    case (ByName rva bs)
    then show ?thesis using assms by (simp add: thunk_symbol_def ordinal_fields pe_cstr_holds)
  qed
  show "entry_word e \<noteq> 0"
  proof (cases e)
    case (ByOrdinal n)
    then show ?thesis using ordinal_fields(2) [of n] by (metis and_zero_eq bit.conj_zero_left entry_word.simps(1))
  next
    case (ByName rva bs)
    then have "rva \<noteq> 0" using assms(2) by simp
    then have "(ucast rva :: 64 word) \<noteq> 0" by (metis unat_ucast_32_64 unsigned_eq_0_iff)
    with ByName show ?thesis by simp
  qed
qed

lemma pe_slot_address_in:
  assumes "pe_fits img" "rva mod 8 = 0" "rva + THUNK_SIZE \<le> mi_size img"
  shows "pe_slot_address img rva = Inr (mi_base img + rva)"
  using assms by (simp add: pe_slot_address_def checked_add_def pe_fits_def)

lemma collect_named_table:
  assumes "pe_fits img" and "pe_holds img names (concat (map (\<lambda>e. le_bytes (entry_word e)) es) @ le_bytes (0 :: 64 word))"
    and "list_all (entry_ok img) es" and "slots mod 8 = 0" "slots + THUNK_SIZE * length es \<le> mi_size img" and "length es < n"
  shows "collect_named img library kd n names slots out = Inr (out @ entry_imports img library kd slots es)"
  using assms(2-6)
proof (induction es arbitrary: n names slots out)
  case Nil
  then obtain k where "n = Suc k" by (cases n) auto
  with Nil show ?case using pe_scalar_holds(3) [OF assms(1)] by simp
next
  case (Cons e es)
  then obtain k where n: "n = Suc k" by (cases n) auto
  have h: "pe_holds img names (le_bytes (entry_word e))"
    "pe_holds img (names + 8) (concat (map (\<lambda>e. le_bytes (entry_word e)) es) @ le_bytes (0 :: 64 word))"
    using Cons.prems(1) by (simp_all add: pe_holds_append)
  have e: "entry_ok img e" "list_all (entry_ok img) es" using Cons.prems(2) by simp_all
  have s: "slots + THUNK_SIZE \<le> mi_size img" "(slots + THUNK_SIZE) mod 8 = 0"
    "slots + THUNK_SIZE + THUNK_SIZE * length es \<le> mi_size img"
    using Cons.prems(3,4) by (simp_all add: THUNK_SIZE_def algebra_simps)
  have "collect_named img library kd k (names + THUNK_SIZE) (slots + THUNK_SIZE) out' =
      Inr (out' @ entry_imports img library kd (slots + THUNK_SIZE) es)" for out'
    using Cons.IH [of "names + THUNK_SIZE" "slots + THUNK_SIZE" k out'] h(2) e(2) s(2,3) Cons.prems(5) n
    by (simp add: THUNK_SIZE_def)
  then show ?case
    using n pe_scalar_holds(3) [OF assms(1) h(1)] thunk_symbol_entry [OF assms(1) e(1)]
      pe_slot_address_in [OF assms(1) Cons.prems(3) s(1)] by simp
qed

record pe_library =
  pl_name_rva :: "32 word"
  pl_name :: "byte list"
  pl_names_rva :: "32 word"
  pl_slots_rva :: "32 word"
  pl_entries :: "pe_entry list"

definition desc_bytes :: "pe_library \<Rightarrow> byte list" where
  "desc_bytes l =
     le_bytes (pl_names_rva l) @ replicate 8 0 @ le_bytes (pl_name_rva l) @ le_bytes (pl_slots_rva l)"

definition pe_library_of :: "pe_library \<Rightarrow> string" where
  "pe_library_of l = from_utf8_lossy (pe_chars (pl_name l))"

definition library_ok :: "mapped_image \<Rightarrow> pe_library \<Rightarrow> bool" where
  "library_ok img l \<longleftrightarrow>
     pl_name_rva l \<noteq> 0 \<and> pl_names_rva l \<noteq> 0 \<and> pl_slots_rva l \<noteq> 0 \<and>
     pe_holds img (unat (pl_name_rva l)) (pl_name l @ [0]) \<and> 0 \<notin> set (pl_name l) \<and> length (pl_name l) \<le> MAX_NAME_LEN \<and>
     pe_holds img (unat (pl_names_rva l)) (concat (map (\<lambda>e. le_bytes (entry_word e)) (pl_entries l)) @ le_bytes (0 :: 64 word)) \<and>
     list_all (entry_ok img) (pl_entries l) \<and> length (pl_entries l) < MAX_THUNKS \<and>
     unat (pl_slots_rva l) mod 8 = 0 \<and> unat (pl_slots_rva l) + THUNK_SIZE * length (pl_entries l) \<le> mi_size img"

definition library_imports :: "mapped_image \<Rightarrow> import_kind \<Rightarrow> pe_library \<Rightarrow> raw_import list" where
  "library_imports img kd l = entry_imports img (pe_library_of l) kd (unat (pl_slots_rva l)) (pl_entries l)"

lemma library_reads:
  assumes "pe_fits img" and "library_ok img l"
  shows "pe_cstr img (unat (pl_name_rva l)) = Inr (pe_library_of l)"
    "collect_thunks img (unat (pl_names_rva l)) (unat (pl_slots_rva l)) (pe_library_of l) kd out = Inr (out @ library_imports img kd l)"
    "0 < unat (pl_name_rva l)" "0 < unat (pl_slots_rva l)" "0 < unat (pl_names_rva l)"
proof -
  show "pe_cstr img (unat (pl_name_rva l)) = Inr (pe_library_of l)"
    using assms pe_cstr_holds [OF assms(1)] by (simp add: library_ok_def pe_library_of_def)
  show "collect_thunks img (unat (pl_names_rva l)) (unat (pl_slots_rva l)) (pe_library_of l) kd out = Inr (out @ library_imports img kd l)"
    using assms(2) collect_named_table [OF assms(1), of "unat (pl_names_rva l)" "pl_entries l" "unat (pl_slots_rva l)" MAX_THUNKS]
    by (simp add: collect_thunks_def library_ok_def library_imports_def unsigned_eq_0_iff)
  show "0 < unat (pl_name_rva l)" "0 < unat (pl_slots_rva l)" "0 < unat (pl_names_rva l)"
    using assms(2) by (simp_all add: library_ok_def word_neq_0_conv unat_gt_0)
qed

lemma length_desc_bytes [simp]: "length (desc_bytes l) = 20"
  by (simp add: desc_bytes_def)

lemma desc_reads:
  assumes "pe_fits img" and "pe_holds img d (desc_bytes l)"
  shows "u32_as_usize img d = Inr (unat (pl_names_rva l))" "u32_as_usize img (d + 12) = Inr (unat (pl_name_rva l))"
    "u32_as_usize img (d + 16) = Inr (unat (pl_slots_rva l))"
  using assms(2) pe_scalar_holds(2) [OF assms(1)] by (simp_all add: desc_bytes_def pe_holds_append add.commute)

lemma le_bytes_0_32: "le_bytes (0 :: 32 word) = replicate 4 0"
proof -
  have "to_le n 0 = replicate n 0" for n by (induction n) simp_all
  then show ?thesis by (simp add: le_bytes_def)
qed

lemma null_descriptor:
  "replicate 20 0 = le_bytes (0 :: 32 word) @ replicate 8 0 @ le_bytes (0 :: 32 word) @ le_bytes (0 :: 32 word)"
  by (simp add: le_bytes_0_32 flip: replicate_add)

lemma parse_standard_table:
  assumes "pe_fits img" and "pe_holds img dir (concat (map desc_bytes ls) @ replicate 20 0)"
    and "list_all (library_ok img) ls" and "length ls < MAX_DESCRIPTORS"
  shows "parse_standard img dir out = Inr (out @ concat (map (library_imports img Standard) ls))"
proof -
  have "parse_standard_loop img n dir out = Inr (out @ concat (map (library_imports img Standard) ls))"
    if "pe_holds img dir (concat (map desc_bytes ls) @ replicate 20 0)" "list_all (library_ok img) ls" "length ls < n"
    for n dir out
    using that
  proof (induction ls arbitrary: n dir out)
    case Nil
    then obtain k where n: "n = Suc k" by (cases n) auto
    from Nil have "u32_as_usize img dir = Inr 0" "u32_as_usize img (dir + 12) = Inr 0" "u32_as_usize img (dir + 16) = Inr 0"
      using pe_scalar_holds(2) [OF assms(1), of _ 0]
      by (simp_all add: null_descriptor pe_holds_append add.commute)
    with n show ?case by simp
  next
    case (Cons l ls)
    then obtain k where n: "n = Suc k" by (cases n) auto
    have h: "pe_holds img dir (desc_bytes l)" "pe_holds img (dir + 20) (concat (map desc_bytes ls) @ replicate 20 0)"
      using Cons.prems(1) by (simp_all add: pe_holds_append)
    have ok: "library_ok img l" using Cons.prems(2) by simp
    note lib = library_reads [OF assms(1) ok]
    show ?case
      using n lib desc_reads [OF assms(1) h(1)] Cons.IH [OF h(2), of k] Cons.prems(2,3) by (simp add: IMPORT_DESCRIPTOR_SIZE_def)
  qed
  from this [OF assms(2-4)] show ?thesis by (simp add: parse_standard_def)
qed

text \<open>A delay-load descriptor whose fields are relative addresses; the module handle and the bound,
  unload and time-stamp fields, which the parser does not read, are zero.\<close>

definition delay_bytes :: "pe_library \<Rightarrow> byte list" where
  "delay_bytes l =
     le_bytes (1 :: 32 word) @ le_bytes (pl_name_rva l) @ replicate 4 0 @ le_bytes (pl_slots_rva l) @
     le_bytes (pl_names_rva l) @ replicate 12 0"

definition delay_ok :: "mapped_image \<Rightarrow> pe_library \<Rightarrow> bool" where
  "delay_ok img l \<longleftrightarrow> library_ok img l \<and> pe_library_of l \<noteq> []"

lemma delay_reads:
  assumes "pe_fits img" and "pe_holds img d (delay_bytes l)"
  shows "u32_as_usize img d = Inr 1" "u32_as_usize img (d + 4) = Inr (unat (pl_name_rva l))"
    "u32_as_usize img (d + 12) = Inr (unat (pl_slots_rva l))" "u32_as_usize img (d + 16) = Inr (unat (pl_names_rva l))"
  using assms(2) pe_scalar_holds(2) [OF assms(1)] pe_scalar_holds(2) [OF assms(1), of d 1]
  by (simp_all add: delay_bytes_def pe_holds_append add.commute)

lemma parse_delay_table:
  assumes "pe_fits img" and "pe_holds img dir (concat (map delay_bytes ls) @ replicate 20 0)"
    and "list_all (delay_ok img) ls" and "length ls < MAX_DESCRIPTORS"
  shows "parse_delay img dir out = Inr (out @ concat (map (library_imports img DelayLoad) ls))"
proof -
  have len: "length (delay_bytes l) = 32" for l by (simp add: delay_bytes_def)
  have "parse_delay_loop img n dir out = Inr (out @ concat (map (library_imports img DelayLoad) ls))"
    if "pe_holds img dir (concat (map delay_bytes ls) @ replicate 20 0)" "list_all (delay_ok img) ls" "length ls < n"
    for n dir out
    using that
  proof (induction ls arbitrary: n dir out)
    case Nil
    then obtain k where n: "n = Suc k" by (cases n) auto
    have "replicate 20 0 = le_bytes (0 :: 32 word) @ le_bytes (0 :: 32 word) @ replicate 4 0 @
        le_bytes (0 :: 32 word) @ le_bytes (0 :: 32 word)"
      by (simp add: le_bytes_0_32 flip: replicate_add)
    with Nil have "u32_as_usize img dir = Inr 0" "u32_as_usize img (dir + 4) = Inr 0" "u32_as_usize img (dir + 12) = Inr 0"
      "u32_as_usize img (dir + 16) = Inr 0"
      using pe_scalar_holds(2) [OF assms(1), of _ 0] by (simp_all add: pe_holds_append add.commute)
    with n show ?case by simp
  next
    case (Cons l ls)
    then obtain k where n: "n = Suc k" by (cases n) auto
    have h: "pe_holds img dir (delay_bytes l)" "pe_holds img (dir + 32) (concat (map delay_bytes ls) @ replicate 20 0)"
      using Cons.prems(1) by (simp_all add: pe_holds_append len)
    have ok: "library_ok img l" "pe_library_of l \<noteq> []" using Cons.prems(2) by (simp_all add: delay_ok_def)
    note lib = library_reads [OF assms(1) ok(1)]
    show ?case
      using n ok(2) lib delay_reads [OF assms(1) h(1)] Cons.IH [OF h(2), of k] Cons.prems(2,3)
      by (simp add: DELAY_DESCRIPTOR_SIZE_def field_rva_def Let_def)
  qed
  from this [OF assms(2-4)] show ?thesis by (simp add: parse_delay_def)
qed

section \<open>Headers\<close>

definition pe_headers_at :: "mapped_image \<Rightarrow> 32 word \<Rightarrow> 32 word \<Rightarrow> 32 word \<Rightarrow> bool" where
  "pe_headers_at img lfanew imp del \<longleftrightarrow>
     (let nt = unat lfanew in
      pe_holds img 0 (le_bytes (0x5A4D :: 16 word)) \<and> pe_holds img 0x3C (le_bytes lfanew) \<and>
      pe_holds img nt [0x50, 0x45, 0, 0] \<and>
      (\<exists>machine :: 16 word. pe_holds img (nt + 4) (le_bytes machine) \<and> unat machine = mi_host img) \<and>
      (\<exists>optsize :: 16 word. pe_holds img (nt + 20) (le_bytes optsize) \<and> 112 \<le> unat optsize) \<and>
      pe_holds img (nt + 24) (le_bytes (0x020B :: 16 word)) \<and>
      (\<exists>n :: 32 word. pe_holds img (nt + 132) (le_bytes n) \<and> 13 < unat n) \<and>
      pe_holds img (nt + 144) (le_bytes imp) \<and> pe_holds img (nt + 240) (le_bytes del))"

lemma parse_headers_at:
  assumes "pe_fits img" and "pe_headers_at img lfanew imp del"
  shows "parse_headers img =
    Inr \<lparr>dir_import = (if imp = 0 then None else Some (unat imp)), dir_delay = (if del = 0 then None else Some (unat del))\<rparr>"
proof -
  note u16 = pe_scalar_holds(1) [OF assms(1)] and u32 = pe_scalar_holds(2) [OF assms(1)]
  let ?nt = "unat lfanew"
  from assms(2) obtain machine optsize :: "16 word" and n :: "32 word" where h:
    "pe_u16 img 0 = Inr 0x5A4D" "u32_as_usize img 0x3C = Inr ?nt" "pe_holds img ?nt [0x50, 0x45, 0, 0]"
    "pe_u16 img (?nt + 4) = Inr (mi_host img)" "pe_u16 img (?nt + 20) = Inr (unat optsize)" "112 \<le> unat optsize"
    "pe_u16 img (?nt + 24) = Inr 0x020B" "u32_as_usize img (?nt + 132) = Inr (unat n)" "13 < unat n"
    "u32_as_usize img (?nt + 144) = Inr (unat imp)" "u32_as_usize img (?nt + 240) = Inr (unat del)"
    using u16 [of 0 "0x5A4D"] u16 [of "?nt + 24" "0x020B"] u16 u32 unfolding pe_headers_at_def Let_def by fastforce
  have "?nt + 20 \<le> U64_MAX" "?nt + 24 \<le> U64_MAX" "?nt + 4 \<le> U64_MAX"
    using unsigned_less [where 'a = nat, of lfanew] by (simp_all add: U64_MAX_def)
  moreover have "pe_read img 4 ?nt = Inr [0x50, 0x45, 0, 0]" using pe_read_holds [OF assms(1) h(3)] by (simp add: numeral_eq_Suc)
  ultimately show ?thesis using h
    by (simp add: parse_headers_def checked_add_def MAGIC_PE32_def MAGIC_PE32_PLUS_def pe_directory_def
        DIRECTORY_ENTRY_IMPORT_def DIRECTORY_ENTRY_DELAY_IMPORT_def unsigned_eq_0_iff ac_simps)
qed

section \<open>Properties\<close>

text \<open>A defective delay-import table costs the delay imports only: the standard imports are still
  reported, exactly.\<close>

lemma pe_delay_defect_is_contained:
  assumes "pe_fits img" and "pe_headers_at img lfanew imp del" and "imp \<noteq> 0" and "del \<noteq> 0"
    and "pe_holds img (unat imp) (concat (map desc_bytes ls) @ replicate 20 0)"
    and "list_all (library_ok img) ls" and "length ls < MAX_DESCRIPTORS"
    and "parse_delay img (unat del) [] = Inl e"
  shows "pe_parse_imports img = Inr (concat (map (library_imports img Standard) ls))"
  using parse_headers_at [OF assms(1,2)] parse_standard_table [OF assms(1,5-7)] assms(3,4,8)
  by (simp add: pe_parse_imports_def)


text \<open>A two-library image: \<open>KERNEL32.dll\<close> gives \<open>ReadFile\<close> by name, \<open>b\<close> gives ordinal 7 on delay load.\<close>

definition sample_pe_chunks :: "byte list list" where
  "sample_pe_chunks =
     [le_bytes (0x5A4D :: 16 word), replicate 58 0, le_bytes (64 :: 32 word), [0x50, 0x45, 0, 0],
      le_bytes (0x8664 :: 16 word), replicate 14 0, le_bytes (240 :: 16 word), replicate 2 0,
      le_bytes (0x020B :: 16 word), replicate 106 0, le_bytes (16 :: 32 word), replicate 8 0,
      le_bytes (312 :: 32 word), replicate 92 0, le_bytes (352 :: 32 word), replicate 4 0]"

abbreviation kernel32_bytes :: "byte list" where
  "kernel32_bytes \<equiv> [0x4B, 0x45, 0x52, 0x4E, 0x45, 0x4C, 0x33, 0x32, 0x2E, 0x64, 0x6C, 0x6C]"

abbreviation read_file_bytes :: "byte list" where
  "read_file_bytes \<equiv> [0x52, 0x65, 0x61, 0x64, 0x46, 0x69, 0x6C, 0x65]"

definition sample_pe_std :: pe_library where
  "sample_pe_std = \<lparr>pl_name_rva = 459, pl_name = kernel32_bytes, pl_names_rva = 416, pl_slots_rva = 480,
     pl_entries = [ByName 448 read_file_bytes]\<rparr>"

definition sample_pe_delay :: pe_library where
  "sample_pe_delay = \<lparr>pl_name_rva = 472, pl_name = [0x62], pl_names_rva = 432, pl_slots_rva = 488,
     pl_entries = [ByOrdinal 7]\<rparr>"

definition sample_pe_tables :: "byte list list" where
  "sample_pe_tables =
     [desc_bytes sample_pe_std @ replicate 20 0, delay_bytes sample_pe_delay @ replicate 20 0, replicate 12 0,
      le_bytes (entry_word (ByName 448 read_file_bytes)) @ le_bytes (0 :: 64 word),
      le_bytes (entry_word (ByOrdinal 7)) @ le_bytes (0 :: 64 word),
      [0, 0], [0x52, 0x65, 0x61, 0x64, 0x46, 0x69, 0x6C, 0x65, 0],
      [0x4B, 0x45, 0x52, 0x4E, 0x45, 0x4C, 0x33, 0x32, 0x2E, 0x64, 0x6C, 0x6C, 0],
      [0x62, 0], replicate 22 0]"

definition sample_pe :: mapped_image where
  "sample_pe = \<lparr>mi_base = 4096, mi_size = 496,
     mi_memory = (\<lambda>a. (concat sample_pe_chunks @ concat sample_pe_tables) ! (a - 4096)),
     mi_host = IMAGE_FILE_MACHINE_AMD64\<rparr>"

lemma sample_pe_fits: "pe_fits sample_pe"
  by (simp add: pe_fits_def sample_pe_def U64_MAX_def)

lemma length_sample_pe: "length (concat sample_pe_chunks) = 312" "length (concat sample_pe_tables) = 184"
  by (simp_all add: sample_pe_chunks_def sample_pe_tables_def delay_bytes_def)

lemma sample_pe_holds:
  "pe_holds sample_pe 0 (concat sample_pe_chunks)" "pe_holds sample_pe 312 (concat sample_pe_tables)"
proof -
  have "pe_holds sample_pe 0 (concat sample_pe_chunks @ concat sample_pe_tables)"
    by (simp add: pe_holds_def length_sample_pe sample_pe_def)
  then show "pe_holds sample_pe 0 (concat sample_pe_chunks)" "pe_holds sample_pe 312 (concat sample_pe_tables)"
    by (simp_all add: pe_holds_append length_sample_pe)
qed

lemma sample_pe_host: "mi_host sample_pe = 0x8664" "mi_size sample_pe = 496" "mi_base sample_pe = 4096"
  by (simp_all add: sample_pe_def IMAGE_FILE_MACHINE_AMD64_def)

lemma sample_pe_headers: "pe_headers_at sample_pe 64 312 352"
proof -
  note h = sample_pe_holds(1) [unfolded sample_pe_chunks_def concat.simps pe_holds_append, simplified]
  have "\<exists>machine :: 16 word. pe_holds sample_pe 68 (le_bytes machine) \<and> unat machine = mi_host sample_pe"
    using h by (intro exI [of _ "0x8664"]) (simp add: sample_pe_host)
  moreover have "\<exists>optsize :: 16 word. pe_holds sample_pe 84 (le_bytes optsize) \<and> 112 \<le> unat optsize"
    using h by (intro exI [of _ "240"]) simp
  moreover have "\<exists>n :: 32 word. pe_holds sample_pe 196 (le_bytes n) \<and> 13 < unat n"
    using h by (intro exI [of _ "16"]) simp
  ultimately show ?thesis using h by (simp add: pe_headers_at_def)
qed

lemmas sample_pe_parts = sample_pe_holds(2) [unfolded sample_pe_tables_def concat.simps pe_holds_append, simplified]

lemma sample_pe_libraries: "library_ok sample_pe sample_pe_std" "delay_ok sample_pe sample_pe_delay"
proof -
  have "from_utf8_lossy (pe_chars [0x62]) \<noteq> []"
    by (subst from_utf8_lossy_ascii) (simp_all add: pe_chars_def char_of_def bit_Suc_0_iff)
  moreover have "library_ok sample_pe sample_pe_delay"
    using sample_pe_parts
    by (simp add: library_ok_def sample_pe_delay_def delay_bytes_def MAX_NAME_LEN_def MAX_THUNKS_def THUNK_SIZE_def
        sample_pe_host pe_holds_append)
  ultimately show "delay_ok sample_pe sample_pe_delay"
    by (simp add: delay_ok_def pe_library_of_def sample_pe_delay_def)
  show "library_ok sample_pe sample_pe_std"
    using sample_pe_parts
    by (simp add: library_ok_def sample_pe_std_def delay_bytes_def MAX_NAME_LEN_def MAX_THUNKS_def THUNK_SIZE_def
        sample_pe_host pe_holds_append)
qed

lemma sample_pe_held:
  "pe_holds sample_pe (unat (312 :: 32 word)) (concat (map desc_bytes [sample_pe_std]) @ replicate 20 0)"
  "pe_holds sample_pe (unat (352 :: 32 word)) (concat (map delay_bytes [sample_pe_delay]) @ replicate 20 0)"
  using sample_pe_parts by (simp_all add: pe_holds_append)

lemma sample_pe_imports:
  "pe_parse_imports sample_pe =
     Inr (library_imports sample_pe Standard sample_pe_std @ library_imports sample_pe DelayLoad sample_pe_delay)"
  using parse_headers_at [OF sample_pe_fits sample_pe_headers]
    parse_standard_table [OF sample_pe_fits sample_pe_held(1)] parse_delay_table [OF sample_pe_fits sample_pe_held(2)]
    sample_pe_libraries by (simp add: pe_parse_imports_def MAX_DESCRIPTORS_def)

lemma sample_pe_list:
  "library_imports sample_pe Standard sample_pe_std @ library_imports sample_pe DelayLoad sample_pe_delay =
     [pe_import ''KERNEL32.dll'' (Some (SymName ''ReadFile'')) Standard 4576, pe_import ''b'' (Some (SymOrdinal 7)) DelayLoad 4584]"
proof -
  have "from_utf8_lossy (pe_chars kernel32_bytes) = ''KERNEL32.dll''" "from_utf8_lossy (pe_chars [0x62]) = ''b''"
    "from_utf8_lossy (pe_chars read_file_bytes) = ''ReadFile''"
    by (subst from_utf8_lossy_ascii; simp add: pe_chars_def char_of_def bit_Suc_0_iff)+
  moreover have "\<not> eq_ignore_ascii_case ''b'' ''ws2_32.dll''" by code_simp
  ultimately show ?thesis
    by (simp add: library_imports_def pe_library_of_def sample_pe_std_def sample_pe_delay_def sample_pe_host
        del: from_utf8_lossy.simps split: option.split)
qed


text \<open>C11. The parser depends on the bytes of the mapped image only: whatever the rest of the address space
  holds, the result is the same.\<close>

theorem pe_parser_reads_only_the_image:
  assumes "\<forall>a. mi_base img \<le> a \<and> a < mi_base img + mi_size img \<longrightarrow> mi_memory img a = memory a"
  shows "pe_parse_imports (img\<lparr>mi_memory := memory\<rparr>) = pe_parse_imports img"
proof -
  have "inside_only (img\<lparr>mi_memory := memory\<rparr>) = inside_only img"
    using assms by (auto simp: inside_only_def fun_eq_iff)
  then show ?thesis using inside.parse by metis
qed

theorem pe_parser_reads_only_the_image_witness:
  "pe_parse_imports (sample_pe\<lparr>mi_memory := (\<lambda>a. if a < 4592 then mi_memory sample_pe a else 255)\<rparr>) =
     pe_parse_imports sample_pe"
  by (rule pe_parser_reads_only_the_image) (simp add: sample_pe_host)

end
