(* ===== verification/Wide_String.thy ===== *)
theory Wide_String
  imports Namespace
begin

text \<open>
  The two encodings of text that the Windows code converts between: a Rust \<open>String\<close> is its UTF-8
  bytes, a wide string of the Windows API is a list of UTF-16 units.  \<open>chars\<close> gives the scalar values
  of a string (\<open>str::chars\<close>), \<open>utf8_string\<close> the string of them; \<open>encode_utf16\<close> and \<open>from_utf16_lossy\<close>
  are the library's functions of these names.
\<close>

type_synonym wide = "16 word list"

section \<open>UTF-8\<close>

definition scalar :: "nat \<Rightarrow> bool" where
  "scalar c \<longleftrightarrow> c < 0xD800 \<or> 0xE000 \<le> c \<and> c < 0x110000"

definition utf8_char :: "nat \<Rightarrow> string" where
  "utf8_char c =
     (if c < 0x80 then [char_of c]
      else if c < 0x800 then [char_of (0xC0 + c div 64), char_of (0x80 + c mod 64)]
      else if c < 0x10000 then
        [char_of (0xE0 + c div 4096), char_of (0x80 + c div 64 mod 64), char_of (0x80 + c mod 64)]
      else
        [char_of (0xF0 + c div 262144), char_of (0x80 + c div 4096 mod 64), char_of (0x80 + c div 64 mod 64),
         char_of (0x80 + c mod 64)])"

definition utf8_string :: "nat list \<Rightarrow> string" where
  "utf8_string cs = concat (map utf8_char cs)"

definition utf8_value :: "nat \<Rightarrow> string \<Rightarrow> nat" where
  "utf8_value lead tail = fold (\<lambda>c acc. acc * 64 + of_char c mod 64) tail lead"

fun chars :: "string \<Rightarrow> nat list" where
  "chars [] = []"
| "chars (c # s) =
     (let b = of_char c :: nat in
      if b < 0x80 then b # chars s
      else if b < 0xE0 then utf8_value (b mod 32) (take 1 s) # chars (drop 1 s)
      else if b < 0xF0 then utf8_value (b mod 16) (take 2 s) # chars (drop 2 s)
      else utf8_value (b mod 8) (take 3 s) # chars (drop 3 s))"

definition valid_utf8 :: "string \<Rightarrow> bool" where
  "valid_utf8 s \<longleftrightarrow> list_all scalar (chars s) \<and> utf8_string (chars s) = s"

lemma utf8_string_simps [simp]:
  "utf8_string [] = []" "utf8_string (c # cs) = utf8_char c @ utf8_string cs"
  "utf8_string (cs @ ds) = utf8_string cs @ utf8_string ds"
  by (simp_all add: utf8_string_def)

lemma chars_steps:
  "b < 0x80 \<Longrightarrow> chars (char_of b # s) = b # chars s"
  "a < 32 \<Longrightarrow> d < 64 \<Longrightarrow> chars (char_of (0xC0 + a) # char_of (0x80 + d) # s) = (a * 64 + d) # chars s"
  "a < 16 \<Longrightarrow> d < 64 \<Longrightarrow> e < 64 \<Longrightarrow>
     chars (char_of (0xE0 + a) # char_of (0x80 + d) # char_of (0x80 + e) # s) = ((a * 64 + d) * 64 + e) # chars s"
  "a < 8 \<Longrightarrow> d < 64 \<Longrightarrow> e < 64 \<Longrightarrow> f < 64 \<Longrightarrow>
     chars (char_of (0xF0 + a) # char_of (0x80 + d) # char_of (0x80 + e) # char_of (0x80 + f) # s) =
       (((a * 64 + d) * 64 + e) * 64 + f) # chars s"
proof -
  have m: "(0x80 + d) mod 64 = d" "(0x80 + d) mod 256 = 0x80 + d" if "d < 64" for d :: nat
    using that mod_mult_self2 [of d 64 2] by (simp_all add: add.commute)
  have t: "(0xC0 + a) mod 32 = a" if "a < 32" for a :: nat using that mod_mult_self2 [of a 32 6] by (simp add: add.commute)
  have u: "(0xE0 + a) mod 16 = a" if "a < 16" for a :: nat using that mod_mult_self2 [of a 16 14] by (simp add: add.commute)
  have v: "(0xF0 + a) mod 8 = a" if "a < 8" for a :: nat using that mod_mult_self2 [of a 8 30] by (simp add: add.commute)
  note defs = utf8_value_def Let_def of_char_of take_Suc
  show "b < 0x80 \<Longrightarrow> chars (char_of b # s) = b # chars s" by (simp add: of_char_of)
  show "a < 32 \<Longrightarrow> d < 64 \<Longrightarrow> chars (char_of (0xC0 + a) # char_of (0x80 + d) # s) = (a * 64 + d) # chars s"
    by (simp add: defs m t)
  show "a < 16 \<Longrightarrow> d < 64 \<Longrightarrow> e < 64 \<Longrightarrow>
     chars (char_of (0xE0 + a) # char_of (0x80 + d) # char_of (0x80 + e) # s) = ((a * 64 + d) * 64 + e) # chars s"
    by (simp add: defs m u numeral_2_eq_2)
  show "a < 8 \<Longrightarrow> d < 64 \<Longrightarrow> e < 64 \<Longrightarrow> f < 64 \<Longrightarrow>
     chars (char_of (0xF0 + a) # char_of (0x80 + d) # char_of (0x80 + e) # char_of (0x80 + f) # s) =
       (((a * 64 + d) * 64 + e) * 64 + f) # chars s"
    by (simp add: defs m v numeral_3_eq_3)
qed

lemma div_digits:
  "(c :: nat) div 4096 * 64 + c div 64 mod 64 = c div 64"
  "c div 262144 * 64 + c div 4096 mod 64 = c div 4096"
proof -
  have "c div 4096 = c div 64 div 64" "c div 262144 = c div 4096 div 64" by (simp_all add: div_mult2_eq [symmetric])
  then show "c div 4096 * 64 + c div 64 mod 64 = c div 64" "c div 262144 * 64 + c div 4096 mod 64 = c div 4096"
    by simp_all
qed

lemma chars_utf8_char: "c < 0x110000 \<Longrightarrow> chars (utf8_char c @ s) = c # chars s"
proof -
  assume c: "c < 0x110000"
  consider "c < 0x80" | "0x80 \<le> c" "c < 0x800" | "0x800 \<le> c" "c < 0x10000" | "0x10000 \<le> c" by linarith
  then show ?thesis
  proof cases
    case 1
    then show ?thesis by (simp add: utf8_char_def chars_steps(1) del: chars.simps)
  next
    case 2
    then have "c div 64 < 32" by (simp add: div_less_iff_less_mult)
    with 2 show ?thesis by (simp add: utf8_char_def chars_steps(2) del: chars.simps)
  next
    case 3
    then have "c div 4096 < 16" by (simp add: div_less_iff_less_mult)
    with 3 show ?thesis by (simp add: utf8_char_def chars_steps(3) div_digits del: chars.simps)
  next
    case 4
    have "c div 262144 < 8" using c by (simp add: div_less_iff_less_mult)
    with 4 show ?thesis by (simp add: utf8_char_def chars_steps(4) div_digits del: chars.simps)
  qed
qed

lemma scalar_bound: "scalar c \<Longrightarrow> c < 0x110000"
  by (auto simp: scalar_def)

lemma chars_utf8_string_append: "list_all scalar cs \<Longrightarrow> chars (utf8_string cs @ s) = cs @ chars s"
  by (induction cs) (simp_all add: chars_utf8_char scalar_bound del: chars.simps(2))

lemma chars_utf8_string: "list_all scalar cs \<Longrightarrow> chars (utf8_string cs) = cs"
  using chars_utf8_string_append [of cs "[]"] by simp

lemma valid_utf8_string: "list_all scalar cs \<Longrightarrow> valid_utf8 (utf8_string cs)"
  by (simp add: valid_utf8_def chars_utf8_string)

lemma utf8_ascii: "(\<forall>c \<in> set s. of_char c < (128 :: nat)) \<Longrightarrow> chars s = map of_char s \<and> valid_utf8 s"
proof (induction s)
  case (Cons c s)
  then have c: "of_char c < (128 :: nat)" and IH: "chars s = map of_char s" "valid_utf8 s" by simp_all
  have "utf8_char (of_char c) = [c]" using c by (simp add: utf8_char_def)
  with c IH show ?case by (simp add: valid_utf8_def scalar_def)
qed (simp add: valid_utf8_def)

section \<open>UTF-16\<close>

definition utf16_char :: "nat \<Rightarrow> wide" where
  "utf16_char c =
     (if c < 0x10000 then [of_nat c]
      else [of_nat (0xD800 + (c - 0x10000) div 1024), of_nat (0xDC00 + (c - 0x10000) mod 1024)])"

definition encode_utf16 :: "string \<Rightarrow> wide" where
  "encode_utf16 s = concat (map utf16_char (chars s))"

definition high_surrogate :: "16 word \<Rightarrow> bool" where
  "high_surrogate u \<longleftrightarrow> 0xD800 \<le> unat u \<and> unat u < 0xDC00"

definition low_surrogate :: "16 word \<Rightarrow> bool" where
  "low_surrogate u \<longleftrightarrow> 0xDC00 \<le> unat u \<and> unat u < 0xE000"

text \<open>An unpaired surrogate becomes U+FFFD.\<close>

fun decode_utf16 :: "wide \<Rightarrow> nat list" where
  "decode_utf16 [] = []"
| "decode_utf16 (u # us) =
     (if high_surrogate u then
        (case us of
           v # vs \<Rightarrow>
             if low_surrogate v then
               (0x10000 + (unat u - 0xD800) * 1024 + (unat v - 0xDC00)) # decode_utf16 vs
             else 0xFFFD # decode_utf16 us
         | [] \<Rightarrow> [0xFFFD])
      else if low_surrogate u then 0xFFFD # decode_utf16 us
      else unat u # decode_utf16 us)"

definition from_utf16_lossy :: "wide \<Rightarrow> string" where
  "from_utf16_lossy w = utf8_string (decode_utf16 w)"

lemma decode_utf16_scalar: "list_all scalar (decode_utf16 w)"
proof (induction w rule: decode_utf16.induct)
  case (2 u us)
  have "unat u < 0x10000" using unsigned_less [where 'a = nat, of u] by simp
  with 2 show ?case
    by (auto simp: scalar_def high_surrogate_def low_surrogate_def split: list.split)
qed simp

lemma valid_from_utf16_lossy: "valid_utf8 (from_utf16_lossy w)"
  by (simp add: from_utf16_lossy_def valid_utf8_string decode_utf16_scalar)

lemma decode_utf16_char: "scalar c \<Longrightarrow> decode_utf16 (utf16_char c @ w) = c # decode_utf16 w"
proof -
  assume c: "scalar c"
  show ?thesis
  proof (cases "c < 0x10000")
    case True
    then have "unat (of_nat c :: 16 word) = c" by (simp add: unat_of_nat)
    with True c show ?thesis
      by (auto simp: utf16_char_def high_surrogate_def low_surrogate_def scalar_def)
  next
    case False
    let ?d = "c - 0x10000"
    have d: "?d < 0x100000" using c False by (auto simp: scalar_def)
    then have q: "?d div 1024 < 1024" by (simp add: div_less_iff_less_mult)
    have u: "unat (of_nat (0xD800 + ?d div 1024) :: 16 word) = 0xD800 + ?d div 1024"
      "unat (of_nat (0xDC00 + ?d mod 1024) :: 16 word) = 0xDC00 + ?d mod 1024"
      using q by (simp_all add: unat_of_nat del: of_nat_add)
    have "0x10000 + ?d div 1024 * 1024 + ?d mod 1024 = c" using False by (metis add.assoc div_mult_mod_eq le_add_diff_inverse not_less)
    with u q False show ?thesis
      by (simp add: utf16_char_def high_surrogate_def low_surrogate_def del: of_nat_add)
  qed
qed

lemma decode_encode_utf16: "list_all scalar cs \<Longrightarrow> decode_utf16 (concat (map utf16_char cs)) = cs"
  by (induction cs) (simp_all add: decode_utf16_char del: decode_utf16.simps(2))

text \<open>A Rust string survives the round trip through UTF-16.\<close>

lemma utf16_roundtrip: "valid_utf8 s \<Longrightarrow> from_utf16_lossy (encode_utf16 s) = s"
  by (simp add: valid_utf8_def from_utf16_lossy_def encode_utf16_def decode_encode_utf16)

end
