(* ===== verification/Sys_Windows.thy ===== *)
theory Sys_Windows
  imports Plt_Slot Wide_String
begin

text \<open>
  \<^verbatim>\<open>crates/plthook/src/sys.rs\<close>: the Windows platform layer under the slot transaction.  The loader and
  the memory manager of the operating system are a record of the calls the code makes; handles and
  addresses are natural numbers, 0 being the null pointer, and a call that only queries does not
  change the state.  What the transaction needs from the calls is proved from what Windows documents
  of \<open>VirtualProtect\<close> (the locale \<open>windows_kernel\<close>).
\<close>

section \<open>The operating system\<close>

record memory_info =
  mbi_allocation_base :: nat
  mbi_state :: nat
  mbi_type :: nat
  mbi_protect :: nat

text \<open>A name with its terminator, or an ordinal in the place of the pointer.\<close>

datatype proc_name = ProcName string | ProcOrdinal nat

text \<open>\<open>GetModuleFileNameW\<close> answers the length it reports and the units it stored; \<open>EnumProcessModules\<close> takes
  the size of the array in bytes and answers success, the handles it stored and the size it needs.\<close>

record 'o win32 =
  w_dwPageSize :: nat
  w_GetModuleHandleExW :: "nat \<Rightarrow> 'o \<Rightarrow> bool \<times> nat"
  w_GetModuleHandleW :: "wide \<Rightarrow> 'o \<Rightarrow> nat"
  w_LoadLibraryW :: "wide \<Rightarrow> 'o \<Rightarrow> nat \<times> 'o"
  w_GetModuleInformation :: "nat \<Rightarrow> 'o \<Rightarrow> bool \<times> nat"
  w_GetModuleFileNameW :: "nat \<Rightarrow> nat \<Rightarrow> 'o \<Rightarrow> nat \<times> wide"
  w_EnumProcessModules :: "nat \<Rightarrow> 'o \<Rightarrow> bool \<times> nat list \<times> nat"
  w_GetProcAddress :: "nat \<Rightarrow> proc_name \<Rightarrow> 'o \<Rightarrow> nat option"
  w_VirtualProtect :: "nat \<Rightarrow> nat \<Rightarrow> nat \<Rightarrow> 'o \<Rightarrow> nat option \<times> 'o"
  w_VirtualQuery :: "nat \<Rightarrow> 'o \<Rightarrow> memory_info option"
  w_GetLastError :: "'o \<Rightarrow> int"

definition MEM_COMMIT :: nat where "MEM_COMMIT = 0x1000"
definition MEM_IMAGE :: nat where "MEM_IMAGE = 0x1000000"
definition PAGE_READWRITE :: nat where "PAGE_READWRITE = 4"
definition HMODULE_SIZE :: nat where "HMODULE_SIZE = 8"
definition U32_MAX :: nat where "U32_MAX = 0xFFFFFFFF"

definition as_wide :: "string \<Rightarrow> wide" where
  "as_wide s = encode_utf16 s @ [0]"

definition win_page_size :: "'o win32 \<Rightarrow> nat" where
  "win_page_size w = (if w_dwPageSize w = 0 then 0x1000 else w_dwPageSize w)"

section \<open>Modules\<close>

definition module_from_address :: "'o win32 \<Rightarrow> nat \<Rightarrow> 'o \<Rightarrow> plt_error + nat" where
  "module_from_address w address st =
     (case w_GetModuleHandleExW w address st of
        (ok, handle) \<Rightarrow>
          if \<not> ok \<or> handle = 0 then Inl (ModuleNotFound ''address'' (w_GetLastError w st)) else Inr handle)"

definition win_module_from_name :: "'o win32 \<Rightarrow> string \<Rightarrow> 'o \<Rightarrow> plt_error + nat" where
  "win_module_from_name w name st =
     (let handle = w_GetModuleHandleW w (as_wide name) st in
      if handle = 0 then Inl (ModuleNotFound ''name'' (w_GetLastError w st)) else Inr handle)"

definition win_module_still_loaded :: "'o win32 \<Rightarrow> nat \<Rightarrow> 'o \<Rightarrow> bool" where
  "win_module_still_loaded w base st =
     (case w_GetModuleHandleExW w base st of (ok, handle) \<Rightarrow> ok \<and> handle = base)"

definition image_size :: "'o win32 \<Rightarrow> nat \<Rightarrow> 'o \<Rightarrow> plt_error + nat" where
  "image_size w base st =
     (case w_GetModuleInformation w base st of
        (ok, size_of_image) \<Rightarrow>
          if \<not> ok \<or> size_of_image = 0 then Inl (ImageSizeUnknown base (w_GetLastError w st))
          else Inr size_of_image)"

text \<open>The buffer doubles until the name fits.  It is never empty (it starts with 260 units), so the
  second disjunct of the last test only makes the recursion total.\<close>

function module_path_loop :: "'o win32 \<Rightarrow> nat \<Rightarrow> 'o \<Rightarrow> wide \<Rightarrow> string" where
  "module_path_loop w base st buf =
     (case w_GetModuleFileNameW w base (min (length buf) U32_MAX) st of
        (len, written) \<Rightarrow>
          let buf' = take (length buf) (written @ drop (length written) buf) in
          if len = 0 then []
          else if len < length buf then from_utf16_lossy (take len buf')
          else if 2 ^ 16 \<le> length buf \<or> buf = [] then from_utf16_lossy buf'
          else module_path_loop w base st (vec_resize (length buf * 2) 0 buf'))"
  by pat_completeness auto
termination
  by (relation "measure (\<lambda>(w, base, st, buf). 2 ^ 16 - length buf)") (auto simp: neq_Nil_conv)

declare module_path_loop.simps [simp del]

definition module_path :: "'o win32 \<Rightarrow> nat \<Rightarrow> 'o \<Rightarrow> string" where
  "module_path w base st = module_path_loop w base st (replicate 260 0)"

definition win_enumerate :: "'o win32 \<Rightarrow> 'o \<Rightarrow> plt_error + nat list" where
  "win_enumerate w st =
     (case w_EnumProcessModules w 0 st of
        (ok, _, needed) \<Rightarrow>
          if \<not> ok then Inl (ModuleNotFound ''process module list'' (w_GetLastError w st))
          else
            let modules = replicate (max (needed div HMODULE_SIZE) 1) 0 in
            (case w_EnumProcessModules w (min (length modules * HMODULE_SIZE) U32_MAX) st of
               (ok, written, needed) \<Rightarrow>
                 if \<not> ok then Inl (ModuleNotFound ''process module list'' (w_GetLastError w st))
                 else
                   let returned = min (needed div HMODULE_SIZE) (length modules) in
                   Inr (take returned (take (length modules) (written @ drop (length written) modules)))))"

section \<open>Resolving originals\<close>

definition proc_address :: "'o win32 \<Rightarrow> nat \<Rightarrow> symbol \<Rightarrow> 'o \<Rightarrow> nat option" where
  "proc_address w m symb st =
     (case symb of
        SymName name \<Rightarrow> w_GetProcAddress w m (ProcName (name @ [NUL])) st
      | SymOrdinal n \<Rightarrow> w_GetProcAddress w m (ProcOrdinal n) st)"

definition resolve_export :: "'o win32 \<Rightarrow> string \<Rightarrow> symbol \<Rightarrow> 'o \<Rightarrow> nat option" where
  "resolve_export w library symb st =
     (let m = w_GetModuleHandleW w (as_wide library) st in
      if m = 0 then None else proc_address w m symb st)"

definition resolve_delay_export :: "'o win32 \<Rightarrow> string \<Rightarrow> symbol \<Rightarrow> 'o \<Rightarrow> nat option \<times> 'o" where
  "resolve_delay_export w library symb st =
     (let m = w_GetModuleHandleW w (as_wide library) st in
      case (if m = 0 then w_LoadLibraryW w (as_wide library) st else (m, st)) of
        (m', st') \<Rightarrow> (if m' = 0 then None else proc_address w m' symb st', st'))"

definition win_resolve_original ::
  "'o win32 \<Rightarrow> import_kind \<Rightarrow> string \<Rightarrow> symbol \<Rightarrow> nat \<Rightarrow> 'o \<Rightarrow> nat option \<times> 'o" where
  "win_resolve_original w kind library symb slot_value st =
     (case kind of
        Standard \<Rightarrow> (Some (case resolve_export w library symb st of Some p \<Rightarrow> p | None \<Rightarrow> slot_value), st)
      | DelayLoad \<Rightarrow> resolve_delay_export w library symb st)"

section \<open>Page protection\<close>

definition win_make_writable :: "'o win32 \<Rightarrow> nat \<Rightarrow> 'o \<Rightarrow> (plt_error + nat) \<times> 'o" where
  "win_make_writable w page st =
     (case w_VirtualProtect w page (win_page_size w) PAGE_READWRITE st of
        (None, st') \<Rightarrow> (Inl (Protect page (w_GetLastError w st')), st')
      | (Some old, st') \<Rightarrow> (Inr old, st'))"

definition win_restore_protection :: "'o win32 \<Rightarrow> nat \<Rightarrow> nat \<Rightarrow> 'o \<Rightarrow> (plt_error + unit) \<times> 'o" where
  "win_restore_protection w page protection st =
     (case w_VirtualProtect w page (win_page_size w) protection st of
        (None, st') \<Rightarrow> (Inl (Protect page (w_GetLastError w st')), st')
      | (Some _, st') \<Rightarrow> (Inr (), st'))"

definition win_query_protection :: "'o win32 \<Rightarrow> nat \<Rightarrow> 'o \<Rightarrow> nat" where
  "win_query_protection w address st =
     (case w_VirtualQuery w address st of None \<Rightarrow> 0 | Some info \<Rightarrow> mbi_protect info)"

definition win_slot_belongs :: "'o win32 \<Rightarrow> nat \<Rightarrow> nat \<Rightarrow> 'o \<Rightarrow> bool" where
  "win_slot_belongs w address module_base st =
     (case w_VirtualQuery w address st of
        None \<Rightarrow> False
      | Some info \<Rightarrow>
          mbi_state info = MEM_COMMIT \<and> mbi_type info = MEM_IMAGE \<and> mbi_allocation_base info = module_base)"

definition windows_sys :: "'o win32 \<Rightarrow> 'o sys_ops" where
  "windows_sys w =
     \<lparr>page_size = win_page_size w,
      make_writable = win_make_writable w,
      restore_protection = win_restore_protection w,
      module_still_loaded = win_module_still_loaded w,
      slot_belongs_to_module = win_slot_belongs w,
      resolve_original = win_resolve_original w\<rparr>"

section \<open>What Windows promises\<close>

text \<open>\<open>prot\<close> is the protection of a committed page.  Over one committed page \<open>VirtualProtect\<close> sets the
  protection, if it is a valid one, and answers the one before; otherwise it fails, without effect.\<close>

locale windows_kernel =
  fixes w :: "'o win32"
    and prot :: "'o \<Rightarrow> nat \<Rightarrow> nat"
    and committed :: "'o \<Rightarrow> nat set"
    and valid :: "nat \<Rightarrow> bool"
  assumes protect: "page mod win_page_size w = 0 \<Longrightarrow>
      w_VirtualProtect w page (win_page_size w) v st = (r, st') \<Longrightarrow>
      committed st' = committed st \<and>
      (if page \<in> committed st \<and> valid v then r = Some (prot st page) \<and> prot st' = (prot st)(page := v)
       else r = None \<and> prot st' = prot st)"
    and valid_prot: "page \<in> committed st \<Longrightarrow> valid (prot st page)"
    and valid_readwrite: "valid PAGE_READWRITE"

sublocale windows_kernel \<subseteq> win_pages: stable_pages "windows_sys w" prot "\<lambda>_. PAGE_READWRITE" committed valid
proof (unfold_locales, goal_cases)
  case (1 page st old st')
  then have "page mod win_page_size w = 0" "w_VirtualProtect w page (win_page_size w) PAGE_READWRITE st = (Some old, st')"
    by (auto simp: windows_sys_def win_make_writable_def split: prod.splits option.splits)
  from protect [OF this] show ?case using valid_prot [of page st] by (simp split: if_splits)
next
  case (2 page st err st')
  then have "page mod win_page_size w = 0" "w_VirtualProtect w page (win_page_size w) PAGE_READWRITE st = (None, st')"
    by (auto simp: windows_sys_def win_make_writable_def split: prod.splits option.splits)
  from protect [OF this] show ?case by (simp split: if_splits)
next
  case (3 page v st u st')
  then obtain old where "page mod win_page_size w = 0" "w_VirtualProtect w page (win_page_size w) v st = (Some old, st')"
    by (auto simp: windows_sys_def win_restore_protection_def split: prod.splits option.splits)
  from protect [OF this] show ?case by (simp split: if_splits)
next
  case (4 page v st err st')
  then have "page mod win_page_size w = 0" "w_VirtualProtect w page (win_page_size w) v st = (None, st')"
    by (auto simp: windows_sys_def win_restore_protection_def split: prod.splits option.splits)
  from protect [OF this] show ?case by (simp split: if_splits)
next
  case (5 page st r st')
  obtain q st1 where q: "w_VirtualProtect w page (win_page_size w) PAGE_READWRITE st = (q, st1)" by fastforce
  have "page mod win_page_size w = 0" using 5(1) by (simp add: windows_sys_def)
  from protect [OF this q] show ?case
    using 5(2) q valid_prot by (auto simp: windows_sys_def win_make_writable_def split: if_splits option.splits)
next
  case (6 page v st q st')
  obtain r st1 where q: "w_VirtualProtect w page (win_page_size w) v st = (r, st1)" by fastforce
  have "page mod win_page_size w = 0" using 6(1) by (simp add: windows_sys_def)
  from protect [OF this q] show ?case
    using 6(2) q by (auto simp: windows_sys_def win_restore_protection_def split: option.splits)
next
  case (7 page st v)
  obtain r st1 where q: "w_VirtualProtect w page (win_page_size w) v st = (r, st1)" by fastforce
  have "page mod win_page_size w = 0" using 7(1) by (simp add: windows_sys_def)
  from protect [OF this q] show ?case
    using 7(2,3) q by (auto simp: windows_sys_def win_restore_protection_def)
qed

section \<open>A page table\<close>

text \<open>A concrete Windows: the state lists the committed pages with their protections, one module spans
  them, \<open>procs\<close> are its exports.\<close>

definition win_committed :: "(nat \<times> nat) list \<Rightarrow> nat set" where
  "win_committed st = fst ` set (filter (\<lambda>(_, pr). pr < 0x800) st)"

definition win_prot :: "(nat \<times> nat) list \<Rightarrow> nat \<Rightarrow> nat" where
  "win_prot st page = (case map_of (filter (\<lambda>(_, pr). pr < 0x800) st) page of Some pr \<Rightarrow> pr | None \<Rightarrow> 0)"

definition table_win32 :: "nat \<Rightarrow> nat \<Rightarrow> (proc_name \<Rightarrow> nat option) \<Rightarrow> (nat \<times> nat) list win32" where
  "table_win32 base size_of_image procs =
     \<lparr>w_dwPageSize = 4096,
      w_GetModuleHandleExW = (\<lambda>a st. (base \<le> a \<and> a < base + size_of_image, base)),
      w_GetModuleHandleW = (\<lambda>_ _. base),
      w_LoadLibraryW = (\<lambda>_ st. (base, st)),
      w_GetModuleInformation = (\<lambda>h _. (h = base, size_of_image)),
      w_GetModuleFileNameW = (\<lambda>_ n _. (min n 5, take n (encode_utf16 ''a.dll''))),
      w_EnumProcessModules = (\<lambda>n _. (True, take (n div 8) [base], 8)),
      w_GetProcAddress = (\<lambda>_ name _. procs name),
      w_VirtualProtect = (\<lambda>page n v st.
        if n = 4096 \<and> page \<in> win_committed st \<and> v < 0x800 then (Some (win_prot st page), (page, v) # st) else (None, st)),
      w_VirtualQuery = (\<lambda>a st.
        if base \<le> a \<and> a < base + size_of_image then
          Some \<lparr>mbi_allocation_base = base, mbi_state = MEM_COMMIT, mbi_type = MEM_IMAGE,
                mbi_protect = win_prot st (page_of 4096 a)\<rparr>
        else None),
      w_GetLastError = (\<lambda>_. 487)\<rparr>"

interpretation win_table: windows_kernel "table_win32 base size_of_image procs" win_prot win_committed "\<lambda>v. v < 0x800"
proof (unfold_locales, goal_cases)
  case (1 page v st r st')
  let ?w = "table_win32 base size_of_image procs"
  have "win_page_size ?w = 4096" by (simp add: win_page_size_def table_win32_def)
  with 1(2) have p: "(if page \<in> win_committed st \<and> v < 0x800 then (Some (win_prot st page), (page, v) # st) else (None, st)) = (r, st')"
    by (simp add: table_win32_def)
  have "win_committed ((page, v) # st) = win_committed st" if "page \<in> win_committed st" "v < 0x800"
    using that by (auto simp: win_committed_def)
  moreover have "win_prot ((page, v) # st) = (win_prot st)(page := v)" if "v < 0x800"
    using that by (auto simp: win_prot_def fun_eq_iff)
  ultimately show ?case using p by (auto split: if_splits)
next
  case (2 page st)
  show ?case by (auto simp: win_prot_def split: option.splits dest: map_of_SomeD)
qed (simp add: PAGE_READWRITE_def)

section \<open>Properties\<close>

context windows_kernel
begin

lemmas win_apply_success = win_pages.apply_success
lemmas win_apply_error = win_pages.apply_error

end


definition win_demo :: "(nat \<times> nat) list win32" where
  "win_demo = table_win32 4096 8192 (\<lambda>_. Some 7)"

definition win_demo_process :: "(nat \<times> nat) list process" where
  "win_demo_process = \<lparr>mem = \<lambda>_. 7, os = [(4096, 2)]\<rparr>"

lemma win_demo_kernel: "windows_kernel win_demo win_prot win_committed (\<lambda>v. v < 0x800)"
  unfolding win_demo_def by (rule win_table.windows_kernel_axioms)


end
