(* ===== verification/Pe_Module.thy ===== *)
theory Pe_Module
  imports Pe_Image Sys_Windows
begin

text \<open>
  \<^verbatim>\<open>crates/plthook/src/module.rs\<close>: a loaded PE image, validated when it is acquired, and its import
  slots.  \<open>memory\<close> gives the byte at an address, \<open>host\<close> is the machine the engine is compiled for.
\<close>

record pe_module =
  pm_base :: nat
  pm_size :: nat
  pm_path :: string

definition from_loaded :: "nat \<Rightarrow> (nat \<Rightarrow> byte) \<Rightarrow> nat \<Rightarrow> nat \<Rightarrow> mapped_image" where
  "from_loaded host memory base sz = \<lparr>mi_base = base, mi_size = sz, mi_memory = memory, mi_host = host\<rparr>"

definition pe_from_base :: "'o win32 \<Rightarrow> nat \<Rightarrow> (nat \<Rightarrow> byte) \<Rightarrow> nat \<Rightarrow> 'o \<Rightarrow> pe_module plt_result" where
  "pe_from_base w host memory base st =
     and_then (image_size w base st) (\<lambda>sz.
     and_then (pe_validate (from_loaded host memory base sz)) (\<lambda>_.
       Inr \<lparr>pm_base = base, pm_size = sz, pm_path = module_path w base st\<rparr>))"

definition pe_from_handle :: "'o win32 \<Rightarrow> nat \<Rightarrow> (nat \<Rightarrow> byte) \<Rightarrow> nat \<Rightarrow> 'o \<Rightarrow> pe_module plt_result" where
  "pe_from_handle w host memory handle st =
     (if handle = 0 then Inl (ModuleNotFound ''null handle'' 0) else pe_from_base w host memory handle st)"

definition pe_from_address :: "'o win32 \<Rightarrow> nat \<Rightarrow> (nat \<Rightarrow> byte) \<Rightarrow> nat \<Rightarrow> 'o \<Rightarrow> pe_module plt_result" where
  "pe_from_address w host memory address st =
     and_then (module_from_address w address st) (\<lambda>base. pe_from_base w host memory base st)"

definition pe_from_name :: "'o win32 \<Rightarrow> nat \<Rightarrow> (nat \<Rightarrow> byte) \<Rightarrow> string \<Rightarrow> 'o \<Rightarrow> pe_module plt_result" where
  "pe_from_name w host memory name st =
     and_then (win_module_from_name w name st) (\<lambda>base. pe_from_base w host memory base st)"

fun validated :: "'o win32 \<Rightarrow> nat \<Rightarrow> (nat \<Rightarrow> byte) \<Rightarrow> 'o \<Rightarrow> nat list \<Rightarrow> pe_module list" where
  "validated w host memory st [] = []"
| "validated w host memory st (base # bases) =
     (case pe_from_base w host memory base st of
        Inr m \<Rightarrow> m # validated w host memory st bases
      | Inl _ \<Rightarrow> validated w host memory st bases)"

definition pe_enumerate :: "'o win32 \<Rightarrow> nat \<Rightarrow> (nat \<Rightarrow> byte) \<Rightarrow> 'o \<Rightarrow> pe_module list plt_result" where
  "pe_enumerate w host memory st =
     and_then (win_enumerate w st) (\<lambda>bases. Inr (validated w host memory st bases))"

text \<open>The part of the path after the last separator; a path ends at no character boundary inside a
  separator, so slicing there never fails.\<close>

definition pe_module_name :: "pe_module \<Rightarrow> string" where
  "pe_module_name m = rev (takeWhile (\<lambda>c. c \<noteq> CHR 0x5C \<and> c \<noteq> CHR ''/'') (rev (pm_path m)))"

definition pe_module_imports :: "nat \<Rightarrow> (nat \<Rightarrow> byte) \<Rightarrow> pe_module \<Rightarrow> import_slot list plt_result" where
  "pe_module_imports host memory m =
     and_then (pe_parse_imports (from_loaded host memory (pm_base m) (pm_size m)))
       (\<lambda>raws. Inr (map (import_slot_from_raw (pm_base m)) raws))"

section \<open>Acquired modules\<close>

definition pe_valid :: "nat \<Rightarrow> (nat \<Rightarrow> byte) \<Rightarrow> pe_module \<Rightarrow> bool" where
  "pe_valid host memory m \<longleftrightarrow> pe_validate (from_loaded host memory (pm_base m) (pm_size m)) = Inr ()"

lemma pe_from_base_Inr:
  assumes "pe_from_base w host memory base st = Inr m"
  shows "pe_valid host memory m" "pm_base m = base" "image_size w base st = Inr (pm_size m)" "0 < pm_size m"
  using assms
  by (auto simp: pe_from_base_def pe_valid_def image_size_def split: prod.splits if_splits)

lemma validated_from_base:
  "m \<in> set (validated w host memory st bases) \<Longrightarrow> pm_base m \<in> set bases \<and> pe_from_base w host memory (pm_base m) st = Inr m"
  by (induction bases) (auto split: sum.splits dest: pe_from_base_Inr)

lemma pe_module_imports_slots:
  assumes "pe_module_imports host memory m = Inr slots" "s \<in> set slots"
  shows "is_module_base s = pm_base m" "pm_base m \<le> is_address s" "is_address s + 8 \<le> pm_base m + pm_size m"
    "(is_address s - pm_base m) mod 8 = 0" "\<not> is_authenticated s"
proof -
  let ?img = "from_loaded host memory (pm_base m) (pm_size m)"
  from assms(1) obtain raws where raws: "pe_parse_imports ?img = Inr raws"
    "slots = map (import_slot_from_raw (pm_base m)) raws" by (auto simp: pe_module_imports_def)
  with assms(2) obtain raw where raw: "raw \<in> set raws" "s = import_slot_from_raw (pm_base m) raw" by auto
  from pe_parse_imports_patchable [OF raws(1)] raw(1) have "pe_patchable ?img raw" by (simp add: list_all_iff)
  then show "is_module_base s = pm_base m" "pm_base m \<le> is_address s" "is_address s + 8 \<le> pm_base m + pm_size m"
    "(is_address s - pm_base m) mod 8 = 0" "\<not> is_authenticated s"
    by (simp_all add: raw(2) import_slot_from_raw_def pe_patchable_def from_loaded_def THUNK_SIZE_def)
qed


definition pe_demo :: pe_module where
  "pe_demo = \<lparr>pm_base = 4096, pm_size = 496, pm_path = ''a.dll''\<rparr>"

abbreviation "pe_demo_win \<equiv> table_win32 4096 496 (\<lambda>_. Some 7)"

lemma from_loaded_sample:
  "from_loaded IMAGE_FILE_MACHINE_AMD64 (mi_memory sample_pe) 4096 496 = sample_pe"
  by (simp add: from_loaded_def sample_pe_def)

lemma pe_demo_path: "module_path pe_demo_win 4096 st = ''a.dll''"
proof -
  have c: "chars ''a.dll'' = map of_char ''a.dll''" "valid_utf8 ''a.dll''" using utf8_ascii [of "''a.dll''"] by simp_all
  then have l: "length (encode_utf16 ''a.dll'') = 5" by (simp add: encode_utf16_def utf16_char_def)
  show ?thesis
    using utf16_roundtrip [OF c(2)] l
    by (simp add: module_path_def module_path_loop.simps [of _ _ _ "replicate 260 0"] table_win32_def U32_MAX_def)
qed

lemma pe_demo_acquired:
  "pe_enumerate pe_demo_win IMAGE_FILE_MACHINE_AMD64 (mi_memory sample_pe) [(4096, 2)] = Inr [pe_demo]"
proof -
  have "win_enumerate pe_demo_win st = Inr [4096]" for st
    by (simp add: win_enumerate_def table_win32_def HMODULE_SIZE_def U32_MAX_def)
  moreover have "image_size pe_demo_win 4096 st = Inr 496" for st by (simp add: image_size_def table_win32_def)
  moreover have "pe_validate sample_pe = Inr ()"
    using parse_headers_at [OF sample_pe_fits sample_pe_headers] by (simp add: pe_validate_def)
  ultimately show ?thesis
    by (simp add: pe_enumerate_def pe_from_base_def from_loaded_sample pe_demo_path pe_demo_def)
qed


end
