(* ===== verification/Win_Path.thy ===== *)
theory Win_Path
  imports Wide_String
begin

text \<open>
  The part of Rust's \<open>std::path\<close> (Windows flavour) that the sources use: \<open>Path::parent\<close>,
  \<open>Path::file_name\<close> and \<open>Path::join\<close> on the bytes of a path, with the prefixes of Windows paths (drive,
  share, device and the verbatim forms).  In a verbatim path only the backslash separates and a dot
  is a component of its own.
\<close>

definition BSL :: char where
  "BSL = CHR 0x5C"

definition win_sep :: "char \<Rightarrow> bool" where
  "win_sep c \<longleftrightarrow> c = BSL \<or> c = CHR ''/''"

section \<open>Prefixes\<close>

datatype win_prefix =
    Verbatim string | VerbatimUNC string string | VerbatimDisk char | DeviceNS string | UNC string string | Disk char

definition next_component :: "(char \<Rightarrow> bool) \<Rightarrow> string \<Rightarrow> string \<times> string" where
  "next_component sep p = (takeWhile (\<lambda>c. \<not> sep c) p, tl (dropWhile (\<lambda>c. \<not> sep c) p))"

definition unify_sep :: "char \<Rightarrow> char" where
  "unify_sep c = (if c = CHR ''/'' then BSL else c)"

definition strip_unified :: "string \<Rightarrow> string \<Rightarrow> string option" where
  "strip_unified pre p = (if map unify_sep (take (length pre) p) = pre then Some (drop (length pre) p) else None)"

definition ascii_alphabetic :: "char \<Rightarrow> bool" where
  "ascii_alphabetic c \<longleftrightarrow> (let n = of_char c :: nat in 65 \<le> n \<and> n \<le> 90 \<or> 97 \<le> n \<and> n \<le> 122)"

fun parse_drive :: "string \<Rightarrow> char option" where
  "parse_drive (c # d # _) = (if ascii_alphabetic c \<and> d = CHR '':'' then Some c else None)"
| "parse_drive _ = None"

definition parse_drive_exact :: "string \<Rightarrow> char option" where
  "parse_drive_exact p = (if 2 < length p \<and> \<not> win_sep (p ! 2) then None else parse_drive p)"

definition parse_verbatim :: "string \<Rightarrow> win_prefix" where
  "parse_verbatim p =
     (case strip_unified (''UNC'' @ [BSL]) p of
        Some r \<Rightarrow>
          (case next_component (\<lambda>c. c = BSL) r of
             (server, r') \<Rightarrow> VerbatimUNC server (fst (next_component (\<lambda>c. c = BSL) r')))
      | None \<Rightarrow>
          (case parse_drive_exact p of
             Some d \<Rightarrow> VerbatimDisk d
           | None \<Rightarrow> Verbatim (fst (next_component (\<lambda>c. c = BSL) p))))"

definition parse_prefix :: "string \<Rightarrow> win_prefix option" where
  "parse_prefix p =
     (case strip_unified [BSL, BSL] p of
        None \<Rightarrow> map_option Disk (parse_drive p)
      | Some r \<Rightarrow>
          (case strip_unified [CHR ''?'', BSL] r of
             Some q \<Rightarrow>
               if CHR ''/'' \<notin> set (take 4 p) then Some (parse_verbatim q)
               else
                 (case next_component win_sep r of
                    (server, r') \<Rightarrow>
                      let share = fst (next_component win_sep r') in
                      if server \<noteq> [] \<and> share \<noteq> [] then Some (UNC server share) else None)
           | None \<Rightarrow>
               (case strip_unified [CHR ''.'', BSL] r of
                  Some q \<Rightarrow> Some (DeviceNS (fst (next_component win_sep q)))
                | None \<Rightarrow>
                    (case next_component win_sep r of
                       (server, r') \<Rightarrow>
                         let share = fst (next_component win_sep r') in
                         if server \<noteq> [] \<and> share \<noteq> [] then Some (UNC server share) else None))))"

fun prefix_len :: "win_prefix \<Rightarrow> nat" where
  "prefix_len (Verbatim x) = 4 + length x"
| "prefix_len (VerbatimUNC x y) = 8 + length x + (if y = [] then 0 else 1 + length y)"
| "prefix_len (VerbatimDisk _) = 6"
| "prefix_len (UNC x y) = 2 + length x + (if y = [] then 0 else 1 + length y)"
| "prefix_len (DeviceNS x) = 4 + length x"
| "prefix_len (Disk _) = 2"

fun is_verbatim :: "win_prefix \<Rightarrow> bool" where
  "is_verbatim (Verbatim _) = True"
| "is_verbatim (VerbatimUNC _ _) = True"
| "is_verbatim (VerbatimDisk _) = True"
| "is_verbatim _ = False"

fun is_drive :: "win_prefix \<Rightarrow> bool" where
  "is_drive (Disk _) = True"
| "is_drive _ = False"

section \<open>Components\<close>

definition plen :: "path \<Rightarrow> nat" where
  "plen p = (case parse_prefix p of None \<Rightarrow> 0 | Some x \<Rightarrow> prefix_len x)"

definition verbatim :: "path \<Rightarrow> bool" where
  "verbatim p = (case parse_prefix p of None \<Rightarrow> False | Some x \<Rightarrow> is_verbatim x)"

definition implicit_root :: "path \<Rightarrow> bool" where
  "implicit_root p = (case parse_prefix p of None \<Rightarrow> False | Some x \<Rightarrow> \<not> is_drive x)"

definition physical_root :: "path \<Rightarrow> bool" where
  "physical_root p = (case drop (plen p) p of [] \<Rightarrow> False | c # _ \<Rightarrow> win_sep c)"

definition win_has_root :: "path \<Rightarrow> bool" where
  "win_has_root p \<longleftrightarrow> physical_root p \<or> implicit_root p"

definition comp_sep :: "path \<Rightarrow> char \<Rightarrow> bool" where
  "comp_sep p = (if verbatim p then (\<lambda>c. c = BSL) else win_sep)"

definition win_cur_dir :: "path \<Rightarrow> bool" where
  "win_cur_dir p \<longleftrightarrow>
     \<not> win_has_root p \<and>
     (case drop (plen p) p of
        [] \<Rightarrow> False
      | c # r \<Rightarrow> c = CHR ''.'' \<and> (case r of [] \<Rightarrow> True | d # _ \<Rightarrow> comp_sep p d))"

definition before_body :: "path \<Rightarrow> nat" where
  "before_body p = plen p + (if physical_root p then 1 else 0) + (if win_cur_dir p then 1 else 0)"

definition seg_back :: "(char \<Rightarrow> bool) \<Rightarrow> string \<Rightarrow> string" where
  "seg_back sep b = rev (takeWhile (\<lambda>c. \<not> sep c) (rev b))"

definition rest_back :: "(char \<Rightarrow> bool) \<Rightarrow> string \<Rightarrow> string" where
  "rest_back sep b = rev (tl (dropWhile (\<lambda>c. \<not> sep c) (rev b)))"

lemma length_rest_back: "b \<noteq> [] \<Longrightarrow> length (rest_back sep b) < length b"
proof -
  assume "b \<noteq> []"
  then have "length (dropWhile (\<lambda>c. \<not> sep c) (rev b)) \<le> length b" "0 < length b"
    using length_dropWhile_le [of "\<lambda>c. \<not> sep c" "rev b"] by simp_all
  then show ?thesis unfolding rest_back_def length_rev length_tl by linarith
qed

text \<open>Dropping what is no component from the end: empty segments, and dots unless verbatim.\<close>

function trim_back :: "bool \<Rightarrow> (char \<Rightarrow> bool) \<Rightarrow> string \<Rightarrow> string" where
  "trim_back verb sep b =
     (if b = [] then []
      else if seg_back sep b = [] \<or> \<not> verb \<and> seg_back sep b = ''.'' then trim_back verb sep (rest_back sep b)
      else b)"
  by pat_completeness auto
termination
  by (relation "measure (\<lambda>(_, _, b). length b)") (auto simp: length_rest_back)

declare trim_back.simps [simp del]

definition win_body :: "path \<Rightarrow> string" where
  "win_body p = trim_back (verbatim p) (comp_sep p) (drop (before_body p) p)"

definition win_file_name :: "path \<Rightarrow> string option" where
  "win_file_name p =
     (let b = win_body p; seg = seg_back (comp_sep p) b in
      if b = [] \<or> seg = ''.'' \<or> seg = ''..'' then None else Some seg)"

definition win_parent :: "path \<Rightarrow> path option" where
  "win_parent p =
     (let b = win_body p in
      if b \<noteq> [] then
        Some (take (before_body p) p @ trim_back (verbatim p) (comp_sep p) (rest_back (comp_sep p) b))
      else if \<not> physical_root p \<and> parse_prefix p = None \<and> win_cur_dir p then Some []
      else None)"

section \<open>Joining\<close>

datatype win_component = WPrefix string bool | WRootDir | WCurDir | WParentDir | WNormal string

definition single_component :: "bool \<Rightarrow> string \<Rightarrow> win_component list" where
  "single_component verb seg =
     (if seg = [] then []
      else if seg = ''.'' then (if verb then [WCurDir] else [])
      else if seg = ''..'' then [WParentDir]
      else [WNormal seg])"

definition win_components :: "path \<Rightarrow> win_component list" where
  "win_components p =
     (case parse_prefix p of None \<Rightarrow> [] | Some x \<Rightarrow> [WPrefix (take (plen p) p) (is_drive x)]) @
     (if physical_root p then [WRootDir]
      else
        (case parse_prefix p of
           Some x \<Rightarrow> if \<not> is_drive x \<and> \<not> is_verbatim x then [WRootDir] else []
         | None \<Rightarrow> if win_cur_dir p then [WCurDir] else [])) @
     concat (map (single_component (verbatim p)) (split_on (comp_sep p) (drop (before_body p) p)))"

fun push_component :: "win_component \<Rightarrow> win_component list \<Rightarrow> win_component list" where
  "push_component WRootDir buf = take 1 buf @ [WRootDir]"
| "push_component WCurDir buf = buf"
| "push_component WParentDir buf = (case rev buf of WNormal _ # _ \<Rightarrow> butlast buf | _ \<Rightarrow> buf)"
| "push_component c buf = buf @ [c]"

fun component_str :: "win_component \<Rightarrow> string" where
  "component_str (WPrefix s _) = s"
| "component_str WRootDir = [BSL]"
| "component_str WCurDir = ''.''"
| "component_str WParentDir = ''..''"
| "component_str (WNormal s) = s"

fun spell_components :: "bool \<Rightarrow> win_component list \<Rightarrow> string" where
  "spell_components need_sep [] = []"
| "spell_components need_sep (c # cs) =
     (if need_sep \<and> c \<noteq> WRootDir then [BSL] else []) @ component_str c @
     spell_components
       (case c of WRootDir \<Rightarrow> False | WPrefix s drive \<Rightarrow> \<not> drive \<and> s \<noteq> [] | _ \<Rightarrow> True) cs"

definition win_fully_qualified :: "path \<Rightarrow> bool" where
  "win_fully_qualified p \<longleftrightarrow> win_has_root p \<and> parse_prefix p \<noteq> None"

definition win_join :: "path \<Rightarrow> path \<Rightarrow> path" where
  "win_join buf p =
     (let drive_only = (case parse_prefix buf of None \<Rightarrow> False | Some x \<Rightarrow> is_drive x \<and> plen buf = length buf);
          need_sep = buf \<noteq> [] \<and> \<not> win_sep (last buf) \<and> \<not> drive_only
      in if win_fully_qualified p \<or> parse_prefix p \<noteq> None then p
         else if verbatim buf \<and> p \<noteq> [] then
           spell_components False (fold push_component (win_components p) (win_components buf))
         else if win_has_root p then take (plen buf) buf @ p
         else if need_sep then buf @ [BSL] @ p
         else buf @ p)"

end
