(* ===== verification/Win_Namespace.thy ===== *)
theory Win_Namespace
  imports Win_Path Router "HOL-Library.Monad_Syntax"
begin

text \<open>
  The Windows flavour of \<^verbatim>\<open>crates/hookfs/src/namespace.rs\<close> and of the absolute-path test of
  \<^verbatim>\<open>router.rs\<close>: the reserved root on the system drive, the comparison key (case folded, separators
  unified, long-path prefixes stripped), the lexical safety check, the decoding of the strings the
  shims receive, and the wildcard matcher of the directory search.  The Unicode case table beyond
  ASCII is the parameter \<open>uni\<close>.
\<close>

section \<open>Keys\<close>

definition to_lowercase :: "(nat \<Rightarrow> nat list) \<Rightarrow> nat \<Rightarrow> nat list" where
  "to_lowercase uni c = (if 65 \<le> c \<and> c \<le> 90 then [c + 32] else if c < 128 then [c] else uni c)"

definition RESERVED_DRIVE :: string where
  "RESERVED_DRIVE = ''C:''"

definition win_reserved_root :: "string \<Rightarrow> path" where
  "win_reserved_root random_mount_id = RESERVED_DRIVE @ [BSL] @ RESERVED_ROOT @ [BSL] @ random_mount_id"

fun win_collapse :: "(nat \<Rightarrow> nat list) \<Rightarrow> bool \<Rightarrow> nat list \<Rightarrow> nat list" where
  "win_collapse uni prev_sep [] = []"
| "win_collapse uni prev_sep (ch # cs) =
     (let c = (if ch = 47 then 92 else ch) in
      if c = 92 then
        (if prev_sep then win_collapse uni prev_sep cs else 92 # win_collapse uni True cs)
      else to_lowercase uni c @ win_collapse uni False cs)"

definition LONG_UNC :: string where
  "LONG_UNC = [BSL, BSL, CHR ''?'', BSL] @ ''UNC'' @ [BSL]"

definition LONG_PATH :: string where
  "LONG_PATH = [BSL, BSL, CHR ''?'', BSL]"

function win_normalize_key_str :: "(nat \<Rightarrow> nat list) \<Rightarrow> path \<Rightarrow> string" where
  "win_normalize_key_str uni input =
     (case strip_prefix LONG_UNC input of
        Some rest \<Rightarrow> win_normalize_key_str uni ([BSL, BSL] @ rest)
      | None \<Rightarrow>
          (let s = (case strip_prefix LONG_PATH input of Some rest \<Rightarrow> rest | None \<Rightarrow> input);
               out = utf8_string (win_collapse uni False (chars s))
           in if 3 < length out \<and> last out = BSL then butlast out else out))"
  by pat_completeness auto
termination
  by (relation "measure (\<lambda>(_, s). length s)") (auto simp: LONG_UNC_def)

declare win_normalize_key_str.simps [simp del]

definition is_dot_component :: "string \<Rightarrow> bool" where
  "is_dot_component seg \<longleftrightarrow>
     seg \<noteq> [] \<and> list_all (\<lambda>b. b = CHR ''.'' \<or> b = CHR '' '') seg \<and> list_ex (\<lambda>b. b = CHR ''.'') seg"

definition trim_end :: "string \<Rightarrow> string" where
  "trim_end s = rev (dropWhile (\<lambda>c. c = CHR '' '' \<or> c = CHR ''.'') (rev s))"

definition win_safe_component :: "string \<Rightarrow> bool" where
  "win_safe_component raw \<longleftrightarrow>
     \<not> is_dot_component raw \<and>
     (let seg = trim_end raw in
      \<not> (CHR '':'' \<in> set seg \<and> \<not> (length seg = 2 \<and> ascii_alphabetic (hd seg))))"

definition win_is_lexically_safe :: "string \<Rightarrow> bool" where
  "win_is_lexically_safe decoded \<longleftrightarrow>
     NUL \<notin> set decoded \<and> list_all win_safe_component (split_on win_sep decoded)"

section \<open>Decoding\<close>

definition MAX_WIDE :: nat where
  "MAX_WIDE = 0x8000"

fun scan_wide :: "nat \<Rightarrow> wide \<Rightarrow> wide \<Rightarrow> wide option" where
  "scan_wide n [] out = None"
| "scan_wide n (u # mem) out =
     (if n = 0 then None else if u = 0 then Some out else scan_wide (n - 1) mem (out @ [u]))"

definition decode_wide :: "wide option \<Rightarrow> wide option" where
  "decode_wide ptr = (case ptr of None \<Rightarrow> None | Some mem \<Rightarrow> scan_wide MAX_WIDE mem [])"

definition decode_ansi :: "string option \<Rightarrow> string option" where
  "decode_ansi ptr = (case ptr of None \<Rightarrow> None | Some mem \<Rightarrow> scan_cstr MAX_WIDE mem [])"

section \<open>Wildcards\<close>

text \<open>The two loops of \<open>matches_from\<close>; \<open>None\<close> would be a loop that does not end.  \<open>nth_opt\<close> is \<open>slice::get\<close>.\<close>

definition nth_opt :: "'a list \<Rightarrow> nat \<Rightarrow> 'a option" where
  "nth_opt xs i = (if i < length xs then Some (xs ! i) else None)"

partial_function (option) skip_stars :: "nat list \<Rightarrow> nat \<Rightarrow> nat option" where
  "skip_stars pat pi = (if nth_opt pat pi = Some 42 then skip_stars pat (pi + 1) else Some pi)"

partial_function (option) match_loop ::
  "nat list \<Rightarrow> nat list \<Rightarrow> nat \<Rightarrow> nat \<Rightarrow> nat option \<Rightarrow> nat \<Rightarrow> bool option" where
  "match_loop pat txt pi ti star_pat star_txt =
     (if ti < length txt then
        (if nth_opt pat pi = Some 42 then match_loop pat txt (pi + 1) ti (Some pi) ti
         else if nth_opt pat pi = Some 63 \<or> nth_opt pat pi = nth_opt txt ti
         then match_loop pat txt (pi + 1) (ti + 1) star_pat star_txt
         else
           (case star_pat of
              Some sp \<Rightarrow> match_loop pat txt (sp + 1) (star_txt + 1) star_pat (star_txt + 1)
            | None \<Rightarrow> Some False))
      else skip_stars pat pi \<bind> (\<lambda>pi'. Some (pi' = length pat)))"

definition matches_from :: "nat list \<Rightarrow> nat list \<Rightarrow> bool option" where
  "matches_from pat txt = match_loop pat txt 0 0 None 0"

definition wildcard_match :: "(nat \<Rightarrow> nat list) \<Rightarrow> string \<Rightarrow> string \<Rightarrow> bool option" where
  "wildcard_match uni pattern name =
     matches_from (concat (map (to_lowercase uni) (chars pattern))) (concat (map (to_lowercase uni) (chars name)))"

section \<open>Membership and routing\<close>

definition win_normalize_key :: "(nat \<Rightarrow> nat list) \<Rightarrow> path \<Rightarrow> string" where
  "win_normalize_key uni path = win_normalize_key_str uni path"

definition win_key_has_prefix :: "string \<Rightarrow> string \<Rightarrow> bool" where
  "win_key_has_prefix key pre =
     (case strip_prefix pre key of Some rest \<Rightarrow> rest = [] \<or> hd rest = BSL | None \<Rightarrow> False)"

definition win_from_root :: "(nat \<Rightarrow> nat list) \<Rightarrow> path \<Rightarrow> namespace" where
  "win_from_root uni root =
     \<lparr>ns_root = root,
      ns_predicate = (\<lambda>path. win_key_has_prefix (win_normalize_key uni path) (win_normalize_key_str uni root))\<rparr>"

definition win_is_absolute :: "string \<Rightarrow> bool" where
  "win_is_absolute s \<longleftrightarrow>
     take 2 s = [BSL, BSL] \<or> take 2 s = ''//'' \<or>
     2 < length s \<and> ascii_alphabetic (s ! 0) \<and> s ! 1 = CHR '':'' \<and> (s ! 2 = BSL \<or> s ! 2 = CHR ''/'')"

definition win_classify :: "('v, 'f) engine_of \<Rightarrow> string \<Rightarrow> route" where
  "win_classify e decoded =
     (case (if win_is_absolute decoded then Some decoded
            else (case virtual_cwd e of
                    Some cwd \<Rightarrow> Some (win_join cwd decoded)
                  | None \<Rightarrow> None)) of
        None \<Rightarrow> Real
      | Some absolute \<Rightarrow>
          if \<not> is_virtual (eng_namespace e) absolute then Real
          else if win_is_lexically_safe absolute then Virtual absolute
          else Rejected)"

section \<open>The wildcard matcher\<close>

text \<open>What a pattern means: \<open>*\<close> stands for any text, \<open>?\<close> for one character.\<close>

fun glob :: "nat list \<Rightarrow> nat list \<Rightarrow> bool" where
  "glob [] txt \<longleftrightarrow> txt = []"
| "glob (c # pat) txt \<longleftrightarrow>
     (if c = 42 then glob pat txt \<or> (case txt of [] \<Rightarrow> False | _ # txt' \<Rightarrow> glob (c # pat) txt')
      else (case txt of [] \<Rightarrow> False | t # txt' \<Rightarrow> (c = 63 \<or> c = t) \<and> glob pat txt'))"

abbreviation char_match :: "nat \<Rightarrow> nat \<Rightarrow> bool" where
  "char_match c t \<equiv> c = 63 \<or> c = t"

lemma glob_star: "glob (42 # pat) s \<longleftrightarrow> (\<exists>u v. s = u @ v \<and> glob pat v)"
proof (induction s)
  case (Cons t ts)
  then show ?case by (auto simp: Cons_eq_append_conv)
qed simp

lemma glob_star_prepend: "glob (42 # pat) v \<Longrightarrow> glob (42 # pat) (u @ v)"
  unfolding glob_star by (metis append.assoc)

lemma glob_seg:
  "42 \<notin> set seg \<Longrightarrow> glob (seg @ r) s \<longleftrightarrow> (\<exists>u v. s = u @ v \<and> list_all2 char_match seg u \<and> glob r v)"
proof (induction seg arbitrary: s)
  case (Cons c seg)
  have "(\<exists>u v. s = u @ v \<and> list_all2 char_match (c # seg) u \<and> glob r v) \<longleftrightarrow>
      (\<exists>t ts. s = t # ts \<and> char_match c t \<and> (\<exists>u v. ts = u @ v \<and> list_all2 char_match seg u \<and> glob r v))"
    by (auto simp: list_all2_Cons1 Cons_eq_append_conv) (metis append_Cons)+
  with Cons show ?case by (cases s) auto
qed simp

lemma glob_Nil: "glob r [] \<longleftrightarrow> set r \<subseteq> {42}"
  by (induction r) auto

text \<open>A segment without stars matches text of its own length only.\<close>

lemma glob_seg_at:
  assumes "42 \<notin> set seg" "list_all2 char_match seg u"
  shows "glob (seg @ r) (u @ v) \<longleftrightarrow> glob r v"
proof -
  have "glob r v" if "u @ v = x @ y" "list_all2 char_match seg x" "glob r y" for x y
    using that assms(2) by (metis append_eq_append_conv list_all2_lengthD)
  then show ?thesis using assms by (auto simp: glob_seg)
qed

text \<open>Once the text up to a second star has matched, the first star need not be reconsidered.\<close>

lemma glob_star_commit:
  assumes "42 \<notin> set seg" "list_all2 char_match seg u"
  shows "glob (42 # seg @ 42 # r) (u @ v) \<longleftrightarrow> glob (42 # r) v"
proof
  assume "glob (42 # r) v"
  then have "glob (seg @ 42 # r) (u @ v)" using glob_seg_at [OF assms] by blast
  then show "glob (42 # seg @ 42 # r) (u @ v)" unfolding glob_star by (metis append_Nil)
next
  assume "glob (42 # seg @ 42 # r) (u @ v)"
  then obtain x y z where t: "u @ v = x @ y @ z" "list_all2 char_match seg y" "glob (42 # r) z"
    unfolding glob_star [of "seg @ 42 # r"] glob_seg [OF assms(1)] by auto
  have "length y = length u" using t(2) assms(2) by (metis list_all2_lengthD)
  moreover have "v = drop (length u) (x @ y @ z)" using t(1) by (metis append_eq_conv_conj)
  ultimately have "v = drop (length u) (x @ y) @ z" by simp
  with t(3) show "glob (42 # r) v" using glob_star_prepend by simp
qed

lemma nth_opt_append [simp]:
  "nth_opt (xs @ ys) (length xs + i) = nth_opt ys i" "nth_opt (xs @ ys) (length xs) = nth_opt ys 0"
  "nth_opt [] i = None" "nth_opt (y # ys) 0 = Some y" "nth_opt (y # ys) (Suc i) = nth_opt ys i"
  "nth_opt xs (length xs) = None"
  by (simp_all add: nth_opt_def nth_append)

lemma skip_stars_result: "skip_stars (xs @ r) (length xs) \<bind> (\<lambda>pi. Some (pi = length (xs @ r))) = Some (glob r [])"
proof (induction r arbitrary: xs)
  case Nil
  show ?case by (simp add: skip_stars.simps [of _ "length xs"])
next
  case (Cons c r)
  show ?case
  proof (cases "c = 42")
    case True
    then show ?thesis using Cons.IH [of "xs @ [c]"] by (simp add: skip_stars.simps [of _ "length xs"])
  next
    case False
    then show ?thesis by (simp add: skip_stars.simps [of _ "length xs"])
  qed
qed

text \<open>The loop after a star: \<open>A\<close> is the pattern before the last star, \<open>seg\<close> the pattern since, \<open>B\<close> the
  text given to that star and before, \<open>u\<close> the text that \<open>seg\<close> has matched.\<close>

lemma match_loop_star:
  assumes "42 \<notin> set seg" and "list_all2 char_match seg u"
    and "pat = A @ 42 # seg @ r" and "s = B @ u @ v"
  shows "match_loop pat s (length A + 1 + length seg) (length B + length u) (Some (length A)) (length B) =
    Some (glob (42 # seg @ r) (u @ v))"
  using assms
proof (induction "length (u @ v) * Suc (length pat) + length r" arbitrary: A seg r B u v rule: less_induct)
  case less
  note seg = less.prems(1,2) and pat = less.prems(3) and s = less.prems(4)
  have n: "nth_opt pat (length A + 1 + length seg) = nth_opt r 0" "nth_opt s (length B + length u) = nth_opt v 0"
    unfolding pat s using nth_opt_append(2) [of "A @ 42 # seg" r] nth_opt_append(2) [of "B @ u" v] by simp_all
  note unfold = match_loop.simps [of pat s "length A + 1 + length seg" "length B + length u" "Some (length A)" "length B"]
  show ?case
  proof (cases v)
    case Nil
    have "skip_stars pat (length A + 1 + length seg) \<bind> (\<lambda>pi. Some (pi = length pat)) = Some (glob r [])"
      using skip_stars_result [of "A @ 42 # seg" r] by (simp add: pat)
    moreover have "glob (42 # seg @ r) u \<longleftrightarrow> glob r []"
    proof -
      have "x = [] \<and> y = []" if "u = x @ z @ y" "list_all2 char_match seg z" for x y z
        using that seg(2) list_all2_lengthD [of char_match seg u] list_all2_lengthD [of char_match seg z] by auto
      then show ?thesis unfolding glob_star glob_seg [OF seg(1)] using seg(2) by (metis append_Nil append_Nil2)
    qed
    ultimately show ?thesis unfolding unfold using s Nil by simp
  next
    case (Cons t v')
    have lt: "length B + length u < length s" using s Cons by simp
    consider (star) r' where "r = 42 # r'" | (char) c r' where "r = c # r'" "c \<noteq> 42" "char_match c t"
      | (fail) "r = [] \<or> (\<exists>c r'. r = c # r' \<and> c \<noteq> 42 \<and> \<not> char_match c t)" by (cases r) auto
    then show ?thesis
    proof cases
      case star
      have "match_loop pat s (length (A @ 42 # seg) + 1 + length ([] :: nat list)) (length (B @ u) + length ([] :: nat list)) (Some (length (A @ 42 # seg)))
          (length (B @ u)) = Some (glob (42 # [] @ r') ([] @ v))"
        by (rule less.hyps) (use star pat s in \<open>simp_all add: add_mult_distrib\<close>)
      then show ?thesis unfolding unfold using lt n star glob_star_commit [OF seg] by simp
    next
      case char
      have "match_loop pat s (length A + 1 + length (seg @ [c])) (length B + length (u @ [t])) (Some (length A)) (length B) =
          Some (glob (42 # (seg @ [c]) @ r') ((u @ [t]) @ v'))"
        by (rule less.hyps) (use char pat s Cons seg in \<open>simp_all add: list_all2_appendI\<close>)
      then show ?thesis unfolding unfold using lt n char Cons by simp
    next
      case fail
      obtain x w where xw: "u @ v = x # w" using Cons by (cases u) auto
      have "match_loop pat s (length A + 1 + length ([] :: nat list)) (length (B @ [x]) + length ([] :: nat list)) (Some (length A)) (length (B @ [x])) =
          Some (glob (42 # [] @ seg @ r) ([] @ w))"
        by (rule less.hyps) (use pat s xw in simp_all)
      moreover have "\<not> glob (seg @ r) (u @ v)" using fail Cons glob_seg_at [OF seg] by auto
      then have "glob (42 # seg @ r) (u @ v) = glob (42 # seg @ r) w" unfolding xw by simp
      moreover have "nth_opt r 0 \<noteq> Some 42" "nth_opt r 0 \<noteq> Some 63" "nth_opt r 0 \<noteq> nth_opt v 0"
        using fail Cons by auto
      ultimately show ?thesis unfolding unfold using lt n by simp
    qed
  qed
qed

lemma match_loop_start:
  assumes "42 \<notin> set seg" and "list_all2 char_match seg u"
  shows "match_loop (seg @ r) (u @ v) (length seg) (length u) None st = Some (glob (seg @ r) (u @ v))"
  using assms
proof (induction v arbitrary: seg u r)
  case Nil
  have "nth_opt (seg @ r) (length seg) = nth_opt r 0" by simp
  then show ?case
    using skip_stars_result [of seg r] glob_seg_at [OF Nil, of r "[]"] by (simp add: match_loop.simps [of _ _ "length seg"])
next
  case (Cons t v)
  note step = match_loop.simps [of "seg @ r" "u @ t # v" "length seg" "length u" None st]
  show ?case
  proof (cases r)
    case Nil
    then show ?thesis unfolding step using glob_seg_at [OF Cons.prems, of "[]" "t # v"] by simp
  next
    case r: (Cons c r')
    consider "c = 42" | "c \<noteq> 42" "char_match c t" | "c \<noteq> 42" "\<not> char_match c t" by blast
    then show ?thesis
    proof cases
      case 1
      then show ?thesis
        unfolding step using match_loop_star [of "[]" "[]" "seg @ r" seg r' "u @ t # v" u "t # v"]
          glob_seg_at [OF Cons.prems, of r "t # v"] r by simp
    next
      case 2
      then have "match_loop ((seg @ [c]) @ r') ((u @ [t]) @ v) (length (seg @ [c])) (length (u @ [t])) None st =
          Some (glob ((seg @ [c]) @ r') ((u @ [t]) @ v))"
        using Cons.prems by (intro Cons.IH) (simp_all add: list_all2_appendI)
      then show ?thesis unfolding step using 2 r by simp
    next
      case 3
      then show ?thesis unfolding step using glob_seg_at [OF Cons.prems, of r "t # v"] r by simp
    qed
  qed
qed

text \<open>C35. The wildcard matcher of the directory search terminates on every pattern and name and answers
  exactly whether the name matches, where \<open>*\<close> stands for any text and \<open>?\<close> for one character: the
  single remembered star of the loop loses no match.\<close>

theorem wildcard_terminates_and_is_exact:
  "wildcard_match uni pattern name =
     Some (glob (concat (map (to_lowercase uni) (chars pattern))) (concat (map (to_lowercase uni) (chars name))))"
  using match_loop_start [of "[]" "[]"] by (simp add: wildcard_match_def matches_from_def)

end
