(* ===== verification/Win_Keys.thy ===== *)
theory Win_Keys
  imports Win_Namespace
begin

text \<open>
  What a Windows comparison key says about a path: the key spells the case-folded components of the
  path, so membership in a namespace is membership in a subtree, whatever the case, the separators
  and the long-path prefix are.
\<close>

section \<open>The component view\<close>

definition sepn :: "nat \<Rightarrow> bool" where
  "sepn c \<longleftrightarrow> c = 92 \<or> c = 47"

definition wsegs :: "nat list \<Rightarrow> nat list list" where
  "wsegs cs = filter (\<lambda>x. x \<noteq> []) (split_on sepn cs)"

definition low :: "(nat \<Rightarrow> nat list) \<Rightarrow> nat list \<Rightarrow> nat list" where
  "low uni cs = concat (map (to_lowercase uni) cs)"

lemma low_simps [simp]: "low uni [] = []" "low uni (c # cs) = to_lowercase uni c @ low uni cs"
  by (simp_all add: low_def)

fun wjoin :: "nat list list \<Rightarrow> nat list" where
  "wjoin [] = []"
| "wjoin [x] = x"
| "wjoin (x # y # ys) = x @ 92 # wjoin (y # ys)"

function long_stripped :: "path \<Rightarrow> path" where
  "long_stripped input =
     (case strip_prefix LONG_UNC input of
        Some rest \<Rightarrow> long_stripped ([BSL, BSL] @ rest)
      | None \<Rightarrow> (case strip_prefix LONG_PATH input of Some rest \<Rightarrow> rest | None \<Rightarrow> input))"
  by pat_completeness auto
termination
  by (relation "measure length") (auto simp: LONG_UNC_def)

declare long_stripped.simps [simp del]

definition win_rooted :: "path \<Rightarrow> bool" where
  "win_rooted p = (case chars (long_stripped p) of [] \<Rightarrow> False | c # _ \<Rightarrow> sepn c)"

definition win_comps :: "(nat \<Rightarrow> nat list) \<Rightarrow> path \<Rightarrow> nat list list" where
  "win_comps uni p = map (low uni) (wsegs (chars (long_stripped p)))"

definition win_base :: "(nat \<Rightarrow> nat list) \<Rightarrow> path \<Rightarrow> nat list" where
  "win_base uni p = (if win_rooted p then [92] else []) @ wjoin (win_comps uni p)"

text \<open>The case table beyond ASCII maps characters to characters, none of them a separator.\<close>

definition lower_ok :: "(nat \<Rightarrow> nat list) \<Rightarrow> bool" where
  "lower_ok uni \<longleftrightarrow> (\<forall>c. uni c \<noteq> [] \<and> list_all (\<lambda>d. scalar d \<and> \<not> sepn d) (uni c))"

definition segs_ok :: "nat list list \<Rightarrow> bool" where
  "segs_ok xs \<longleftrightarrow> (\<forall>x \<in> set xs. x \<noteq> [] \<and> list_all (\<lambda>d. scalar d \<and> \<not> sepn d) x)"

lemma segs_ok_simps [simp]:
  "segs_ok []" "segs_ok (x # xs) \<longleftrightarrow> x \<noteq> [] \<and> list_all (\<lambda>d. scalar d \<and> \<not> sepn d) x \<and> segs_ok xs"
  by (auto simp: segs_ok_def)

lemma wsegs_sep: "sepn c \<Longrightarrow> wsegs (x @ c # y) = wsegs x @ wsegs y"
  by (simp add: wsegs_def split_on_sep del: split_on.simps)

lemma wsegs_free: "list_all (\<lambda>d. scalar d \<and> \<not> sepn d) x \<Longrightarrow> x \<noteq> [] \<Longrightarrow> wsegs x = [x]"
  by (simp add: wsegs_def split_on_no_sep list_all_iff)

lemma sepn_92 [simp]: "sepn 92" "sepn 47"
  by (simp_all add: sepn_def)

lemma wsegs_wjoin: "segs_ok xs \<Longrightarrow> wsegs (wjoin xs) = xs"
  by (induction xs rule: wjoin.induct) (simp_all add: wsegs_sep wsegs_free, simp add: wsegs_def)

lemma wsegs_segments: "x \<in> set (wsegs cs) \<Longrightarrow> x \<noteq> [] \<and> list_all (\<lambda>c. \<not> sepn c) x"
  by (auto simp: wsegs_def list_all_iff dest: split_on_segments)

lemma segs_ok_win_comps: "lower_ok uni \<Longrightarrow> segs_ok (win_comps uni p)"
proof -
  assume u: "lower_ok uni"
  have c: "to_lowercase uni c \<noteq> [] \<and> list_all (\<lambda>d. scalar d \<and> \<not> sepn d) (to_lowercase uni c)" if "\<not> sepn c" for c
    using that u by (auto simp: to_lowercase_def lower_ok_def scalar_def sepn_def)
  have e: "list_all (\<lambda>d. scalar d \<and> \<not> sepn d) (low uni x)" if "list_all (\<lambda>c. \<not> sepn c) x" for x
    using that by (induction x) (simp_all add: c)
  have "low uni x \<noteq> []" if "x \<noteq> []" "list_all (\<lambda>c. \<not> sepn c) x" for x
    using that c by (cases x) simp_all
  with e show ?thesis using wsegs_segments unfolding segs_ok_def win_comps_def by auto
qed

lemma win_collapse_step:
  "win_collapse uni b (c # cs) =
     (if sepn c then (if b then [] else [92]) @ win_collapse uni True cs
      else to_lowercase uni c @ win_collapse uni False cs)"
  by (auto simp: Let_def sepn_def)

declare win_collapse.simps(2) [simp del]

section \<open>Keys spell components\<close>

fun spell :: "nat list list \<Rightarrow> nat list" where
  "spell [] = []"
| "spell (w # ws) = w @ (if ws = [] then [] else (if w = [] then [] else [92]) @ spell ws)"

lemma win_collapse_spell:
  assumes "lower_ok uni"
  shows "win_collapse uni b cs =
    (let ws = map (low uni) (split_on sepn cs) in
     hd ws @ (if tl ws = [] then [] else (if b \<and> hd ws = [] then [] else [92]) @ spell (tl ws)))"
proof (induction cs arbitrary: b)
  case (Cons c cs)
  obtain w ws where w: "split_on sepn cs = w # ws" by (meson neq_Nil_conv split_on_not_Nil)
  have "to_lowercase uni c \<noteq> []" using assms by (simp add: to_lowercase_def lower_ok_def)
  with Cons w show ?case by (auto simp: Let_def win_collapse_step)
qed simp

lemma spell_wjoin:
  "ws \<noteq> [] \<Longrightarrow> spell ws =
     wjoin (filter (\<lambda>x. x \<noteq> []) ws) @ (if filter (\<lambda>x. x \<noteq> []) ws \<noteq> [] \<and> last ws = [] then [92] else [])"
proof (induction ws)
  case (Cons w ws)
  then show ?case
    by (cases "filter (\<lambda>x. x \<noteq> []) ws") (auto simp: filter_empty_conv)
qed simp

lemma win_collapse_base:
  assumes "lower_ok uni"
  shows "\<exists>t. win_collapse uni False (chars (long_stripped p)) = win_base uni p @ (if t then [92] else []) \<and>
    (t \<longrightarrow> win_comps uni p \<noteq> [])"
proof -
  let ?cs = "chars (long_stripped p)"
  let ?ws = "map (low uni) (split_on sepn ?cs)"
  obtain w ws where w: "split_on sepn ?cs = w # ws" by (meson neq_Nil_conv split_on_not_Nil)
  have lowe: "low uni x = [] \<longleftrightarrow> x = []" for x
    using assms by (cases x) (auto simp: to_lowercase_def lower_ok_def)
  have comps: "win_comps uni p = filter (\<lambda>x. x \<noteq> []) ?ws"
    by (simp add: win_comps_def wsegs_def filter_map comp_def lowe)
  show ?thesis
  proof (cases "?cs = []")
    case True
    then show ?thesis by (auto simp: win_base_def win_rooted_def comps intro!: exI [of _ False])
  next
    case False
    then obtain c cs where cs: "?cs = c # cs" by (cases ?cs) auto
    have r: "win_rooted p \<longleftrightarrow> w = []" using w cs by (auto simp: win_rooted_def split: if_splits)
    show ?thesis
    proof (cases "w = []")
      case True
      then have ws: "ws = split_on sepn cs" "ws \<noteq> []" using w cs by (auto split: if_splits)
      let ?t = "filter (\<lambda>x. x \<noteq> []) ?ws \<noteq> [] \<and> last (map (low uni) ws) = []"
      have "win_collapse uni False ?cs = 92 # spell (map (low uni) ws)"
        using win_collapse_spell [OF assms, of False ?cs] w True ws(2) by (simp add: Let_def)
      then have "win_collapse uni False ?cs = win_base uni p @ (if ?t then [92] else [])"
        using spell_wjoin [of "map (low uni) ws"] ws(2) True w r by (simp add: win_base_def comps)
      then show ?thesis by (intro exI [of _ ?t]) (simp add: comps)
    next
      case False
      let ?t = "ws \<noteq> [] \<and> last (map (low uni) ws) = []"
      have "win_collapse uni False ?cs = spell ?ws"
        using win_collapse_spell [OF assms, of False ?cs] w False lowe by (simp add: Let_def)
      also have "\<dots> = win_base uni p @ (if ?t then [92] else [])"
        using spell_wjoin [of ?ws] w False r lowe by (simp add: win_base_def comps)
      finally show ?thesis using comps w False lowe by auto
    qed
  qed
qed

lemma normalize_stripped:
  "win_normalize_key_str uni p =
     (let out = utf8_string (win_collapse uni False (chars (long_stripped p))) in
      if 3 < length out \<and> last out = BSL then butlast out else out)"
proof (induction p rule: long_stripped.induct)
  case (1 p)
  show ?case
  proof (cases "strip_prefix LONG_UNC p")
    case None
    then show ?thesis unfolding win_normalize_key_str.simps [of uni p] long_stripped.simps [of p] by simp
  next
    case (Some rest)
    then show ?thesis unfolding win_normalize_key_str.simps [of uni p] long_stripped.simps [of p]
      using 1 [OF Some] by simp
  qed
qed

lemma utf8_BSL: "utf8_char 92 = [BSL]"
  by code_simp

lemma of_char_BSL: "of_char BSL = (92 :: nat)"
  by code_simp

lemma last_utf8_char: "scalar c \<Longrightarrow> last (utf8_char c) = BSL \<longleftrightarrow> c = 92"
proof -
  assume c: "scalar c"
  have l: "of_char (last (utf8_char c)) = (if c < 0x80 then c else 0x80 + c mod 64 :: nat)"
    by (simp add: utf8_char_def of_char_of)
  show ?thesis
  proof
    assume "last (utf8_char c) = BSL"
    then have "(if c < 0x80 then c else 0x80 + c mod 64) = 92" using l of_char_BSL by simp
    then show "c = 92" by (simp split: if_splits)
  next
    assume "c = 92"
    then show "last (utf8_char c) = BSL" by (simp add: utf8_BSL)
  qed
qed

lemma last_wjoin: "segs_ok xs \<Longrightarrow> xs \<noteq> [] \<Longrightarrow> wjoin xs \<noteq> [] \<and> scalar (last (wjoin xs)) \<and> \<not> sepn (last (wjoin xs))"
  by (induction xs rule: wjoin.induct) (auto simp: list_all_iff)

lemma last_win_base:
  assumes "lower_ok uni" "3 < length (utf8_string (win_base uni p))"
  shows "last (utf8_string (win_base uni p)) \<noteq> BSL"
proof -
  have "win_comps uni p \<noteq> []" using assms(2) by (auto simp: win_base_def utf8_BSL split: if_splits)
  with last_wjoin [OF segs_ok_win_comps [OF assms(1)]] obtain xs c where
    "win_base uni p = xs @ [c]" "scalar c" "c \<noteq> 92"
    unfolding win_base_def by (metis append.assoc append_butlast_last_id sepn_92(1))
  moreover have "utf8_char c \<noteq> []" by (simp add: utf8_char_def)
  ultimately show ?thesis using last_utf8_char by simp
qed

lemma win_key:
  assumes "lower_ok uni"
  shows "win_normalize_key_str uni p = utf8_string (win_base uni p) \<or>
    length (win_normalize_key_str uni p) \<le> 3 \<and> (\<exists>x. win_normalize_key_str uni p = utf8_string (win_base uni p) @ x)"
proof -
  obtain t where t: "win_collapse uni False (chars (long_stripped p)) = win_base uni p @ (if t then [92] else [])"
    "t \<longrightarrow> win_comps uni p \<noteq> []" using win_collapse_base [OF assms] by blast
  show ?thesis
  proof (cases t)
    case True
    then show ?thesis by (auto simp: normalize_stripped t Let_def utf8_BSL)
  next
    case False
    with last_win_base [OF assms] show ?thesis by (auto simp: normalize_stripped t Let_def)
  qed
qed

section \<open>Membership\<close>

lemma win_base_facts:
  assumes "lower_ok uni"
  shows "list_all scalar (win_base uni p)" "wsegs (win_base uni p) = win_comps uni p"
    "win_base uni p \<noteq> [] \<Longrightarrow> hd (win_base uni p) = 92 \<longleftrightarrow> win_rooted p"
proof -
  note ok = segs_ok_win_comps [OF assms, of p]
  have "list_all scalar (wjoin xs)" if "segs_ok xs" for xs
    using that by (induction xs rule: wjoin.induct) (auto simp: list_all_iff scalar_def)
  then show "list_all scalar (win_base uni p)" using ok by (simp add: win_base_def scalar_def)
  show "wsegs (win_base uni p) = win_comps uni p"
    using wsegs_wjoin [OF ok] wsegs_sep [of 92 "[]" "wjoin (win_comps uni p)"]
    by (simp add: win_base_def wsegs_def)
  have "hd (wjoin xs) \<noteq> 92" if "segs_ok xs" "wjoin xs \<noteq> []" for xs
    using that by (cases xs rule: wjoin.cases) (auto simp: list_all_iff sepn_def dest!: bspec [of _ _ "hd _"])
  then show "win_base uni p \<noteq> [] \<Longrightarrow> hd (win_base uni p) = 92 \<longleftrightarrow> win_rooted p"
    using ok by (auto simp: win_base_def)
qed

lemma wjoin_append: "xs \<noteq> [] \<Longrightarrow> ys \<noteq> [] \<Longrightarrow> wjoin (xs @ ys) = wjoin xs @ 92 # wjoin ys"
  by (induction xs rule: wjoin.induct) (auto simp: neq_Nil_conv)

lemma win_key_has_prefix_iff: "win_key_has_prefix k p \<longleftrightarrow> k = p \<or> (\<exists>r. k = p @ BSL # r)"
proof (cases "strip_prefix p k")
  case None
  then have "\<not> prefix p k" by (simp add: strip_prefix_None_iff)
  then show ?thesis using None by (auto simp: win_key_has_prefix_def)
next
  case (Some r)
  then show ?thesis by (cases r) (auto simp: win_key_has_prefix_def)
qed

lemma chars_BSL: "chars (BSL # s) = 92 # chars s"
  by (simp add: of_char_BSL)

lemma win_membership:
  assumes "lower_ok uni" and "3 < length (win_normalize_key_str uni root)"
  shows "is_virtual (win_from_root uni root) p \<longleftrightarrow>
    win_rooted p = win_rooted root \<and> prefix (win_comps uni root) (win_comps uni p)"
proof -
  let ?k = "win_normalize_key_str uni"
  note B = win_base_facts [OF assms(1)]
  have kr: "?k root = utf8_string (win_base uni root)" using win_key [OF assms(1), of root] assms(2) by auto
  have cs: "chars (utf8_string (win_base uni q)) = win_base uni q" for q using B(1) chars_utf8_string by blast
  have rne: "win_base uni root \<noteq> []" using assms(2) kr by auto
  have cne: "win_comps uni root \<noteq> []" using assms(2) unfolding kr by (auto simp: win_base_def utf8_BSL split: if_splits)
  have mem: "is_virtual (win_from_root uni root) p \<longleftrightarrow> ?k p = ?k root \<or> (\<exists>r. ?k p = ?k root @ BSL # r)"
    by (simp add: is_virtual_def win_from_root_def win_normalize_key_def win_key_has_prefix_iff)
  show ?thesis
  proof
    assume v: "is_virtual (win_from_root uni root) p"
    then have "3 < length (?k p)" using assms(2) mem by auto
    then have kp: "?k p = utf8_string (win_base uni p)" using win_key [OF assms(1), of p] by auto
    then have "utf8_string (win_base uni p) = utf8_string (win_base uni root) \<or>
        (\<exists>r. utf8_string (win_base uni p) = utf8_string (win_base uni root) @ BSL # r)" using v mem kr by simp
    then have "win_base uni p = win_base uni root \<or> (\<exists>r. win_base uni p = win_base uni root @ 92 # r)"
      using cs chars_utf8_string_append [OF B(1), of root] chars_BSL by metis
    then obtain r where r: "win_base uni p = win_base uni root @ r" "r = [] \<or> (\<exists>r'. r = 92 # r')" by auto
    have "win_rooted p = win_rooted root" using B(3) [of p] B(3) [of root] rne r(1) by simp
    moreover have "prefix (win_comps uni root) (win_comps uni p)"
      using r B(2) [of p] B(2) [of root] wsegs_sep [of 92 "win_base uni root"] by (metis append_Nil2 prefixI sepn_92(1) prefix_order.refl)
    ultimately show "win_rooted p = win_rooted root \<and> prefix (win_comps uni root) (win_comps uni p)" by simp
  next
    assume h: "win_rooted p = win_rooted root \<and> prefix (win_comps uni root) (win_comps uni p)"
    then obtain es where es: "win_comps uni p = win_comps uni root @ es" by (auto simp: prefix_def)
    have b: "win_base uni p = win_base uni root @ (if es = [] then [] else 92 # wjoin es)"
      using h es cne wjoin_append [OF cne, of es] by (simp add: win_base_def)
    then have "3 < length (utf8_string (win_base uni p))" using assms(2) kr by simp
    then have "?k p = utf8_string (win_base uni p)" using win_key [OF assms(1), of p] by auto
    then show "is_virtual (win_from_root uni root) p"
      unfolding mem kr b by (auto simp: utf8_BSL)
  qed
qed

section \<open>Safety\<close>

text \<open>A component that Windows would read as the current or the parent directory consists of dots and
  blanks.\<close>

lemma navigation_is_dot_component: "trim_end c = [] \<Longrightarrow> CHR ''.'' \<in> set c \<Longrightarrow> is_dot_component c"
proof -
  assume h: "trim_end c = []" "CHR ''.'' \<in> set c"
  from h(1) have "list_all (\<lambda>b. b = CHR ''.'' \<or> b = CHR '' '') c"
    unfolding trim_end_def rev_is_Nil_conv dropWhile_eq_Nil_conv set_rev list_all_iff by blast
  moreover have "c \<noteq> []" using h(2) by auto
  ultimately show ?thesis unfolding is_dot_component_def list_ex_iff using h(2) by blast
qed

lemma safe_components:
  assumes "win_is_lexically_safe p" "c \<in> set (split_on win_sep p)"
  shows "c \<noteq> ''.''" "c \<noteq> ''..''" "\<not> (trim_end c = [] \<and> CHR ''.'' \<in> set c)" "NUL \<notin> set c"
proof -
  have s: "\<not> is_dot_component c" using assms by (auto simp: win_is_lexically_safe_def list_all_iff win_safe_component_def)
  then show "\<not> (trim_end c = [] \<and> CHR ''.'' \<in> set c)" using navigation_is_dot_component by blast
  show "c \<noteq> ''.''" "c \<noteq> ''..''" using s by (auto simp: is_dot_component_def)
  have "set c \<subseteq> set p"
    using assms(2)
  proof (induction p arbitrary: c)
    case (Cons x p)
    obtain w ws where "split_on win_sep p = w # ws" by (meson neq_Nil_conv split_on_not_Nil)
    with Cons.prems consider "c = []" | "c = x # w" | "c \<in> set (split_on win_sep p)" by (auto split: if_splits)
    then show ?case using Cons.IH [of w] Cons.IH [of c] \<open>split_on win_sep p = w # ws\<close> by cases auto
  qed simp
  then show "NUL \<notin> set c" using assms(1) by (auto simp: win_is_lexically_safe_def)
qed

section \<open>Properties\<close>


definition ascii_table :: "nat \<Rightarrow> nat list" where
  "ascii_table c = (if scalar c \<and> \<not> sepn c then [c] else [0xFFFD])"

lemma lower_ok_ascii_table: "lower_ok ascii_table"
  by (auto simp: lower_ok_def ascii_table_def scalar_def sepn_def)

definition win_demo_engine :: "(unit, unit) engine_of" where
  "win_demo_engine = engine_new () (win_from_root ascii_table (''C:'' @ [BSL] @ ''v'')) False"


text \<open>The check lets a component of two characters with a colon pass anywhere, not only as the drive.\<close>

lemma colon_component_is_accepted: "win_is_lexically_safe (''C:'' @ [BSL] @ ''v'' @ [BSL] @ ''d:'')"
  by code_simp

end
