(* ===== verification/Win_Base.thy ===== *)
theory Win_Base
  imports Dispatch Win_Keys Elf_Encoding
begin

unbundle bit_operations_syntax

text \<open>
  The common core of the Windows shims, \<^verbatim>\<open>crates/hookfs/src/shims/windows.rs\<close>: the state a shim runs in,
  the two routing patterns (by path, by handle), the error mapping, the carrier handles and the
  attributes a virtual file reports.

  The state of the calling thread holds the dispatch record with the active engine, the reentrancy
  marker and the machine below: memory, the last error and the rest of the operating system.  Numbers
  and pointers are passed and returned as integers, 0 being the null pointer; a wide or byte string
  is passed by what it addresses (\<open>None\<close> when null); integers that a call returns through a pointer are
  stored in memory in little-endian order, structures are kept by address.  The originals in
  \<^verbatim>\<open>KERNEL32.dll\<close> are a parameter, the record \<open>winapi\<close>.
\<close>

section \<open>The machine\<close>

record find_data =
  fd_attributes :: nat
  fd_size_high :: nat
  fd_size_low :: nat
  fd_name :: wide

record handle_info =
  hi_attributes :: nat
  hi_volume_serial :: nat
  hi_size_high :: nat
  hi_size_low :: nat
  hi_links :: nat
  hi_index_high :: nat
  hi_index_low :: nat

record basic_info =
  bi_creation_time :: int
  bi_last_access_time :: int
  bi_last_write_time :: int
  bi_change_time :: int
  bi_attributes :: nat

record standard_info =
  si_allocation_size :: int
  si_end_of_file :: int
  si_links :: nat
  si_delete_pending :: nat
  si_directory :: nat

record attribute_data =
  ad_attributes :: nat
  ad_size_high :: nat
  ad_size_low :: nat

datatype wstruct =
    WFindData find_data | WHandleInfo handle_info | WBasicInfo basic_info | WStandardInfo standard_info
  | WAttributeData attribute_data

record 'w wmachine =
  wm_mem :: "nat \<Rightarrow> byte"
  wm_structs :: "nat \<Rightarrow> wstruct option"
  wm_error :: int
  wm_world :: 'w

datatype warg = WInt int | WPtr nat | WWide "wide option" | WAnsi "string option"

text \<open>\<open>wa_windows_dir\<close> is \<open>GetWindowsDirectoryW\<close> on a buffer of 260 units: the length it answers and the units
  it stores.  \<open>wa_hash\<close> is the fixed-key hasher of the library.\<close>

record 'w winapi =
  wa_orig :: "windows_sym \<Rightarrow> warg list \<Rightarrow> 'w wmachine \<Rightarrow> int \<times> 'w wmachine"
  wa_windows_dir :: "'w wmachine \<Rightarrow> nat \<times> wide"
  wa_hash :: "string \<Rightarrow> nat"

section \<open>The thread\<close>

type_synonym ('v, 'h) win_engine = "('v, 'h win_file) engine_of"

record ('v, 'h, 'c, 'w) wthread =
  wt_disp :: "(('v, 'h) win_engine, 'c) dispatch"
  wt_in_hook :: bool
  wt_mach :: "'w wmachine"

type_synonym ('v, 'h, 'c, 'w) wact = "('v, 'h, 'c, 'w) wthread \<Rightarrow> int \<times> ('v, 'h, 'c, 'w) wthread"

definition set_err :: "int \<Rightarrow> ('v, 'h, 'c, 'w) wthread \<Rightarrow> ('v, 'h, 'c, 'w) wthread" where
  "set_err code t = t\<lparr>wt_mach := (wt_mach t)\<lparr>wm_error := code\<rparr>\<rparr>"

definition finish :: "int \<Rightarrow> int \<Rightarrow> ('v, 'h, 'c, 'w) wact" where
  "finish code ret t = (ret, set_err code t)"

definition win_orig :: "'w winapi \<Rightarrow> windows_sym \<Rightarrow> warg list \<Rightarrow> ('v, 'h, 'c, 'w) wact" where
  "win_orig wa s args t = (case wa_orig wa s args (wt_mach t) of (r, m) \<Rightarrow> (r, t\<lparr>wt_mach := m\<rparr>))"

definition win_put_engine :: "('v, 'h) win_engine \<Rightarrow> ('v, 'h, 'c, 'w) wthread \<Rightarrow> ('v, 'h, 'c, 'w) wthread" where
  "win_put_engine e t =
     t\<lparr>wt_disp := (wt_disp t)\<lparr>d_active := map_option (\<lambda>(_, i). (e, i)) (d_active (wt_disp t))\<rparr>\<rparr>"

definition win_put_vfs :: "('v, 'h) win_engine \<Rightarrow> 'v \<Rightarrow> ('v, 'h, 'c, 'w) wthread \<Rightarrow> ('v, 'h, 'c, 'w) wthread" where
  "win_put_vfs e v = win_put_engine (e\<lparr>eng_vfs := v\<rparr>)"

section \<open>Memory\<close>

definition win_store :: "nat \<Rightarrow> byte list \<Rightarrow> ('v, 'h, 'c, 'w) wthread \<Rightarrow> ('v, 'h, 'c, 'w) wthread" where
  "win_store buf bs t =
     t\<lparr>wt_mach := (wt_mach t)\<lparr>wm_mem :=
       (\<lambda>a. if buf \<le> a \<and> a < buf + length bs then bs ! (a - buf) else wm_mem (wt_mach t) a)\<rparr>\<rparr>"

definition win_load :: "nat \<Rightarrow> nat \<Rightarrow> ('v, 'h, 'c, 'w) wthread \<Rightarrow> byte list" where
  "win_load buf n t = map (wm_mem (wt_mach t)) [buf ..< buf + n]"

text \<open>Storing through a pointer that may be null.\<close>

definition store_opt :: "nat \<Rightarrow> byte list \<Rightarrow> ('v, 'h, 'c, 'w) wthread \<Rightarrow> ('v, 'h, 'c, 'w) wthread" where
  "store_opt p bs t = (if p = 0 then t else win_store p bs t)"

definition win_struct :: "nat \<Rightarrow> wstruct \<Rightarrow> ('v, 'h, 'c, 'w) wthread \<Rightarrow> ('v, 'h, 'c, 'w) wthread" where
  "win_struct p c t =
     (if p = 0 then t else t\<lparr>wt_mach := (wt_mach t)\<lparr>wm_structs := (wm_structs (wt_mach t))(p \<mapsto> c)\<rparr>\<rparr>)"

definition wide_bytes :: "wide \<Rightarrow> byte list" where
  "wide_bytes us = concat (map le_bytes us)"

definition clamp_i64_bytes :: "nat \<Rightarrow> byte list" where
  "clamp_i64_bytes n = to_le 8 (min n (2 ^ 63 - 1))"

section \<open>Error codes and constants\<close>

abbreviation ERROR_SUCCESS :: int where "ERROR_SUCCESS \<equiv> 0"
abbreviation ERROR_FILE_NOT_FOUND :: int where "ERROR_FILE_NOT_FOUND \<equiv> 2"
abbreviation ERROR_ACCESS_DENIED :: int where "ERROR_ACCESS_DENIED \<equiv> 5"
abbreviation ERROR_NO_MORE_FILES :: int where "ERROR_NO_MORE_FILES \<equiv> 18"
abbreviation ERROR_NOT_SUPPORTED :: int where "ERROR_NOT_SUPPORTED \<equiv> 50"
abbreviation ERROR_FILE_EXISTS :: int where "ERROR_FILE_EXISTS \<equiv> 80"
abbreviation ERROR_INVALID_PARAMETER :: int where "ERROR_INVALID_PARAMETER \<equiv> 87"
abbreviation ERROR_INVALID_NAME :: int where "ERROR_INVALID_NAME \<equiv> 123"
abbreviation ERROR_DIR_NOT_EMPTY :: int where "ERROR_DIR_NOT_EMPTY \<equiv> 145"
abbreviation ERROR_DIRECTORY :: int where "ERROR_DIRECTORY \<equiv> 267"
abbreviation ERROR_INTERNAL_ERROR :: int where "ERROR_INTERNAL_ERROR \<equiv> 1359"

definition INVALID_HANDLE_VALUE :: int where "INVALID_HANDLE_VALUE = 0xFFFFFFFFFFFFFFFF"
definition INVALID_FILE_ATTRIBUTES :: int where "INVALID_FILE_ATTRIBUTES = 0xFFFFFFFF"
definition INVALID_SET_FILE_POINTER :: int where "INVALID_SET_FILE_POINTER = 0xFFFFFFFF"
definition FILE_ATTRIBUTE_READONLY :: nat where "FILE_ATTRIBUTE_READONLY = 1"
definition FILE_ATTRIBUTE_DIRECTORY :: nat where "FILE_ATTRIBUTE_DIRECTORY = 0x10"
definition FILE_ATTRIBUTE_NORMAL :: nat where "FILE_ATTRIBUTE_NORMAL = 0x80"
definition FILE_TYPE_DISK :: int where "FILE_TYPE_DISK = 1"
definition DRIVE_FIXED :: int where "DRIVE_FIXED = 3"
definition PANIC_ERROR :: int where "PANIC_ERROR = ERROR_INTERNAL_ERROR"

definition io_to_win :: "io_error \<Rightarrow> int" where
  "io_to_win err =
     (case raw_os_error err of
        Some c \<Rightarrow> if 0 < c then c else ERROR_INTERNAL_ERROR
      | None \<Rightarrow>
          (case error_kind err of
             NotFound \<Rightarrow> ERROR_FILE_NOT_FOUND
           | PermissionDenied \<Rightarrow> ERROR_ACCESS_DENIED
           | IsADirectory \<Rightarrow> ERROR_ACCESS_DENIED
           | AlreadyExists \<Rightarrow> ERROR_FILE_EXISTS
           | InvalidInput \<Rightarrow> ERROR_INVALID_PARAMETER
           | DirectoryNotEmpty \<Rightarrow> ERROR_DIR_NOT_EMPTY
           | NotADirectory \<Rightarrow> ERROR_DIRECTORY
           | OtherKind \<Rightarrow> ERROR_INTERNAL_ERROR))"

definition split_hi_lo :: "nat \<Rightarrow> nat \<times> nat" where
  "split_hi_lo value =
     ((if value div 2 ^ 32 < 2 ^ 32 then value div 2 ^ 32 else 2 ^ 32 - 1), value mod 2 ^ 32)"

definition stable_file_id :: "'w winapi \<Rightarrow> (nat \<Rightarrow> nat list) \<Rightarrow> path \<Rightarrow> nat" where
  "stable_file_id wa uni path = (let h = wa_hash wa (win_normalize_key uni path) in if h = 0 then 1 else h)"

section \<open>Carriers\<close>

definition live_handle :: "int \<Rightarrow> bool" where
  "live_handle h \<longleftrightarrow> h \<noteq> INVALID_HANDLE_VALUE \<and> h \<noteq> 0"

definition carrier_open :: "'w winapi \<Rightarrow> ('v, 'h, 'c, 'w) wthread \<Rightarrow> int option \<times> ('v, 'h, 'c, 'w) wthread" where
  "carrier_open wa t =
     (case win_orig wa W_CreateFileW
             [WWide (Some (encode_utf16 ''NUL'' @ [0])), WInt 0x80000000, WInt 3, WPtr 0, WInt 3, WInt 0, WPtr 0] t of
        (h, t') \<Rightarrow> (if live_handle h then Some h else None, t'))"

text \<open>The search data that the original fills is a local of the caller, at an address of its own; only
  the handle is used.\<close>

definition carrier_find :: "'w winapi \<Rightarrow> nat \<Rightarrow> ('v, 'h, 'c, 'w) wthread \<Rightarrow> int option \<times> ('v, 'h, 'c, 'w) wthread" where
  "carrier_find wa scratch t =
     (case wa_windows_dir wa (wt_mach t) of
        (len, units) \<Rightarrow>
          if 260 < len then (None, t)
          else
            let dir = take len (units @ replicate (260 - length units) 0);
                pattern = dir @ encode_utf16 [BSL, CHR ''*''] @ [0]
            in (case win_orig wa W_FindFirstFileExW
                       [WWide (Some pattern), WInt 0, WPtr scratch, WInt 0, WPtr 0, WInt 0] t of
                  (h, t') \<Rightarrow> (if live_handle h then Some h else None, t')))"

section \<open>Attributes\<close>

definition attrs_for :: "vfs_metadata \<Rightarrow> nat" where
  "attrs_for meta =
     (if md_is_dir meta then FILE_ATTRIBUTE_DIRECTORY
      else if md_readonly meta then FILE_ATTRIBUTE_NORMAL OR FILE_ATTRIBUTE_READONLY
      else FILE_ATTRIBUTE_NORMAL)"

definition file_attrs :: "bool \<Rightarrow> nat" where
  "file_attrs writable =
     (if writable then FILE_ATTRIBUTE_NORMAL else FILE_ATTRIBUTE_NORMAL OR FILE_ATTRIBUTE_READONLY)"

definition find_data_of :: "vfs_dir_entry \<Rightarrow> find_data" where
  "find_data_of entry =
     (case split_hi_lo (md_len (de_metadata entry)) of
        (hi, lo) \<Rightarrow>
          let name = take 259 (encode_utf16 (de_name entry)) in
          \<lparr>fd_attributes = attrs_for (de_metadata entry), fd_size_high = hi, fd_size_low = lo,
           fd_name = name @ replicate (260 - length name) 0\<rparr>)"

definition fill_find_data :: "nat \<Rightarrow> vfs_dir_entry \<Rightarrow> ('v, 'h, 'c, 'w) wthread \<Rightarrow> ('v, 'h, 'c, 'w) wthread" where
  "fill_find_data out entry = win_struct out (WFindData (find_data_of entry))"

section \<open>The shape of a shim\<close>

definition win_shim :: "int \<Rightarrow> ('v, 'h, 'c, 'w) wact \<Rightarrow> ('v, 'h, 'c, 'w) wact" where
  "win_shim fallback body =
     guard_abi fallback PANIC_ERROR (\<lambda>t. case body t of (r, t') \<Rightarrow> (Some r, t')) set_err"

definition win_hooked :: "('v, 'h, 'c, 'w) wact \<Rightarrow> ('v, 'h, 'c, 'w) wact \<Rightarrow> ('v, 'h, 'c, 'w) wact" where
  "win_hooked pass body t =
     (case hook_enter (wt_in_hook t) of
        (False, _) \<Rightarrow> pass t
      | (True, mark) \<Rightarrow>
          (case body (t\<lparr>wt_in_hook := mark\<rparr>) of
             (r, t') \<Rightarrow> (r, t'\<lparr>wt_in_hook := hook_leave (wt_in_hook t')\<rparr>)))"

definition win_route :: "string \<Rightarrow> ('v, 'h, 'c, 'w) wthread \<Rightarrow> (('v, 'h) win_engine \<times> route) option" where
  "win_route decoded t =
     (case current_engine (wt_disp t) of None \<Rightarrow> None | Some e \<Rightarrow> Some (e, win_classify e decoded))"

text \<open>\<open>name\<close> is the decoded path argument.\<close>

definition win_path_routed ::
  "('v, 'h, 'c, 'w) wact \<Rightarrow> string option \<Rightarrow> ('v, 'h, 'c, 'w) wact \<Rightarrow>
     (('v, 'h) win_engine \<Rightarrow> path \<Rightarrow> ('v, 'h, 'c, 'w) wact) \<Rightarrow> ('v, 'h, 'c, 'w) wact" where
  "win_path_routed pass name reject serve = win_hooked pass (\<lambda>t.
     case name of
       None \<Rightarrow> pass t
     | Some decoded \<Rightarrow>
         (case win_route decoded t of
            None \<Rightarrow> pass t
          | Some (_, Real) \<Rightarrow> pass t
          | Some (_, Rejected) \<Rightarrow> reject t
          | Some (e, Virtual p) \<Rightarrow> serve e p t))"

definition wide_name :: "wide option \<Rightarrow> string option" where
  "wide_name ptr = map_option from_utf16_lossy (decode_wide ptr)"

definition win_engine_routed ::
  "('v, 'h, 'c, 'w) wact \<Rightarrow> (('v, 'h) win_engine \<Rightarrow> ('v, 'h, 'c, 'w) wact) \<Rightarrow> ('v, 'h, 'c, 'w) wact" where
  "win_engine_routed pass serve = win_hooked pass (\<lambda>t.
     case current_engine (wt_disp t) of None \<Rightarrow> pass t | Some e \<Rightarrow> serve e t)"

definition win_handle_routed ::
  "('v, 'h, 'c, 'w) wact \<Rightarrow> nat \<Rightarrow> (('v, 'h) win_engine \<Rightarrow> 'h win_file \<Rightarrow> ('v, 'h, 'c, 'w) wact) \<Rightarrow>
     ('v, 'h, 'c, 'w) wact" where
  "win_handle_routed pass h serve = win_engine_routed pass (\<lambda>e t.
     case get_file (eng_registry e) h of None \<Rightarrow> pass t | Some file \<Rightarrow> serve e file t)"

definition win_put_stream ::
  "('v, 'h) win_engine \<Rightarrow> nat \<Rightarrow> 'h win_file \<Rightarrow> 'h open_stream \<Rightarrow> 'v \<Rightarrow> ('v, 'h, 'c, 'w) wthread \<Rightarrow>
     ('v, 'h, 'c, 'w) wthread" where
  "win_put_stream e h file s v =
     win_put_engine (e\<lparr>eng_vfs := v, eng_registry := insert_file (eng_registry e) h (file\<lparr>of_stream := s\<rparr>)\<rparr>)"

end
