(* ===== verification/Win_Files.thy ===== *)
theory Win_Files
  imports Win_Base
begin

unbundle bit_operations_syntax

text \<open>
  The open family and the handle family of \<^verbatim>\<open>crates/hookfs/src/shims/windows.rs\<close>: opening through
  carrier handles, reading and writing (positioned by an \<^verbatim>\<open>OVERLAPPED\<close> on a synchronous handle),
  seeking, sizes, metadata by handle, flushing, truncating and closing.  A handle is the number of
  its carrier; \<open>DWORD\<close> arguments are natural numbers, \<open>LONG\<close> and \<open>LARGE_INTEGER\<close> arguments integers.
\<close>

section \<open>Opening\<close>

abbreviation CREATE_NEW :: nat where "CREATE_NEW \<equiv> 1"
abbreviation CREATE_ALWAYS :: nat where "CREATE_ALWAYS \<equiv> 2"
abbreviation OPEN_ALWAYS :: nat where "OPEN_ALWAYS \<equiv> 4"
abbreviation TRUNCATE_EXISTING :: nat where "TRUNCATE_EXISTING \<equiv> 5"
abbreviation FILE_APPEND_DATA :: nat where "FILE_APPEND_DATA \<equiv> 4"
abbreviation FILE_WRITE_DATA :: nat where "FILE_WRITE_DATA \<equiv> 2"
abbreviation FILE_FLAG_OVERLAPPED :: nat where "FILE_FLAG_OVERLAPPED \<equiv> 0x40000000"

definition WRITE_ACCESS_MASK :: nat where
  "WRITE_ACCESS_MASK = 0x40000000 OR 0x10000000 OR 0x0002 OR 0x0004"

definition win_open_options :: "nat \<Rightarrow> nat \<Rightarrow> open_options" where
  "win_open_options desired_access disposition =
     (let write = (desired_access AND WRITE_ACCESS_MASK \<noteq> 0);
          append = (desired_access AND FILE_APPEND_DATA \<noteq> 0 \<and> desired_access AND FILE_WRITE_DATA = 0);
          (create, create_new, truncate) =
            (if disposition = CREATE_NEW then (False, True, False)
             else if disposition = CREATE_ALWAYS then (True, False, True)
             else if disposition = OPEN_ALWAYS then (True, False, False)
             else if disposition = TRUNCATE_EXISTING then (False, False, True)
             else (False, False, False))
      in \<lparr>oo_read = True, oo_write = write, oo_create = create, oo_create_new = create_new,
          oo_truncate = truncate, oo_append = append\<rparr>)"

text \<open>Without a carrier the stream is dropped.  A stale entry that the new one replaces (its carrier was
  closed behind the shims' back) is dropped too.\<close>

definition win_open_virtual ::
  "('v, 'h) vfs_ops \<Rightarrow> 'w winapi \<Rightarrow> nat \<Rightarrow> nat \<Rightarrow> nat \<Rightarrow> ('v, 'h) win_engine \<Rightarrow> path \<Rightarrow> ('v, 'h, 'c, 'w) wact" where
  "win_open_virtual ops wa desired_access disposition flags e path t =
     (let opts = win_open_options desired_access disposition in
      if oo_write opts \<and> \<not> eng_allow_writes e then finish ERROR_ACCESS_DENIED INVALID_HANDLE_VALUE t
      else
        (case open_via ops path opts (eng_vfs e) of
           (None, v) \<Rightarrow> finish ERROR_FILE_NOT_FOUND INVALID_HANDLE_VALUE (win_put_vfs e v t)
         | (Some (Inl err), v) \<Rightarrow> finish (io_to_win err) INVALID_HANDLE_VALUE (win_put_vfs e v t)
         | (Some (Inr s), v) \<Rightarrow>
             (case carrier_open wa (win_put_vfs e v t) of
                (None, t1) \<Rightarrow>
                  finish ERROR_INTERNAL_ERROR INVALID_HANDLE_VALUE
                    (win_put_vfs e (h_drop ops (stream_of s) v) t1)
              | (Some carrier, t1) \<Rightarrow>
                  let v1 = (case get_file (eng_registry e) (nat carrier) of
                              None \<Rightarrow> v
                            | Some old \<Rightarrow> h_drop ops (stream_of (of_stream old)) v)
                  in finish ERROR_SUCCESS carrier
                       (win_put_engine
                          (e\<lparr>eng_vfs := v1,
                             eng_registry := insert_file (eng_registry e) (nat carrier)
                               \<lparr>of_stream = s, of_path = path, of_writable = oo_write opts,
                                of_overlapped = (flags AND FILE_FLAG_OVERLAPPED \<noteq> 0)\<rparr>\<rparr>) t1))))"

definition shim_CreateFileW ::
  "('v, 'h) vfs_ops \<Rightarrow> 'w winapi \<Rightarrow> wide option \<Rightarrow> nat \<Rightarrow> nat \<Rightarrow> nat \<Rightarrow> nat \<Rightarrow> nat \<Rightarrow> nat \<Rightarrow> ('v, 'h, 'c, 'w) wact" where
  "shim_CreateFileW ops wa name access share security disposition flags templ = win_shim INVALID_HANDLE_VALUE
     (win_path_routed
        (win_orig wa W_CreateFileW [WWide name, WInt (int access), WInt (int share), WPtr security,
           WInt (int disposition), WInt (int flags), WPtr templ])
        (wide_name name) (finish ERROR_FILE_NOT_FOUND INVALID_HANDLE_VALUE)
        (win_open_virtual ops wa access disposition flags))"

definition shim_CreateFileA ::
  "('v, 'h) vfs_ops \<Rightarrow> 'w winapi \<Rightarrow> string option \<Rightarrow> nat \<Rightarrow> nat \<Rightarrow> nat \<Rightarrow> nat \<Rightarrow> nat \<Rightarrow> nat \<Rightarrow> ('v, 'h, 'c, 'w) wact" where
  "shim_CreateFileA ops wa name access share security disposition flags templ = win_shim INVALID_HANDLE_VALUE
     (win_path_routed
        (win_orig wa W_CreateFileA [WAnsi name, WInt (int access), WInt (int share), WPtr security,
           WInt (int disposition), WInt (int flags), WPtr templ])
        (decode_ansi name) (finish ERROR_FILE_NOT_FOUND INVALID_HANDLE_VALUE)
        (win_open_virtual ops wa access disposition flags))"

text \<open>The extended parameters of \<open>CreateFile2\<close> begin with \<open>dw_size\<close>, \<open>dw_file_attributes\<close> and
  \<open>dw_file_flags\<close>, four bytes each.\<close>

definition load_u32 :: "nat \<Rightarrow> ('v, 'h, 'c, 'w) wthread \<Rightarrow> nat" where
  "load_u32 p t = unat (from_le_bytes (win_load p 4 t) :: 32 word)"

definition create_file2_flags :: "nat \<Rightarrow> ('v, 'h, 'c, 'w) wthread \<Rightarrow> nat" where
  "create_file2_flags params t = (if params = 0 then 0 else load_u32 (params + 8) t)"

definition shim_CreateFile2 ::
  "('v, 'h) vfs_ops \<Rightarrow> 'w winapi \<Rightarrow> wide option \<Rightarrow> nat \<Rightarrow> nat \<Rightarrow> nat \<Rightarrow> nat \<Rightarrow> ('v, 'h, 'c, 'w) wact" where
  "shim_CreateFile2 ops wa name access share disposition params = win_shim INVALID_HANDLE_VALUE
     (win_path_routed
        (win_orig wa W_CreateFile2 [WWide name, WInt (int access), WInt (int share), WInt (int disposition), WPtr params])
        (wide_name name) (finish ERROR_FILE_NOT_FOUND INVALID_HANDLE_VALUE)
        (\<lambda>e path t. win_open_virtual ops wa access disposition (create_file2_flags params t) e path t))"

section \<open>Reading and writing\<close>

text \<open>In an \<^verbatim>\<open>OVERLAPPED\<close> the two halves of the offset follow two pointer-sized fields.\<close>

definition overlapped_offset :: "nat \<Rightarrow> ('v, 'h, 'c, 'w) wthread \<Rightarrow> u64" where
  "overlapped_offset ov t = push_bit 32 (load_u32 (ov + 20) t) OR load_u32 (ov + 16) t"

definition seek_overlapped ::
  "('v, 'h) vfs_ops \<Rightarrow> nat \<Rightarrow> ('v, 'h, 'c, 'w) wthread \<Rightarrow> 'h open_stream \<Rightarrow> 'v \<Rightarrow> unit io_result \<times> 'h open_stream \<times> 'v" where
  "seek_overlapped ops ov t s v =
     (if ov = 0 then (Inr (), s, v)
      else (case os_seek ops s (Start (overlapped_offset ov t)) v of (r, s', v') \<Rightarrow> (map_sum id (\<lambda>_. ()) r, s', v')))"

definition count_bytes :: "nat \<Rightarrow> nat \<Rightarrow> byte list" where
  "count_bytes n requested = to_le 4 (if n < 2 ^ 32 then n else requested)"

definition shim_ReadFile ::
  "('v, 'h) vfs_ops \<Rightarrow> 'w winapi \<Rightarrow> nat \<Rightarrow> nat \<Rightarrow> nat \<Rightarrow> nat \<Rightarrow> nat \<Rightarrow> ('v, 'h, 'c, 'w) wact" where
  "shim_ReadFile ops wa h buf n nread ov = win_shim 0
     (win_handle_routed
        (win_orig wa W_ReadFile [WPtr h, WPtr buf, WInt (int n), WPtr nread, WPtr ov]) h (\<lambda>e file t.
        if of_overlapped file then finish ERROR_NOT_SUPPORTED 0 t
        else
          (case seek_overlapped ops ov t (of_stream file) (eng_vfs e) of
             (Inl err, s, v) \<Rightarrow> finish (io_to_win err) 0 (win_put_stream e h file s v t)
           | (Inr _, s, v) \<Rightarrow>
               if n = 0 then finish ERROR_SUCCESS 1 (store_opt nread (to_le 4 0) (win_put_stream e h file s v t))
               else if buf = 0 then finish ERROR_INVALID_PARAMETER 0 (win_put_stream e h file s v t)
               else
                 (case os_read ops s n v of
                    (Inr bs, s', v') \<Rightarrow>
                      finish ERROR_SUCCESS 1
                        (store_opt nread (count_bytes (length bs) n) (win_store buf bs (win_put_stream e h file s' v' t)))
                  | (Inl err, s', v') \<Rightarrow> finish (io_to_win err) 0 (win_put_stream e h file s' v' t)))))"

definition shim_ReadFileEx ::
  "'w winapi \<Rightarrow> nat \<Rightarrow> nat \<Rightarrow> nat \<Rightarrow> nat \<Rightarrow> nat \<Rightarrow> ('v, 'h, 'c, 'w) wact" where
  "shim_ReadFileEx wa h buf n ov routine = win_shim 0
     (win_handle_routed (win_orig wa W_ReadFileEx [WPtr h, WPtr buf, WInt (int n), WPtr ov, WPtr routine]) h
        (\<lambda>e file. finish ERROR_NOT_SUPPORTED 0))"

definition shim_WriteFile ::
  "('v, 'h) vfs_ops \<Rightarrow> 'w winapi \<Rightarrow> nat \<Rightarrow> nat \<Rightarrow> nat \<Rightarrow> nat \<Rightarrow> nat \<Rightarrow> ('v, 'h, 'c, 'w) wact" where
  "shim_WriteFile ops wa h buf n nwritten ov = win_shim 0
     (win_handle_routed
        (win_orig wa W_WriteFile [WPtr h, WPtr buf, WInt (int n), WPtr nwritten, WPtr ov]) h (\<lambda>e file t.
        if \<not> of_writable file then finish ERROR_ACCESS_DENIED 0 t
        else if of_overlapped file then finish ERROR_NOT_SUPPORTED 0 t
        else
          (case seek_overlapped ops ov t (of_stream file) (eng_vfs e) of
             (Inl err, s, v) \<Rightarrow> finish (io_to_win err) 0 (win_put_stream e h file s v t)
           | (Inr _, s, v) \<Rightarrow>
               if n = 0 then finish ERROR_SUCCESS 1 (store_opt nwritten (to_le 4 0) (win_put_stream e h file s v t))
               else if buf = 0 then finish ERROR_INVALID_PARAMETER 0 (win_put_stream e h file s v t)
               else
                 (case os_write ops s (win_load buf n t) v of
                    (Inr k, s', v') \<Rightarrow>
                      finish ERROR_SUCCESS 1 (store_opt nwritten (count_bytes k n) (win_put_stream e h file s' v' t))
                  | (Inl err, s', v') \<Rightarrow> finish (io_to_win err) 0 (win_put_stream e h file s' v' t)))))"

definition shim_WriteFileEx ::
  "'w winapi \<Rightarrow> nat \<Rightarrow> nat \<Rightarrow> nat \<Rightarrow> nat \<Rightarrow> nat \<Rightarrow> ('v, 'h, 'c, 'w) wact" where
  "shim_WriteFileEx wa h buf n ov routine = win_shim 0
     (win_handle_routed (win_orig wa W_WriteFileEx [WPtr h, WPtr buf, WInt (int n), WPtr ov, WPtr routine]) h
        (\<lambda>e file. finish ERROR_ACCESS_DENIED 0))"

section \<open>Seeking, sizes and types\<close>

definition win_seek_from :: "nat \<Rightarrow> int \<Rightarrow> seek_from option" where
  "win_seek_from meth distance =
     (if meth = 0 then (if distance < 0 then None else Some (Start (nat distance)))
      else if meth = 1 then Some (Current distance)
      else if meth = 2 then Some (End distance)
      else None)"

definition shim_SetFilePointerEx ::
  "('v, 'h) vfs_ops \<Rightarrow> 'w winapi \<Rightarrow> nat \<Rightarrow> int \<Rightarrow> nat \<Rightarrow> nat \<Rightarrow> ('v, 'h, 'c, 'w) wact" where
  "shim_SetFilePointerEx ops wa h distance newp meth = win_shim 0
     (win_handle_routed
        (win_orig wa W_SetFilePointerEx [WPtr h, WInt distance, WPtr newp, WInt (int meth)]) h (\<lambda>e file t.
        case win_seek_from meth distance of
          None \<Rightarrow> finish ERROR_INVALID_PARAMETER 0 t
        | Some from \<Rightarrow>
            (case os_seek ops (of_stream file) from (eng_vfs e) of
               (Inr pos, s, v) \<Rightarrow>
                 finish ERROR_SUCCESS 1 (store_opt newp (clamp_i64_bytes pos) (win_put_stream e h file s v t))
             | (Inl err, s, v) \<Rightarrow> finish (io_to_win err) 0 (win_put_stream e h file s v t))))"

text \<open>The 32-bit call combines the low half with an optional signed high half, read and written through
  the same pointer.\<close>

definition load_i32 :: "nat \<Rightarrow> ('v, 'h, 'c, 'w) wthread \<Rightarrow> int" where
  "load_i32 p t = sint (from_le_bytes (win_load p 4 t) :: 32 word)"

definition move_distance :: "int \<Rightarrow> nat \<Rightarrow> ('v, 'h, 'c, 'w) wthread \<Rightarrow> int" where
  "move_distance dist high t =
     (if high = 0 then dist else push_bit 32 (load_i32 high t) OR (dist mod 2 ^ 32))"

definition shim_SetFilePointer ::
  "('v, 'h) vfs_ops \<Rightarrow> 'w winapi \<Rightarrow> nat \<Rightarrow> int \<Rightarrow> nat \<Rightarrow> nat \<Rightarrow> ('v, 'h, 'c, 'w) wact" where
  "shim_SetFilePointer ops wa h dist high meth = win_shim INVALID_SET_FILE_POINTER
     (win_handle_routed
        (win_orig wa W_SetFilePointer [WPtr h, WInt dist, WPtr high, WInt (int meth)]) h (\<lambda>e file t.
        case win_seek_from meth (move_distance dist high t) of
          None \<Rightarrow> finish ERROR_INVALID_PARAMETER INVALID_SET_FILE_POINTER t
        | Some from \<Rightarrow>
            (case os_seek ops (of_stream file) from (eng_vfs e) of
               (Inr pos, s, v) \<Rightarrow>
                 (case split_hi_lo pos of
                    (hi, lo) \<Rightarrow>
                      finish ERROR_SUCCESS (int lo) (store_opt high (to_le 4 hi) (win_put_stream e h file s v t)))
             | (Inl err, s, v) \<Rightarrow> finish (io_to_win err) INVALID_SET_FILE_POINTER (win_put_stream e h file s v t))))"

definition shim_GetFileSizeEx :: "('v, 'h) vfs_ops \<Rightarrow> 'w winapi \<Rightarrow> nat \<Rightarrow> nat \<Rightarrow> ('v, 'h, 'c, 'w) wact" where
  "shim_GetFileSizeEx ops wa h out = win_shim 0
     (win_handle_routed (win_orig wa W_GetFileSizeEx [WPtr h, WPtr out]) h (\<lambda>e file t.
        case os_size ops (of_stream file) (eng_vfs e) of
          (Inr n, s, v) \<Rightarrow> finish ERROR_SUCCESS 1 (store_opt out (clamp_i64_bytes n) (win_put_stream e h file s v t))
        | (Inl err, s, v) \<Rightarrow> finish (io_to_win err) 0 (win_put_stream e h file s v t)))"

definition shim_GetFileSize :: "('v, 'h) vfs_ops \<Rightarrow> 'w winapi \<Rightarrow> nat \<Rightarrow> nat \<Rightarrow> ('v, 'h, 'c, 'w) wact" where
  "shim_GetFileSize ops wa h high = win_shim INVALID_FILE_ATTRIBUTES
     (win_handle_routed (win_orig wa W_GetFileSize [WPtr h, WPtr high]) h (\<lambda>e file t.
        case os_size ops (of_stream file) (eng_vfs e) of
          (Inr n, s, v) \<Rightarrow>
            (case split_hi_lo n of
               (hi, lo) \<Rightarrow> finish ERROR_SUCCESS (int lo) (store_opt high (to_le 4 hi) (win_put_stream e h file s v t)))
        | (Inl err, s, v) \<Rightarrow> finish (io_to_win err) INVALID_FILE_ATTRIBUTES (win_put_stream e h file s v t)))"

definition shim_GetFileType :: "'w winapi \<Rightarrow> nat \<Rightarrow> ('v, 'h, 'c, 'w) wact" where
  "shim_GetFileType wa h = win_shim 0
     (win_handle_routed (win_orig wa W_GetFileType [WPtr h]) h (\<lambda>e file. finish ERROR_SUCCESS FILE_TYPE_DISK))"

section \<open>Metadata by handle\<close>

definition shim_GetFileInformationByHandle ::
  "('v, 'h) vfs_ops \<Rightarrow> 'w winapi \<Rightarrow> (nat \<Rightarrow> nat list) \<Rightarrow> nat \<Rightarrow> nat \<Rightarrow> ('v, 'h, 'c, 'w) wact" where
  "shim_GetFileInformationByHandle ops wa uni h out = win_shim 0
     (win_handle_routed (win_orig wa W_GetFileInformationByHandle [WPtr h, WPtr out]) h (\<lambda>e file t.
        if out = 0 then finish ERROR_INVALID_PARAMETER 0 t
        else
          (case os_size ops (of_stream file) (eng_vfs e) of
             (r, s, v) \<Rightarrow>
               (case split_hi_lo (case r of Inr n \<Rightarrow> n | Inl _ \<Rightarrow> 0) of
                  (size_hi, size_lo) \<Rightarrow>
                    (case split_hi_lo (stable_file_id wa uni (of_path file)) of
                       (idx_hi, idx_lo) \<Rightarrow>
                         finish ERROR_SUCCESS 1
                           (win_struct out
                              (WHandleInfo \<lparr>hi_attributes = file_attrs (of_writable file),
                                 hi_volume_serial = VIRTUAL_VOLUME_SERIAL,
                                 hi_size_high = size_hi, hi_size_low = size_lo, hi_links = 1,
                                 hi_index_high = idx_hi, hi_index_low = idx_lo\<rparr>)
                              (win_put_stream e h file s v t)))))))"

text \<open>\<^verbatim>\<open>FileBasicInfoData\<close> takes 40 bytes, \<^verbatim>\<open>FileStandardInfoData\<close> 24.\<close>

definition shim_GetFileInformationByHandleEx ::
  "('v, 'h) vfs_ops \<Rightarrow> 'w winapi \<Rightarrow> nat \<Rightarrow> int \<Rightarrow> nat \<Rightarrow> nat \<Rightarrow> ('v, 'h, 'c, 'w) wact" where
  "shim_GetFileInformationByHandleEx ops wa h cls out len = win_shim 0
     (win_handle_routed
        (win_orig wa W_GetFileInformationByHandleEx [WPtr h, WInt cls, WPtr out, WInt (int len)]) h (\<lambda>e file t.
        case os_size ops (of_stream file) (eng_vfs e) of
          (r, s, v) \<Rightarrow>
            let n = (case r of Inr n \<Rightarrow> n | Inl _ \<Rightarrow> 0);
                t' = win_put_stream e h file s v t;
                signed = int (min n (2 ^ 63 - 1))
            in if cls = 0 then
                 (if out = 0 \<or> len < 40 then finish ERROR_INVALID_PARAMETER 0 t'
                  else finish ERROR_SUCCESS 1
                         (win_struct out
                            (WBasicInfo \<lparr>bi_creation_time = 0, bi_last_access_time = 0, bi_last_write_time = 0,
                               bi_change_time = 0, bi_attributes = file_attrs (of_writable file)\<rparr>) t'))
               else if cls = 1 then
                 (if out = 0 \<or> len < 24 then finish ERROR_INVALID_PARAMETER 0 t'
                  else finish ERROR_SUCCESS 1
                         (win_struct out
                            (WStandardInfo \<lparr>si_allocation_size = signed, si_end_of_file = signed, si_links = 1,
                               si_delete_pending = 0, si_directory = 0\<rparr>) t'))
               else finish ERROR_NOT_SUPPORTED 0 t'))"

section \<open>Flushing, truncating and closing\<close>

definition shim_FlushFileBuffers :: "('v, 'h) vfs_ops \<Rightarrow> 'w winapi \<Rightarrow> nat \<Rightarrow> ('v, 'h, 'c, 'w) wact" where
  "shim_FlushFileBuffers ops wa h = win_shim 0
     (win_handle_routed (win_orig wa W_FlushFileBuffers [WPtr h]) h (\<lambda>e file t.
        case os_flush ops (of_stream file) (eng_vfs e) of
          (Inr _, s, v) \<Rightarrow> finish ERROR_SUCCESS 1 (win_put_stream e h file s v t)
        | (Inl err, s, v) \<Rightarrow> finish (io_to_win err) 0 (win_put_stream e h file s v t)))"

definition shim_SetEndOfFile :: "('v, 'h) vfs_ops \<Rightarrow> 'w winapi \<Rightarrow> nat \<Rightarrow> ('v, 'h, 'c, 'w) wact" where
  "shim_SetEndOfFile ops wa h = win_shim 0
     (win_handle_routed (win_orig wa W_SetEndOfFile [WPtr h]) h (\<lambda>e file t.
        if \<not> of_writable file then finish ERROR_ACCESS_DENIED 0 t
        else
          (case os_position ops (of_stream file) (eng_vfs e) of
             (Inl err, s, v) \<Rightarrow> finish (io_to_win err) 0 (win_put_stream e h file s v t)
           | (Inr pos, s, v) \<Rightarrow>
               (case os_set_len ops s pos v of
                  (Inr _, s', v') \<Rightarrow> finish ERROR_SUCCESS 1 (win_put_stream e h file s' v' t)
                | (Inl err, s', v') \<Rightarrow> finish (io_to_win err) 0 (win_put_stream e h file s' v' t)))))"

definition shim_CloseHandle :: "('v, 'h) vfs_ops \<Rightarrow> 'w winapi \<Rightarrow> nat \<Rightarrow> ('v, 'h, 'c, 'w) wact" where
  "shim_CloseHandle ops wa h = win_shim 0
     (win_engine_routed (win_orig wa W_CloseHandle [WPtr h]) (\<lambda>e t.
        case remove_file (eng_registry e) h of
          (None, _) \<Rightarrow> win_orig wa W_CloseHandle [WPtr h] t
        | (Some file, reg) \<Rightarrow>
            (case win_orig wa W_CloseHandle [WPtr h]
                    (win_put_engine (e\<lparr>eng_vfs := h_drop ops (stream_of (of_stream file)) (eng_vfs e), eng_registry := reg\<rparr>) t) of
               (ok, t') \<Rightarrow> finish ERROR_SUCCESS ok t')))"

end
