(* ===== verification/Win_Paths.thy ===== *)
theory Win_Paths
  imports Win_Base
begin

text \<open>
  The path families of \<^verbatim>\<open>crates/hookfs/src/shims/windows.rs\<close>: wildcard enumeration, attributes, path
  resolution and the working directory, mutations, volume queries and the loader.
\<close>

section \<open>Directory enumeration\<close>

text \<open>\<open>wildcard_match\<close> answers on every pattern and name.\<close>

definition find_matches ::
  "('v, 'h) vfs_ops \<Rightarrow> (nat \<Rightarrow> nat list) \<Rightarrow> path \<Rightarrow> 'v \<Rightarrow> vfs_dir_entry list \<times> 'v" where
  "find_matches ops uni pattern v =
     (let leaf = (case win_file_name pattern of Some n \<Rightarrow> n | None \<Rightarrow> []);
          parent = (case win_parent pattern of Some p \<Rightarrow> p | None \<Rightarrow> pattern)
      in case v_read_dir ops parent v of
           (listing, v1) \<Rightarrow>
             let out = (case listing of
                          Some (Inr entries) \<Rightarrow> filter (\<lambda>x. wildcard_match uni leaf (de_name x) = Some True) entries
                        | _ \<Rightarrow> [])
             in if out = [] \<and> CHR ''*'' \<notin> set leaf \<and> CHR ''?'' \<notin> set leaf then
                  (case v_metadata ops pattern v1 of
                     (Some (Inr meta), v2) \<Rightarrow> ([\<lparr>de_name = leaf, de_metadata = meta\<rparr>], v2)
                   | (_, v2) \<Rightarrow> (out, v2))
                else (out, v1))"

text \<open>What both \<open>FindFirst\<close> calls do with a virtual pattern.  \<open>scratch\<close> is the address of the local that
  receives the search data of the carrier.\<close>

definition find_first_virtual ::
  "('v, 'h) vfs_ops \<Rightarrow> 'w winapi \<Rightarrow> (nat \<Rightarrow> nat list) \<Rightarrow> nat \<Rightarrow> nat \<Rightarrow> ('v, 'h) win_engine \<Rightarrow> path \<Rightarrow> ('v, 'h, 'c, 'w) wact" where
  "find_first_virtual ops wa uni scratch out e path t =
     (case find_matches ops uni path (eng_vfs e) of
        ([], v) \<Rightarrow> finish ERROR_FILE_NOT_FOUND INVALID_HANDLE_VALUE (win_put_vfs e v t)
      | (first # rest, v) \<Rightarrow>
          (case carrier_find wa scratch (win_put_vfs e v t) of
             (None, t1) \<Rightarrow> finish ERROR_INTERNAL_ERROR INVALID_HANDLE_VALUE t1
           | (Some carrier, t1) \<Rightarrow>
               finish ERROR_SUCCESS carrier
                 (win_put_engine
                    (e\<lparr>eng_vfs := v,
                       eng_registry := insert_find (eng_registry e) (nat carrier) \<lparr>find_entries = rest, find_next = 0\<rparr>\<rparr>)
                    (fill_find_data out first t1))))"

definition shim_FindFirstFileExW ::
  "('v, 'h) vfs_ops \<Rightarrow> 'w winapi \<Rightarrow> (nat \<Rightarrow> nat list) \<Rightarrow> nat \<Rightarrow> wide option \<Rightarrow> int \<Rightarrow> nat \<Rightarrow> int \<Rightarrow> nat \<Rightarrow> nat \<Rightarrow>
     ('v, 'h, 'c, 'w) wact" where
  "shim_FindFirstFileExW ops wa uni scratch name level out search_op search_filter flags =
     win_shim INVALID_HANDLE_VALUE
       (win_path_routed
          (win_orig wa W_FindFirstFileExW
             [WWide name, WInt level, WPtr out, WInt search_op, WPtr search_filter, WInt (int flags)])
          (wide_name name) (finish ERROR_FILE_NOT_FOUND INVALID_HANDLE_VALUE)
          (find_first_virtual ops wa uni scratch out))"

definition shim_FindFirstFileW ::
  "('v, 'h) vfs_ops \<Rightarrow> 'w winapi \<Rightarrow> (nat \<Rightarrow> nat list) \<Rightarrow> nat \<Rightarrow> wide option \<Rightarrow> nat \<Rightarrow> ('v, 'h, 'c, 'w) wact" where
  "shim_FindFirstFileW ops wa uni scratch name out =
     win_shim INVALID_HANDLE_VALUE
       (win_path_routed (win_orig wa W_FindFirstFileW [WWide name, WPtr out])
          (wide_name name) (finish ERROR_FILE_NOT_FOUND INVALID_HANDLE_VALUE)
          (find_first_virtual ops wa uni scratch out))"

definition shim_FindNextFileW :: "'w winapi \<Rightarrow> nat \<Rightarrow> nat \<Rightarrow> ('v, 'h, 'c, 'w) wact" where
  "shim_FindNextFileW wa h out = win_shim 0
     (win_engine_routed (win_orig wa W_FindNextFileW [WPtr h, WPtr out]) (\<lambda>e t.
        case get_find (eng_registry e) h of
          None \<Rightarrow> win_orig wa W_FindNextFileW [WPtr h, WPtr out] t
        | Some state \<Rightarrow>
            let i = find_next state in
            if i < length (find_entries state) then
              finish ERROR_SUCCESS 1
                (win_put_engine
                   (e\<lparr>eng_registry := insert_find (eng_registry e) h (state\<lparr>find_next := i + 1\<rparr>)\<rparr>)
                   (fill_find_data out (find_entries state ! i) t))
            else finish ERROR_NO_MORE_FILES 0 t))"

definition shim_FindClose :: "'w winapi \<Rightarrow> nat \<Rightarrow> ('v, 'h, 'c, 'w) wact" where
  "shim_FindClose wa h = win_shim 0
     (win_engine_routed (win_orig wa W_FindClose [WPtr h]) (\<lambda>e t.
        case remove_find (eng_registry e) h of
          (None, _) \<Rightarrow> win_orig wa W_FindClose [WPtr h] t
        | (Some _, reg) \<Rightarrow>
            (case win_orig wa W_FindClose [WPtr h] (win_put_engine (e\<lparr>eng_registry := reg\<rparr>) t) of
               (ok, t') \<Rightarrow> finish ERROR_SUCCESS ok t')))"

section \<open>Attributes by path\<close>

definition shim_GetFileAttributesW ::
  "('v, 'h) vfs_ops \<Rightarrow> 'w winapi \<Rightarrow> wide option \<Rightarrow> ('v, 'h, 'c, 'w) wact" where
  "shim_GetFileAttributesW ops wa name = win_shim INVALID_FILE_ATTRIBUTES
     (win_path_routed (win_orig wa W_GetFileAttributesW [WWide name])
        (wide_name name) (finish ERROR_FILE_NOT_FOUND INVALID_FILE_ATTRIBUTES) (\<lambda>e path t.
        case v_metadata ops path (eng_vfs e) of
          (Some (Inr meta), v) \<Rightarrow> finish ERROR_SUCCESS (int (attrs_for meta)) (win_put_vfs e v t)
        | (_, v) \<Rightarrow> finish ERROR_FILE_NOT_FOUND INVALID_FILE_ATTRIBUTES (win_put_vfs e v t)))"

definition shim_GetFileAttributesExW ::
  "('v, 'h) vfs_ops \<Rightarrow> 'w winapi \<Rightarrow> wide option \<Rightarrow> int \<Rightarrow> nat \<Rightarrow> ('v, 'h, 'c, 'w) wact" where
  "shim_GetFileAttributesExW ops wa name level out = win_shim 0
     (win_path_routed (win_orig wa W_GetFileAttributesExW [WWide name, WInt level, WPtr out])
        (wide_name name) (finish ERROR_FILE_NOT_FOUND 0) (\<lambda>e path t.
        case v_metadata ops path (eng_vfs e) of
          (Some (Inr meta), v) \<Rightarrow>
            if out = 0 then finish ERROR_INVALID_PARAMETER 0 (win_put_vfs e v t)
            else
              (case split_hi_lo (md_len meta) of
                 (hi, lo) \<Rightarrow>
                   finish ERROR_SUCCESS 1
                     (win_struct out
                        (WAttributeData \<lparr>ad_attributes = attrs_for meta, ad_size_high = hi, ad_size_low = lo\<rparr>)
                        (win_put_vfs e v t)))
        | (_, v) \<Rightarrow> finish ERROR_FILE_NOT_FOUND 0 (win_put_vfs e v t)))"

section \<open>Path resolution and the working directory\<close>

definition clamp_u32 :: "nat \<Rightarrow> int" where
  "clamp_u32 n = (if n < 2 ^ 32 then int n else 2 ^ 32 - 1)"

text \<open>The position after the last separator, 0 without one.\<close>

definition after_last_sep :: "string \<Rightarrow> nat" where
  "after_last_sep s = length s - length (takeWhile (\<lambda>c. \<not> win_sep c) (rev s))"

definition write_full_path_w :: "string \<Rightarrow> nat \<Rightarrow> nat \<Rightarrow> nat \<Rightarrow> ('v, 'h, 'c, 'w) wact" where
  "write_full_path_w text' buffer buflen file_part t =
     (let us = encode_utf16 text';
          needed = length us
      in if buffer = 0 \<or> buflen < needed + 1 then (clamp_u32 (needed + 1), t)
         else
           let prefix_units = length (encode_utf16 (take (after_last_sep text') text'));
               t1 = win_store buffer (wide_bytes (us @ [0])) t
           in finish ERROR_SUCCESS (clamp_u32 needed)
                (store_opt file_part (to_le 8 (buffer + 2 * prefix_units)) t1))"

definition shim_GetFullPathNameW ::
  "'w winapi \<Rightarrow> wide option \<Rightarrow> nat \<Rightarrow> nat \<Rightarrow> nat \<Rightarrow> ('v, 'h, 'c, 'w) wact" where
  "shim_GetFullPathNameW wa name buflen buffer file_part = win_shim 0
     (win_path_routed (win_orig wa W_GetFullPathNameW [WWide name, WInt (int buflen), WPtr buffer, WPtr file_part])
        (wide_name name) (finish ERROR_INVALID_NAME 0)
        (\<lambda>e path. write_full_path_w path buffer buflen file_part))"

definition shim_GetFullPathNameA ::
  "'w winapi \<Rightarrow> string option \<Rightarrow> nat \<Rightarrow> nat \<Rightarrow> nat \<Rightarrow> ('v, 'h, 'c, 'w) wact" where
  "shim_GetFullPathNameA wa name buflen buffer file_part = win_shim 0
     (win_path_routed (win_orig wa W_GetFullPathNameA [WAnsi name, WInt (int buflen), WPtr buffer, WPtr file_part])
        (decode_ansi name) (finish ERROR_INVALID_NAME 0) (\<lambda>e path t.
        let bytes = map of_char path;
            needed = length bytes
        in if buffer = 0 \<or> buflen < needed + 1 then (clamp_u32 (needed + 1), t)
           else
             finish ERROR_SUCCESS (clamp_u32 needed)
               (store_opt file_part (to_le 8 (buffer + after_last_sep path)) (win_store buffer (bytes @ [0]) t))))"

definition shim_GetCurrentDirectoryW :: "'w winapi \<Rightarrow> nat \<Rightarrow> nat \<Rightarrow> ('v, 'h, 'c, 'w) wact" where
  "shim_GetCurrentDirectoryW wa buflen buffer = win_shim 0
     (win_engine_routed (win_orig wa W_GetCurrentDirectoryW [WInt (int buflen), WPtr buffer]) (\<lambda>e t.
        case virtual_cwd e of
          Some cwd \<Rightarrow> write_full_path_w cwd buffer buflen 0 t
        | None \<Rightarrow> win_orig wa W_GetCurrentDirectoryW [WInt (int buflen), WPtr buffer] t))"

section \<open>Mutations\<close>

definition mutation_result :: "unit io_result \<Rightarrow> ('v, 'h, 'c, 'w) wact" where
  "mutation_result res =
     (case res of Inr _ \<Rightarrow> finish ERROR_SUCCESS 1 | Inl err \<Rightarrow> finish (io_to_win err) 0)"

definition shim_DeleteFileW :: "('v, 'h) vfs_ops \<Rightarrow> 'w winapi \<Rightarrow> wide option \<Rightarrow> ('v, 'h, 'c, 'w) wact" where
  "shim_DeleteFileW ops wa name = win_shim 0
     (win_path_routed (win_orig wa W_DeleteFileW [WWide name])
        (wide_name name) (finish ERROR_ACCESS_DENIED 0) (\<lambda>e path t.
        if \<not> eng_allow_writes e then finish ERROR_ACCESS_DENIED 0 t
        else
          (case v_remove ops path (eng_vfs e) of
             (Some res, v) \<Rightarrow> mutation_result res (win_put_vfs e v t)
           | (None, v) \<Rightarrow> finish ERROR_FILE_NOT_FOUND 0 (win_put_vfs e v t))))"

definition shim_MoveFileExW ::
  "('v, 'h) vfs_ops \<Rightarrow> 'w winapi \<Rightarrow> wide option \<Rightarrow> wide option \<Rightarrow> nat \<Rightarrow> ('v, 'h, 'c, 'w) wact" where
  "shim_MoveFileExW ops wa existing new flags = win_shim 0
     (win_path_routed (win_orig wa W_MoveFileExW [WWide existing, WWide new, WInt (int flags)])
        (wide_name existing) (finish ERROR_ACCESS_DENIED 0) (\<lambda>e from t.
        if \<not> eng_allow_writes e then finish ERROR_ACCESS_DENIED 0 t
        else
          (case wide_name new of
             None \<Rightarrow> finish ERROR_INVALID_PARAMETER 0 t
           | Some to_decoded \<Rightarrow>
               (case win_classify e to_decoded of
                  Virtual to \<Rightarrow>
                    (case v_rename ops from to (eng_vfs e) of
                       (Some res, v) \<Rightarrow> mutation_result res (win_put_vfs e v t)
                     | (None, v) \<Rightarrow> finish ERROR_FILE_NOT_FOUND 0 (win_put_vfs e v t))
                | _ \<Rightarrow> finish ERROR_ACCESS_DENIED 0 t))))"

definition shim_CreateDirectoryW ::
  "('v, 'h) vfs_ops \<Rightarrow> 'w winapi \<Rightarrow> wide option \<Rightarrow> nat \<Rightarrow> ('v, 'h, 'c, 'w) wact" where
  "shim_CreateDirectoryW ops wa name security = win_shim 0
     (win_path_routed (win_orig wa W_CreateDirectoryW [WWide name, WPtr security])
        (wide_name name) (finish ERROR_ACCESS_DENIED 0) (\<lambda>e path t.
        if \<not> eng_allow_writes e then finish ERROR_ACCESS_DENIED 0 t
        else
          (case v_create_dir ops path (eng_vfs e) of
             (Some res, v) \<Rightarrow> mutation_result res (win_put_vfs e v t)
           | (None, v) \<Rightarrow> finish ERROR_ACCESS_DENIED 0 (win_put_vfs e v t))))"

section \<open>Volume queries\<close>

text \<open>Sectors per cluster, total clusters and free clusters.\<close>

definition cluster_geometry :: "volume_info option \<Rightarrow> nat \<times> nat \<times> nat" where
  "cluster_geometry info =
     (case info of
        Some v \<Rightarrow>
          let bytes_per_cluster = max (vi_block_size v) 512;
              u32_or = (\<lambda>n d. if n < 2 ^ 32 then n else d)
          in (max (u32_or (bytes_per_cluster div 512) 8) 1,
              u32_or (vi_capacity v div bytes_per_cluster) (2 ^ 32 - 1),
              u32_or (vi_available v div bytes_per_cluster) (2 ^ 32 - 1))
      | None \<Rightarrow> (8, 0x01000000, 0x00800000))"

definition shim_GetDiskFreeSpaceA ::
  "('v, 'h) vfs_ops \<Rightarrow> 'w winapi \<Rightarrow> string option \<Rightarrow> nat \<Rightarrow> nat \<Rightarrow> nat \<Rightarrow> nat \<Rightarrow> ('v, 'h, 'c, 'w) wact" where
  "shim_GetDiskFreeSpaceA ops wa root spc bps free tot =
     (let pass = win_orig wa W_GetDiskFreeSpaceA [WAnsi root, WPtr spc, WPtr bps, WPtr free, WPtr tot]
      in win_shim 0
           (win_path_routed pass (decode_ansi root) pass (\<lambda>e path t.
              case v_volume_info ops (eng_vfs e) of
                (info, v) \<Rightarrow>
                  (case cluster_geometry info of
                     (sectors_per_cluster, total_clusters, free_clusters) \<Rightarrow>
                       finish ERROR_SUCCESS 1
                         (store_opt tot (to_le 4 total_clusters)
                            (store_opt free (to_le 4 free_clusters)
                               (store_opt bps (to_le 4 512)
                                  (store_opt spc (to_le 4 sectors_per_cluster) (win_put_vfs e v t)))))))))"

definition shim_GetDriveTypeW :: "'w winapi \<Rightarrow> wide option \<Rightarrow> ('v, 'h, 'c, 'w) wact" where
  "shim_GetDriveTypeW wa root =
     (let pass = win_orig wa W_GetDriveTypeW [WWide root]
      in win_shim 0 (win_path_routed pass (wide_name root) pass (\<lambda>e path t. (DRIVE_FIXED, t))))"

section \<open>The loader\<close>

text \<open>\<open>run\<close> executes a registered rescan callback.\<close>

definition shim_LoadLibraryExW ::
  "'w winapi \<Rightarrow> ('c \<Rightarrow> ('v, 'h, 'c, 'w) wthread \<Rightarrow> ('v, 'h, 'c, 'w) wthread) \<Rightarrow> wide option \<Rightarrow> nat \<Rightarrow> nat \<Rightarrow>
     ('v, 'h, 'c, 'w) wact" where
  "shim_LoadLibraryExW wa run name h flags = win_shim 0 (\<lambda>t.
     case win_orig wa W_LoadLibraryExW [WWide name, WPtr h, WInt (int flags)] t of
       (r, t1) \<Rightarrow> (r, if r \<noteq> 0 then trigger_rescan run (wt_disp t1) t1 else t1))"

definition shim_LoadLibraryA ::
  "'w winapi \<Rightarrow> ('c \<Rightarrow> ('v, 'h, 'c, 'w) wthread \<Rightarrow> ('v, 'h, 'c, 'w) wthread) \<Rightarrow> string option \<Rightarrow> ('v, 'h, 'c, 'w) wact" where
  "shim_LoadLibraryA wa run name = win_shim 0 (\<lambda>t.
     case win_orig wa W_LoadLibraryA [WAnsi name] t of
       (r, t1) \<Rightarrow> (r, if r \<noteq> 0 then trigger_rescan run (wt_disp t1) t1 else t1))"

end
