(* ===== verification/Win_Calls.thy ===== *)
theory Win_Calls
  imports Win_Files Win_Paths
begin

text \<open>
  The hooked interface of Windows as one type: a call with its arguments, the symbol it is imported
  by, the shim that \<^verbatim>\<open>shim_address\<close> puts behind that symbol, and what decides where the call goes.
\<close>

section \<open>The hooked interface\<close>

datatype (plugins only: code) wcall =
    CreateFileW "wide option" nat nat nat nat nat nat
  | CreateFileA "string option" nat nat nat nat nat nat
  | CreateFile2 "wide option" nat nat nat nat
  | ReadFile nat nat nat nat nat
  | ReadFileEx nat nat nat nat nat
  | WriteFile nat nat nat nat nat
  | WriteFileEx nat nat nat nat nat
  | SetFilePointer nat int nat nat
  | SetFilePointerEx nat int nat nat
  | GetFileSize nat nat
  | GetFileSizeEx nat nat
  | GetFileType nat
  | GetFileInformationByHandle nat nat
  | GetFileInformationByHandleEx nat int nat nat
  | FlushFileBuffers nat
  | SetEndOfFile nat
  | CloseHandle nat
  | FindFirstFileExW "wide option" int nat int nat nat
  | FindFirstFileW "wide option" nat
  | FindNextFileW nat nat
  | FindClose nat
  | GetFileAttributesW "wide option"
  | GetFileAttributesExW "wide option" int nat
  | GetFullPathNameW "wide option" nat nat nat
  | GetFullPathNameA "string option" nat nat nat
  | GetCurrentDirectoryW nat nat
  | DeleteFileW "wide option"
  | MoveFileExW "wide option" "wide option" nat
  | GetDiskFreeSpaceA "string option" nat nat nat nat
  | GetDriveTypeW "wide option"
  | CreateDirectoryW "wide option" nat
  | LoadLibraryExW "wide option" nat nat
  | LoadLibraryA "string option"

text \<open>The symbol and the arguments of a call, in the order of its signature.\<close>

primrec call_sym :: "wcall \<Rightarrow> windows_sym" where
  "call_sym (CreateFileW _ _ _ _ _ _ _) = W_CreateFileW"
| "call_sym (CreateFileA _ _ _ _ _ _ _) = W_CreateFileA"
| "call_sym (CreateFile2 _ _ _ _ _) = W_CreateFile2"
| "call_sym (ReadFile _ _ _ _ _) = W_ReadFile"
| "call_sym (ReadFileEx _ _ _ _ _) = W_ReadFileEx"
| "call_sym (WriteFile _ _ _ _ _) = W_WriteFile"
| "call_sym (WriteFileEx _ _ _ _ _) = W_WriteFileEx"
| "call_sym (SetFilePointer _ _ _ _) = W_SetFilePointer"
| "call_sym (SetFilePointerEx _ _ _ _) = W_SetFilePointerEx"
| "call_sym (GetFileSize _ _) = W_GetFileSize"
| "call_sym (GetFileSizeEx _ _) = W_GetFileSizeEx"
| "call_sym (GetFileType _) = W_GetFileType"
| "call_sym (GetFileInformationByHandle _ _) = W_GetFileInformationByHandle"
| "call_sym (GetFileInformationByHandleEx _ _ _ _) = W_GetFileInformationByHandleEx"
| "call_sym (FlushFileBuffers _) = W_FlushFileBuffers"
| "call_sym (SetEndOfFile _) = W_SetEndOfFile"
| "call_sym (CloseHandle _) = W_CloseHandle"
| "call_sym (FindFirstFileExW _ _ _ _ _ _) = W_FindFirstFileExW"
| "call_sym (FindFirstFileW _ _) = W_FindFirstFileW"
| "call_sym (FindNextFileW _ _) = W_FindNextFileW"
| "call_sym (FindClose _) = W_FindClose"
| "call_sym (GetFileAttributesW _) = W_GetFileAttributesW"
| "call_sym (GetFileAttributesExW _ _ _) = W_GetFileAttributesExW"
| "call_sym (GetFullPathNameW _ _ _ _) = W_GetFullPathNameW"
| "call_sym (GetFullPathNameA _ _ _ _) = W_GetFullPathNameA"
| "call_sym (GetCurrentDirectoryW _ _) = W_GetCurrentDirectoryW"
| "call_sym (DeleteFileW _) = W_DeleteFileW"
| "call_sym (MoveFileExW _ _ _) = W_MoveFileExW"
| "call_sym (GetDiskFreeSpaceA _ _ _ _ _) = W_GetDiskFreeSpaceA"
| "call_sym (GetDriveTypeW _) = W_GetDriveTypeW"
| "call_sym (CreateDirectoryW _ _) = W_CreateDirectoryW"
| "call_sym (LoadLibraryExW _ _ _) = W_LoadLibraryExW"
| "call_sym (LoadLibraryA _) = W_LoadLibraryA"

primrec call_args :: "wcall \<Rightarrow> warg list" where
  "call_args (CreateFileW name access share sec disp flags templ) =
     [WWide name, WInt (int access), WInt (int share), WPtr sec, WInt (int disp), WInt (int flags), WPtr templ]"
| "call_args (CreateFileA name access share sec disp flags templ) =
     [WAnsi name, WInt (int access), WInt (int share), WPtr sec, WInt (int disp), WInt (int flags), WPtr templ]"
| "call_args (CreateFile2 name access share disp params) =
     [WWide name, WInt (int access), WInt (int share), WInt (int disp), WPtr params]"
| "call_args (ReadFile h buf n nread ov) = [WPtr h, WPtr buf, WInt (int n), WPtr nread, WPtr ov]"
| "call_args (ReadFileEx h buf n ov routine) = [WPtr h, WPtr buf, WInt (int n), WPtr ov, WPtr routine]"
| "call_args (WriteFile h buf n nwritten ov) = [WPtr h, WPtr buf, WInt (int n), WPtr nwritten, WPtr ov]"
| "call_args (WriteFileEx h buf n ov routine) = [WPtr h, WPtr buf, WInt (int n), WPtr ov, WPtr routine]"
| "call_args (SetFilePointer h dist high meth) = [WPtr h, WInt dist, WPtr high, WInt (int meth)]"
| "call_args (SetFilePointerEx h dist newp meth) = [WPtr h, WInt dist, WPtr newp, WInt (int meth)]"
| "call_args (GetFileSize h high) = [WPtr h, WPtr high]"
| "call_args (GetFileSizeEx h out) = [WPtr h, WPtr out]"
| "call_args (GetFileType h) = [WPtr h]"
| "call_args (GetFileInformationByHandle h out) = [WPtr h, WPtr out]"
| "call_args (GetFileInformationByHandleEx h cls out len) = [WPtr h, WInt cls, WPtr out, WInt (int len)]"
| "call_args (FlushFileBuffers h) = [WPtr h]"
| "call_args (SetEndOfFile h) = [WPtr h]"
| "call_args (CloseHandle h) = [WPtr h]"
| "call_args (FindFirstFileExW name level out sop sfilter flags) =
     [WWide name, WInt level, WPtr out, WInt sop, WPtr sfilter, WInt (int flags)]"
| "call_args (FindFirstFileW name out) = [WWide name, WPtr out]"
| "call_args (FindNextFileW h out) = [WPtr h, WPtr out]"
| "call_args (FindClose h) = [WPtr h]"
| "call_args (GetFileAttributesW name) = [WWide name]"
| "call_args (GetFileAttributesExW name level out) = [WWide name, WInt level, WPtr out]"
| "call_args (GetFullPathNameW name len buf part) = [WWide name, WInt (int len), WPtr buf, WPtr part]"
| "call_args (GetFullPathNameA name len buf part) = [WAnsi name, WInt (int len), WPtr buf, WPtr part]"
| "call_args (GetCurrentDirectoryW len buf) = [WInt (int len), WPtr buf]"
| "call_args (DeleteFileW name) = [WWide name]"
| "call_args (MoveFileExW from to flags) = [WWide from, WWide to, WInt (int flags)]"
| "call_args (GetDiskFreeSpaceA root spc bps free tot) = [WAnsi root, WPtr spc, WPtr bps, WPtr free, WPtr tot]"
| "call_args (GetDriveTypeW root) = [WWide root]"
| "call_args (CreateDirectoryW name sec) = [WWide name, WPtr sec]"
| "call_args (LoadLibraryExW name h flags) = [WWide name, WPtr h, WInt (int flags)]"
| "call_args (LoadLibraryA name) = [WAnsi name]"

text \<open>The shim behind each symbol.  \<open>uni\<close> is the Unicode case table, \<open>run\<close> executes the rescan callback,
  \<open>scratch\<close> addresses a local of the search shims.\<close>

primrec win_call ::
  "('v, 'h) vfs_ops \<Rightarrow> 'w winapi \<Rightarrow> (nat \<Rightarrow> nat list) \<Rightarrow>
     ('c \<Rightarrow> ('v, 'h, 'c, 'w) wthread \<Rightarrow> ('v, 'h, 'c, 'w) wthread) \<Rightarrow> nat \<Rightarrow> wcall \<Rightarrow> ('v, 'h, 'c, 'w) wact" where
  "win_call ops wa uni run scratch (CreateFileW name access share sec disp flags templ) =
     shim_CreateFileW ops wa name access share sec disp flags templ"
| "win_call ops wa uni run scratch (CreateFileA name access share sec disp flags templ) =
     shim_CreateFileA ops wa name access share sec disp flags templ"
| "win_call ops wa uni run scratch (CreateFile2 name access share disp params) =
     shim_CreateFile2 ops wa name access share disp params"
| "win_call ops wa uni run scratch (ReadFile h buf n nread ov) = shim_ReadFile ops wa h buf n nread ov"
| "win_call ops wa uni run scratch (ReadFileEx h buf n ov routine) = shim_ReadFileEx wa h buf n ov routine"
| "win_call ops wa uni run scratch (WriteFile h buf n nwritten ov) = shim_WriteFile ops wa h buf n nwritten ov"
| "win_call ops wa uni run scratch (WriteFileEx h buf n ov routine) = shim_WriteFileEx wa h buf n ov routine"
| "win_call ops wa uni run scratch (SetFilePointer h dist high meth) = shim_SetFilePointer ops wa h dist high meth"
| "win_call ops wa uni run scratch (SetFilePointerEx h dist newp meth) = shim_SetFilePointerEx ops wa h dist newp meth"
| "win_call ops wa uni run scratch (GetFileSize h high) = shim_GetFileSize ops wa h high"
| "win_call ops wa uni run scratch (GetFileSizeEx h out) = shim_GetFileSizeEx ops wa h out"
| "win_call ops wa uni run scratch (GetFileType h) = shim_GetFileType wa h"
| "win_call ops wa uni run scratch (GetFileInformationByHandle h out) = shim_GetFileInformationByHandle ops wa uni h out"
| "win_call ops wa uni run scratch (GetFileInformationByHandleEx h cls out len) =
     shim_GetFileInformationByHandleEx ops wa h cls out len"
| "win_call ops wa uni run scratch (FlushFileBuffers h) = shim_FlushFileBuffers ops wa h"
| "win_call ops wa uni run scratch (SetEndOfFile h) = shim_SetEndOfFile ops wa h"
| "win_call ops wa uni run scratch (CloseHandle h) = shim_CloseHandle ops wa h"
| "win_call ops wa uni run scratch (FindFirstFileExW name level out sop sfilter flags) =
     shim_FindFirstFileExW ops wa uni scratch name level out sop sfilter flags"
| "win_call ops wa uni run scratch (FindFirstFileW name out) = shim_FindFirstFileW ops wa uni scratch name out"
| "win_call ops wa uni run scratch (FindNextFileW h out) = shim_FindNextFileW wa h out"
| "win_call ops wa uni run scratch (FindClose h) = shim_FindClose wa h"
| "win_call ops wa uni run scratch (GetFileAttributesW name) = shim_GetFileAttributesW ops wa name"
| "win_call ops wa uni run scratch (GetFileAttributesExW name level out) = shim_GetFileAttributesExW ops wa name level out"
| "win_call ops wa uni run scratch (GetFullPathNameW name len buf part) = shim_GetFullPathNameW wa name len buf part"
| "win_call ops wa uni run scratch (GetFullPathNameA name len buf part) = shim_GetFullPathNameA wa name len buf part"
| "win_call ops wa uni run scratch (GetCurrentDirectoryW len buf) = shim_GetCurrentDirectoryW wa len buf"
| "win_call ops wa uni run scratch (DeleteFileW name) = shim_DeleteFileW ops wa name"
| "win_call ops wa uni run scratch (MoveFileExW from to flags) = shim_MoveFileExW ops wa from to flags"
| "win_call ops wa uni run scratch (GetDiskFreeSpaceA root spc bps free tot) =
     shim_GetDiskFreeSpaceA ops wa root spc bps free tot"
| "win_call ops wa uni run scratch (GetDriveTypeW root) = shim_GetDriveTypeW wa root"
| "win_call ops wa uni run scratch (CreateDirectoryW name sec) = shim_CreateDirectoryW ops wa name sec"
| "win_call ops wa uni run scratch (LoadLibraryExW name h flags) = shim_LoadLibraryExW wa run name h flags"
| "win_call ops wa uni run scratch (LoadLibraryA name) = shim_LoadLibraryA wa run name"

text \<open>What decides where a call goes: a decoded path (a rejected one is refused, or passed on by the volume
  queries), an open handle, a search handle, or the working directory.\<close>

datatype target = OnPath "string option" | OnVolume "string option" | OnFile nat | OnFind nat | OnCwd | OnLoader

primrec call_target :: "wcall \<Rightarrow> target" where
  "call_target (CreateFileW name _ _ _ _ _ _) = OnPath (wide_name name)"
| "call_target (CreateFileA name _ _ _ _ _ _) = OnPath (decode_ansi name)"
| "call_target (CreateFile2 name _ _ _ _) = OnPath (wide_name name)"
| "call_target (ReadFile h _ _ _ _) = OnFile h"
| "call_target (ReadFileEx h _ _ _ _) = OnFile h"
| "call_target (WriteFile h _ _ _ _) = OnFile h"
| "call_target (WriteFileEx h _ _ _ _) = OnFile h"
| "call_target (SetFilePointer h _ _ _) = OnFile h"
| "call_target (SetFilePointerEx h _ _ _) = OnFile h"
| "call_target (GetFileSize h _) = OnFile h"
| "call_target (GetFileSizeEx h _) = OnFile h"
| "call_target (GetFileType h) = OnFile h"
| "call_target (GetFileInformationByHandle h _) = OnFile h"
| "call_target (GetFileInformationByHandleEx h _ _ _) = OnFile h"
| "call_target (FlushFileBuffers h) = OnFile h"
| "call_target (SetEndOfFile h) = OnFile h"
| "call_target (CloseHandle h) = OnFile h"
| "call_target (FindFirstFileExW name _ _ _ _ _) = OnPath (wide_name name)"
| "call_target (FindFirstFileW name _) = OnPath (wide_name name)"
| "call_target (FindNextFileW h _) = OnFind h"
| "call_target (FindClose h) = OnFind h"
| "call_target (GetFileAttributesW name) = OnPath (wide_name name)"
| "call_target (GetFileAttributesExW name _ _) = OnPath (wide_name name)"
| "call_target (GetFullPathNameW name _ _ _) = OnPath (wide_name name)"
| "call_target (GetFullPathNameA name _ _ _) = OnPath (decode_ansi name)"
| "call_target (GetCurrentDirectoryW _ _) = OnCwd"
| "call_target (DeleteFileW name) = OnPath (wide_name name)"
| "call_target (MoveFileExW from _ _) = OnPath (wide_name from)"
| "call_target (GetDiskFreeSpaceA root _ _ _ _) = OnVolume (decode_ansi root)"
| "call_target (GetDriveTypeW root) = OnVolume (wide_name root)"
| "call_target (CreateDirectoryW name _) = OnPath (wide_name name)"
| "call_target (LoadLibraryExW _ _ _) = OnLoader"
| "call_target (LoadLibraryA _) = OnLoader"

definition routed :: "string option \<Rightarrow> ('v, 'h, 'c, 'w) wthread \<Rightarrow> route" where
  "routed name t =
     (case name of None \<Rightarrow> Real | Some d \<Rightarrow> (case win_route d t of None \<Rightarrow> Real | Some (_, r) \<Rightarrow> r))"

definition concerns :: "('v, 'h, 'c, 'w) wthread \<Rightarrow> target \<Rightarrow> bool" where
  "concerns t g =
     (case g of
        OnPath name \<Rightarrow> routed name t \<noteq> Real
      | OnVolume name \<Rightarrow> routed name t \<noteq> Real \<and> routed name t \<noteq> Rejected
      | OnFile h \<Rightarrow> (case current_engine (wt_disp t) of None \<Rightarrow> False | Some e \<Rightarrow> get_file (eng_registry e) h \<noteq> None)
      | OnFind h \<Rightarrow> (case current_engine (wt_disp t) of None \<Rightarrow> False | Some e \<Rightarrow> get_find (eng_registry e) h \<noteq> None)
      | OnCwd \<Rightarrow> (case current_engine (wt_disp t) of None \<Rightarrow> False | Some e \<Rightarrow> virtual_cwd e \<noteq> None)
      | OnLoader \<Rightarrow> False)"

end
