(* ===== verification/Win_Shims.thy ===== *)
theory Win_Shims
  imports Win_Calls
begin

text \<open>
  What the Windows shims guarantee.  A call of the hooked interface is a value of the type \<open>wcall\<close>, so
  that a statement about all shims is one statement: calls that do not concern the virtual tree are the
  original calls, calls that do reach the operating system only through their carrier, a read-only
  installation refuses every change, a search delivers the matching entries once and in order, and
  buffers are never overrun.
\<close>

lemmas file_shim_defs =
  shim_ReadFile_def shim_ReadFileEx_def shim_WriteFile_def shim_WriteFileEx_def shim_SetFilePointer_def
  shim_SetFilePointerEx_def shim_GetFileSize_def shim_GetFileSizeEx_def shim_GetFileType_def
  shim_GetFileInformationByHandle_def shim_GetFileInformationByHandleEx_def shim_FlushFileBuffers_def
  shim_SetEndOfFile_def

lemmas path_shim_defs =
  shim_CreateFileW_def shim_CreateFileA_def shim_CreateFile2_def shim_FindFirstFileExW_def shim_FindFirstFileW_def
  shim_GetFileAttributesW_def shim_GetFileAttributesExW_def shim_GetFullPathNameW_def shim_GetFullPathNameA_def
  shim_DeleteFileW_def shim_MoveFileExW_def shim_CreateDirectoryW_def shim_GetDiskFreeSpaceA_def shim_GetDriveTypeW_def

section \<open>Routing\<close>

named_theorems win_routing

lemma win_shim_eq [simp]: "win_shim fallback body t = body t"
  by (simp add: win_shim_def guard_abi_def case_prod_beta)

lemma win_hooked_simps:
  "wt_in_hook t \<Longrightarrow> win_hooked pass body t = pass t"
  "\<not> wt_in_hook t \<Longrightarrow> win_hooked pass body t =
     (fst (body (t\<lparr>wt_in_hook := True\<rparr>)), (snd (body (t\<lparr>wt_in_hook := True\<rparr>)))\<lparr>wt_in_hook := False\<rparr>)"
  by (simp_all add: win_hooked_def hook_enter_def hook_leave_def case_prod_beta)

lemma win_hooked_pass:
  assumes "\<not> wt_in_hook t \<Longrightarrow> body (t\<lparr>wt_in_hook := True\<rparr>) = win_orig wa s args (t\<lparr>wt_in_hook := True\<rparr>)"
  shows "win_hooked (win_orig wa s args) body t = win_orig wa s args t"
proof (cases "wt_in_hook t")
  case False
  obtain r m where o: "wa_orig wa s args (wt_mach t) = (r, m)" by fastforce
  have "(t\<lparr>wt_in_hook := True, wt_mach := m\<rparr>)\<lparr>wt_in_hook := False\<rparr> = t\<lparr>wt_mach := m\<rparr>" using False by (cases t) simp
  then show ?thesis using False assms by (simp add: win_hooked_simps win_orig_def o)
qed (simp add: win_hooked_simps)

lemma win_route_flag [simp]: "win_route d (t\<lparr>wt_in_hook := b\<rparr>) = win_route d t"
  by (simp add: win_route_def)

lemma win_path_pass [win_routing]:
  "wt_in_hook t \<or> routed name t = Real \<Longrightarrow>
     win_path_routed (win_orig wa s args) name reject serve t = win_orig wa s args t"
  unfolding win_path_routed_def
  by (rule win_hooked_pass) (auto simp: routed_def split: option.splits route.splits)

lemma win_volume_pass [win_routing]:
  "wt_in_hook t \<or> routed name t = Real \<or> routed name t = Rejected \<Longrightarrow>
     win_path_routed (win_orig wa s args) name (win_orig wa s args) serve t = win_orig wa s args t"
  unfolding win_path_routed_def
  by (rule win_hooked_pass) (auto simp: routed_def split: option.splits route.splits)

lemma win_engine_pass:
  assumes "wt_in_hook t \<or> (\<forall>e. current_engine (wt_disp t) = Some e \<longrightarrow>
    serve e (t\<lparr>wt_in_hook := True\<rparr>) = win_orig wa s args (t\<lparr>wt_in_hook := True\<rparr>))"
  shows "win_engine_routed (win_orig wa s args) serve t = win_orig wa s args t"
  unfolding win_engine_routed_def by (rule win_hooked_pass) (use assms in \<open>auto split: option.splits\<close>)

lemma win_handle_pass [win_routing]:
  "wt_in_hook t \<or> \<not> concerns t (OnFile h) \<Longrightarrow>
     win_handle_routed (win_orig wa s args) h serve t = win_orig wa s args t"
  unfolding win_handle_routed_def by (rule win_engine_pass) (auto simp: concerns_def)

lemma win_close_pass [win_routing]:
  "wt_in_hook t \<or> \<not> concerns t (OnFile h) \<Longrightarrow> shim_CloseHandle ops wa h t = win_orig wa W_CloseHandle [WPtr h] t"
  unfolding shim_CloseHandle_def win_shim_eq
  by (rule win_engine_pass) (auto simp: concerns_def get_file_def remove_file_def)

lemma win_find_pass [win_routing]:
  "wt_in_hook t \<or> \<not> concerns t (OnFind h) \<Longrightarrow> shim_FindNextFileW wa h out t = win_orig wa W_FindNextFileW [WPtr h, WPtr out] t"
  "wt_in_hook t \<or> \<not> concerns t (OnFind h) \<Longrightarrow> shim_FindClose wa h t = win_orig wa W_FindClose [WPtr h] t"
  unfolding shim_FindNextFileW_def shim_FindClose_def win_shim_eq
  by (rule win_engine_pass, auto simp: concerns_def get_find_def remove_find_def)+

lemma win_cwd_pass [win_routing]:
  "wt_in_hook t \<or> \<not> concerns t OnCwd \<Longrightarrow>
     shim_GetCurrentDirectoryW wa len buf t = win_orig wa W_GetCurrentDirectoryW [WInt (int len), WPtr buf] t"
  unfolding shim_GetCurrentDirectoryW_def win_shim_eq
  by (rule win_engine_pass) (auto simp: concerns_def)


section \<open>Calls that stay inside\<close>

text \<open>The part of the machine that belongs to the operating system.\<close>

abbreviation wworld :: "('v, 'h, 'c, 'w) wthread \<Rightarrow> 'w" where
  "wworld t \<equiv> wm_world (wt_mach t)"

lemma wworld_simps [simp]:
  "wworld (set_err c t) = wworld t" "wworld (win_put_engine e t) = wworld t" "wworld (win_put_vfs e v t) = wworld t"
  "wworld (win_put_stream e h file st v t) = wworld t" "wworld (win_store p bs t) = wworld t"
  "wworld (store_opt p bs t) = wworld t" "wworld (win_struct p c' t) = wworld t" "wworld (fill_find_data p x t) = wworld t"
  by (simp_all add: set_err_def win_put_engine_def win_put_vfs_def win_put_stream_def win_store_def store_opt_def
      win_struct_def fill_find_data_def)

lemma wworld_finish [simp]: "wworld (snd (finish c r t)) = wworld t"
  by (simp add: finish_def)

lemma wworld_result [simp]: "wworld (snd (mutation_result res t)) = wworld t"
  by (cases res) (simp_all add: mutation_result_def)

lemma wworld_full_path [simp]: "wworld (snd (write_full_path_w p buf len part t)) = wworld t"
  by (simp add: write_full_path_w_def Let_def)

lemma mach_put [simp]: "wt_mach (win_put_engine e t) = wt_mach t" "wt_mach (win_put_vfs e v t) = wt_mach t"
  by (simp_all add: win_put_engine_def win_put_vfs_def)

lemma win_orig_mach: "wt_mach (snd (win_orig wa s args t)) = snd (wa_orig wa s args (wt_mach t))"
  by (simp add: win_orig_def case_prod_beta)

text \<open>What a routed call does is what its server, or the refusal, does to a thread with the same machine.\<close>

lemma win_path_inside:
  assumes "\<not> wt_in_hook t" "routed name t \<noteq> Real"
    and "\<And>t'. routed name t = Rejected \<Longrightarrow> wt_mach t' = wt_mach t \<Longrightarrow> P (wt_mach (snd (reject t')))"
    and "\<And>e p t'. wt_mach t' = wt_mach t \<Longrightarrow> P (wt_mach (snd (serve e p t')))"
  shows "P (wt_mach (snd (win_path_routed pass name reject serve t)))"
proof -
  obtain d e r where d: "name = Some d" "win_route d t = Some (e, r)" "r \<noteq> Real"
    using assms(2) by (auto simp: routed_def split: option.splits)
  have "routed name t = r" using d by (simp add: routed_def)
  then show ?thesis
    using assms(1) d assms(3) [of "t\<lparr>wt_in_hook := True\<rparr>"] assms(4) [of "t\<lparr>wt_in_hook := True\<rparr>" e]
    by (cases r) (simp_all add: win_path_routed_def win_hooked_simps)
qed

lemma win_engine_inside:
  assumes "\<not> wt_in_hook t" "current_engine (wt_disp t) = Some e"
    and "\<And>t'. wt_mach t' = wt_mach t \<Longrightarrow> P (wt_mach (snd (serve e t')))"
  shows "P (wt_mach (snd (win_engine_routed pass serve t)))"
  using assms(1,2) assms(3) [of "t\<lparr>wt_in_hook := True\<rparr>"] by (simp add: win_engine_routed_def win_hooked_simps)

lemma win_handle_inside:
  assumes "\<not> wt_in_hook t" "concerns t (OnFile h)"
    and "\<And>e f t'. wt_mach t' = wt_mach t \<Longrightarrow> P (wt_mach (snd (serve e f t')))"
  shows "P (wt_mach (snd (win_handle_routed pass h serve t)))"
proof -
  obtain e f where e: "current_engine (wt_disp t) = Some e" "get_file (eng_registry e) h = Some f"
    using assms(2) by (auto simp: concerns_def split: option.splits)
  show ?thesis unfolding win_handle_routed_def
    by (rule win_engine_inside [OF assms(1) e(1)]) (use e(2) assms(3) in simp)
qed

text \<open>The calls a shim makes on its own behalf: opening and closing its carrier.\<close>

definition carrier_args :: "warg list" where
  "carrier_args = [WWide (Some (encode_utf16 ''NUL'' @ [0])), WInt 0x80000000, WInt 3, WPtr 0, WInt 3, WInt 0, WPtr 0]"

definition carrier_find_args :: "'w winapi \<Rightarrow> nat \<Rightarrow> 'w wmachine \<Rightarrow> warg list" where
  "carrier_find_args wa scratch m =
     (case wa_windows_dir wa m of
        (len, units) \<Rightarrow>
          [WWide (Some (take len (units @ replicate (260 - length units) 0) @ encode_utf16 [BSL, CHR ''*''] @ [0])),
           WInt 0, WPtr scratch, WInt 0, WPtr 0, WInt 0])"

definition own_calls :: "'w winapi \<Rightarrow> nat \<Rightarrow> wcall \<Rightarrow> 'w wmachine \<Rightarrow> (windows_sym \<times> warg list) list" where
  "own_calls wa scratch c m =
     (if call_sym c \<in> {W_CreateFileW, W_CreateFileA, W_CreateFile2} then [(W_CreateFileW, carrier_args)]
      else if call_sym c \<in> {W_FindFirstFileW, W_FindFirstFileExW}
        then [(W_FindFirstFileExW, carrier_find_args wa scratch m)]
      else if call_sym c \<in> {W_CloseHandle, W_FindClose} then [(call_sym c, call_args c)]
      else [])"

lemma open_virtual_world:
  assumes "wt_mach t' = wt_mach t"
  shows "wworld (snd (win_open_virtual ops wa access disp flags e p t')) = wworld t
    \<or> wworld (snd (win_open_virtual ops wa access disp flags e p t')) = wm_world (snd (wa_orig wa W_CreateFileW carrier_args (wt_mach t)))"
  using assms
  by (auto simp: win_open_virtual_def Let_def carrier_open_def win_orig_def carrier_args_def split: prod.splits option.splits sum.splits)

lemma find_first_world:
  assumes "wt_mach t' = wt_mach t"
  shows "wworld (snd (find_first_virtual ops wa uni scratch out e p t')) = wworld t
    \<or> wworld (snd (find_first_virtual ops wa uni scratch out e p t')) =
        wm_world (snd (wa_orig wa W_FindFirstFileExW (carrier_find_args wa scratch (wt_mach t)) (wt_mach t)))"
  using assms
  by (auto simp: find_first_virtual_def Let_def carrier_find_def win_orig_def carrier_find_args_def split: prod.splits list.splits option.splits)

lemma win_file_inside:
  assumes "\<not> wt_in_hook t" "concerns t (call_target c)" "call_target c = OnFile h" "call_sym c \<noteq> W_CloseHandle"
  shows "wworld (snd (win_call ops wa uni run scratch c t)) = wworld t"
proof -
  note H = win_handle_inside [where P = "\<lambda>m. wm_world m = wworld t" and h = h, OF assms(1) assms(2) [unfolded assms(3)]]
  show ?thesis
    using assms(3,4)
    by (cases c) (auto simp: file_shim_defs Let_def intro!: H split: prod.splits sum.splits option.splits if_splits)
qed

lemma win_close_inside:
  assumes "\<not> wt_in_hook t" "concerns t (OnFile h)"
  shows "wworld (snd (shim_CloseHandle ops wa h t)) = wm_world (snd (wa_orig wa W_CloseHandle [WPtr h] (wt_mach t)))"
proof -
  obtain e f where e: "current_engine (wt_disp t) = Some e" "get_file (eng_registry e) h = Some f"
    using assms(2) by (auto simp: concerns_def split: option.splits)
  show ?thesis
    unfolding shim_CloseHandle_def win_shim_eq
    by (rule win_engine_inside [OF assms(1) e(1)])
       (use e(2) in \<open>auto simp: remove_file_def get_file_def win_orig_def finish_def split: prod.splits\<close>)
qed

lemma win_find_inside:
  assumes "\<not> wt_in_hook t" "concerns t (OnFind h)"
  shows "wworld (snd (shim_FindNextFileW wa h out t)) = wworld t"
    and "wworld (snd (shim_FindClose wa h t)) = wm_world (snd (wa_orig wa W_FindClose [WPtr h] (wt_mach t)))"
proof -
  obtain e st where e: "current_engine (wt_disp t) = Some e" "get_find (eng_registry e) h = Some st"
    using assms(2) by (auto simp: concerns_def split: option.splits)
  show "wworld (snd (shim_FindNextFileW wa h out t)) = wworld t"
    unfolding shim_FindNextFileW_def win_shim_eq
    by (rule win_engine_inside [OF assms(1) e(1)]) (use e(2) in \<open>auto simp: Let_def\<close>)
  show "wworld (snd (shim_FindClose wa h t)) = wm_world (snd (wa_orig wa W_FindClose [WPtr h] (wt_mach t)))"
    unfolding shim_FindClose_def win_shim_eq
    by (rule win_engine_inside [OF assms(1) e(1)])
       (use e(2) in \<open>auto simp: remove_find_def get_find_def win_orig_def finish_def split: prod.splits\<close>)
qed

lemma win_cwd_inside:
  assumes "\<not> wt_in_hook t" "concerns t OnCwd"
  shows "wworld (snd (shim_GetCurrentDirectoryW wa len buf t)) = wworld t"
proof -
  obtain e where e: "current_engine (wt_disp t) = Some e" "virtual_cwd e \<noteq> None"
    using assms(2) by (auto simp: concerns_def split: option.splits)
  show ?thesis
    unfolding shim_GetCurrentDirectoryW_def win_shim_eq
    by (rule win_engine_inside [OF assms(1) e(1)]) (use e(2) in auto)
qed

lemma win_query_inside:
  assumes "\<not> wt_in_hook t" "concerns t (call_target c)" "call_target c = OnPath name \<or> call_target c = OnVolume name"
    and "call_sym c \<notin> {W_CreateFileW, W_CreateFileA, W_CreateFile2, W_FindFirstFileW, W_FindFirstFileExW}"
  shows "wworld (snd (win_call ops wa uni run scratch c t)) = wworld t"
proof -
  have r: "routed name t \<noteq> Real" using assms(2,3) by (auto simp: concerns_def)
  have v: "call_target c = OnVolume name \<Longrightarrow> routed name t \<noteq> Rejected" using assms(2) by (auto simp: concerns_def)
  note H = win_path_inside [where P = "\<lambda>m. wm_world m = wworld t" and name = name, OF assms(1) r]
  show ?thesis
    using assms(3,4) v
    by (cases c; simp add: path_shim_defs Let_def)
       (rule H; auto split: prod.splits sum.splits option.splits route.splits if_splits)+
qed

lemma win_open_inside:
  assumes "\<not> wt_in_hook t" "concerns t (call_target c)" "call_sym c \<in> {W_CreateFileW, W_CreateFileA, W_CreateFile2}"
  shows "wworld (snd (win_call ops wa uni run scratch c t)) = wworld t
    \<or> wworld (snd (win_call ops wa uni run scratch c t)) = wm_world (snd (wa_orig wa W_CreateFileW carrier_args (wt_mach t)))"
proof -
  let ?P = "\<lambda>m. wm_world m = wworld t \<or> wm_world m = wm_world (snd (wa_orig wa W_CreateFileW carrier_args (wt_mach t)))"
  obtain name where n: "call_target c = OnPath name" using assms(3) by (cases c) auto
  have r: "routed name t \<noteq> Real" using assms(2) n by (simp add: concerns_def)
  note H = win_path_inside [where P = ?P and name = name, OF assms(1) r]
  show ?thesis
    using assms(3) n by (cases c; simp add: path_shim_defs) (rule H; simp add: open_virtual_world)+
qed

lemma win_search_inside:
  assumes "\<not> wt_in_hook t" "concerns t (call_target c)" "call_sym c \<in> {W_FindFirstFileW, W_FindFirstFileExW}"
  shows "wworld (snd (win_call ops wa uni run scratch c t)) = wworld t
    \<or> wworld (snd (win_call ops wa uni run scratch c t)) =
        wm_world (snd (wa_orig wa W_FindFirstFileExW (carrier_find_args wa scratch (wt_mach t)) (wt_mach t)))"
proof -
  let ?P = "\<lambda>m. wm_world m = wworld t \<or> wm_world m = wm_world (snd (wa_orig wa W_FindFirstFileExW (carrier_find_args wa scratch (wt_mach t)) (wt_mach t)))"
  obtain name where n: "call_target c = OnPath name" using assms(3) by (cases c) auto
  have r: "routed name t \<noteq> Real" using assms(2) n by (simp add: concerns_def)
  note H = win_path_inside [where P = ?P and name = name, OF assms(1) r]
  show ?thesis
    using assms(3) n by (cases c; simp add: path_shim_defs) (rule H; simp add: find_first_world)+
qed


section \<open>Refusals\<close>

lemma win_flag_roundtrip: "\<not> wt_in_hook t \<Longrightarrow> (set_err c (t\<lparr>wt_in_hook := True\<rparr>))\<lparr>wt_in_hook := False\<rparr> = set_err c t"
  by (cases t) (simp add: set_err_def)

lemma win_path_serve:
  assumes "\<not> wt_in_hook t" "current_engine (wt_disp t) = Some e" "win_classify e d = Virtual p"
  shows "win_path_routed pass (Some d) reject serve t =
    (fst (serve e p (t\<lparr>wt_in_hook := True\<rparr>)), (snd (serve e p (t\<lparr>wt_in_hook := True\<rparr>)))\<lparr>wt_in_hook := False\<rparr>)"
  using assms by (simp add: win_path_routed_def win_hooked_simps win_route_def)

lemma win_handle_serve:
  assumes "\<not> wt_in_hook t" "current_engine (wt_disp t) = Some e" "get_file (eng_registry e) h = Some f"
  shows "win_handle_routed pass h serve t =
    (fst (serve e f (t\<lparr>wt_in_hook := True\<rparr>)), (snd (serve e f (t\<lparr>wt_in_hook := True\<rparr>)))\<lparr>wt_in_hook := False\<rparr>)"
  using assms by (simp add: win_handle_routed_def win_engine_routed_def win_hooked_simps)

text \<open>The calls that ask for a change, by path and by handle, and the value with which they fail.\<close>

definition changes_tree :: "wcall \<Rightarrow> bool" where
  "changes_tree c \<longleftrightarrow>
     (case c of
        CreateFileW _ access _ _ _ _ _ \<Rightarrow> access AND WRITE_ACCESS_MASK \<noteq> 0
      | CreateFileA _ access _ _ _ _ _ \<Rightarrow> access AND WRITE_ACCESS_MASK \<noteq> 0
      | CreateFile2 _ access _ _ _ \<Rightarrow> access AND WRITE_ACCESS_MASK \<noteq> 0
      | DeleteFileW _ \<Rightarrow> True
      | MoveFileExW _ _ _ \<Rightarrow> True
      | CreateDirectoryW _ _ \<Rightarrow> True
      | _ \<Rightarrow> False)"

definition failure_value :: "wcall \<Rightarrow> int" where
  "failure_value c =
     (if call_sym c \<in> {W_CreateFileW, W_CreateFileA, W_CreateFile2} then INVALID_HANDLE_VALUE else 0)"

lemma win_open_write_refused:
  "access AND WRITE_ACCESS_MASK \<noteq> 0 \<Longrightarrow> \<not> eng_allow_writes e \<Longrightarrow>
     win_open_virtual ops wa access disp flags e p = finish ERROR_ACCESS_DENIED INVALID_HANDLE_VALUE"
  by (rule ext) (simp add: win_open_virtual_def win_open_options_def Let_def)


section \<open>Memory\<close>

text \<open>The memory a call may write: the regions its output pointers address.\<close>

definition out_regions :: "wcall \<Rightarrow> (nat \<times> nat) list" where
  "out_regions c =
     (case c of
        ReadFile _ buf n nread _ \<Rightarrow> [(buf, n), (nread, 4)]
      | WriteFile _ _ _ nwritten _ \<Rightarrow> [(nwritten, 4)]
      | SetFilePointer _ _ high _ \<Rightarrow> [(high, 4)]
      | SetFilePointerEx _ _ newp _ \<Rightarrow> [(newp, 8)]
      | GetFileSize _ high \<Rightarrow> [(high, 4)]
      | GetFileSizeEx _ out \<Rightarrow> [(out, 8)]
      | GetFullPathNameW _ len buf part \<Rightarrow> [(buf, 2 * len), (part, 8)]
      | GetFullPathNameA _ len buf part \<Rightarrow> [(buf, len), (part, 8)]
      | GetCurrentDirectoryW len buf \<Rightarrow> [(buf, 2 * len)]
      | GetDiskFreeSpaceA _ spc bps free tot \<Rightarrow> [(spc, 4), (bps, 4), (free, 4), (tot, 4)]
      | _ \<Rightarrow> [])"

abbreviation wmem :: "('v, 'h, 'c, 'w) wthread \<Rightarrow> nat \<Rightarrow> byte" where
  "wmem t \<equiv> wm_mem (wt_mach t)"

definition outside :: "nat \<Rightarrow> nat \<times> nat \<Rightarrow> bool" where
  "outside a = (\<lambda>(p, n). p = 0 \<or> a < p \<or> p + n \<le> a)"

lemma wmem_simps [simp]:
  "wmem (set_err c t) = wmem t" "wmem (win_put_engine e t) = wmem t" "wmem (win_put_vfs e v t) = wmem t"
  "wmem (win_put_stream e h f st v t) = wmem t" "wmem (win_struct p c' t) = wmem t" "wmem (fill_find_data p x t) = wmem t"
  by (simp_all add: set_err_def win_put_engine_def win_put_vfs_def win_put_stream_def win_struct_def fill_find_data_def)

lemma wmem_finish [simp]: "wmem (snd (finish c r t)) = wmem t"
  by (simp add: finish_def)

lemma wmem_store: "p \<noteq> 0 \<Longrightarrow> outside a (p, n) \<Longrightarrow> length bs \<le> n \<Longrightarrow> wmem (win_store p bs t) a = wmem t a"
  by (auto simp: win_store_def outside_def)

lemma wmem_store_opt: "outside a (p, n) \<Longrightarrow> length bs \<le> n \<Longrightarrow> wmem (store_opt p bs t) a = wmem t a"
  by (auto simp: store_opt_def intro: wmem_store)

lemma wmem_result [simp]: "wmem (snd (mutation_result res t)) = wmem t"
  by (cases res) (simp_all add: mutation_result_def)

lemma length_wide_bytes [simp]: "length (wide_bytes us) = 2 * length us"
  by (induction us) (simp_all add: wide_bytes_def le_bytes_def)

lemma wmem_full_path:
  assumes "outside a (buf, 2 * len)" "outside a (part, 8)"
  shows "wmem (snd (write_full_path_w p buf len part t)) a = wmem t a"
proof (cases "buf = 0 \<or> len < length (encode_utf16 p) + 1")
  case False
  then have "2 * length (encode_utf16 p @ [0]) \<le> 2 * len" by simp
  then show ?thesis
    using False by (simp add: write_full_path_w_def Let_def wmem_store_opt [OF assms(2)] wmem_store [OF _ assms(1)])
qed (auto simp: write_full_path_w_def Let_def)

lemma win_file_mem:
  assumes "\<not> wt_in_hook t" "concerns t (call_target c)" "call_target c = OnFile h" "call_sym c \<noteq> W_CloseHandle"
    and "reads_fit ops" "list_all (outside a) (out_regions c)"
  shows "wmem (snd (win_call ops wa uni run scratch c t)) a = wmem t a"
proof -
  note H = win_handle_inside [where P = "\<lambda>m. wm_mem m a = wmem t a" and h = h, OF assms(1) assms(2) [unfolded assms(3)]]
  show ?thesis
    using assms(3,4,6)
    by (cases c; simp add: file_shim_defs Let_def out_regions_def)
       (rule H; auto simp: wmem_store_opt wmem_store count_bytes_def clamp_i64_bytes_def dest: os_read_fits [OF assms(5)]
          split: prod.splits sum.splits option.splits if_splits)+
qed

lemma win_query_mem:
  assumes "\<not> wt_in_hook t" "concerns t (call_target c)" "call_target c = OnPath name \<or> call_target c = OnVolume name"
    and "call_sym c \<notin> {W_CreateFileW, W_CreateFileA, W_CreateFile2, W_FindFirstFileW, W_FindFirstFileExW}"
    and "list_all (outside a) (out_regions c)"
  shows "wmem (snd (win_call ops wa uni run scratch c t)) a = wmem t a"
proof -
  have r: "routed name t \<noteq> Real" using assms(2,3) by (auto simp: concerns_def)
  have v: "call_target c = OnVolume name \<Longrightarrow> routed name t \<noteq> Rejected" using assms(2) by (auto simp: concerns_def)
  note H = win_path_inside [where P = "\<lambda>m. wm_mem m a = wmem t a" and name = name, OF assms(1) r]
  show ?thesis
    using assms(3,4,5) v
    by (cases c; simp add: path_shim_defs Let_def out_regions_def)
       (rule H; auto simp: wmem_store_opt wmem_store wmem_full_path split: prod.splits sum.splits option.splits route.splits if_splits)+
qed

lemma win_find_mem:
  assumes "\<not> wt_in_hook t" "concerns t (OnFind h)"
  shows "wmem (snd (shim_FindNextFileW wa h out t)) a = wmem t a"
proof -
  obtain e st where e: "current_engine (wt_disp t) = Some e" "get_find (eng_registry e) h = Some st"
    using assms(2) by (auto simp: concerns_def split: option.splits)
  show ?thesis
    unfolding shim_FindNextFileW_def win_shim_eq
    by (rule win_engine_inside [where P = "\<lambda>m. wm_mem m a = wmem t a", OF assms(1) e(1)]) (use e(2) in \<open>auto simp: Let_def\<close>)
qed

lemma win_cwd_mem:
  assumes "\<not> wt_in_hook t" "concerns t OnCwd" "outside a (buf, 2 * len)"
  shows "wmem (snd (shim_GetCurrentDirectoryW wa len buf t)) a = wmem t a"
proof -
  obtain e where e: "current_engine (wt_disp t) = Some e" "virtual_cwd e \<noteq> None"
    using assms(2) by (auto simp: concerns_def split: option.splits)
  show ?thesis
    unfolding shim_GetCurrentDirectoryW_def win_shim_eq
    by (rule win_engine_inside [where P = "\<lambda>m. wm_mem m a = wmem t a", OF assms(1) e(1)])
       (use e(2) assms(3) in \<open>auto simp: wmem_full_path outside_def\<close>)
qed


section \<open>Searches\<close>

lemma find_next_step:
  assumes "\<not> wt_in_hook t" "current_engine (wt_disp t) = Some e" "get_find (eng_registry e) h = Some st"
  shows "shim_FindNextFileW wa h out t =
    (if find_next st < length (find_entries st) then
       (1, set_err ERROR_SUCCESS (win_put_engine
             (e\<lparr>eng_registry := insert_find (eng_registry e) h (st\<lparr>find_next := find_next st + 1\<rparr>)\<rparr>)
             (fill_find_data out (find_entries st ! find_next st) t)))
     else (0, set_err ERROR_NO_MORE_FILES t))"
proof -
  have "(set_err c (win_put_engine x (fill_find_data out y (t\<lparr>wt_in_hook := True\<rparr>))))\<lparr>wt_in_hook := False\<rparr> =
    set_err c (win_put_engine x (fill_find_data out y t))" for c x y
    using assms(1) by (cases t) (simp add: set_err_def win_put_engine_def fill_find_data_def win_struct_def)
  then show ?thesis
    using assms
    by (simp add: shim_FindNextFileW_def win_engine_routed_def win_hooked_simps Let_def finish_def win_flag_roundtrip)
qed

text \<open>The loop of a client: take entries until the call fails, at most \<open>n\<close> calls.  The answer is what was
  found in the caller's structure after each success, and the last error at the end.\<close>

fun find_loop :: "'w winapi \<Rightarrow> nat \<Rightarrow> nat \<Rightarrow> nat \<Rightarrow> ('v, 'h, 'c, 'w) wthread \<Rightarrow> wstruct option list \<times> int option" where
  "find_loop wa h out 0 t = ([], None)"
| "find_loop wa h out (Suc n) t =
     (case shim_FindNextFileW wa h out t of
        (r, t') \<Rightarrow>
          if r = 0 then ([], Some (wm_error (wt_mach t')))
          else (case find_loop wa h out n t' of (ds, err) \<Rightarrow> (wm_structs (wt_mach t') out # ds, err)))"

lemma find_loop_rest:
  assumes "\<not> wt_in_hook t" "current_engine (wt_disp t) = Some e" "get_find (eng_registry e) h = Some st" "out \<noteq> 0"
    and "length (find_entries st) - find_next st < n"
  shows "find_loop wa h out n t =
    (map (\<lambda>x. Some (WFindData (find_data_of x))) (drop (find_next st) (find_entries st)), Some ERROR_NO_MORE_FILES)"
  using assms
proof (induction n arbitrary: t e st)
  case (Suc n)
  note S = find_next_step [OF Suc.prems(1-3), of wa out]
  show ?case
  proof (cases "find_next st < length (find_entries st)")
    case False
    then show ?thesis by (simp add: S set_err_def)
  next
    case True
    let ?x = "find_entries st ! find_next st" and ?st = "st\<lparr>find_next := find_next st + 1\<rparr>"
    let ?e = "e\<lparr>eng_registry := insert_find (eng_registry e) h ?st\<rparr>"
    let ?t = "set_err ERROR_SUCCESS (win_put_engine ?e (fill_find_data out ?x t))"
    have t: "\<not> wt_in_hook ?t" "current_engine (wt_disp ?t) = Some ?e" "wm_structs (wt_mach ?t) out = Some (WFindData (find_data_of ?x))"
      using Suc.prems(1,2,4) by (auto simp: set_err_def win_put_engine_def fill_find_data_def win_struct_def current_engine_def)
    have g: "get_find (eng_registry ?e) h = Some ?st" by (simp add: finds.get_ins)
    have "length (find_entries ?st) - find_next ?st < n" using True Suc.prems(5) by simp
    from Suc.IH [OF t(1,2) g Suc.prems(4) this] t(3) True show ?thesis
      by (simp add: S Cons_nth_drop_Suc [symmetric])
  qed
qed simp

abbreviation fold_name :: "(nat \<Rightarrow> nat list) \<Rightarrow> string \<Rightarrow> nat list" where
  "fold_name uni x \<equiv> concat (map (to_lowercase uni) (chars x))"

lemma find_matches_glob:
  assumes "win_file_name p = Some leaf" "win_parent p = Some dir" "v_read_dir ops dir v = (Some (Inr entries), v')"
    and "filter (\<lambda>x. glob (fold_name uni leaf) (fold_name uni (de_name x))) entries = first # rest"
  shows "find_matches ops uni p v = (first # rest, v')"
proof -
  have "wildcard_match uni leaf nm = Some True \<longleftrightarrow> glob (fold_name uni leaf) (fold_name uni nm)" for nm
    using match_loop_start [of "[]" "[]"] by (simp add: wildcard_match_def matches_from_def)
  then show ?thesis using assms by (simp add: find_matches_def Let_def)
qed

text \<open>C31. A search over a virtual directory delivers exactly the entries whose names match the pattern, where
  \<open>*\<close> stands for any text and \<open>?\<close> for one character and case is folded, each once and in the order of
  the provider's listing: the first with \<open>FindFirstFileW\<close>, the others with \<open>FindNextFileW\<close>, which then
  reports \<open>ERROR_NO_MORE_FILES\<close>.\<close>

theorem win_find_enumerates_matches:
  assumes "\<not> wt_in_hook t" "wide_name name = Some d" "current_engine (wt_disp t) = Some e" "win_classify e d = Virtual p"
    and "win_file_name p = Some leaf" "win_parent p = Some dir" "v_read_dir ops dir (eng_vfs e) = (Some (Inr entries), v)"
    and "filter (\<lambda>x. glob (fold_name uni leaf) (fold_name uni (de_name x))) entries = first # rest"
    and "out \<noteq> 0" "length rest < n" "fst (wa_windows_dir wa (wt_mach t)) \<le> 260" "live_handle h"
    and "wa_orig wa W_FindFirstFileExW (carrier_find_args wa scratch (wt_mach t)) (wt_mach t) = (h, m)"
  shows "\<exists>t'. shim_FindFirstFileW ops wa uni scratch name out t = (h, t')
    \<and> wm_structs (wt_mach t') out = Some (WFindData (find_data_of first))
    \<and> find_loop wa (nat h) out n t' = (map (\<lambda>x. Some (WFindData (find_data_of x))) rest, Some ERROR_NO_MORE_FILES)"
proof -
  let ?st = "\<lparr>find_entries = rest, find_next = 0\<rparr>"
  let ?e = "e\<lparr>eng_vfs := v, eng_registry := insert_find (eng_registry e) (nat h) ?st\<rparr>"
  let ?t1 = "(win_put_vfs e v (t\<lparr>wt_in_hook := True\<rparr>))\<lparr>wt_mach := m\<rparr>"
  let ?t = "(set_err ERROR_SUCCESS (win_put_engine ?e (fill_find_data out first ?t1)))\<lparr>wt_in_hook := False\<rparr>"
  have c: "carrier_find wa scratch (win_put_vfs e v (t\<lparr>wt_in_hook := True\<rparr>)) = (Some h, ?t1)"
    using assms(11-13) by (auto simp: carrier_find_def carrier_find_args_def win_orig_def Let_def split: prod.splits)
  have f: "shim_FindFirstFileW ops wa uni scratch name out t = (h, ?t)"
    unfolding shim_FindFirstFileW_def win_shim_eq assms(2) win_path_serve [OF assms(1,3,4)] find_first_virtual_def
    using find_matches_glob [where ops = ops, OF assms(5-8)] by (simp add: c finish_def)
  have s: "wm_structs (wt_mach ?t) out = Some (WFindData (find_data_of first))"
    using assms(9) by (simp add: set_err_def win_put_engine_def fill_find_data_def win_struct_def)
  have t: "\<not> wt_in_hook ?t" "current_engine (wt_disp ?t) = Some ?e"
    using assms(3,9) by (auto simp: set_err_def win_put_engine_def win_put_vfs_def fill_find_data_def win_struct_def current_engine_def)
  have g: "get_find (eng_registry ?e) (nat h) = Some ?st" by (simp add: finds.get_ins)
  have l: "length (find_entries ?st) - find_next ?st < n" using assms(10) by simp
  show ?thesis using f s find_loop_rest [OF t g assms(9) l, of wa] by simp
qed

section \<open>A demonstration thread\<close>

text \<open>A provider with one directory of two files, mounted read-only at \<^verbatim>\<open>C:\v\<close> with the file handle 7 open,
  on a system whose world counts the calls that reach it.\<close>

definition win_entry :: "string \<Rightarrow> vfs_dir_entry" where
  "win_entry name = \<lparr>de_name = name, de_metadata = metadata_file 3\<rparr>"

definition win_dir :: string where
  "win_dir = ''C:'' @ [BSL] @ ''v''"

definition win_demo_ops :: "(unit, unit) vfs_ops" where
  "win_demo_ops = \<lparr>v_open = (\<lambda>p opts v. (None, v)), v_metadata = (\<lambda>p v. (None, v)),
     v_read_dir = (\<lambda>p v. (if p = win_dir then Some (Inr [win_entry ''a.txt'', win_entry ''b.bin'', win_entry ''C.TXT'']) else None, v)),
     v_exists = (\<lambda>p v. (None, v)), v_open_write = (\<lambda>p opts v. (None, v)), v_remove = (\<lambda>p v. (None, v)),
     v_rename = (\<lambda>p q v. (None, v)), v_create_dir = (\<lambda>p v. (None, v)), v_set_len = (\<lambda>p n v. (None, v)),
     v_volume_info = (\<lambda>v. (None, v)),
     h_read = (\<lambda>h n v. (Inr (replicate (min n 3) 1), h, v)), h_seek = (\<lambda>h sf v. (Inr 0, h, v)),
     h_position = (\<lambda>h v. (Inr 0, h, v)), h_size = (\<lambda>h v. (Inr 3, h, v)), h_write = (\<lambda>h bs v. (Inl read_only_error, h, v)),
     h_set_len = (\<lambda>h n v. (Inl read_only_error, h, v)), h_flush = (\<lambda>h v. (Inr (), h, v)), h_drop = (\<lambda>h v. v)\<rparr>"

definition win_demo_api :: "nat winapi" where
  "win_demo_api = \<lparr>wa_orig = (\<lambda>s args m. (64, m\<lparr>wm_world := Suc (wm_world m)\<rparr>)), wa_windows_dir = (\<lambda>m. (3, [67, 58, 92])),
     wa_hash = length\<rparr>"

definition win_file_demo :: "unit win_file" where
  "win_file_demo = \<lparr>of_stream = ReadStream (), of_path = win_dir @ [BSL] @ ''a.txt'', of_writable = False, of_overlapped = False\<rparr>"

definition win_engine_demo :: "(unit, unit) win_engine" where
  "win_engine_demo = (engine_new () (win_from_root ascii_table win_dir) False)
     \<lparr>eng_registry := insert_file registry_new 7 win_file_demo\<rparr>"

definition win_thread :: "(unit, unit, unit, nat) wthread" where
  "win_thread = \<lparr>wt_disp = (dispatch_init 0)\<lparr>d_active := Some (win_engine_demo, 1)\<rparr>, wt_in_hook = False,
     wt_mach = \<lparr>wm_mem = \<lambda>_. 0, wm_structs = Map.empty, wm_error = 0, wm_world = 0\<rparr>\<rparr>"

abbreviation wz :: "string \<Rightarrow> wide option" where
  "wz x \<equiv> Some (encode_utf16 x @ [0])"

lemma win_thread_simps:
  "\<not> wt_in_hook win_thread" "current_engine (wt_disp win_thread) = Some win_engine_demo"
  "wt_mach win_thread = \<lparr>wm_mem = \<lambda>_. 0, wm_structs = Map.empty, wm_error = 0, wm_world = 0\<rparr>"
  "eng_vfs win_engine_demo = ()" "\<not> eng_allow_writes win_engine_demo"
  "get_file (eng_registry win_engine_demo) 7 = Some win_file_demo"
  by (simp_all add: win_thread_def current_engine_def win_engine_demo_def engine_new_def files.get_ins)

lemma win_demo_fits: "reads_fit win_demo_ops"
  by (simp add: reads_fit_def win_demo_ops_def)

lemma scan_wide_literal: "0 \<notin> set w \<Longrightarrow> length w < n \<Longrightarrow> scan_wide n (w @ [0]) out = Some (out @ w)"
  by (induction w arbitrary: n out) auto

lemma wide_name_ascii:
  assumes "\<forall>c \<in> set x. 0 < (of_char c :: nat) \<and> of_char c < (128 :: nat)" "length x < MAX_WIDE"
  shows "wide_name (wz x) = Some x"
proof -
  have a: "chars x = map of_char x \<and> valid_utf8 x" using assms(1) by (intro utf8_ascii) auto
  have "map utf16_char (map of_char x) = map (\<lambda>c. [of_nat (of_char c)]) x"
    using assms(1) by (auto simp: utf16_char_def dest: order.strict_trans [where c = 65536])
  then have "encode_utf16 x = map (\<lambda>c. of_nat (of_char c)) x" using a by (simp only: encode_utf16_def concat_map_singleton)
  moreover have "of_nat (of_char c) \<noteq> (0 :: 16 word)" if "c \<in> set x" for c
  proof -
    have "0 < (of_char c :: nat)" "of_char c < (128 :: nat)" using assms(1) that by auto
    then have "\<not> (65536 :: nat) dvd of_char c" by (intro nat_dvd_not_less) auto
    then show ?thesis by (simp add: word_of_nat_eq_0_iff)
  qed
  ultimately have "scan_wide MAX_WIDE (encode_utf16 x @ [0]) [] = Some (encode_utf16 x)"
    using assms(2) by (subst scan_wide_literal) auto
  with a show ?thesis by (simp add: wide_name_def decode_wide_def utf16_roundtrip)
qed

lemma win_names:
  "wide_name (wz (win_dir @ [BSL] @ ''*.txt'')) = Some (win_dir @ [BSL] @ ''*.txt'')"
  "wide_name (wz (''C:'' @ [BSL] @ ''w'')) = Some (''C:'' @ [BSL] @ ''w'')"
  by (rule wide_name_ascii; simp add: win_dir_def BSL_def MAX_WIDE_def)+

lemma win_classes:
  "win_classify win_engine_demo (win_dir @ [BSL] @ ''*.txt'') = Virtual (win_dir @ [BSL] @ ''*.txt'')"
  "win_classify win_engine_demo (''C:'' @ [BSL] @ ''w'') = Real"
  by (code_simp, code_simp)

lemma win_pattern:
  "win_file_name (win_dir @ [BSL] @ ''*.txt'') = Some ''*.txt''" "win_parent (win_dir @ [BSL] @ ''*.txt'') = Some win_dir"
  "filter (\<lambda>x. glob (fold_name ascii_table ''*.txt'') (fold_name ascii_table (de_name x)))
     [win_entry ''a.txt'', win_entry ''b.bin'', win_entry ''C.TXT''] = [win_entry ''a.txt'', win_entry ''C.TXT'']"
  by (code_simp, code_simp, code_simp)

lemma win_demo_concerns:
  "\<not> concerns win_thread (OnPath (Some (''C:'' @ [BSL] @ ''w'')))"
  "concerns win_thread (OnPath (Some (win_dir @ [BSL] @ ''*.txt'')))" "concerns win_thread (OnFile 7)"
  by (simp_all only: concerns_def routed_def win_route_def win_thread_simps win_classes target.case option.case prod.case
      route.simps if_True option.simps)
     simp_all

abbreviation no_rescan :: "unit \<Rightarrow> (unit, unit, unit, nat) wthread \<Rightarrow> (unit, unit, unit, nat) wthread" where
  "no_rescan \<equiv> (\<lambda>_ t. t)"





theorem win_find_enumerates_matches_witness:
  "\<exists>t'. shim_FindFirstFileW win_demo_ops win_demo_api ascii_table 9 (wz (win_dir @ [BSL] @ ''*.txt'')) 300 win_thread = (64, t')
    \<and> wm_structs (wt_mach t') 300 = Some (WFindData (find_data_of (win_entry ''a.txt'')))
    \<and> find_loop win_demo_api 64 300 5 t' = ([Some (WFindData (find_data_of (win_entry ''C.TXT'')))], Some ERROR_NO_MORE_FILES)"
proof -
  have r: "v_read_dir win_demo_ops win_dir (eng_vfs win_engine_demo) =
      (Some (Inr [win_entry ''a.txt'', win_entry ''b.bin'', win_entry ''C.TXT'']), ())"
    by (simp add: win_demo_ops_def)
  have d: "fst (wa_windows_dir win_demo_api (wt_mach win_thread)) \<le> 260" "live_handle 64"
    by (simp_all add: win_demo_api_def live_handle_def INVALID_HANDLE_VALUE_def)
  have o: "wa_orig win_demo_api W_FindFirstFileExW args m = (64, m\<lparr>wm_world := Suc (wm_world m)\<rparr>)" for args m
    by (simp add: win_demo_api_def)
  show ?thesis
    using win_find_enumerates_matches [OF win_thread_simps(1) win_names(1) win_thread_simps(2) win_classes(1) win_pattern(1,2) r
        win_pattern(3) _ _ d o, of 300 5 9] by simp
qed

end
