(* ===== verification/Macho_Parser.thy ===== *)
theory Macho_Parser
  imports Elf_Module
begin

unbundle bit_operations_syntax

text \<open>
  \<^verbatim>\<open>crates/plthook/src/macho.rs\<close> and the Mach-O part of \<^verbatim>\<open>crates/plthook/src/arch/mod.rs\<close>: decoding the
  linking metadata of a 64-bit Mach-O image into import slots.  The parser sees the image only through
  a view, the record \<open>macho_view\<close> (the trait \<open>MachOView\<close>), whose cursors are file offsets of a thin slice.
  Fields and offsets are words of the width they have in the file, and unchecked sums wrap as they do in
  a release build; only the cursor of an opcode stream is a natural number, since every byte behind it
  has been read and no view serves the last address.
\<close>

section \<open>Constants\<close>

definition CPU_ARCH_ABI64 :: "32 word" where "CPU_ARCH_ABI64 = 0x01000000"
definition CPU_TYPE_X86_64 :: "32 word" where "CPU_TYPE_X86_64 = 0x7 OR CPU_ARCH_ABI64"
definition CPU_TYPE_ARM64 :: "32 word" where "CPU_TYPE_ARM64 = 0xc OR CPU_ARCH_ABI64"
definition CPU_SUBTYPE_MASK :: "32 word" where "CPU_SUBTYPE_MASK = 0xff000000"
definition CPU_SUBTYPE_ARM64E :: "32 word" where "CPU_SUBTYPE_ARM64E = 2"

definition macho_cpu_supported :: "32 word \<Rightarrow> bool" where
  "macho_cpu_supported cputype \<longleftrightarrow> cputype = CPU_TYPE_X86_64 \<or> cputype = CPU_TYPE_ARM64"

definition MH_MAGIC_64 :: "32 word" where "MH_MAGIC_64 = 0xfeedfacf"
definition MH_MAGIC_32 :: "32 word" where "MH_MAGIC_32 = 0xfeedface"
definition MH_CIGAM_64 :: "32 word" where "MH_CIGAM_64 = 0xcffaedfe"
definition MH_CIGAM_32 :: "32 word" where "MH_CIGAM_32 = 0xcefaedfe"
definition FAT_MAGIC :: "32 word" where "FAT_MAGIC = 0xcafebabe"
definition FAT_MAGIC_64 :: "32 word" where "FAT_MAGIC_64 = 0xcafebabf"

definition MACH_HEADER_64_SIZE :: "64 word" where "MACH_HEADER_64_SIZE = 32"
definition SEGMENT_COMMAND_64_SIZE :: "64 word" where "SEGMENT_COMMAND_64_SIZE = 72"
definition SECTION_64_SIZE :: "64 word" where "SECTION_64_SIZE = 80"
definition NLIST_64_SIZE :: "64 word" where "NLIST_64_SIZE = 16"

definition LC_REQ_DYLD :: "32 word" where "LC_REQ_DYLD = 0x80000000"
definition LC_SEGMENT_64 :: "32 word" where "LC_SEGMENT_64 = 0x19"
definition LC_SYMTAB :: "32 word" where "LC_SYMTAB = 0x2"
definition LC_DYSYMTAB :: "32 word" where "LC_DYSYMTAB = 0xb"
definition LC_LOAD_DYLIB :: "32 word" where "LC_LOAD_DYLIB = 0xc"
definition LC_LOAD_WEAK_DYLIB :: "32 word" where "LC_LOAD_WEAK_DYLIB = 0x18 OR LC_REQ_DYLD"
definition LC_REEXPORT_DYLIB :: "32 word" where "LC_REEXPORT_DYLIB = 0x1f OR LC_REQ_DYLD"
definition LC_LOAD_UPWARD_DYLIB :: "32 word" where "LC_LOAD_UPWARD_DYLIB = 0x23 OR LC_REQ_DYLD"
definition LC_LAZY_LOAD_DYLIB :: "32 word" where "LC_LAZY_LOAD_DYLIB = 0x20"
definition LC_DYLD_INFO :: "32 word" where "LC_DYLD_INFO = 0x22"
definition LC_DYLD_INFO_ONLY :: "32 word" where "LC_DYLD_INFO_ONLY = 0x22 OR LC_REQ_DYLD"
definition LC_DYLD_CHAINED_FIXUPS :: "32 word" where "LC_DYLD_CHAINED_FIXUPS = 0x34 OR LC_REQ_DYLD"

definition SECTION_TYPE :: "32 word" where "SECTION_TYPE = 0xff"
definition S_NON_LAZY_SYMBOL_POINTERS :: "32 word" where "S_NON_LAZY_SYMBOL_POINTERS = 0x6"
definition S_LAZY_SYMBOL_POINTERS :: "32 word" where "S_LAZY_SYMBOL_POINTERS = 0x7"
definition INDIRECT_SYMBOL_LOCAL :: "32 word" where "INDIRECT_SYMBOL_LOCAL = 0x80000000"
definition INDIRECT_SYMBOL_ABS :: "32 word" where "INDIRECT_SYMBOL_ABS = 0x40000000"

definition N_STAB :: byte where "N_STAB = 0xe0"
definition N_TYPE :: byte where "N_TYPE = 0x0e"
definition N_UNDF :: byte where "N_UNDF = 0x00"
definition N_EXT :: byte where "N_EXT = 0x01"
definition BIND_SPECIAL_DYLIB_SELF :: int where "BIND_SPECIAL_DYLIB_SELF = 0"

definition BIND_OPCODE_MASK :: byte where "BIND_OPCODE_MASK = 0xf0"
definition BIND_IMMEDIATE_MASK :: byte where "BIND_IMMEDIATE_MASK = 0x0f"
definition BIND_OPCODE_DONE :: byte where "BIND_OPCODE_DONE = 0x00"
definition BIND_OPCODE_SET_DYLIB_ORDINAL_IMM :: byte where "BIND_OPCODE_SET_DYLIB_ORDINAL_IMM = 0x10"
definition BIND_OPCODE_SET_DYLIB_ORDINAL_ULEB :: byte where "BIND_OPCODE_SET_DYLIB_ORDINAL_ULEB = 0x20"
definition BIND_OPCODE_SET_DYLIB_SPECIAL_IMM :: byte where "BIND_OPCODE_SET_DYLIB_SPECIAL_IMM = 0x30"
definition BIND_OPCODE_SET_SYMBOL_TRAILING_FLAGS_IMM :: byte where "BIND_OPCODE_SET_SYMBOL_TRAILING_FLAGS_IMM = 0x40"
definition BIND_OPCODE_SET_TYPE_IMM :: byte where "BIND_OPCODE_SET_TYPE_IMM = 0x50"
definition BIND_OPCODE_SET_ADDEND_SLEB :: byte where "BIND_OPCODE_SET_ADDEND_SLEB = 0x60"
definition BIND_OPCODE_SET_SEGMENT_AND_OFFSET_ULEB :: byte where "BIND_OPCODE_SET_SEGMENT_AND_OFFSET_ULEB = 0x70"
definition BIND_OPCODE_ADD_ADDR_ULEB :: byte where "BIND_OPCODE_ADD_ADDR_ULEB = 0x80"
definition BIND_OPCODE_DO_BIND :: byte where "BIND_OPCODE_DO_BIND = 0x90"
definition BIND_OPCODE_DO_BIND_ADD_ADDR_ULEB :: byte where "BIND_OPCODE_DO_BIND_ADD_ADDR_ULEB = 0xa0"
definition BIND_OPCODE_DO_BIND_ADD_ADDR_IMM_SCALED :: byte where "BIND_OPCODE_DO_BIND_ADD_ADDR_IMM_SCALED = 0xb0"
definition BIND_OPCODE_DO_BIND_ULEB_TIMES_SKIPPING_ULEB :: byte where
  "BIND_OPCODE_DO_BIND_ULEB_TIMES_SKIPPING_ULEB = 0xc0"

definition DYLD_CHAINED_PTR_START_NONE :: "16 word" where "DYLD_CHAINED_PTR_START_NONE = 0xffff"
definition DYLD_CHAINED_PTR_ARM64E :: "16 word" where "DYLD_CHAINED_PTR_ARM64E = 1"
definition DYLD_CHAINED_PTR_64 :: "16 word" where "DYLD_CHAINED_PTR_64 = 2"
definition DYLD_CHAINED_PTR_64_OFFSET :: "16 word" where "DYLD_CHAINED_PTR_64_OFFSET = 6"
definition DYLD_CHAINED_PTR_ARM64E_KERNEL :: "16 word" where "DYLD_CHAINED_PTR_ARM64E_KERNEL = 7"
definition DYLD_CHAINED_PTR_ARM64E_USERLAND :: "16 word" where "DYLD_CHAINED_PTR_ARM64E_USERLAND = 9"
definition DYLD_CHAINED_PTR_ARM64E_FIRMWARE :: "16 word" where "DYLD_CHAINED_PTR_ARM64E_FIRMWARE = 10"
definition DYLD_CHAINED_PTR_ARM64E_USERLAND24 :: "16 word" where "DYLD_CHAINED_PTR_ARM64E_USERLAND24 = 12"
definition DYLD_CHAINED_IMPORT :: "32 word" where "DYLD_CHAINED_IMPORT = 1"
definition DYLD_CHAINED_IMPORT_ADDEND :: "32 word" where "DYLD_CHAINED_IMPORT_ADDEND = 2"
definition DYLD_CHAINED_IMPORT_ADDEND64 :: "32 word" where "DYLD_CHAINED_IMPORT_ADDEND64 = 3"

definition MAX_COMMANDS :: "32 word" where "MAX_COMMANDS = 0x10000"
definition MAX_SECTIONS :: "32 word" where "MAX_SECTIONS = 0x10000"
definition MAX_INDIRECT :: nat where "MAX_INDIRECT = 0x1000000"
definition MAX_BIND_BYTES :: "64 word" where "MAX_BIND_BYTES = 0x1000000"
definition MAX_CHAIN_STEPS :: nat where "MAX_CHAIN_STEPS = 0x1000000"
definition MAX_FIXUP_SEGMENTS :: "32 word" where "MAX_FIXUP_SEGMENTS = 0x1000"
definition MAX_DYLIBS :: nat where "MAX_DYLIBS = 0x1000"
definition ULEB_MAX_SHIFT :: nat where "ULEB_MAX_SHIFT = 63"
definition TLV_BOOTSTRAP :: string where "TLV_BOOTSTRAP = ''_tlv_bootstrap''"

section \<open>Views\<close>

record macho_segment =
  ms_vmaddr :: "64 word"
  ms_vmsize :: "64 word"
  ms_fileoff :: "64 word"
  ms_filesize :: "64 word"

record macho_view =
  mv_cpu_type :: "32 word"
  mv_cpu_subtype :: "32 word"
  mv_read :: "64 word \<Rightarrow> 64 word \<Rightarrow> byte list plt_result"
  mv_file_backed :: bool
  mv_slot_encoding :: "64 word \<Rightarrow> 64 word plt_result"
  mv_slot_address :: "64 word \<Rightarrow> 64 word plt_result"

definition is_arm64e :: "macho_view \<Rightarrow> bool" where
  "is_arm64e view \<longleftrightarrow>
     mv_cpu_type view = CPU_TYPE_ARM64 \<and> mv_cpu_subtype view AND NOT CPU_SUBTYPE_MASK = CPU_SUBTYPE_ARM64E"

definition mo_read_u16 :: "macho_view \<Rightarrow> 64 word \<Rightarrow> 16 word plt_result" where
  "mo_read_u16 view off = and_then (mv_read view off 2) (\<lambda>b. Inr (from_le_bytes b))"

definition mo_read_u32 :: "macho_view \<Rightarrow> 64 word \<Rightarrow> 32 word plt_result" where
  "mo_read_u32 view off = and_then (mv_read view off 4) (\<lambda>b. Inr (from_le_bytes b))"

definition mo_read_u64 :: "macho_view \<Rightarrow> 64 word \<Rightarrow> 64 word plt_result" where
  "mo_read_u64 view off = and_then (mv_read view off 8) (\<lambda>b. Inr (from_le_bytes b))"

definition mo_read_byte :: "macho_view \<Rightarrow> 64 word \<Rightarrow> byte plt_result" where
  "mo_read_byte view off = and_then (mv_read view off 1) (\<lambda>b. Inr (hd b))"

text \<open>The reading loop of a NUL-terminated name: at most \<open>n\<close> more bytes, from \<open>off\<close> on.  The answer is the raw
  bytes before the NUL.\<close>

fun mo_name_loop :: "macho_view \<Rightarrow> plt_error \<Rightarrow> nat \<Rightarrow> 64 word \<Rightarrow> string \<Rightarrow> string plt_result" where
  "mo_name_loop view err 0 off bytes = Inl err"
| "mo_name_loop view err (Suc n) off bytes =
     and_then (mo_read_byte view off) (\<lambda>b.
       if b = 0 then Inr bytes else mo_name_loop view err n (off + 1) (bytes @ [char_of (unat b)]))"

definition read_cstr_raw :: "macho_view \<Rightarrow> 64 word \<Rightarrow> (string \<times> nat) plt_result" where
  "read_cstr_raw view off =
     and_then (mo_name_loop view (Malformed ''unterminated Mach-O string'') (MAX_NAME_LEN + 1) off [])
       (\<lambda>bytes. Inr (from_utf8_lossy bytes, length bytes))"

definition read_cstr :: "macho_view \<Rightarrow> 64 word \<Rightarrow> string plt_result" where
  "read_cstr view off = and_then (read_cstr_raw view off) (\<lambda>(name, _). Inr name)"

definition read_str_in_table :: "macho_view \<Rightarrow> 64 word \<Rightarrow> 64 word \<Rightarrow> 32 word \<Rightarrow> string plt_result" where
  "read_str_in_table view base sz strx32 =
     (let strx = ucast strx32 :: 64 word in
      if sz \<le> strx then Inl (Malformed ''string-table offset past table size'')
      else
        and_then (mo_name_loop view (Malformed ''unterminated string-table entry'')
                    (min (unat (sz - strx)) (MAX_NAME_LEN + 1)) (base + strx) [])
          (\<lambda>bytes. Inr (from_utf8_lossy bytes)))"

definition normalize_symbol_name :: "string \<Rightarrow> string option" where
  "normalize_symbol_name raw =
     (let without_underscore = (case strip_prefix ''_'' raw of Some rest \<Rightarrow> rest | None \<Rightarrow> raw);
          base = takeWhile (\<lambda>c. c \<noteq> CHR ''$'') without_underscore
      in if base = [] then None else Some base)"

section \<open>Universal containers\<close>

record slice_range =
  sr_offset :: "64 word"
  sr_size :: "64 word"

record fat_arch =
  fa_cpu_type :: "32 word"
  fa_cpu_subtype :: "32 word"
  fa_range :: slice_range

datatype container = Thin | Fat "fat_arch list"

definition from_be_bytes :: "byte list \<Rightarrow> 'a::len word" where
  "from_be_bytes bs = from_le_bytes (rev bs)"

definition read_slice_u32_le :: "byte list \<Rightarrow> nat \<Rightarrow> 32 word plt_result" where
  "read_slice_u32_le bytes off =
     and_then (ok_or (Malformed ''read past slice bounds'') (get_range off 4 bytes)) (\<lambda>b. Inr (from_le_bytes b))"

definition read_slice_u32_be :: "byte list \<Rightarrow> nat \<Rightarrow> 32 word plt_result" where
  "read_slice_u32_be bytes off =
     and_then (ok_or (Malformed ''read past slice bounds'') (get_range off 4 bytes)) (\<lambda>b. Inr (from_be_bytes b))"

definition read_slice_u64_be :: "byte list \<Rightarrow> nat \<Rightarrow> 64 word plt_result" where
  "read_slice_u64_be bytes off =
     and_then (ok_or (Malformed ''read past slice bounds'') (get_range off 8 bytes)) (\<lambda>b. Inr (from_be_bytes b))"

definition parse_fat_entry :: "byte list \<Rightarrow> bool \<Rightarrow> nat \<Rightarrow> fat_arch list \<Rightarrow> fat_arch list plt_result" where
  "parse_fat_entry bytes wide i slices =
     (let entry = 8 + i * (if wide then 32 else 20) in
      and_then (read_slice_u32_be bytes entry) (\<lambda>cpu_type.
      and_then (read_slice_u32_be bytes (entry + 4)) (\<lambda>cpu_subtype.
      and_then (if wide then read_slice_u64_be bytes (entry + 8)
                else and_then (read_slice_u32_be bytes (entry + 8)) (\<lambda>x. Inr (ucast x))) (\<lambda>offset.
      and_then (if wide then read_slice_u64_be bytes (entry + 16)
                else and_then (read_slice_u32_be bytes (entry + 12)) (\<lambda>x. Inr (ucast x))) (\<lambda>sz.
      and_then (ok_or (Malformed ''fat slice overflow'') (word_checked_add offset sz)) (\<lambda>end'.
        if length bytes < unat end' then Inl (Malformed ''fat slice out of bounds'')
        else Inr (slices @ [\<lparr>fa_cpu_type = cpu_type, fa_cpu_subtype = cpu_subtype,
                             fa_range = \<lparr>sr_offset = offset, sr_size = sz\<rparr>\<rparr>])))))))"

definition parse_fat :: "byte list \<Rightarrow> bool \<Rightarrow> container plt_result" where
  "parse_fat bytes wide =
     and_then (read_slice_u32_be bytes 4) (\<lambda>nfat.
       if 1024 < nfat then Inl (Malformed ''implausible fat arch count'')
       else and_then (try_fold (parse_fat_entry bytes wide) [0 ..< unat nfat] []) (\<lambda>slices. Inr (Fat slices)))"

definition macho_classify :: "byte list \<Rightarrow> container plt_result" where
  "macho_classify bytes =
     and_then (read_slice_u32_le bytes 0) (\<lambda>magic.
       if magic = MH_MAGIC_64 then Inr Thin
       else if magic = MH_MAGIC_32 \<or> magic = MH_CIGAM_32 then Inl (UnsupportedImage ''32-bit Mach-O image'')
       else if magic = MH_CIGAM_64 then Inl (UnsupportedImage ''byte-swapped (foreign-endian) Mach-O image'')
       else
         and_then (read_slice_u32_be bytes 0) (\<lambda>be.
           if be = FAT_MAGIC then parse_fat bytes False
           else if be = FAT_MAGIC_64 then parse_fat bytes True
           else Inl (Malformed ''not a Mach-O or universal image'')))"

fun select_slice :: "byte list \<Rightarrow> 32 word \<Rightarrow> 32 word \<Rightarrow> fat_arch list \<Rightarrow> (nat \<times> nat) plt_result" where
  "select_slice bytes cpu_type want_sub [] =
     Inl (Malformed ''no universal slice matches the loaded architecture'')"
| "select_slice bytes cpu_type want_sub (sl # slices) =
     (if fa_cpu_type sl \<noteq> cpu_type \<or> fa_cpu_subtype sl AND NOT CPU_SUBTYPE_MASK \<noteq> want_sub
      then select_slice bytes cpu_type want_sub slices
      else
        and_then (ok_or (Malformed ''fat slice end overflow'')
                    (word_checked_add (sr_offset (fa_range sl)) (sr_size (fa_range sl)))) (\<lambda>end'.
        and_then (read_slice_u32_le bytes (unat (sr_offset (fa_range sl)))) (\<lambda>magic.
          if magic \<noteq> MH_MAGIC_64 then Inl (Malformed ''fat slice is not a thin 64-bit Mach-O'')
          else Inr (unat (sr_offset (fa_range sl)), unat end'))))"

definition thin_slice_range :: "byte list \<Rightarrow> 32 word \<Rightarrow> 32 word \<Rightarrow> (nat \<times> nat) plt_result" where
  "thin_slice_range bytes cpu_type cpu_subtype =
     and_then (macho_classify bytes) (\<lambda>c.
       case c of
         Thin \<Rightarrow> Inr (0, length bytes)
       | Fat slices \<Rightarrow> select_slice bytes cpu_type (cpu_subtype AND NOT CPU_SUBTYPE_MASK) slices)"

section \<open>Load commands\<close>

record pointer_section =
  psec_fileoff :: "64 word"
  psec_size :: "64 word"
  psec_indirect_index :: "32 word"

record load_info =
  li_segments :: "macho_segment list"
  li_pointer_sections :: "pointer_section list"
  li_symtab :: "(64 word \<times> 32 word \<times> 64 word \<times> 64 word) option"
  li_indirect :: "(64 word \<times> 32 word) option"
  li_binds :: "(64 word \<times> 64 word) list"
  li_chained :: "(64 word \<times> 64 word) option"
  li_dylibs :: "string list"

definition load_info_default :: load_info where
  "load_info_default = \<lparr>li_segments = [], li_pointer_sections = [], li_symtab = None, li_indirect = None,
     li_binds = [], li_chained = None, li_dylibs = []\<rparr>"

definition mo_basename :: "string \<Rightarrow> string" where
  "mo_basename p = rev (takeWhile (\<lambda>c. c \<noteq> CHR ''/'' \<and> c \<noteq> CHR 0x5C) (rev p))"

definition library_of :: "int \<Rightarrow> string list \<Rightarrow> string" where
  "library_of ordinal dylibs =
     (if 1 \<le> ordinal then
        let i = nat (ordinal - 1) in if i < length dylibs then dylibs ! i else []
      else [])"

definition read_section :: "macho_view \<Rightarrow> 64 word \<Rightarrow> nat \<Rightarrow> load_info \<Rightarrow> load_info plt_result" where
  "read_section view base i info =
     (let sec = base + SEGMENT_COMMAND_64_SIZE + of_nat i * SECTION_64_SIZE in
      and_then (mo_read_u64 view (sec + 40)) (\<lambda>sz.
      and_then (mo_read_u32 view (sec + 48)) (\<lambda>offset.
      and_then (mo_read_u32 view (sec + 64)) (\<lambda>flags.
      and_then (mo_read_u32 view (sec + 68)) (\<lambda>reserved1.
        Inr (if flags AND SECTION_TYPE = S_NON_LAZY_SYMBOL_POINTERS \<or> flags AND SECTION_TYPE = S_LAZY_SYMBOL_POINTERS
             then info\<lparr>li_pointer_sections := li_pointer_sections info @
                         [\<lparr>psec_fileoff = ucast offset, psec_size = sz, psec_indirect_index = reserved1\<rparr>]\<rparr>
             else info))))))"

definition read_segment :: "macho_view \<Rightarrow> 64 word \<Rightarrow> 64 word \<Rightarrow> load_info \<Rightarrow> load_info plt_result" where
  "read_segment view base cmdsize info =
     (if cmdsize < SEGMENT_COMMAND_64_SIZE then Inl (Malformed ''truncated LC_SEGMENT_64'')
      else
        and_then (mo_read_u64 view (base + 24)) (\<lambda>vmaddr.
        and_then (mo_read_u64 view (base + 32)) (\<lambda>vmsize.
        and_then (mo_read_u64 view (base + 40)) (\<lambda>fileoff.
        and_then (mo_read_u64 view (base + 48)) (\<lambda>filesize.
        and_then (mo_read_u32 view (base + 64)) (\<lambda>nsects.
          let info1 = info\<lparr>li_segments := li_segments info @
                [\<lparr>ms_vmaddr = vmaddr, ms_vmsize = vmsize, ms_fileoff = fileoff, ms_filesize = filesize\<rparr>]\<rparr>
          in if MAX_SECTIONS < nsects then Inl (Malformed ''implausible section count'')
             else if unat cmdsize < unat SEGMENT_COMMAND_64_SIZE + unat nsects * unat SECTION_64_SIZE
             then Inl (Malformed ''section table extends past the segment command'')
             else try_fold (read_section view base) [0 ..< unat nsects] info1))))))"

definition read_bind_range :: "macho_view \<Rightarrow> 64 word \<Rightarrow> 64 word \<times> 64 word \<Rightarrow> load_info \<Rightarrow> load_info plt_result" where
  "read_bind_range view base fld info =
     and_then (mo_read_u32 view (base + fst fld)) (\<lambda>off.
     and_then (mo_read_u32 view (base + snd fld)) (\<lambda>sz.
       Inr (if sz \<noteq> 0 then info\<lparr>li_binds := li_binds info @ [(ucast off, ucast sz)]\<rparr> else info)))"

definition parse_one_command ::
  "macho_view \<Rightarrow> 32 word \<Rightarrow> 64 word \<Rightarrow> 64 word \<Rightarrow> load_info \<Rightarrow> load_info plt_result" where
  "parse_one_command view cmd base cmdsize info =
     (if cmd = LC_SEGMENT_64 then read_segment view base cmdsize info
      else if cmd = LC_SYMTAB then
        (if cmdsize < 24 then Inl (Malformed ''truncated LC_SYMTAB'')
         else
           and_then (mo_read_u32 view (base + 8)) (\<lambda>symoff.
           and_then (mo_read_u32 view (base + 12)) (\<lambda>nsyms.
           and_then (mo_read_u32 view (base + 16)) (\<lambda>stroff.
           and_then (mo_read_u32 view (base + 20)) (\<lambda>strsize.
             Inr (info\<lparr>li_symtab := Some (ucast symoff, nsyms, ucast stroff, ucast strsize)\<rparr>))))))
      else if cmd = LC_DYSYMTAB then
        (if cmdsize < 80 then Inl (Malformed ''truncated LC_DYSYMTAB'')
         else
           and_then (mo_read_u32 view (base + 56)) (\<lambda>indirectsymoff.
           and_then (mo_read_u32 view (base + 60)) (\<lambda>nindirectsyms.
             Inr (info\<lparr>li_indirect := Some (ucast indirectsymoff, nindirectsyms)\<rparr>))))
      else if cmd = LC_DYLD_INFO \<or> cmd = LC_DYLD_INFO_ONLY then
        (if cmdsize < 48 then Inl (Malformed ''truncated LC_DYLD_INFO'')
         else try_fold (read_bind_range view base) [(16, 20), (24, 28), (32, 36)] info)
      else if cmd = LC_DYLD_CHAINED_FIXUPS then
        (if cmdsize < 16 then Inl (Malformed ''truncated LC_DYLD_CHAINED_FIXUPS'')
         else
           and_then (mo_read_u32 view (base + 8)) (\<lambda>dataoff.
           and_then (mo_read_u32 view (base + 12)) (\<lambda>datasize.
             Inr (info\<lparr>li_chained := Some (ucast dataoff, ucast datasize)\<rparr>))))
      else if cmd \<in> {LC_LOAD_DYLIB, LC_LOAD_WEAK_DYLIB, LC_REEXPORT_DYLIB, LC_LOAD_UPWARD_DYLIB, LC_LAZY_LOAD_DYLIB} then
        (if MAX_DYLIBS \<le> length (li_dylibs info) then Inr info
         else
           and_then (mo_read_u32 view (base + 8)) (\<lambda>off32.
             let name_off = ucast off32 :: 64 word;
                 name = (if name_off < cmdsize then
                           (case read_cstr view (base + name_off) of Inr n \<Rightarrow> n | Inl _ \<Rightarrow> ''(unknown-dylib)'')
                         else ''(unknown-dylib)'')
             in Inr (info\<lparr>li_dylibs := li_dylibs info @ [mo_basename name]\<rparr>)))
      else Inr info)"

text \<open>\<open>n\<close> commands are left, the next one at \<open>cursor\<close>.\<close>

fun command_loop :: "macho_view \<Rightarrow> 64 word \<Rightarrow> nat \<Rightarrow> 64 word \<Rightarrow> load_info \<Rightarrow> load_info plt_result" where
  "command_loop view region_end 0 cursor info = Inr info"
| "command_loop view region_end (Suc n) cursor info =
     and_then (ok_or (Malformed ''command header overflow'') (word_checked_add cursor 8)) (\<lambda>hdr_end.
     if region_end < hdr_end then Inl (Malformed ''load command runs past sizeofcmds'')
     else
       and_then (mo_read_u32 view cursor) (\<lambda>cmd.
       and_then (mo_read_u32 view (cursor + 4)) (\<lambda>cmdsize32.
         let cmdsize = ucast cmdsize32 :: 64 word in
         if cmdsize < 8 \<or> cmdsize mod 8 \<noteq> 0 then Inl (Malformed ''invalid load-command size'')
         else
           and_then (ok_or (Malformed ''command size overflow'') (word_checked_add cursor cmdsize)) (\<lambda>next'.
           if region_end < next' then Inl (Malformed ''load command extends past sizeofcmds'')
           else
             and_then (parse_one_command view cmd cursor cmdsize info)
               (command_loop view region_end n next')))))"

definition read_load_commands :: "macho_view \<Rightarrow> load_info plt_result" where
  "read_load_commands view =
     and_then (mo_read_u32 view 0) (\<lambda>magic.
     if magic \<noteq> MH_MAGIC_64 then Inl (Malformed ''not a little-endian 64-bit Mach-O header'')
     else
       and_then (mo_read_u32 view 16) (\<lambda>ncmds.
       and_then (mo_read_u32 view 20) (\<lambda>sizeofcmds.
       if MAX_COMMANDS < ncmds then Inl (Malformed ''implausible load-command count'')
       else
         and_then (ok_or (Malformed ''load-command region overflow'')
                     (word_checked_add MACH_HEADER_64_SIZE (ucast sizeofcmds))) (\<lambda>region_end.
           command_loop view region_end (unat ncmds) MACH_HEADER_64_SIZE load_info_default))))"

definition segments_of :: "macho_view \<Rightarrow> macho_segment list plt_result" where
  "segments_of view = and_then (read_load_commands view) (\<lambda>info. Inr (li_segments info))"

section \<open>The indirect symbol table\<close>

definition macho_import :: "string \<Rightarrow> string \<Rightarrow> 64 word \<Rightarrow> bool \<Rightarrow> raw_import" where
  "macho_import library name slot auth =
     \<lparr>ri_library = library, ri_symbol = Some (SymName name), ri_version = None, ri_slot = unat slot,
      ri_kind = Standard, ri_authenticated = auth\<rparr>"

definition indirect_slot ::
  "macho_view \<Rightarrow> load_info \<Rightarrow> 64 word \<times> 32 word \<times> 64 word \<times> 64 word \<Rightarrow> 64 word \<times> 32 word \<Rightarrow> pointer_section \<Rightarrow>
     nat \<Rightarrow> raw_import list \<Rightarrow> raw_import list plt_result" where
  "indirect_slot view info symtab indirect section' i out =
     (case symtab of (symoff, nsyms, stroff, strsize) \<Rightarrow>
      case indirect of (indirectoff, nindirect) \<Rightarrow>
        and_then (ok_or (Malformed ''indirect index overflow'')
                    (word_checked_add (ucast (psec_indirect_index section')) (of_nat i))) (\<lambda>indirect_idx.
        if ucast nindirect \<le> indirect_idx then Inl (Malformed ''indirect index past nindirectsyms'')
        else
          and_then (mo_read_u32 view (indirectoff + indirect_idx * 4)) (\<lambda>sym_index.
          if sym_index AND (INDIRECT_SYMBOL_LOCAL OR INDIRECT_SYMBOL_ABS) \<noteq> 0 then Inr out
          else if nsyms \<le> sym_index then Inl (Malformed ''indirect symbol index past nsyms'')
          else
            let nlist = symoff + ucast sym_index * NLIST_64_SIZE in
            and_then (mo_read_u32 view nlist) (\<lambda>n_strx.
            and_then (mo_read_byte view (nlist + 4)) (\<lambda>n_type.
            and_then (mo_read_u16 view (nlist + 6)) (\<lambda>n_desc.
            if n_type AND N_STAB \<noteq> 0 \<or> n_type AND N_TYPE \<noteq> N_UNDF \<or> n_type AND N_EXT = 0 then Inr out
            else
              and_then (read_str_in_table view stroff strsize n_strx) (\<lambda>raw.
              case normalize_symbol_name raw of
                None \<Rightarrow> Inr out
              | Some name \<Rightarrow>
                  if name = TLV_BOOTSTRAP then Inr out
                  else
                    and_then (ok_or (Malformed ''slot offset overflow'')
                                (word_checked_add (psec_fileoff section') (of_nat i * 8))) (\<lambda>slot_off.
                    and_then (mv_slot_address view slot_off) (\<lambda>slot.
                      Inr (out @ [macho_import (library_of (uint (drop_bit 8 n_desc AND 0xff)) (li_dylibs info))
                                    name slot (is_arm64e view)]))))))))))"

definition indirect_section ::
  "macho_view \<Rightarrow> load_info \<Rightarrow> 64 word \<times> 32 word \<times> 64 word \<times> 64 word \<Rightarrow> 64 word \<times> 32 word \<Rightarrow> pointer_section \<Rightarrow>
     raw_import list \<Rightarrow> raw_import list plt_result" where
  "indirect_section view info symtab indirect section' out =
     (let count = unat (psec_size section') div 8 in
      if MAX_INDIRECT < count then Inl (Malformed ''implausible symbol-pointer section length'')
      else try_fold (indirect_slot view info symtab indirect section') [0 ..< count] out)"

definition parse_indirect :: "macho_view \<Rightarrow> load_info \<Rightarrow> raw_import list \<Rightarrow> raw_import list plt_result" where
  "parse_indirect view info out =
     (case (li_symtab info, li_indirect info) of
        (Some symtab, Some indirect) \<Rightarrow>
          try_fold (indirect_section view info symtab indirect) (li_pointer_sections info) out
      | _ \<Rightarrow> Inr out)"

section \<open>Bind opcodes\<close>

lemma and_then_cong [fundef_cong]:
  "r = r' \<Longrightarrow> (\<And>x. r' = Inr x \<Longrightarrow> f x = g x) \<Longrightarrow> and_then r f = and_then r' g"
  by (cases r') simp_all

function uleb_loop :: "macho_view \<Rightarrow> nat \<Rightarrow> nat \<Rightarrow> 64 word \<Rightarrow> nat \<Rightarrow> (64 word \<times> nat) plt_result" where
  "uleb_loop view end' cursor result shift =
     (if end' \<le> cursor then Inl (Malformed ''ULEB128 runs past the bind stream'')
      else
        and_then (mo_read_byte view (of_nat cursor)) (\<lambda>b.
          if ULEB_MAX_SHIFT < shift then Inl (Malformed ''ULEB128 overflow'')
          else
            let result' = result OR push_bit shift (ucast (b AND 0x7f)) in
            if b AND 0x80 = 0 then Inr (result', cursor + 1)
            else uleb_loop view end' (cursor + 1) result' (shift + 7)))"
  by pat_completeness auto
termination by (relation "measure (\<lambda>(_, end', cursor, _, _). end' - cursor)") auto

definition uleb128 :: "macho_view \<Rightarrow> nat \<Rightarrow> nat \<Rightarrow> (64 word \<times> nat) plt_result" where
  "uleb128 view end' cursor = uleb_loop view end' cursor 0 0"

function sleb_loop :: "macho_view \<Rightarrow> nat \<Rightarrow> nat \<Rightarrow> 64 word \<Rightarrow> nat \<Rightarrow> (64 word \<times> nat) plt_result" where
  "sleb_loop view end' cursor result shift =
     (if end' \<le> cursor then Inl (Malformed ''SLEB128 runs past the bind stream'')
      else
        and_then (mo_read_byte view (of_nat cursor)) (\<lambda>b.
          if ULEB_MAX_SHIFT < shift then Inl (Malformed ''SLEB128 overflow'')
          else
            let result' = result OR push_bit shift (ucast (b AND 0x7f)); shift' = shift + 7 in
            if b AND 0x80 = 0 then
              Inr (if shift' < 64 \<and> b AND 0x40 \<noteq> 0 then result' OR push_bit shift' (- 1) else result', cursor + 1)
            else sleb_loop view end' (cursor + 1) result' shift'))"
  by pat_completeness auto
termination by (relation "measure (\<lambda>(_, end', cursor, _, _). end' - cursor)") auto

definition sleb128 :: "macho_view \<Rightarrow> nat \<Rightarrow> nat \<Rightarrow> (64 word \<times> nat) plt_result" where
  "sleb128 view end' cursor = sleb_loop view end' cursor 0 0"

declare uleb_loop.simps [simp del] sleb_loop.simps [simp del]

record bind_state =
  bs_seg_index :: nat
  bs_seg_offset :: "64 word"
  bs_library_ordinal :: int
  bs_symbol :: "string option"

definition emit_bind :: "macho_view \<Rightarrow> load_info \<Rightarrow> bind_state \<Rightarrow> raw_import list \<Rightarrow> raw_import list plt_result" where
  "emit_bind view info state out =
     (case bs_symbol state of
        None \<Rightarrow> Inl (Malformed ''DO_BIND with no symbol set'')
      | Some name \<Rightarrow>
          if name = TLV_BOOTSTRAP then Inr out
          else if length (li_segments info) \<le> bs_seg_index state
          then Inl (Malformed ''bind segment index out of range'')
          else
            and_then (ok_or (Malformed ''bind slot offset overflow'')
                        (word_checked_add (ms_fileoff (li_segments info ! bs_seg_index state)) (bs_seg_offset state))) (\<lambda>slot_off.
            and_then (mv_slot_address view slot_off) (\<lambda>slot.
              Inr (out @ [macho_import (library_of (bs_library_ordinal state) (li_dylibs info)) name slot False]))))"

definition advance :: "64 word \<Rightarrow> bind_state \<Rightarrow> bind_state" where
  "advance by' state = state\<lparr>bs_seg_offset := bs_seg_offset state + by' + 8\<rparr>"

definition bind_repeat ::
  "macho_view \<Rightarrow> load_info \<Rightarrow> 64 word \<Rightarrow> nat \<Rightarrow> bind_state \<times> raw_import list \<Rightarrow> (bind_state \<times> raw_import list) plt_result" where
  "bind_repeat view info skip k = (\<lambda>(state, out).
     and_then (emit_bind view info state out) (\<lambda>out'. Inr (advance skip state, out')))"

text \<open>One opcode, already read; \<open>cursor\<close> is behind it.\<close>

definition bind_step ::
  "macho_view \<Rightarrow> load_info \<Rightarrow> nat \<Rightarrow> byte \<Rightarrow> nat \<Rightarrow> bind_state \<Rightarrow> raw_import list \<Rightarrow>
     (nat \<times> bind_state \<times> raw_import list) plt_result" where
  "bind_step view info end' b cursor state out =
     (let opcode = b AND BIND_OPCODE_MASK; imm = b AND BIND_IMMEDIATE_MASK in
      if opcode = BIND_OPCODE_DONE \<or> opcode = BIND_OPCODE_SET_TYPE_IMM then Inr (cursor, state, out)
      else if opcode = BIND_OPCODE_SET_DYLIB_ORDINAL_IMM then
        Inr (cursor, state\<lparr>bs_library_ordinal := uint imm\<rparr>, out)
      else if opcode = BIND_OPCODE_SET_DYLIB_ORDINAL_ULEB then
        and_then (uleb128 view end' cursor) (\<lambda>(v, cursor').
          Inr (cursor', state\<lparr>bs_library_ordinal := min (uint v) (2 ^ 63 - 1)\<rparr>, out))
      else if opcode = BIND_OPCODE_SET_DYLIB_SPECIAL_IMM then
        Inr (cursor, state\<lparr>bs_library_ordinal := (if imm = 0 then 0 else uint imm OR NOT 0xf)\<rparr>, out)
      else if opcode = BIND_OPCODE_SET_SYMBOL_TRAILING_FLAGS_IMM then
        and_then (read_cstr_raw view (of_nat cursor)) (\<lambda>(name, name_bytes).
          Inr (cursor + name_bytes + 1, state\<lparr>bs_symbol := normalize_symbol_name name\<rparr>, out))
      else if opcode = BIND_OPCODE_SET_ADDEND_SLEB then
        and_then (sleb128 view end' cursor) (\<lambda>(_, cursor'). Inr (cursor', state, out))
      else if opcode = BIND_OPCODE_SET_SEGMENT_AND_OFFSET_ULEB then
        and_then (uleb128 view end' cursor) (\<lambda>(v, cursor').
          Inr (cursor', state\<lparr>bs_seg_index := unat imm, bs_seg_offset := v\<rparr>, out))
      else if opcode = BIND_OPCODE_ADD_ADDR_ULEB then
        and_then (uleb128 view end' cursor) (\<lambda>(v, cursor').
          Inr (cursor', state\<lparr>bs_seg_offset := bs_seg_offset state + v\<rparr>, out))
      else if opcode = BIND_OPCODE_DO_BIND then
        and_then (emit_bind view info state out) (\<lambda>out'. Inr (cursor, advance 0 state, out'))
      else if opcode = BIND_OPCODE_DO_BIND_ADD_ADDR_ULEB then
        and_then (emit_bind view info state out) (\<lambda>out'.
        and_then (uleb128 view end' cursor) (\<lambda>(add, cursor').
          Inr (cursor', advance add state, out')))
      else if opcode = BIND_OPCODE_DO_BIND_ADD_ADDR_IMM_SCALED then
        and_then (emit_bind view info state out) (\<lambda>out'.
          Inr (cursor, advance (ucast imm * 8) state, out'))
      else if opcode = BIND_OPCODE_DO_BIND_ULEB_TIMES_SKIPPING_ULEB then
        and_then (uleb128 view end' cursor) (\<lambda>(count, cursor1).
        and_then (uleb128 view end' cursor1) (\<lambda>(skip, cursor2).
          if MAX_CHAIN_STEPS < unat count then Inl (Malformed ''implausible bind repeat count'')
          else
            and_then (try_fold (bind_repeat view info skip) [0 ..< unat count] (state, out)) (\<lambda>(state', out').
              Inr (cursor2, state', out'))))
      else Inl (Malformed ''unknown bind opcode''))"

lemma uleb_loop_advances: "uleb_loop view end' cursor result shift = Inr (v, cursor') \<Longrightarrow> cursor < cursor' \<and> cursor' \<le> end'"
proof (induction view end' cursor result shift rule: uleb_loop.induct)
  case (1 view end' cursor result shift)
  from 1(2) obtain b where b: "\<not> end' \<le> cursor" "mo_read_byte view (of_nat cursor) = Inr b" "\<not> ULEB_MAX_SHIFT < shift"
    by (subst (asm) uleb_loop.simps) (auto split: if_splits)
  show ?case
    using 1(1) [OF b(1,2,3) refl] 1(2) b
    by (cases "b AND 0x80 = 0") (subst (asm) (2) uleb_loop.simps; auto simp: Let_def)+
qed

lemma sleb_loop_advances: "sleb_loop view end' cursor result shift = Inr (v, cursor') \<Longrightarrow> cursor < cursor' \<and> cursor' \<le> end'"
proof (induction view end' cursor result shift rule: sleb_loop.induct)
  case (1 view end' cursor result shift)
  from 1(2) obtain b where b: "\<not> end' \<le> cursor" "mo_read_byte view (of_nat cursor) = Inr b" "\<not> ULEB_MAX_SHIFT < shift"
    by (subst (asm) sleb_loop.simps) (auto split: if_splits)
  show ?case
    using 1(1) [OF b(1,2,3) refl refl] 1(2) b
    by (cases "b AND 0x80 = 0") (subst (asm) (2) sleb_loop.simps; auto simp: Let_def)+
qed

text \<open>Every opcode moves the cursor forward, so the stream ends.\<close>

lemma bind_step_advances:
  "bind_step view info end' b cursor state out = Inr (cursor', state', out') \<Longrightarrow> cursor \<le> cursor'"
  by (auto simp: bind_step_def Let_def uleb128_def sleb128_def dest!: uleb_loop_advances sleb_loop_advances split: if_splits)

function bind_loop ::
  "macho_view \<Rightarrow> load_info \<Rightarrow> nat \<Rightarrow> nat \<Rightarrow> bind_state \<Rightarrow> raw_import list \<Rightarrow> raw_import list plt_result" where
  "bind_loop view info end' cursor state out =
     (if end' \<le> cursor then Inr out
      else
        and_then (mo_read_byte view (of_nat cursor)) (\<lambda>b.
        and_then (bind_step view info end' b (cursor + 1) state out) (\<lambda>(cursor', state', out').
          bind_loop view info end' cursor' state' out')))"
  by pat_completeness auto
termination
  by (relation "measure (\<lambda>(_, _, end', cursor, _, _). end' - cursor)") (auto dest!: bind_step_advances)

declare bind_loop.simps [simp del]

definition parse_bind_stream ::
  "macho_view \<Rightarrow> load_info \<Rightarrow> 64 word \<times> 64 word \<Rightarrow> raw_import list \<Rightarrow> raw_import list plt_result" where
  "parse_bind_stream view info range' out =
     (case range' of (off, sz) \<Rightarrow>
        if MAX_BIND_BYTES < sz then Inl (Malformed ''implausible bind-stream size'')
        else
          and_then (ok_or (Malformed ''bind stream overflow'') (word_checked_add off sz)) (\<lambda>end'.
            bind_loop view info (unat end') (unat off)
              \<lparr>bs_seg_index = 0, bs_seg_offset = 0, bs_library_ordinal = BIND_SPECIAL_DYLIB_SELF, bs_symbol = None\<rparr> out))"

section \<open>Chained fixups\<close>

record chain_entry =
  ce_is_bind :: bool
  ce_ordinal :: "32 word"
  ce_authenticated :: bool
  ce_next :: "64 word"

definition decode_chain :: "64 word \<Rightarrow> 16 word \<Rightarrow> chain_entry option" where
  "decode_chain raw format =
     (if format = DYLD_CHAINED_PTR_64 \<or> format = DYLD_CHAINED_PTR_64_OFFSET then
        let is_bind = (drop_bit 63 raw AND 1 = 1) in
        Some \<lparr>ce_is_bind = is_bind, ce_ordinal = (if is_bind then ucast (raw AND 0xffffff) else 0),
              ce_authenticated = False, ce_next = (drop_bit 51 raw AND 0xfff) * 4\<rparr>
      else if format \<in> {DYLD_CHAINED_PTR_ARM64E, DYLD_CHAINED_PTR_ARM64E_KERNEL, DYLD_CHAINED_PTR_ARM64E_USERLAND,
                        DYLD_CHAINED_PTR_ARM64E_FIRMWARE, DYLD_CHAINED_PTR_ARM64E_USERLAND24} then
        let stride = (if format = DYLD_CHAINED_PTR_ARM64E_KERNEL \<or> format = DYLD_CHAINED_PTR_ARM64E_FIRMWARE then 4 else 8)
        in Some \<lparr>ce_is_bind = (drop_bit 62 raw AND 1 = 1),
                 ce_ordinal = (if format = DYLD_CHAINED_PTR_ARM64E_USERLAND24 then ucast (raw AND 0xffffff)
                               else ucast (raw AND 0xffff)),
                 ce_authenticated = (drop_bit 63 raw AND 1 = 1), ce_next = (drop_bit 51 raw AND 0x7ff) * stride\<rparr>
      else None)"

record imports_table =
  it_base :: "64 word"
  it_count :: "32 word"
  it_format :: "32 word"
  it_symbols_base :: "64 word"
  it_blob_end :: "64 word"

definition sign_extend :: "64 word \<Rightarrow> nat \<Rightarrow> int" where
  "sign_extend value bits = (let shift = 64 - bits in sint (push_bit shift value) div 2 ^ shift)"

definition import_record :: "macho_view \<Rightarrow> imports_table \<Rightarrow> 32 word \<Rightarrow> (64 word \<times> int) plt_result" where
  "import_record view tb ordinal =
     (if it_format tb = DYLD_CHAINED_IMPORT then
        and_then (mo_read_u32 view (it_base tb + ucast ordinal * 4)) (\<lambda>word.
          Inr (ucast (drop_bit 9 word AND 0x7fffff), sign_extend (ucast (word AND 0xff)) 8))
      else if it_format tb = DYLD_CHAINED_IMPORT_ADDEND then
        and_then (mo_read_u32 view (it_base tb + ucast ordinal * 8)) (\<lambda>word.
          Inr (ucast (drop_bit 9 word AND 0x7fffff), sign_extend (ucast (word AND 0xff)) 8))
      else if it_format tb = DYLD_CHAINED_IMPORT_ADDEND64 then
        and_then (mo_read_u64 view (it_base tb + ucast ordinal * 16)) (\<lambda>word.
          Inr (drop_bit 32 word AND 0xffffffff, sign_extend (word AND 0xffff) 16))
      else Inl (Malformed ''unsupported chained-fixups imports_format''))"

definition chained_resolve ::
  "macho_view \<Rightarrow> imports_table \<Rightarrow> 32 word \<Rightarrow> string list \<Rightarrow> (string \<times> string option) plt_result" where
  "chained_resolve view tb ordinal dylibs =
     (if it_count tb \<le> ordinal then Inl (Malformed ''chained-fixups import ordinal out of range'')
      else
        and_then (import_record view tb ordinal) (\<lambda>(name_off, lib_ordinal).
        and_then (ok_or (Malformed ''chained-fixups name offset overflow'')
                    (word_checked_add (it_symbols_base tb) name_off)) (\<lambda>name_addr.
        if it_blob_end tb \<le> name_addr then Inl (Malformed ''chained-fixups name offset past blob'')
        else
          and_then (read_cstr view name_addr) (\<lambda>name.
            Inr (library_of lib_ordinal dylibs, normalize_symbol_name name)))))"

text \<open>The chain of one page, with \<open>n\<close> steps left of \<open>MAX_CHAIN_STEPS\<close>.\<close>

fun walk_chain ::
  "macho_view \<Rightarrow> load_info \<Rightarrow> imports_table \<Rightarrow> 16 word \<Rightarrow> nat \<Rightarrow> 64 word \<Rightarrow> raw_import list \<Rightarrow> raw_import list plt_result" where
  "walk_chain view info tb format 0 offset out = Inr out"
| "walk_chain view info tb format (Suc n) offset out =
     and_then (mv_slot_encoding view offset) (\<lambda>raw.
     case decode_chain raw format of
       None \<Rightarrow> Inl (UnsupportedImage ''unsupported chained-pointer format'')
     | Some entry \<Rightarrow>
         and_then (if ce_is_bind entry then
                     and_then (chained_resolve view tb (ce_ordinal entry) (li_dylibs info)) (\<lambda>(library, name).
                       case name of
                         None \<Rightarrow> Inr out
                       | Some nm \<Rightarrow>
                           if nm = TLV_BOOTSTRAP then Inr out
                           else and_then (mv_slot_address view offset) (\<lambda>slot.
                                  Inr (out @ [macho_import library nm slot (ce_authenticated entry)])))
                   else Inr out) (\<lambda>out'.
         if ce_next entry = 0 then Inr out'
         else
           and_then (ok_or (Malformed ''fixup chain offset overflow'') (word_checked_add offset (ce_next entry))) (\<lambda>offset'.
             walk_chain view info tb format n offset' out')))"

definition walk_page ::
  "macho_view \<Rightarrow> load_info \<Rightarrow> imports_table \<Rightarrow> 64 word \<Rightarrow> 64 word \<Rightarrow> 16 word \<Rightarrow> 64 word \<Rightarrow> nat \<Rightarrow> raw_import list \<Rightarrow>
     raw_import list plt_result" where
  "walk_page view info tb seg_starts psize format segment_offset j out =
     and_then (mo_read_u16 view (seg_starts + 22 + of_nat j * 2)) (\<lambda>page_start.
     if page_start = DYLD_CHAINED_PTR_START_NONE then Inr out
     else
       and_then (ok_or (Malformed ''fixup page offset overflow'') (word_checked_add segment_offset (of_nat j * psize))) (\<lambda>v.
       and_then (ok_or (Malformed ''fixup page offset overflow'') (word_checked_add v (ucast page_start))) (\<lambda>offset.
         walk_chain view info tb format MAX_CHAIN_STEPS offset out)))"

definition walk_segment_chains ::
  "macho_view \<Rightarrow> load_info \<Rightarrow> imports_table \<Rightarrow> 64 word \<Rightarrow> raw_import list \<Rightarrow> raw_import list plt_result" where
  "walk_segment_chains view info tb seg_starts out =
     and_then (mo_read_u16 view (seg_starts + 4)) (\<lambda>psize.
     and_then (mo_read_u16 view (seg_starts + 6)) (\<lambda>pointer_format.
     and_then (mo_read_u64 view (seg_starts + 8)) (\<lambda>segment_offset.
     and_then (mo_read_u16 view (seg_starts + 20)) (\<lambda>page_count.
     if psize = 0 then Inl (Malformed ''zero fixup page size'')
     else try_fold (walk_page view info tb seg_starts (ucast psize) pointer_format segment_offset)
            [0 ..< unat page_count] out))))"

definition chained_segment ::
  "macho_view \<Rightarrow> load_info \<Rightarrow> imports_table \<Rightarrow> 64 word \<Rightarrow> nat \<Rightarrow> raw_import list \<Rightarrow> raw_import list plt_result" where
  "chained_segment view info tb starts i out =
     and_then (mo_read_u32 view (starts + 4 + of_nat i * 4)) (\<lambda>seg_info_offset.
     if seg_info_offset = 0 then Inr out
     else
       and_then (ok_or (Malformed ''segment starts overflow'') (word_checked_add starts (ucast seg_info_offset))) (\<lambda>seg_starts.
         walk_segment_chains view info tb seg_starts out))"

definition parse_chained_fixups ::
  "macho_view \<Rightarrow> load_info \<Rightarrow> 64 word \<Rightarrow> 64 word \<Rightarrow> raw_import list \<Rightarrow> raw_import list plt_result" where
  "parse_chained_fixups view info dataoff datasize out =
     (if \<not> mv_file_backed view then Inr out
      else
        and_then (ok_or (Malformed ''chained blob overflow'') (word_checked_add dataoff datasize)) (\<lambda>blob_end.
        if datasize < 28 then Inl (Malformed ''truncated chained-fixups header'')
        else
          and_then (mo_read_u32 view dataoff) (\<lambda>fixups_version.
          if fixups_version \<noteq> 0 then Inl (UnsupportedImage ''unknown chained-fixups version'')
          else
            and_then (mo_read_u32 view (dataoff + 4)) (\<lambda>starts_offset.
            and_then (mo_read_u32 view (dataoff + 8)) (\<lambda>imports_offset.
            and_then (mo_read_u32 view (dataoff + 12)) (\<lambda>symbols_offset.
            and_then (mo_read_u32 view (dataoff + 16)) (\<lambda>imports_count.
            and_then (mo_read_u32 view (dataoff + 20)) (\<lambda>imports_format.
            and_then (ok_or (Malformed ''imports off overflow'') (word_checked_add dataoff (ucast imports_offset))) (\<lambda>imports_base.
            and_then (ok_or (Malformed ''symbols off overflow'') (word_checked_add dataoff (ucast symbols_offset))) (\<lambda>symbols_base.
            and_then (ok_or (Malformed ''starts off overflow'') (word_checked_add dataoff (ucast starts_offset))) (\<lambda>starts.
            and_then (mo_read_u32 view starts) (\<lambda>seg_count.
            if MAX_FIXUP_SEGMENTS < seg_count then Inl (Malformed ''implausible fixup segment count'')
            else
              try_fold (chained_segment view info
                  \<lparr>it_base = imports_base, it_count = imports_count, it_format = imports_format,
                   it_symbols_base = symbols_base, it_blob_end = blob_end\<rparr> starts)
                [0 ..< unat seg_count] out))))))))))))"

section \<open>Imports\<close>

text \<open>The hash map from a slot to the index of its record.\<close>

definition slot_index :: "raw_import list \<Rightarrow> (nat \<times> nat) list" where
  "slot_index out =
     fold (\<lambda>(i, imp) m. if map_of m (ri_slot imp) = None then AList.update (ri_slot imp) i m else m)
       (enumerate 0 out) []"

definition merge_step :: "raw_import \<Rightarrow> raw_import list \<times> (nat \<times> nat) list \<Rightarrow> raw_import list \<times> (nat \<times> nat) list" where
  "merge_step imp = (\<lambda>(out, m).
     case map_of m (ri_slot imp) of
       Some i \<Rightarrow>
         (if i < length out then out[i := (out ! i)\<lparr>ri_authenticated := ri_authenticated imp\<rparr>] else out, m)
     | None \<Rightarrow> (out @ [imp], AList.update (ri_slot imp) (length out) m))"

definition merge_complement :: "raw_import list \<Rightarrow> raw_import list \<Rightarrow> raw_import list" where
  "merge_complement out complement = fst (fold merge_step complement (out, slot_index out))"

fun retain_first :: "nat set \<Rightarrow> raw_import list \<Rightarrow> raw_import list" where
  "retain_first seen [] = []"
| "retain_first seen (imp # out) =
     (if ri_slot imp \<in> seen then retain_first seen out else imp # retain_first (insert (ri_slot imp) seen) out)"

definition complement_of :: "macho_view \<Rightarrow> load_info \<Rightarrow> raw_import list plt_result" where
  "complement_of view info =
     (case li_chained info of
        Some (dataoff, datasize) \<Rightarrow> parse_chained_fixups view info dataoff datasize []
      | None \<Rightarrow> try_fold (parse_bind_stream view info) (li_binds info) [])"

definition macho_parse_imports :: "macho_view \<Rightarrow> raw_import list plt_result" where
  "macho_parse_imports view =
     (if \<not> macho_cpu_supported (mv_cpu_type view)
      then Inl (UnsupportedImage ''Mach-O cputype is not x86-64 or arm64'')
      else
        and_then (read_load_commands view) (\<lambda>info.
        and_then (parse_indirect view info []) (\<lambda>out.
          Inr (retain_first {}
                 (case complement_of view info of Inr complement \<Rightarrow> merge_complement out complement | Inl _ \<Rightarrow> out)))))"

end
