(* ===== verification/Sys_Darwin.thy ===== *)
theory Sys_Darwin
  imports Plt_Slot Macho_Parser Wide_String
begin

unbundle bit_operations_syntax

text \<open>
  \<^verbatim>\<open>crates/plthook/src/sys_macos.rs\<close>: the Darwin platform layer under the slot transaction.  The Mach
  kernel and \<^verbatim>\<open>dyld\<close> are a record of the calls the code makes, together with the bytes of the process and
  of the files on disk.  Page addresses are natural numbers, image addresses are words, 0 is the null
  pointer.  What the transaction needs is proved from what the Mach calls document (the locale
  \<open>darwin_kernel\<close>).
\<close>

section \<open>The operating system\<close>

record vm_region =
  vr_addr :: nat
  vr_size :: nat
  vr_protection :: "32 word"

text \<open>\<open>dladdr\<close> answers the base of the image and the symbol at the address.  \<open>da_vm_protect\<close> takes the
  address, the size and the protection, and answers the kernel's return code.  A path handed to \<open>dlopen\<close> is
  \<open>None\<close> for the null pointer; its second argument is the flags.\<close>

record 'o darwin =
  da_sysconf_pagesize :: int
  da_vm_region :: "nat \<Rightarrow> 'o \<Rightarrow> vm_region option"
  da_vm_protect :: "nat \<Rightarrow> nat \<Rightarrow> 32 word \<Rightarrow> 'o \<Rightarrow> int \<times> 'o"
  da_image_count :: "'o \<Rightarrow> nat"
  da_image_header :: "nat \<Rightarrow> 'o \<Rightarrow> 64 word"
  da_image_slide :: "nat \<Rightarrow> 'o \<Rightarrow> 64 word"
  da_image_name :: "nat \<Rightarrow> 'o \<Rightarrow> string option"
  da_dladdr :: "64 word \<Rightarrow> 'o \<Rightarrow> (64 word \<times> string option) option"
  da_dlsym :: "string \<Rightarrow> 'o \<Rightarrow> nat"
  da_dlopen :: "string option \<Rightarrow> nat \<Rightarrow> 'o \<Rightarrow> nat \<times> 'o"
  da_dlclose :: "nat \<Rightarrow> 'o \<Rightarrow> 'o"
  da_memory :: "'o \<Rightarrow> 64 word \<Rightarrow> byte"
  da_read_file :: "string \<Rightarrow> 'o \<Rightarrow> byte list option"

definition KERN_SUCCESS :: int where "KERN_SUCCESS = 0"
definition VM_PROT_READ :: "32 word" where "VM_PROT_READ = 1"
definition VM_PROT_WRITE :: "32 word" where "VM_PROT_WRITE = 2"
definition VM_PROT_EXECUTE :: "32 word" where "VM_PROT_EXECUTE = 4"
definition VM_PROT_COPY :: "32 word" where "VM_PROT_COPY = 0x10"

section \<open>Page protection\<close>

definition kr_code :: "int \<Rightarrow> int" where
  "kr_code kr = uint (word_of_int kr :: 32 word)"

definition rwx_mask :: "32 word" where
  "rwx_mask = VM_PROT_READ OR VM_PROT_WRITE OR VM_PROT_EXECUTE"

definition as_vm_prot :: "32 word \<Rightarrow> 32 word" where
  "as_vm_prot protection = protection AND rwx_mask"

definition darwin_page_size :: "'o darwin \<Rightarrow> nat" where
  "darwin_page_size d = (if da_sysconf_pagesize d \<le> 0 then 0x4000 else nat (da_sysconf_pagesize d))"

definition darwin_query_protection :: "'o darwin \<Rightarrow> nat \<Rightarrow> 'o \<Rightarrow> 32 word" where
  "darwin_query_protection d address st =
     (case da_vm_region d address st of
        None \<Rightarrow> 0
      | Some region \<Rightarrow>
          if address < vr_addr region \<or> sat_add (vr_addr region) (vr_size region) \<le> address then 0
          else vr_protection region AND rwx_mask)"

text \<open>The transaction keeps a captured protection as a number.\<close>

definition darwin_make_writable :: "'o darwin \<Rightarrow> nat \<Rightarrow> 'o \<Rightarrow> (plt_error + nat) \<times> 'o" where
  "darwin_make_writable d page st =
     (let prot = darwin_query_protection d page st in
      if prot = 0 then (Inl (Protect page 0), st)
      else if prot AND VM_PROT_WRITE = 0 then
        let base = as_vm_prot prot OR VM_PROT_READ OR VM_PROT_WRITE in
        (case da_vm_protect d page (darwin_page_size d) (base OR VM_PROT_COPY) st of
           (kr, st') \<Rightarrow>
             if kr \<noteq> KERN_SUCCESS then
               (case da_vm_protect d page (darwin_page_size d) base st' of
                  (kr2, st'') \<Rightarrow>
                    if kr2 \<noteq> KERN_SUCCESS then (Inl (Protect page (kr_code kr2)), st'') else (Inr (unat prot), st''))
             else (Inr (unat prot), st'))
      else (Inr (unat prot), st))"

definition darwin_restore_protection :: "'o darwin \<Rightarrow> nat \<Rightarrow> nat \<Rightarrow> 'o \<Rightarrow> (plt_error + unit) \<times> 'o" where
  "darwin_restore_protection d page protection st =
     (case da_vm_protect d page (darwin_page_size d) (as_vm_prot (of_nat protection)) st of
        (kr, st') \<Rightarrow> if kr \<noteq> KERN_SUCCESS then (Inl (Protect page (kr_code kr)), st') else (Inr (), st'))"

section \<open>Images\<close>

definition darwin_module_still_loaded :: "'o darwin \<Rightarrow> nat \<Rightarrow> 'o \<Rightarrow> bool" where
  "darwin_module_still_loaded d base st =
     list_ex (\<lambda>i. unat (da_image_header d i st) = base) [0 ..< da_image_count d st]"

definition ptr_u32 :: "(64 word \<Rightarrow> byte) \<Rightarrow> 64 word \<Rightarrow> 32 word" where
  "ptr_u32 memory a = from_le_bytes (map (\<lambda>i. memory (a + of_nat i)) [0 ..< 4])"

definition ptr_u64 :: "(64 word \<Rightarrow> byte) \<Rightarrow> 64 word \<Rightarrow> 64 word" where
  "ptr_u64 memory a = from_le_bytes (map (\<lambda>i. memory (a + of_nat i)) [0 ..< 8])"

definition segment_covers :: "64 word \<Rightarrow> 64 word \<Rightarrow> 64 word \<Rightarrow> 64 word \<Rightarrow> bool" where
  "segment_covers vmaddr vmsize slide address =
     (let start = vmaddr + slide; end' = start + vmsize in start \<le> address \<and> address < end')"

text \<open>\<open>n\<close> commands are left, the next one at \<open>cursor\<close>.\<close>

fun contains_loop :: "(64 word \<Rightarrow> byte) \<Rightarrow> 64 word \<Rightarrow> 64 word \<Rightarrow> 64 word \<Rightarrow> nat \<Rightarrow> 64 word \<Rightarrow> bool" where
  "contains_loop memory slide address cmds_end 0 cursor = False"
| "contains_loop memory slide address cmds_end (Suc n) cursor =
     (if cmds_end < word_sat_add cursor 8 then False
      else
        let cmd = ptr_u32 memory cursor; cmdsize = ucast (ptr_u32 memory (cursor + 4)) :: 64 word in
        if cmdsize < 8 \<or> cmds_end < word_sat_add cursor cmdsize then False
        else if cmd = LC_SEGMENT_64 \<and> 72 \<le> cmdsize \<and>
          segment_covers (ptr_u64 memory (cursor + 24)) (ptr_u64 memory (cursor + 32)) slide address
        then True
        else contains_loop memory slide address cmds_end n (word_sat_add cursor cmdsize))"

definition image_contains :: "(64 word \<Rightarrow> byte) \<Rightarrow> 64 word \<Rightarrow> 64 word \<Rightarrow> 64 word \<Rightarrow> bool" where
  "image_contains memory header slide address =
     (if ptr_u32 memory header \<noteq> MH_MAGIC_64 then False
      else
        let ncmds = ptr_u32 memory (header + 16); sizeofcmds = ucast (ptr_u32 memory (header + 20)) in
        if MAX_COMMANDS < ncmds then False
        else
          contains_loop memory slide address (word_sat_add (word_sat_add header 32) sizeofcmds)
            (unat ncmds) (header + 32))"

fun owning_image :: "'o darwin \<Rightarrow> 64 word \<Rightarrow> 64 word \<Rightarrow> nat list \<Rightarrow> 'o \<Rightarrow> bool" where
  "owning_image d address module_base [] st = False"
| "owning_image d address module_base (i # images) st =
     (if da_image_header d i st \<noteq> module_base then owning_image d address module_base images st
      else image_contains (da_memory d st) module_base (da_image_slide d i st) address)"

definition darwin_slot_belongs :: "'o darwin \<Rightarrow> nat \<Rightarrow> nat \<Rightarrow> 'o \<Rightarrow> bool" where
  "darwin_slot_belongs d address module_base st =
     owning_image d (of_nat address) (of_nat module_base) [0 ..< da_image_count d st] st"

section \<open>Resolving originals\<close>

text \<open>A symbol name that is not UTF-8 matches nothing.\<close>

definition dladdr_name_matches :: "'o darwin \<Rightarrow> nat \<Rightarrow> string \<Rightarrow> 'o \<Rightarrow> bool" where
  "dladdr_name_matches d addr name st =
     (case da_dladdr d (of_nat addr) st of
        Some (_, Some sname) \<Rightarrow> valid_utf8 sname \<and> normalize_symbol_name sname = Some name
      | _ \<Rightarrow> False)"

definition darwin_resolve_original ::
  "'o darwin \<Rightarrow> import_kind \<Rightarrow> string \<Rightarrow> symbol \<Rightarrow> nat \<Rightarrow> 'o \<Rightarrow> nat option \<times> 'o" where
  "darwin_resolve_original d kind library symb slot_value st =
     (case symb of
        SymOrdinal _ \<Rightarrow> (None, st)
      | SymName name \<Rightarrow>
          if slot_value \<noteq> 0 \<and> dladdr_name_matches d slot_value name st then (Some slot_value, st)
          else
            let ptr = da_dlsym d (takeWhile (\<lambda>c. c \<noteq> NUL) name) st in
            if ptr \<noteq> 0 then (Some ptr, st)
            else (if slot_value \<noteq> 0 then Some slot_value else None, st))"

definition darwin_sys :: "'o darwin \<Rightarrow> 'o sys_ops" where
  "darwin_sys d =
     \<lparr>page_size = darwin_page_size d,
      make_writable = darwin_make_writable d,
      restore_protection = darwin_restore_protection d,
      module_still_loaded = darwin_module_still_loaded d,
      slot_belongs_to_module = darwin_slot_belongs d,
      resolve_original = darwin_resolve_original d\<rparr>"

section \<open>What Darwin promises\<close>

text \<open>\<open>prot\<close> is the protection of a page, 0 for an unmapped or inaccessible one.  \<open>mach_vm_region\<close> reports the
  region at or above an address with its protection; \<open>mach_vm_protect\<close> over one page sets the protection
  or fails without effect, and on a backed page it accepts every protection in \<open>valid\<close>.\<close>

locale darwin_kernel =
  fixes d :: "'o darwin"
    and prot :: "'o \<Rightarrow> nat \<Rightarrow> nat"
    and backed :: "'o \<Rightarrow> nat set"
    and valid :: "nat \<Rightarrow> bool"
  assumes region_shows: "page mod darwin_page_size d = 0 \<Longrightarrow>
      prot st page =
        (case da_vm_region d page st of
           None \<Rightarrow> 0
         | Some r \<Rightarrow>
             if vr_addr r \<le> page \<and> page < sat_add (vr_addr r) (vr_size r) then unat (vr_protection r AND rwx_mask) else 0)"
    and protect: "page mod darwin_page_size d = 0 \<Longrightarrow> da_vm_protect d page (darwin_page_size d) flags st = (kr, st') \<Longrightarrow>
      backed st' = backed st \<and>
      prot st' = (if kr = KERN_SUCCESS then (prot st)(page := unat (flags AND rwx_mask)) else prot st)"
    and protect_total: "page mod darwin_page_size d = 0 \<Longrightarrow> page \<in> backed st \<Longrightarrow> valid v \<Longrightarrow>
      \<exists>st'. da_vm_protect d page (darwin_page_size d) (of_nat v) st = (KERN_SUCCESS, st')"
    and accessible_backed: "prot st page \<noteq> 0 \<Longrightarrow> page \<in> backed st \<and> valid (prot st page)"
    and valid_rwx: "valid v \<Longrightarrow> v < 8"

definition darwin_writable :: "nat \<Rightarrow> nat" where
  "darwin_writable pr =
     (if (of_nat pr :: 32 word) AND VM_PROT_WRITE = 0
      then unat (((of_nat pr :: 32 word) OR VM_PROT_READ OR VM_PROT_WRITE) AND rwx_mask) else pr)"

lemma rwx_mask_small: "v < 8 \<Longrightarrow> unat ((of_nat v :: 32 word) AND rwx_mask) = v" "unat (w AND rwx_mask) < 8"
proof -
  have m: "rwx_mask = mask 3" by (simp add: rwx_mask_def VM_PROT_READ_def VM_PROT_WRITE_def VM_PROT_EXECUTE_def mask_eq_decr_exp)
  show "unat (w AND rwx_mask) < 8"
    unfolding m take_bit_eq_mask [symmetric] by (simp add: unsigned_take_bit_eq take_bit_nat_less_exp [of 3, simplified])
  assume "v < 8"
  then show "unat ((of_nat v :: 32 word) AND rwx_mask) = v"
    unfolding m take_bit_eq_mask [symmetric]
    by (simp add: unsigned_take_bit_eq unat_of_nat take_bit_nat_eq_self)
qed

lemma rwx_mask_absorb:
  "(w AND rwx_mask) AND rwx_mask = w AND rwx_mask"
  "(((w AND rwx_mask) OR VM_PROT_READ OR VM_PROT_WRITE) OR VM_PROT_COPY) AND rwx_mask =
     ((w AND rwx_mask) OR VM_PROT_READ OR VM_PROT_WRITE) AND rwx_mask"
proof -
  have "VM_PROT_COPY AND rwx_mask = 0"
    by (simp add: rwx_mask_def VM_PROT_READ_def VM_PROT_WRITE_def VM_PROT_EXECUTE_def VM_PROT_COPY_def)
  then show "(((w AND rwx_mask) OR VM_PROT_READ OR VM_PROT_WRITE) OR VM_PROT_COPY) AND rwx_mask =
     ((w AND rwx_mask) OR VM_PROT_READ OR VM_PROT_WRITE) AND rwx_mask"
    by (simp add: bit.conj_disj_distrib2)
qed (simp add: and.assoc)

context darwin_kernel
begin

lemma query_shows: "page mod darwin_page_size d = 0 \<Longrightarrow> unat (darwin_query_protection d page st) = prot st page"
  by (simp add: region_shows darwin_query_protection_def not_less not_le split: option.splits)

lemma query_rwx: "darwin_query_protection d page st AND rwx_mask = darwin_query_protection d page st"
  by (simp add: darwin_query_protection_def rwx_mask_absorb split: option.splits)

lemma make_cases:
  assumes "page mod darwin_page_size d = 0" "darwin_make_writable d page st = (r, st')"
  shows "backed st' = backed st \<and>
    (case r of
       Inl err \<Rightarrow> prot st' = prot st
     | Inr old \<Rightarrow> old = prot st page \<and> old \<noteq> 0 \<and> prot st' = (prot st)(page := darwin_writable old))"
proof -
  define w where "w = darwin_query_protection d page st"
  let ?base = "w OR VM_PROT_READ OR VM_PROT_WRITE"
  have w: "unat w = prot st page" "w AND rwx_mask = w" using query_shows [OF assms(1)] query_rwx by (auto simp: w_def)
  have nz: "w = 0 \<longleftrightarrow> prot st page = 0" by (simp add: unat_eq_zero flip: w(1))
  have dw: "darwin_writable (prot st page) = (if w AND VM_PROT_WRITE = 0 then unat (?base AND rwx_mask) else prot st page)"
    by (simp add: darwin_writable_def flip: w(1))
  have c: "(?base OR VM_PROT_COPY) AND rwx_mask = ?base AND rwx_mask"
    using rwx_mask_absorb(2) [of w] by (simp add: w(2))
  obtain kr st1 where 1: "da_vm_protect d page (darwin_page_size d) (?base OR VM_PROT_COPY) st = (kr, st1)" by fastforce
  obtain kr2 st2 where 2: "da_vm_protect d page (darwin_page_size d) ?base st1 = (kr2, st2)" by fastforce
  have mk: "darwin_make_writable d page st =
      (if w = 0 then (Inl (Protect page 0), st)
       else if w AND VM_PROT_WRITE = 0 then
         if kr \<noteq> KERN_SUCCESS then
           if kr2 \<noteq> KERN_SUCCESS then (Inl (Protect page (kr_code kr2)), st2) else (Inr (unat w), st2)
         else (Inr (unat w), st1)
       else (Inr (unat w), st))"
    by (simp add: darwin_make_writable_def Let_def as_vm_prot_def w(2) 1 2 flip: w_def)
  note p1 = protect [OF assms(1) 1] and p2 = protect [OF assms(1) 2]
  show ?thesis
    using assms(2) p1 p2 dw unfolding mk by (auto simp: nz w(1) c split: if_splits)
qed

lemma restore_cases:
  assumes "page mod darwin_page_size d = 0" "darwin_restore_protection d page v st = (r, st')"
  shows "backed st' = backed st \<and>
    (case r of Inl err \<Rightarrow> prot st' = prot st | Inr u \<Rightarrow> valid v \<longrightarrow> prot st' = (prot st)(page := v))"
  using assms(2) protect [OF assms(1)] valid_rwx [of v] rwx_mask_small(1) [of v]
  by (auto simp: darwin_restore_protection_def as_vm_prot_def rwx_mask_absorb split: prod.splits if_splits)

end

sublocale darwin_kernel \<subseteq> darwin_pages: stable_pages "darwin_sys d" prot darwin_writable backed valid
proof (intro stable_pages.intro page_protection.intro stable_pages_axioms.intro, goal_cases)
  case (1 page st old st')
  then show ?case using make_cases [of page st "Inr old" st'] accessible_backed [of st page] by (auto simp: darwin_sys_def)
next
  case (2 page st err st')
  then show ?case using make_cases [of page st "Inl err" st'] by (auto simp: darwin_sys_def)
next
  case (3 page v st u st')
  then show ?case using restore_cases [of page v st "Inr u" st'] by (auto simp: darwin_sys_def)
next
  case (4 page v st err st')
  then show ?case using restore_cases [of page v st "Inl err" st'] by (auto simp: darwin_sys_def)
next
  case (5 page st r st')
  then show ?case using make_cases [of page st r st'] accessible_backed [of st page] by (cases r) (simp_all add: darwin_sys_def)
next
  case (6 page v st q st')
  then show ?case using restore_cases [of page v st q st'] by (auto simp: darwin_sys_def)
next
  case (7 page st v)
  then have p: "page mod darwin_page_size d = 0" by (simp add: darwin_sys_def)
  have "as_vm_prot (of_nat v) = (of_nat v :: 32 word)"
    using rwx_mask_small(1) [OF valid_rwx [OF 7(3)]] valid_rwx [OF 7(3)]
    unfolding as_vm_prot_def by (intro iffD2 [OF word_unat_eq_iff]) (simp add: unat_of_nat)
  then show ?case
    using protect_total [OF p 7(2,3)] by (auto simp: darwin_sys_def darwin_restore_protection_def)
qed

section \<open>A page table\<close>

text \<open>A concrete Darwin: the state lists the pages with their protections, the newest first.  \<open>copies\<close> tells
  which pages accept a copy-on-write raise; one image lies at \<open>header\<close>.\<close>

type_synonym page_list = "(nat \<times> nat) list"

definition dt_pages :: "page_list \<Rightarrow> page_list" where
  "dt_pages st = filter (\<lambda>(page, pr). page mod 0x4000 = 0 \<and> page + 0x4000 \<le> U64_MAX \<and> pr < 8) st"

definition dt_backed :: "page_list \<Rightarrow> nat set" where
  "dt_backed st = fst ` set (dt_pages st)"

definition dt_prot :: "page_list \<Rightarrow> nat \<Rightarrow> nat" where
  "dt_prot st page = (case map_of (dt_pages st) page of Some pr \<Rightarrow> pr | None \<Rightarrow> 0)"

definition table_darwin ::
  "(nat \<Rightarrow> bool) \<Rightarrow> 64 word \<Rightarrow> 64 word \<Rightarrow> string \<Rightarrow> (64 word \<Rightarrow> byte) \<Rightarrow> byte list option \<Rightarrow> (string \<Rightarrow> nat) \<Rightarrow> page_list darwin" where
  "table_darwin copies header slide name memory disk symbols =
     \<lparr>da_sysconf_pagesize = 0x4000,
      da_vm_region = (\<lambda>a st.
        let page = page_of 0x4000 a in
        if page \<in> dt_backed st
        then Some \<lparr>vr_addr = page, vr_size = 0x4000, vr_protection = of_nat (dt_prot st page)\<rparr> else None),
      da_vm_protect = (\<lambda>page n flags st.
        if n = 0x4000 \<and> page \<in> dt_backed st \<and> (flags AND VM_PROT_COPY = 0 \<or> copies page)
        then (KERN_SUCCESS, (page, unat (flags AND rwx_mask)) # st) else (2, st)),
      da_image_count = (\<lambda>_. 1),
      da_image_header = (\<lambda>_ _. header),
      da_image_slide = (\<lambda>_ _. slide),
      da_image_name = (\<lambda>_ _. Some name),
      da_dladdr = (\<lambda>_ _. Some (header, None)),
      da_dlsym = (\<lambda>s _. symbols s),
      da_dlopen = (\<lambda>_ _ st. (1, st)),
      da_dlclose = (\<lambda>_ st. st),
      da_memory = (\<lambda>_. memory),
      da_read_file = (\<lambda>_ _. disk)\<rparr>"

lemma dt_prot_backed: "dt_prot st page \<noteq> 0 \<Longrightarrow> page \<in> dt_backed st" "dt_prot st page < 8"
proof -
  have "page \<in> dt_backed st \<and> pr < 8" if "map_of (dt_pages st) page = Some pr" for pr
    using map_of_SomeD [OF that] image_eqI [of page fst "(page, pr)" "set (dt_pages st)"]
    by (auto simp: dt_backed_def dt_pages_def)
  then show "dt_prot st page \<noteq> 0 \<Longrightarrow> page \<in> dt_backed st" "dt_prot st page < 8"
    by (auto simp: dt_prot_def split: option.splits)
qed

lemma dt_update:
  assumes "page \<in> dt_backed st" "v < 8"
  shows "dt_backed ((page, v) # st) = dt_backed st" "dt_prot ((page, v) # st) = (dt_prot st)(page := v)"
proof -
  have "page mod 0x4000 = 0 \<and> page + 0x4000 \<le> U64_MAX" using assms(1) by (auto simp: dt_backed_def dt_pages_def)
  then have "dt_pages ((page, v) # st) = (page, v) # dt_pages st" using assms(2) by (simp add: dt_pages_def)
  then show "dt_backed ((page, v) # st) = dt_backed st" "dt_prot ((page, v) # st) = (dt_prot st)(page := v)"
    using assms(1) by (auto simp: dt_backed_def dt_prot_def fun_eq_iff)
qed

lemma dt_backed_bound: "page \<in> dt_backed st \<Longrightarrow> page + 0x4000 \<le> U64_MAX"
  by (auto simp: dt_backed_def dt_pages_def)

lemma table_page_size: "darwin_page_size (table_darwin copies header slide name memory disk symbols) = 0x4000"
  by (simp add: darwin_page_size_def table_darwin_def)

interpretation darwin_table: darwin_kernel "table_darwin copies header slide name memory disk symbols" dt_prot dt_backed "\<lambda>v. v < 8"
proof (unfold_locales, goal_cases)
  case (1 page st)
  then have "page_of 0x4000 page = page" by (simp add: table_page_size page_of_def)
  moreover have "unat ((of_nat (dt_prot st page) :: 32 word) AND rwx_mask) = dt_prot st page"
    using rwx_mask_small(1) dt_prot_backed(2) by blast
  ultimately show ?case
    using dt_prot_backed(1) [of st page] dt_backed_bound [of page st]
    by (auto simp: table_darwin_def sat_add_def Let_def)
next
  case (2 page flags st kr st')
  then have "da_vm_protect (table_darwin copies header slide name memory disk symbols) page 0x4000 flags st = (kr, st')"
    by (simp only: table_page_size)
  then show ?case
    using dt_update [of page st "unat (flags AND rwx_mask)"] rwx_mask_small(2) [of flags]
    by (auto simp: table_darwin_def KERN_SUCCESS_def split: if_splits)
next
  case (3 page st v)
  have "VM_PROT_COPY AND rwx_mask = 0"
    by (simp add: VM_PROT_COPY_def rwx_mask_def VM_PROT_READ_def VM_PROT_WRITE_def VM_PROT_EXECUTE_def)
  moreover have "(of_nat v :: 32 word) AND rwx_mask = of_nat v"
    using rwx_mask_small(1) [OF 3(3)] 3(3) by (intro iffD2 [OF word_unat_eq_iff]) (simp add: unat_of_nat)
  ultimately have "(of_nat v :: 32 word) AND VM_PROT_COPY = of_nat v AND (rwx_mask AND VM_PROT_COPY)"
    by (simp flip: and.assoc)
  also have "\<dots> = 0" by (simp add: \<open>VM_PROT_COPY AND rwx_mask = 0\<close> and.commute [of rwx_mask])
  finally have "(of_nat v :: 32 word) AND VM_PROT_COPY = 0" .
  then show ?case using 3 unfolding table_page_size by (simp add: table_darwin_def)
next
  case (4 st page)
  then show ?case using dt_prot_backed by blast
qed

section \<open>Properties\<close>

context darwin_kernel
begin

lemmas darwin_apply_success = darwin_pages.apply_success
lemmas darwin_apply_error = darwin_pages.apply_error

end


text \<open>The demonstration: the page refuses the copy-on-write raise, so both calls are made.\<close>

definition darwin_demo :: "page_list darwin" where
  "darwin_demo = table_darwin (\<lambda>_. False) 0x4000 0 ''/a.dylib'' (\<lambda>_. 0) None (\<lambda>_. 7)"

definition darwin_demo_process :: "page_list process" where
  "darwin_demo_process = \<lparr>mem = \<lambda>_. 7, os = [(0x4000, 5)]\<rparr>"

lemma darwin_demo_kernel: "darwin_kernel darwin_demo dt_prot dt_backed (\<lambda>v. v < 8)"
  unfolding darwin_demo_def by (rule darwin_table.darwin_kernel_axioms)


end
