(* ===== verification/Macho_Module.thy ===== *)
theory Macho_Module
  imports Sys_Darwin
begin

unbundle bit_operations_syntax

text \<open>
  \<^verbatim>\<open>crates/plthook/src/module_macho.rs\<close>: a loaded Mach-O image, validated when it is acquired, the view of it
  in the memory of the process, and the part of its file that belongs to the loaded architecture, which
  is read when a fixup chain first asks for it and then kept.
\<close>

section \<open>Modules\<close>

record macho_module =
  mm_base :: "64 word"
  mm_slide :: "64 word"
  mm_segments :: "macho_segment list"
  mm_cpu_type :: "32 word"
  mm_cpu_subtype :: "32 word"
  mm_span :: "64 word \<times> 64 word"
  mm_path :: string
  mm_thin_slice :: "byte list option option"

definition read_mem :: "(64 word \<Rightarrow> byte) \<Rightarrow> 64 word \<Rightarrow> 64 word \<Rightarrow> byte list" where
  "read_mem memory addr len = map (\<lambda>i. memory (addr + of_nat i)) [0 ..< unat len]"

fun locate :: "macho_segment list \<Rightarrow> 64 word \<Rightarrow> 64 word \<Rightarrow> 64 word \<Rightarrow> 64 word plt_result" where
  "locate [] slide off len = Inl (Malformed ''file offset outside any segment'')"
| "locate (seg # segments) slide off len =
     (let seg_end = word_sat_add (ms_fileoff seg) (ms_filesize seg) in
      if ms_fileoff seg \<le> off \<and> off < seg_end then
        if (case word_checked_add off len of None \<Rightarrow> True | Some end' \<Rightarrow> seg_end < end')
        then Inl (Malformed ''read spans past the segment'')
        else
          and_then (ok_or (Malformed ''segment vaddr overflow'') (word_checked_add (ms_vmaddr seg) (off - ms_fileoff seg)))
            (\<lambda>vaddr. Inr (vaddr + slide))
      else locate segments slide off len)"

definition slice_encoding :: "byte list option \<Rightarrow> 64 word \<Rightarrow> 64 word plt_result" where
  "slice_encoding thin off =
     and_then (ok_or (Malformed ''no on-disk file bytes'') thin) (\<lambda>bytes.
     and_then (ok_or (Malformed ''read overflow'') (word_checked_add off 8)) (\<lambda>_.
     and_then (ok_or (Malformed ''chain read past file end'') (get_range (unat off) 8 bytes)) (\<lambda>s.
       Inr (from_le_bytes s))))"

definition macho_slot_address :: "macho_segment list \<Rightarrow> 64 word \<Rightarrow> 64 word \<Rightarrow> 64 word plt_result" where
  "macho_slot_address segments slide off =
     and_then (locate segments slide off (of_nat PTR_SIZE)) (\<lambda>addr.
       if addr mod 8 \<noteq> 0 then Inl (Malformed ''slot is not pointer-aligned'') else Inr addr)"

text \<open>\<open>thin\<close> is what the module's cell for the bytes of the file holds once it is filled.\<close>

definition macho_live_view :: "(64 word \<Rightarrow> byte) \<Rightarrow> byte list option \<Rightarrow> macho_module \<Rightarrow> macho_view" where
  "macho_live_view memory thin m =
     \<lparr>mv_cpu_type = mm_cpu_type m, mv_cpu_subtype = mm_cpu_subtype m,
      mv_read = (\<lambda>off len. and_then (locate (mm_segments m) (mm_slide m) off len) (\<lambda>addr. Inr (read_mem memory addr len))),
      mv_file_backed = (thin \<noteq> None),
      mv_slot_encoding = slice_encoding thin,
      mv_slot_address = macho_slot_address (mm_segments m) (mm_slide m)\<rparr>"

section \<open>The header before the segments are known\<close>

definition MAX_HEADER_SPAN :: "64 word" where "MAX_HEADER_SPAN = 0x4000000"

definition mapped_extent_from :: "'o darwin \<Rightarrow> 64 word \<Rightarrow> 'o \<Rightarrow> 64 word" where
  "mapped_extent_from d addr st =
     (case da_vm_region d (unat addr) st of
        None \<Rightarrow> MAX_HEADER_SPAN
      | Some region \<Rightarrow>
          if vr_addr region \<le> unat addr then
            (case checked_add (vr_addr region) (vr_size region) of
               None \<Rightarrow> MAX_HEADER_SPAN
             | Some region_end \<Rightarrow>
                 if unat addr < region_end then of_nat (region_end - unat addr) else MAX_HEADER_SPAN)
          else MAX_HEADER_SPAN)"

definition header_read ::
  "(64 word \<Rightarrow> byte) \<Rightarrow> 64 word \<Rightarrow> 64 word \<Rightarrow> 64 word \<Rightarrow> 64 word \<Rightarrow> byte list plt_result" where
  "header_read memory base limit off len =
     and_then (ok_or (Malformed ''read overflow'') (word_checked_add off len)) (\<lambda>end'.
     if limit < end' then Inl (Malformed ''header read out of range'')
     else
       and_then (ok_or (Malformed ''header address overflow'') (word_checked_add base off)) (\<lambda>addr.
         Inr (read_mem memory addr len)))"

definition header_view :: "(64 word \<Rightarrow> byte) \<Rightarrow> 64 word \<Rightarrow> 64 word \<Rightarrow> macho_view" where
  "header_view memory base limit =
     \<lparr>mv_cpu_type = ptr_u32 memory (base + 4), mv_cpu_subtype = ptr_u32 memory (base + 8),
      mv_read = header_read memory base limit, mv_file_backed = False,
      mv_slot_encoding = (\<lambda>_. Inl (Malformed ''bootstrap view has no slot encodings'')),
      mv_slot_address = (\<lambda>_. Inl (Malformed ''bootstrap view resolves no slots''))\<rparr>"

section \<open>Acquisition\<close>

definition macho_span_of :: "macho_segment list \<Rightarrow> 64 word \<Rightarrow> 64 word \<times> 64 word" where
  "macho_span_of segments slide =
     (case fold (\<lambda>seg (lo, hi).
              let start = ms_vmaddr seg + slide; end' = start + ms_vmsize seg in (min lo start, max hi end'))
            segments (- 1, 0) of
        (lo, hi) \<Rightarrow> if lo = - 1 then (0, 0) else (lo, hi))"

definition image_name :: "'o darwin \<Rightarrow> nat \<Rightarrow> 'o \<Rightarrow> string option" where
  "image_name d idx st = map_option from_utf8_lossy (da_image_name d idx st)"

definition from_index :: "'o darwin \<Rightarrow> nat \<Rightarrow> 'o \<Rightarrow> macho_module plt_result" where
  "from_index d idx st =
     (let header = da_image_header d idx st in
      if header = 0 then Inl (ModuleNotFound ''index'' 0)
      else
        let slide = da_image_slide d idx st;
            path = (case image_name d idx st of Some p \<Rightarrow> p | None \<Rightarrow> []);
            memory = da_memory d st
        in if ptr_u32 memory header \<noteq> MH_MAGIC_64
           then Inl (UnsupportedImage ''image is not a little-endian 64-bit Mach-O'')
           else
             let boot = header_view memory header (mapped_extent_from d header st) in
             if \<not> macho_cpu_supported (mv_cpu_type boot)
             then Inl (UnsupportedImage ''Mach-O cputype is not x86-64 or arm64'')
             else
               and_then (segments_of boot) (\<lambda>segments.
               if segments = [] then Inl (Malformed ''image has no LC_SEGMENT_64'')
               else
                 Inr \<lparr>mm_base = header, mm_slide = slide, mm_segments = segments, mm_cpu_type = mv_cpu_type boot,
                      mm_cpu_subtype = mv_cpu_subtype boot, mm_span = macho_span_of segments slide, mm_path = path,
                      mm_thin_slice = None\<rparr>))"

text \<open>The first image of a list of indices that passes a test.\<close>

fun first_image :: "(nat \<Rightarrow> bool) \<Rightarrow> nat list \<Rightarrow> nat option" where
  "first_image p [] = None"
| "first_image p (i # images) = (if p i then Some i else first_image p images)"

definition macho_from_base :: "'o darwin \<Rightarrow> 64 word \<Rightarrow> 'o \<Rightarrow> macho_module plt_result" where
  "macho_from_base d base st =
     and_then (ok_or (ModuleNotFound ''base'' 0)
                 (first_image (\<lambda>i. da_image_header d i st = base) [0 ..< da_image_count d st]))
       (\<lambda>i. from_index d i st)"

definition macho_from_address :: "'o darwin \<Rightarrow> 64 word \<Rightarrow> 'o \<Rightarrow> macho_module plt_result" where
  "macho_from_address d address st =
     and_then (ok_or (ModuleNotFound ''address'' 0) (da_dladdr d address st)) (\<lambda>(fbase, _).
       macho_from_base d fbase st)"

definition name_matches :: "string \<Rightarrow> string \<Rightarrow> bool" where
  "name_matches name path =
     (if take 1 name = ''/'' then path = name
      else length name \<le> length path \<and> drop (length path - length name) path = name)"

definition macho_from_name :: "'o darwin \<Rightarrow> string \<Rightarrow> 'o \<Rightarrow> macho_module plt_result" where
  "macho_from_name d name st =
     and_then (ok_or (ModuleNotFound ''name'' 0)
                 (first_image (\<lambda>i. case image_name d i st of None \<Rightarrow> False | Some path \<Rightarrow> name_matches name path)
                    [0 ..< da_image_count d st]))
       (\<lambda>i. from_index d i st)"

definition RTLD_LAZY :: nat where "RTLD_LAZY = 0x1"
definition RTLD_NOLOAD :: nat where "RTLD_NOLOAD = 0x10"
definition RTLD_FIRST :: nat where "RTLD_FIRST = 0x100"

text \<open>One pass over the images: re-open each without loading it, give the reference back, compare.\<close>

fun probe_images :: "'o darwin \<Rightarrow> nat \<Rightarrow> nat \<Rightarrow> nat list \<Rightarrow> 'o \<Rightarrow> nat option \<times> 'o" where
  "probe_images d handle flags [] st = (None, st)"
| "probe_images d handle flags (i # images) st =
     (case (if i = 0 then Some None else map_option (\<lambda>name. Some (takeWhile (\<lambda>c. c \<noteq> NUL) name)) (image_name d i st)) of
        None \<Rightarrow> probe_images d handle flags images st
      | Some path \<Rightarrow>
          (case da_dlopen d path flags st of
             (probe, st1) \<Rightarrow>
               if probe = 0 then probe_images d handle flags images st1
               else
                 let st2 = da_dlclose d probe st1 in
                 if probe = handle then (Some i, st2) else probe_images d handle flags images st2))"

definition macho_from_handle :: "'o darwin \<Rightarrow> nat \<Rightarrow> 'o \<Rightarrow> macho_module plt_result \<times> 'o" where
  "macho_from_handle d handle st =
     (if handle = 0 then (Inl (ModuleNotFound ''null handle'' 0), st)
      else
        let images = [0 ..< da_image_count d st] in
        case probe_images d handle (RTLD_LAZY + RTLD_NOLOAD + 0) images st of
          (Some i, st1) \<Rightarrow> (from_index d i st1, st1)
        | (None, st1) \<Rightarrow>
            (case probe_images d handle (RTLD_LAZY + RTLD_NOLOAD + RTLD_FIRST) images st1 of
               (Some i, st2) \<Rightarrow> (from_index d i st2, st2)
             | (None, st2) \<Rightarrow> (Inl (ModuleNotFound ''handle'' 0), st2)))"

fun collect_images :: "'o darwin \<Rightarrow> nat list \<Rightarrow> 'o \<Rightarrow> macho_module list" where
  "collect_images d [] st = []"
| "collect_images d (i # images) st =
     (case from_index d i st of
        Inr m \<Rightarrow> m # collect_images d images st
      | Inl _ \<Rightarrow> collect_images d images st)"

definition macho_enumerate :: "'o darwin \<Rightarrow> 'o \<Rightarrow> macho_module list plt_result" where
  "macho_enumerate d st = Inr (collect_images d [0 ..< da_image_count d st] st)"

definition macho_module_name :: "macho_module \<Rightarrow> string" where
  "macho_module_name m = rev (takeWhile (\<lambda>c. c \<noteq> CHR ''/'') (rev (mm_path m)))"

definition macho_size :: "macho_module \<Rightarrow> nat" where
  "macho_size m = unat (snd (mm_span m)) - unat (fst (mm_span m))"

section \<open>Imports\<close>

definition load_thin_slice :: "'o darwin \<Rightarrow> string \<Rightarrow> 32 word \<Rightarrow> 32 word \<Rightarrow> 'o \<Rightarrow> byte list option" where
  "load_thin_slice d path cpu_type cpu_subtype st =
     (case da_read_file d path st of
        None \<Rightarrow> None
      | Some file' \<Rightarrow>
          (case thin_slice_range file' cpu_type cpu_subtype of
             Inl _ \<Rightarrow> None
           | Inr (start, end') \<Rightarrow>
               if start \<le> end' \<and> end' \<le> length file' then Some (take (end' - start) (drop start file')) else None))"

definition thin_slice :: "'o darwin \<Rightarrow> macho_module \<Rightarrow> 'o \<Rightarrow> byte list option" where
  "thin_slice d m st =
     (case mm_thin_slice m of
        Some cached \<Rightarrow> cached
      | None \<Rightarrow> load_thin_slice d (mm_path m) (mm_cpu_type m) (mm_cpu_subtype m) st)"

text \<open>The walk asks for the bytes of the file exactly if it reaches the chained fixups.\<close>

definition slice_demanded :: "macho_view \<Rightarrow> bool" where
  "slice_demanded view \<longleftrightarrow>
     macho_cpu_supported (mv_cpu_type view) \<and>
     (case read_load_commands view of
        Inl _ \<Rightarrow> False
      | Inr info \<Rightarrow> li_chained info \<noteq> None \<and> (case parse_indirect view info [] of Inl _ \<Rightarrow> False | Inr _ \<Rightarrow> True))"

definition macho_module_imports :: "'o darwin \<Rightarrow> macho_module \<Rightarrow> 'o \<Rightarrow> import_slot list plt_result \<times> macho_module" where
  "macho_module_imports d m st =
     (let thin = thin_slice d m st; view = macho_live_view (da_memory d st) thin m in
      (and_then (macho_parse_imports view) (\<lambda>raws. Inr (map (import_slot_from_raw (unat (mm_base m))) raws)),
       if slice_demanded view then m\<lparr>mm_thin_slice := Some thin\<rparr> else m))"

end
