(* ===== verification/Macho_Safety.thy ===== *)
theory Macho_Safety
  imports Macho_Module
begin

unbundle bit_operations_syntax

text \<open>
  What holds of the Mach-O parser whatever the bytes of the image are: every slot it reports can be
  patched and has a proper name, the three sources are merged without losing or duplicating a slot, and
  the result depends on bytes of the image only.  The slots a view may give out are an assumption of the
  locale \<open>macho_slots\<close>, which the live view satisfies.
\<close>

section \<open>Every source reports proper imports\<close>

definition proper_name :: "string \<Rightarrow> bool" where
  "proper_name name \<longleftrightarrow> name \<noteq> [] \<and> CHR ''$'' \<notin> set name"

definition mo_reported :: "(64 word \<Rightarrow> bool) \<Rightarrow> raw_import \<Rightarrow> bool" where
  "mo_reported slot_ok raw \<longleftrightarrow>
     (\<exists>a. slot_ok a \<and> ri_slot raw = unat a) \<and>
     (\<exists>name. ri_symbol raw = Some (SymName name) \<and> proper_name name \<and> name \<noteq> TLV_BOOTSTRAP) \<and>
     ri_version raw = None \<and> ri_kind raw = Standard"

lemma normalize_symbol_name_proper: "normalize_symbol_name raw = Some name \<Longrightarrow> proper_name name"
  by (auto simp: normalize_symbol_name_def Let_def proper_name_def split: if_splits dest: set_takeWhileD)

lemma option_case_Inr:
  "(case x of None \<Rightarrow> r | Some y \<Rightarrow> f y) = Inr z \<longleftrightarrow> (x = None \<and> r = Inr z) \<or> (\<exists>y. x = Some y \<and> f y = Inr z)"
  by (cases x) auto

lemma macho_import_reported:
  "slot_ok a \<Longrightarrow> proper_name name \<Longrightarrow> name \<noteq> TLV_BOOTSTRAP \<Longrightarrow> mo_reported slot_ok (macho_import library name a auth)"
  by (auto simp: mo_reported_def macho_import_def)

lemma mo_reported_auth: "mo_reported slot_ok (raw\<lparr>ri_authenticated := b\<rparr>) = mo_reported slot_ok raw"
  by (simp add: mo_reported_def)

locale macho_slots =
  fixes view :: macho_view
    and slot_ok :: "64 word \<Rightarrow> bool"
  assumes slot_address_ok: "mv_slot_address view off = Inr a \<Longrightarrow> slot_ok a"
begin

abbreviation good :: "raw_import list \<Rightarrow> bool" where
  "good out \<equiv> list_all (mo_reported slot_ok) out"

lemma indirect_slot_good: "indirect_slot view info symtab indirect section' i out = Inr out' \<Longrightarrow> good out \<Longrightarrow> good out'"
  by (auto simp: indirect_slot_def Let_def option_case_Inr split: prod.splits if_splits
      intro!: macho_import_reported dest: normalize_symbol_name_proper slot_address_ok)

lemma indirect_section_good:
  "indirect_section view info symtab indirect sec out = Inr out' \<Longrightarrow> good out \<Longrightarrow> good out'"
  unfolding indirect_section_def Let_def
  by (rule try_fold_invariant [where I = good]) (auto split: if_splits intro: indirect_slot_good)

lemma parse_indirect_good: "parse_indirect view info out = Inr out' \<Longrightarrow> good out \<Longrightarrow> good out'"
  unfolding parse_indirect_def
  by (auto split: option.splits intro: try_fold_invariant [where I = good] indirect_section_good)

lemma emit_bind_good:
  "emit_bind view info state out = Inr out' \<Longrightarrow> pred_option proper_name (bs_symbol state) \<Longrightarrow> good out \<Longrightarrow> good out'"
  by (auto simp: emit_bind_def option_case_Inr split: if_splits intro!: macho_import_reported dest: slot_address_ok)

lemma bind_repeat_good:
  assumes "try_fold (bind_repeat view info skip) ks (state, out) = Inr (state', out')"
    and "pred_option proper_name (bs_symbol state)" "good out"
  shows "pred_option proper_name (bs_symbol state') \<and> good out'"
proof -
  have "pred_option proper_name (bs_symbol (fst (state', out'))) \<and> good (snd (state', out'))"
    by (rule try_fold_invariant [where I = "\<lambda>s. pred_option proper_name (bs_symbol (fst s)) \<and> good (snd s)", OF _ assms(1)])
      (use assms(2,3) in \<open>auto simp: bind_repeat_def advance_def split: prod.splits dest: emit_bind_good\<close>)
  then show ?thesis by simp
qed

lemma bind_step_good:
  assumes "bind_step view info end' b cursor state out = Inr (cursor', state', out')"
    and "pred_option proper_name (bs_symbol state)" "good out"
  shows "pred_option proper_name (bs_symbol state') \<and> good out'"
  using assms
  by (auto simp: bind_step_def Let_def advance_def pred_option_def split: if_splits
      dest: emit_bind_good bind_repeat_good normalize_symbol_name_proper)

lemma bind_loop_good:
  "bind_loop view info end' cursor state out = Inr out' \<Longrightarrow> pred_option proper_name (bs_symbol state) \<Longrightarrow> good out \<Longrightarrow> good out'"
proof (induction "end' - cursor" arbitrary: cursor state out rule: less_induct)
  case less
  show ?case
  proof (cases "end' \<le> cursor")
    case True
    with less.prems show ?thesis by (simp add: bind_loop.simps)
  next
    case False
    with less.prems(1) obtain b cursor' state' out1 where
      s: "bind_step view info end' b (cursor + 1) state out = Inr (cursor', state', out1)"
      and l: "bind_loop view info end' cursor' state' out1 = Inr out'"
      by (subst (asm) bind_loop.simps) auto
    have "end' - cursor' < end' - cursor" using bind_step_advances [OF s] False by simp
    from less.hyps [OF this l] bind_step_good [OF s less.prems(2,3)] show ?thesis by blast
  qed
qed

lemma parse_bind_stream_good: "parse_bind_stream view info rng out = Inr out' \<Longrightarrow> good out \<Longrightarrow> good out'"
  by (auto simp: parse_bind_stream_def split: prod.splits if_splits dest: bind_loop_good)

lemma walk_chain_good: "walk_chain view info tb format n offset out = Inr out' \<Longrightarrow> good out \<Longrightarrow> good out'"
proof (induction n arbitrary: offset out)
  case (Suc n)
  then obtain raw entry out1 where
    e: "mv_slot_encoding view offset = Inr raw" "decode_chain raw format = Some entry"
    and o1: "(if ce_is_bind entry then
          and_then (chained_resolve view tb (ce_ordinal entry) (li_dylibs info)) (\<lambda>(library, name).
            case name of
              None \<Rightarrow> Inr out
            | Some nm \<Rightarrow>
                if nm = TLV_BOOTSTRAP then Inr out
                else and_then (mv_slot_address view offset) (\<lambda>slot.
                       Inr (out @ [macho_import library nm slot (ce_authenticated entry)])))
        else Inr out) = Inr out1"
    and rest: "(if ce_next entry = 0 then Inr out1
        else and_then (ok_or (Malformed ''fixup chain offset overflow'') (word_checked_add offset (ce_next entry)))
          (\<lambda>offset'. walk_chain view info tb format n offset' out1)) = Inr out'"
    by (auto simp: option_case_Inr)
  have "good out1"
    using o1 Suc.prems(2)
    by (auto simp: option_case_Inr chained_resolve_def split: if_splits prod.splits
        intro!: macho_import_reported dest: slot_address_ok normalize_symbol_name_proper)
  with rest Suc.IH show ?case by (auto split: if_splits)
qed simp

lemma walk_page_good: "walk_page view info tb seg_starts psize format segment_offset j out = Inr out' \<Longrightarrow> good out \<Longrightarrow> good out'"
  by (auto simp: walk_page_def split: if_splits dest: walk_chain_good)

lemma chained_segment_good: "chained_segment view info tb starts i out = Inr out' \<Longrightarrow> good out \<Longrightarrow> good out'"
  by (auto simp: chained_segment_def walk_segment_chains_def split: if_splits
      intro: try_fold_invariant [where I = good] walk_page_good)

lemma complement_good: "complement_of view info = Inr complement \<Longrightarrow> good complement"
  by (auto simp: complement_of_def parse_chained_fixups_def option_case_Inr split: if_splits
      intro: try_fold_invariant [where I = good] chained_segment_good parse_bind_stream_good)

end

section \<open>Merging the sources\<close>

text \<open>The reference: one import per slot, in the order in which the slots are first seen; it is the first record
  of its slot, with the authentication flag of the last complement record of the slot, if there is one.\<close>

definition slot_of :: "nat \<Rightarrow> raw_import list \<Rightarrow> raw_import option" where
  "slot_of a xs = find (\<lambda>r. ri_slot r = a) xs"

definition first_seen :: "'a list \<Rightarrow> 'a list" where
  "first_seen xs = rev (remdups (rev xs))"

definition merged_record :: "raw_import list \<Rightarrow> raw_import list \<Rightarrow> nat \<Rightarrow> raw_import option" where
  "merged_record out complement a =
     map_option (\<lambda>r. case slot_of a (rev complement) of None \<Rightarrow> r | Some c \<Rightarrow> r\<lparr>ri_authenticated := ri_authenticated c\<rparr>)
       (slot_of a (out @ complement))"

definition merged_imports :: "raw_import list \<Rightarrow> raw_import list \<Rightarrow> raw_import list" where
  "merged_imports out complement =
     map (\<lambda>a. the (merged_record out complement a)) (first_seen (map ri_slot (out @ complement)))"

lemma first_seen_snoc: "first_seen (xs @ [x]) = (if x \<in> set xs then first_seen xs else first_seen xs @ [x])"
  by (simp add: first_seen_def)

lemma first_seen_Cons: "first_seen (x # xs) = x # filter (\<lambda>y. y \<noteq> x) (first_seen xs)"
  proof (induction xs rule: rev_induct)
  case (snoc y xs)
  then show ?case using first_seen_snoc [of "x # xs" y] by (auto simp: first_seen_snoc)
qed (simp add: first_seen_def)

lemma set_first_seen [simp]: "set (first_seen xs) = set xs" "distinct (first_seen xs)"
  by (simp_all add: first_seen_def)

lemma slot_of_append: "slot_of a (xs @ ys) = (case slot_of a xs of None \<Rightarrow> slot_of a ys | Some r \<Rightarrow> Some r)"
  by (induction xs) (auto simp: slot_of_def)

lemma slot_of_simps [simp]:
  "slot_of a [] = None" "slot_of a (x # xs) = (if ri_slot x = a then Some x else slot_of a xs)"
  by (simp_all add: slot_of_def)

lemma slot_of_None: "slot_of a xs = None \<longleftrightarrow> a \<notin> ri_slot ` set xs"
  by (auto simp: slot_of_def find_None_iff)

lemma slot_of_in: "slot_of a xs = Some r \<Longrightarrow> r \<in> set xs \<and> ri_slot r = a"
  by (induction xs) (auto split: if_splits)

lemma retain_first_reference:
  "retain_first seen xs = map (\<lambda>a. the (slot_of a xs)) (filter (\<lambda>a. a \<notin> seen) (first_seen (map ri_slot xs)))"
proof (induction xs arbitrary: seen)
  case (Cons x xs)
  have step: "map (\<lambda>a. the (slot_of a (x # xs))) (filter (\<lambda>a. a \<notin> seen) (filter (\<lambda>a. a \<noteq> ri_slot x) ys)) =
      map (\<lambda>a. the (slot_of a xs)) (filter (\<lambda>a. a \<notin> insert (ri_slot x) seen) ys)" for ys
    by (induction ys) auto
  show ?case
  proof (cases "ri_slot x \<in> seen")
    case True
    then show ?thesis using step [of "first_seen (map ri_slot xs)"] Cons.IH [of seen]
      by (simp add: first_seen_Cons insert_absorb del: slot_of_simps(2) filter_filter)
  next
    case False
    then show ?thesis using step [of "first_seen (map ri_slot xs)"] Cons.IH [of "insert (ri_slot x) seen"]
      by (simp add: first_seen_Cons del: slot_of_simps(2) filter_filter) simp
  qed
qed (simp add: first_seen_def)

text \<open>The map from slots to indices points at the first record of each slot.\<close>

fun first_index :: "nat \<Rightarrow> raw_import list \<Rightarrow> nat option" where
  "first_index a [] = None"
| "first_index a (x # xs) = (if ri_slot x = a then Some 0 else map_option Suc (first_index a xs))"

lemma first_index_snoc:
  "first_index a (xs @ [x]) =
     (case first_index a xs of Some i \<Rightarrow> Some i | None \<Rightarrow> if ri_slot x = a then Some (length xs) else None)"
  by (induction xs) (auto split: option.splits)

lemma first_index_None: "first_index a xs = None \<longleftrightarrow> a \<notin> ri_slot ` set xs"
  by (induction xs) auto

lemma first_index_Some:
  assumes "first_index a xs = Some i"
  shows "i < length xs" "slot_of a xs = Some (xs ! i)" "ri_slot (xs ! i) = a"
  using assms by (induction xs arbitrary: i) (auto split: if_splits)

lemma first_index_update:
  assumes "first_index a xs = Some i" "ri_slot y = a"
  shows "first_index b (xs[i := y]) = first_index b xs" "map ri_slot (xs[i := y]) = map ri_slot xs"
    "slot_of b (xs[i := y]) = (if b = a then Some y else slot_of b xs)"
  using assms by (induction xs arbitrary: i) (auto split: if_splits)

lemma slot_index_first: "map_of (slot_index out) = (\<lambda>a. first_index a out)"
proof -
  have "map_of (fold (\<lambda>(i, imp) m. if map_of m (ri_slot imp) = None then AList.update (ri_slot imp) i m else m)
      (List.enumerate (length xs) ys) m) = (\<lambda>a. first_index a (xs @ ys))"
    if "map_of m = (\<lambda>a. first_index a xs)" for xs ys m
    using that
  proof (induction ys arbitrary: xs m)
    case (Cons y ys)
    let ?m = "if map_of m (ri_slot y) = None then AList.update (ri_slot y) (length xs) m else m"
    have "map_of ?m = (\<lambda>a. first_index a (xs @ [y]))"
      using Cons.prems by (auto simp: fun_eq_iff first_index_snoc update_conv' split: option.splits)
    from Cons.IH [OF this] show ?case by simp
  qed simp
  from this [of "[]" "[]" out] show ?thesis by (simp add: slot_index_def)
qed

text \<open>What the merge has built after a prefix of the complement.\<close>

lemma merge_fold:
  assumes "fold merge_step complement (out, slot_index out) = (out', m)"
  shows "map_of m = (\<lambda>a. first_index a out') \<and> set (map ri_slot out') = set (map ri_slot (out @ complement)) \<and>
    first_seen (map ri_slot out') = first_seen (map ri_slot (out @ complement)) \<and>
    (\<forall>a. slot_of a out' = merged_record out complement a)"
  using assms
proof (induction complement arbitrary: out' m rule: rev_induct)
  case Nil
  then show ?case by (auto simp: slot_index_first merged_record_def option.map_ident)
next
  case (snoc c pre)
  obtain out1 m1 where 1: "fold merge_step pre (out, slot_index out) = (out1, m1)" by fastforce
  note IH = snoc.IH [OF 1]
  from snoc.prems 1 have st: "merge_step c (out1, m1) = (out', m)" by simp
  let ?s = "ri_slot c"
  have rec: "merged_record out (pre @ [c]) a =
      (if a = ?s then Some ((case slot_of ?s (out @ pre) of Some r \<Rightarrow> r\<lparr>ri_authenticated := ri_authenticated c\<rparr> | None \<Rightarrow> c))
       else merged_record out pre a)" for a
    using slot_of_append [of a "out @ pre" "[c]"]
    by (auto simp: merged_record_def split: option.splits)
  show ?case
  proof (cases "first_index ?s out1")
    case None
    then have "?s \<notin> set (map ri_slot (out @ pre))" using IH by (auto simp: first_index_None)
    moreover from this have "slot_of ?s (out @ pre) = None" by (auto simp: slot_of_None)
    moreover from this have "merged_record out pre ?s = None" by (simp add: merged_record_def)
    moreover have "out' = out1 @ [c]" "m = AList.update ?s (length out1) m1"
      using st IH None by (auto simp: merge_step_def)
    ultimately show ?thesis
      using IH None
      by (auto simp: rec fun_eq_iff update_conv' first_index_snoc slot_of_append first_seen_snoc split: option.splits
          simp flip: append_assoc)
  next
    case (Some i)
    then have "?s \<in> set (map ri_slot (out @ pre))" using IH first_index_None [of ?s out1] by auto
    moreover have o': "out' = out1[i := (out1 ! i)\<lparr>ri_authenticated := ri_authenticated c\<rparr>]" "m = m1"
      using st IH Some first_index_Some(1) [OF Some] by (auto simp: merge_step_def)
    moreover obtain r where r: "slot_of ?s (out @ pre) = Some r"
      using calculation(1) slot_of_None [of ?s "out @ pre"] by fastforce
    moreover have "ri_slot r = ?s" using slot_of_in [OF r] by simp
    moreover have "Some (out1 ! i) = merged_record out pre ?s" using IH first_index_Some(2) [OF Some] by simp
    then have "(out1 ! i)\<lparr>ri_authenticated := ri_authenticated c\<rparr> = r\<lparr>ri_authenticated := ri_authenticated c\<rparr>"
      by (simp add: merged_record_def r split: option.splits)
    moreover note first_index_update [OF Some, of "(out1 ! i)\<lparr>ri_authenticated := ri_authenticated c\<rparr>"] first_index_Some [OF Some]
    moreover have "slot_of a out' = merged_record out (pre @ [c]) a" for a
      using calculation IH by (simp add: rec)
    ultimately show ?thesis
      using IH by (auto simp: first_seen_snoc simp flip: append_assoc)
  qed
qed

lemma merge_reference: "retain_first {} (merge_complement out complement) = merged_imports out complement"
proof -
  obtain out' m where f: "fold merge_step complement (out, slot_index out) = (out', m)" by fastforce
  from merge_fold [OF f] show ?thesis
    by (simp add: merge_complement_def f retain_first_reference merged_imports_def)
qed

section \<open>The live view\<close>

text \<open>The cells of the module that may be patched, and its bytes: both lie in the file-backed part of a
  segment, where the loader mapped it.\<close>

definition macho_patchable :: "macho_module \<Rightarrow> 64 word \<Rightarrow> bool" where
  "macho_patchable m a \<longleftrightarrow>
     unat a mod PTR_SIZE = 0 \<and>
     (\<exists>seg \<in> set (mm_segments m). \<exists>k. k + PTR_SIZE \<le> unat (ms_filesize seg) \<and>
        a = ms_vmaddr seg + of_nat k + mm_slide m)"

definition macho_byte :: "macho_module \<Rightarrow> 64 word \<Rightarrow> bool" where
  "macho_byte m a \<longleftrightarrow>
     (\<exists>seg \<in> set (mm_segments m). \<exists>k < unat (ms_filesize seg). a = ms_vmaddr seg + of_nat k + mm_slide m)"

lemma locate_Inr:
  "locate segments slide off len = Inr a \<Longrightarrow>
     \<exists>seg \<in> set segments. \<exists>k. k + unat len \<le> unat (ms_filesize seg) \<and> a = ms_vmaddr seg + of_nat k + slide"
proof (induction segments)
  case (Cons seg segments)
  let ?fin = "word_sat_add (ms_fileoff seg) (ms_filesize seg)"
  show ?case
  proof (cases "ms_fileoff seg \<le> off \<and> off < ?fin")
    case True
    with Cons.prems obtain end' vaddr where
      e: "word_checked_add off len = Some end'" "\<not> ?fin < end'"
      and v: "word_checked_add (ms_vmaddr seg) (off - ms_fileoff seg) = Some vaddr" "a = vaddr + slide"
      by (auto simp: Let_def split: if_splits option.splits)
    have "unat off + unat len \<le> unat (ms_fileoff seg) + unat (ms_filesize seg)"
      using e unat_word_sat_add [of "ms_fileoff seg" "ms_filesize seg"]
      by (simp add: word_checked_add_Some not_less word_le_nat_alt)
    moreover have le: "unat (ms_fileoff seg) \<le> unat off" using True by (simp add: word_le_nat_alt)
    ultimately have "(unat off - unat (ms_fileoff seg)) + unat len \<le> unat (ms_filesize seg)" by simp
    moreover have "a = ms_vmaddr seg + of_nat (unat off - unat (ms_fileoff seg)) + slide"
      using v le by (auto simp: word_checked_add_def of_nat_diff split: if_splits)
    ultimately show ?thesis by auto
  next
    case False
    with Cons show ?thesis by (auto simp: Let_def)
  qed
qed simp

interpretation live_macho: macho_slots "macho_live_view memory thin m" "macho_patchable m"
proof
  fix off a
  assume "mv_slot_address (macho_live_view memory thin m) off = Inr a"
  then have l: "locate (mm_segments m) (mm_slide m) off (of_nat PTR_SIZE) = Inr a" and al: "a mod 8 = 0"
    by (auto simp: macho_live_view_def macho_slot_address_def split: if_splits)
  have "unat (a mod 8) = unat a mod 8" by (simp add: unat_mod)
  with al locate_Inr [OF l] show "macho_patchable m a" by (auto simp: macho_patchable_def PTR_SIZE_def)
qed

lemma macho_live_view_cong:
  assumes "\<And>a. macho_byte m a \<Longrightarrow> memory a = memory' a"
  shows "macho_live_view memory thin m = macho_live_view memory' thin m"
proof -
  have "read_mem memory a len = read_mem memory' a len" if l: "locate (mm_segments m) (mm_slide m) off len = Inr a" for off len a
  proof -
    from locate_Inr [OF l] obtain seg k where seg: "seg \<in> set (mm_segments m)" "k + unat len \<le> unat (ms_filesize seg)"
      "a = ms_vmaddr seg + of_nat k + mm_slide m" by auto
    have "macho_byte m (a + of_nat i)" if "i < unat len" for i
      unfolding macho_byte_def using seg that by (intro bexI [of _ seg] exI [of _ "k + i"]) (auto simp: algebra_simps)
    then show ?thesis using assms by (simp add: read_mem_def)
  qed
  then have "and_then (locate (mm_segments m) (mm_slide m) off len) (\<lambda>a. Inr (read_mem memory a len)) =
      and_then (locate (mm_segments m) (mm_slide m) off len) (\<lambda>a. Inr (read_mem memory' a len))" for off len
    by (cases "locate (mm_segments m) (mm_slide m) off len") auto
  then show ?thesis by (simp add: macho_live_view_def)
qed

section \<open>Two walks over the load commands\<close>

lemma read_segment_segments:
  assumes "read_segment view base cmdsize info = Inr info'"
  shows "\<exists>seg. li_segments info' = li_segments info @ [seg] \<and> 72 \<le> cmdsize \<and>
    mo_read_u64 view (base + 24) = Inr (ms_vmaddr seg) \<and> mo_read_u64 view (base + 32) = Inr (ms_vmsize seg)"
proof -
  from assms obtain vmaddr vmsize fileoff filesize xs info1 where
    r: "mo_read_u64 view (base + 24) = Inr vmaddr" "mo_read_u64 view (base + 32) = Inr vmsize"
      "72 \<le> cmdsize"
      "info1 = info\<lparr>li_segments := li_segments info @
        [\<lparr>ms_vmaddr = vmaddr, ms_vmsize = vmsize, ms_fileoff = fileoff, ms_filesize = filesize\<rparr>]\<rparr>"
    and f: "try_fold (read_section view base) xs info1 = Inr info'"
    by (auto simp: read_segment_def Let_def SEGMENT_COMMAND_64_SIZE_def not_less split: if_splits)
  have "li_segments info' = li_segments info1"
    by (rule try_fold_invariant [where I = "\<lambda>i. li_segments i = li_segments info1", OF _ f])
      (auto simp: read_section_def Let_def)
  with r show ?thesis by simp
qed

lemma parse_one_command_segments:
  assumes "parse_one_command view cmd base cmdsize info = Inr info'" "cmd \<noteq> LC_SEGMENT_64"
  shows "li_segments info' = li_segments info"
  using assms by (auto simp: parse_one_command_def read_bind_range_def Let_def split: if_splits)

lemma header_reads:
  "mo_read_u32 (header_view memory base limit) off = Inr v \<Longrightarrow> ptr_u32 memory (base + off) = v"
  "mo_read_u64 (header_view memory base limit) off = Inr w \<Longrightarrow> ptr_u64 memory (base + off) = w"
  by (auto simp: mo_read_u32_def mo_read_u64_def header_view_def header_read_def ptr_u32_def ptr_u64_def read_mem_def
      word_checked_add_def split: if_splits)

lemma unat_sat_small: "unat a + unat b < 2 ^ 64 \<Longrightarrow> word_sat_add a b = a + b"
  using no_olen_add_nat [of a b] by (simp add: word_sat_add_def)

lemma unat_add_small: "unat a + unat b < 2 ^ 64 \<Longrightarrow> unat (a + b :: 64 word) = unat a + unat b"
  by (simp add: unat_word_ariths)

abbreviation covered :: "macho_segment list \<Rightarrow> 64 word \<Rightarrow> 64 word \<Rightarrow> bool" where
  "covered segments slide a \<equiv> list_ex (\<lambda>seg. segment_covers (ms_vmaddr seg) (ms_vmsize seg) slide a) segments"

text \<open>The parser fails where the liveness check would stop early, so after a successful parse both walks have
  seen the same segments.\<close>

lemma contains_loop_command_loop:
  assumes "command_loop (header_view memory base limit) region_end n cursor info = Inr info'"
    and "unat base + unat region_end < 2 ^ 64"
  shows "\<exists>new. li_segments info' = li_segments info @ new \<and>
    contains_loop memory slide a (base + region_end) n (base + cursor) = covered new slide a"
  using assms(1)
proof (induction n arbitrary: cursor info)
  case (Suc n)
  let ?v = "header_view memory base limit"
  from Suc.prems obtain hdr_end cmd cmdsize32 nxt info1 where
    h: "word_checked_add cursor 8 = Some hdr_end" "\<not> region_end < hdr_end"
    and r: "mo_read_u32 ?v cursor = Inr cmd" "mo_read_u32 ?v (cursor + 4) = Inr cmdsize32"
    and sz: "\<not> (ucast cmdsize32 :: 64 word) < 8"
    and nx: "word_checked_add cursor (ucast cmdsize32) = Some nxt" "\<not> region_end < nxt"
    and p: "parse_one_command ?v cmd cursor (ucast cmdsize32) info = Inr info1"
    and l: "command_loop ?v region_end n nxt info1 = Inr info'"
    by (auto simp: Let_def split: if_splits)
  from Suc.IH [OF l] obtain new where new: "li_segments info' = li_segments info1 @ new"
    "contains_loop memory slide a (base + region_end) n (base + nxt) = covered new slide a" by auto
  have b: "unat cursor + 8 = unat hdr_end" "unat hdr_end \<le> unat region_end"
    "unat cursor + unat (ucast cmdsize32 :: 64 word) = unat nxt" "unat nxt \<le> unat region_end"
    using h nx by (simp_all add: word_checked_add_Some not_less word_le_nat_alt)
  have u: "unat (base + cursor) = unat base + unat cursor" "unat (base + region_end) = unat base + unat region_end"
    using b assms(2) by (simp_all add: unat_add_small)
  have "word_sat_add (base + cursor) 8 = base + cursor + 8"
    "word_sat_add (base + cursor) (ucast cmdsize32) = base + cursor + ucast cmdsize32"
    using b assms(2) u by (simp_all add: unat_sat_small)
  moreover have "\<not> base + region_end < base + cursor + 8" "\<not> base + region_end < base + cursor + ucast cmdsize32"
    using b assms(2) u by (simp_all add: word_less_nat_alt unat_add_small)
  moreover have "base + cursor + ucast cmdsize32 = base + nxt"
    using nx(1) by (auto simp: word_checked_add_def add.assoc split: if_splits)
  ultimately have step: "contains_loop memory slide a (base + region_end) (Suc n) (base + cursor) =
      (cmd = LC_SEGMENT_64 \<and> 72 \<le> (ucast cmdsize32 :: 64 word) \<and>
         segment_covers (ptr_u64 memory (base + cursor + 24)) (ptr_u64 memory (base + cursor + 32)) slide a \<or>
       covered new slide a)"
    using header_reads(1) [OF r(1)] header_reads(1) [OF r(2)] sz new(2) by (simp add: Let_def add.assoc) blast
  show ?case
  proof (cases "cmd = LC_SEGMENT_64")
    case True
    with p have "read_segment ?v cursor (ucast cmdsize32) info = Inr info1" by (simp add: parse_one_command_def)
    from read_segment_segments [OF this] obtain seg where
      "li_segments info1 = li_segments info @ [seg]" "72 \<le> (ucast cmdsize32 :: 64 word)"
      "ptr_u64 memory (base + cursor + 24) = ms_vmaddr seg" "ptr_u64 memory (base + cursor + 32) = ms_vmsize seg"
      by (auto dest: header_reads(2) simp: add.assoc)
    then show ?thesis using step new(1) True by (intro exI [of _ "seg # new"]) simp
  next
    case False
    then show ?thesis using step new(1) parse_one_command_segments [OF p False] by auto
  qed
qed simp

section \<open>The bytes of the file\<close>

text \<open>Everything but the walk along the fixup chains is independent of the file.\<close>

abbreviation with_file :: "macho_view \<Rightarrow> bool \<Rightarrow> (64 word \<Rightarrow> 64 word plt_result) \<Rightarrow> macho_view" where
  "with_file view b e \<equiv> view\<lparr>mv_file_backed := b, mv_slot_encoding := e\<rparr>"

lemma reads_with_file [simp]:
  "mo_read_u16 (with_file view b e) = mo_read_u16 view" "mo_read_u32 (with_file view b e) = mo_read_u32 view"
  "mo_read_u64 (with_file view b e) = mo_read_u64 view" "mo_read_byte (with_file view b e) = mo_read_byte view"
  by (simp_all add: fun_eq_iff mo_read_u16_def mo_read_u32_def mo_read_u64_def mo_read_byte_def)

lemma name_loop_with_file [simp]: "mo_name_loop (with_file view b e) = mo_name_loop view"
proof (intro ext)
  fix err n off bytes
  show "mo_name_loop (with_file view b e) err n off bytes = mo_name_loop view err n off bytes"
    by (induction n arbitrary: off bytes) (auto intro: and_then_cong)
qed

lemma names_with_file [simp]:
  "read_cstr_raw (with_file view b e) = read_cstr_raw view" "read_cstr (with_file view b e) = read_cstr view"
  "read_str_in_table (with_file view b e) = read_str_in_table view"
  unfolding read_cstr_raw_def read_cstr_def read_str_in_table_def name_loop_with_file by (rule refl)+

lemma sections_with_file: "read_section (with_file view b e) = read_section view"
  unfolding read_section_def reads_with_file by (rule refl)

lemma segments_with_file: "read_segment (with_file view b e) = read_segment view"
  unfolding read_segment_def sections_with_file reads_with_file by (rule refl)

lemma bind_ranges_with_file: "read_bind_range (with_file view b e) = read_bind_range view"
  unfolding read_bind_range_def reads_with_file by (rule refl)

lemma parse_one_command_with_file [simp]: "parse_one_command (with_file view b e) = parse_one_command view"
  unfolding parse_one_command_def segments_with_file bind_ranges_with_file reads_with_file names_with_file by (rule refl)

lemma command_loop_with_file: "command_loop (with_file view b e) region_end n = command_loop view region_end n"
proof (induction n)
  case (Suc n)
  show ?case
    by (intro ext) (unfold command_loop.simps reads_with_file parse_one_command_with_file Suc.IH, rule refl)
qed (simp add: fun_eq_iff)

lemma commands_with_file [simp]: "read_load_commands (with_file view b e) = read_load_commands view"
  unfolding read_load_commands_def reads_with_file command_loop_with_file by (rule refl)

lemma slots_with_file: "mv_slot_address (with_file view b e) = mv_slot_address view" "is_arm64e (with_file view b e) = is_arm64e view"
  by (simp_all add: is_arm64e_def)

lemma indirect_slot_with_file: "indirect_slot (with_file view b e) = indirect_slot view"
  unfolding indirect_slot_def reads_with_file names_with_file slots_with_file by (rule refl)

lemma indirect_with_file [simp]: "parse_indirect (with_file view b e) = parse_indirect view"
  unfolding parse_indirect_def indirect_section_def indirect_slot_with_file by (rule refl)

lemma leb_with_file [simp]:
  "uleb128 (with_file view b e) = uleb128 view" "sleb128 (with_file view b e) = sleb128 view"
proof -
  have "uleb_loop (with_file view b e) end' cursor r shift = uleb_loop view end' cursor r shift" for end' cursor r shift
  proof (induction view end' cursor r shift rule: uleb_loop.induct)
    case (1 view end' cursor r shift)
    then show ?case by (subst (1 2) uleb_loop.simps) (auto simp: Let_def intro!: and_then_cong)
  qed
  moreover have "sleb_loop (with_file view b e) end' cursor r shift = sleb_loop view end' cursor r shift" for end' cursor r shift
  proof (induction view end' cursor r shift rule: sleb_loop.induct)
    case (1 view end' cursor r shift)
    then show ?case by (subst (1 2) sleb_loop.simps) (auto simp: Let_def intro!: and_then_cong)
  qed
  ultimately show "uleb128 (with_file view b e) = uleb128 view" "sleb128 (with_file view b e) = sleb128 view"
    by (simp_all add: fun_eq_iff uleb128_def sleb128_def)
qed

lemma emit_bind_with_file: "emit_bind (with_file view b e) = emit_bind view"
  unfolding emit_bind_def slots_with_file by (rule refl)

lemma bind_repeat_with_file: "bind_repeat (with_file view b e) = bind_repeat view"
  unfolding bind_repeat_def emit_bind_with_file by (rule refl)

lemma bind_step_with_file [simp]: "bind_step (with_file view b e) = bind_step view"
  unfolding bind_step_def emit_bind_with_file bind_repeat_with_file leb_with_file names_with_file by (rule refl)

lemma binds_with_file [simp]: "parse_bind_stream (with_file view b e) = parse_bind_stream view"
proof -
  have "bind_loop (with_file view b e) info end' cursor state out = bind_loop view info end' cursor state out"
    for info end' cursor state out
  proof (induction view info end' cursor state out rule: bind_loop.induct)
    case (1 view info end' cursor state out)
    then show ?case by (subst (1 2) bind_loop.simps) (auto intro!: and_then_cong)
  qed
  then show ?thesis by (simp add: fun_eq_iff parse_bind_stream_def)
qed

lemma slice_demanded_with_file [simp]: "slice_demanded (with_file view b e) = slice_demanded view"
  unfolding slice_demanded_def commands_with_file indirect_with_file by simp

lemma parse_without_chains:
  assumes "\<not> slice_demanded view"
  shows "macho_parse_imports (with_file view b e) = macho_parse_imports view"
proof (cases "macho_cpu_supported (mv_cpu_type view)")
  case True
  show ?thesis
  proof (cases "read_load_commands view")
    case (Inr info)
    show ?thesis
    proof (cases "parse_indirect view info []")
      case (Inr out)
      then have "li_chained info = None"
        using assms True \<open>read_load_commands view = Inr info\<close>
        by (cases "li_chained info") (auto simp: slice_demanded_def)
      then have "complement_of (with_file view b e) info = complement_of view info"
        unfolding complement_of_def binds_with_file by simp
      then show ?thesis using True \<open>read_load_commands view = Inr info\<close> Inr by (simp add: macho_parse_imports_def)
    qed (simp add: macho_parse_imports_def True Inr)
  qed (simp add: macho_parse_imports_def True)
qed (simp add: macho_parse_imports_def)

lemma live_view_with_file:
  "macho_live_view memory thin' m =
     with_file (macho_live_view memory thin m) (thin' \<noteq> None) (slice_encoding thin')"
  by (simp add: macho_live_view_def)

section \<open>Properties\<close>

lemma macho_parse_imports_cases:
  assumes "macho_parse_imports view = Inr imps"
  obtains info out where "read_load_commands view = Inr info" "parse_indirect view info [] = Inr out"
    "imps = merged_imports out (case complement_of view info of Inr complement \<Rightarrow> complement | Inl _ \<Rightarrow> [])"
proof -
  from assms obtain info out where p: "read_load_commands view = Inr info" "parse_indirect view info [] = Inr out"
    "imps = retain_first {} (case complement_of view info of Inr complement \<Rightarrow> merge_complement out complement | Inl _ \<Rightarrow> out)"
    by (auto simp: macho_parse_imports_def split: if_splits)
  have "merge_complement out [] = out" by (simp add: merge_complement_def)
  then have "imps = merged_imports out (case complement_of view info of Inr complement \<Rightarrow> complement | Inl _ \<Rightarrow> [])"
    using p(3) by (simp flip: merge_reference split: sum.splits)
  with p(1,2) that show ?thesis by blast
qed

lemma merged_imports_slots: "map ri_slot (merged_imports out complement) = first_seen (map ri_slot (out @ complement))"
proof -
  have "ri_slot (the (merged_record out complement a)) = a" if a: "a \<in> ri_slot ` set (out @ complement)" for a
  proof -
    obtain r where r: "slot_of a (out @ complement) = Some r" using a slot_of_None [of a "out @ complement"] by fastforce
    then show ?thesis using slot_of_in [OF r] by (auto simp: merged_record_def split: option.splits)
  qed
  then show ?thesis by (auto simp: merged_imports_def comp_def intro!: map_idI)
qed

lemma merged_imports_good:
  assumes "list_all (mo_reported ok) out" "list_all (mo_reported ok) complement"
  shows "list_all (mo_reported ok) (merged_imports out complement)"
proof -
  have "mo_reported ok (the (merged_record out complement a))" if a: "a \<in> ri_slot ` set (out @ complement)" for a
  proof -
    obtain r where r: "slot_of a (out @ complement) = Some r" using a slot_of_None [of a "out @ complement"] by fastforce
    then have "mo_reported ok r" using slot_of_in [OF r] assms by (auto simp: list_all_iff)
    then show ?thesis using r by (auto simp: merged_record_def mo_reported_auth split: option.splits)
  qed
  then show ?thesis by (auto simp: merged_imports_def list_all_iff)
qed

context macho_slots
begin

lemma macho_parse_imports_good:
  assumes "macho_parse_imports view = Inr imps"
  shows "list_all (mo_reported slot_ok) imps" "distinct (map ri_slot imps)"
proof -
  from assms obtain info out where p: "parse_indirect view info [] = Inr out"
    "imps = merged_imports out (case complement_of view info of Inr complement \<Rightarrow> complement | Inl _ \<Rightarrow> [])"
    by (rule macho_parse_imports_cases)
  show "distinct (map ri_slot imps)" by (simp add: p(2) merged_imports_slots)
  show "good imps"
    using parse_indirect_good [OF p(1)] complement_good [of info]
    by (auto simp: p(2) intro!: merged_imports_good split: sum.splits)
qed

end


end
