(* ===== verification/Macho_Binds.thy ===== *)
theory Macho_Binds
  imports Macho_Safety Elf_Image
begin

unbundle bit_operations_syntax

text \<open>
  The bind opcodes of a Mach-O image against their format.  \<open>mo_holds view c bs\<close> says that the image has the
  bytes \<open>bs\<close> at the offset \<open>c\<close>; a stream is a list of opcodes with an encoder, its meaning is the list of
  places that it binds, and the interpreter of the code is proved to report exactly these.
\<close>

section \<open>Bytes of an image\<close>

definition mo_holds :: "macho_view \<Rightarrow> 64 word \<Rightarrow> byte list \<Rightarrow> bool" where
  "mo_holds view c bs \<longleftrightarrow>
     (\<forall>i n. i + unat n \<le> length bs \<longrightarrow> mv_read view (c + of_nat i) n = Inr (take (unat n) (drop i bs)))"

lemma mo_holdsD: "mo_holds view c bs \<Longrightarrow> i + unat n \<le> length bs \<Longrightarrow>
    mv_read view (c + of_nat i) n = Inr (take (unat n) (drop i bs))"
  by (simp add: mo_holds_def)

lemma mo_holds_prefix: "mo_holds view c (xs @ ys) \<Longrightarrow> mo_holds view c xs"
  unfolding mo_holds_def
proof (intro allI impI)
  fix i n
  assume h: "\<forall>i n. i + unat n \<le> length (xs @ ys) \<longrightarrow> mv_read view (c + of_nat i) n = Inr (take (unat n) (drop i (xs @ ys)))"
    and b: "i + unat (n :: 64 word) \<le> length xs"
  show "mv_read view (c + of_nat i) n = Inr (take (unat n) (drop i xs))"
    using h [rule_format, of i n] b by simp
qed

lemma mo_holds_suffix: "mo_holds view c (xs @ ys) \<Longrightarrow> mo_holds view (c + of_nat (length xs)) ys"
  unfolding mo_holds_def
proof (intro allI impI)
  fix i n
  assume h: "\<forall>i n. i + unat n \<le> length (xs @ ys) \<longrightarrow> mv_read view (c + of_nat i) n = Inr (take (unat n) (drop i (xs @ ys)))"
    and b: "i + unat (n :: 64 word) \<le> length ys"
  show "mv_read view (c + of_nat (length xs) + of_nat i) n = Inr (take (unat n) (drop i ys))"
    using h [rule_format, of "length xs + i" n] b by (simp add: add.assoc)
qed

lemma mo_holds_at: "mo_holds view c bs \<Longrightarrow> drop i bs = xs @ ys \<Longrightarrow> i \<le> length bs \<Longrightarrow> mo_holds view (c + of_nat i) xs"
  using mo_holds_suffix [of view c "take i bs" "xs @ ys"] mo_holds_prefix by (metis append_take_drop_id length_take min.absorb2)

lemma mo_read_holds:
  "mo_holds view c (le_bytes (w16 :: 16 word) @ ys) \<Longrightarrow> mo_read_u16 view c = Inr w16"
  "mo_holds view c (le_bytes (w32 :: 32 word) @ ys) \<Longrightarrow> mo_read_u32 view c = Inr w32"
  "mo_holds view c (le_bytes (w64 :: 64 word) @ ys) \<Longrightarrow> mo_read_u64 view c = Inr w64"
  "mo_holds view c (b # ys) \<Longrightarrow> mo_read_byte view c = Inr b"
  by (drule mo_holdsD [where i = 0 and n = 2] mo_holdsD [where i = 0 and n = 4] mo_holdsD [where i = 0 and n = 8]
        mo_holdsD [where i = 0 and n = 1],
      simp, simp add: mo_read_u16_def mo_read_u32_def mo_read_u64_def mo_read_byte_def)+

lemma mo_name_loop_holds:
  assumes "mo_holds view c (name @ 0 # rest)" "0 \<notin> set name" "length name < n"
  shows "mo_name_loop view err n c acc = Inr (acc @ chars_of name)"
  using assms
proof (induction name arbitrary: n c acc)
  case Nil
  then obtain k where "n = Suc k" by (cases n) auto
  then show ?case using mo_read_holds(4) [of view c 0 rest] Nil.prems(1) by (simp add: chars_of_def)
next
  case (Cons b name)
  then obtain k where n: "n = Suc k" by (cases n) auto
  have "mo_holds view (c + 1) (name @ 0 # rest)" using mo_holds_suffix [of view c "[b]"] Cons.prems(1) by simp
  from Cons.IH [OF this, of k "acc @ [char_of (unat b)]"] Cons.prems(2,3)
  show ?case using mo_read_holds(4) [of view c b] Cons.prems(1) n by (simp add: chars_of_def)
qed

lemma read_cstr_raw_holds:
  assumes "mo_holds view c (name @ 0 # rest)" "0 \<notin> set name" "length name \<le> MAX_NAME_LEN"
  shows "read_cstr_raw view c = Inr (from_utf8_lossy (chars_of name), length name)"
proof -
  have "mo_name_loop view err (MAX_NAME_LEN + 1) c [] = Inr (chars_of name)" for err
    using mo_name_loop_holds [OF assms(1,2), of "MAX_NAME_LEN + 1" err "[]"] assms(3) by (simp del: mo_name_loop.simps)
  then show ?thesis by (simp add: read_cstr_raw_def chars_of_def del: mo_name_loop.simps)
qed

section \<open>Variable-length integers\<close>

fun uleb_bytes :: "nat \<Rightarrow> byte list" where
  "uleb_bytes v = (if v < 128 then [of_nat v] else of_nat (128 + v mod 128) # uleb_bytes (v div 128))"

declare uleb_bytes.simps [simp del]

lemma byte_low7: "n < 256 \<Longrightarrow> (of_nat n :: byte) AND 0x7f = of_nat (n mod 128)"
proof -
  have "(0x7f :: byte) = mask 7" by (simp add: mask_eq_exp_minus_1)
  then show ?thesis by (simp only: take_bit_eq_mask [symmetric] take_bit_of_nat) (simp add: take_bit_eq_mod)
qed

lemma byte_high: "n < 256 \<Longrightarrow> (of_nat n :: byte) AND 0x80 = 0 \<longleftrightarrow> n < 128"
proof -
  assume n: "n < 256"
  have "(of_nat n :: byte) AND 2 ^ 7 = 0 \<longleftrightarrow> \<not> bit (of_nat n :: byte) 7" by (rule and_exp_eq_0_iff_not_bit)
  also have "bit (of_nat n :: byte) 7 \<longleftrightarrow> odd (n div 128)" by (simp add: bit_of_nat_iff) (simp add: bit_iff_odd)
  also have "odd (n div 128) \<longleftrightarrow> \<not> n < 128"
  proof (cases "n < 128")
    case False
    then have "n div 128 = 1" using n by (intro div_nat_eqI) simp_all
    with False show ?thesis by simp
  qed simp
  finally show ?thesis by simp
qed

lemma or_shifted:
  assumes "unat r < 2 ^ s" "s < 64"
  shows "r OR push_bit s x = r + push_bit s (x :: 64 word)"
proof -
  have "r = take_bit s r"
    using assms by (simp add: word_unat_eq_iff unsigned_take_bit_eq take_bit_nat_eq_self)
  moreover have "take_bit s r AND push_bit s x = 0" by (rule bit_eqI) (auto simp: bit_simps)
  ultimately have "r AND push_bit s x = 0" by simp
  then show ?thesis by (simp add: disjunctive_add_eq_or)
qed

lemma uleb_loop_holds:
  assumes "mo_holds view (of_nat c) (uleb_bytes v @ rest)" "c + length (uleb_bytes v) \<le> end'"
    and "v * 2 ^ s < 2 ^ 64" "s < 64" "unat r < 2 ^ s"
  shows "uleb_loop view end' c r s = Inr (r + of_nat (v * 2 ^ s), c + length (uleb_bytes v))"
  using assms
proof (induction v arbitrary: c r s rule: uleb_bytes.induct)
  case (1 v)
  have sh: "push_bit s (ucast (of_nat k :: byte)) = (of_nat (k * 2 ^ s) :: 64 word)" if "k < 128" for k
    using that by (simp add: push_bit_eq_mult unsigned_of_nat take_bit_nat_eq_self)
  show ?case
  proof (cases "v < 128")
    case True
    let ?b = "of_nat v :: byte"
    have "mo_read_byte view (of_nat c) = Inr ?b" "c < end'"
      using mo_read_holds(4) [of view "of_nat c" ?b rest] "1.prems"(1,2) True by (simp_all add: uleb_bytes.simps [of v])
    moreover have "?b AND 0x7f = ?b" "?b AND 0x80 = 0" using True byte_low7 [of v] byte_high [of v] by simp_all
    moreover have "r OR push_bit s (ucast ?b) = r + of_nat (v * 2 ^ s)"
      by (subst or_shifted [OF "1.prems"(5,4)]) (simp only: sh [OF True])
    ultimately show ?thesis
      using True "1.prems"(4) by (simp add: uleb_loop.simps [of view end' c] ULEB_MAX_SHIFT_def uleb_bytes.simps [of v])
  next
    case False
    let ?b = "of_nat (128 + v mod 128) :: byte" and ?q = "v div 128"
    let ?r = "r + of_nat ((v mod 128) * 2 ^ s) :: 64 word"
    have ub: "uleb_bytes v = ?b # uleb_bytes ?q" using False by (simp add: uleb_bytes.simps [of v])
    have h: "mo_read_byte view (of_nat c) = Inr ?b" "c < end'"
      using mo_read_holds(4) [of view "of_nat c" ?b "uleb_bytes ?q @ rest"] "1.prems"(1,2) ub by simp_all
    have "?b AND 0x7f = of_nat (v mod 128)" "?b AND 0x80 \<noteq> 0"
      using byte_low7 [of "128 + v mod 128"] byte_high [of "128 + v mod 128"] by (simp_all add: mod_add_left_eq)
    moreover have "r OR push_bit s (ucast (of_nat (v mod 128) :: byte)) = ?r"
      by (subst or_shifted [OF "1.prems"(5,4)]) (rule arg_cong [OF sh], simp)
    ultimately have step: "uleb_loop view end' c r s = uleb_loop view end' (c + 1) ?r (s + 7)"
      using h "1.prems"(4) by (simp add: uleb_loop.simps [of view end' c] ULEB_MAX_SHIFT_def Let_def)
    have "(2 :: nat) ^ (s + 7) = 128 * 2 ^ s" by (simp add: power_add)
    also have "\<dots> \<le> v * 2 ^ s" using False by (intro mult_le_mono1) simp
    also note "1.prems"(3)
    finally have "(2 :: nat) ^ (s + 7) < 2 ^ 64" .
    then have s7: "s + 7 < 64" by (metis power_less_imp_less_exp one_less_numeral_iff semiring_norm(76))
    have vq: "v * 2 ^ s = (v mod 128) * 2 ^ s + ?q * 2 ^ (s + 7)"
    proof -
      have "v * 2 ^ s = (v mod 128 + ?q * 128) * 2 ^ s" by (simp only: mod_div_mult_eq)
      also have "\<dots> = (v mod 128) * 2 ^ s + ?q * (128 * 2 ^ s)" by (simp only: add_mult_distrib mult.assoc)
      also have "128 * 2 ^ s = (2 :: nat) ^ (s + 7)" by (simp add: power_add)
      finally show ?thesis .
    qed
    have rs: "unat r + (v mod 128) * 2 ^ s < 2 ^ (s + 7)"
    proof -
      have "unat r + (v mod 128) * 2 ^ s < 2 ^ s + 127 * 2 ^ s"
        using "1.prems"(5) by (intro add_less_le_mono mult_le_mono1) simp_all
      also have "\<dots> = (2 :: nat) ^ (s + 7)" by (simp add: power_add)
      finally show ?thesis .
    qed
    have "(2 :: nat) ^ (s + 7) \<le> 2 ^ 63" using s7 by (intro power_increasing) simp_all
    then have "unat (of_nat ((v mod 128) * 2 ^ s) :: 64 word) = (v mod 128) * 2 ^ s"
      using rs by (simp only: unat_of_nat) simp
    then have "unat ?r = unat r + (v mod 128) * 2 ^ s"
      using rs \<open>2 ^ (s + 7) \<le> 2 ^ 63\<close> by (subst unat_add_small) (simp_all only:, simp)
    with rs have u: "unat ?r < 2 ^ (s + 7)" by (simp only:)
    have "mo_holds view (of_nat (c + 1)) (uleb_bytes ?q @ rest)"
      using mo_holds_suffix [of view "of_nat c" "[?b]"] "1.prems"(1) ub by (simp add: add.commute)
    from "1.IH" [OF False this _ _ s7 u] vq "1.prems"(2,3) ub show ?thesis
      unfolding step by simp
  qed
qed

text \<open>Reading back what was written: every 64-bit number has an encoding, and it is decoded to that number.\<close>

lemma uleb128_holds:
  assumes "mo_holds view (of_nat c) (uleb_bytes (unat v) @ rest)" "c + length (uleb_bytes (unat v)) \<le> end'"
  shows "uleb128 view end' c = Inr (v, c + length (uleb_bytes (unat v)))"
  using uleb_loop_holds [OF assms, of 0 0] unsigned_less [where 'a = nat, of v] by (simp add: uleb128_def)

text \<open>A signed number is not used by the code, so its encoding is any well-formed sequence: all bytes but the last
  have the high bit, and there are at most ten.\<close>

definition leb_sequence :: "byte list \<Rightarrow> bool" where
  "leb_sequence bs \<longleftrightarrow> bs \<noteq> [] \<and> length bs \<le> 10 \<and> last bs AND 0x80 = 0 \<and> list_all (\<lambda>b. b AND 0x80 \<noteq> 0) (butlast bs)"

lemma sleb_loop_holds:
  assumes "mo_holds view (of_nat c) (bs @ rest)" "c + length bs \<le> end'" "s + 7 * length bs \<le> 70"
    and "bs \<noteq> []" "last bs AND 0x80 = 0" "list_all (\<lambda>b. b AND 0x80 \<noteq> 0) (butlast bs)"
  shows "\<exists>v. sleb_loop view end' c r s = Inr (v, c + length bs)"
  using assms
proof (induction bs arbitrary: c r s)
  case (Cons b bs)
  have h: "mo_read_byte view (of_nat c) = Inr b" "c < end'" "s \<le> 63"
    using mo_read_holds(4) [of view "of_nat c" b "bs @ rest"] Cons.prems by simp_all
  show ?case
  proof (cases "bs = []")
    case True
    then show ?thesis using h Cons.prems(5) by (simp add: sleb_loop.simps [of view end' c] ULEB_MAX_SHIFT_def Let_def)
  next
    case False
    have "mo_holds view (of_nat (c + 1)) (bs @ rest)"
      using mo_holds_suffix [of view "of_nat c" "[b]"] Cons.prems(1) by (simp add: add.commute)
    from Cons.IH [OF this, of "s + 7"] Cons.prems False h show ?thesis
      by (simp add: sleb_loop.simps [of view end' c] ULEB_MAX_SHIFT_def Let_def)
  qed
qed simp

lemma sleb128_holds:
  assumes "mo_holds view (of_nat c) (bs @ rest)" "c + length bs \<le> end'" "leb_sequence bs"
  shows "\<exists>v. sleb128 view end' c = Inr (v, c + length bs)"
  using sleb_loop_holds [OF assms(1,2), of 0 0] assms(3) by (simp add: sleb128_def leb_sequence_def)

section \<open>Opcodes\<close>

text \<open>An immediate is a number below 16.\<close>

datatype bind_op =
    Done
  | Set_type nat
  | Set_ordinal_imm nat
  | Set_ordinal_uleb "64 word"
  | Set_special nat
  | Set_symbol nat "byte list"
  | Set_addend "byte list"
  | Set_segment nat "64 word"
  | Add_addr "64 word"
  | Do_bind
  | Do_bind_add "64 word"
  | Do_bind_scaled nat
  | Do_bind_times "64 word" "64 word"

definition opcode_byte :: "nat \<Rightarrow> nat \<Rightarrow> byte" where
  "opcode_byte opc imm = of_nat (16 * opc + imm)"

fun op_bytes :: "bind_op \<Rightarrow> byte list" where
  "op_bytes Done = [opcode_byte 0 0]"
| "op_bytes (Set_type t) = [opcode_byte 5 t]"
| "op_bytes (Set_ordinal_imm n) = [opcode_byte 1 n]"
| "op_bytes (Set_ordinal_uleb v) = opcode_byte 2 0 # uleb_bytes (unat v)"
| "op_bytes (Set_special n) = [opcode_byte 3 n]"
| "op_bytes (Set_symbol flags name) = opcode_byte 4 flags # name @ [0]"
| "op_bytes (Set_addend bs) = opcode_byte 6 0 # bs"
| "op_bytes (Set_segment n v) = opcode_byte 7 n # uleb_bytes (unat v)"
| "op_bytes (Add_addr v) = opcode_byte 8 0 # uleb_bytes (unat v)"
| "op_bytes Do_bind = [opcode_byte 9 0]"
| "op_bytes (Do_bind_add v) = opcode_byte 10 0 # uleb_bytes (unat v)"
| "op_bytes (Do_bind_scaled n) = [opcode_byte 11 n]"
| "op_bytes (Do_bind_times count skip) = opcode_byte 12 0 # uleb_bytes (unat count) @ uleb_bytes (unat skip)"

fun op_ok :: "bind_op \<Rightarrow> bool" where
  "op_ok (Set_type t) = (t < 16)"
| "op_ok (Set_ordinal_imm n) = (n < 16)"
| "op_ok (Set_special n) = (n < 16)"
| "op_ok (Set_symbol flags name) = (flags < 16 \<and> 0 \<notin> set name \<and> length name \<le> MAX_NAME_LEN)"
| "op_ok (Set_addend bs) = leb_sequence bs"
| "op_ok (Set_segment n v) = (n < 16)"
| "op_ok (Do_bind_scaled n) = (n < 16)"
| "op_ok (Do_bind_times count skip) = (unat count \<le> MAX_CHAIN_STEPS)"
| "op_ok _ = True"

text \<open>The meaning of a stream: what is bound where.  A special ordinal is a small negative number.\<close>

fun op_binds :: "bind_op \<Rightarrow> bind_state \<Rightarrow> bind_state list" where
  "op_binds Do_bind st = [st]"
| "op_binds (Do_bind_add v) st = [st]"
| "op_binds (Do_bind_scaled n) st = [st]"
| "op_binds (Do_bind_times count skip) st =
     map (\<lambda>k. st\<lparr>bs_seg_offset := bs_seg_offset st + of_nat k * (skip + 8)\<rparr>) [0 ..< unat count]"
| "op_binds _ st = []"

fun op_next :: "bind_op \<Rightarrow> bind_state \<Rightarrow> bind_state" where
  "op_next (Set_ordinal_imm n) st = st\<lparr>bs_library_ordinal := int n\<rparr>"
| "op_next (Set_ordinal_uleb v) st = st\<lparr>bs_library_ordinal := min (uint v) (2 ^ 63 - 1)\<rparr>"
| "op_next (Set_special n) st = st\<lparr>bs_library_ordinal := (if n = 0 then 0 else int n - 16)\<rparr>"
| "op_next (Set_symbol flags name) st = st\<lparr>bs_symbol := normalize_symbol_name (from_utf8_lossy (chars_of name))\<rparr>"
| "op_next (Set_segment n v) st = st\<lparr>bs_seg_index := n, bs_seg_offset := v\<rparr>"
| "op_next (Add_addr v) st = st\<lparr>bs_seg_offset := bs_seg_offset st + v\<rparr>"
| "op_next Do_bind st = st\<lparr>bs_seg_offset := bs_seg_offset st + 8\<rparr>"
| "op_next (Do_bind_add v) st = st\<lparr>bs_seg_offset := bs_seg_offset st + v + 8\<rparr>"
| "op_next (Do_bind_scaled n) st = st\<lparr>bs_seg_offset := bs_seg_offset st + of_nat n * 8 + 8\<rparr>"
| "op_next (Do_bind_times count skip) st = st\<lparr>bs_seg_offset := bs_seg_offset st + count * (skip + 8)\<rparr>"
| "op_next _ st = st"

fun ops_binds :: "bind_op list \<Rightarrow> bind_state \<Rightarrow> bind_state list" where
  "ops_binds [] st = []"
| "ops_binds (p # ps) st = op_binds p st @ ops_binds ps (op_next p st)"

text \<open>The import of a bound place; the bootstrap symbol of thread-local variables gives none.\<close>

definition bind_bound :: "macho_view \<Rightarrow> load_info \<Rightarrow> bind_state \<Rightarrow> bool" where
  "bind_bound view info b \<longleftrightarrow>
     (case bs_symbol b of
        None \<Rightarrow> False
      | Some name \<Rightarrow>
          name = TLV_BOOTSTRAP \<or>
          (bs_seg_index b < length (li_segments info) \<and>
           unat (ms_fileoff (li_segments info ! bs_seg_index b)) + unat (bs_seg_offset b) < 2 ^ 64 \<and>
           (\<exists>a. mv_slot_address view (ms_fileoff (li_segments info ! bs_seg_index b) + bs_seg_offset b) = Inr a)))"

definition bind_import :: "macho_view \<Rightarrow> load_info \<Rightarrow> bind_state \<Rightarrow> raw_import list" where
  "bind_import view info b =
     (if bs_symbol b = Some TLV_BOOTSTRAP then []
      else
        [macho_import (library_of (bs_library_ordinal b) (li_dylibs info)) (the (bs_symbol b))
           (projr (mv_slot_address view (ms_fileoff (li_segments info ! bs_seg_index b) + bs_seg_offset b))) False])"

section \<open>The interpreter\<close>

lemma bit_not_part: "NOT x AND (x AND m) = 0" "x AND NOT (x AND m) = x AND NOT (m :: byte)"
  by (auto intro!: bit_eqI simp: bit_simps)

lemma opcode_byte_parts:
  assumes "opc < 16" "imm < 16"
  shows "opcode_byte opc imm AND BIND_OPCODE_MASK = of_nat (16 * opc)" "opcode_byte opc imm AND BIND_IMMEDIATE_MASK = of_nat imm"
proof -
  have lo: "BIND_IMMEDIATE_MASK = mask 4" by (simp add: BIND_IMMEDIATE_MASK_def mask_eq_exp_minus_1)
  show i: "opcode_byte opc imm AND BIND_IMMEDIATE_MASK = of_nat imm"
    unfolding lo take_bit_eq_mask [symmetric] opcode_byte_def take_bit_of_nat using assms
    by (simp add: take_bit_eq_mod)
  have hi: "BIND_OPCODE_MASK = NOT BIND_IMMEDIATE_MASK"
    by (simp add: BIND_OPCODE_MASK_def BIND_IMMEDIATE_MASK_def)
  have "opcode_byte opc imm AND NOT BIND_IMMEDIATE_MASK = opcode_byte opc imm - (opcode_byte opc imm AND BIND_IMMEDIATE_MASK)"
    using disjunctive_diff_eq_and_not [of "opcode_byte opc imm" "opcode_byte opc imm AND BIND_IMMEDIATE_MASK"]
      bit_not_part [of "opcode_byte opc imm" BIND_IMMEDIATE_MASK] by simp
  then show "opcode_byte opc imm AND BIND_OPCODE_MASK = of_nat (16 * opc)"
    unfolding hi i by (simp add: opcode_byte_def)
qed

lemma special_ordinal: "n < 16 \<Longrightarrow> n \<noteq> 0 \<Longrightarrow> int n OR NOT 0xf = int n - 16"
proof -
  assume "n < 16" "n \<noteq> 0"
  then have "n \<in> set [1 ..< 16]" by simp
  moreover have "\<forall>n \<in> set [1 ..< 16]. int n OR NOT 0xf = int n - 16" by code_simp
  ultimately show ?thesis by blast
qed

lemma emit_bind_bound:
  "bind_bound view info b \<Longrightarrow> emit_bind view info b out = Inr (out @ bind_import view info b)"
  by (auto simp: bind_bound_def emit_bind_def bind_import_def word_checked_add_def no_olen_add_nat split: option.splits)

lemma bind_repeat_bound:
  assumes "list_all (bind_bound view info) (op_binds (Do_bind_times count skip) st)"
  shows "try_fold (bind_repeat view info skip) [0 ..< unat count] (st, out) =
    Inr (op_next (Do_bind_times count skip) st,
         out @ concat (map (bind_import view info) (op_binds (Do_bind_times count skip) st)))"
proof -
  let ?at = "\<lambda>k. st\<lparr>bs_seg_offset := bs_seg_offset st + of_nat k * (skip + 8)\<rparr>"
  have "try_fold (bind_repeat view info skip) [0 ..< n] (st, out) =
      Inr (?at n, out @ concat (map (bind_import view info) (map ?at [0 ..< n])))"
    if "\<forall>k < n. bind_bound view info (?at k)" for n
    using that
  proof (induction n)
    case (Suc n)
    then have "emit_bind view info (?at n) o1 = Inr (o1 @ bind_import view info (?at n))" for o1
      using emit_bind_bound by blast
    with Suc show ?case by (simp add: try_fold_snoc bind_repeat_def advance_def algebra_simps)
  qed simp
  from this [of "unat count"] assms show ?thesis by (simp add: list_all_iff)
qed

lemma bind_step_decodes:
  assumes "mo_holds view (of_nat c) (op_bytes p @ rest)" "c + length (op_bytes p) \<le> end'" "op_ok p"
    and "list_all (bind_bound view info) (op_binds p st)"
  shows "bind_step view info end' (hd (op_bytes p)) (c + 1) st out =
    Inr (c + length (op_bytes p), op_next p st, out @ concat (map (bind_import view info) (op_binds p st)))"
proof -
  have cs: "BIND_OPCODE_DONE = 0" "BIND_OPCODE_SET_TYPE_IMM = 80" "BIND_OPCODE_SET_DYLIB_ORDINAL_IMM = 16"
    "BIND_OPCODE_SET_DYLIB_ORDINAL_ULEB = 32" "BIND_OPCODE_SET_DYLIB_SPECIAL_IMM = 48"
    "BIND_OPCODE_SET_SYMBOL_TRAILING_FLAGS_IMM = 64" "BIND_OPCODE_SET_ADDEND_SLEB = 96"
    "BIND_OPCODE_SET_SEGMENT_AND_OFFSET_ULEB = 112" "BIND_OPCODE_ADD_ADDR_ULEB = 128" "BIND_OPCODE_DO_BIND = 144"
    "BIND_OPCODE_DO_BIND_ADD_ADDR_ULEB = 160" "BIND_OPCODE_DO_BIND_ADD_ADDR_IMM_SCALED = 176"
    "BIND_OPCODE_DO_BIND_ULEB_TIMES_SKIPPING_ULEB = 192"
    by (simp_all add: BIND_OPCODE_DONE_def BIND_OPCODE_SET_TYPE_IMM_def BIND_OPCODE_SET_DYLIB_ORDINAL_IMM_def
        BIND_OPCODE_SET_DYLIB_ORDINAL_ULEB_def BIND_OPCODE_SET_DYLIB_SPECIAL_IMM_def
        BIND_OPCODE_SET_SYMBOL_TRAILING_FLAGS_IMM_def BIND_OPCODE_SET_ADDEND_SLEB_def
        BIND_OPCODE_SET_SEGMENT_AND_OFFSET_ULEB_def BIND_OPCODE_ADD_ADDR_ULEB_def BIND_OPCODE_DO_BIND_def
        BIND_OPCODE_DO_BIND_ADD_ADDR_ULEB_def BIND_OPCODE_DO_BIND_ADD_ADDR_IMM_SCALED_def
        BIND_OPCODE_DO_BIND_ULEB_TIMES_SKIPPING_ULEB_def)
  note op = bind_step_def Let_def opcode_byte_parts cs
  have tl: "mo_holds view (of_nat (c + 1)) (tl (op_bytes p) @ rest)" if "op_bytes p = b # bs" for b bs
    using mo_holds_suffix [of view "of_nat c" "[b]"] assms(1) that by (simp add: add.commute)
  note em = emit_bind_bound [of view info st]
  show ?thesis
  proof (cases p)
    case (Set_ordinal_uleb v)
    then show ?thesis using uleb128_holds [of view "c + 1" v rest end'] tl assms(2) by (simp add: op)
  next
    case (Set_segment n v)
    then show ?thesis using uleb128_holds [of view "c + 1" v rest end'] tl assms(2,3) by (simp add: op unat_of_nat)
  next
    case (Add_addr v)
    then show ?thesis using uleb128_holds [of view "c + 1" v rest end'] tl assms(2) by (simp add: op)
  next
    case (Do_bind_add v)
    then show ?thesis
      using uleb128_holds [of view "c + 1" v rest end'] tl assms(2,4) em by (simp add: op advance_def)
  next
    case (Set_symbol flags name)
    then show ?thesis
      using read_cstr_raw_holds [of view "of_nat (c + 1)" name rest] tl assms(2,3) by (simp add: op)
  next
    case (Set_addend bs)
    then show ?thesis using sleb128_holds [of view "c + 1" bs rest end'] tl assms(2,3) by (auto simp: op)
  next
    case (Set_special n)
    then have "uint (of_nat n :: byte) = int n" using assms(3) by (simp add: unsigned_of_nat take_bit_nat_eq_self)
    moreover from this have "(of_nat n :: byte) = 0 \<longleftrightarrow> n = 0" using uint_0_iff [of "of_nat n :: byte"] by simp
    ultimately show ?thesis using assms(3) special_ordinal [of n] Set_special by (simp add: op)
  next
    case (Set_ordinal_imm n)
    then show ?thesis using assms(3) by (simp add: op unsigned_of_nat take_bit_nat_eq_self)
  next
    case (Do_bind_scaled n)
    then show ?thesis using assms(3,4) em by (simp add: op advance_def unsigned_of_nat take_bit_nat_eq_self)
  next
    case (Do_bind_times count skip)
    let ?c = "c + 1 + length (uleb_bytes (unat count))"
    have "mo_holds view (of_nat ?c) (uleb_bytes (unat skip) @ rest)"
      using mo_holds_suffix [of view "of_nat (c + 1)" "uleb_bytes (unat count)"] tl Do_bind_times by (simp add: ac_simps)
    then have "uleb128 view end' ?c = Inr (skip, ?c + length (uleb_bytes (unat skip)))"
      using assms(2) Do_bind_times by (intro uleb128_holds) simp_all
    moreover have "uleb128 view end' (c + 1) = Inr (count, ?c)"
      using uleb128_holds [of view "c + 1" count "uleb_bytes (unat skip) @ rest" end'] tl assms(2) Do_bind_times by simp
    moreover note bind_repeat_bound [of view info count skip st out]
    ultimately show ?thesis using assms(3,4) Do_bind_times by (simp add: op)
  qed (use assms(3,4) em in \<open>simp_all add: op advance_def\<close>)
qed

lemma op_bytes_Cons: "op_bytes p = hd (op_bytes p) # tl (op_bytes p)"
  by (cases p) simp_all

lemma bind_loop_decodes:
  assumes "mo_holds view (of_nat c) (concat (map op_bytes ps))" "list_all op_ok ps"
    and "end' = c + length (concat (map op_bytes ps))" "list_all (bind_bound view info) (ops_binds ps st)"
  shows "bind_loop view info end' c st out = Inr (out @ concat (map (bind_import view info) (ops_binds ps st)))"
  using assms
proof (induction ps arbitrary: c st out)
  case Nil
  then show ?case by (simp add: bind_loop.simps)
next
  case (Cons p ps)
  let ?rest = "concat (map op_bytes ps)"
  have h: "mo_holds view (of_nat c) (op_bytes p @ ?rest)" using Cons.prems(1) by simp
  have b: "mo_read_byte view (of_nat c) = Inr (hd (op_bytes p))"
    using mo_read_holds(4) [of view "of_nat c" "hd (op_bytes p)" "tl (op_bytes p) @ ?rest"] h op_bytes_Cons [of p]
    by (metis append_Cons)
  have lt: "c < end'" using Cons.prems(3) op_bytes_Cons [of p] by (metis add_cancel_right_right append_is_Nil_conv concat.simps(2)
        length_0_conv list.distinct(1) list.simps(9) not_add_less1 nat_neq_iff)
  have step: "bind_step view info end' (hd (op_bytes p)) (c + 1) st out =
      Inr (c + length (op_bytes p), op_next p st, out @ concat (map (bind_import view info) (op_binds p st)))"
    using Cons.prems by (intro bind_step_decodes [OF h]) simp_all
  have "mo_holds view (of_nat (c + length (op_bytes p))) ?rest" using mo_holds_suffix [OF h] by simp
  moreover have "bind_loop view info end' c st out =
      bind_loop view info end' (c + length (op_bytes p)) (op_next p st) (out @ concat (map (bind_import view info) (op_binds p st)))"
    by (subst bind_loop.simps) (simp only: lt [unfolded not_le [symmetric]] if_False b step and_then_simps prod.case)
  ultimately show ?case using Cons.IH [of "c + length (op_bytes p)" "op_next p st"] Cons.prems by simp
qed

definition bind_start :: bind_state where
  "bind_start = \<lparr>bs_seg_index = 0, bs_seg_offset = 0, bs_library_ordinal = 0, bs_symbol = None\<rparr>"

lemma parse_bind_stream_decodes:
  assumes "mo_holds view off (concat (map op_bytes ps))" "list_all op_ok ps"
    and "unat sz = length (concat (map op_bytes ps))" "unat sz \<le> unat MAX_BIND_BYTES" "unat off + unat sz < 2 ^ 64"
    and "list_all (bind_bound view info) (ops_binds ps bind_start)"
  shows "parse_bind_stream view info (off, sz) out =
    Inr (out @ concat (map (bind_import view info) (ops_binds ps bind_start)))"
proof -
  have c: "word_checked_add off sz = Some (off + sz)" using assms(5) by (simp add: word_checked_add_def no_olen_add_nat)
  have e: "unat (off + sz) = unat off + length (concat (map op_bytes ps))" using assms(3,5) by (simp add: unat_add_small)
  from bind_loop_decodes [of view "unat off" ps "unat (off + sz)" info bind_start out] assms(1,2,6) e
  show ?thesis using assms(4) c
    by (simp add: parse_bind_stream_def word_less_nat_alt BIND_SPECIAL_DYLIB_SELF_def bind_start_def)
qed

end
