(* ===== verification/Macho_Image.thy ===== *)
theory Macho_Image
  imports Macho_Binds
begin

unbundle bit_operations_syntax

text \<open>
  Functional correctness of the Mach-O parser against the file format: load commands, the symbol table, the
  indirect symbol table and the string table are given by encoders, and on an image that holds what they
  produce the parser returns exactly the imports that the tables describe.
\<close>

section \<open>Load commands\<close>

text \<open>Fields that the code does not read are kept as raw bytes.\<close>

record mo_sect =
  sc_names :: "byte list"
  sc_addr :: "64 word"
  sc_size :: "64 word"
  sc_offset :: "32 word"
  sc_layout :: "byte list"
  sc_flags :: "32 word"
  sc_reserved1 :: "32 word"
  sc_reserved2 :: "byte list"

datatype (plugins only: code) mo_command =
    Segment_command "byte list" macho_segment "byte list" "byte list" "mo_sect list"
  | Symtab_command "32 word" "32 word" "32 word" "32 word"
  | Dysymtab_command "byte list" "32 word" "32 word" "byte list"
  | Dyld_info_command bool "byte list" "32 word \<times> 32 word" "32 word \<times> 32 word" "32 word \<times> 32 word" "byte list"
  | Chained_command "32 word" "32 word"
  | Dylib_command "32 word" "byte list" "byte list" nat
  | Other_command "32 word" "byte list"

definition section_bytes :: "mo_sect \<Rightarrow> byte list" where
  "section_bytes s = sc_names s @ le_bytes (sc_addr s) @ le_bytes (sc_size s) @ le_bytes (sc_offset s) @ sc_layout s @
     le_bytes (sc_flags s) @ le_bytes (sc_reserved1 s) @ sc_reserved2 s"

definition section_ok :: "mo_sect \<Rightarrow> bool" where
  "section_ok s \<longleftrightarrow> length (sc_names s) = 32 \<and> length (sc_layout s) = 12 \<and> length (sc_reserved2 s) = 8"

definition DYLIB_COMMANDS :: "32 word set" where
  "DYLIB_COMMANDS = {LC_LOAD_DYLIB, LC_LOAD_WEAK_DYLIB, LC_REEXPORT_DYLIB, LC_LOAD_UPWARD_DYLIB, LC_LAZY_LOAD_DYLIB}"

definition PARSED_COMMANDS :: "32 word set" where
  "PARSED_COMMANDS =
     {LC_SEGMENT_64, LC_SYMTAB, LC_DYSYMTAB, LC_DYLD_INFO, LC_DYLD_INFO_ONLY, LC_DYLD_CHAINED_FIXUPS} \<union> DYLIB_COMMANDS"

fun command_id :: "mo_command \<Rightarrow> 32 word" where
  "command_id (Segment_command _ _ _ _ _) = LC_SEGMENT_64"
| "command_id (Symtab_command _ _ _ _) = LC_SYMTAB"
| "command_id (Dysymtab_command _ _ _ _) = LC_DYSYMTAB"
| "command_id (Dyld_info_command o' _ _ _ _ _) = (if o' then LC_DYLD_INFO_ONLY else LC_DYLD_INFO)"
| "command_id (Chained_command _ _) = LC_DYLD_CHAINED_FIXUPS"
| "command_id (Dylib_command i _ _ _) = i"
| "command_id (Other_command i _) = i"

definition pair_bytes :: "32 word \<times> 32 word \<Rightarrow> byte list" where
  "pair_bytes p = le_bytes (fst p) @ le_bytes (snd p)"

text \<open>In a dylib command the name follows the versions, at offset 24, and is padded with zeros.\<close>

fun command_body :: "mo_command \<Rightarrow> byte list" where
  "command_body (Segment_command name seg prot flags sects) =
     name @ le_bytes (ms_vmaddr seg) @ le_bytes (ms_vmsize seg) @ le_bytes (ms_fileoff seg) @ le_bytes (ms_filesize seg) @
     prot @ le_bytes (of_nat (length sects) :: 32 word) @ flags @ concat (map section_bytes sects)"
| "command_body (Symtab_command symoff nsyms stroff strsize) =
     le_bytes symoff @ le_bytes nsyms @ le_bytes stroff @ le_bytes strsize"
| "command_body (Dysymtab_command pre indirectoff nindirect post) =
     pre @ le_bytes indirectoff @ le_bytes nindirect @ post"
| "command_body (Dyld_info_command _ rebase bind weak lazy export) =
     rebase @ pair_bytes bind @ pair_bytes weak @ pair_bytes lazy @ export"
| "command_body (Chained_command off sz) = le_bytes off @ le_bytes sz"
| "command_body (Dylib_command _ versions name pad) = le_bytes (24 :: 32 word) @ versions @ name @ replicate pad 0"
| "command_body (Other_command _ body) = body"

definition command_bytes :: "mo_command \<Rightarrow> byte list" where
  "command_bytes cmd =
     le_bytes (command_id cmd) @ le_bytes (of_nat (8 + length (command_body cmd)) :: 32 word) @ command_body cmd"

fun fields_ok :: "mo_command \<Rightarrow> bool" where
  "fields_ok (Segment_command name seg prot flags sects) =
     (length name = 16 \<and> length prot = 8 \<and> length flags = 4 \<and> length sects \<le> unat MAX_SECTIONS \<and> list_all section_ok sects)"
| "fields_ok (Dysymtab_command pre _ _ post) = (length pre = 48 \<and> length post = 16)"
| "fields_ok (Dyld_info_command _ rebase _ _ _ export) = (length rebase = 8 \<and> length export = 8)"
| "fields_ok (Dylib_command i versions name pad) =
     (i \<in> DYLIB_COMMANDS \<and> length versions = 12 \<and> 0 \<notin> set name \<and> length name \<le> MAX_NAME_LEN \<and> 0 < pad)"
| "fields_ok (Other_command i _) = (i \<notin> PARSED_COMMANDS)"
| "fields_ok _ = True"

definition command_ok :: "mo_command \<Rightarrow> bool" where
  "command_ok cmd \<longleftrightarrow> fields_ok cmd \<and> length (command_bytes cmd) mod 8 = 0 \<and> length (command_bytes cmd) < 2 ^ 32"

text \<open>The meaning of a command.\<close>

definition pointer_sections :: "mo_sect list \<Rightarrow> pointer_section list" where
  "pointer_sections sects =
     map (\<lambda>s. \<lparr>psec_fileoff = ucast (sc_offset s), psec_size = sc_size s, psec_indirect_index = sc_reserved1 s\<rparr>)
       (filter (\<lambda>s. sc_flags s AND SECTION_TYPE = S_NON_LAZY_SYMBOL_POINTERS \<or>
                    sc_flags s AND SECTION_TYPE = S_LAZY_SYMBOL_POINTERS) sects)"

definition bind_ranges :: "(32 word \<times> 32 word) list \<Rightarrow> (64 word \<times> 64 word) list" where
  "bind_ranges ps = map (\<lambda>(off, sz). (ucast off, ucast sz)) (filter (\<lambda>(_, sz). sz \<noteq> 0) ps)"

fun apply_command :: "mo_command \<Rightarrow> load_info \<Rightarrow> load_info" where
  "apply_command (Segment_command _ seg _ _ sects) info =
     info\<lparr>li_segments := li_segments info @ [seg],
          li_pointer_sections := li_pointer_sections info @ pointer_sections sects\<rparr>"
| "apply_command (Symtab_command symoff nsyms stroff strsize) info =
     info\<lparr>li_symtab := Some (ucast symoff, nsyms, ucast stroff, ucast strsize)\<rparr>"
| "apply_command (Dysymtab_command _ indirectoff nindirect _) info = info\<lparr>li_indirect := Some (ucast indirectoff, nindirect)\<rparr>"
| "apply_command (Dyld_info_command _ _ bind weak lazy _) info =
     info\<lparr>li_binds := li_binds info @ bind_ranges [bind, weak, lazy]\<rparr>"
| "apply_command (Chained_command off sz) info = info\<lparr>li_chained := Some (ucast off, ucast sz)\<rparr>"
| "apply_command (Dylib_command _ _ name _) info =
     (if MAX_DYLIBS \<le> length (li_dylibs info) then info
      else info\<lparr>li_dylibs := li_dylibs info @ [mo_basename (from_utf8_lossy (chars_of name))]\<rparr>)"
| "apply_command (Other_command _ _) info = info"

definition info_of :: "mo_command list \<Rightarrow> load_info" where
  "info_of cmds = fold apply_command cmds load_info_default"

section \<open>Reading load commands\<close>

lemma mo_read_at:
  assumes "mo_holds view c bs"
  shows "drop i bs = le_bytes (w16 :: 16 word) @ zs \<Longrightarrow> mo_read_u16 view (c + of_nat i) = Inr w16"
    "drop i bs = le_bytes (w32 :: 32 word) @ zs \<Longrightarrow> mo_read_u32 view (c + of_nat i) = Inr w32"
    "drop i bs = le_bytes (w64 :: 64 word) @ zs \<Longrightarrow> mo_read_u64 view (c + of_nat i) = Inr w64"
proof -
  have h: "mo_holds view (c + of_nat i) (drop i bs)" if "drop i bs \<noteq> []"
    using mo_holds_suffix [of view c "take i bs" "drop i bs"] assms that by simp
  have "le_bytes (w16 :: 16 word) \<noteq> []" "le_bytes (w32 :: 32 word) \<noteq> []" "le_bytes (w64 :: 64 word) \<noteq> []"
    by (simp_all flip: length_greater_0_conv)
  then show "drop i bs = le_bytes w16 @ zs \<Longrightarrow> mo_read_u16 view (c + of_nat i) = Inr w16"
    "drop i bs = le_bytes w32 @ zs \<Longrightarrow> mo_read_u32 view (c + of_nat i) = Inr w32"
    "drop i bs = le_bytes w64 @ zs \<Longrightarrow> mo_read_u64 view (c + of_nat i) = Inr w64"
    using h by (auto intro: mo_read_holds)
qed

lemma length_section_bytes [simp]: "section_ok s \<Longrightarrow> length (section_bytes s) = 80"
  by (simp add: section_bytes_def section_ok_def)

lemma read_section_holds:
  assumes "mo_holds view (base + 72 + of_nat i * 80) (section_bytes s)" "section_ok s"
  shows "read_section view base i info =
    Inr (info\<lparr>li_pointer_sections := li_pointer_sections info @ pointer_sections [s]\<rparr>)"
proof -
  note r = mo_read_at [OF assms(1)] and ok = assms(2) [unfolded section_ok_def]
  let ?c = "base + 72 + of_nat i * 80"
  have "mo_read_u64 view (?c + 40) = Inr (sc_size s)" using r(3) [of 40 "sc_size s"] ok by (simp add: section_bytes_def)
  moreover have "mo_read_u32 view (?c + 48) = Inr (sc_offset s)" using r(2) [of 48 "sc_offset s"] ok by (simp add: section_bytes_def)
  moreover have "mo_read_u32 view (?c + 64) = Inr (sc_flags s)" using r(2) [of 64 "sc_flags s"] ok by (simp add: section_bytes_def)
  moreover have "mo_read_u32 view (?c + 68) = Inr (sc_reserved1 s)"
    using r(2) [of 68 "sc_reserved1 s"] ok by (simp add: section_bytes_def)
  ultimately show ?thesis
    by (simp add: read_section_def SEGMENT_COMMAND_64_SIZE_def SECTION_64_SIZE_def pointer_sections_def Let_def)
qed

text \<open>The entries of a table.\<close>

lemma mo_holds_nth:
  assumes "mo_holds view c (concat (map f xs))" "\<forall>x \<in> set xs. length (f x) = k" "i < length xs"
  shows "mo_holds view (c + of_nat i * of_nat k) (f (xs ! i))"
  using assms
proof (induction xs arbitrary: c i)
  case (Cons x xs)
  have h: "mo_holds view c (f x @ concat (map f xs))" using Cons.prems(1) by simp
  show ?case
  proof (cases i)
    case 0
    then show ?thesis using mo_holds_prefix [OF h] by simp
  next
    case (Suc j)
    have "mo_holds view (c + of_nat k) (concat (map f xs))" using mo_holds_suffix [OF h] Cons.prems(2) by simp
    from Cons.IH [OF this, of j] Cons.prems Suc show ?thesis by (simp add: algebra_simps)
  qed
qed simp

lemma pointer_sections_append: "pointer_sections (xs @ ys) = pointer_sections xs @ pointer_sections ys"
  by (simp add: pointer_sections_def)

lemma read_sections_hold:
  assumes "mo_holds view (base + 72) (concat (map section_bytes sects))" "list_all section_ok sects"
  shows "try_fold (read_section view base) [0 ..< length sects] info =
    Inr (info\<lparr>li_pointer_sections := li_pointer_sections info @ pointer_sections sects\<rparr>)"
proof -
  have "try_fold (read_section view base) [0 ..< n] info =
      Inr (info\<lparr>li_pointer_sections := li_pointer_sections info @ pointer_sections (take n sects)\<rparr>)" if "n \<le> length sects" for n
    using that
  proof (induction n)
    case (Suc n)
    have "mo_holds view (base + 72 + of_nat n * of_nat 80) (section_bytes (sects ! n))"
      using assms Suc.prems by (intro mo_holds_nth) (auto simp: list_all_iff)
    moreover have "section_ok (sects ! n)" using assms(2) Suc.prems by (simp add: list_all_length)
    ultimately show ?case
      using Suc by (simp add: try_fold_snoc read_section_holds take_Suc_conv_app_nth pointer_sections_append)
  qed (simp add: pointer_sections_def)
  from this [of "length sects"] show ?thesis by simp
qed

lemma length_pair_bytes [simp]: "length (pair_bytes p) = 8"
  by (simp add: pair_bytes_def)

lemma unat_small: "n < 2 ^ 32 \<Longrightarrow> unat (of_nat n :: 64 word) = n" "n < 2 ^ 32 \<Longrightarrow> unat (of_nat n :: 32 word) = n"
  by (simp_all add: unat_of_nat)

lemma length_sections: "list_all section_ok sects \<Longrightarrow> length (concat (map section_bytes sects)) = length sects * 80"
  by (induction sects) auto

lemma segment_parsed:
  assumes "mo_holds view base (command_bytes (Segment_command name seg prot flags sects))"
    and "command_ok (Segment_command name seg prot flags sects)"
  shows "read_segment view base (of_nat (length (command_bytes (Segment_command name seg prot flags sects)))) info =
    Inr (apply_command (Segment_command name seg prot flags sects) info)"
proof -
  let ?cmd = "Segment_command name seg prot flags sects"
  note ok = assms(2) [unfolded command_ok_def, simplified]
  have len: "length (command_bytes ?cmd) = 72 + length sects * 80" using ok by (simp add: command_bytes_def length_sections)
  let ?l = "of_nat (length (command_bytes ?cmd)) :: 64 word"
  have lt: "unat ?l = 72 + length sects * 80" using unat_small(1) [of "length (command_bytes ?cmd)"] ok len by simp
  have n: "unat (of_nat (length sects) :: 32 word) = length sects" using ok len by (intro unat_small(2)) simp
  note r = mo_read_at [OF assms(1)]
  have "mo_read_u64 view (base + 24) = Inr (ms_vmaddr seg)" using r(3) [of 24 "ms_vmaddr seg"] ok by (simp add: command_bytes_def)
  moreover have "mo_read_u64 view (base + 32) = Inr (ms_vmsize seg)" using r(3) [of 32 "ms_vmsize seg"] ok by (simp add: command_bytes_def)
  moreover have "mo_read_u64 view (base + 40) = Inr (ms_fileoff seg)" using r(3) [of 40 "ms_fileoff seg"] ok by (simp add: command_bytes_def)
  moreover have "mo_read_u64 view (base + 48) = Inr (ms_filesize seg)" using r(3) [of 48 "ms_filesize seg"] ok by (simp add: command_bytes_def)
  moreover have "mo_read_u32 view (base + 64) = Inr (of_nat (length sects))"
    using r(2) [of 64 "of_nat (length sects)"] ok by (simp add: command_bytes_def)
  moreover have "mo_holds view (base + of_nat 72) (concat (map section_bytes sects))"
    using ok by (intro mo_holds_at [OF assms(1), where ys = "[]"]) (simp_all add: command_bytes_def)
  ultimately show ?thesis
    using ok lt n
    by (simp add: read_segment_def read_sections_hold SEGMENT_COMMAND_64_SIZE_def SECTION_64_SIZE_def word_less_nat_alt Let_def)
qed

lemma dyld_info_parsed:
  assumes "mo_holds view base (command_bytes (Dyld_info_command o' rebase bind weak lazy export))"
    and "length rebase = 8"
  shows "try_fold (read_bind_range view base) [(16, 20), (24, 28), (32, 36)] info =
    Inr (info\<lparr>li_binds := li_binds info @ bind_ranges [bind, weak, lazy]\<rparr>)"
proof -
  note r = mo_read_at(2) [OF assms(1)] and d = command_bytes_def pair_bytes_def
  have "mo_read_u32 view (base + 16) = Inr (fst bind)" "mo_read_u32 view (base + 20) = Inr (snd bind)"
    "mo_read_u32 view (base + 24) = Inr (fst weak)" "mo_read_u32 view (base + 28) = Inr (snd weak)"
    "mo_read_u32 view (base + 32) = Inr (fst lazy)" "mo_read_u32 view (base + 36) = Inr (snd lazy)"
    using r [of 16 "fst bind"] r [of 20 "snd bind"] r [of 24 "fst weak"] r [of 28 "snd weak"] r [of 32 "fst lazy"]
      r [of 36 "snd lazy"] assms(2) by (simp_all add: d)
  then have "read_bind_range view base (16, 20) info' = Inr (info'\<lparr>li_binds := li_binds info' @ bind_ranges [bind]\<rparr>)"
    "read_bind_range view base (24, 28) info' = Inr (info'\<lparr>li_binds := li_binds info' @ bind_ranges [weak]\<rparr>)"
    "read_bind_range view base (32, 36) info' = Inr (info'\<lparr>li_binds := li_binds info' @ bind_ranges [lazy]\<rparr>)" for info'
    by (auto simp: read_bind_range_def bind_ranges_def case_prod_beta)
  moreover have "bind_ranges [bind, weak, lazy] = bind_ranges [bind] @ bind_ranges [weak] @ bind_ranges [lazy]"
    by (simp add: bind_ranges_def)
  ultimately show ?thesis by simp
qed

lemma dylib_parsed:
  assumes "mo_holds view base (command_bytes (Dylib_command i versions name pad))" "fields_ok (Dylib_command i versions name pad)"
  shows "mo_read_u32 view (base + 8) = Inr 24" "read_cstr view (base + 24) = Inr (from_utf8_lossy (chars_of name))"
proof -
  show "mo_read_u32 view (base + 8) = Inr 24" using mo_read_at(2) [OF assms(1), of 8 24] by (simp add: command_bytes_def)
  have "mo_holds view (base + of_nat 24) (name @ 0 # replicate (pad - 1) 0)"
    using assms(2) by (intro mo_holds_at [OF assms(1), where ys = "[]"])
      (simp_all add: command_bytes_def flip: replicate_Suc)
  then show "read_cstr view (base + 24) = Inr (from_utf8_lossy (chars_of name))"
    using assms(2) read_cstr_raw_holds [of view "base + 24" name] by (simp add: read_cstr_def)
qed

lemmas command_ids = LC_SEGMENT_64_def LC_SYMTAB_def LC_DYSYMTAB_def LC_DYLD_INFO_def LC_DYLD_INFO_ONLY_def
  LC_DYLD_CHAINED_FIXUPS_def LC_LOAD_DYLIB_def LC_LOAD_WEAK_DYLIB_def LC_REEXPORT_DYLIB_def LC_LOAD_UPWARD_DYLIB_def
  LC_LAZY_LOAD_DYLIB_def LC_REQ_DYLD_def

lemma parse_one_command_holds:
  assumes "mo_holds view base (command_bytes cmd)" "command_ok cmd"
  shows "parse_one_command view (command_id cmd) base (of_nat (length (command_bytes cmd))) info = Inr (apply_command cmd info)"
proof -
  note ok = assms(2) [unfolded command_ok_def]
  have u: "unat (of_nat (length (command_bytes cmd)) :: 64 word) = length (command_bytes cmd)"
    using ok by (intro unat_small(1)) simp
  note r = mo_read_at(2) [OF assms(1)] and d = parse_one_command_def command_bytes_def
  show ?thesis
  proof (cases cmd)
    case (Segment_command name seg prot flags sects)
    then show ?thesis using segment_parsed assms by (simp add: parse_one_command_def)
  next
    case (Symtab_command symoff nsyms stroff strsize)
    then show ?thesis
      using r [of 8 symoff] r [of 12 nsyms] r [of 16 stroff] r [of 20 strsize]
      by (simp add: d command_ids)
  next
    case (Dysymtab_command pre indirectoff nindirect post)
    then show ?thesis
      using r [of 56 indirectoff] r [of 60 nindirect] ok by (simp add: d command_ids)
  next
    case (Dyld_info_command o' rebase bind weak lazy export)
    then show ?thesis using dyld_info_parsed [of view base o' rebase bind weak lazy export] assms(1) ok
      by (simp add: parse_one_command_def command_ids) (simp add: command_bytes_def)
  next
    case (Chained_command off sz)
    then show ?thesis using r [of 8 off] r [of 12 sz] by (simp add: d command_ids)
  next
    case (Dylib_command i versions name pad)
    then have "i \<in> DYLIB_COMMANDS" using ok by simp
    then have i: "i \<noteq> LC_SEGMENT_64" "i \<noteq> LC_SYMTAB" "i \<noteq> LC_DYSYMTAB" "i \<noteq> LC_DYLD_INFO" "i \<noteq> LC_DYLD_INFO_ONLY"
      "i \<noteq> LC_DYLD_CHAINED_FIXUPS" "i \<in> {LC_LOAD_DYLIB, LC_LOAD_WEAK_DYLIB, LC_REEXPORT_DYLIB, LC_LOAD_UPWARD_DYLIB, LC_LAZY_LOAD_DYLIB}"
      by (auto simp: DYLIB_COMMANDS_def command_ids)
    have "24 < length (command_bytes cmd)" using ok Dylib_command by (simp add: command_bytes_def)
    then have "(24 :: 64 word) < of_nat (length (command_bytes cmd))" using u by (simp add: word_less_nat_alt)
    then show ?thesis
      using dylib_parsed [of view base i versions name pad] assms(1) ok Dylib_command i by (simp add: parse_one_command_def Let_def)
  next
    case (Other_command i body)
    then show ?thesis using ok by (simp add: parse_one_command_def PARSED_COMMANDS_def DYLIB_COMMANDS_def)
  qed
qed

lemma length_command_bytes: "length (command_bytes cmd) = 8 + length (command_body cmd)"
  by (simp add: command_bytes_def)

lemma command_loop_holds:
  assumes "mo_holds view c (concat (map command_bytes cmds))" "list_all command_ok cmds"
    and "unat c + length (concat (map command_bytes cmds)) = unat region_end"
  shows "command_loop view region_end (length cmds) c info = Inr (fold apply_command cmds info)"
  using assms
proof (induction cmds arbitrary: c info)
  case (Cons cmd cmds)
  let ?rest = "concat (map command_bytes cmds)" and ?n = "length (command_bytes cmd)"
  let ?w = "of_nat ?n :: 64 word"
  have h: "mo_holds view c (command_bytes cmd @ ?rest)" using Cons.prems(1) by simp
  have ok: "command_ok cmd" "?n mod 8 = 0" "?n < 2 ^ 32" "8 \<le> ?n"
    using Cons.prems(2) by (simp_all add: command_ok_def length_command_bytes)
  have u: "unat ?w = ?n" "ucast (of_nat ?n :: 32 word) = ?w" using ok(3)
    by (simp_all add: unat_of_nat word_unat_eq_iff unsigned_ucast_eq take_bit_nat_eq_self)
  have "mo_read_u32 view c = Inr (command_id cmd)"
    using mo_read_holds(2) [of view c "command_id cmd"] h by (simp add: command_bytes_def)
  moreover have "mo_read_u32 view (c + 4) = Inr (of_nat ?n)"
    using mo_read_at(2) [OF h, of 4 "of_nat ?n"] by (simp add: command_bytes_def)
  moreover have e: "unat (c + ?w) = unat c + ?n" "unat (c + 8) = unat c + 8"
    using Cons.prems(3) u(1) ok(4) unsigned_less [where 'a = nat, of region_end] by (simp_all add: unat_add_small)
  have "word_checked_add c 8 = Some (c + 8)" "word_checked_add c ?w = Some (c + ?w)"
    using e u(1) by (simp_all add: word_checked_add_Some)
  moreover have "\<not> region_end < c + 8" "\<not> region_end < c + ?w"
    using e ok(4) Cons.prems(3) by (simp_all add: word_less_nat_alt)
  moreover have "\<not> ?w < 8" "?w mod 8 = 0"
    using u(1) ok by (simp_all add: word_less_nat_alt word_unat_eq_iff unat_mod)
  moreover have "mo_holds view (c + ?w) ?rest" "unat (c + ?w) + length ?rest = unat region_end"
    using mo_holds_suffix [OF h] e Cons.prems(3) by simp_all
  ultimately show ?case
    using Cons.IH [of "c + ?w"] Cons.prems(2) parse_one_command_holds [OF mo_holds_prefix [OF h] ok(1)]
    by (simp add: u(2))
qed simp

record mo_header =
  mh_cpu_type :: "32 word"
  mh_cpu_subtype :: "32 word"
  mh_file_type :: "32 word"
  mh_flags :: "64 word"

definition header_bytes :: "mo_header \<Rightarrow> mo_command list \<Rightarrow> byte list" where
  "header_bytes h cmds =
     le_bytes MH_MAGIC_64 @ le_bytes (mh_cpu_type h) @ le_bytes (mh_cpu_subtype h) @ le_bytes (mh_file_type h) @
     le_bytes (of_nat (length cmds) :: 32 word) @ le_bytes (of_nat (length (concat (map command_bytes cmds))) :: 32 word) @
     le_bytes (mh_flags h) @ concat (map command_bytes cmds)"

lemma read_load_commands_holds:
  assumes "mo_holds view 0 (header_bytes h cmds)" "list_all command_ok cmds" "length cmds \<le> unat MAX_COMMANDS"
    and "length (concat (map command_bytes cmds)) < 2 ^ 32"
  shows "read_load_commands view = Inr (info_of cmds)"
proof -
  let ?n = "length (concat (map command_bytes cmds))"
  note r = mo_read_at(2) [OF assms(1)]
  have "mo_read_u32 view 0 = Inr MH_MAGIC_64" "mo_read_u32 view 16 = Inr (of_nat (length cmds))" "mo_read_u32 view 20 = Inr (of_nat ?n)"
    using r [of 0 MH_MAGIC_64] r [of 16 "of_nat (length cmds)"] r [of 20 "of_nat ?n"] by (simp_all add: header_bytes_def)
  moreover have u: "unat (of_nat (length cmds) :: 32 word) = length cmds" "unat (ucast (of_nat ?n :: 32 word) :: 64 word) = ?n"
    using assms(3,4) unat_small(2) [of ?n] by (simp_all add: MAX_COMMANDS_def unat_of_nat del: length_concat)
  moreover have "word_checked_add 32 (ucast (of_nat ?n :: 32 word)) = Some (32 + ucast (of_nat ?n :: 32 word))"
    "unat (32 + ucast (of_nat ?n :: 32 word) :: 64 word) = 32 + ?n"
    using u(2) assms(4) by (simp_all add: word_checked_add_Some unat_add_small del: length_concat)
  moreover have "mo_holds view 32 (concat (map command_bytes cmds))"
    using mo_holds_at [OF assms(1), of 32 "concat (map command_bytes cmds)" "[]"] by (simp add: header_bytes_def)
  ultimately show ?thesis
    using command_loop_holds [of view 32 cmds "32 + ucast (of_nat ?n :: 32 word)" load_info_default] assms(2,3)
    by (simp add: read_load_commands_def info_of_def MACH_HEADER_64_SIZE_def word_less_nat_alt del: length_concat)
qed

section \<open>The indirect symbol table\<close>

record mo_symbol =
  n_strx :: "32 word"
  n_type :: byte
  n_sect :: byte
  n_desc :: "16 word"
  n_value :: "64 word"

definition nlist_bytes :: "mo_symbol \<Rightarrow> byte list" where
  "nlist_bytes s = le_bytes (n_strx s) @ [n_type s, n_sect s] @ le_bytes (n_desc s) @ le_bytes (n_value s)"

lemma length_nlist_bytes [simp]: "length (nlist_bytes s) = 16"
  by (simp add: nlist_bytes_def)

text \<open>The tables of an image: symbols, indirect entries, strings.\<close>

record mo_tables =
  mt_symbols :: "mo_symbol list"
  mt_indirect :: "32 word list"
  mt_strings :: "byte list"

definition undefined_external :: "mo_symbol \<Rightarrow> bool" where
  "undefined_external s \<longleftrightarrow> n_type s AND N_STAB = 0 \<and> n_type s AND N_TYPE = N_UNDF \<and> n_type s AND N_EXT \<noteq> 0"

definition mo_name_at :: "byte list \<Rightarrow> 32 word \<Rightarrow> string" where
  "mo_name_at strings strx = from_utf8_lossy (chars_of (the (str_at strings (unat strx))))"

definition slot_entry :: "mo_tables \<Rightarrow> pointer_section \<Rightarrow> nat \<Rightarrow> 32 word" where
  "slot_entry tb sec i = mt_indirect tb ! (unat (psec_indirect_index sec) + i)"

text \<open>The symbol that a slot imports, if any.\<close>

definition slot_import :: "mo_tables \<Rightarrow> pointer_section \<Rightarrow> nat \<Rightarrow> (mo_symbol \<times> string) option" where
  "slot_import tb sec i =
     (let k = slot_entry tb sec i; sy = mt_symbols tb ! unat k in
      if k AND (INDIRECT_SYMBOL_LOCAL OR INDIRECT_SYMBOL_ABS) \<noteq> 0 \<or> \<not> undefined_external sy then None
      else
        case normalize_symbol_name (mo_name_at (mt_strings tb) (n_strx sy)) of
          None \<Rightarrow> None
        | Some name \<Rightarrow> if name = TLV_BOOTSTRAP then None else Some (sy, name))"

definition slot_offset :: "pointer_section \<Rightarrow> nat \<Rightarrow> 64 word" where
  "slot_offset sec i = psec_fileoff sec + of_nat i * 8"

definition indirect_import :: "macho_view \<Rightarrow> load_info \<Rightarrow> mo_tables \<Rightarrow> pointer_section \<Rightarrow> nat \<Rightarrow> raw_import list" where
  "indirect_import view info tb sec i =
     (case slot_import tb sec i of
        None \<Rightarrow> []
      | Some (sy, name) \<Rightarrow>
          [macho_import (library_of (uint (drop_bit 8 (n_desc sy) AND 0xff)) (li_dylibs info)) name
             (projr (mv_slot_address view (slot_offset sec i))) (is_arm64e view)])"

definition section_imports :: "macho_view \<Rightarrow> load_info \<Rightarrow> mo_tables \<Rightarrow> pointer_section \<Rightarrow> raw_import list" where
  "section_imports view info tb sec = concat (map (indirect_import view info tb sec) [0 ..< unat (psec_size sec) div 8])"

text \<open>What makes a slot well-formed: its indices are inside the tables, its name is terminated and not too long,
  and an import has an address.\<close>

definition slot_entry_ok :: "macho_view \<Rightarrow> mo_tables \<Rightarrow> pointer_section \<Rightarrow> nat \<Rightarrow> bool" where
  "slot_entry_ok view tb sec i \<longleftrightarrow>
     unat (psec_indirect_index sec) + i < length (mt_indirect tb) \<and>
     (let k = slot_entry tb sec i; sy = mt_symbols tb ! unat k in
      k AND (INDIRECT_SYMBOL_LOCAL OR INDIRECT_SYMBOL_ABS) = 0 \<longrightarrow>
        unat k < length (mt_symbols tb) \<and>
        (undefined_external sy \<longrightarrow>
           (case str_at (mt_strings tb) (unat (n_strx sy)) of None \<Rightarrow> False | Some s \<Rightarrow> length s \<le> MAX_NAME_LEN) \<and>
           (slot_import tb sec i \<noteq> None \<longrightarrow>
              unat (psec_fileoff sec) + i * 8 < 2 ^ 64 \<and> (\<exists>a. mv_slot_address view (slot_offset sec i) = Inr a))))"

definition mo_tables_at :: "macho_view \<Rightarrow> load_info \<Rightarrow> mo_tables \<Rightarrow> bool" where
  "mo_tables_at view info tb \<longleftrightarrow>
     (\<exists>symoff stroff indirectoff.
        li_symtab info = Some (symoff, of_nat (length (mt_symbols tb)), stroff, of_nat (length (mt_strings tb))) \<and>
        li_indirect info = Some (indirectoff, of_nat (length (mt_indirect tb))) \<and>
        length (mt_symbols tb) < 2 ^ 32 \<and> length (mt_strings tb) < 2 ^ 32 \<and> length (mt_indirect tb) < 2 ^ 32 \<and>
        mo_holds view symoff (concat (map nlist_bytes (mt_symbols tb))) \<and>
        mo_holds view stroff (mt_strings tb) \<and>
        mo_holds view indirectoff (concat (map le_bytes (mt_indirect tb))))"

lemma str_at_split:
  assumes "str_at tab i = Some s"
  obtains t where "i < length tab" "drop i tab = s @ 0 # t" "0 \<notin> set s"
proof -
  let ?d = "drop i tab"
  have at: "i < length tab" "0 \<in> set ?d" "s = takeWhile (\<lambda>b. b \<noteq> 0) ?d"
    using assms by (auto simp: str_at_def split: if_splits)
  have ne: "dropWhile (\<lambda>b. b \<noteq> 0) ?d \<noteq> []" using at(2) by (auto simp: dropWhile_eq_Nil_conv)
  from hd_dropWhile [OF this] have "hd (dropWhile (\<lambda>b. b \<noteq> 0) ?d) = 0" by simp
  then have "?d = s @ 0 # tl (dropWhile (\<lambda>b. b \<noteq> 0) ?d)" using ne by (metis at(3) list.collapse takeWhile_dropWhile_id)
  moreover have "0 \<notin> set s" using at(3) by (auto dest: set_takeWhileD)
  ultimately show ?thesis using that at(1) by blast
qed

lemma read_str_in_table_holds:
  assumes "mo_holds view stroff tab" "length tab < 2 ^ 32" "str_at tab (unat strx) = Some s" "length s \<le> MAX_NAME_LEN"
  shows "read_str_in_table view stroff (of_nat (length tab)) strx = Inr (mo_name_at tab strx)"
proof -
  let ?d = "drop (unat strx) tab" and ?x = "ucast strx :: 64 word"
  obtain t where at: "unat strx < length tab" and d: "?d = s @ 0 # t" and "0 \<notin> set s"
    using assms(3) by (rule str_at_split)
  have "length ?d = length s + 1 + length t" by (simp add: d)
  then have "length s < length tab - unat strx" by simp
  moreover have u: "unat (of_nat (length tab) :: 64 word) = length tab" using assms(2) by (rule unat_small)
  then have "\<not> of_nat (length tab) \<le> ?x" "unat (of_nat (length tab) - ?x) = length tab - unat strx"
    using at by (simp_all add: word_le_nat_alt unat_sub)
  moreover have "mo_holds view (stroff + ?x) (s @ 0 # t)"
    using mo_holds_at [OF assms(1), of "unat strx" "s @ 0 # t" "[]"] at d by simp
  ultimately show ?thesis
    using mo_name_loop_holds [of view "stroff + ?x" s _ "min (length tab - unat strx) (MAX_NAME_LEN + 1)" _ "[]"]
      \<open>0 \<notin> set s\<close> assms(3,4)
    by (simp add: read_str_in_table_def mo_name_at_def)
qed

lemma symbol_reads:
  assumes "mo_holds view symoff (concat (map nlist_bytes syms))" "unat k < length syms"
  shows "mo_read_u32 view (symoff + ucast k * NLIST_64_SIZE) = Inr (n_strx (syms ! unat k))"
    "mo_read_byte view (symoff + ucast k * NLIST_64_SIZE + 4) = Inr (n_type (syms ! unat k))"
    "mo_read_u16 view (symoff + ucast k * NLIST_64_SIZE + 6) = Inr (n_desc (syms ! unat k))"
proof -
  let ?s = "syms ! unat k"
  have h: "mo_holds view (symoff + ucast k * NLIST_64_SIZE) (nlist_bytes ?s)"
    using mo_holds_nth [OF assms(1), of 16 "unat k"] assms(2) by (simp add: NLIST_64_SIZE_def)
  show "mo_read_u32 view (symoff + ucast k * NLIST_64_SIZE) = Inr (n_strx ?s)"
    using mo_read_at(2) [OF h, of 0 "n_strx ?s"] by (simp add: nlist_bytes_def)
  show "mo_read_u16 view (symoff + ucast k * NLIST_64_SIZE + 6) = Inr (n_desc ?s)"
    using mo_read_at(1) [OF h, of 6 "n_desc ?s"] by (simp add: nlist_bytes_def)
  have "mo_holds view (symoff + ucast k * NLIST_64_SIZE + of_nat 4) (n_type ?s # n_sect ?s # le_bytes (n_desc ?s))"
    by (rule mo_holds_at [OF h, where ys = "le_bytes (n_value ?s)"]) (simp_all add: nlist_bytes_def)
  then show "mo_read_byte view (symoff + ucast k * NLIST_64_SIZE + 4) = Inr (n_type ?s)"
    using mo_read_holds(4) by fastforce
qed

lemma indirect_slot_holds:
  assumes "mo_holds view symoff (concat (map nlist_bytes (mt_symbols tb)))" "mo_holds view stroff (mt_strings tb)"
    and "mo_holds view indirectoff (concat (map le_bytes (mt_indirect tb)))"
    and "length (mt_symbols tb) < 2 ^ 32" "length (mt_strings tb) < 2 ^ 32" "length (mt_indirect tb) < 2 ^ 32"
    and "slot_entry_ok view tb sec i"
  shows "indirect_slot view info (symoff, of_nat (length (mt_symbols tb)), stroff, of_nat (length (mt_strings tb)))
      (indirectoff, of_nat (length (mt_indirect tb))) sec i out = Inr (out @ indirect_import view info tb sec i)"
proof -
  let ?k = "slot_entry tb sec i" and ?ix = "unat (psec_indirect_index sec) + i"
  let ?sy = "mt_symbols tb ! unat ?k"
  define idx :: "64 word" where "idx = of_nat ?ix"
  have ix: "?ix < length (mt_indirect tb)" using assms(7) by (simp add: slot_entry_ok_def)
  then have ui: "unat idx = ?ix" "unat (of_nat i :: 64 word) = i" unfolding idx_def using assms(6) by (intro unat_small; simp)+
  have f: "word_checked_add (ucast (psec_indirect_index sec)) (of_nat i) = Some idx"
    "\<not> ucast (of_nat (length (mt_indirect tb)) :: 32 word) \<le> idx"
    using ui ix unat_small(2) [OF assms(6)] by (simp_all add: word_checked_add_Some word_le_nat_alt)
  have "mo_holds view (indirectoff + of_nat ?ix * of_nat 4) (le_bytes (mt_indirect tb ! ?ix))"
    by (rule mo_holds_nth [OF assms(3) _ ix]) simp
  then have k: "mo_read_u32 view (indirectoff + idx * 4) = Inr ?k"
    using mo_read_holds(2) [of view _ "?k" "[]"] by (simp add: slot_entry_def idx_def)
  note d = indirect_slot_def indirect_import_def f k
  show ?thesis
  proof (cases "?k AND (INDIRECT_SYMBOL_LOCAL OR INDIRECT_SYMBOL_ABS) = 0")
    case False
    then show ?thesis by (simp add: d slot_import_def)
  next
    case True
    with assms(7) have kl: "unat ?k < length (mt_symbols tb)" by (simp add: slot_entry_ok_def Let_def)
    then have "\<not> of_nat (length (mt_symbols tb)) \<le> ?k" using unat_small(2) [OF assms(4)] by (simp add: word_le_nat_alt)
    note e = d this symbol_reads [OF assms(1) kl]
    show ?thesis
    proof (cases "undefined_external ?sy")
      case False
      then show ?thesis using True by (auto simp: e slot_import_def Let_def undefined_external_def)
    next
      case ext: True
      then have n: "\<not> (n_type ?sy AND N_STAB \<noteq> 0 \<or> n_type ?sy AND N_TYPE \<noteq> N_UNDF \<or> n_type ?sy AND N_EXT = 0)"
        by (simp add: undefined_external_def)
      have si: "slot_import tb sec i =
          (case normalize_symbol_name (mo_name_at (mt_strings tb) (n_strx ?sy)) of
             None \<Rightarrow> None | Some name \<Rightarrow> if name = TLV_BOOTSTRAP then None else Some (?sy, name))"
        using True ext by (simp add: slot_import_def Let_def)
      have ok: "(case str_at (mt_strings tb) (unat (n_strx ?sy)) of None \<Rightarrow> False | Some s \<Rightarrow> length s \<le> MAX_NAME_LEN)"
        "slot_import tb sec i \<noteq> None \<Longrightarrow> unat (psec_fileoff sec) + i * 8 < 2 ^ 64"
        "slot_import tb sec i \<noteq> None \<Longrightarrow> \<exists>a. mv_slot_address view (slot_offset sec i) = Inr a"
        using assms(7) True ext by (auto simp: slot_entry_ok_def Let_def)
      from ok(1) have str: "read_str_in_table view stroff (of_nat (length (mt_strings tb))) (n_strx ?sy) =
          Inr (mo_name_at (mt_strings tb) (n_strx ?sy))"
        using read_str_in_table_holds [OF assms(2,5)] by (auto split: option.splits)
      show ?thesis
      proof (cases "slot_import tb sec i")
        case None
        then show ?thesis using True n by (simp add: e str si Let_def split: option.splits if_splits)
      next
        case (Some p)
        then obtain name where nm: "normalize_symbol_name (mo_name_at (mt_strings tb) (n_strx ?sy)) = Some name"
          "name \<noteq> TLV_BOOTSTRAP" "p = (?sy, name)" using si by (auto split: option.splits if_splits)
        obtain a where a: "mv_slot_address view (slot_offset sec i) = Inr a" using ok(3) Some by auto
        have "unat (of_nat i * 8 :: 64 word) = i * 8" using ui(2) ok(2) Some by (simp add: unat_word_ariths)
        then have "word_checked_add (psec_fileoff sec) (of_nat i * 8) = Some (slot_offset sec i)"
          using ok(2) Some by (simp add: word_checked_add_def no_olen_add_nat slot_offset_def)
        then show ?thesis using True n by (simp add: e str nm a Some Let_def)
      qed
    qed
  qed
qed

text \<open>Folding a step that appends.\<close>

lemma try_fold_append:
  assumes "\<And>x out. x \<in> set xs \<Longrightarrow> f x out = Inr (out @ g x)"
  shows "try_fold f xs out = Inr (out @ concat (map g xs))"
  using assms by (induction xs arbitrary: out) auto

lemma parse_indirect_holds:
  assumes "mo_tables_at view info tb"
    and "\<forall>sec \<in> set (li_pointer_sections info). unat (psec_size sec) div 8 \<le> MAX_INDIRECT \<and>
      (\<forall>i < unat (psec_size sec) div 8. slot_entry_ok view tb sec i)"
  shows "parse_indirect view info out = Inr (out @ concat (map (section_imports view info tb) (li_pointer_sections info)))"
proof -
  from assms(1) obtain symoff stroff indirectoff where
    t: "li_symtab info = Some (symoff, of_nat (length (mt_symbols tb)), stroff, of_nat (length (mt_strings tb)))"
      "li_indirect info = Some (indirectoff, of_nat (length (mt_indirect tb)))"
      "length (mt_symbols tb) < 2 ^ 32" "length (mt_strings tb) < 2 ^ 32" "length (mt_indirect tb) < 2 ^ 32"
      "mo_holds view symoff (concat (map nlist_bytes (mt_symbols tb)))" "mo_holds view stroff (mt_strings tb)"
      "mo_holds view indirectoff (concat (map le_bytes (mt_indirect tb)))"
    by (auto simp: mo_tables_at_def)
  note slot = indirect_slot_holds [OF t(6,7,8,3,4,5)]
  have "indirect_section view info (symoff, of_nat (length (mt_symbols tb)), stroff, of_nat (length (mt_strings tb)))
      (indirectoff, of_nat (length (mt_indirect tb))) sec out = Inr (out @ section_imports view info tb sec)"
    if "sec \<in> set (li_pointer_sections info)" for sec out
  proof -
    have c: "\<not> MAX_INDIRECT < unat (psec_size sec) div 8" and i: "\<forall>i < unat (psec_size sec) div 8. slot_entry_ok view tb sec i"
      using assms(2) that by auto
    show ?thesis
      unfolding indirect_section_def section_imports_def Let_def if_not_P [OF c]
      by (rule try_fold_append) (use slot i in simp)
  qed
  then have "try_fold (indirect_section view info (symoff, of_nat (length (mt_symbols tb)), stroff, of_nat (length (mt_strings tb)))
      (indirectoff, of_nat (length (mt_indirect tb)))) (li_pointer_sections info) out =
    Inr (out @ concat (map (section_imports view info tb) (li_pointer_sections info)))"
    by (rule try_fold_append)
  then show ?thesis by (simp add: parse_indirect_def t(1,2))
qed

end
