(* ===== verification/Macho_Chains.thy ===== *)
theory Macho_Chains
  imports Macho_Image
begin

unbundle bit_operations_syntax

text \<open>
  Chained fixups against their format.  A pointer of a chain, an import record and the tables that hold them
  have encoders; the meaning of a blob is the list of imports that its chains bind, and the walk of the code
  is proved to report exactly these, for every pointer format and every import format it knows.
\<close>

section \<open>Fields of words\<close>

lemma and_mask_word: "w AND mask n = (of_nat (unat w mod 2 ^ n) :: 'a :: len word)"
proof (rule word_unat_eq_iff [THEN iffD2])
  have "unat w mod 2 ^ n < 2 ^ LENGTH('a)" by (rule le_less_trans [OF mod_less_eq_dividend unsigned_less])
  then have "unat (of_nat (unat w mod 2 ^ n) :: 'a word) = unat w mod 2 ^ n" by (simp add: unat_of_nat)
  moreover have "unat (w AND mask n) = take_bit n (unat w)"
    unfolding take_bit_eq_mask [symmetric] by (rule unsigned_take_bit_eq)
  ultimately show "unat (w AND mask n) = unat (of_nat (unat w mod 2 ^ n) :: 'a word)" by (simp only: take_bit_eq_mod)
qed

lemma drop_bit_of_nat:
  assumes "n < 2 ^ LENGTH('a)"
  shows "drop_bit k (of_nat n :: 'a :: len word) = of_nat (n div 2 ^ k)"
proof (rule word_unat_eq_iff [THEN iffD2])
  have "n div 2 ^ k < 2 ^ LENGTH('a)" by (rule le_less_trans [OF div_le_dividend assms])
  then have "unat (of_nat (n div 2 ^ k) :: 'a word) = n div 2 ^ k" by (simp add: unat_of_nat)
  moreover have "unat (drop_bit k (of_nat n :: 'a word)) = drop_bit k (unat (of_nat n :: 'a word))"
    by (subst unsigned_drop_bit_eq) (simp add: take_bit_nat_eq_self unsigned_less)
  ultimately show "unat (drop_bit k (of_nat n :: 'a word)) = unat (of_nat (n div 2 ^ k) :: 'a word)"
    using assms by (simp only: drop_bit_eq_div) (simp add: unat_of_nat)
qed

text \<open>A field of a word that is given by its number.\<close>

lemma word_field:
  "n < 2 ^ LENGTH('a) \<Longrightarrow> drop_bit k (of_nat n :: 'a :: len word) AND mask m = of_nat (n div 2 ^ k mod 2 ^ m)"
  by (simp add: drop_bit_of_nat and_mask_word unat_of_nat le_less_trans [OF div_le_dividend])

lemma word_low: "n < 2 ^ LENGTH('a) \<Longrightarrow> (of_nat n :: 'a :: len word) AND mask m = of_nat (n mod 2 ^ m)"
  by (simp add: and_mask_word unat_of_nat)

section \<open>Pointers of a chain\<close>

text \<open>The low 51 bits of a pointer hold the ordinal of a bind, or the target of a rebase, with further fields
  that do not matter here.\<close>

record fixup =
  fx_bind :: bool
  fx_auth :: bool
  fx_low :: nat

definition plain_format :: "16 word \<Rightarrow> bool" where
  "plain_format format \<longleftrightarrow> format = DYLD_CHAINED_PTR_64 \<or> format = DYLD_CHAINED_PTR_64_OFFSET"

definition arm64e_format :: "16 word \<Rightarrow> bool" where
  "arm64e_format format \<longleftrightarrow>
     format \<in> {DYLD_CHAINED_PTR_ARM64E, DYLD_CHAINED_PTR_ARM64E_KERNEL, DYLD_CHAINED_PTR_ARM64E_USERLAND,
       DYLD_CHAINED_PTR_ARM64E_FIRMWARE, DYLD_CHAINED_PTR_ARM64E_USERLAND24}"

definition chain_stride :: "16 word \<Rightarrow> nat" where
  "chain_stride format =
     (if plain_format format \<or> format = DYLD_CHAINED_PTR_ARM64E_KERNEL \<or> format = DYLD_CHAINED_PTR_ARM64E_FIRMWARE
      then 4 else 8)"

definition ordinal_bits :: "16 word \<Rightarrow> nat" where
  "ordinal_bits format = (if plain_format format \<or> format = DYLD_CHAINED_PTR_ARM64E_USERLAND24 then 24 else 16)"

definition fx_ordinal :: "16 word \<Rightarrow> fixup \<Rightarrow> nat" where
  "fx_ordinal format fx = fx_low fx mod 2 ^ ordinal_bits format"

definition chain_number :: "16 word \<Rightarrow> fixup \<Rightarrow> nat \<Rightarrow> nat" where
  "chain_number format fx k =
     fx_low fx + k * 2 ^ 51 +
     (if plain_format format then of_bool (fx_bind fx) * 2 ^ 63
      else of_bool (fx_bind fx) * 2 ^ 62 + of_bool (fx_auth fx) * 2 ^ 63)"

definition fixup_ok :: "16 word \<Rightarrow> fixup \<Rightarrow> nat \<Rightarrow> bool" where
  "fixup_ok format fx k \<longleftrightarrow> fx_low fx < 2 ^ 51 \<and>
     (plain_format format \<and> k < 2 ^ 12 \<and> \<not> fx_auth fx \<or> arm64e_format format \<and> k < 2 ^ 11)"

lemma formats_apart: "plain_format format \<Longrightarrow> \<not> arm64e_format format"
  by (auto simp: plain_format_def arm64e_format_def DYLD_CHAINED_PTR_64_def DYLD_CHAINED_PTR_64_OFFSET_def
      DYLD_CHAINED_PTR_ARM64E_def DYLD_CHAINED_PTR_ARM64E_KERNEL_def DYLD_CHAINED_PTR_ARM64E_USERLAND_def
      DYLD_CHAINED_PTR_ARM64E_FIRMWARE_def DYLD_CHAINED_PTR_ARM64E_USERLAND24_def)

lemma low_part: "(low + c * 2 ^ 51) mod 2 ^ m = low mod 2 ^ m" if "m \<le> 51" for low c m :: nat
proof -
  have "(2 :: nat) ^ m dvd c * 2 ^ 51" using that by (intro dvd_mult le_imp_power_dvd)
  then show ?thesis by (metis mod_add_right_eq add.right_neutral mod_0_imp_dvd dvd_imp_mod_0)
qed

lemma high_parts:
  fixes low k e :: nat
  assumes "low < 2 ^ 51"
  shows "(low + (k + e * 2 ^ j) * 2 ^ 51) div 2 ^ 51 = k + e * 2 ^ j"
    "k < 2 ^ j \<Longrightarrow> (low + (k + e * 2 ^ j) * 2 ^ 51) div 2 ^ (51 + j) = e"
proof -
  show "(low + (k + e * 2 ^ j) * 2 ^ 51) div 2 ^ 51 = k + e * 2 ^ j" using assms by simp
  then show "k < 2 ^ j \<Longrightarrow> (low + (k + e * 2 ^ j) * 2 ^ 51) div 2 ^ (51 + j) = e"
    by (simp only: power_add div_mult2_eq) simp
qed

lemma ucast_of_nat: "ucast (of_nat n :: 64 word) = (of_nat n :: 32 word)"
  by (simp only: unsigned_of_nat word_of_nat_eq_iff take_bit_take_bit) simp

lemma of_bool_one: "(of_nat (of_bool b) :: 64 word) = 1 \<longleftrightarrow> b"
  by simp

lemma chain_number_fields:
  assumes "fixup_ok format fx k" "n = chain_number format fx k"
  shows "n < 2 ^ 64" "m \<le> 51 \<Longrightarrow> n mod 2 ^ m = fx_low fx mod 2 ^ m"
    "plain_format format \<Longrightarrow> n div 2 ^ 51 mod 2 ^ 12 = k \<and> n div 2 ^ 63 mod 2 = of_bool (fx_bind fx)"
    "\<not> plain_format format \<Longrightarrow> n div 2 ^ 51 mod 2 ^ 11 = k \<and> n div 2 ^ 62 mod 2 = of_bool (fx_bind fx) \<and>
       n div 2 ^ 63 mod 2 = of_bool (fx_auth fx)"
proof -
  let ?low = "fx_low fx" and ?b = "of_bool (fx_bind fx) :: nat" and ?a = "of_bool (fx_auth fx) :: nat"
  have low: "?low < 2 ^ 51" using assms(1) by (simp add: fixup_ok_def)
  have p: "n = ?low + (k + ?b * 2 ^ 12) * 2 ^ 51" "k < 2 ^ 12" if "plain_format format"
    using that assms by (auto simp: chain_number_def fixup_ok_def formats_apart algebra_simps)
  have a: "n = ?low + (k + (?b + ?a * 2 ^ 1) * 2 ^ 11) * 2 ^ 51" "k < 2 ^ 11" if "\<not> plain_format format"
    using that assms by (auto simp: chain_number_def fixup_ok_def algebra_simps)
  have "k + ?b * 2 ^ 12 < 2 ^ 13" if "plain_format format" using p(2) [OF that] by (simp add: of_bool_def)
  moreover have "k + (?b + ?a * 2 ^ 1) * 2 ^ 11 < 2 ^ 13" if "\<not> plain_format format" using a(2) [OF that] by (simp add: of_bool_def)
  ultimately obtain h where "n = ?low + h * 2 ^ 51" "h < 2 ^ 13" using p(1) a(1) by metis
  then show "n < 2 ^ 64" "m \<le> 51 \<Longrightarrow> n mod 2 ^ m = fx_low fx mod 2 ^ m" using low low_part by auto
  show "n div 2 ^ 51 mod 2 ^ 12 = k \<and> n div 2 ^ 63 mod 2 = ?b" if "plain_format format"
    using high_parts(1) [OF low, of k ?b 12] high_parts(2) [OF low p(2) [OF that], of ?b] p [OF that] by simp
  assume np: "\<not> plain_format format"
  let ?e = "?b + ?a * 2 ^ 1"
  have d: "n div 2 ^ 51 = k + ?e * 2 ^ 11" "n div 2 ^ (51 + 11) = ?e"
    using high_parts(1) [OF low, of k ?e 11] high_parts(2) [OF low a(2) [OF np], of ?e] a(1) [OF np] by (simp_all only:)
  from d(1) have "n div 2 ^ 51 mod 2 ^ 11 = k" using a(2) [OF np] by (simp only: mod_mult_self1 mod_less)
  moreover have "n div 2 ^ 63 = ?e div 2"
    using d(2) div_mult2_eq [of n "2 ^ (51 + 11)" 2] by (simp only:) simp
  ultimately show "n div 2 ^ 51 mod 2 ^ 11 = k \<and> n div 2 ^ 62 mod 2 = ?b \<and> n div 2 ^ 63 mod 2 = ?a" using d(2) by simp
qed

lemma decode_chain_number:
  assumes "fixup_ok format fx k"
  shows "decode_chain (of_nat (chain_number format fx k)) format =
    Some \<lparr>ce_is_bind = fx_bind fx,
          ce_ordinal = (if plain_format format \<and> \<not> fx_bind fx then 0 else of_nat (fx_ordinal format fx)),
          ce_authenticated = fx_auth fx, ce_next = of_nat (k * chain_stride format)\<rparr>"
proof -
  define n where "n = chain_number format fx k"
  note f = chain_number_fields [OF assms n_def]
  have lim: "n < 2 ^ LENGTH(64)" using f(1) by simp
  have masks: "(0xfff :: 64 word) = mask 12" "(0x7ff :: 64 word) = mask 11" "(0xffffff :: 64 word) = mask 24"
    "(0xffff :: 64 word) = mask 16" "(1 :: 64 word) = mask 1" by (simp_all add: mask_eq_exp_minus_1)
  let ?w = "of_nat n :: 64 word"
  have w: "?w AND 0xffffff = of_nat (n mod 2 ^ 24)" "?w AND 0xffff = of_nat (n mod 2 ^ 16)"
    "drop_bit 51 ?w AND 0xfff = of_nat (n div 2 ^ 51 mod 2 ^ 12)" "drop_bit 51 ?w AND 0x7ff = of_nat (n div 2 ^ 51 mod 2 ^ 11)"
    unfolding masks by (rule word_field [OF lim] word_low [OF lim])+
  have b: "drop_bit j ?w AND 1 = of_nat (n div 2 ^ j mod 2)" for j
    using word_field [OF lim, of j 1] by (simp add: mask_eq_exp_minus_1)
  show ?thesis
  proof (cases "plain_format format")
    case True
    then have "\<not> fx_auth fx" "format = DYLD_CHAINED_PTR_64 \<or> format = DYLD_CHAINED_PTR_64_OFFSET"
      using assms formats_apart by (auto simp: fixup_ok_def plain_format_def)
    then show ?thesis
      using True f(2) [of 24] f(3) [OF True]
      by (simp add: decode_chain_def w b ucast_of_nat fx_ordinal_def ordinal_bits_def chain_stride_def Let_def flip: n_def)
  next
    case False
    then have "arm64e_format format" "\<not> (format = DYLD_CHAINED_PTR_64 \<or> format = DYLD_CHAINED_PTR_64_OFFSET)"
      using assms by (auto simp: fixup_ok_def plain_format_def)
    then show ?thesis
      using False f(2) [of 24] f(2) [of 16] f(4) [OF False]
      by (simp add: decode_chain_def arm64e_format_def w b ucast_of_nat fx_ordinal_def ordinal_bits_def chain_stride_def Let_def flip: n_def)
  qed
qed

section \<open>Import records\<close>

text \<open>The library field of a record is a number in two's complement.\<close>

definition signed_field :: "nat \<Rightarrow> nat \<Rightarrow> int" where
  "signed_field bits n = (if n < 2 ^ (bits - 1) then int n else int n - 2 ^ bits)"

lemma sint_of_nat64:
  assumes "m < 2 ^ 64"
  shows "sint (of_nat m :: 64 word) = (if m < 2 ^ 63 then int m else int m - 2 ^ 64)"
proof -
  have "uint (of_nat m :: 64 word) = int m" using assms by (simp add: uint_nat unat_of_nat)
  then have "sint (of_nat m :: 64 word) = (int m + 2 ^ 63) mod 2 ^ 64 - 2 ^ 63"
    by (simp add: sint_uint signed_take_bit_eq_take_bit_shift take_bit_eq_mod)
  moreover have "(int m + 2 ^ 63) mod 2 ^ 64 = int m + 2 ^ 63" if "m < 2 ^ 63" using that by (intro mod_pos_pos_trivial) simp_all
  moreover have "(int m + 2 ^ 63) mod 2 ^ 64 = int m + 2 ^ 63 - 2 ^ 64" if "\<not> m < 2 ^ 63"
    using that assms by (intro int_mod_pos_eq [where q = 1]) simp_all
  ultimately show ?thesis by simp
qed

lemma sign_extend_of_nat:
  "n < 2 ^ 8 \<Longrightarrow> sign_extend (of_nat n) 8 = signed_field 8 n"
  "n < 2 ^ 16 \<Longrightarrow> sign_extend (of_nat n) 16 = signed_field 16 n"
proof -
  have p: "push_bit s (of_nat n :: 64 word) = of_nat (n * 2 ^ s)" for s by (simp add: push_bit_eq_mult)
  show "sign_extend (of_nat n) 8 = signed_field 8 n" if "n < 2 ^ 8"
    unfolding sign_extend_def Let_def p using sint_of_nat64 [of "n * 2 ^ (64 - 8)"] that by (simp add: signed_field_def)
  show "sign_extend (of_nat n) 16 = signed_field 16 n" if "n < 2 ^ 16"
    unfolding sign_extend_def Let_def p using sint_of_nat64 [of "n * 2 ^ (64 - 16)"] that by (simp add: signed_field_def)
qed

record chain_import =
  ci_library :: nat
  ci_weak :: nat
  ci_name :: nat
  ci_addend :: "byte list"

definition import_ok :: "32 word \<Rightarrow> chain_import \<Rightarrow> bool" where
  "import_ok format ci =
     (if format = DYLD_CHAINED_IMPORT
      then ci_library ci < 2 ^ 8 \<and> ci_weak ci < 2 \<and> ci_name ci < 2 ^ 23 \<and> length (ci_addend ci) = 0
      else if format = DYLD_CHAINED_IMPORT_ADDEND
      then ci_library ci < 2 ^ 8 \<and> ci_weak ci < 2 \<and> ci_name ci < 2 ^ 23 \<and> length (ci_addend ci) = 4
      else format = DYLD_CHAINED_IMPORT_ADDEND64 \<and> ci_library ci < 2 ^ 16 \<and> ci_weak ci < 2 ^ 16 \<and> ci_name ci < 2 ^ 32 \<and>
        length (ci_addend ci) = 8)"

definition import_bytes :: "32 word \<Rightarrow> chain_import \<Rightarrow> byte list" where
  "import_bytes format ci =
     (if format = DYLD_CHAINED_IMPORT_ADDEND64
      then le_bytes (of_nat (ci_library ci + ci_weak ci * 2 ^ 16 + ci_name ci * 2 ^ 32) :: 64 word)
      else le_bytes (of_nat (ci_library ci + ci_weak ci * 2 ^ 8 + ci_name ci * 2 ^ 9) :: 32 word)) @ ci_addend ci"

definition import_library :: "32 word \<Rightarrow> chain_import \<Rightarrow> int" where
  "import_library format ci = signed_field (if format = DYLD_CHAINED_IMPORT_ADDEND64 then 16 else 8) (ci_library ci)"

definition import_size :: "32 word \<Rightarrow> nat" where
  "import_size format =
     (if format = DYLD_CHAINED_IMPORT then 4 else if format = DYLD_CHAINED_IMPORT_ADDEND then 8 else 16)"

lemmas import_formats = DYLD_CHAINED_IMPORT_def DYLD_CHAINED_IMPORT_ADDEND_def DYLD_CHAINED_IMPORT_ADDEND64_def

lemma length_import_bytes: "import_ok format ci \<Longrightarrow> length (import_bytes format ci) = import_size format"
  by (auto simp: import_ok_def import_bytes_def import_size_def import_formats split: if_splits)

text \<open>A record of three fields.\<close>

lemma three_fields:
  fixes x y z :: nat
  assumes "x < 2 ^ a" "y < 2 ^ b"
  shows "(x + y * 2 ^ a + z * 2 ^ (a + b)) mod 2 ^ a = x" "(x + y * 2 ^ a + z * 2 ^ (a + b)) div 2 ^ (a + b) = z"
proof -
  have n: "x + y * 2 ^ a + z * 2 ^ (a + b) = x + (y + z * 2 ^ b) * 2 ^ a" by (simp add: power_add algebra_simps)
  show "(x + y * 2 ^ a + z * 2 ^ (a + b)) mod 2 ^ a = x" unfolding n using assms(1) by simp
  have "(x + (y + z * 2 ^ b) * 2 ^ a) div 2 ^ a = y + z * 2 ^ b" using assms(1) by simp
  then show "(x + y * 2 ^ a + z * 2 ^ (a + b)) div 2 ^ (a + b) = z" unfolding n using assms(2) by (simp add: power_add div_mult2_eq)
qed

lemma ucast_up: "n < 2 ^ 32 \<Longrightarrow> ucast (of_nat n :: 32 word) = (of_nat n :: 64 word)"
  by (simp add: unsigned_of_nat take_bit_nat_eq_self)

lemma narrow_record:
  assumes "n = ci_library ci + ci_weak ci * 2 ^ 8 + ci_name ci * 2 ^ 9"
    "ci_library ci < 2 ^ 8" "ci_weak ci < 2" "ci_name ci < 2 ^ 23"
  shows "ucast (drop_bit 9 (of_nat n :: 32 word) AND 0x7fffff) = (of_nat (ci_name ci) :: 64 word)"
    "sign_extend (ucast ((of_nat n :: 32 word) AND 0xff)) 8 = signed_field 8 (ci_library ci)"
proof -
  have masks: "(0x7fffff :: 32 word) = mask 23" "(0xff :: 32 word) = mask 8" by (simp_all add: mask_eq_exp_minus_1)
  have n: "n < 2 ^ LENGTH(32)" "n mod 2 ^ 8 = ci_library ci" "n div 2 ^ 9 = ci_name ci"
    using three_fields [of "ci_library ci" 8 "ci_weak ci" 1 "ci_name ci"] assms by simp_all
  show "ucast (drop_bit 9 (of_nat n :: 32 word) AND 0x7fffff) = (of_nat (ci_name ci) :: 64 word)"
    unfolding masks word_field [OF n(1)] n(3) using assms(4) by (simp add: ucast_up)
  show "sign_extend (ucast ((of_nat n :: 32 word) AND 0xff)) 8 = signed_field 8 (ci_library ci)"
    unfolding masks word_low [OF n(1)] n(2) using assms(2) by (simp add: ucast_up sign_extend_of_nat)
qed

lemma wide_record:
  assumes "n = ci_library ci + ci_weak ci * 2 ^ 16 + ci_name ci * 2 ^ 32"
    "ci_library ci < 2 ^ 16" "ci_weak ci < 2 ^ 16" "ci_name ci < 2 ^ 32"
  shows "drop_bit 32 (of_nat n :: 64 word) AND 0xffffffff = of_nat (ci_name ci)"
    "sign_extend ((of_nat n :: 64 word) AND 0xffff) 16 = signed_field 16 (ci_library ci)"
proof -
  have masks: "(0xffffffff :: 64 word) = mask 32" "(0xffff :: 64 word) = mask 16" by (simp_all add: mask_eq_exp_minus_1)
  have n: "n < 2 ^ LENGTH(64)" "n mod 2 ^ 16 = ci_library ci" "n div 2 ^ 32 = ci_name ci"
    using three_fields [of "ci_library ci" 16 "ci_weak ci" 16 "ci_name ci"] assms by simp_all
  show "drop_bit 32 (of_nat n :: 64 word) AND 0xffffffff = of_nat (ci_name ci)"
    unfolding masks word_field [OF n(1)] n(3) using assms(4) by simp
  show "sign_extend ((of_nat n :: 64 word) AND 0xffff) 16 = signed_field 16 (ci_library ci)"
    unfolding masks word_low [OF n(1)] n(2) using assms(2) by (simp add: sign_extend_of_nat)
qed

lemma import_record_holds:
  assumes "mo_holds view (it_base tb) (concat (map (import_bytes (it_format tb)) imports))"
    and "list_all (import_ok (it_format tb)) imports" "unat ordinal < length imports"
  shows "import_record view tb ordinal =
    Inr (of_nat (ci_name (imports ! unat ordinal)), import_library (it_format tb) (imports ! unat ordinal))"
proof -
  let ?ci = "imports ! unat ordinal" and ?f = "it_format tb"
  have ok: "import_ok ?f ?ci" using assms(2,3) by (simp add: list_all_length)
  have "mo_holds view (it_base tb + of_nat (unat ordinal) * of_nat (import_size ?f)) (import_bytes ?f ?ci)"
    using assms by (intro mo_holds_nth) (auto simp: list_all_iff length_import_bytes)
  then have h: "mo_holds view (it_base tb + ucast ordinal * of_nat (import_size ?f)) (import_bytes ?f ?ci)" by simp
  show ?thesis
  proof (cases "?f = DYLD_CHAINED_IMPORT_ADDEND64")
    case True
    then have b: "ci_library ?ci < 2 ^ 16" "ci_weak ?ci < 2 ^ 16" "ci_name ?ci < 2 ^ 32"
      using ok by (simp_all add: import_ok_def import_formats)
    show ?thesis
      using h mo_read_holds(3) [of view _ _ "ci_addend ?ci"] wide_record [OF refl b] True
      by (simp add: import_record_def import_bytes_def import_size_def import_library_def import_formats)
  next
    case False
    then have b: "ci_library ?ci < 2 ^ 8" "ci_weak ?ci < 2" "ci_name ?ci < 2 ^ 23"
      and "?f = DYLD_CHAINED_IMPORT \<or> ?f = DYLD_CHAINED_IMPORT_ADDEND"
      using ok by (auto simp: import_ok_def split: if_splits)
    then show ?thesis
      using h mo_read_holds(2) [of view _ _ "ci_addend ?ci"] narrow_record [OF refl b] False
      by (auto simp: import_record_def import_bytes_def import_size_def import_library_def import_formats)
  qed
qed

text \<open>The imports that a blob of fixups refers to, with their names.\<close>

record chain_tables =
  ct_format :: "32 word"
  ct_imports :: "chain_import list"
  ct_symbols :: "byte list"

definition chain_tables_at :: "macho_view \<Rightarrow> imports_table \<Rightarrow> chain_tables \<Rightarrow> bool" where
  "chain_tables_at view tb ct \<longleftrightarrow>
     it_format tb = ct_format ct \<and> it_count tb = of_nat (length (ct_imports ct)) \<and> length (ct_imports ct) < 2 ^ 32 \<and>
     list_all (import_ok (ct_format ct)) (ct_imports ct) \<and>
     mo_holds view (it_base tb) (concat (map (import_bytes (ct_format ct)) (ct_imports ct))) \<and>
     mo_holds view (it_symbols_base tb) (ct_symbols ct) \<and>
     unat (it_symbols_base tb) + length (ct_symbols ct) \<le> unat (it_blob_end tb)"

definition import_named :: "chain_tables \<Rightarrow> chain_import \<Rightarrow> bool" where
  "import_named ct ci \<longleftrightarrow>
     (case str_at (ct_symbols ct) (ci_name ci) of None \<Rightarrow> False | Some s \<Rightarrow> length s \<le> MAX_NAME_LEN)"

definition import_name :: "chain_tables \<Rightarrow> chain_import \<Rightarrow> string option" where
  "import_name ct ci =
     normalize_symbol_name (from_utf8_lossy (chars_of (the (str_at (ct_symbols ct) (ci_name ci)))))"

lemma chained_resolve_holds:
  assumes "chain_tables_at view tb ct" "n < length (ct_imports ct)" "import_named ct (ct_imports ct ! n)"
  shows "chained_resolve view tb (of_nat n) dylibs =
    Inr (library_of (import_library (ct_format ct) (ct_imports ct ! n)) dylibs, import_name ct (ct_imports ct ! n))"
proof -
  let ?ci = "ct_imports ct ! n"
  note t = assms(1) [unfolded chain_tables_at_def]
  have un: "unat (of_nat n :: 32 word) = n" using assms(2) t by (intro unat_small) simp
  moreover have "unat (it_count tb) = length (ct_imports ct)" using t unat_small(2) by metis
  ultimately have c: "\<not> it_count tb \<le> of_nat n" using assms(2) by (simp add: word_le_nat_alt)
  have r: "import_record view tb (of_nat n) = Inr (of_nat (ci_name ?ci), import_library (ct_format ct) ?ci)"
    using import_record_holds [of view tb "ct_imports ct" "of_nat n"] t un assms(2) by simp
  obtain s where s: "str_at (ct_symbols ct) (ci_name ?ci) = Some s" "length s \<le> MAX_NAME_LEN"
    using assms(3) by (auto simp: import_named_def split: option.splits)
  obtain rest where d: "ci_name ?ci < length (ct_symbols ct)" "drop (ci_name ?ci) (ct_symbols ct) = s @ 0 # rest" "0 \<notin> set s"
    using s(1) by (rule str_at_split)
  let ?a = "it_symbols_base tb + of_nat (ci_name ?ci)"
  have le: "unat (it_symbols_base tb) + ci_name ?ci < unat (it_blob_end tb)" using d(1) t by simp
  have lim: "unat (it_symbols_base tb) + ci_name ?ci < 2 ^ 64"
    using less_trans [OF le] unsigned_less [of "it_blob_end tb"] by simp
  then have "unat (of_nat (ci_name ?ci) :: 64 word) = ci_name ?ci" by (simp add: unat_of_nat)
  then have "word_checked_add (it_symbols_base tb) (of_nat (ci_name ?ci)) = Some ?a" "\<not> it_blob_end tb \<le> ?a"
    using le lim by (simp_all add: word_checked_add_Some unat_add_small word_le_nat_alt)
  moreover have "mo_holds view ?a (s @ 0 # rest)"
    using mo_holds_at [of view _ "ct_symbols ct" "ci_name ?ci" _ "[]"] t d by simp
  from read_cstr_raw_holds [OF this d(3) s(2)] have "read_cstr view ?a = Inr (from_utf8_lossy (chars_of s))"
    by (simp add: read_cstr_def)
  ultimately show ?thesis using c r s(1) by (simp add: chained_resolve_def import_name_def)
qed

section \<open>Chains\<close>

text \<open>A chain is the list of its pointers, each with its offset in the file.  What one pointer imports:\<close>

definition fixup_import ::
  "macho_view \<Rightarrow> load_info \<Rightarrow> chain_tables \<Rightarrow> 16 word \<Rightarrow> 64 word \<times> fixup \<Rightarrow> raw_import list" where
  "fixup_import view info ct format = (\<lambda>(off, fx).
     if \<not> fx_bind fx then []
     else
       let ci = ct_imports ct ! fx_ordinal format fx in
       case import_name ct ci of
         None \<Rightarrow> []
       | Some name \<Rightarrow>
           if name = TLV_BOOTSTRAP then []
           else [macho_import (library_of (import_library (ct_format ct) ci) (li_dylibs info)) name
                   (projr (mv_slot_address view off)) (fx_auth fx)])"

definition fixup_bound :: "macho_view \<Rightarrow> load_info \<Rightarrow> chain_tables \<Rightarrow> 16 word \<Rightarrow> 64 word \<times> fixup \<Rightarrow> bool" where
  "fixup_bound view info ct format p \<longleftrightarrow>
     (fx_bind (snd p) \<longrightarrow>
        fx_ordinal format (snd p) < length (ct_imports ct) \<and> import_named ct (ct_imports ct ! fx_ordinal format (snd p)) \<and>
        (fixup_import view info ct format p \<noteq> [] \<longrightarrow> \<not> isl (mv_slot_address view (fst p))))"

text \<open>The distance to the next pointer, in units of the format, is in the pointer; the last one holds zero.\<close>

fun chain_step :: "16 word \<Rightarrow> 64 word \<Rightarrow> (64 word \<times> fixup) list \<Rightarrow> nat" where
  "chain_step format off [] = 0"
| "chain_step format off (p # _) = (unat (fst p) - unat off) div chain_stride format"

fun chain_follows :: "16 word \<Rightarrow> 64 word \<Rightarrow> (64 word \<times> fixup) list \<Rightarrow> bool" where
  "chain_follows format off [] \<longleftrightarrow> True"
| "chain_follows format off (p # _) \<longleftrightarrow> off < fst p \<and> (unat (fst p) - unat off) mod chain_stride format = 0"

fun chain_at :: "macho_view \<Rightarrow> 16 word \<Rightarrow> (64 word \<times> fixup) list \<Rightarrow> bool" where
  "chain_at view format [] \<longleftrightarrow> True"
| "chain_at view format ((off, fx) # ps) \<longleftrightarrow>
     fixup_ok format fx (chain_step format off ps) \<and> chain_follows format off ps \<and>
     mv_slot_encoding view off = Inr (of_nat (chain_number format fx (chain_step format off ps))) \<and> chain_at view format ps"

lemma chain_next_off:
  assumes "chain_follows format off (p # ps)" "k = chain_step format off (p # ps)"
  shows "k * chain_stride format = unat (fst p) - unat off" "0 < k * chain_stride format"
    "unat (of_nat (k * chain_stride format) :: 64 word) = k * chain_stride format"
    "word_checked_add off (of_nat (k * chain_stride format)) = Some (fst p)"
proof -
  have l: "unat off < unat (fst p)" using assms(1) by (simp add: word_less_nat_alt)
  show e: "k * chain_stride format = unat (fst p) - unat off" using assms by (auto simp: mult_div_mod_eq)
  then show "0 < k * chain_stride format" using l by simp
  show u: "unat (of_nat (k * chain_stride format) :: 64 word) = k * chain_stride format"
    unfolding e using unsigned_less [of "fst p", where ?'a = nat] by (simp add: unat_of_nat)
  have s: "unat off + k * chain_stride format = unat (fst p)" using e l by simp
  then have "off + of_nat (k * chain_stride format) = fst p"
    using u unsigned_less [of "fst p", where ?'a = nat] by (intro word_unat_eq_iff [THEN iffD2]) (simp add: unat_add_small)
  then show "word_checked_add off (of_nat (k * chain_stride format)) = Some (fst p)"
    using u s unsigned_less [of "fst p", where ?'a = nat] by (simp add: word_checked_add_Some)
qed

lemma ordinal_small: "unat (of_nat (fx_ordinal format fx) :: 32 word) = fx_ordinal format fx"
  by (rule unat_small) (auto simp: fx_ordinal_def ordinal_bits_def intro: less_trans [OF mod_less_divisor])

text \<open>The part of a step that reports an import.\<close>

definition chain_emit ::
  "macho_view \<Rightarrow> load_info \<Rightarrow> imports_table \<Rightarrow> chain_entry \<Rightarrow> 64 word \<Rightarrow> raw_import list \<Rightarrow> raw_import list plt_result" where
  "chain_emit view info tb entry offset out =
     (if ce_is_bind entry then
        and_then (chained_resolve view tb (ce_ordinal entry) (li_dylibs info)) (\<lambda>(library, name).
          case name of
            None \<Rightarrow> Inr out
          | Some nm \<Rightarrow>
              if nm = TLV_BOOTSTRAP then Inr out
              else and_then (mv_slot_address view offset) (\<lambda>slot.
                     Inr (out @ [macho_import library nm slot (ce_authenticated entry)])))
      else Inr out)"

lemma walk_chain_Suc:
  assumes "mv_slot_encoding view offset = Inr raw" "decode_chain raw format = Some entry"
    "chain_emit view info tb entry offset out = Inr out'"
  shows "walk_chain view info tb format (Suc n) offset out =
    (if ce_next entry = 0 then Inr out'
     else and_then (ok_or (Malformed ''fixup chain offset overflow'') (word_checked_add offset (ce_next entry))) (\<lambda>offset'.
       walk_chain view info tb format n offset' out'))"
  unfolding walk_chain.simps assms(1,2) chain_emit_def [symmetric] by (simp only: assms(2,3) option.case and_then_simps)

lemma chain_emit_holds:
  assumes "chain_tables_at view tb ct" "fixup_bound view info ct format (off, fx)"
    and "ce_is_bind entry = fx_bind fx" "ce_authenticated entry = fx_auth fx"
    and "fx_bind fx \<Longrightarrow> ce_ordinal entry = of_nat (fx_ordinal format fx)"
  shows "chain_emit view info tb entry off out = Inr (out @ fixup_import view info ct format (off, fx))"
proof (cases "fx_bind fx")
  case True
  then have "chained_resolve view tb (of_nat (fx_ordinal format fx)) (li_dylibs info) =
      Inr (library_of (import_library (ct_format ct) (ct_imports ct ! fx_ordinal format fx)) (li_dylibs info),
        import_name ct (ct_imports ct ! fx_ordinal format fx))"
    using chained_resolve_holds [OF assms(1)] assms(2) by (simp add: fixup_bound_def)
  moreover have "mv_slot_address view off = Inr (projr (mv_slot_address view off))"
    if "fixup_import view info ct format (off, fx) \<noteq> []"
    using assms(2) that True by (auto simp: fixup_bound_def)
  ultimately show ?thesis
    using True assms(3-5) by (auto simp: chain_emit_def fixup_import_def Let_def split: option.splits)
qed (simp add: chain_emit_def assms(3) fixup_import_def)

lemma walk_chain_holds:
  assumes "chain_tables_at view tb ct" "chain_at view format ps" "list_all (fixup_bound view info ct format) ps"
    "ps \<noteq> []" "length ps \<le> n"
  shows "walk_chain view info tb format n (fst (hd ps)) out =
    Inr (out @ concat (map (fixup_import view info ct format) ps))"
  using assms(2-)
proof (induction ps arbitrary: n out)
  case (Cons p ps)
  obtain off fx where p: "p = (off, fx)" by (cases p)
  obtain k where n: "n = Suc k" using Cons.prems(4) by (cases n) auto
  let ?k = "chain_step format off ps" and ?i = "fixup_import view info ct format p"
  have c: "fixup_ok format fx ?k" "chain_follows format off ps" "chain_at view format ps"
    "mv_slot_encoding view off = Inr (of_nat (chain_number format fx ?k))"
    using Cons.prems(1) by (simp_all add: p)
  have b: "fixup_bound view info ct format (off, fx)" using Cons.prems(2) by (simp add: p)
  let ?e = "\<lparr>ce_is_bind = fx_bind fx,
      ce_ordinal = (if plain_format format \<and> \<not> fx_bind fx then 0 else of_nat (fx_ordinal format fx)),
      ce_authenticated = fx_auth fx, ce_next = of_nat (?k * chain_stride format)\<rparr>"
  have "chain_emit view info tb ?e off out = Inr (out @ ?i)"
    unfolding p by (rule chain_emit_holds [OF assms(1) b]) simp_all
  note step = walk_chain_Suc [OF c(4) decode_chain_number [OF c(1)] this, of k]
  show ?case
  proof (cases ps)
    case Nil
    then show ?thesis using step by (simp add: n p del: walk_chain.simps)
  next
    case ps: (Cons q qs)
    note nx = chain_next_off [OF c(2) [unfolded ps] refl, folded ps]
    have "(of_nat (?k * chain_stride format) :: 64 word) \<noteq> 0" using nx(2,3) by (metis less_not_refl2 unat_0)
    moreover have "walk_chain view info tb format k (fst q) (out @ ?i) =
        Inr (out @ ?i @ concat (map (fixup_import view info ct format) ps))"
      using Cons.IH [of k "out @ ?i"] c(3) Cons.prems n ps by (simp del: walk_chain.simps)
    ultimately show ?thesis using step nx(4) by (simp add: n p del: walk_chain.simps of_nat_mult)
  qed
qed simp

section \<open>Pages and segments\<close>

text \<open>A segment has one chain for each page; an empty one stands for a page without fixups.\<close>

record chain_segment =
  cs_size :: "32 word"
  cs_page_size :: "16 word"
  cs_format :: "16 word"
  cs_offset :: "64 word"
  cs_max_pointer :: "32 word"
  cs_pages :: "(64 word \<times> fixup) list list"

definition page_base :: "chain_segment \<Rightarrow> nat \<Rightarrow> nat" where
  "page_base cs j = unat (cs_offset cs) + j * unat (cs_page_size cs)"

definition page_start :: "chain_segment \<Rightarrow> nat \<Rightarrow> 16 word" where
  "page_start cs j =
     (if cs_pages cs ! j = [] then DYLD_CHAINED_PTR_START_NONE
      else of_nat (unat (fst (hd (cs_pages cs ! j))) - page_base cs j))"

definition chain_segment_bytes :: "chain_segment \<Rightarrow> byte list" where
  "chain_segment_bytes cs =
     le_bytes (cs_size cs) @ le_bytes (cs_page_size cs) @ le_bytes (cs_format cs) @ le_bytes (cs_offset cs) @
     le_bytes (cs_max_pointer cs) @ le_bytes (of_nat (length (cs_pages cs)) :: 16 word) @
     concat (map (\<lambda>j. le_bytes (page_start cs j)) [0 ..< length (cs_pages cs)])"

definition page_ok :: "macho_view \<Rightarrow> load_info \<Rightarrow> chain_tables \<Rightarrow> chain_segment \<Rightarrow> nat \<Rightarrow> bool" where
  "page_ok view info ct cs j \<longleftrightarrow>
     (let ps = cs_pages cs ! j in
      ps \<noteq> [] \<longrightarrow>
        page_base cs j \<le> unat (fst (hd ps)) \<and> unat (fst (hd ps)) - page_base cs j < 0xffff \<and>
        length ps \<le> MAX_CHAIN_STEPS \<and> chain_at view (cs_format cs) ps \<and>
        list_all (fixup_bound view info ct (cs_format cs)) ps)"

definition chain_segment_ok :: "macho_view \<Rightarrow> load_info \<Rightarrow> chain_tables \<Rightarrow> chain_segment \<Rightarrow> bool" where
  "chain_segment_ok view info ct cs \<longleftrightarrow>
     cs_page_size cs \<noteq> 0 \<and> length (cs_pages cs) < 2 ^ 16 \<and> (\<forall>j < length (cs_pages cs). page_ok view info ct cs j)"

definition chain_segment_imports :: "macho_view \<Rightarrow> load_info \<Rightarrow> chain_tables \<Rightarrow> chain_segment \<Rightarrow> raw_import list" where
  "chain_segment_imports view info ct cs = concat (map (fixup_import view info ct (cs_format cs)) (concat (cs_pages cs)))"

lemma page_reached:
  assumes "unat (cs_offset cs) + j * unat (cs_page_size cs) + d = unat off" "d < 2 ^ 16"
    and "v = cs_offset cs + of_nat j * ucast (cs_page_size cs)"
  shows "word_checked_add (cs_offset cs) (of_nat j * ucast (cs_page_size cs)) = Some v"
    "word_checked_add v (ucast (of_nat d :: 16 word)) = Some off"
proof -
  let ?s = "unat (cs_page_size cs)" and ?m = "of_nat j * ucast (cs_page_size cs) :: 64 word"
  have lim: "unat (cs_offset cs) + j * ?s + d < 2 ^ 64" using assms(1) unsigned_less [of off, where ?'a = nat] by simp
  have "?m = of_nat (j * ?s)" by simp
  then have m: "unat ?m = j * ?s" using lim by (simp only: unat_of_nat) simp
  have d: "unat (ucast (of_nat d :: 16 word) :: 64 word) = d"
    using assms(2) by (simp add: unsigned_ucast_eq unat_of_nat take_bit_nat_eq_self)
  have v: "unat v = unat (cs_offset cs) + j * ?s" using m lim assms(3) by (simp add: unat_add_small)
  show "word_checked_add (cs_offset cs) ?m = Some v"
    using m lim v assms(3) by (simp add: word_checked_add_Some)
  have "v + ucast (of_nat d :: 16 word) = off"
    using v d lim assms(1) by (intro word_unat_eq_iff [THEN iffD2]) (simp add: unat_add_small)
  then show "word_checked_add v (ucast (of_nat d :: 16 word)) = Some off"
    using v d lim assms(1) by (simp add: word_checked_add_Some)
qed

lemma walk_page_holds:
  assumes "chain_tables_at view tb ct" "page_ok view info ct cs j"
    and "mo_read_u16 view (seg_starts + 22 + of_nat j * 2) = Inr (page_start cs j)"
  shows "walk_page view info tb seg_starts (ucast (cs_page_size cs)) (cs_format cs) (cs_offset cs) j out =
    Inr (out @ concat (map (fixup_import view info ct (cs_format cs)) (cs_pages cs ! j)))"
proof (cases "cs_pages cs ! j = []")
  case True
  then show ?thesis using assms(3) by (simp add: walk_page_def page_start_def)
next
  case False
  let ?ps = "cs_pages cs ! j"
  define d where "d = unat (fst (hd ?ps)) - page_base cs j"
  note ok = assms(2) [unfolded page_ok_def Let_def, rule_format, OF False]
  have start: "page_start cs j = of_nat d" using False by (simp add: page_start_def d_def)
  have "d < 0xffff" using ok by (simp add: d_def)
  moreover from this have "unat (of_nat d :: 16 word) = d" by (simp add: unat_of_nat)
  ultimately have "(of_nat d :: 16 word) \<noteq> DYLD_CHAINED_PTR_START_NONE"
    by (auto simp: DYLD_CHAINED_PTR_START_NONE_def word_unat_eq_iff)
  moreover note page_reached [of cs j d "fst (hd ?ps)", OF _ _ refl]
  moreover have "unat (cs_offset cs) + j * unat (cs_page_size cs) + d = unat (fst (hd ?ps))" "d < 2 ^ 16"
    using ok \<open>d < 0xffff\<close> by (simp_all add: d_def page_base_def)
  ultimately show ?thesis
    using assms(3) ok walk_chain_holds [OF assms(1) _ _ False, of "cs_format cs" info MAX_CHAIN_STEPS out]
    by (simp add: walk_page_def start)
qed

lemma concat_map_nth: "concat (map (\<lambda>j. concat (map f (xss ! j))) [0 ..< length xss]) = concat (map f (concat xss))"
proof -
  have "map (\<lambda>j. concat (map f (xss ! j))) [0 ..< length xss] = map (\<lambda>xs. concat (map f xs)) xss"
    by (rule nth_equalityI) auto
  moreover have "concat (map (\<lambda>xs. concat (map f xs)) xss) = concat (map f (concat xss))" by (induction xss) auto
  ultimately show ?thesis by simp
qed

lemma walk_segment_chains_holds:
  assumes "chain_tables_at view tb ct" "chain_segment_ok view info ct cs" "mo_holds view seg_starts (chain_segment_bytes cs)"
  shows "walk_segment_chains view info tb seg_starts out = Inr (out @ chain_segment_imports view info ct cs)"
proof -
  note r = mo_read_at [OF assms(3)] and ok = assms(2) [unfolded chain_segment_ok_def]
  let ?n = "length (cs_pages cs)"
  have "mo_read_u16 view (seg_starts + 4) = Inr (cs_page_size cs)" using r(1) [of 4 "cs_page_size cs"] by (simp add: chain_segment_bytes_def)
  moreover have "mo_read_u16 view (seg_starts + 6) = Inr (cs_format cs)" using r(1) [of 6 "cs_format cs"] by (simp add: chain_segment_bytes_def)
  moreover have "mo_read_u64 view (seg_starts + 8) = Inr (cs_offset cs)" using r(3) [of 8 "cs_offset cs"] by (simp add: chain_segment_bytes_def)
  moreover have "mo_read_u16 view (seg_starts + 20) = Inr (of_nat ?n)" using r(1) [of 20 "of_nat ?n"] by (simp add: chain_segment_bytes_def)
  moreover have "unat (of_nat ?n :: 16 word) = ?n" using ok by (simp add: unat_of_nat)
  moreover have "mo_holds view (seg_starts + of_nat 22) (concat (map (\<lambda>j. le_bytes (page_start cs j)) [0 ..< ?n]))"
    by (rule mo_holds_at [OF assms(3), where ys = "[]"]) (simp_all add: chain_segment_bytes_def)
  note h = mo_holds_nth [OF this, of 2]
  have "mo_read_u16 view (seg_starts + 22 + of_nat j * 2) = Inr (page_start cs j)" if "j < ?n" for j
    using h [of j] that by (intro mo_read_holds(1) [where ys = "[]"]) simp
  note page = walk_page_holds [OF assms(1) _ this]
  have "try_fold (walk_page view info tb seg_starts (ucast (cs_page_size cs)) (cs_format cs) (cs_offset cs)) [0 ..< ?n] out =
      Inr (out @ concat (map (\<lambda>j. concat (map (fixup_import view info ct (cs_format cs)) (cs_pages cs ! j))) [0 ..< ?n]))"
    by (rule try_fold_append) (use page ok in simp)
  ultimately show ?thesis
    using ok by (simp add: walk_segment_chains_def chain_segment_imports_def concat_map_nth)
qed

section \<open>The blob\<close>

text \<open>The offset of a segment's record in the table of segments is zero if the segment has no fixups.\<close>

record chain_blob =
  cb_starts_offset :: "32 word"
  cb_imports_offset :: "32 word"
  cb_symbols_offset :: "32 word"
  cb_symbols_format :: "32 word"
  cb_segments :: "(32 word \<times> chain_segment) list"
  cb_tables :: chain_tables

definition blob_header :: "chain_blob \<Rightarrow> byte list" where
  "blob_header cb =
     le_bytes (0 :: 32 word) @ le_bytes (cb_starts_offset cb) @ le_bytes (cb_imports_offset cb) @
     le_bytes (cb_symbols_offset cb) @ le_bytes (of_nat (length (ct_imports (cb_tables cb))) :: 32 word) @
     le_bytes (ct_format (cb_tables cb)) @ le_bytes (cb_symbols_format cb)"

definition blob_starts :: "chain_blob \<Rightarrow> byte list" where
  "blob_starts cb =
     le_bytes (of_nat (length (cb_segments cb)) :: 32 word) @ concat (map (\<lambda>(off, _). le_bytes off) (cb_segments cb))"

definition used_segments :: "chain_blob \<Rightarrow> (32 word \<times> chain_segment) list" where
  "used_segments cb = filter (\<lambda>(off, _). off \<noteq> 0) (cb_segments cb)"

definition blob_table :: "64 word \<Rightarrow> 64 word \<Rightarrow> chain_blob \<Rightarrow> imports_table" where
  "blob_table dataoff datasize cb =
     \<lparr>it_base = dataoff + ucast (cb_imports_offset cb), it_count = of_nat (length (ct_imports (cb_tables cb))),
      it_format = ct_format (cb_tables cb), it_symbols_base = dataoff + ucast (cb_symbols_offset cb),
      it_blob_end = dataoff + datasize\<rparr>"

definition blob_at :: "macho_view \<Rightarrow> load_info \<Rightarrow> 64 word \<times> 64 word \<Rightarrow> chain_blob \<Rightarrow> bool" where
  "blob_at view info = (\<lambda>(dataoff, datasize) cb.
     let starts = dataoff + ucast (cb_starts_offset cb); ct = cb_tables cb in
     28 \<le> datasize \<and> unat dataoff + unat datasize < 2 ^ 64 \<and> unat dataoff + 2 ^ 33 < 2 ^ 64 \<and>
     mo_holds view dataoff (blob_header cb) \<and> mo_holds view starts (blob_starts cb) \<and>
     chain_tables_at view (blob_table dataoff datasize cb) ct \<and> length (cb_segments cb) \<le> unat MAX_FIXUP_SEGMENTS \<and>
     list_all (\<lambda>(off, cs). mo_holds view (starts + ucast off) (chain_segment_bytes cs) \<and> chain_segment_ok view info ct cs)
       (used_segments cb))"

definition blob_imports :: "macho_view \<Rightarrow> load_info \<Rightarrow> chain_blob \<Rightarrow> raw_import list" where
  "blob_imports view info cb =
     concat (map (\<lambda>(_, cs). chain_segment_imports view info (cb_tables cb) cs) (used_segments cb))"

lemma add_ucast_small:
  assumes "unat dataoff + 2 ^ 33 < 2 ^ 64" "unat x < 2 ^ 32"
  shows "word_checked_add dataoff x = Some (dataoff + x)" "unat (dataoff + x :: 64 word) < unat dataoff + 2 ^ 32"
  using assms by (simp_all add: word_checked_add_Some unat_add_small)

lemma chained_segment_holds:
  assumes "chain_tables_at view tb (cb_tables cb)" "mo_holds view starts (blob_starts cb)" "unat starts + 2 ^ 32 < 2 ^ 64"
    and "i < length (cb_segments cb)" "cb_segments cb ! i = (off, cs)"
    and "off \<noteq> 0 \<Longrightarrow> mo_holds view (starts + ucast off) (chain_segment_bytes cs) \<and> chain_segment_ok view info (cb_tables cb) cs"
  shows "chained_segment view info tb starts i out =
    Inr (out @ (if off = 0 then [] else chain_segment_imports view info (cb_tables cb) cs))"
proof -
  have "mo_holds view (starts + of_nat 4) (concat (map (\<lambda>(off, _). le_bytes off) (cb_segments cb)))"
    by (rule mo_holds_at [OF assms(2), where ys = "[]"]) (simp_all add: blob_starts_def)
  from mo_holds_nth [OF this, of 4 i] have "mo_holds view (starts + 4 + of_nat i * 4) (le_bytes off)"
    using assms(4,5) by (simp add: split_beta)
  then have r: "mo_read_u32 view (starts + 4 + of_nat i * 4) = Inr off" by (intro mo_read_holds(2) [where ys = "[]"]) simp
  have "unat (ucast off :: 64 word) < 2 ^ 32" using unsigned_less [of off, where ?'a = nat] by simp
  then have "word_checked_add starts (ucast off) = Some (starts + ucast off)"
    using assms(3) by (simp add: word_checked_add_Some unat_add_small)
  then show ?thesis
    using r walk_segment_chains_holds [OF assms(1)] assms(6) by (simp add: chained_segment_def)
qed

lemma blob_segments_hold:
  assumes "chain_tables_at view tb (cb_tables cb)" "mo_holds view starts (blob_starts cb)" "unat starts + 2 ^ 32 < 2 ^ 64"
    and "list_all (\<lambda>(off, cs). mo_holds view (starts + ucast off) (chain_segment_bytes cs) \<and>
      chain_segment_ok view info (cb_tables cb) cs) (used_segments cb)"
  shows "try_fold (chained_segment view info tb starts) [0 ..< length (cb_segments cb)] out = Inr (out @ blob_imports view info cb)"
proof -
  let ?n = "length (cb_segments cb)"
  let ?imports = "\<lambda>(off, cs). if off = 0 then [] else chain_segment_imports view info (cb_tables cb) cs"
  have "try_fold (chained_segment view info tb starts) [0 ..< ?n] out =
      Inr (out @ concat (map (\<lambda>i. ?imports (cb_segments cb ! i)) [0 ..< ?n]))"
  proof (rule try_fold_append)
    fix i out
    assume "i \<in> set [0 ..< ?n]"
    then have i: "i < ?n" by simp
    obtain off cs where oc: "cb_segments cb ! i = (off, cs)" by (cases "cb_segments cb ! i")
    have "(off, cs) \<in> set (cb_segments cb)" using i oc nth_mem by metis
    then have "off \<noteq> 0 \<Longrightarrow> mo_holds view (starts + ucast off) (chain_segment_bytes cs) \<and>
        chain_segment_ok view info (cb_tables cb) cs"
      using assms(4) by (auto simp: list_all_iff used_segments_def)
    then show "chained_segment view info tb starts i out = Inr (out @ ?imports (cb_segments cb ! i))"
      using chained_segment_holds [OF assms(1-3) i oc] oc by simp
  qed
  moreover have "map (\<lambda>i. ?imports (cb_segments cb ! i)) [0 ..< ?n] = map ?imports (cb_segments cb)"
    by (rule nth_equalityI) auto
  moreover have "concat (map ?imports segs) =
      concat (map (\<lambda>(_, cs). chain_segment_imports view info (cb_tables cb) cs) (filter (\<lambda>(off, _). off \<noteq> 0) segs))"
    for segs :: "(32 word \<times> chain_segment) list"
    by (induction segs) auto
  ultimately show ?thesis by (simp only: blob_imports_def used_segments_def)
qed

lemma blob_header_reads:
  assumes "mo_holds view dataoff (blob_header cb)"
  shows "mo_read_u32 view dataoff = Inr 0" "mo_read_u32 view (dataoff + 4) = Inr (cb_starts_offset cb)"
    "mo_read_u32 view (dataoff + 8) = Inr (cb_imports_offset cb)" "mo_read_u32 view (dataoff + 12) = Inr (cb_symbols_offset cb)"
    "mo_read_u32 view (dataoff + 16) = Inr (of_nat (length (ct_imports (cb_tables cb))))"
    "mo_read_u32 view (dataoff + 20) = Inr (ct_format (cb_tables cb))"
proof -
  note r = mo_read_at(2) [OF assms]
  show "mo_read_u32 view dataoff = Inr 0" using r [of 0 0] by (simp add: blob_header_def)
  show "mo_read_u32 view (dataoff + 4) = Inr (cb_starts_offset cb)"
    using r [of 4 "cb_starts_offset cb"] by (simp add: blob_header_def)
  show "mo_read_u32 view (dataoff + 8) = Inr (cb_imports_offset cb)"
    using r [of 8 "cb_imports_offset cb"] by (simp add: blob_header_def)
  show "mo_read_u32 view (dataoff + 12) = Inr (cb_symbols_offset cb)"
    using r [of 12 "cb_symbols_offset cb"] by (simp add: blob_header_def)
  show "mo_read_u32 view (dataoff + 16) = Inr (of_nat (length (ct_imports (cb_tables cb))))"
    using r [of 16 "of_nat (length (ct_imports (cb_tables cb)))"] by (simp add: blob_header_def)
  show "mo_read_u32 view (dataoff + 20) = Inr (ct_format (cb_tables cb))"
    using r [of 20 "ct_format (cb_tables cb)"] by (simp add: blob_header_def)
qed

lemma parse_chained_fixups_holds:
  assumes "blob_at view info (dataoff, datasize) cb" "mv_file_backed view"
  shows "parse_chained_fixups view info dataoff datasize out = Inr (out @ blob_imports view info cb)"
proof -
  let ?starts = "dataoff + ucast (cb_starts_offset cb)" and ?n = "length (cb_segments cb)"
  note at = assms(1) [unfolded blob_at_def Let_def, simplified]
  have lim: "unat dataoff + 2 ^ 33 < 2 ^ 64" "unat dataoff + unat datasize < 2 ^ 64" "\<not> datasize < 28"
      "?n \<le> unat MAX_FIXUP_SEGMENTS"
    and starts: "mo_holds view ?starts (blob_starts cb)"
    using at by (simp_all add: not_less)
  have u: "unat (ucast w :: 64 word) < 2 ^ 32" for w :: "32 word" using unsigned_less [of w, where ?'a = nat] by simp
  note small = add_ucast_small [OF lim(1) u]
  have "word_checked_add dataoff datasize = Some (dataoff + datasize)"
    using lim(2) by (simp add: word_checked_add_Some unat_add_small)
  moreover have "mo_read_u32 view ?starts = Inr (of_nat ?n)"
    using mo_read_at(2) [OF starts, of 0 "of_nat ?n"] by (simp add: blob_starts_def)
  moreover have n: "unat (of_nat ?n :: 32 word) = ?n" using lim(4) by (intro unat_small) (simp add: MAX_FIXUP_SEGMENTS_def)
  moreover have "\<not> MAX_FIXUP_SEGMENTS < of_nat ?n" using lim(4) n by (simp add: word_less_nat_alt)
  moreover have "try_fold (chained_segment view info (blob_table dataoff datasize cb) ?starts) [0 ..< ?n] out =
      Inr (out @ blob_imports view info cb)"
    using at small(2) [of "cb_starts_offset cb"] lim(1) by (intro blob_segments_hold) simp_all
  ultimately show ?thesis
    using assms(2) lim(3) blob_header_reads [of view dataoff cb] at small(1)
    by (simp add: parse_chained_fixups_def blob_table_def)
qed

text \<open>The records of formats 1 and 2 have eight bits for the library.  All of them are read as a signed number, so
  the libraries from the 128th on, not only the special values at the top, have no name.\<close>

lemma late_libraries_are_lost:
  assumes "128 \<le> ci_library ci" "ci_library ci < 256" "format \<noteq> DYLD_CHAINED_IMPORT_ADDEND64"
  shows "library_of (import_library format ci) dylibs = []"
  using assms by (simp add: import_library_def signed_field_def library_of_def)

section \<open>Images\<close>

record mo_image =
  im_header :: mo_header
  im_commands :: "mo_command list"
  im_tables :: mo_tables
  im_streams :: "bind_op list list"
  im_fixups :: chain_blob

definition stream_at :: "macho_view \<Rightarrow> load_info \<Rightarrow> 64 word \<times> 64 word \<Rightarrow> bind_op list \<Rightarrow> bool" where
  "stream_at view info rng ps \<longleftrightarrow>
     mo_holds view (fst rng) (concat (map op_bytes ps)) \<and> list_all op_ok ps \<and>
     unat (snd rng) = length (concat (map op_bytes ps)) \<and> unat (snd rng) \<le> unat MAX_BIND_BYTES \<and>
     unat (fst rng) + unat (snd rng) < 2 ^ 64 \<and> list_all (bind_bound view info) (ops_binds ps bind_start)"

text \<open>The view shows an image whose imports are in the indirect symbol table and in bind streams or, if it has
  them, in chained fixups, which are not read unless the file is at hand.\<close>

definition image_at :: "macho_view \<Rightarrow> mo_image \<Rightarrow> bool" where
  "image_at view im \<longleftrightarrow>
     (let info = info_of (im_commands im); tb = im_tables im in
      macho_cpu_supported (mv_cpu_type view) \<and>
      mo_holds view 0 (header_bytes (im_header im) (im_commands im)) \<and>
      list_all command_ok (im_commands im) \<and> length (im_commands im) \<le> unat MAX_COMMANDS \<and>
      length (concat (map command_bytes (im_commands im))) < 2 ^ 32 \<and>
      mo_tables_at view info tb \<and>
      (\<forall>sec \<in> set (li_pointer_sections info). unat (psec_size sec) div 8 \<le> MAX_INDIRECT \<and>
         (\<forall>i < unat (psec_size sec) div 8. slot_entry_ok view tb sec i)) \<and>
      (case li_chained info of
         None \<Rightarrow> list_all2 (stream_at view info) (li_binds info) (im_streams im)
       | Some rng \<Rightarrow> mv_file_backed view \<longrightarrow> blob_at view info rng (im_fixups im)))"

definition table_imports :: "macho_view \<Rightarrow> mo_image \<Rightarrow> raw_import list" where
  "table_imports view im =
     (let info = info_of (im_commands im) in
      concat (map (section_imports view info (im_tables im)) (li_pointer_sections info)))"

definition stream_imports :: "macho_view \<Rightarrow> mo_image \<Rightarrow> raw_import list" where
  "stream_imports view im =
     concat (map (\<lambda>ps. concat (map (bind_import view (info_of (im_commands im))) (ops_binds ps bind_start))) (im_streams im))"

definition complement_imports :: "macho_view \<Rightarrow> mo_image \<Rightarrow> raw_import list" where
  "complement_imports view im =
     (case li_chained (info_of (im_commands im)) of
        None \<Rightarrow> stream_imports view im
      | Some _ \<Rightarrow> if mv_file_backed view then blob_imports view (info_of (im_commands im)) (im_fixups im) else [])"

lemma streams_hold:
  "list_all2 (stream_at view info) rngs streams \<Longrightarrow>
     try_fold (parse_bind_stream view info) rngs out =
     Inr (out @ concat (map (\<lambda>ps. concat (map (bind_import view info) (ops_binds ps bind_start))) streams))"
proof (induction arbitrary: out rule: list_all2_induct)
  case (Cons rng rngs ps streams)
  then show ?case
    using parse_bind_stream_decodes [of view "fst rng" ps "snd rng" info] by (simp add: stream_at_def)
qed simp

end
