(* ===== verification/Macho_Demo.thy ===== *)
theory Macho_Demo
  imports Macho_Chains
begin

unbundle bit_operations_syntax

text \<open>
  Two small Mach-O images, mapped in memory: one binds its imports with opcodes, the other with chained fixups.
  Both satisfy the format, so the facts about the parser and about modules apply to them.
\<close>

section \<open>Images in memory\<close>

lemma read_mem_bytes:
  assumes "\<forall>i < length bs. memory (base + of_nat i) = bs ! i" "i + unat n \<le> length bs"
  shows "read_mem memory (base + of_nat i) n = take (unat n) (drop i bs)"
proof (rule nth_equalityI)
  fix j
  assume "j < length (read_mem memory (base + of_nat i) n)"
  then have j: "j < unat n" by (simp add: read_mem_def)
  then show "read_mem memory (base + of_nat i) n ! j = take (unat n) (drop i bs) ! j"
    using assms(1) [rule_format, of "i + j"] assms(2) by (simp add: read_mem_def add.assoc)
qed (use assms(2) in \<open>simp add: read_mem_def\<close>)

lemma unat_of_nat_small: "n < 2 ^ 64 \<Longrightarrow> unat (of_nat n :: 64 word) = n"
  by (simp add: unat_of_nat)

lemma header_holds:
  assumes "\<forall>i < length bs. memory (base + of_nat i) = bs ! i" "length bs \<le> unat limit" "unat base + length bs < 2 ^ 64"
  shows "mo_holds (header_view memory base limit) 0 bs"
  unfolding mo_holds_def
proof (intro allI impI)
  fix i n
  assume b: "i + unat (n :: 64 word) \<le> length bs"
  have u: "unat (of_nat i :: 64 word) = i" using b assms(3) by (intro unat_of_nat_small) simp
  have "unat (of_nat i + n :: 64 word) = i + unat n" using b assms(3) u by (simp add: unat_add_small)
  then have "word_checked_add (of_nat i) n = Some (of_nat i + n)" "\<not> limit < of_nat i + n"
    using u b assms(2) by (simp_all add: word_checked_add_Some word_less_nat_alt)
  moreover have "word_checked_add base (of_nat i) = Some (base + of_nat i)"
    using u b assms(3) by (simp add: word_checked_add_Some unat_add_small)
  ultimately show "mv_read (header_view memory base limit) (0 + of_nat i) n = Inr (take (unat n) (drop i bs))"
    using read_mem_bytes [OF assms(1) b] by (simp add: header_view_def header_read_def)
qed

lemma mo_live_holds:
  assumes "mm_segments m = [seg]" "ms_fileoff seg = 0" "length bs < unat (ms_filesize seg)"
    and "\<forall>i < length bs. memory (ms_vmaddr seg + mm_slide m + of_nat i) = bs ! i" "unat (ms_vmaddr seg) + length bs < 2 ^ 64"
  shows "mo_holds (macho_live_view memory thin m) 0 bs"
  unfolding mo_holds_def
proof (intro allI impI)
  fix i n
  assume b: "i + unat (n :: 64 word) \<le> length bs"
  have u: "unat (of_nat i :: 64 word) = i" using b assms(5) by (intro unat_of_nat_small) simp
  have e: "word_sat_add 0 (ms_filesize seg) = ms_filesize seg" by (simp add: word_sat_add_def)
  have "unat (of_nat i + n :: 64 word) = i + unat n" using b assms(5) u by (simp add: unat_add_small)
  then have "word_checked_add (of_nat i) n = Some (of_nat i + n)" "\<not> ms_filesize seg < of_nat i + n" "of_nat i < ms_filesize seg"
    using u b assms(3) by (simp_all add: word_checked_add_Some word_less_nat_alt)
  moreover have "word_checked_add (ms_vmaddr seg) (of_nat i) = Some (ms_vmaddr seg + of_nat i)"
    using u b assms(5) by (simp add: word_checked_add_Some unat_add_small)
  ultimately have "locate (mm_segments m) (mm_slide m) (of_nat i) n = Inr (ms_vmaddr seg + of_nat i + mm_slide m)"
    by (simp add: assms(1,2) e Let_def)
  moreover have "ms_vmaddr seg + of_nat i + mm_slide m = ms_vmaddr seg + mm_slide m + of_nat i" by (simp add: ac_simps)
  ultimately show "mv_read (macho_live_view memory thin m) (0 + of_nat i) n = Inr (take (unat n) (drop i bs))"
    using read_mem_bytes [OF assms(4) b] by (simp add: macho_live_view_def)
qed

text \<open>Bytes that are mapped at the address of the images below.\<close>

definition mapped_at :: "byte list \<Rightarrow> 64 word \<Rightarrow> byte" where
  "mapped_at bs a = (if 0x4000 \<le> a \<and> unat (a - 0x4000) < length bs then bs ! unat (a - 0x4000) else 0)"

lemma mapped_at_nth:
  assumes "i < length bs" "length bs < 2 ^ 32"
  shows "mapped_at bs (0x4000 + of_nat i) = bs ! i"
proof -
  have "unat (of_nat i :: 64 word) = i" using assms by (intro unat_of_nat_small) simp
  moreover from this have "unat (0x4000 + of_nat i :: 64 word) = 0x4000 + i" using assms by (subst unat_add_small) simp_all
  ultimately show ?thesis using assms(1) by (simp add: mapped_at_def word_le_nat_alt)
qed

section \<open>An image with bind opcodes\<close>

definition demo_mo_segment :: macho_segment where
  "demo_mo_segment = \<lparr>ms_vmaddr = 0x4000, ms_vmsize = 0x4000, ms_fileoff = 0, ms_filesize = 0x1000\<rparr>"

definition demo_got :: mo_sect where
  "demo_got = \<lparr>sc_names = replicate 32 0, sc_addr = 0x4178, sc_size = 16, sc_offset = 376, sc_layout = replicate 12 0,
     sc_flags = 6, sc_reserved1 = 0, sc_reserved2 = replicate 8 0\<rparr>"

definition demo_commands :: "mo_command list" where
  "demo_commands =
     [Segment_command (replicate 16 0) demo_mo_segment (replicate 8 0) (replicate 4 0) [demo_got],
      Symtab_command 392 1 416 7,
      Dysymtab_command (replicate 48 0) 408 2 (replicate 16 0),
      Dyld_info_command True (replicate 8 0) (423, 13) (0, 0) (0, 0) (replicate 8 0),
      Dylib_command LC_LOAD_DYLIB (replicate 12 0) [0x2f, 0x78, 0x2e, 0x64, 0x79, 0x6c, 0x69, 0x62] 8]"

definition demo_tables :: mo_tables where
  "demo_tables =
     \<lparr>mt_symbols = [\<lparr>n_strx = 1, n_type = 1, n_sect = 0, n_desc = 0x100, n_value = 0\<rparr>],
      mt_indirect = [0, INDIRECT_SYMBOL_LOCAL],
      mt_strings = [0, 0x5f, 0x6f, 0x70, 0x65, 0x6e, 0]\<rparr>"

definition demo_stream :: "bind_op list" where
  "demo_stream = [Set_ordinal_imm 1, Set_symbol 0 [0x5f, 0x72, 0x65, 0x61, 0x64], Set_segment 0 384, Do_bind, Done]"

definition demo_header :: mo_header where
  "demo_header = \<lparr>mh_cpu_type = CPU_TYPE_X86_64, mh_cpu_subtype = 3, mh_file_type = 6, mh_flags = 0\<rparr>"

definition no_fixups :: chain_blob where
  "no_fixups = \<lparr>cb_starts_offset = 0, cb_imports_offset = 0, cb_symbols_offset = 0, cb_symbols_format = 0, cb_segments = [],
     cb_tables = \<lparr>ct_format = 0, ct_imports = [], ct_symbols = []\<rparr>\<rparr>"

definition demo_macho :: mo_image where
  "demo_macho = \<lparr>im_header = demo_header, im_commands = demo_commands, im_tables = demo_tables, im_streams = [demo_stream],
     im_fixups = no_fixups\<rparr>"

definition demo_bytes :: "byte list" where
  "demo_bytes = header_bytes demo_header demo_commands @ replicate 16 0 @ concat (map nlist_bytes (mt_symbols demo_tables)) @
     concat (map le_bytes (mt_indirect demo_tables)) @ mt_strings demo_tables @ concat (map op_bytes demo_stream)"

definition demo_memory :: "64 word \<Rightarrow> byte" where
  "demo_memory = mapped_at demo_bytes"

definition demo_module :: macho_module where
  "demo_module = \<lparr>mm_base = 0x4000, mm_slide = 0, mm_segments = [demo_mo_segment], mm_cpu_type = CPU_TYPE_X86_64,
     mm_cpu_subtype = 3, mm_span = (0x4000, 0x8000), mm_path = ''/a.dylib'', mm_thin_slice = None\<rparr>"

abbreviation "demo_view \<equiv> macho_live_view demo_memory None demo_module"

definition demo_info :: load_info where
  "demo_info = \<lparr>li_segments = [demo_mo_segment],
     li_pointer_sections = [\<lparr>psec_fileoff = 376, psec_size = 16, psec_indirect_index = 0\<rparr>],
     li_symtab = Some (392, 1, 416, 7), li_indirect = Some (408, 2), li_binds = [(423, 13)], li_chained = None,
     li_dylibs = [''x.dylib'']\<rparr>"

lemma demo_info: "info_of demo_commands = demo_info"
proof -
  have "from_utf8_lossy (chars_of [0x2f, 0x78, 0x2e, 0x64, 0x79, 0x6c, 0x69, 0x62]) = ''/x.dylib''" by code_simp
  moreover have "mo_basename ''/x.dylib'' = ''x.dylib''" by code_simp
  ultimately show ?thesis
    by (simp add: info_of_def demo_commands_def load_info_default_def demo_info_def pointer_sections_def bind_ranges_def
        demo_got_def SECTION_TYPE_def S_NON_LAZY_SYMBOL_POINTERS_def MAX_DYLIBS_def)
qed

lemma demo_lengths:
  "length (concat (map command_bytes demo_commands)) = 344" "length (header_bytes demo_header demo_commands) = 376"
  "length (concat (map op_bytes demo_stream)) = 13" "length demo_bytes = 436"
proof -
  show c: "length (concat (map command_bytes demo_commands)) = 344"
    by (simp add: demo_commands_def length_command_bytes section_bytes_def demo_got_def)
  show h: "length (header_bytes demo_header demo_commands) = 376"
    using c by (simp add: header_bytes_def del: length_concat)
  show s: "length (concat (map op_bytes demo_stream)) = 13"
    by (simp add: demo_stream_def uleb_bytes.simps)
  show "length demo_bytes = 436"
    using h s by (simp add: demo_bytes_def demo_tables_def del: length_concat) 
qed

lemma demo_memory_bytes: "i < length demo_bytes \<Longrightarrow> demo_memory (0x4000 + of_nat i) = demo_bytes ! i"
  unfolding demo_memory_def by (rule mapped_at_nth) (simp_all add: demo_lengths)

lemma demo_holds:
  "mo_holds demo_view 0 (header_bytes demo_header demo_commands)"
  "mo_holds demo_view 392 (concat (map nlist_bytes (mt_symbols demo_tables)))"
  "mo_holds demo_view 408 (concat (map le_bytes (mt_indirect demo_tables)))"
  "mo_holds demo_view 416 (mt_strings demo_tables)"
  "mo_holds demo_view 423 (concat (map op_bytes demo_stream))"
proof -
  have "mo_holds demo_view 0 demo_bytes"
    by (rule mo_live_holds [of _ demo_mo_segment])
      (simp_all add: demo_module_def demo_mo_segment_def demo_lengths demo_memory_bytes)
  then have h: "mo_holds demo_view 0 (header_bytes demo_header demo_commands @ replicate 16 0 @
      concat (map nlist_bytes (mt_symbols demo_tables)) @ concat (map le_bytes (mt_indirect demo_tables)) @
      mt_strings demo_tables @ concat (map op_bytes demo_stream))" by (simp only: demo_bytes_def)
  show "mo_holds demo_view 0 (header_bytes demo_header demo_commands)" using mo_holds_prefix [OF h] .
  note h = mo_holds_suffix [OF h, unfolded demo_lengths]
  note h = mo_holds_suffix [OF h, simplified length_replicate]
  from mo_holds_prefix [OF h] show "mo_holds demo_view 392 (concat (map nlist_bytes (mt_symbols demo_tables)))" by simp
  have l: "length (concat (map nlist_bytes (mt_symbols demo_tables))) = 16" "length (concat (map le_bytes (mt_indirect demo_tables))) = 8"
    "length (mt_strings demo_tables) = 7" by (simp_all add: demo_tables_def)
  note h = mo_holds_suffix [OF h, unfolded l]
  from mo_holds_prefix [OF h] show "mo_holds demo_view 408 (concat (map le_bytes (mt_indirect demo_tables)))" by simp
  note h = mo_holds_suffix [OF h, unfolded l]
  from mo_holds_prefix [OF h] show "mo_holds demo_view 416 (mt_strings demo_tables)" by simp
  from mo_holds_suffix [OF h, unfolded l] show "mo_holds demo_view 423 (concat (map op_bytes demo_stream))" by simp
qed

lemma demo_slots:
  "mv_slot_address demo_view 376 = Inr 0x4178" "mv_slot_address demo_view 384 = Inr 0x4180"
  by (simp_all add: macho_live_view_def macho_slot_address_def demo_module_def demo_mo_segment_def word_sat_add_def
      word_checked_add_def PTR_SIZE_def)

lemma demo_names:
  "normalize_symbol_name (mo_name_at (mt_strings demo_tables) 1) = Some ''open''"
  "normalize_symbol_name (from_utf8_lossy (chars_of [0x5f, 0x72, 0x65, 0x61, 0x64])) = Some ''read''"
  "str_at (mt_strings demo_tables) 1 = Some [0x5f, 0x6f, 0x70, 0x65, 0x6e]"
  by code_simp+

definition demo_pointers :: pointer_section where
  "demo_pointers = \<lparr>psec_fileoff = 376, psec_size = 16, psec_indirect_index = 0\<rparr>"

lemma demo_slot_import:
  "slot_import demo_tables demo_pointers 0 =
     Some (mt_symbols demo_tables ! 0, ''open'')"
  "slot_import demo_tables demo_pointers 1 = None"
proof -
  have "''open'' \<noteq> TLV_BOOTSTRAP" by (simp add: TLV_BOOTSTRAP_def)
  moreover have "undefined_external (mt_symbols demo_tables ! 0)" "n_strx (mt_symbols demo_tables ! 0) = 1"
    by (simp_all add: undefined_external_def demo_tables_def N_STAB_def N_TYPE_def N_UNDF_def N_EXT_def)
  moreover have "mt_indirect demo_tables ! 0 = 0" "mt_indirect demo_tables ! 1 = INDIRECT_SYMBOL_LOCAL" by (simp_all add: demo_tables_def)
  ultimately show "slot_import demo_tables demo_pointers 0 =
     Some (mt_symbols demo_tables ! 0, ''open'')"
    "slot_import demo_tables demo_pointers 1 = None"
    using demo_names(1) by (simp_all add: slot_import_def slot_entry_def demo_pointers_def INDIRECT_SYMBOL_LOCAL_def INDIRECT_SYMBOL_ABS_def Let_def)
qed

lemma demo_entries_ok: "slot_entry_ok demo_view demo_tables demo_pointers 0" "slot_entry_ok demo_view demo_tables demo_pointers 1"
proof -
  have e: "slot_entry demo_tables demo_pointers 0 = 0" "slot_entry demo_tables demo_pointers 1 = INDIRECT_SYMBOL_LOCAL"
    "n_strx (mt_symbols demo_tables ! 0) = 1" "length (mt_symbols demo_tables) = 1" "length (mt_indirect demo_tables) = 2"
    by (simp_all add: slot_entry_def demo_tables_def demo_pointers_def)
  show "slot_entry_ok demo_view demo_tables demo_pointers 0"
    using e demo_names(3) demo_slots(1)
    by (simp add: slot_entry_ok_def slot_offset_def demo_pointers_def [THEN arg_cong, of psec_fileoff]
        demo_pointers_def [THEN arg_cong, of psec_indirect_index] MAX_NAME_LEN_def Let_def)
  show "slot_entry_ok demo_view demo_tables demo_pointers 1"
    using e by (simp add: slot_entry_ok_def demo_pointers_def [THEN arg_cong, of psec_indirect_index]
        INDIRECT_SYMBOL_LOCAL_def INDIRECT_SYMBOL_ABS_def Let_def)
qed

lemma demo_binds:
  "ops_binds demo_stream bind_start =
     [\<lparr>bs_seg_index = 0, bs_seg_offset = 384, bs_library_ordinal = 1, bs_symbol = Some ''read''\<rparr>]"
  using demo_names(2) by (simp add: demo_stream_def bind_start_def)

lemma demo_op_ok: "list_all op_ok demo_stream"
  by (simp add: demo_stream_def MAX_NAME_LEN_def)

lemma demo_image_at: "image_at demo_view demo_macho"
proof -
  have "list_all command_ok demo_commands"
    by (simp add: demo_commands_def command_ok_def length_command_bytes section_ok_def demo_got_def section_bytes_def
        MAX_SECTIONS_def DYLIB_COMMANDS_def MAX_NAME_LEN_def)
  moreover have "mo_tables_at demo_view demo_info demo_tables"
    unfolding mo_tables_at_def using demo_holds by (intro exI [of _ 392] exI [of _ 416] exI [of _ 408]) (simp add: demo_info_def demo_tables_def)
  moreover have "\<forall>i < 16 div 8. slot_entry_ok demo_view demo_tables demo_pointers i" using demo_entries_ok by (auto simp: less_2_cases_iff)
  moreover have "stream_at demo_view demo_info (423, 13) demo_stream"
    unfolding stream_at_def using demo_holds(5) demo_lengths(3) demo_binds
    by (simp add: bind_bound_def demo_slots demo_info_def demo_mo_segment_def demo_op_ok MAX_BIND_BYTES_def)
  moreover have "li_pointer_sections demo_info = [demo_pointers]" "li_binds demo_info = [(423, 13)]" "li_chained demo_info = None"
    "psec_size demo_pointers = 16" "length demo_commands = 5" "macho_cpu_supported (mv_cpu_type demo_view)"
    by (simp_all add: demo_info_def demo_pointers_def demo_commands_def macho_live_view_def demo_module_def macho_cpu_supported_def)
  ultimately show ?thesis
    using demo_holds(1) demo_lengths(1)
    by (simp add: image_at_def demo_macho_def demo_info MAX_COMMANDS_def MAX_INDIRECT_def Let_def)
qed

lemma demo_imports:
  "merged_imports (table_imports demo_view demo_macho) (complement_imports demo_view demo_macho) =
     [macho_import ''x.dylib'' ''open'' 0x4178 False, macho_import ''x.dylib'' ''read'' 0x4180 False]"
proof -
  have d: "li_pointer_sections demo_info = [demo_pointers]" "li_dylibs demo_info = [''x.dylib'']" "li_segments demo_info = [demo_mo_segment]"
    "li_chained demo_info = None" "psec_size demo_pointers = 16" "psec_fileoff demo_pointers = 376" "ms_fileoff demo_mo_segment = 0" "\<not> is_arm64e demo_view"
    by (simp_all add: demo_info_def demo_pointers_def demo_mo_segment_def is_arm64e_def macho_live_view_def demo_module_def
        CPU_TYPE_X86_64_def CPU_TYPE_ARM64_def CPU_ARCH_ABI64_def)
  have "n_desc (mt_symbols demo_tables ! 0) = 0x100" by (simp add: demo_tables_def)
  then have "table_imports demo_view demo_macho = [macho_import ''x.dylib'' ''open'' 0x4178 False]"
    using d demo_slot_import demo_slots(1)
    by (simp add: table_imports_def demo_macho_def demo_info section_imports_def indirect_import_def slot_offset_def library_of_def
        upt_rec Let_def)
  moreover have "complement_imports demo_view demo_macho = [macho_import ''x.dylib'' ''read'' 0x4180 False]"
    using d demo_slots(2)
    by (simp add: complement_imports_def stream_imports_def demo_macho_def demo_info demo_binds bind_import_def library_of_def TLV_BOOTSTRAP_def)
  ultimately show ?thesis
    by (simp add: merged_imports_def merged_record_def first_seen_def macho_import_def)
qed

section \<open>An image with chained fixups\<close>

definition chain_got :: mo_sect where
  "chain_got = \<lparr>sc_names = replicate 32 0, sc_addr = 0x4158, sc_size = 16, sc_offset = 344, sc_layout = replicate 12 0,
     sc_flags = 6, sc_reserved1 = 0, sc_reserved2 = replicate 8 0\<rparr>"

definition chain_commands :: "mo_command list" where
  "chain_commands =
     [Segment_command (replicate 16 0) demo_mo_segment (replicate 8 0) (replicate 4 0) [chain_got],
      Symtab_command 360 1 384 7,
      Dysymtab_command (replicate 48 0) 376 2 (replicate 16 0),
      Chained_command 391 81,
      Dylib_command LC_LOAD_DYLIB (replicate 12 0) [0x2f, 0x78, 0x2e, 0x64, 0x79, 0x6c, 0x69, 0x62] 8]"

abbreviation demo_fixup :: "nat \<Rightarrow> fixup" where
  "demo_fixup n \<equiv> \<lparr>fx_bind = True, fx_auth = False, fx_low = n\<rparr>"

definition demo_chain_tables :: chain_tables where
  "demo_chain_tables =
     \<lparr>ct_format = DYLD_CHAINED_IMPORT,
      ct_imports = [\<lparr>ci_library = 1, ci_weak = 0, ci_name = 1, ci_addend = []\<rparr>, \<lparr>ci_library = 1, ci_weak = 1, ci_name = 7, ci_addend = []\<rparr>],
      ct_symbols = [0, 0x5f, 0x6f, 0x70, 0x65, 0x6e, 0, 0x5f, 0x72, 0x65, 0x61, 0x64, 0]\<rparr>"

definition demo_chain_segment :: chain_segment where
  "demo_chain_segment =
     \<lparr>cs_size = 24, cs_page_size = 0x1000, cs_format = DYLD_CHAINED_PTR_64, cs_offset = 0, cs_max_pointer = 0,
      cs_pages = [[(344, demo_fixup 0), (352, demo_fixup 1)]]\<rparr>"

definition demo_blob :: chain_blob where
  "demo_blob = \<lparr>cb_starts_offset = 28, cb_imports_offset = 60, cb_symbols_offset = 68, cb_symbols_format = 0,
     cb_segments = [(8, demo_chain_segment)], cb_tables = demo_chain_tables\<rparr>"

definition chain_macho :: mo_image where
  "chain_macho = \<lparr>im_header = demo_header, im_commands = chain_commands, im_tables = demo_tables, im_streams = [],
     im_fixups = demo_blob\<rparr>"

text \<open>In the file, the two slots hold the links of the chain.\<close>

definition chain_slots :: "byte list" where
  "chain_slots = le_bytes (of_nat (chain_number DYLD_CHAINED_PTR_64 (demo_fixup 0) 2) :: 64 word) @
     le_bytes (of_nat (chain_number DYLD_CHAINED_PTR_64 (demo_fixup 1) 0) :: 64 word)"

definition chain_bytes :: "byte list" where
  "chain_bytes = header_bytes demo_header chain_commands @ chain_slots @ concat (map nlist_bytes (mt_symbols demo_tables)) @
     concat (map le_bytes (mt_indirect demo_tables)) @ mt_strings demo_tables @
     blob_header demo_blob @ blob_starts demo_blob @ chain_segment_bytes demo_chain_segment @
     concat (map (import_bytes DYLD_CHAINED_IMPORT) (ct_imports demo_chain_tables)) @ ct_symbols demo_chain_tables"

definition chain_memory :: "64 word \<Rightarrow> byte" where
  "chain_memory = mapped_at chain_bytes"

abbreviation "chain_view \<equiv> macho_live_view chain_memory (Some chain_bytes) demo_module"

definition chain_info :: load_info where
  "chain_info = \<lparr>li_segments = [demo_mo_segment],
     li_pointer_sections = [\<lparr>psec_fileoff = 344, psec_size = 16, psec_indirect_index = 0\<rparr>],
     li_symtab = Some (360, 1, 384, 7), li_indirect = Some (376, 2), li_binds = [], li_chained = Some (391, 81),
     li_dylibs = [''x.dylib'']\<rparr>"

lemma chain_info: "info_of chain_commands = chain_info"
proof -
  have "from_utf8_lossy (chars_of [0x2f, 0x78, 0x2e, 0x64, 0x79, 0x6c, 0x69, 0x62]) = ''/x.dylib''" by code_simp
  moreover have "mo_basename ''/x.dylib'' = ''x.dylib''" by code_simp
  ultimately show ?thesis
    by (simp add: info_of_def chain_commands_def load_info_default_def chain_info_def pointer_sections_def
        chain_got_def SECTION_TYPE_def S_NON_LAZY_SYMBOL_POINTERS_def MAX_DYLIBS_def)
qed

lemma chain_lengths:
  "length (concat (map command_bytes chain_commands)) = 312" "length (header_bytes demo_header chain_commands) = 344"
  "length chain_slots = 16" "length (blob_header demo_blob) = 28" "length (blob_starts demo_blob) = 8"
  "length (chain_segment_bytes demo_chain_segment) = 24"
  "length (concat (map (import_bytes DYLD_CHAINED_IMPORT) (ct_imports demo_chain_tables))) = 8"
  "length (ct_symbols demo_chain_tables) = 13" "length chain_bytes = 472"
proof -
  show c: "length (concat (map command_bytes chain_commands)) = 312"
    by (simp add: chain_commands_def length_command_bytes section_bytes_def chain_got_def)
  show h: "length (header_bytes demo_header chain_commands) = 344"
    using c by (simp add: header_bytes_def del: length_concat)
  show s: "length chain_slots = 16" "length (blob_header demo_blob) = 28" "length (blob_starts demo_blob) = 8"
    "length (chain_segment_bytes demo_chain_segment) = 24" "length (ct_symbols demo_chain_tables) = 13"
    by (simp_all add: chain_slots_def blob_header_def blob_starts_def demo_blob_def chain_segment_bytes_def
        demo_chain_segment_def demo_chain_tables_def)
  show i: "length (concat (map (import_bytes DYLD_CHAINED_IMPORT) (ct_imports demo_chain_tables))) = 8"
    by (simp add: demo_chain_tables_def import_bytes_def import_formats)
  have "length (concat (map nlist_bytes (mt_symbols demo_tables))) = 16" "length (concat (map le_bytes (mt_indirect demo_tables))) = 8"
    "length (mt_strings demo_tables) = 7" by (simp_all add: demo_tables_def)
  then show "length chain_bytes = 472" using h s i by (simp add: chain_bytes_def del: length_concat)
qed

lemma chain_memory_bytes: "i < length chain_bytes \<Longrightarrow> chain_memory (0x4000 + of_nat i) = chain_bytes ! i"
  unfolding chain_memory_def by (rule mapped_at_nth) (simp_all add: chain_lengths)

lemma chain_holds:
  "mo_holds chain_view 0 (header_bytes demo_header chain_commands)"
  "mo_holds chain_view 360 (concat (map nlist_bytes (mt_symbols demo_tables)))"
  "mo_holds chain_view 376 (concat (map le_bytes (mt_indirect demo_tables)))"
  "mo_holds chain_view 384 (mt_strings demo_tables)"
  "mo_holds chain_view 391 (blob_header demo_blob)" "mo_holds chain_view 419 (blob_starts demo_blob)"
  "mo_holds chain_view 427 (chain_segment_bytes demo_chain_segment)"
  "mo_holds chain_view 451 (concat (map (import_bytes DYLD_CHAINED_IMPORT) (ct_imports demo_chain_tables)))"
  "mo_holds chain_view 459 (ct_symbols demo_chain_tables)"
proof -
  have all: "mo_holds chain_view 0 chain_bytes"
    by (rule mo_live_holds [of _ demo_mo_segment])
      (simp_all add: demo_module_def demo_mo_segment_def chain_lengths chain_memory_bytes)
  have part: "mo_holds chain_view (of_nat (length xs)) ys" if "chain_bytes = xs @ ys @ zs" for xs ys zs
  proof -
    from all have "mo_holds chain_view 0 (xs @ ys @ zs)" unfolding that [symmetric] .
    from mo_holds_prefix [OF mo_holds_suffix [OF this]] show ?thesis by simp
  qed
  have l: "length (concat (map nlist_bytes (mt_symbols demo_tables))) = 16" "length (concat (map le_bytes (mt_indirect demo_tables))) = 8"
    "length (mt_strings demo_tables) = 7" by (simp_all add: demo_tables_def)
  note b = chain_bytes_def append_assoc
  show "mo_holds chain_view 0 (header_bytes demo_header chain_commands)"
    using part [of "[]"] by (simp add: b)
  let ?h = "header_bytes demo_header chain_commands @ chain_slots" and ?n = "concat (map nlist_bytes (mt_symbols demo_tables))"
    and ?i = "concat (map le_bytes (mt_indirect demo_tables))" and ?s = "mt_strings demo_tables"
    and ?r = "concat (map (import_bytes DYLD_CHAINED_IMPORT) (ct_imports demo_chain_tables))"
  have n: "length ?h = 360" "length (?h @ ?n) = 376" "length (?h @ ?n @ ?i) = 384" "length (?h @ ?n @ ?i @ ?s) = 391"
    "length (?h @ ?n @ ?i @ ?s @ blob_header demo_blob) = 419"
    "length (?h @ ?n @ ?i @ ?s @ blob_header demo_blob @ blob_starts demo_blob) = 427"
    "length (?h @ ?n @ ?i @ ?s @ blob_header demo_blob @ blob_starts demo_blob @ chain_segment_bytes demo_chain_segment) = 451"
    "length (?h @ ?n @ ?i @ ?s @ blob_header demo_blob @ blob_starts demo_blob @ chain_segment_bytes demo_chain_segment @ ?r) = 459"
    using chain_lengths l by (simp_all del: length_concat)
  show "mo_holds chain_view 360 ?n" using part [of ?h, unfolded n] by (simp add: b)
  show "mo_holds chain_view 376 ?i" using part [of "?h @ ?n", unfolded n] by (simp add: b)
  show "mo_holds chain_view 384 ?s" using part [of "?h @ ?n @ ?i", unfolded n] by (simp add: b)
  show "mo_holds chain_view 391 (blob_header demo_blob)" using part [of "?h @ ?n @ ?i @ ?s", unfolded n] by (simp add: b)
  show "mo_holds chain_view 419 (blob_starts demo_blob)"
    using part [of "?h @ ?n @ ?i @ ?s @ blob_header demo_blob", unfolded n] by (simp add: b)
  show "mo_holds chain_view 427 (chain_segment_bytes demo_chain_segment)"
    using part [of "?h @ ?n @ ?i @ ?s @ blob_header demo_blob @ blob_starts demo_blob", unfolded n] by (simp add: b)
  show "mo_holds chain_view 451 ?r"
    using part [of "?h @ ?n @ ?i @ ?s @ blob_header demo_blob @ blob_starts demo_blob @ chain_segment_bytes demo_chain_segment", unfolded n]
    by (simp add: b)
  show "mo_holds chain_view 459 (ct_symbols demo_chain_tables)"
    using part [of "?h @ ?n @ ?i @ ?s @ blob_header demo_blob @ blob_starts demo_blob @ chain_segment_bytes demo_chain_segment @ ?r"
        "ct_symbols demo_chain_tables" "[]", unfolded n]
    by (simp add: b)
qed

lemma chain_addresses: "mv_slot_address chain_view 344 = Inr 0x4158" "mv_slot_address chain_view 352 = Inr 0x4160"
  by (simp_all add: macho_live_view_def macho_slot_address_def demo_module_def demo_mo_segment_def word_sat_add_def
      word_checked_add_def PTR_SIZE_def)

lemma chain_encodings:
  "mv_slot_encoding chain_view 344 = Inr (of_nat (chain_number DYLD_CHAINED_PTR_64 (demo_fixup 0) 2))"
  "mv_slot_encoding chain_view 352 = Inr (of_nat (chain_number DYLD_CHAINED_PTR_64 (demo_fixup 1) 0))"
proof -
  let ?h = "header_bytes demo_header chain_commands"
  obtain rest where c: "chain_bytes = ?h @ chain_slots @ rest" by (simp add: chain_bytes_def)
  have "get_range 344 8 chain_bytes = Some (le_bytes (of_nat (chain_number DYLD_CHAINED_PTR_64 (demo_fixup 0) 2) :: 64 word))"
    "get_range 352 8 chain_bytes = Some (le_bytes (of_nat (chain_number DYLD_CHAINED_PTR_64 (demo_fixup 1) 0) :: 64 word))"
    unfolding c by (simp_all add: get_range_skip chain_lengths chain_slots_def)
  then show "mv_slot_encoding chain_view 344 = Inr (of_nat (chain_number DYLD_CHAINED_PTR_64 (demo_fixup 0) 2))"
    "mv_slot_encoding chain_view 352 = Inr (of_nat (chain_number DYLD_CHAINED_PTR_64 (demo_fixup 1) 0))"
    by (simp_all add: macho_live_view_def slice_encoding_def word_checked_add_def from_le_bytes_le_bytes)
qed

lemma demo_chain_names:
  "str_at (ct_symbols demo_chain_tables) 1 = Some [0x5f, 0x6f, 0x70, 0x65, 0x6e]"
  "str_at (ct_symbols demo_chain_tables) 7 = Some [0x5f, 0x72, 0x65, 0x61, 0x64]"
  "normalize_symbol_name (from_utf8_lossy (chars_of [0x5f, 0x6f, 0x70, 0x65, 0x6e])) = Some ''open''"
  by code_simp+

lemma demo_fixup_imports:
  "fixup_import chain_view chain_info demo_chain_tables DYLD_CHAINED_PTR_64 (344, demo_fixup 0) =
     [macho_import ''x.dylib'' ''open'' 0x4158 False]"
  "fixup_import chain_view chain_info demo_chain_tables DYLD_CHAINED_PTR_64 (352, demo_fixup 1) =
     [macho_import ''x.dylib'' ''read'' 0x4160 False]"
proof -
  let ?cs = "ct_imports demo_chain_tables"
  have c: "?cs ! 0 = \<lparr>ci_library = 1, ci_weak = 0, ci_name = 1, ci_addend = []\<rparr>"
    "?cs ! 1 = \<lparr>ci_library = 1, ci_weak = 1, ci_name = 7, ci_addend = []\<rparr>" "ct_format demo_chain_tables = DYLD_CHAINED_IMPORT"
    "li_dylibs chain_info = [''x.dylib'']"
    by (simp_all add: demo_chain_tables_def chain_info_def)
  then have "import_name demo_chain_tables (?cs ! 0) = Some ''open''" "import_name demo_chain_tables (?cs ! 1) = Some ''read''"
    "library_of (import_library DYLD_CHAINED_IMPORT (?cs ! 0)) [''x.dylib''] = ''x.dylib''"
    "library_of (import_library DYLD_CHAINED_IMPORT (?cs ! 1)) [''x.dylib''] = ''x.dylib''"
    using demo_chain_names demo_names(2)
    by (simp_all add: import_name_def import_library_def signed_field_def library_of_def import_formats)
  moreover have "fx_ordinal DYLD_CHAINED_PTR_64 (demo_fixup 0) = 0" "fx_ordinal DYLD_CHAINED_PTR_64 (demo_fixup 1) = 1"
    by (simp_all add: fx_ordinal_def ordinal_bits_def plain_format_def)
  ultimately show "fixup_import chain_view chain_info demo_chain_tables DYLD_CHAINED_PTR_64 (344, demo_fixup 0) =
      [macho_import ''x.dylib'' ''open'' 0x4158 False]"
    "fixup_import chain_view chain_info demo_chain_tables DYLD_CHAINED_PTR_64 (352, demo_fixup 1) =
      [macho_import ''x.dylib'' ''read'' 0x4160 False]"
    using c(3,4) chain_addresses by (simp_all add: fixup_import_def Let_def TLV_BOOTSTRAP_def)
qed

lemma demo_blob_at: "blob_at chain_view chain_info (391, 81) demo_blob"
proof -
  have "chain_tables_at chain_view (blob_table 391 81 demo_blob) demo_chain_tables"
    using chain_holds(8,9) chain_lengths(8)
    by (simp add: chain_tables_at_def blob_table_def demo_blob_def) (simp add: demo_chain_tables_def import_ok_def import_formats)
  moreover have "page_ok chain_view chain_info demo_chain_tables demo_chain_segment 0"
  proof -
    have "cs_pages demo_chain_segment ! 0 = [(344, demo_fixup 0), (352, demo_fixup 1)]" "cs_format demo_chain_segment = DYLD_CHAINED_PTR_64"
      "page_base demo_chain_segment 0 = 0" by (simp_all add: demo_chain_segment_def page_base_def)
    moreover have "chain_at chain_view DYLD_CHAINED_PTR_64 [(344, demo_fixup 0), (352, demo_fixup 1)]"
      using chain_encodings by (simp add: fixup_ok_def plain_format_def chain_stride_def)
    moreover have "fixup_bound chain_view chain_info demo_chain_tables DYLD_CHAINED_PTR_64 (344, demo_fixup 0)"
      "fixup_bound chain_view chain_info demo_chain_tables DYLD_CHAINED_PTR_64 (352, demo_fixup 1)"
      using demo_chain_names chain_addresses
      by (simp_all add: fixup_bound_def fx_ordinal_def ordinal_bits_def plain_format_def import_named_def MAX_NAME_LEN_def)
        (simp_all add: demo_chain_tables_def MAX_NAME_LEN_def)
    ultimately show ?thesis by (simp add: page_ok_def MAX_CHAIN_STEPS_def)
  qed
  then have "chain_segment_ok chain_view chain_info demo_chain_tables demo_chain_segment"
    by (simp add: chain_segment_ok_def demo_chain_segment_def)
  moreover have "used_segments demo_blob = [(8, demo_chain_segment)]" "cb_tables demo_blob = demo_chain_tables"
    "cb_starts_offset demo_blob = 28" "length (cb_segments demo_blob) = 1"
    by (simp_all add: used_segments_def demo_blob_def)
  ultimately show ?thesis
    using chain_holds(5-7) by (simp add: blob_at_def MAX_FIXUP_SEGMENTS_def)
qed

definition chain_pointers :: pointer_section where
  "chain_pointers = \<lparr>psec_fileoff = 344, psec_size = 16, psec_indirect_index = 0\<rparr>"

lemma chain_slot_import:
  "slot_import demo_tables chain_pointers i = slot_import demo_tables demo_pointers i"
  "slot_entry demo_tables chain_pointers i = slot_entry demo_tables demo_pointers i"
  by (simp_all add: slot_import_def slot_entry_def chain_pointers_def demo_pointers_def)

lemma chain_entries_ok: "i < 2 \<Longrightarrow> slot_entry_ok chain_view demo_tables chain_pointers i"
proof -
  assume "i < 2"
  then consider "i = 0" | "i = 1" by linarith
  then show ?thesis
  proof cases
    case 1
    have "slot_offset chain_pointers 0 = 344" "psec_indirect_index chain_pointers = psec_indirect_index demo_pointers"
      "psec_fileoff chain_pointers = 344" by (simp_all add: slot_offset_def chain_pointers_def demo_pointers_def)
    then show ?thesis
      using 1 demo_entries_ok(1) chain_addresses(1) by (simp add: slot_entry_ok_def chain_slot_import Let_def)
  next
    case 2
    have "slot_import demo_tables demo_pointers 1 = None" by (rule demo_slot_import)
    moreover have "psec_indirect_index chain_pointers = psec_indirect_index demo_pointers"
      by (simp add: chain_pointers_def demo_pointers_def)
    ultimately show ?thesis
      using 2 demo_entries_ok(2) by (simp add: slot_entry_ok_def chain_slot_import Let_def)
  qed
qed

lemma chain_image_at: "image_at chain_view chain_macho"
proof -
  have "list_all command_ok chain_commands"
    by (simp add: chain_commands_def command_ok_def length_command_bytes section_ok_def chain_got_def section_bytes_def
        MAX_SECTIONS_def DYLIB_COMMANDS_def MAX_NAME_LEN_def)
  moreover have "mo_tables_at chain_view chain_info demo_tables"
    unfolding mo_tables_at_def using chain_holds by (intro exI [of _ 360] exI [of _ 384] exI [of _ 376]) (simp add: chain_info_def demo_tables_def)
  moreover have "li_pointer_sections chain_info = [chain_pointers]" "li_chained chain_info = Some (391, 81)"
    "psec_size chain_pointers = 16" "length chain_commands = 5" "macho_cpu_supported (mv_cpu_type chain_view)"
    by (simp_all add: chain_info_def chain_pointers_def chain_commands_def macho_live_view_def demo_module_def macho_cpu_supported_def)
  ultimately show ?thesis
    using chain_holds(1) chain_lengths(1) demo_blob_at chain_entries_ok
    by (simp add: image_at_def chain_macho_def chain_info MAX_COMMANDS_def MAX_INDIRECT_def Let_def)
qed

text \<open>The first slot is in the indirect symbol table and in the chain, the second one only in the chain.\<close>

lemma chain_imports:
  "merged_imports (table_imports chain_view chain_macho) (complement_imports chain_view chain_macho) =
     [macho_import ''x.dylib'' ''open'' 0x4158 False, macho_import ''x.dylib'' ''read'' 0x4160 False]"
proof -
  have d: "li_pointer_sections chain_info = [chain_pointers]" "li_dylibs chain_info = [''x.dylib'']" "li_chained chain_info = Some (391, 81)"
    "psec_size chain_pointers = 16" "psec_fileoff chain_pointers = 344" "\<not> is_arm64e chain_view" "mv_file_backed chain_view"
    by (simp_all add: chain_info_def chain_pointers_def is_arm64e_def macho_live_view_def demo_module_def
        CPU_TYPE_X86_64_def CPU_TYPE_ARM64_def CPU_ARCH_ABI64_def)
  have "n_desc (mt_symbols demo_tables ! 0) = 0x100" by (simp add: demo_tables_def)
  then have "table_imports chain_view chain_macho = [macho_import ''x.dylib'' ''open'' 0x4158 False]"
    using d demo_slot_import chain_addresses(1)
    by (simp add: table_imports_def chain_macho_def chain_info section_imports_def indirect_import_def chain_slot_import
        slot_offset_def library_of_def upt_rec Let_def)
  moreover have "used_segments demo_blob = [(8, demo_chain_segment)]" "cb_tables demo_blob = demo_chain_tables"
    "concat (cs_pages demo_chain_segment) = [(344, demo_fixup 0), (352, demo_fixup 1)]" "cs_format demo_chain_segment = DYLD_CHAINED_PTR_64"
    by (simp_all add: used_segments_def demo_blob_def demo_chain_segment_def)
  then have "complement_imports chain_view chain_macho =
      [macho_import ''x.dylib'' ''open'' 0x4158 False, macho_import ''x.dylib'' ''read'' 0x4160 False]"
    using d(3,7) demo_fixup_imports
    by (simp add: complement_imports_def chain_macho_def chain_info blob_imports_def chain_segment_imports_def)
  ultimately show ?thesis
    by (simp add: merged_imports_def merged_record_def first_seen_def macho_import_def)
qed

end
