(* ===== verification/Macho_Props.thy ===== *)
theory Macho_Props
  imports Macho_Demo
begin

unbundle bit_operations_syntax

text \<open>
  Mach-O images as a whole: the imports that the parser reports of an image, how a client gets a module and
  what restoration knows of it.
\<close>

section \<open>Acquired modules\<close>

text \<open>How a client gets a module without a handle.\<close>

definition macho_acquired :: "'o darwin \<Rightarrow> macho_module \<Rightarrow> 'o \<Rightarrow> bool" where
  "macho_acquired d m st \<longleftrightarrow>
     (\<exists>a. macho_from_address d a st = Inr m) \<or> (\<exists>name. macho_from_name d name st = Inr m) \<or>
     (\<exists>ms. macho_enumerate d st = Inr ms \<and> m \<in> set ms)"

lemma first_image_in: "first_image p images = Some i \<Longrightarrow> i \<in> set images"
  by (induction images) (auto split: if_splits)

lemma collect_images_from_index: "m \<in> set (collect_images d images st) \<Longrightarrow> \<exists>i \<in> set images. from_index d i st = Inr m"
  by (induction images) (auto split: sum.splits)

lemma macho_acquired_index: "macho_acquired d m st \<Longrightarrow> \<exists>i < da_image_count d st. from_index d i st = Inr m"
  unfolding macho_acquired_def macho_from_address_def macho_from_base_def macho_from_name_def macho_enumerate_def
  by (auto dest!: collect_images_from_index first_image_in split: option.splits prod.splits)

lemma from_index_Inr:
  assumes "from_index d i st = Inr m"
  obtains limit info where "mm_base m = da_image_header d i st" "mm_slide m = da_image_slide d i st"
    "read_load_commands (header_view (da_memory d st) (mm_base m) limit) = Inr info" "mm_segments m = li_segments info"
  using assms by (auto simp: from_index_def segments_of_def Let_def split: if_splits)

lemma image_contains_covered:
  assumes "read_load_commands (header_view memory base limit) = Inr info" "unat base + 2 ^ 33 \<le> 2 ^ 64"
  shows "image_contains memory base slide a = covered (li_segments info) slide a"
proof -
  let ?v = "header_view memory base limit"
  from assms(1) obtain ncmds size region_end where
    r: "mo_read_u32 ?v 0 = Inr MH_MAGIC_64" "mo_read_u32 ?v 16 = Inr ncmds" "mo_read_u32 ?v 20 = Inr size" "\<not> MAX_COMMANDS < ncmds"
    and e: "word_checked_add 32 (ucast size) = Some region_end"
    and l: "command_loop ?v region_end (unat ncmds) 32 load_info_default = Inr info"
    by (auto simp: read_load_commands_def MACH_HEADER_64_SIZE_def Let_def split: if_splits)
  have s: "unat (ucast size :: 64 word) < 2 ^ 32" using unsigned_less [of size] by (simp add: unsigned_ucast_eq take_bit_nat_eq_self)
  then have b: "unat region_end < 2 ^ 33" "region_end = 32 + ucast size"
    using e by (auto simp: word_checked_add_Some word_checked_add_def unat_add_small split: if_splits)
  have "word_sat_add (word_sat_add base 32) (ucast size) = base + region_end"
    using s assms(2) b(2) by (simp add: unat_sat_small unat_add_small add.assoc)
  moreover obtain new where "li_segments info = new"
    "contains_loop memory slide a (base + region_end) (unat ncmds) (base + 32) = covered new slide a"
    using contains_loop_command_loop [OF l, of slide a] b(1) assms(2) by (auto simp: load_info_default_def)
  ultimately show ?thesis
    using header_reads(1) [OF r(1)] header_reads(1) [OF r(2)] header_reads(1) [OF r(3)] r(4) by (simp add: image_contains_def Let_def)
qed

lemma owning_image_first:
  "i \<in> set images \<Longrightarrow> distinct (map (\<lambda>j. da_image_header d j st) images) \<Longrightarrow>
     owning_image d a (da_image_header d i st) images st =
       image_contains (da_memory d st) (da_image_header d i st) (da_image_slide d i st) a"
  by (induction images) auto

lemma patchable_covered:
  assumes "macho_patchable m a"
    and "\<forall>seg \<in> set (mm_segments m). ms_filesize seg \<le> ms_vmsize seg \<and>
      unat (ms_vmaddr seg + mm_slide m) + unat (ms_vmsize seg) < 2 ^ 64"
  shows "covered (mm_segments m) (mm_slide m) a"
proof -
  from assms(1) obtain seg k where seg: "seg \<in> set (mm_segments m)" "k + 8 \<le> unat (ms_filesize seg)"
    "a = ms_vmaddr seg + of_nat k + mm_slide m" by (auto simp: macho_patchable_def PTR_SIZE_def)
  let ?s = "ms_vmaddr seg + mm_slide m"
  have b: "k < unat (ms_vmsize seg)" "unat ?s + unat (ms_vmsize seg) < 2 ^ 64"
    using assms(2) seg(1,2) by (auto simp: word_le_nat_alt dest!: bspec)
  then have k: "unat (of_nat k :: 64 word) = k" using unsigned_less [of "ms_vmsize seg"] by (intro unat_of_nat_small) simp
  then have "unat (?s + of_nat k) = unat ?s + k" "unat (?s + ms_vmsize seg) = unat ?s + unat (ms_vmsize seg)"
    using b by (simp_all add: unat_add_small)
  moreover have "a = ?s + of_nat k" using seg(3) by (simp add: ac_simps)
  ultimately have "segment_covers (ms_vmaddr seg) (ms_vmsize seg) (mm_slide m) a"
    using b(1) by (simp add: segment_covers_def Let_def word_le_nat_alt word_less_nat_alt)
  then show ?thesis using seg(1) by (auto simp: list_ex_iff)
qed

lemma acquired_restorable:
  assumes "macho_acquired d m st" "distinct (map (\<lambda>i. da_image_header d i st) [0 ..< da_image_count d st])"
    and "unat (mm_base m) + 2 ^ 33 \<le> 2 ^ 64"
  shows "module_still_loaded (darwin_sys d) (unat (mm_base m)) st"
    "slot_belongs_to_module (darwin_sys d) (unat a) (unat (mm_base m)) st = covered (mm_segments m) (mm_slide m) a"
proof -
  from macho_acquired_index [OF assms(1)] obtain i where i: "i < da_image_count d st" "from_index d i st = Inr m" by auto
  from i(2) obtain limit info where m: "mm_base m = da_image_header d i st" "mm_slide m = da_image_slide d i st"
    "read_load_commands (header_view (da_memory d st) (mm_base m) limit) = Inr info" "mm_segments m = li_segments info"
    by (rule from_index_Inr)
  show "module_still_loaded (darwin_sys d) (unat (mm_base m)) st"
    using i(1) m(1) by (auto simp: darwin_sys_def darwin_module_still_loaded_def list_ex_iff)
  show "slot_belongs_to_module (darwin_sys d) (unat a) (unat (mm_base m)) st = covered (mm_segments m) (mm_slide m) a"
    using owning_image_first [of i "[0 ..< da_image_count d st]" d st a] i(1) assms(2) image_contains_covered [OF m(3) assms(3)]
    by (simp add: darwin_sys_def darwin_slot_belongs_def m)
qed

section \<open>Properties\<close>

lemma image_at_parses:
  assumes "image_at view im"
  shows "macho_cpu_supported (mv_cpu_type view)" "read_load_commands view = Inr (info_of (im_commands im))"
    "parse_indirect view (info_of (im_commands im)) [] = Inr (table_imports view im)"
    "complement_of view (info_of (im_commands im)) = Inr (complement_imports view im)"
proof -
  let ?info = "info_of (im_commands im)"
  note im = assms [unfolded image_at_def Let_def]
  show "macho_cpu_supported (mv_cpu_type view)" using im by simp
  show "read_load_commands view = Inr ?info" using im by (intro read_load_commands_holds) auto
  show "parse_indirect view ?info [] = Inr (table_imports view im)"
    using im parse_indirect_holds [of view ?info "im_tables im" "[]"] by (simp add: table_imports_def Let_def)
  show "complement_of view ?info = Inr (complement_imports view im)"
  proof (cases "li_chained ?info")
    case None
    with im have "list_all2 (stream_at view ?info) (li_binds ?info) (im_streams im)" by simp
    from streams_hold [OF this, of "[]"] None show ?thesis
      by (simp add: complement_of_def complement_imports_def stream_imports_def)
  next
    case (Some rng)
    then obtain dataoff datasize where rng: "li_chained ?info = Some (dataoff, datasize)" by (cases rng) auto
    then have "mv_file_backed view \<longrightarrow> blob_at view ?info (dataoff, datasize) (im_fixups im)" using im by simp
    then have "parse_chained_fixups view ?info dataoff datasize [] =
        Inr (if mv_file_backed view then blob_imports view ?info (im_fixups im) else [])"
      using parse_chained_fixups_holds [of view ?info dataoff datasize "im_fixups im" "[]"]
      by (cases "mv_file_backed view") (simp_all add: parse_chained_fixups_def)
    with rng show ?thesis by (simp add: complement_of_def complement_imports_def)
  qed
qed

text \<open>A process with this image as its only one.\<close>

definition demo_darwin :: "page_list darwin" where
  "demo_darwin = table_darwin (\<lambda>_. True) 0x4000 0 ''/a.dylib'' demo_memory None (\<lambda>_. 7)"

abbreviation demo_slots_found :: "import_slot list" where
  "demo_slots_found \<equiv> map (import_slot_from_raw 0x4000)
     [macho_import ''x.dylib'' ''open'' 0x4178 False, macho_import ''x.dylib'' ''read'' 0x4180 False]"

lemma demo_module_imports_in:
  assumes "da_memory d st = demo_memory" "da_read_file d ''/a.dylib'' st = None"
  shows "macho_module_imports d demo_module st = (Inr demo_slots_found, demo_module)"
proof -
  have "thin_slice d demo_module st = None"
    using assms(2) by (simp add: thin_slice_def demo_module_def load_thin_slice_def)
  moreover have "macho_parse_imports demo_view =
      Inr [macho_import ''x.dylib'' ''open'' 0x4178 False, macho_import ''x.dylib'' ''read'' 0x4180 False]"
    using image_at_parses [OF demo_image_at] demo_imports by (simp add: macho_parse_imports_def merge_reference)
  moreover have "\<not> slice_demanded demo_view"
    using image_at_parses(2) [OF demo_image_at] by (simp add: slice_demanded_def demo_macho_def demo_info) (simp add: demo_info_def)
  moreover have "unat (mm_base demo_module) = 0x4000" by (simp add: demo_module_def)
  ultimately show ?thesis using assms(1) by (simp add: macho_module_imports_def)
qed

lemma demo_module_imports: "macho_module_imports demo_darwin demo_module st = (Inr demo_slots_found, demo_module)"
  by (rule demo_module_imports_in) (simp_all add: demo_darwin_def table_darwin_def)

lemma demo_from_index_in:
  assumes "da_image_header d i st = 0x4000" "da_image_slide d i st = 0" "da_memory d st = demo_memory"
    and "da_image_name d i st = Some ''/a.dylib''" "mapped_extent_from d 0x4000 st = 0x4000"
  shows "from_index d i st = Inr demo_module"
proof -
  let ?v = "header_view demo_memory 0x4000 0x4000"
  have "mo_holds ?v 0 demo_bytes" by (rule header_holds) (simp_all add: demo_lengths demo_memory_bytes)
  then have h: "mo_holds ?v 0 (header_bytes demo_header demo_commands)"
    unfolding demo_bytes_def by (rule mo_holds_prefix)
  have "list_all command_ok demo_commands" "length demo_commands \<le> unat MAX_COMMANDS"
    using demo_image_at by (simp_all add: image_at_def demo_macho_def Let_def)
  from read_load_commands_holds [OF h this] have "segments_of ?v = Inr [demo_mo_segment]"
    by (simp add: segments_of_def demo_info demo_lengths del: length_concat) (simp add: demo_info_def)
  moreover note r = mo_read_at(2) [OF h]
  have "mo_read_u32 ?v 0 = Inr MH_MAGIC_64" "mo_read_u32 ?v 4 = Inr CPU_TYPE_X86_64" "mo_read_u32 ?v 8 = Inr 3"
    using r [of 0 MH_MAGIC_64] r [of 4 CPU_TYPE_X86_64] r [of 8 3] by (simp_all add: header_bytes_def demo_header_def)
  note r = this [THEN header_reads(1)]
  have "image_name d i st = Some ''/a.dylib''"
  proof -
    have "from_utf8_lossy ''/a.dylib'' = ''/a.dylib''" by code_simp
    then show ?thesis using assms(4) by (simp add: image_name_def)
  qed
  moreover have "mv_cpu_type ?v = CPU_TYPE_X86_64" "mv_cpu_subtype ?v = 3" "macho_cpu_supported CPU_TYPE_X86_64"
    using r by (simp_all add: header_view_def macho_cpu_supported_def)
  moreover have "macho_span_of [demo_mo_segment] 0 = (0x4000, 0x8000)"
    by (simp add: macho_span_of_def demo_mo_segment_def Let_def)
  ultimately show ?thesis using r(1) assms by (simp add: from_index_def demo_module_def Let_def)
qed

lemma demo_from_index: "from_index demo_darwin 0 [(0x4000, 5)] = Inr demo_module"
proof (rule demo_from_index_in)
  have "dt_pages [(0x4000, 5)] = [(0x4000, 5)]" by (simp add: dt_pages_def U64_MAX_def)
  then show "mapped_extent_from demo_darwin 0x4000 [(0x4000, 5)] = 0x4000"
    by (simp add: mapped_extent_from_def demo_darwin_def table_darwin_def page_of_def dt_backed_def U64_MAX_def
        checked_add_def Let_def)
qed (simp_all add: demo_darwin_def table_darwin_def)

lemma macho_module_imports_reported:
  assumes "macho_module_imports d m st = (Inr slots, m')"
  shows "distinct (map is_address slots)"
    "list_all (\<lambda>s. is_module_base s = unat (mm_base m) \<and> (\<exists>a. macho_patchable m a \<and> is_address s = unat a) \<and>
      (\<exists>name. is_symbol s = Some (SymName name) \<and> proper_name name \<and> name \<noteq> TLV_BOOTSTRAP)) slots"
proof -
  let ?view = "macho_live_view (da_memory d st) (thin_slice d m st) m"
  from assms obtain raws where raws: "macho_parse_imports ?view = Inr raws"
    "slots = map (import_slot_from_raw (unat (mm_base m))) raws"
    by (auto simp: macho_module_imports_def Let_def)
  note good = live_macho.macho_parse_imports_good [OF raws(1)]
  show "distinct (map is_address slots)"
    using good(2) by (simp add: raws(2) comp_def import_slot_from_raw_def)
  show "list_all (\<lambda>s. is_module_base s = unat (mm_base m) \<and> (\<exists>a. macho_patchable m a \<and> is_address s = unat a) \<and>
      (\<exists>name. is_symbol s = Some (SymName name) \<and> proper_name name \<and> name \<noteq> TLV_BOOTSTRAP)) slots"
    using good(1) by (auto simp: raws(2) import_slot_from_raw_def list_all_iff mo_reported_def)
qed



text \<open>C14. Whatever the bytes of a Mach-O image are, an enumeration of its imports that succeeds returns distinct
  slots; each is a pointer-aligned cell that lies with all eight bytes inside the file-backed part of a
  segment of the module, at the address where the loader mapped it, and belongs to the module; its name
  is not empty, carries no variant suffix, and is never the bootstrap symbol of thread-local variables.\<close>

theorem macho_slots_are_patchable:
  assumes "macho_module_imports d m st = (Inr slots, m')"
  shows "distinct (map is_address slots) \<and>
    list_all (\<lambda>s. is_module_base s = unat (mm_base m) \<and> (\<exists>a. macho_patchable m a \<and> is_address s = unat a) \<and>
      (\<exists>name. is_symbol s = Some (SymName name) \<and> proper_name name \<and> name \<noteq> TLV_BOOTSTRAP)) slots"
  using macho_module_imports_reported [OF assms] by blast

theorem macho_slots_are_patchable_witness:
  "map is_address demo_slots_found = [0x4178, 0x4180] \<and> macho_patchable demo_module 0x4178"
proof -
  from macho_slots_are_patchable [OF demo_module_imports]
  have "\<exists>a. macho_patchable demo_module a \<and> 0x4178 = unat a"
    by (auto simp: import_slot_from_raw_def macho_import_def)
  then obtain a where a: "macho_patchable demo_module a" "unat a = unat (0x4178 :: 64 word)" by auto
  from a(2) have "a = 0x4178" by (rule word_unat_eq_iff [THEN iffD2])
  with a(1) show ?thesis by (simp add: import_slot_from_raw_def macho_import_def)
qed

text \<open>C15. The imports of a Mach-O module depend only on bytes of its file-backed segments and on the part of its
  file that holds the loaded architecture; and the file is not even looked at, and the cell for its bytes
  stays as it was, unless the image has chained fixups.\<close>

theorem macho_parser_reads_only_the_image:
  assumes "\<forall>a. macho_byte m a \<longrightarrow> da_memory d st a = da_memory d' st' a"
    and "thin_slice d m st = thin_slice d' m st' \<or> \<not> slice_demanded (macho_live_view (da_memory d st) None m)"
  shows "macho_module_imports d m st = macho_module_imports d' m st'"
proof -
  let ?v = "macho_live_view (da_memory d st)"
  have v: "macho_live_view (da_memory d' st') thin m = ?v thin m" for thin
    by (rule macho_live_view_cong [symmetric]) (use assms(1) in blast)
  let ?n = "?v None m"
  have f: "?v thin m = with_file ?n (thin \<noteq> None) (slice_encoding thin)" for thin by (rule live_view_with_file)
  show ?thesis
  proof (cases "slice_demanded ?n")
    case True
    then show ?thesis using assms(2) by (simp add: macho_module_imports_def v)
  next
    case False
    have p: "macho_parse_imports (?v thin m) = macho_parse_imports ?n" for thin
      unfolding f [of thin] by (rule parse_without_chains) (rule False)
    have "slice_demanded (?v thin m) = slice_demanded ?n" for thin
      unfolding f [of thin] by (rule slice_demanded_with_file)
    then show ?thesis
      using False p [of "thin_slice d m st"] p [of "thin_slice d' m st'"] by (simp add: macho_module_imports_def Let_def v)
  qed
qed

text \<open>Another process holds the same image, different bytes everywhere else, and a file that is not read.\<close>

definition demo_other_darwin :: "page_list darwin" where
  "demo_other_darwin = table_darwin (\<lambda>_. False) 0x4000 0 ''/b.dylib'' (\<lambda>a. if macho_byte demo_module a then demo_memory a else 1)
     (Some [1, 2, 3]) (\<lambda>_. 0)"

theorem macho_parser_reads_only_the_image_witness:
  "macho_module_imports demo_other_darwin demo_module [] = (Inr demo_slots_found, demo_module)"
proof -
  have "\<forall>a. macho_byte demo_module a \<longrightarrow> da_memory demo_darwin [] a = da_memory demo_other_darwin [] a"
    by (simp add: demo_darwin_def demo_other_darwin_def table_darwin_def)
  moreover have "\<not> slice_demanded (macho_live_view (da_memory demo_darwin []) None demo_module)"
  proof -
    have "da_memory demo_darwin [] = demo_memory" by (simp add: demo_darwin_def table_darwin_def)
    then show ?thesis
      using image_at_parses(2) [OF demo_image_at] by (simp add: slice_demanded_def demo_macho_def demo_info) (simp add: demo_info_def)
  qed
  ultimately show ?thesis
    using macho_parser_reads_only_the_image [of demo_module demo_darwin "[]" demo_other_darwin "[]"] demo_module_imports by simp
qed

text \<open>C17. Acquisition and restoration agree on what a Mach-O image is.  A module that was looked up or enumerated
  is found to be still loaded; restoration accepts an address for it exactly if one of the segments the
  parser recorded covers it, although it walks the load commands with code of its own; so every slot that
  the enumeration of its imports reports is accepted.  The images have distinct headers, and the header
  and the segments do not reach the end of the address space.\<close>

theorem macho_slots_can_be_restored:
  assumes "macho_acquired d m st" "distinct (map (\<lambda>i. da_image_header d i st) [0 ..< da_image_count d st])"
    and "unat (mm_base m) + 2 ^ 33 \<le> 2 ^ 64"
    and "\<forall>seg \<in> set (mm_segments m). ms_filesize seg \<le> ms_vmsize seg \<and>
      unat (ms_vmaddr seg + mm_slide m) + unat (ms_vmsize seg) < 2 ^ 64"
    and "macho_module_imports d m st = (Inr slots, m')"
  shows "module_still_loaded (darwin_sys d) (unat (mm_base m)) st \<and>
    (\<forall>a. slot_belongs_to_module (darwin_sys d) (unat a) (unat (mm_base m)) st = covered (mm_segments m) (mm_slide m) a) \<and>
    list_all (\<lambda>s. slot_belongs_to_module (darwin_sys d) (is_address s) (is_module_base s) st) slots"
proof -
  note r = acquired_restorable [OF assms(1-3)]
  from macho_module_imports_reported [OF assms(5)]
  have "list_all (\<lambda>s. slot_belongs_to_module (darwin_sys d) (is_address s) (is_module_base s) st) slots"
    using r(2) patchable_covered [OF _ assms(4)] by (auto simp: list_all_iff)
  with r show ?thesis by blast
qed

theorem macho_slots_can_be_restored_witness:
  "slot_belongs_to_module (darwin_sys demo_darwin) 0x4180 0x4000 [(0x4000, 5)] \<and>
   \<not> slot_belongs_to_module (darwin_sys demo_darwin) 0x8000 0x4000 [(0x4000, 5)]"
proof -
  let ?st = "[(0x4000, 5)] :: page_list"
  have c: "da_image_count demo_darwin ?st = 1" by (simp add: demo_darwin_def table_darwin_def)
  have "macho_acquired demo_darwin demo_module ?st"
    using demo_from_index c by (simp add: macho_acquired_def macho_enumerate_def)
  moreover have "distinct (map (\<lambda>i. da_image_header demo_darwin i ?st) [0 ..< da_image_count demo_darwin ?st])"
    "unat (mm_base demo_module) + 2 ^ 33 \<le> 2 ^ 64"
    "\<forall>seg \<in> set (mm_segments demo_module). ms_filesize seg \<le> ms_vmsize seg \<and>
      unat (ms_vmaddr seg + mm_slide demo_module) + unat (ms_vmsize seg) < 2 ^ 64"
    using c by (simp_all add: demo_module_def demo_mo_segment_def)
  ultimately have r: "\<forall>a. slot_belongs_to_module (darwin_sys demo_darwin) (unat a) (unat (mm_base demo_module)) ?st =
      covered (mm_segments demo_module) (mm_slide demo_module) a"
    using macho_slots_can_be_restored [OF _ _ _ _ demo_module_imports [of ?st]] by blast
  have "unat (0x4180 :: 64 word) = 0x4180" "unat (0x8000 :: 64 word) = 0x8000" "unat (mm_base demo_module) = 0x4000"
    by (simp_all add: demo_module_def)
  moreover have "covered (mm_segments demo_module) (mm_slide demo_module) 0x4180"
    "\<not> covered (mm_segments demo_module) (mm_slide demo_module) 0x8000"
    by (simp_all add: demo_module_def demo_mo_segment_def segment_covers_def)
  ultimately show ?thesis using r [rule_format, of "0x4180"] r [rule_format, of "0x8000"] by simp
qed

end
