(* ===== verification/Darwin_Install.thy ===== *)
theory Darwin_Install
  imports Install Macho_Props
begin

text \<open>
  The installer on Darwin: \<^verbatim>\<open>install.rs\<close> over the Mach-O modules of \<^verbatim>\<open>module_macho.rs\<close>, the platform layer of
  \<^verbatim>\<open>sys_macos.rs\<close> and the Darwin table of symbols.  What the installer needs from the platform (the locale
  \<open>loader_layout\<close>) follows from the layout of the loaded images.
\<close>

definition macho_plt_module :: "'o darwin \<Rightarrow> 'o \<Rightarrow> macho_module \<Rightarrow> plt_module" where
  "macho_plt_module d st m =
     \<lparr>m_base = unat (mm_base m), m_name = macho_module_name m, m_path = mm_path m,
      m_imports = fst (macho_module_imports d m st)\<rparr>"

definition darwin_plt :: "'o darwin \<Rightarrow> (darwin_sym, 'o) plt" where
  "darwin_plt d =
     \<lparr>plt_sys = darwin_sys d,
      plt_enumerate = (\<lambda>st. and_then (macho_enumerate d st) (\<lambda>ms. Inr (map (macho_plt_module d st) ms))),
      plt_from_address = (\<lambda>a st. and_then (macho_from_address d (of_nat a) st) (\<lambda>m. Inr (macho_plt_module d st m))),
      plt_original = da_dlsym d,
      plt_name = darwin_sym_name, plt_ALL = darwin_sym_ALL, plt_index = darwin_sym_index,
      plt_replacements = unix_replacements darwin_sym_name darwin_loader_sym darwin_sym_ALL, plt_dir_key = unix_dir_key\<rparr>"

section \<open>Loaded images\<close>

text \<open>The addresses of a module's file-backed segments.\<close>

definition macho_footprint :: "macho_module \<Rightarrow> nat set" where
  "macho_footprint m =
     (\<Union>seg \<in> set (mm_segments m).
        {unat (ms_vmaddr seg + mm_slide m) ..< unat (ms_vmaddr seg + mm_slide m) + unat (ms_filesize seg)})"

definition images_apart :: "'o darwin \<Rightarrow> 'o \<Rightarrow> bool" where
  "images_apart d st \<longleftrightarrow> distinct (map (\<lambda>i. da_image_header d i st) [0 ..< da_image_count d st])"

definition segments_fit :: "macho_module \<Rightarrow> bool" where
  "segments_fit m \<longleftrightarrow> unat (mm_base m) + 2 ^ 33 \<le> 2 ^ 64 \<and>
     (\<forall>seg \<in> set (mm_segments m). ms_filesize seg \<le> ms_vmsize seg \<and>
        unat (ms_vmaddr seg + mm_slide m) + unat (ms_vmsize seg) < 2 ^ 64)"

text \<open>A layout as the loader makes it: the images stay the same, have different headers and disjoint
  segments that do not wrap around, and pages with import cells can be made writable.\<close>

definition darwin_laid_out :: "'o darwin \<Rightarrow> macho_module list \<Rightarrow> bool" where
  "darwin_laid_out d ms \<longleftrightarrow>
     (\<forall>st. macho_enumerate d st = Inr ms \<and> images_apart d st) \<and> list_all segments_fit ms \<and>
     sorted_wrt (\<lambda>m n. macho_footprint m \<inter> macho_footprint n = {}) ms \<and>
     (\<forall>slots st. set slots \<subseteq> (\<Union>m \<in> set ms. macho_footprint m) \<longrightarrow>
        (\<exists>dn st'. protector_make_writable (darwin_sys d) slots st = (Inr dn, st')))"

lemma collect_images_all:
  "i \<in> set images \<Longrightarrow> from_index d i st = Inr m \<Longrightarrow> m \<in> set (collect_images d images st)"
  by (induction images) (auto split: sum.splits)

lemma collect_images_bases:
  "distinct (map (\<lambda>i. da_image_header d i st) images) \<Longrightarrow> distinct (map mm_base (collect_images d images st))"
proof (induction images)
  case (Cons i images)
  have b: "mm_base m = da_image_header d j st" if "from_index d j st = Inr m" for j m using that by (rule from_index_Inr)
  have "mm_base m \<in> (\<lambda>i. da_image_header d i st) ` set images" if "m \<in> set (collect_images d images st)" for m
    using collect_images_from_index [OF that] b by auto
  with Cons b [of i] show ?case by (auto split: sum.splits)
qed simp

lemma patchable_footprint:
  assumes "macho_patchable m a" "segments_fit m"
  shows "unat a \<in> macho_footprint m"
proof -
  from assms(1) obtain seg k where seg: "seg \<in> set (mm_segments m)" "k + 8 \<le> unat (ms_filesize seg)"
    "a = ms_vmaddr seg + of_nat k + mm_slide m" by (auto simp: macho_patchable_def PTR_SIZE_def)
  let ?s = "ms_vmaddr seg + mm_slide m"
  have "unat (ms_filesize seg) \<le> unat (ms_vmsize seg)" "unat ?s + unat (ms_vmsize seg) < 2 ^ 64"
    using assms(2) seg(1) by (simp_all add: segments_fit_def word_le_nat_alt)
  then have "unat ?s + k < 2 ^ 64" using seg(2) by linarith
  moreover from this have "unat (of_nat k :: 64 word) = k" by (intro unat_of_nat_small) simp
  ultimately have "unat (?s + of_nat k) = unat ?s + k" by (simp add: unat_add_small)
  moreover have "a = ?s + of_nat k" using seg(3) by (simp add: ac_simps)
  ultimately show ?thesis using seg(1,2) by (auto simp: macho_footprint_def intro!: bexI [of _ seg])
qed

lemma macho_cells:
  assumes "a \<in> import_cells (macho_plt_module d st m)"
  shows "\<exists>w. macho_patchable m w \<and> a = unat w"
proof -
  obtain r m' where r: "macho_module_imports d m st = (r, m')" by fastforce
  with assms obtain slots s where s: "r = Inr slots" "s \<in> set slots" "a = is_address s"
    by (auto simp: import_cells_def macho_plt_module_def split: sum.splits)
  from macho_module_imports_reported(2) [OF r [unfolded s(1)]] s(2,3) show ?thesis by (auto simp: list_all_iff)
qed

lemma laid_out_module:
  assumes "darwin_laid_out d ms" "m \<in> set ms"
  shows "cooperative (darwin_sys d) (unat (mm_base m)) (import_cells (macho_plt_module d st m))"
    and "import_cells (macho_plt_module d st m) \<subseteq> macho_footprint m"
proof -
  have fit: "segments_fit m" using assms by (auto simp: darwin_laid_out_def list_all_iff)
  show sub: "import_cells (macho_plt_module d st m) \<subseteq> macho_footprint m"
    using macho_cells patchable_footprint [OF _ fit] by fastforce
  have a: "macho_acquired d m st'" "distinct (map (\<lambda>i. da_image_header d i st') [0 ..< da_image_count d st'])"
    "unat (mm_base m) + 2 ^ 33 \<le> 2 ^ 64" for st'
    using assms fit by (auto simp: macho_acquired_def darwin_laid_out_def images_apart_def segments_fit_def)
  note r = acquired_restorable [OF a]
  have "slot_belongs_to_module (darwin_sys d) c (unat (mm_base m)) st'" if "c \<in> import_cells (macho_plt_module d st m)" for c st'
    using macho_cells [OF that] r(2) patchable_covered [of m] fit by (auto simp: segments_fit_def)
  moreover have "\<exists>dn st''. protector_make_writable (darwin_sys d) slots st' = (Inr dn, st'')"
    if "set slots \<subseteq> import_cells (macho_plt_module d st m)" for slots st'
    using that sub assms unfolding darwin_laid_out_def by (meson UN_upper order_trans)
  ultimately show "cooperative (darwin_sys d) (unat (mm_base m)) (import_cells (macho_plt_module d st m))"
    using r(1) by (simp add: cooperative_def)
qed

lemma darwin_loadable:
  assumes "darwin_laid_out d ms" "loadable (darwin_plt d) m"
  shows "\<exists>mm \<in> set ms. \<exists>st. m = macho_plt_module d st mm"
proof -
  have in_ms: "mm \<in> set ms" if "macho_from_address d a st = Inr mm" for a st mm
  proof -
    have "macho_acquired d mm st" using that by (auto simp: macho_acquired_def)
    from macho_acquired_index [OF this] obtain i where "i < da_image_count d st" "from_index d i st = Inr mm" by auto
    then have "mm \<in> set (collect_images d [0 ..< da_image_count d st] st)" by (intro collect_images_all) auto
    then show ?thesis using assms(1) by (simp add: darwin_laid_out_def macho_enumerate_def)
  qed
  consider st xs where "plt_enumerate (darwin_plt d) st = Inr xs" "m \<in> set xs"
    | a st where "plt_from_address (darwin_plt d) a st = Inr m"
    using assms(2) unfolding loadable_def by blast
  then show ?thesis
  proof cases
    case (1 st xs)
    moreover have "macho_enumerate d st = Inr ms" using assms(1) by (simp add: darwin_laid_out_def)
    ultimately have "m \<in> macho_plt_module d st ` set ms" by (auto simp: darwin_plt_def)
    then show ?thesis by blast
  next
    case (2 a st)
    then obtain mm where "macho_from_address d (of_nat a) st = Inr mm" "m = macho_plt_module d st mm"
      by (auto simp: darwin_plt_def)
    then show ?thesis using in_ms by auto
  qed
qed

locale darwin_process =
  fixes d :: "'o darwin" and ms :: "macho_module list"
  assumes laid_out: "darwin_laid_out d ms"

sublocale darwin_process \<subseteq> darwin_layout: loader_layout "darwin_plt d"
proof
  have sys: "plt_sys (darwin_plt d) = darwin_sys d" by (simp add: darwin_plt_def)
  have base: "m_base (macho_plt_module d st mm) = unat (mm_base mm)" for st mm by (simp add: macho_plt_module_def)
  fix m n st ms'
  show "cooperative (plt_sys (darwin_plt d)) (m_base m) (import_cells m)" if "loadable (darwin_plt d) m"
    using darwin_loadable [OF laid_out that] laid_out_module(1) [OF laid_out] base by (auto simp: sys)
  show "import_cells m \<inter> import_cells n = {}"
    if "loadable (darwin_plt d) m" "loadable (darwin_plt d) n" "m_base m \<noteq> m_base n"
  proof -
    from that obtain mm nn st1 st2 where e: "mm \<in> set ms" "m = macho_plt_module d st1 mm"
      "nn \<in> set ms" "n = macho_plt_module d st2 nn" using darwin_loadable [OF laid_out] by meson
    have "mm \<noteq> nn" using e that(3) base by auto
    then have "macho_footprint mm \<inter> macho_footprint nn = {}"
      using sorted_wrt_related [of "\<lambda>m n. macho_footprint m \<inter> macho_footprint n = {}" ms mm nn] laid_out e(1,3)
      by (auto simp: darwin_laid_out_def)
    then show ?thesis using laid_out_module(2) [OF laid_out] e by blast
  qed
  show "distinct (map m_base ms')" if "plt_enumerate (darwin_plt d) st = Inr ms'"
  proof -
    from that laid_out have "ms' = map (macho_plt_module d st) ms"
      by (auto simp: darwin_plt_def darwin_laid_out_def)
    moreover have "distinct (map mm_base ms)"
      using laid_out collect_images_bases [of d st "[0 ..< da_image_count d st]"]
      by (auto simp: darwin_laid_out_def images_apart_def macho_enumerate_def)
    moreover have "map m_base (map (macho_plt_module d st) ms) = map unat (map mm_base ms)" by (simp add: base)
    ultimately show ?thesis by (simp only: distinct_map_unat)
  qed
qed

context darwin_process
begin

lemmas darwin_undone = darwin_layout.install_undone

end

section \<open>Properties\<close>

text \<open>C5. On Darwin an installation is undone completely, whatever the scope: with the images loaded at
  disjoint addresses that do not wrap around and their pages patchable, a failed installation leaves
  every import cell as it was, and after a successful one any number of rescans may hook further
  images: dropping the guard puts every cell back and frees the routing slot.  The imports are those
  that the Mach-O parser finds in the images.\<close>

theorem darwin_teardown_restores_imports:
  assumes "install_with_namespace (darwin_plt d) shim vfs ns sc aw ar w = (r, w')"
    and "d_active (w_disp w) = None" and "darwin_laid_out d ms"
  shows "case r of
      Inl _ \<Rightarrow> mem (w_proc w') = mem (w_proc w)
    | Inr token \<Rightarrow> \<forall>w''. session (darwin_plt d) shim token w' w'' \<longrightarrow>
        mem (w_proc (install_guard_drop (darwin_plt d) token w'')) = mem (w_proc w)
        \<and> current_engine (w_disp (install_guard_drop (darwin_plt d) token w'')) = None"
proof -
  from assms(3) have "darwin_process d ms" by (rule darwin_process.intro)
  then show ?thesis using assms(1,2) by (rule darwin_process.darwin_undone)
qed

text \<open>The small image of \<open>Macho_Props\<close>, loaded in one writable page.\<close>

definition calm_darwin :: "unit darwin" where
  "calm_darwin =
     \<lparr>da_sysconf_pagesize = 0x4000,
      da_vm_region = (\<lambda>_ _. Some \<lparr>vr_addr = 0x4000, vr_size = 0x4000, vr_protection = 7\<rparr>),
      da_vm_protect = (\<lambda>_ _ _ st. (KERN_SUCCESS, st)),
      da_image_count = (\<lambda>_. 1), da_image_header = (\<lambda>_ _. 0x4000), da_image_slide = (\<lambda>_ _. 0),
      da_image_name = (\<lambda>_ _. Some ''/a.dylib''), da_dladdr = (\<lambda>_ _. Some (0x4000, None)), da_dlsym = (\<lambda>_ _. 7),
      da_dlopen = (\<lambda>_ _ st. (1, st)), da_dlclose = (\<lambda>_ st. st), da_memory = (\<lambda>_. demo_memory),
      da_read_file = (\<lambda>_ _. None)\<rparr>"

abbreviation "calm_sys \<equiv> darwin_sys calm_darwin"

lemma calm_enumerate: "macho_enumerate calm_darwin st = Inr [demo_module]"
proof -
  have "from_index calm_darwin 0 st = Inr demo_module"
  proof (rule demo_from_index_in)
    show "mapped_extent_from calm_darwin 0x4000 st = 0x4000"
      by (simp add: mapped_extent_from_def calm_darwin_def checked_add_def U64_MAX_def)
  qed (simp_all add: calm_darwin_def)
  moreover have "da_image_count calm_darwin st = 1" by (simp add: calm_darwin_def)
  ultimately show ?thesis by (simp add: macho_enumerate_def)
qed

lemma calm_make_writable: "make_writable calm_sys 0x4000 st = (Inr 7, st)"
proof -
  have "darwin_query_protection calm_darwin 0x4000 st = 7"
    by (simp add: darwin_query_protection_def calm_darwin_def sat_add_def U64_MAX_def rwx_mask_def VM_PROT_READ_def
        VM_PROT_WRITE_def VM_PROT_EXECUTE_def)
  then show ?thesis by (simp add: darwin_sys_def darwin_make_writable_def VM_PROT_WRITE_def Let_def)
qed

lemma calm_page_size: "page_size calm_sys = 0x4000"
  by (simp add: darwin_sys_def darwin_page_size_def calm_darwin_def)

lemma calm_laid_out: "darwin_laid_out calm_darwin [demo_module]"
proof -
  have fp: "macho_footprint demo_module = {0x4000 ..< 0x5000}"
    by (simp add: macho_footprint_def demo_module_def demo_mo_segment_def)
  have "\<exists>dn st'. protector_make_writable calm_sys slots st = (Inr dn, st')" if "set slots \<subseteq> {0x4000 ..< 0x5000}" for slots st
  proof -
    have "\<forall>a \<in> set slots. 0x4000 \<le> a \<and> a + PTR_SIZE \<le> 0x4000 + 0x4000" using that by (auto simp: PTR_SIZE_def)
    then show ?thesis
      using slot_pages_one [of "0x4000" "0x4000" slots] calm_make_writable
      by (auto simp: protector_make_writable_def calm_page_size U64_MAX_def)
  qed
  moreover have "images_apart calm_darwin st" for st by (simp add: images_apart_def calm_darwin_def)
  moreover have "segments_fit demo_module" by (simp add: segments_fit_def demo_module_def demo_mo_segment_def)
  ultimately show ?thesis by (simp add: darwin_laid_out_def calm_enumerate fp)
qed

interpretation calm: darwin_process calm_darwin "[demo_module]"
  by (rule darwin_process.intro) (rule calm_laid_out)

definition calm_install where
  "calm_install = install_with_namespace (darwin_plt calm_darwin) (\<lambda>_. 99) 5 (from_root ''/v'') AllModules True True sdk_world"

definition calm_rescan where
  "calm_rescan = rescan (darwin_plt calm_darwin) (\<lambda>_. 99) 1 (snd calm_install)"

abbreviation darwin_replacements :: "(darwin_sym \<Rightarrow> nat) \<Rightarrow> bool \<Rightarrow> replacement list" where
  "darwin_replacements \<equiv> unix_replacements darwin_sym_name darwin_loader_sym darwin_sym_ALL"

lemma calm_pending:
  "collect_hooks calm_sys nm demo_slots_found (darwin_replacements (\<lambda>_. 99) True) [] p =
   (Inr [\<lparr>ph_library = ''x.dylib'', ph_symbol = SymName ''open'', ph_slot = 0x4178, ph_original = 7, ph_replacement = 99\<rparr>,
         \<lparr>ph_library = ''x.dylib'', ph_symbol = SymName ''read'', ph_slot = 0x4180, ph_original = 7, ph_replacement = 99\<rparr>], p)"
proof -
  have "resolve_original calm_sys kd lib (SymName x) v st = (Some 7, st)" for kd lib x v st
    by (simp add: darwin_sys_def darwin_resolve_original_def calm_darwin_def dladdr_name_matches_def Let_def)
  then show ?thesis
    by (simp add: unix_replacements_def darwin_loader_sym_def darwin_sym_ALL_def optional_def by_symbol_def match_replacement_def
        library_matches_def import_slot_from_raw_def macho_import_def slot_load_def)
qed

lemma calm_apply:
  "apply_patches calm_sys [(0x4178, 99), (0x4180, 99)] p =
     (Inr [mem p 0x4178, mem p 0x4180], p\<lparr>mem := (mem p)(0x4178 := 99, 0x4180 := 99)\<rparr>)"
proof -
  have "slot_pages 0x4000 [0x4178, 0x4180] = [0x4000]"
    by (simp add: slot_pages_def page_of_def span_pages.simps push_new_def PTR_SIZE_def sat_add_def U64_MAX_def)
  moreover have "restore_protection calm_sys page v st = (Inr (), st)" for page v st
    by (simp add: darwin_sys_def darwin_restore_protection_def calm_darwin_def)
  ultimately show ?thesis
    by (simp add: apply_patches_def Let_def protector_make_writable_def calm_page_size calm_make_writable protector_restore_def
        result_of_def slot_swap_def)
qed

lemma calm_plt_install:
  obtains g where "plt_install calm_sys nm b (Inr demo_slots_found) (darwin_replacements (\<lambda>_. 99) True) p =
    (Inr g, p\<lparr>mem := (mem p)(0x4178 := 99, 0x4180 := 99)\<rparr>)"
  unfolding plt_install_def sum.case calm_pending by (simp add: calm_apply)

lemma calm_install_result: "fst calm_install = Inr 1" "mem (w_proc (snd calm_install)) 0x4180 = 99"
proof -
  have r: "resolve_modules (darwin_plt calm_darwin) AllModules st = Inr [macho_plt_module calm_darwin st demo_module]" for st
    by (simp add: resolve_modules_def darwin_plt_def calm_enumerate)
  obtain d where d: "try_activate e (w_disp sdk_world) = (Some 1, d e)" for e
    by (auto simp: sdk_world_def dispatch_init_def try_activate_def Let_def)
  have m: "m_imports (macho_plt_module calm_darwin st demo_module) = Inr demo_slots_found" for st
    using demo_module_imports_in [of calm_darwin st] by (simp add: macho_plt_module_def) (simp add: calm_darwin_def)
  have p: "plt_sys (darwin_plt calm_darwin) = calm_sys" "plt_replacements (darwin_plt calm_darwin) = darwin_replacements"
    by (simp_all add: darwin_plt_def)
  let ?m = "macho_plt_module calm_darwin () demo_module"
  obtain g where "plt_install calm_sys (m_name ?m) (m_base ?m) (Inr demo_slots_found) (darwin_replacements (\<lambda>_. 99) True) (w_proc sdk_world) =
    (Inr g, (w_proc sdk_world)\<lparr>mem := (mem (w_proc sdk_world))(0x4178 := 99, 0x4180 := 99)\<rparr>)"
    by (rule calm_plt_install)
  then have "plt_install calm_sys (m_name ?m) (m_base ?m) (m_imports ?m) (darwin_replacements (\<lambda>_. 99) True) (w_proc sdk_world) =
    (Inr g, (w_proc sdk_world)\<lparr>mem := (mem (w_proc sdk_world))(0x4178 := 99, 0x4180 := 99)\<rparr>)" by (simp only: m)
  then show "fst calm_install = Inr 1" "mem (w_proc (snd calm_install)) 0x4180 = 99"
    unfolding calm_install_def install_with_namespace_def by (simp_all add: r d p Let_def)
qed

theorem darwin_teardown_restores_imports_witness:
  "mem (w_proc (snd calm_install)) 0x4180 = 99 \<and>
   mem (w_proc (install_guard_drop (darwin_plt calm_darwin) 1 (snd calm_rescan))) = mem (w_proc sdk_world)"
proof -
  have i: "install_with_namespace (darwin_plt calm_darwin) (\<lambda>_. 99) 5 (from_root ''/v'') AllModules True True sdk_world =
      (Inr 1, snd calm_install)"
    using calm_install_result(1) unfolding calm_install_def by (metis prod.collapse)
  have a: "d_active (w_disp sdk_world) = None" by (simp add: sdk_world_def dispatch_init_def)
  have "session (darwin_plt calm_darwin) (\<lambda>_. 99) 1 (snd calm_install) (snd calm_rescan)"
    unfolding calm_rescan_def by (rule session.scan [OF session.start prod.collapse [symmetric]])
  with darwin_teardown_restores_imports [OF i a calm_laid_out] calm_install_result(2) show ?thesis by simp
qed

end
