(* ===== verification/Win_Install.thy ===== *)
theory Win_Install
  imports Install Pe_Module Win_Namespace
begin

text \<open>
  The installer on Windows: \<^verbatim>\<open>install.rs\<close> over the PE modules of \<^verbatim>\<open>module.rs\<close>, the platform layer of \<^verbatim>\<open>sys.rs\<close>
  and the Windows table of symbols, whose originals are looked up in \<^verbatim>\<open>KERNEL32.dll\<close>.  What the installer
  needs from the platform (the locale \<open>loader_layout\<close>) follows from the layout of the loaded images.
  \<open>memory\<close> is what the images hold, \<open>uni\<close> the table of lower-case mappings.
\<close>

definition kernel32_original :: "'o win32 \<Rightarrow> string \<Rightarrow> 'o \<Rightarrow> nat" where
  "kernel32_original w name st =
     (let m = w_GetModuleHandleW w (as_wide ''kernel32.dll'') st in
      if m = 0 then 0
      else case w_GetProcAddress w m (ProcName (name @ [NUL])) st of Some p \<Rightarrow> p | None \<Rightarrow> 0)"

definition win_dir_key :: "(nat \<Rightarrow> nat list) \<Rightarrow> path \<Rightarrow> string" where
  "win_dir_key uni path = win_normalize_key uni (case win_parent path of Some dir \<Rightarrow> dir | None \<Rightarrow> path)"

definition pe_plt_module :: "nat \<Rightarrow> (nat \<Rightarrow> byte) \<Rightarrow> pe_module \<Rightarrow> plt_module" where
  "pe_plt_module host memory m =
     \<lparr>m_base = pm_base m, m_name = pe_module_name m, m_path = pm_path m, m_imports = pe_module_imports host memory m\<rparr>"

definition win_plt :: "'o win32 \<Rightarrow> nat \<Rightarrow> (nat \<Rightarrow> byte) \<Rightarrow> (nat \<Rightarrow> nat list) \<Rightarrow> (windows_sym, 'o) plt" where
  "win_plt w host memory uni =
     \<lparr>plt_sys = windows_sys w,
      plt_enumerate = (\<lambda>st. and_then (pe_enumerate w host memory st) (\<lambda>ms. Inr (map (pe_plt_module host memory) ms))),
      plt_from_address = (\<lambda>a st. and_then (pe_from_address w host memory a st) (\<lambda>m. Inr (pe_plt_module host memory m))),
      plt_original = kernel32_original w,
      plt_name = windows_sym_name, plt_ALL = windows_sym_ALL, plt_index = windows_sym_index,
      plt_replacements = windows_replacements, plt_dir_key = win_dir_key uni\<rparr>"

section \<open>Loaded images\<close>

definition pe_footprint :: "pe_module \<Rightarrow> nat set" where
  "pe_footprint m = {pm_base m ..< pm_base m + pm_size m}"

text \<open>A layout as the loader makes it: the modules stay the same and are the only ones an address may lie
  in, they have different handles, the system knows every address of an image as one of its pages, the
  images are disjoint, and pages with import cells can be made writable.\<close>

definition win_laid_out :: "'o win32 \<Rightarrow> nat \<Rightarrow> (nat \<Rightarrow> byte) \<Rightarrow> pe_module list \<Rightarrow> bool" where
  "win_laid_out w host memory ms \<longleftrightarrow>
     (\<forall>st. pe_enumerate w host memory st = Inr ms) \<and>
     (\<forall>a st m. pe_from_address w host memory a st = Inr m \<longrightarrow> m \<in> set ms) \<and> distinct (map pm_base ms) \<and>
     (\<forall>m \<in> set ms. \<forall>st. win_module_still_loaded w (pm_base m) st \<and>
        (\<forall>x \<in> pe_footprint m. win_slot_belongs w x (pm_base m) st)) \<and>
     sorted_wrt (\<lambda>m n. pe_footprint m \<inter> pe_footprint n = {}) ms \<and>
     (\<forall>slots st. set slots \<subseteq> (\<Union>m \<in> set ms. pe_footprint m) \<longrightarrow>
        (\<exists>dn st'. protector_make_writable (windows_sys w) slots st = (Inr dn, st')))"

lemma pe_cells: "import_cells (pe_plt_module host memory m) \<subseteq> pe_footprint m"
proof
  fix a
  assume "a \<in> import_cells (pe_plt_module host memory m)"
  then obtain slots s where s: "pe_module_imports host memory m = Inr slots" "s \<in> set slots" "a = is_address s"
    by (auto simp: import_cells_def pe_plt_module_def split: sum.splits)
  from pe_module_imports_slots(2,3) [OF s(1,2)] show "a \<in> pe_footprint m" by (simp add: s(3) pe_footprint_def)
qed

lemma win_cooperative:
  assumes "win_laid_out w host memory ms" "m \<in> set ms"
  shows "cooperative (windows_sys w) (pm_base m) (pe_footprint m)"
proof -
  have "pe_footprint m \<subseteq> (\<Union>m \<in> set ms. pe_footprint m)" using assms(2) by blast
  then have "\<exists>dn st'. protector_make_writable (windows_sys w) slots st = (Inr dn, st')" if "set slots \<subseteq> pe_footprint m" for slots st
    using assms(1) that unfolding win_laid_out_def by (meson order_trans)
  then show ?thesis using assms by (auto simp: cooperative_def win_laid_out_def windows_sys_def)
qed

lemma win_loadable:
  assumes "win_laid_out w host memory ms" "loadable (win_plt w host memory uni) m"
  shows "m \<in> pe_plt_module host memory ` set ms"
proof -
  consider st xs where "plt_enumerate (win_plt w host memory uni) st = Inr xs" "m \<in> set xs"
    | a st where "plt_from_address (win_plt w host memory uni) a st = Inr m"
    using assms(2) unfolding loadable_def by blast
  then show ?thesis
  proof cases
    case (1 st xs)
    moreover have "pe_enumerate w host memory st = Inr ms" using assms(1) by (simp add: win_laid_out_def)
    ultimately show ?thesis by (auto simp: win_plt_def)
  next
    case (2 a st)
    then show ?thesis using assms(1) by (auto simp: win_plt_def win_laid_out_def)
  qed
qed

locale windows_process =
  fixes w :: "'o win32" and host :: nat and memory :: "nat \<Rightarrow> byte" and uni :: "nat \<Rightarrow> nat list" and ms :: "pe_module list"
  assumes laid_out: "win_laid_out w host memory ms"

sublocale windows_process \<subseteq> win_layout: loader_layout "win_plt w host memory uni"
proof
  have sys: "plt_sys (win_plt w host memory uni) = windows_sys w" by (simp add: win_plt_def)
  have base: "m_base (pe_plt_module host memory pm) = pm_base pm" for pm by (simp add: pe_plt_module_def)
  fix m n st ms'
  show "cooperative (plt_sys (win_plt w host memory uni)) (m_base m) (import_cells m)"
    if "loadable (win_plt w host memory uni) m"
    using win_loadable [OF laid_out that] cooperative_mono [OF win_cooperative [OF laid_out] pe_cells]
    by (auto simp: sys base)
  show "import_cells m \<inter> import_cells n = {}"
    if "loadable (win_plt w host memory uni) m" "loadable (win_plt w host memory uni) n" "m_base m \<noteq> m_base n"
  proof -
    from that obtain pm pn where e: "pm \<in> set ms" "m = pe_plt_module host memory pm" "pn \<in> set ms" "n = pe_plt_module host memory pn"
      using win_loadable [OF laid_out] by (meson imageE)
    have "pm \<noteq> pn" using e that(3) by auto
    then have "pe_footprint pm \<inter> pe_footprint pn = {}"
      using sorted_wrt_related [of "\<lambda>m n. pe_footprint m \<inter> pe_footprint n = {}" ms pm pn] laid_out e(1,3)
      by (auto simp: win_laid_out_def)
    then show ?thesis using pe_cells [of host memory pm] pe_cells [of host memory pn] e by blast
  qed
  show "distinct (map m_base ms')" if "plt_enumerate (win_plt w host memory uni) st = Inr ms'"
  proof -
    from that laid_out have "ms' = map (pe_plt_module host memory) ms" by (auto simp: win_plt_def win_laid_out_def)
    moreover have "map m_base (map (pe_plt_module host memory) ms) = map pm_base ms" by (simp add: base)
    ultimately show ?thesis using laid_out by (simp only: win_laid_out_def) 
  qed
qed

context windows_process
begin

lemmas win_undone = win_layout.install_undone

end

section \<open>Properties\<close>

text \<open>C6. On Windows an installation is undone completely, whatever the scope: with the images loaded at
  disjoint addresses and their pages patchable, a failed installation leaves every import cell as it
  was, and after a successful one any number of rescans may hook further modules: dropping the guard
  puts every cell back and frees the routing slot.  The imports are those that the PE parser finds in
  the images.\<close>

theorem win_teardown_restores_imports:
  assumes "install_with_namespace (win_plt w host memory uni) shim vfs ns sc aw ar wo = (r, wo')"
    and "d_active (w_disp wo) = None" and "win_laid_out w host memory ms"
  shows "case r of
      Inl _ \<Rightarrow> mem (w_proc wo') = mem (w_proc wo)
    | Inr token \<Rightarrow> \<forall>wo''. session (win_plt w host memory uni) shim token wo' wo'' \<longrightarrow>
        mem (w_proc (install_guard_drop (win_plt w host memory uni) token wo'')) = mem (w_proc wo)
        \<and> current_engine (w_disp (install_guard_drop (win_plt w host memory uni) token wo'')) = None"
proof -
  from assms(3) have "windows_process w host memory ms" by (rule windows_process.intro)
  then show ?thesis using assms(1,2) by (rule windows_process.win_undone)
qed

text \<open>The small image of \<open>Pe_Image\<close>, loaded in one page.\<close>

definition calm_win :: "unit win32" where
  "calm_win =
     \<lparr>w_dwPageSize = 4096, w_GetModuleHandleExW = (\<lambda>a _. (4096 \<le> a \<and> a < 4592, 4096)), w_GetModuleHandleW = (\<lambda>_ _. 4096),
      w_LoadLibraryW = (\<lambda>_ st. (4096, st)), w_GetModuleInformation = (\<lambda>h _. (h = 4096, 496)),
      w_GetModuleFileNameW = (\<lambda>_ _ _. (0, [])), w_EnumProcessModules = (\<lambda>n _. (True, take (n div 8) [4096], 8)),
      w_GetProcAddress = (\<lambda>_ _ _. Some 7), w_VirtualProtect = (\<lambda>_ _ _ st. (Some 2, st)),
      w_VirtualQuery = (\<lambda>a _. if 4096 \<le> a \<and> a < 4592 then Some \<lparr>mbi_allocation_base = 4096, mbi_state = MEM_COMMIT,
        mbi_type = MEM_IMAGE, mbi_protect = 2\<rparr> else None),
      w_GetLastError = (\<lambda>_. 0)\<rparr>"

definition calm_pe :: pe_module where
  "calm_pe = \<lparr>pm_base = 4096, pm_size = 496, pm_path = []\<rparr>"

abbreviation "calm_win_sys \<equiv> windows_sys calm_win"
abbreviation "calm_win_plt \<equiv> win_plt calm_win IMAGE_FILE_MACHINE_AMD64 (mi_memory sample_pe) (\<lambda>c. [c])"

lemma calm_pe_from_base: "pe_from_base calm_win IMAGE_FILE_MACHINE_AMD64 (mi_memory sample_pe) 4096 st = Inr calm_pe"
proof -
  have "pe_validate sample_pe = Inr ()"
    using parse_headers_at [OF sample_pe_fits sample_pe_headers] by (simp add: pe_validate_def)
  moreover have "module_path calm_win 4096 st = []"
    by (simp add: module_path_def module_path_loop.simps [of _ _ _ "replicate 260 0"] calm_win_def)
  moreover have "image_size calm_win 4096 st = Inr 496" by (simp add: image_size_def calm_win_def)
  ultimately show ?thesis by (simp add: pe_from_base_def from_loaded_sample calm_pe_def)
qed

lemma calm_pe_enumerate: "pe_enumerate calm_win IMAGE_FILE_MACHINE_AMD64 (mi_memory sample_pe) st = Inr [calm_pe]"
proof -
  have "win_enumerate calm_win st = Inr [4096]" by (simp add: win_enumerate_def calm_win_def HMODULE_SIZE_def U32_MAX_def)
  then show ?thesis by (simp add: pe_enumerate_def calm_pe_from_base)
qed

lemma calm_win_make_writable: "make_writable calm_win_sys 4096 st = (Inr 2, st)" "page_size calm_win_sys = 4096"
  by (simp_all add: windows_sys_def win_make_writable_def win_page_size_def calm_win_def)

lemma calm_win_laid_out: "win_laid_out calm_win IMAGE_FILE_MACHINE_AMD64 (mi_memory sample_pe) [calm_pe]"
proof -
  have fp: "pe_footprint calm_pe = {4096 ..< 4592}" "pm_base calm_pe = 4096" by (simp_all add: pe_footprint_def calm_pe_def)
  have "m = calm_pe" if "pe_from_address calm_win IMAGE_FILE_MACHINE_AMD64 (mi_memory sample_pe) a st = Inr m" for a st m
    using that calm_pe_from_base [of st]
    by (auto simp: pe_from_address_def module_from_address_def calm_win_def split: if_splits)
  moreover have "\<exists>dn st'. protector_make_writable calm_win_sys slots st = (Inr dn, st')" if "set slots \<subseteq> {4096 ..< 4592}" for slots st
  proof -
    have "\<forall>a \<in> set slots. 4096 \<le> a \<and> a + PTR_SIZE \<le> 4096 + 4096" using that by (auto simp: PTR_SIZE_def)
    then show ?thesis
      using slot_pages_one [of 4096 4096 slots] calm_win_make_writable by (auto simp: protector_make_writable_def U64_MAX_def)
  qed
  moreover have "win_module_still_loaded calm_win 4096 st" "\<forall>x \<in> {4096 ..< 4592}. win_slot_belongs calm_win x 4096 st" for st
    by (simp_all add: win_module_still_loaded_def win_slot_belongs_def calm_win_def)
  ultimately show ?thesis by (simp add: win_laid_out_def calm_pe_enumerate fp)
qed

interpretation calm_windows: windows_process calm_win IMAGE_FILE_MACHINE_AMD64 "mi_memory sample_pe" "\<lambda>c. [c]" "[calm_pe]"
  by (rule windows_process.intro) (rule calm_win_laid_out)

definition calm_win_install where
  "calm_win_install = install_with_namespace calm_win_plt (\<lambda>_. 99) 5 (from_root ''/v'') AllModules True True sdk_world"

definition calm_win_rescan where
  "calm_win_rescan = rescan calm_win_plt (\<lambda>_. 99) 1 (snd calm_win_install)"

abbreviation calm_slots :: "import_slot list" where
  "calm_slots \<equiv> map (import_slot_from_raw 4096)
     [pe_import ''KERNEL32.dll'' (Some (SymName ''ReadFile'')) Standard 4576, pe_import ''b'' (Some (SymOrdinal 7)) DelayLoad 4584]"

lemma calm_win_pending:
  "collect_hooks calm_win_sys nm calm_slots (windows_replacements (\<lambda>_. 99) True) [] p =
   (Inr [\<lparr>ph_library = ''KERNEL32.dll'', ph_symbol = SymName ''ReadFile'', ph_slot = 4576, ph_original = 7, ph_replacement = 99\<rparr>], p)"
proof -
  have "resolve_original calm_win_sys Standard lib (SymName x) v st = (Some 7, st)" for lib x v st
    by (simp add: windows_sys_def win_resolve_original_def calm_win_def resolve_export_def proc_address_def)
  moreover have "eq_ignore_ascii_case ''KERNEL32.dll'' ''KERNEL32.dll''" "\<not> eq_ignore_ascii_case ''b'' ''KERNEL32.dll''" by code_simp+
  ultimately show ?thesis
    by (simp add: windows_replacements_def windows_loader_sym_def windows_sym_ALL_def optional_def by_name_def match_replacement_def
        library_matches_def import_slot_from_raw_def pe_import_def slot_load_def)
qed

lemma calm_win_apply:
  "apply_patches calm_win_sys [(4576, 99)] p = (Inr [mem p 4576], p\<lparr>mem := (mem p)(4576 := 99)\<rparr>)"
proof -
  have "slot_pages 4096 [4576] = [4096]"
    by (simp add: slot_pages_def page_of_def span_pages.simps push_new_def PTR_SIZE_def sat_add_def U64_MAX_def)
  moreover have "restore_protection calm_win_sys page v st = (Inr (), st)" for page v st
    by (simp add: windows_sys_def win_restore_protection_def calm_win_def)
  ultimately show ?thesis
    by (simp add: apply_patches_def Let_def protector_make_writable_def calm_win_make_writable protector_restore_def
        result_of_def slot_swap_def)
qed

lemma calm_win_plt_install:
  obtains g where "plt_install calm_win_sys nm b (Inr calm_slots) (windows_replacements (\<lambda>_. 99) True) p =
    (Inr g, p\<lparr>mem := (mem p)(4576 := 99)\<rparr>)"
  unfolding plt_install_def sum.case calm_win_pending by (simp add: calm_win_apply)

lemma calm_win_install_result: "fst calm_win_install = Inr 1" "mem (w_proc (snd calm_win_install)) 4576 = 99"
proof -
  let ?m = "pe_plt_module IMAGE_FILE_MACHINE_AMD64 (mi_memory sample_pe) calm_pe"
  have r: "resolve_modules calm_win_plt AllModules st = Inr [?m]" for st
    by (simp add: resolve_modules_def win_plt_def calm_pe_enumerate)
  obtain d where d: "try_activate e (w_disp sdk_world) = (Some 1, d e)" for e
    by (auto simp: sdk_world_def dispatch_init_def try_activate_def Let_def)
  have m: "m_imports ?m = Inr calm_slots"
    using sample_pe_imports unfolding sample_pe_list
    by (simp add: pe_plt_module_def pe_module_imports_def calm_pe_def from_loaded_sample)
  have p: "plt_sys calm_win_plt = calm_win_sys" "plt_replacements calm_win_plt = windows_replacements"
    by (simp_all add: win_plt_def)
  obtain g where "plt_install calm_win_sys (m_name ?m) (m_base ?m) (Inr calm_slots) (windows_replacements (\<lambda>_. 99) True) (w_proc sdk_world) =
    (Inr g, (w_proc sdk_world)\<lparr>mem := (mem (w_proc sdk_world))(4576 := 99)\<rparr>)"
    by (rule calm_win_plt_install)
  then have "plt_install calm_win_sys (m_name ?m) (m_base ?m) (m_imports ?m) (windows_replacements (\<lambda>_. 99) True) (w_proc sdk_world) =
    (Inr g, (w_proc sdk_world)\<lparr>mem := (mem (w_proc sdk_world))(4576 := 99)\<rparr>)" by (simp only: m)
  then show "fst calm_win_install = Inr 1" "mem (w_proc (snd calm_win_install)) 4576 = 99"
    unfolding calm_win_install_def install_with_namespace_def by (simp_all add: r d p Let_def)
qed

theorem win_teardown_restores_imports_witness:
  "mem (w_proc (snd calm_win_install)) 4576 = 99 \<and>
   mem (w_proc (install_guard_drop calm_win_plt 1 (snd calm_win_rescan))) = mem (w_proc sdk_world)"
proof -
  have i: "install_with_namespace calm_win_plt (\<lambda>_. 99) 5 (from_root ''/v'') AllModules True True sdk_world =
      (Inr 1, snd calm_win_install)"
    using calm_win_install_result(1) unfolding calm_win_install_def by (metis prod.collapse)
  have a: "d_active (w_disp sdk_world) = None" by (simp add: sdk_world_def dispatch_init_def)
  have "session calm_win_plt (\<lambda>_. 99) 1 (snd calm_win_install) (snd calm_win_rescan)"
    unfolding calm_win_rescan_def by (rule session.scan [OF session.start prod.collapse [symmetric]])
  with win_teardown_restores_imports [OF i a calm_win_laid_out] calm_win_install_result(2) show ?thesis by simp
qed

end
