(* ===== verification/Shim_Tables.thy ===== *)
theory Shim_Tables
  imports Sym_Tables
begin

text \<open>
  Which function replaces which symbol: \<open>shim_address\<close> of \<^verbatim>\<open>shims/unix.rs\<close>, for Linux and for Darwin, and of
  \<^verbatim>\<open>shims/windows.rs\<close>, with \<open>trampoline_address\<close> of \<^verbatim>\<open>shims/unix/trampolines.rs\<close>.  A function stands for its
  address under the name it has in the source.
\<close>

section \<open>The tables\<close>

datatype shim_fn = Shim string | Trampoline string

definition linux_trampoline_address :: "sym \<Rightarrow> shim_fn" where
  "linux_trampoline_address s =
     (case s of
        Open64 \<Rightarrow> Trampoline ''hookfs_open64_trampoline''
      | Openat \<Rightarrow> Trampoline ''hookfs_openat_trampoline''
      | _ \<Rightarrow> Trampoline ''hookfs_open_trampoline'')"

definition darwin_trampoline_address :: "darwin_sym \<Rightarrow> shim_fn" where
  "darwin_trampoline_address s =
     (case s of D_Openat \<Rightarrow> Trampoline ''hookfs_openat_trampoline'' | _ \<Rightarrow> Trampoline ''hookfs_open_trampoline'')"

primrec linux_shim_address :: "sym \<Rightarrow> shim_fn" where
  "linux_shim_address Open = linux_trampoline_address Open"
| "linux_shim_address Open64 = linux_trampoline_address Open64"
| "linux_shim_address Openat = linux_trampoline_address Openat"
| "linux_shim_address Fopen = Shim ''shim_fopen''"
| "linux_shim_address Fopen64 = Shim ''shim_fopen64''"
| "linux_shim_address Read = Shim ''shim_read''"
| "linux_shim_address Readv = Shim ''shim_readv''"
| "linux_shim_address Pread = Shim ''shim_pread''"
| "linux_shim_address Lseek = Shim ''shim_lseek''"
| "linux_shim_address Lseek64 = Shim ''shim_lseek64''"
| "linux_shim_address Close = Shim ''shim_close''"
| "linux_shim_address Write = Shim ''shim_write''"
| "linux_shim_address Writev = Shim ''shim_writev''"
| "linux_shim_address Pwrite = Shim ''shim_pwrite''"
| "linux_shim_address Ftruncate = Shim ''shim_ftruncate''"
| "linux_shim_address Ftruncate64 = Shim ''shim_ftruncate64''"
| "linux_shim_address Truncate = Shim ''shim_truncate''"
| "linux_shim_address Fsync = Shim ''shim_fsync''"
| "linux_shim_address Mkdir = Shim ''shim_mkdir''"
| "linux_shim_address Remove = Shim ''shim_remove''"
| "linux_shim_address Rename = Shim ''shim_rename''"
| "linux_shim_address Unlink = Shim ''shim_unlink''"
| "linux_shim_address Link = Shim ''shim_link''"
| "linux_shim_address Symlink = Shim ''shim_symlink''"
| "linux_shim_address Sendfile = Shim ''shim_sendfile''"
| "linux_shim_address Fchmod = Shim ''shim_fchmod''"
| "linux_shim_address Fchmodat = Shim ''shim_fchmodat''"
| "linux_shim_address Utimensat = Shim ''shim_utimensat''"
| "linux_shim_address Xstat = Shim ''shim_xstat''"
| "linux_shim_address Fxstat = Shim ''shim_fxstat''"
| "linux_shim_address Lxstat = Shim ''shim_lxstat''"
| "linux_shim_address Xstat64 = Shim ''shim_xstat64''"
| "linux_shim_address Fxstat64 = Shim ''shim_fxstat64''"
| "linux_shim_address Lxstat64 = Shim ''shim_lxstat64''"
| "linux_shim_address Stat = Shim ''shim_stat''"
| "linux_shim_address Fstat = Shim ''shim_fstat''"
| "linux_shim_address Lstat = Shim ''shim_lstat''"
| "linux_shim_address Fstatat = Shim ''shim_fstatat''"
| "linux_shim_address Statx = Shim ''shim_statx''"
| "linux_shim_address Statvfs = Shim ''shim_statvfs''"
| "linux_shim_address Fstatvfs = Shim ''shim_fstatvfs''"
| "linux_shim_address Opendir = Shim ''shim_opendir''"
| "linux_shim_address Fdopendir = Shim ''shim_fdopendir''"
| "linux_shim_address Readdir = Shim ''shim_readdir''"
| "linux_shim_address Readdir64 = Shim ''shim_readdir64''"
| "linux_shim_address Closedir = Shim ''shim_closedir''"
| "linux_shim_address Realpath = Shim ''shim_realpath''"
| "linux_shim_address Access = Shim ''shim_access''"
| "linux_shim_address Faccessat = Shim ''shim_faccessat''"
| "linux_shim_address Getcwd = Shim ''shim_getcwd''"
| "linux_shim_address Chdir = Shim ''shim_chdir''"
| "linux_shim_address Readlink = Shim ''shim_readlink''"
| "linux_shim_address Dlopen = Shim ''shim_dlopen''"
| "linux_shim_address Dlclose = Shim ''shim_dlclose''"

primrec darwin_shim_address :: "darwin_sym \<Rightarrow> shim_fn" where
  "darwin_shim_address D_Open = darwin_trampoline_address D_Open"
| "darwin_shim_address D_Openat = darwin_trampoline_address D_Openat"
| "darwin_shim_address D_Fopen = Shim ''shim_fopen''"
| "darwin_shim_address D_Read = Shim ''shim_read''"
| "darwin_shim_address D_Readv = Shim ''shim_readv''"
| "darwin_shim_address D_Pread = Shim ''shim_pread''"
| "darwin_shim_address D_Lseek = Shim ''shim_lseek''"
| "darwin_shim_address D_Close = Shim ''shim_close''"
| "darwin_shim_address D_Write = Shim ''shim_write''"
| "darwin_shim_address D_Writev = Shim ''shim_writev''"
| "darwin_shim_address D_Pwrite = Shim ''shim_pwrite''"
| "darwin_shim_address D_Ftruncate = Shim ''shim_ftruncate''"
| "darwin_shim_address D_Truncate = Shim ''shim_truncate''"
| "darwin_shim_address D_Fsync = Shim ''shim_fsync''"
| "darwin_shim_address D_Mkdir = Shim ''shim_mkdir''"
| "darwin_shim_address D_Remove = Shim ''shim_remove''"
| "darwin_shim_address D_Rename = Shim ''shim_rename''"
| "darwin_shim_address D_Unlink = Shim ''shim_unlink''"
| "darwin_shim_address D_Link = Shim ''shim_link''"
| "darwin_shim_address D_Symlink = Shim ''shim_symlink''"
| "darwin_shim_address D_Fchmod = Shim ''shim_fchmod''"
| "darwin_shim_address D_Fchmodat = Shim ''shim_fchmodat''"
| "darwin_shim_address D_Utimensat = Shim ''shim_utimensat''"
| "darwin_shim_address D_Stat = Shim ''shim_stat''"
| "darwin_shim_address D_Fstat = Shim ''shim_fstat''"
| "darwin_shim_address D_Lstat = Shim ''shim_lstat''"
| "darwin_shim_address D_Fstatat = Shim ''shim_fstatat''"
| "darwin_shim_address D_Statvfs = Shim ''shim_statvfs''"
| "darwin_shim_address D_Fstatvfs = Shim ''shim_fstatvfs''"
| "darwin_shim_address D_Opendir = Shim ''shim_opendir''"
| "darwin_shim_address D_Fdopendir = Shim ''shim_fdopendir''"
| "darwin_shim_address D_Readdir = Shim ''shim_readdir''"
| "darwin_shim_address D_Closedir = Shim ''shim_closedir''"
| "darwin_shim_address D_Getdirentries64 = Shim ''shim_getdirentries64''"
| "darwin_shim_address D_Realpath = Shim ''shim_realpath''"
| "darwin_shim_address D_Access = Shim ''shim_access''"
| "darwin_shim_address D_Faccessat = Shim ''shim_faccessat''"
| "darwin_shim_address D_Getcwd = Shim ''shim_getcwd''"
| "darwin_shim_address D_Chdir = Shim ''shim_chdir''"
| "darwin_shim_address D_Readlink = Shim ''shim_readlink''"
| "darwin_shim_address D_Dlopen = Shim ''shim_dlopen''"
| "darwin_shim_address D_Dlclose = Shim ''shim_dlclose''"

primrec windows_shim_address :: "windows_sym \<Rightarrow> shim_fn" where
  "windows_shim_address W_CreateFileW = Shim ''shim_CreateFileW''"
| "windows_shim_address W_CreateFileA = Shim ''shim_CreateFileA''"
| "windows_shim_address W_CreateFile2 = Shim ''shim_CreateFile2''"
| "windows_shim_address W_ReadFile = Shim ''shim_ReadFile''"
| "windows_shim_address W_ReadFileEx = Shim ''shim_ReadFileEx''"
| "windows_shim_address W_WriteFile = Shim ''shim_WriteFile''"
| "windows_shim_address W_WriteFileEx = Shim ''shim_WriteFileEx''"
| "windows_shim_address W_SetFilePointer = Shim ''shim_SetFilePointer''"
| "windows_shim_address W_SetFilePointerEx = Shim ''shim_SetFilePointerEx''"
| "windows_shim_address W_GetFileSize = Shim ''shim_GetFileSize''"
| "windows_shim_address W_GetFileSizeEx = Shim ''shim_GetFileSizeEx''"
| "windows_shim_address W_GetFileType = Shim ''shim_GetFileType''"
| "windows_shim_address W_GetFileInformationByHandle = Shim ''shim_GetFileInformationByHandle''"
| "windows_shim_address W_GetFileInformationByHandleEx = Shim ''shim_GetFileInformationByHandleEx''"
| "windows_shim_address W_FlushFileBuffers = Shim ''shim_FlushFileBuffers''"
| "windows_shim_address W_SetEndOfFile = Shim ''shim_SetEndOfFile''"
| "windows_shim_address W_CloseHandle = Shim ''shim_CloseHandle''"
| "windows_shim_address W_FindFirstFileExW = Shim ''shim_FindFirstFileExW''"
| "windows_shim_address W_FindFirstFileW = Shim ''shim_FindFirstFileW''"
| "windows_shim_address W_FindNextFileW = Shim ''shim_FindNextFileW''"
| "windows_shim_address W_FindClose = Shim ''shim_FindClose''"
| "windows_shim_address W_GetFileAttributesW = Shim ''shim_GetFileAttributesW''"
| "windows_shim_address W_GetFileAttributesExW = Shim ''shim_GetFileAttributesExW''"
| "windows_shim_address W_GetFullPathNameW = Shim ''shim_GetFullPathNameW''"
| "windows_shim_address W_GetFullPathNameA = Shim ''shim_GetFullPathNameA''"
| "windows_shim_address W_GetCurrentDirectoryW = Shim ''shim_GetCurrentDirectoryW''"
| "windows_shim_address W_DeleteFileW = Shim ''shim_DeleteFileW''"
| "windows_shim_address W_MoveFileExW = Shim ''shim_MoveFileExW''"
| "windows_shim_address W_GetDiskFreeSpaceA = Shim ''shim_GetDiskFreeSpaceA''"
| "windows_shim_address W_GetDriveTypeW = Shim ''shim_GetDriveTypeW''"
| "windows_shim_address W_CreateDirectoryW = Shim ''shim_CreateDirectoryW''"
| "windows_shim_address W_LoadLibraryExW = Shim ''shim_LoadLibraryExW''"
| "windows_shim_address W_LoadLibraryA = Shim ''shim_LoadLibraryA''"

section \<open>Properties\<close>

text \<open>The shim that the name of a symbol calls for.\<close>

definition named_shim :: "string \<Rightarrow> shim_fn" where
  "named_shim name = Shim (''shim_'' @ dropWhile (\<lambda>c. c = CHR ''_'') name)"

definition named_trampoline :: "string \<Rightarrow> shim_fn" where
  "named_trampoline name = Trampoline (''hookfs_'' @ name @ ''_trampoline'')"

text \<open>C37. On every platform each symbol of the table is replaced by the function of its own name, the variadic
  open family by its trampolines: no entry of the three address tables is missing or crossed, so a call
  of one function never runs the shim of another.\<close>

theorem symbols_are_wired_to_their_shims:
  "linux_shim_address s = (if s \<in> {Open, Open64, Openat} then named_trampoline (sym_name s) else named_shim (sym_name s)) \<and>
   darwin_shim_address d = (if d \<in> {D_Open, D_Openat} then named_trampoline (darwin_sym_name d) else named_shim (darwin_sym_name d)) \<and>
   windows_shim_address w = named_shim (windows_sym_name w) \<and>
   inj linux_shim_address \<and> inj darwin_shim_address \<and> inj windows_shim_address"
proof -
  have l: "linux_shim_address s = (if s \<in> {Open, Open64, Openat} then named_trampoline (sym_name s) else named_shim (sym_name s))" for s
    by (cases s) (simp_all add: named_shim_def named_trampoline_def linux_trampoline_address_def)
  have d: "darwin_shim_address d = (if d \<in> {D_Open, D_Openat} then named_trampoline (darwin_sym_name d) else named_shim (darwin_sym_name d))" for d
    by (cases d) (simp_all add: named_shim_def named_trampoline_def darwin_trampoline_address_def)
  have w: "windows_shim_address w = named_shim (windows_sym_name w)" for w
    by (cases w) (simp_all add: named_shim_def)
  have distinct: "distinct (map linux_shim_address sym_ALL)" "distinct (map darwin_shim_address darwin_sym_ALL)"
    "distinct (map windows_shim_address windows_sym_ALL)"
    by (simp_all add: sym_ALL_def darwin_sym_ALL_def windows_sym_ALL_def linux_trampoline_address_def darwin_trampoline_address_def)
  have "UNIV = set sym_ALL" "UNIV = set darwin_sym_ALL" "UNIV = set windows_sym_ALL"
    using linux_syms.complete darwin_syms.complete windows_syms.complete by auto
  with distinct l d w show ?thesis by (metis distinct_map)
qed

end
