(* ===== verification/Darwin_Shims.thy ===== *)
theory Darwin_Shims
  imports Unix_Shims
begin

text \<open>
  \<^verbatim>\<open>crates/hookfs/src/shims/unix/macos.rs\<close>, and the Darwin half of \<open>fopen_virtual_dispatch\<close> and \<open>fill_dirent\<close> in
  \<^verbatim>\<open>shims/unix.rs\<close>: what differs from Linux in the shims.  A virtual \<open>FILE*\<close> is made with \<open>funopen\<close>, whose
  callbacks count in \<^verbatim>\<open>int\<close>; a directory cannot be read through a carrier descriptor.  Everything else is
  the shared code of \<open>Unix_Base\<close>, \<open>Unix_Files\<close> and \<open>Unix_Paths\<close>.
\<close>

section \<open>The C library\<close>

text \<open>\<open>funopen\<close> takes the cookie and whether a write callback is given, and answers the stream, 0 on failure.\<close>

record 'w darwin_libc =
  dl_funopen :: "nat \<Rightarrow> bool \<Rightarrow> 'w machine \<Rightarrow> nat \<times> 'w machine"
  dl_fopen :: "string option \<Rightarrow> string option \<Rightarrow> 'w machine \<Rightarrow> int \<times> 'w machine"
  dl_getdirentries64 :: "int \<Rightarrow> nat \<Rightarrow> nat \<Rightarrow> nat \<Rightarrow> 'w machine \<Rightarrow> int \<times> 'w machine"

definition C_INT_MAX :: int where "C_INT_MAX = 2 ^ 31 - 1"

definition c_int_of :: "int \<Rightarrow> int" where
  "c_int_of n = (if - (2 ^ 31) \<le> n \<and> n \<le> C_INT_MAX then n else C_INT_MAX)"

definition on_machine :: "('w machine \<Rightarrow> int \<times> 'w machine) \<Rightarrow> ('v, 'h, 'c, 'w) act" where
  "on_machine f t = (case f (t_mach t) of (r, m) \<Rightarrow> (r, t\<lparr>t_mach := m\<rparr>))"

section \<open>The callbacks of a stream\<close>

definition funopen_read ::
  "('v, 'h) vfs_ops \<Rightarrow> nat \<Rightarrow> nat \<Rightarrow> int \<Rightarrow> 'v \<Rightarrow> ('v, 'h, 'c, 'w) thread \<Rightarrow> int \<times> 'v \<times> ('v, 'h, 'c, 'w) thread" where
  "funopen_read ops cookie buf nbytes v t =
     (let len = (if nbytes < 0 then 0 else nat nbytes) in
      case cookie_read_into ops cookie buf len v t of (n, v', t') \<Rightarrow> (c_int_of n, v', t'))"

definition funopen_write ::
  "('v, 'h) vfs_ops \<Rightarrow> nat \<Rightarrow> nat \<Rightarrow> int \<Rightarrow> 'v \<Rightarrow> ('v, 'h, 'c, 'w) thread \<Rightarrow> int \<times> 'v \<times> ('v, 'h, 'c, 'w) thread" where
  "funopen_write ops cookie buf nbytes v t =
     (let len = (if nbytes < 0 then 0 else nat nbytes) in
      case cookie_write_from ops cookie buf len v t of (n, v', t') \<Rightarrow> (c_int_of n, v', t'))"

definition funopen_seek ::
  "('v, 'h) vfs_ops \<Rightarrow> nat \<Rightarrow> int \<Rightarrow> int \<Rightarrow> 'v \<Rightarrow> ('v, 'h, 'c, 'w) thread \<Rightarrow> int \<times> 'v \<times> ('v, 'h, 'c, 'w) thread" where
  "funopen_seek ops cookie offset whence v t =
     (case cookie_seek_to ops cookie offset whence v t of
        (r, v', t') \<Rightarrow> (case r of Some pos \<Rightarrow> pos | None \<Rightarrow> - 1, v', t'))"

definition funopen_close ::
  "('v, 'h) vfs_ops \<Rightarrow> nat \<Rightarrow> 'v \<Rightarrow> ('v, 'h, 'c, 'w) thread \<Rightarrow> int \<times> 'v \<times> ('v, 'h, 'c, 'w) thread" where
  "funopen_close ops cookie v t = (case cookie_close_state ops cookie v t of (v', t') \<Rightarrow> (0, v', t'))"

section \<open>The shims\<close>

definition darwin_fopen_virtual ::
  "('v, 'h) vfs_ops \<Rightarrow> 'w darwin_libc \<Rightarrow> string option \<Rightarrow> ('v, 'h) engine \<Rightarrow> path \<Rightarrow> ('v, 'h, 'c, 'w) act" where
  "darwin_fopen_virtual ops dl mode e path t =
     (case prepare_cookie ops e path mode t of
        (None, t1) \<Rightarrow> (0, t1)
      | (Some cookie, t1) \<Rightarrow>
          (case map_of (t_cookies t1) cookie of
             None \<Rightarrow> (0, t1)
           | Some state \<Rightarrow>
               (case dl_funopen dl cookie (ck_writable state) (t_mach t1) of
                  (file, m) \<Rightarrow>
                    let t2 = t1\<lparr>t_mach := m\<rparr> in
                    if file = 0 then
                      (case current_engine (t_disp t2) of
                         None \<Rightarrow> (0, set_errno EIO t2)
                       | Some e2 \<Rightarrow>
                           (case cookie_close_state ops cookie (eng_vfs e2) t2 of
                              (v, t3) \<Rightarrow> (0, set_errno EIO (put_vfs e2 v t3))))
                    else (int file, t2))))"

definition darwin_shim_fopen ::
  "('v, 'h) vfs_ops \<Rightarrow> 'w darwin_libc \<Rightarrow> string option \<Rightarrow> string option \<Rightarrow> ('v, 'h, 'c, 'w) act" where
  "darwin_shim_fopen ops dl path mode = shim 0
     (path_routed (on_machine (dl_fopen dl path mode)) path (fail ENOENT 0) (darwin_fopen_virtual ops dl mode))"

definition shim_getdirentries64 :: "'w darwin_libc \<Rightarrow> int \<Rightarrow> nat \<Rightarrow> nat \<Rightarrow> nat \<Rightarrow> ('v, 'h, 'c, 'w) act" where
  "shim_getdirentries64 dl fd buf bufsize basep = shim (- 1)
     (fd_routed (on_machine (dl_getdirentries64 dl fd buf bufsize basep)) fd (\<lambda>e file. fail ENOTDIR (- 1)))"

text \<open>The Darwin \<open>dirent\<close> has the offset in \<open>d_seekoff\<close>, kept here in the place of \<open>d_off\<close>, and the length of the
  name.\<close>

record darwin_dirent = dirent_rec +
  d_namlen :: nat

definition darwin_fill_dirent :: "'w libc \<Rightarrow> vfs_dir_entry \<Rightarrow> darwin_dirent \<Rightarrow> nat \<Rightarrow> nat \<Rightarrow> darwin_dirent" where
  "darwin_fill_dirent lc entry slot size_of_dirent index =
     (case write_dname (d_name slot) (de_name entry) of
        (name, written) \<Rightarrow>
          slot\<lparr>d_ino := max (stable_ino lc (de_name entry)) 1,
               d_reclen := size_of_dirent,
               d_type := (if md_is_dir (de_metadata entry) then 4 else 8),
               d_name := name,
               d_off := index + 1,
               d_namlen := min written 65535\<rparr>)"

section \<open>The same streams as on Linux\<close>

text \<open>\<open>fopen\<close> serves a virtual path as on Linux, if the C library makes a stream from a cookie in the same way.\<close>

lemma darwin_fopen_virtual_eq:
  assumes "\<And>cookie writable m. lc_fopencookie lc cookie mode writable m = dl_funopen dl cookie writable m"
  shows "darwin_fopen_virtual ops dl mode = fopen_virtual ops lc mode"
  by (intro ext) (unfold darwin_fopen_virtual_def fopen_virtual_def assms, rule refl)

lemma cookie_read_into_bound:
  assumes "reads_fit ops" "cookie_read_into ops cookie buf len v t = (n, v', t')"
  shows "- 1 \<le> n \<and> n \<le> int len"
  using assms(2) os_read_fits [OF assms(1)]
  by (fastforce simp: cookie_read_into_def clamp_i64_def I64_MAX_def Let_def split: if_splits option.splits prod.splits sum.splits)

text \<open>Counting in \<^verbatim>\<open>int\<close> loses nothing: what the callback reports is what was read.\<close>

lemma funopen_read_eq:
  assumes "reads_fit ops" "0 \<le> nbytes" "nbytes \<le> C_INT_MAX"
  shows "funopen_read ops cookie buf nbytes = cookie_read ops cookie buf (nat nbytes)"
proof (intro ext)
  fix v t
  obtain n v' t' where r: "cookie_read_into ops cookie buf (nat nbytes) v t = (n, v', t')" by (metis prod_cases3)
  have "c_int_of n = n" using cookie_read_into_bound [OF assms(1) r] assms(2,3) by (simp add: c_int_of_def)
  then show "funopen_read ops cookie buf nbytes v t = cookie_read ops cookie buf (nat nbytes) v t"
    using r assms(2) by (simp add: funopen_read_def cookie_read_def)
qed

lemma funopen_seek_eq:
  "funopen_seek ops cookie offset whence v t =
     (case cookie_seek ops cookie (Some offset) whence v t of
        ((r, pos), v', t') \<Rightarrow> (if r = 0 then the pos else - 1, v', t'))"
  by (auto simp: funopen_seek_def cookie_seek_def split: prod.splits option.splits)

lemma getdirentries_on_carrier:
  assumes "\<not> t_in_hook t" "virtual_fd t fd = Some file"
  shows "shim_getdirentries64 dl fd buf bufsize basep t = (- 1, set_errno ENOTDIR t)"
  unfolding shim_getdirentries64_def shim_eq by (rule fd_routed_fail [OF assms]) simp

end
