(* ===== verification/Spec2Isabelle.thy ===== *)
theory Spec2Isabelle
  imports Unix_Memory Linux_Install Memory_Rename Memory_Machine Overlay Pe_Module Win_Shims Darwin_Install Win_Install
  Shim_Tables Darwin_Shims
begin

text \<open>
  A verification of \<^verbatim>\<open>hookfs\<close>, a virtual file system that lives inside a process.  A program mounts
  streams in memory; the library rewrites the import tables of loaded modules so that their file
  calls reach it first; calls on paths of the virtual tree are answered from memory, all others are
  passed on to the operating system.

  \<^bold>\<open>The program.\<close>  The crate \<^verbatim>\<open>plthook\<close> finds the import slots of a loaded module (\<^verbatim>\<open>elf.rs\<close>, \<^verbatim>\<open>module_elf.rs\<close>,
  \<^verbatim>\<open>dlpi.rs\<close>, \<^verbatim>\<open>pe.rs\<close>, \<^verbatim>\<open>module.rs\<close>, \<^verbatim>\<open>macho.rs\<close>, \<^verbatim>\<open>module_macho.rs\<close>) and rebinds them in one transaction over page
  protections (\<^verbatim>\<open>slot.rs\<close>, \<^verbatim>\<open>sys_unix.rs\<close>, \<^verbatim>\<open>sys.rs\<close>, \<^verbatim>\<open>sys_macos.rs\<close>).  The crate
  \<^verbatim>\<open>hookfs\<close> decides which paths are virtual (\<^verbatim>\<open>namespace.rs\<close>, \<^verbatim>\<open>router.rs\<close>), serves them (\<^verbatim>\<open>vfs.rs\<close>,
  \<^verbatim>\<open>providers/memory.rs\<close>, \<^verbatim>\<open>providers/overlay.rs\<close>), keeps the open files (\<^verbatim>\<open>registry.rs\<close>), implements the
  replaced functions (\<^verbatim>\<open>shims/unix.rs\<close>, \<^verbatim>\<open>shims/unix/macos.rs\<close>, \<^verbatim>\<open>shims/windows.rs\<close>), and installs and removes everything (\<^verbatim>\<open>dispatch.rs\<close>,
  \<^verbatim>\<open>install.rs\<close>, \<^verbatim>\<open>mount.rs\<close>).

  \<^bold>\<open>Theories.\<close>
  \<^item> \<open>Hookfs_Prelude\<close>: fact collections, machine integers, I/O errors, byte buffers, strings and
    association lists.  \<open>Std_Path\<close>: the part of Rust's \<^verbatim>\<open>std::path\<close> that is used.
  \<^item> \<open>Namespace\<close> (\<^verbatim>\<open>namespace.rs\<close>): keys of paths, membership, lexical safety, C strings.  A key is the
    canonical rendering of the components, and membership is a prefix of components.
  \<^item> \<open>Vfs\<close> (\<^verbatim>\<open>vfs.rs\<close>): the provider trait as a record of operations on a state, metadata, open
    options, shared sources with their cursors; the locale \<open>byte_stream\<close>.
  \<^item> \<open>Mem_File\<close>, \<open>Memory_Fs\<close> (\<^verbatim>\<open>providers/memory.rs\<close>): the volume, files, handles and the node table,
    the files in an explicit store with reference counts.  \<open>Memory_Accounting\<close> and \<open>Memory_Machine\<close>: every
    operation keeps the charge of the volume equal to the bytes of the live files, in every state a client
    can reach.  \<open>Memory_Tree\<close>, \<open>Memory_Rename\<close>: the node table as a tree, its invariant, listing and
    renaming.
  \<^item> \<open>Overlay\<close> (\<^verbatim>\<open>providers/overlay.rs\<close>): providers in layers; the locale \<open>query_provider\<close>.
  \<^item> \<open>Registry\<close>, \<open>Router\<close> (\<^verbatim>\<open>registry.rs\<close>, \<^verbatim>\<open>router.rs\<close>): open files by handle (the locale \<open>handle_table\<close>)
    and the decision between virtual, rejected and real.
  \<^item> \<open>Mount\<close> (\<^verbatim>\<open>mount.rs\<close>): mounting under the reserved directory and the guard that removes it.
  \<^item> \<open>Hookfs_Error\<close> (both \<^verbatim>\<open>error.rs\<close>, \<^verbatim>\<open>types.rs\<close>, \<^verbatim>\<open>import.rs\<close>): errors, symbols, imports.
  \<^item> \<open>Plt_Slot\<close> (\<^verbatim>\<open>slot.rs\<close>): the transaction, over any platform (the locales \<open>page_protection\<close> and
    \<open>stable_pages\<close>).  \<open>Sys_Unix\<close> (\<^verbatim>\<open>sys_unix.rs\<close>): the Linux platform, over any kernel that satisfies the
    locale \<open>linux_kernel\<close>, which a concrete page table is shown to do.
  \<^item> \<open>Elf_Parser\<close> (\<^verbatim>\<open>elf.rs\<close>, \<^verbatim>\<open>arch/mod.rs\<close>), \<open>Dlpi\<close> (\<^verbatim>\<open>dlpi.rs\<close>), \<open>Elf_Module\<close> (\<^verbatim>\<open>module_elf.rs\<close>): the
    import parser over any view of an image (the locale \<open>bounded_view\<close>) and the view of a loaded object.
    \<open>Elf_Encoding\<close> and \<open>Elf_Image\<close> give the file format as an encoder and prove the parser against it.
  \<^item> \<open>Sym_Tables\<close>, \<open>Dispatch\<close> (\<^verbatim>\<open>dispatch.rs\<close>): the tables of functions (the locale \<open>sym_table\<close>), the
    active installation, reentrancy.  \<open>Install\<close> (\<^verbatim>\<open>install.rs\<close>): installation, rollback, rescan and teardown
    over any target; the locale \<open>loader_layout\<close> says what it needs of a process and shows that any
    sequence of rescans is undone.  \<open>Linux_Install\<close>, \<open>Darwin_Install\<close> and \<open>Win_Install\<close> put the modules, the platform
    layer and the symbol table of each system in its place.  \<open>Shim_Tables\<close>: which function replaces which
    symbol.
  \<^item> \<open>Unix_Base\<close>, \<open>Unix_Files\<close>, \<open>Unix_Paths\<close> (\<^verbatim>\<open>shims/unix.rs\<close>, \<^verbatim>\<open>shims/unix/trampolines.rs\<close>): every Linux
    entry point as an action on the state of the calling thread; \<open>Unix_Shims\<close> shows that calls outside the
    virtual tree are unchanged and calls inside never leave it, \<open>Unix_Memory\<close> follows whole sequences of
    calls down to the memory provider.  \<open>Darwin_Shims\<close> (\<^verbatim>\<open>shims/unix/macos.rs\<close>): what differs on Darwin.
  \<^item> \<open>Pe_Parser\<close> (\<^verbatim>\<open>pe.rs\<close>), \<open>Pe_Module\<close> (\<^verbatim>\<open>module.rs\<close>): the import parser over a mapped PE image and its
    modules; \<open>Pe_Image\<close> gives the format as an encoder and proves the parser against it.  \<open>Sys_Windows\<close>
    (\<^verbatim>\<open>sys.rs\<close>): the Windows platform, over any system that satisfies the locale \<open>windows_kernel\<close>.
  \<^item> \<open>Macho_Parser\<close> (\<^verbatim>\<open>macho.rs\<close>), \<open>Macho_Module\<close> (\<^verbatim>\<open>module_macho.rs\<close>): the import parser over any view of a
    Mach-O image, and the modules of a process with the view of a loaded image.  \<open>Sys_Darwin\<close>
    (\<^verbatim>\<open>sys_macos.rs\<close>): the Darwin platform, over any system that satisfies the locale \<open>darwin_kernel\<close>.
    \<open>Macho_Safety\<close>: what holds of arbitrary bytes (the locale \<open>macho_slots\<close>), the merge of the sources of imports against a
    reference, and that the two walks over load commands agree.  \<open>Macho_Binds\<close>, \<open>Macho_Image\<close> and
    \<open>Macho_Chains\<close> give the bind opcodes, the load commands with their tables, and the chained fixups as encoders
    and prove the parser against them; \<open>Macho_Demo\<close> has a concrete image of each kind, \<open>Macho_Props\<close> puts this
    together for modules of a process.
  \<^item> \<open>Wide_String\<close>, \<open>Win_Path\<close>: UTF-8 and UTF-16, and \<^verbatim>\<open>std::path\<close> on Windows.  \<open>Win_Namespace\<close>, \<open>Win_Keys\<close>: the
    Windows half of \<^verbatim>\<open>namespace.rs\<close> and \<^verbatim>\<open>router.rs\<close>, with the wildcard matcher; routing is a prefix of
    folded components.
  \<^item> \<open>Win_Base\<close>, \<open>Win_Files\<close>, \<open>Win_Paths\<close> (\<^verbatim>\<open>shims/windows.rs\<close>): every Windows shim as an action on the
    state of the calling thread.  \<open>Win_Calls\<close> makes a call a value, so that \<open>Win_Shims\<close> states once for all
    shims what they pass on, what they keep inside and what they write.

  \<^bold>\<open>Conventions.\<close>  Errors are values of sums.  Locks are taken for one operation, so an operation is a
  state transformer; files shared between handles live in a store with reference counts.  A hash map is
  an association list in an unspecified order.  Loops of the source are recursive functions; loops with
  a bound in the source (\<open>MAX_DYN\<close>, \<open>MAX_RELOCS\<close>, \<open>MAX_NAME_LEN\<close>, \<open>MAX_CSTR\<close>,
  \<open>MAX_COMMANDS\<close>, \<open>MAX_BIND_BYTES\<close>) recurse on what is left of it, so no
  fuel is added.  File fields and addresses of images are words of their width; elsewhere \<^verbatim>\<open>u64\<close> is a natural
  number with saturation, overflow checks and wrap-around written out.  Unchecked additions wrap, as in a
  release build.

  \<^bold>\<open>Parameters.\<close>  The C library, the kernel, the dynamic loader, the clock, the random mount
  identifier and the streams that a client mounts are arguments; what the code relies on is stated as
  locale assumptions or hypotheses, and each is shown to hold for a concrete instance.

  \<^bold>\<open>Not modelled.\<close>  The assembly of the open trampolines, whose entries are modelled, and the layout of the
  C structures, which the compiler fixes; the panic firewall never fires, since the modelled providers
  are total.  Re-exports, formatting of errors for display, and the tests.
\<close>

end
